(* ===== verification/Prelude.thy ===== *)
theory Prelude
  imports Complex_Main
begin

text \<open>
  The part of the JavaScript language and standard library that the modelled TypeScript
  uses, and the generic lemmas the component theories share.

  A string of the source is a HOL \<open>string\<close>, one \<open>char\<close> per UTF-16 code unit below 256.
  That is exact for header values (byte strings), URL paths, tokens, ids, timestamps,
  SQL enumeration values and Base64 text. The functions whose result depends on wider
  code units are modelled over \<open>16 word\<close> lists in the theory \<open>Py_Json\<close>.

  JSON values and database cells are the datatype \<open>json\<close>. Its numbers are the integers
  the handlers exchange (ids, counters, statuses); \<open>Number()\<close> applied to text yields a
  \<open>jsnum\<close>, which keeps NaN and the infinities and is otherwise an exact rational.
\<close>

named_theorems js_defs \<open>definitions of the JavaScript library functions\<close>

subsection \<open>Characters and strings\<close>

abbreviation code_unit :: "char \<Rightarrow> nat" where
  "code_unit c \<equiv> of_char c"

definition is_digit :: "char \<Rightarrow> bool" where
  "is_digit c \<longleftrightarrow> 48 \<le> code_unit c \<and> code_unit c \<le> 57"

definition is_hex_lower :: "char \<Rightarrow> bool" where
  "is_hex_lower c \<longleftrightarrow> is_digit c \<or> (97 \<le> code_unit c \<and> code_unit c \<le> 102)"

definition is_hex :: "char \<Rightarrow> bool" where
  "is_hex c \<longleftrightarrow> is_hex_lower c \<or> (65 \<le> code_unit c \<and> code_unit c \<le> 70)"

definition is_upper_ascii :: "char \<Rightarrow> bool" where
  "is_upper_ascii c \<longleftrightarrow> 65 \<le> code_unit c \<and> code_unit c \<le> 90"

definition is_lower_ascii :: "char \<Rightarrow> bool" where
  "is_lower_ascii c \<longleftrightarrow> 97 \<le> code_unit c \<and> code_unit c \<le> 122"

definition is_alpha :: "char \<Rightarrow> bool" where
  "is_alpha c \<longleftrightarrow> is_upper_ascii c \<or> is_lower_ascii c"

definition js_space :: "char \<Rightarrow> bool" where
  "js_space c \<longleftrightarrow> code_unit c \<in> {9, 10, 11, 12, 13, 32, 160}"

definition lower_char :: "char \<Rightarrow> char" where
  "lower_char c =
     (let n = code_unit c in
      if (65 \<le> n \<and> n \<le> 90) \<or> (192 \<le> n \<and> n \<le> 222 \<and> n \<noteq> 215) then char_of (n + 32) else c)"

definition toLowerCase :: "string \<Rightarrow> string" where
  "toLowerCase s = map lower_char s"

definition upper_char :: "char \<Rightarrow> string" where
  "upper_char c =
     (let n = code_unit c in
      if n = 223 then ''SS''
      else if (97 \<le> n \<and> n \<le> 122) \<or> (224 \<le> n \<and> n \<le> 254 \<and> n \<noteq> 247) then [char_of (n - 32)]
      else [c])"

definition toUpperCase :: "string \<Rightarrow> string" where
  "toUpperCase s = concat (map upper_char s)"

definition trimStart :: "string \<Rightarrow> string" where
  "trimStart s = dropWhile js_space s"

definition js_trim :: "string \<Rightarrow> string" where
  "js_trim s = rev (dropWhile js_space (rev (trimStart s)))"

definition startsWith :: "string \<Rightarrow> string \<Rightarrow> bool" where
  "startsWith s p \<longleftrightarrow> take (length p) s = p"

definition endsWith :: "string \<Rightarrow> string \<Rightarrow> bool" where
  "endsWith s p \<longleftrightarrow> length p \<le> length s \<and> drop (length s - length p) s = p"

fun str_includes :: "string \<Rightarrow> string \<Rightarrow> bool" where
  "str_includes [] p = (p = [])"
| "str_includes (c # s) p = (startsWith (c # s) p \<or> str_includes s p)"

text \<open>\<open>s.split(sep)\<close> for a one-character separator.\<close>

fun split_on :: "char \<Rightarrow> string \<Rightarrow> string list" where
  "split_on d [] = [[]]"
| "split_on d (c # s) =
     (if c = d then [] # split_on d s
      else (case split_on d s of [] \<Rightarrow> [[c]] | w # ws \<Rightarrow> (c # w) # ws))"

fun join :: "string \<Rightarrow> string list \<Rightarrow> string" where
  "join sep [] = []"
| "join sep [w] = w"
| "join sep (w # ws) = w @ sep @ join sep ws"

definition padStart :: "nat \<Rightarrow> char \<Rightarrow> string \<Rightarrow> string" where
  "padStart n c s = replicate (n - length s) c @ s"

definition padEnd :: "nat \<Rightarrow> char \<Rightarrow> string \<Rightarrow> string" where
  "padEnd n c s = s @ replicate (n - length s) c"

definition str_slice :: "nat \<Rightarrow> nat \<Rightarrow> string \<Rightarrow> string" where
  "str_slice i j s = take (j - i) (drop i s)"

definition replace_char :: "char \<Rightarrow> char \<Rightarrow> string \<Rightarrow> string" where
  "replace_char a b s = map (\<lambda>c. if c = a then b else c) s"

text \<open>\<open>x || y\<close> on strings.\<close>

definition or_else :: "string \<Rightarrow> string \<Rightarrow> string" where
  "or_else a b = (if a = [] then b else a)"

text \<open>\<open>value || ""\<close> on an optional environment variable or header.\<close>

definition or_empty :: "string option \<Rightarrow> string" where
  "or_empty v = (case v of None \<Rightarrow> [] | Some s \<Rightarrow> s)"

subsection \<open>Decimal numerals\<close>

definition digit_char :: "nat \<Rightarrow> char" where
  "digit_char n = char_of (48 + n)"

definition digit_val :: "char \<Rightarrow> nat" where
  "digit_val c = code_unit c - 48"

fun nat_dec :: "nat \<Rightarrow> string" where
  "nat_dec n = (if n < 10 then [digit_char n] else nat_dec (n div 10) @ [digit_char (n mod 10)])"

declare nat_dec.simps [simp del]

definition int_dec :: "int \<Rightarrow> string" where
  "int_dec i = (if i < 0 then CHR ''-'' # nat_dec (nat (- i)) else nat_dec (nat i))"

definition dec_val :: "string \<Rightarrow> nat" where
  "dec_val s = foldl (\<lambda>a c. 10 * a + digit_val c) 0 s"

lemma of_char_digit_char [simp]: "n < 10 \<Longrightarrow> of_char (digit_char n) = (48 + n :: nat)"
  by (simp add: digit_char_def)

lemma is_digit_digit_char [simp]: "n < 10 \<Longrightarrow> is_digit (digit_char n)"
  by (simp add: is_digit_def)

lemma digit_val_digit_char [simp]: "n < 10 \<Longrightarrow> digit_val (digit_char n) = n"
  by (simp add: digit_val_def)

lemma digit_val_less [simp]: "is_digit c \<Longrightarrow> digit_val c < 10"
  by (auto simp: is_digit_def digit_val_def)

lemma digit_char_digit_val [simp]: "is_digit c \<Longrightarrow> digit_char (digit_val c) = c"
  by (simp add: is_digit_def digit_val_def digit_char_def)

lemma nat_dec_nonempty [simp]: "nat_dec n \<noteq> []"
  by (subst nat_dec.simps) simp

lemma nat_dec_digits: "list_all is_digit (nat_dec n)"
proof (induction n rule: nat_dec.induct)
  case (1 n)
  then show ?case
    by (cases "n < 10") (simp_all add: nat_dec.simps [of n])
qed

lemma dec_val_append [simp]: "dec_val (s @ [c]) = 10 * dec_val s + digit_val c"
  by (simp add: dec_val_def)

lemma dec_val_nat_dec [simp]: "dec_val (nat_dec n) = n"
proof (induction n rule: nat_dec.induct)
  case (1 n)
  show ?case
  proof (cases "n < 10")
    case True
    then show ?thesis by (simp add: nat_dec.simps [of n] dec_val_def)
  next
    case False
    with 1 show ?thesis by (simp add: nat_dec.simps [of n])
  qed
qed

lemma dec_val_replicate0: "dec_val (replicate k (digit_char 0) @ s) = dec_val s"
proof -
  have "foldl (\<lambda>a c. 10 * a + digit_val c) 0 (replicate k (digit_char 0)) = 0"
    by (induction k) simp_all
  then show ?thesis by (simp add: dec_val_def)
qed

lemma length_nat_dec_le: "n < 10 ^ k \<Longrightarrow> 0 < k \<Longrightarrow> length (nat_dec n) \<le> k"
proof (induction n arbitrary: k rule: nat_dec.induct)
  case (1 n)
  show ?case
  proof (cases "n < 10")
    case True
    with 1 show ?thesis by (simp add: nat_dec.simps [of n])
  next
    case False
    obtain j where k: "k = Suc j" using 1(3) by (cases k) auto
    with 1(2) False have j: "0 < j" by (cases j) auto
    from 1(2) k have "n < 10 * 10 ^ j" by simp
    then have "n div 10 < 10 ^ j" by (simp add: less_mult_imp_div_less mult.commute)
    with 1(1) [OF False] j have "length (nat_dec (n div 10)) \<le> j" by blast
    with False k show ?thesis by (simp add: nat_dec.simps [of n])
  qed
qed

subsection \<open>JSON values\<close>

datatype 's json =
    JUndef
  | JNull
  | JBool bool
  | JNum int
  | JStr 's
  | JArr "'s json list"
  | JObj "('s \<times> 's json) list"

type_synonym jv = "string json"

definition fields :: "jv \<Rightarrow> (string \<times> jv) list" where
  "fields v = (case v of JObj kvs \<Rightarrow> kvs | _ \<Rightarrow> [])"

text \<open>\<open>row.key\<close>, \<open>undefined\<close> when the key is absent.\<close>

definition jget :: "jv \<Rightarrow> string \<Rightarrow> jv" where
  "jget v k = (case map_of (fields v) k of None \<Rightarrow> JUndef | Some x \<Rightarrow> x)"

definition has_own :: "jv \<Rightarrow> string \<Rightarrow> bool" where
  "has_own v k \<longleftrightarrow> k \<in> fst ` set (fields v)"

text \<open>\<open>v == null\<close> and \<open>v == null || v === ""\<close>.\<close>

definition nullish :: "jv \<Rightarrow> bool" where
  "nullish v \<longleftrightarrow> v = JNull \<or> v = JUndef"

definition blank :: "jv \<Rightarrow> bool" where
  "blank v \<longleftrightarrow> nullish v \<or> v = JStr []"

text \<open>\<open>a ?? b\<close>.\<close>

definition coalesce :: "jv \<Rightarrow> jv \<Rightarrow> jv" where
  "coalesce a b = (if nullish a then b else a)"

definition truthy :: "jv \<Rightarrow> bool" where
  "truthy v = (case v of JUndef \<Rightarrow> False | JNull \<Rightarrow> False | JBool b \<Rightarrow> b | JNum n \<Rightarrow> n \<noteq> 0
     | JStr s \<Rightarrow> s \<noteq> [] | JArr _ \<Rightarrow> True | JObj _ \<Rightarrow> True)"

definition is_object :: "jv \<Rightarrow> bool" where
  "is_object v = (case v of JObj _ \<Rightarrow> True | _ \<Rightarrow> False)"

text \<open>\<open>String(v)\<close>; an array joins its elements, \<open>null\<close> and \<open>undefined\<close> elements being empty.\<close>

fun js_String :: "jv \<Rightarrow> string" where
  "js_String JUndef = ''undefined''"
| "js_String JNull = ''null''"
| "js_String (JBool b) = (if b then ''true'' else ''false'')"
| "js_String (JNum n) = int_dec n"
| "js_String (JStr s) = s"
| "js_String (JArr vs) = join '','' (map (\<lambda>v. if nullish v then [] else js_String v) vs)"
| "js_String (JObj _) = ''[object Object]''"

subsection \<open>Number\<close>

datatype jsnum = NaN | PosInf | NegInf | Fin rat

definition take_digits :: "string \<Rightarrow> string \<times> string" where
  "take_digits s = (takeWhile is_digit s, dropWhile is_digit s)"

definition strip_sign :: "string \<Rightarrow> int \<times> string" where
  "strip_sign s = (case s of
       [] \<Rightarrow> (1, [])
     | c # r \<Rightarrow> if c = CHR ''-'' then (-1, r) else if c = CHR ''+'' then (1, r) else (1, s))"

text \<open>The exponent part of a decimal literal; \<open>None\<close> when the text is not one.\<close>

definition exponent_of :: "string \<Rightarrow> int option" where
  "exponent_of s = (case s of
       [] \<Rightarrow> Some 0
     | c # r \<Rightarrow>
         if c = CHR ''e'' \<or> c = CHR ''E'' then
           (let (sg, ds) = strip_sign r in
            if ds \<noteq> [] \<and> list_all is_digit ds then Some (sg * int (dec_val ds)) else None)
         else None)"

definition pow10 :: "int \<Rightarrow> rat" where
  "pow10 e = (if 0 \<le> e then 10 ^ nat e else 1 / 10 ^ nat (- e))"

definition unsigned_decimal :: "string \<Rightarrow> rat option" where
  "unsigned_decimal s =
     (let (ip, r) = take_digits s;
          (fp, r') = (case r of c # r1 \<Rightarrow> if c = CHR ''.'' then take_digits r1 else ([], r) | [] \<Rightarrow> ([], r))
      in if ip = [] \<and> fp = [] then None
         else (case exponent_of r' of
                 None \<Rightarrow> None
               | Some e \<Rightarrow> Some ((of_nat (dec_val (ip @ fp)) / 10 ^ length fp) * pow10 e)))"

definition hex_val :: "char \<Rightarrow> nat" where
  "hex_val c = (let n = code_unit c in if is_digit c then n - 48 else if 97 \<le> n then n - 87 else n - 55)"

definition radix_val :: "nat \<Rightarrow> string \<Rightarrow> nat" where
  "radix_val b s = foldl (\<lambda>a c. b * a + hex_val c) 0 s"

definition radix_literal :: "string \<Rightarrow> rat option" where
  "radix_literal s = (case s of
       z # x # r \<Rightarrow>
         if z \<noteq> CHR ''0'' \<or> r = [] then None
         else if x \<in> {CHR ''x'', CHR ''X''} then
           (if list_all is_hex r then Some (of_nat (radix_val 16 r)) else None)
         else if x \<in> {CHR ''o'', CHR ''O''} then
           (if list_all (\<lambda>c. is_digit c \<and> hex_val c < 8) r then Some (of_nat (radix_val 8 r)) else None)
         else if x \<in> {CHR ''b'', CHR ''B''} then
           (if list_all (\<lambda>c. is_digit c \<and> hex_val c < 2) r then Some (of_nat (radix_val 2 r)) else None)
         else None
     | _ \<Rightarrow> None)"

text \<open>\<open>Number(s)\<close> for text. The value of a decimal literal is exact here; the source rounds
  it to a double, which differs only beyond 15 significant digits.\<close>

definition num_of_string :: "string \<Rightarrow> jsnum" where
  "num_of_string raw =
     (let s = js_trim raw in
      if s = [] then Fin 0
      else case radix_literal s of
        Some q \<Rightarrow> Fin q
      | None \<Rightarrow>
         (let (sg, body) = strip_sign s in
          if body = ''Infinity'' then (if sg < 0 then NegInf else PosInf)
          else case unsigned_decimal body of None \<Rightarrow> NaN | Some q \<Rightarrow> Fin (of_int sg * q)))"

fun js_Number :: "jv \<Rightarrow> jsnum" where
  "js_Number JUndef = NaN"
| "js_Number JNull = Fin 0"
| "js_Number (JBool b) = Fin (if b then 1 else 0)"
| "js_Number (JNum n) = Fin (of_int n)"
| "js_Number (JStr s) = num_of_string s"
| "js_Number (JArr vs) = num_of_string (js_String (JArr vs))"
| "js_Number (JObj _) = NaN"

definition is_finite :: "jsnum \<Rightarrow> bool" where
  "is_finite n = (case n of Fin _ \<Rightarrow> True | _ \<Rightarrow> False)"

lemmas [js_defs] = is_digit_def is_hex_lower_def is_hex_def is_upper_ascii_def is_lower_ascii_def
  is_alpha_def js_space_def lower_char_def toLowerCase_def upper_char_def toUpperCase_def
  trimStart_def js_trim_def startsWith_def endsWith_def padStart_def padEnd_def str_slice_def
  replace_char_def or_else_def or_empty_def digit_char_def digit_val_def int_dec_def dec_val_def
  fields_def jget_def has_own_def nullish_def blank_def coalesce_def truthy_def is_object_def
  take_digits_def strip_sign_def exponent_of_def pow10_def unsigned_decimal_def hex_val_def
  radix_val_def radix_literal_def num_of_string_def is_finite_def nat_dec.simps

subsection \<open>Generic lemmas\<close>

lemma split_on_nonempty [simp]: "split_on d s \<noteq> []"
  by (induction s) (auto split: list.splits)

lemma join_split_on: "join [d] (split_on d s) = s"
proof (induction s)
  case Nil
  then show ?case by simp
next
  case (Cons c s)
  obtain w ws where s: "split_on d s = w # ws" by (cases "split_on d s") auto
  with Cons show ?case by (cases ws) auto
qed

lemma split_on_free: "d \<notin> set s \<Longrightarrow> split_on d s = [s]"
  by (induction s) auto

lemma split_on_append_sep: "d \<notin> set s \<Longrightarrow> split_on d (s @ d # t) = s # split_on d t"
  by (induction s) auto

lemma split_on_no_sep: "w \<in> set (split_on d s) \<Longrightarrow> d \<notin> set w"
  by (induction s arbitrary: w) (auto split: list.splits if_splits)

lemma startsWith_append [simp]: "startsWith (p @ s) p"
  by (simp add: startsWith_def)

lemma startsWith_code [simp]:
  "startsWith s []" "startsWith (c # s) (d # p) \<longleftrightarrow> c = d \<and> startsWith s p" "\<not> startsWith [] (d # p)"
  by (auto simp: startsWith_def)

lemma startsWithE: "startsWith s p \<Longrightarrow> (\<And>t. s = p @ t \<Longrightarrow> P) \<Longrightarrow> P"
  unfolding startsWith_def by (metis append_take_drop_id)

lemma takeWhile_all: "list_all P s \<Longrightarrow> takeWhile P s = s"
  by (induction s) auto

lemma length_padStart: "length s \<le> n \<Longrightarrow> length (padStart n c s) = n"
  by (simp add: padStart_def)

lemma sum_list_update_int:
  fixes f :: "'a \<Rightarrow> int"
  shows "i < length xs \<Longrightarrow> sum_list (map f (xs[i := x])) = sum_list (map f xs) - f (xs ! i) + f x"
proof (induction xs arbitrary: i)
  case Nil
  then show ?case by simp
next
  case (Cons y ys)
  then show ?case by (cases i) auto
qed

lemma card_image_cong:
  assumes "\<And>x y. x \<in> A \<Longrightarrow> y \<in> A \<Longrightarrow> f x = f y \<longleftrightarrow> g x = g y"
  shows "card (f ` A) = card (g ` A)"
proof -
  have pick: "g (inv_into A f (f x)) = g x" if "x \<in> A" for x
    using assms [OF inv_into_into [OF imageI [OF that]] that] f_inv_into_f [OF imageI [OF that]] by blast
  have "bij_betw (\<lambda>y. g (inv_into A f y)) (f ` A) (g ` A)"
    using assms pick by (auto simp: bij_betw_def inj_on_def image_image)
  then show ?thesis by (rule bij_betw_same_card)
qed

lemma find_snoc: "find P (xs @ [x]) = (case find P xs of None \<Rightarrow> if P x then Some x else None | Some y \<Rightarrow> Some y)"
  by (induction xs) auto

end
