(* ===== verification/Owner.thy ===== *)
theory Owner
  imports Prelude
begin

text \<open>
  \<open>services/gateway/src/routes/owner.ts\<close>: which worker answers a path the gateway does not
  handle itself. A pattern \<open>/^\/api\/v1\/a\/[^/]+$/\<close> is a list of segments matched against the
  path split at \<open>/\<close>; the rules are tried in the order of the source, the first one that applies
  decides.
\<close>

subsection \<open>Path patterns\<close>

datatype seg = Lit string | Any | One_Of "string list"

fun seg_match :: "seg \<Rightarrow> string \<Rightarrow> bool" where
  "seg_match (Lit l) s = (s = l)"
| "seg_match Any s = (s \<noteq> [])"
| "seg_match (One_Of ls) s = (s \<in> set ls)"

fun segs_match :: "seg list \<Rightarrow> string list \<Rightarrow> bool" where
  "segs_match [] [] = True"
| "segs_match (p # ps) (s # ss) = (seg_match p s \<and> segs_match ps ss)"
| "segs_match _ _ = False"

definition segments :: "string \<Rightarrow> string list" where
  "segments path = split_on CHR ''/'' path"

definition rx :: "seg list \<Rightarrow> string \<Rightarrow> bool" where
  "rx pat path \<longleftrightarrow> segs_match (Lit [] # Lit ''api'' # Lit ''v1'' # pat) (segments path)"

text \<open>\<open>if (condition) return answer;\<close>, one after the other; no rule answers \<open>false\<close>.\<close>

fun decide :: "(bool \<times> bool) list \<Rightarrow> bool" where
  "decide [] = False"
| "decide ((c, r) # rules) = (if c then r else decide rules)"

subsection \<open>The owners\<close>

datatype owner = Core | Python | Deny

definition ambiguous :: "string \<Rightarrow> bool" where
  "ambiguous path \<longleftrightarrow> str_includes path ''//'' \<or> str_includes (toLowerCase path) ''%2f'' \<or> str_includes (toLowerCase path) ''%5c''"

definition python_rules :: "string \<Rightarrow> string \<Rightarrow> (bool \<times> bool) list" where
  "python_rules m path =
     (let GET = (m = ''GET''); POST = (m = ''POST'') in [
       (POST \<and> path = ''/api/v1/ai/generate'', True),
       (POST \<and> rx [Lit ''applications'', Any, Lit ''resume-run''] path, True),
       (POST \<and> rx [Lit ''jobs'', Any, Lit ''analyze''] path, True),
       (POST \<and> rx [Lit ''interviews'', Any, Lit ''prepare''] path, True),
       (POST \<and> rx [Lit ''documents'', Any, Lit ''revisions''] path, True),
       (GET \<and> rx [Lit ''documents'', Any, Lit ''versions'', Any, Lit ''export''] path, True),
       (POST \<and> path = ''/api/v1/career-evidence/import'', True),
       (GET \<and> rx [Lit ''sources'', Any, Lit ''profile-draft''] path, True),
       (POST \<and> path = ''/api/v1/projects/blueprints'', True),
       (POST \<and> rx [Lit ''projects'', Any, Lit ''evidence'', Any, Lit ''verify''] path, True),
       (GET \<and> (rx [Lit ''operations'', Any] path \<or> rx [Lit ''operations'', Any, Lit ''events''] path), True),
       (POST \<and> rx [Lit ''operations'', Any, One_Of [''input'', ''cancel'']] path, True),
       (path = ''/api/v1/approvals'', GET \<or> POST),
       (GET \<and> rx [Lit ''approvals'', Any] path, True),
       (POST \<and> rx [Lit ''approvals'', Any, Lit ''decision''] path, True),
       (POST \<and> rx [Lit ''conversations'', Any, Lit ''share''] path, True),
       (GET \<and> rx [Lit ''conversations'', Lit ''shared'', Any] path, True),
       (GET \<and> rx [Lit ''conversations'', Any, Lit ''artifacts''] path, True),
       (GET \<and> rx [Lit ''conversations'', Any, Lit ''turns''] path, True)])"

definition isPython :: "string \<Rightarrow> string \<Rightarrow> bool" where
  "isPython m path = decide (python_rules m path)"

definition isRecruiting :: "string \<Rightarrow> bool" where
  "isRecruiting path = decide [
     (path = ''/api/v1/postings'' \<or> startsWith path ''/api/v1/postings/'', True),
     (path = ''/api/v1/skills'', True),
     (path = ''/api/v1/search'' \<or> path = ''/api/v1/search/counts'' \<or> path = ''/api/v1/search/trending'', True),
     (path = ''/api/v1/profiles'' \<or> startsWith path ''/api/v1/profiles/'', True),
     (rx [Lit ''users'', Any, Lit ''follow''] path, True),
     (path = ''/api/v1/me'' \<or> startsWith path ''/api/v1/me/'', True),
     (path = ''/api/v1/posts'' \<or> startsWith path ''/api/v1/posts/'', True)]"

definition core_rules :: "string \<Rightarrow> string \<Rightarrow> (bool \<times> bool) list" where
  "core_rules m path =
     (let GET = (m = ''GET''); POST = (m = ''POST''); PATCH = (m = ''PATCH''); DELETE = (m = ''DELETE'') in [
       (GET \<and> rx [Lit ''auth'', Any, One_Of [''start'', ''callback'']] path, True),
       (POST \<and> (path = ''/api/v1/auth/apple/callback'' \<or> path = ''/api/v1/auth/apple/native''), True),
       (path = ''/api/v1/auth/exchange'' \<or> path = ''/api/v1/auth/refresh'' \<or> path = ''/api/v1/auth/logout'', POST),
       (POST \<and> (path = ''/api/v1/auth/email/signup'' \<or> path = ''/api/v1/auth/email/verify''
         \<or> path = ''/api/v1/auth/email/login'' \<or> path = ''/api/v1/auth/email/password-reset''
         \<or> path = ''/api/v1/auth/email/password-reset/confirm'' \<or> path = ''/api/v1/auth/phone/send''
         \<or> path = ''/api/v1/auth/phone/verify''), True),
       (path = ''/api/v1/auth/me'', False),
       (path = ''/api/v1/conversations'', POST),
       (rx [Lit ''conversations'', Any] path, PATCH \<or> DELETE),
       (rx [Lit ''conversations'', Any, One_Of [''archive'', ''unarchive'']] path, POST),
       (rx [Lit ''conversations'', Any, Lit ''messages''] path \<or> rx [Lit ''conversations'', Any, Lit ''messages'', Lit ''stream''] path, POST),
       (rx [Lit ''conversations'', Any, Lit ''attachments''] path, POST),
       (rx [Lit ''conversations'', Any, Lit ''approvals'', Any] path, POST),
       (path = ''/api/v1/billing'' \<or> path = ''/api/v1/billing/ledger'', GET),
       (path = ''/api/v1/billing/checkout'' \<or> path = ''/api/v1/billing/portal'' \<or> path = ''/api/v1/billing/webhook''
         \<or> path = ''/api/v1/billing/topup'' \<or> path = ''/api/v1/billing/iap/verify''
         \<or> path = ''/api/v1/billing/webhook/app-store'' \<or> path = ''/api/v1/billing/webhook/google-play'', POST),
       (path = ''/api/v1/ai/usage'', GET),
       (rx [Lit ''ai'', Lit ''jobs'', Any] path, GET),
       (rx [Lit ''documents'', Any, Lit ''generate''] path, POST),
       (rx [Lit ''documents'', Any, Lit ''edits''] path, POST),
       (rx [Lit ''conversations'', Any, Lit ''artifacts'', Any] path, GET),
       (path = ''/api/v1/documents'', GET \<or> POST),
       (rx [Lit ''documents'', Any] path, GET \<or> PATCH),
       (rx [Lit ''documents'', Any, One_Of [''versions'', ''exports'']] path, GET \<or> POST),
       (rx [Lit ''documents'', Any, Lit ''profile''] path, POST),
       (rx [Lit ''documents'', Any, Lit ''base-profile''] path, POST),
       (GET \<and> rx [Lit ''documents'', Lit ''shared'', Any] path, True),
       (rx [Lit ''documents'', Any, Lit ''share''] path, POST \<or> DELETE),
       (rx [Lit ''documents'', Any, Lit ''versions'', Any] path, GET),
       (rx [Lit ''documents'', Any, One_Of [''review'', ''finalize'', ''archive'']] path, POST),
       (rx [Lit ''documents'', Any, Lit ''revisions'', Any, Lit ''apply''] path, POST),
       (rx [Lit ''documents'', Any, Lit ''exports'', Any, Lit ''result''] path, POST),
       (path = ''/api/v1/sources'', GET \<or> POST),
       (rx [Lit ''sources'', Any] path, GET \<or> DELETE),
       (rx [Lit ''sources'', Any, Lit ''content''] path, GET),
       (path = ''/api/v1/uploads/images'', POST),
       (rx [Lit ''uploads'', Lit ''images'', Any] path, GET),
       (path = ''/api/v1/career-evidence'', GET \<or> POST),
       (rx [Lit ''career-evidence'', Any] path, GET \<and> path \<noteq> ''/api/v1/career-evidence/import''),
       (rx [Lit ''career-evidence'', Any, Lit ''archive''] path, POST),
       (rx [Lit ''experiments'', Any, One_Of [''assignment'', ''stats'', ''results'']] path, GET),
       (rx [Lit ''experiments'', Any, Lit ''events''] path, POST),
       (path = ''/api/v1/interviews'', GET \<or> POST),
       (rx [Lit ''interviews'', Any] path, GET \<or> PATCH),
       (path = ''/api/v1/projects'', GET),
       (rx [Lit ''projects'', Any] path, GET \<and> path \<noteq> ''/api/v1/projects/blueprints''),
       (rx [Lit ''projects'', Any, Lit ''select''] path, POST),
       (rx [Lit ''projects'', Any, One_Of [''runs'', ''evidence'']] path, GET \<or> POST),
       (rx [Lit ''projects'', Any, Lit ''runs'', Any, One_Of [''start'', ''launch'', ''recover'', ''result'']] path, POST),
       (path = ''/api/v1/integrations/google'', GET \<or> DELETE),
       (rx [Lit ''integrations'', Lit ''google'', One_Of [''connect'', ''complete'', ''sync'']] path, POST),
       (rx [Lit ''integrations'', Lit ''google'', One_Of [''callback'', ''messages'', ''events'']] path, GET),
       (rx [Lit ''integrations'', Lit ''google'', Lit ''messages'', Any, Lit ''link''] path, POST),
       (path = ''/api/v1/applications'', GET \<or> POST),
       (path = ''/api/v1/applications/import'', POST),
       (rx [Lit ''applications'', Any] path, GET \<or> PATCH),
       (rx [Lit ''applications'', Any, One_Of [''timeline'', ''checklist'']] path, GET),
       (rx [Lit ''applications'', Any, Lit ''submission-drafts''] path, POST),
       (rx [Lit ''applications'', Any, Lit ''submissions''] path, GET \<or> POST),
       (path = ''/api/v1/jobs'', GET \<or> POST),
       (rx [Lit ''jobs'', Any, Lit ''analyses''] path, GET),
       (rx [Lit ''jobs'', Any] path, GET \<or> PATCH),
       (path = ''/api/v1/calendar/events'', GET \<or> POST),
       (rx [Lit ''calendar'', Lit ''events'', Any] path, PATCH \<or> DELETE),
       (POST \<and> (path = ''/api/v1/internal/notifications/ai-done'' \<or> path = ''/api/v1/internal/notifications/run''), True),
       (path = ''/api/v1/companies'' \<or> startsWith path ''/api/v1/companies/'', True),
       (isRecruiting path, True)])"

definition isCore :: "string \<Rightarrow> string \<Rightarrow> bool" where
  "isCore m path = decide (core_rules m path)"

definition ownerOf :: "string \<Rightarrow> string \<Rightarrow> owner" where
  "ownerOf m path =
     (if ambiguous path then Deny
      else if path = ''/internal'' \<or> startsWith path ''/internal/'' then Deny
      else if isPython m path then Python
      else if isCore m path then Core
      else Deny)"

subsection \<open>Patterns and prefixes\<close>

lemma segs_match_length: "segs_match ps ss \<Longrightarrow> length ss = length ps"
  by (induction ps ss rule: segs_match.induct) auto

lemma segs_match_Cons: "segs_match (p # ps) ss \<longleftrightarrow> (\<exists>s ss'. ss = s # ss' \<and> seg_match p s \<and> segs_match ps ss')"
  by (cases ss) auto

lemma segs_match_Nil: "segs_match [] ss \<longleftrightarrow> ss = []"
  by (cases ss) auto

lemma rx_prefix:
  assumes "rx (p # ps) path"
  shows "startsWith path ''/api/v1/''"
proof -
  from assms obtain s ss where sp: "segments path = [] # ''api'' # ''v1'' # s # ss"
    by (auto simp: rx_def segs_match_Cons)
  have "path = join [CHR ''/''] (segments path)" by (simp add: segments_def join_split_on)
  also have "\<dots> = ''/api/v1/'' @ join [CHR ''/''] (s # ss)" by (simp add: sp)
  finally show ?thesis by simp
qed

lemma starts_api:
  "startsWith path ''/api/v1/postings/'' \<Longrightarrow> startsWith path ''/api/v1/''"
  "startsWith path ''/api/v1/profiles/'' \<Longrightarrow> startsWith path ''/api/v1/''"
  "startsWith path ''/api/v1/me/'' \<Longrightarrow> startsWith path ''/api/v1/''"
  "startsWith path ''/api/v1/posts/'' \<Longrightarrow> startsWith path ''/api/v1/''"
  "startsWith path ''/api/v1/companies/'' \<Longrightarrow> startsWith path ''/api/v1/''"
  by (erule startsWithE; simp)+

definition under_api :: "string \<Rightarrow> bool" where
  "under_api path \<longleftrightarrow> startsWith path ''/api/v1/''"

lemma under_apiI: "rx (p # ps) path \<Longrightarrow> under_api path"
  by (simp add: under_api_def rx_prefix)

definition rules_under :: "string \<Rightarrow> (bool \<times> bool) list \<Rightarrow> bool" where
  "rules_under path rules \<longleftrightarrow> list_all (\<lambda>(c, r). c \<longrightarrow> under_api path) rules"

lemma decide_under: "rules_under path rules \<Longrightarrow> decide rules \<Longrightarrow> under_api path"
  by (induction rules) (auto simp: rules_under_def split: if_splits)

lemma recruiting_under: "isRecruiting path \<Longrightarrow> under_api path"
  unfolding isRecruiting_def
  by (erule decide_under [rotated])
    (auto simp: rules_under_def intro: under_apiI, auto simp: under_api_def dest: starts_api)

lemma core_rules_under: "rules_under path (core_rules m path)"
  unfolding core_rules_def Let_def rules_under_def list.pred_inject prod.case
  by (intro conjI impI TrueI; (elim conjE disjE)?; (erule under_apiI)?; (erule recruiting_under)?; (simp add: under_api_def starts_api; fail)?)


subsection \<open>The resource a path names\<close>

definition resource :: "string \<Rightarrow> string" where
  "resource path = (case segments path of _ # _ # _ # r # _ \<Rightarrow> r | _ \<Rightarrow> [])"

lemma rx_resource: "rx (Lit l # ps) path \<Longrightarrow> resource path = l"
  by (auto simp: rx_def segs_match_Cons resource_def)

lemma starts_resource:
  "startsWith path ''/api/v1/postings/'' \<Longrightarrow> resource path = ''postings''"
  "startsWith path ''/api/v1/profiles/'' \<Longrightarrow> resource path = ''profiles''"
  "startsWith path ''/api/v1/me/'' \<Longrightarrow> resource path = ''me''"
  "startsWith path ''/api/v1/posts/'' \<Longrightarrow> resource path = ''posts''"
  "startsWith path ''/api/v1/companies/'' \<Longrightarrow> resource path = ''companies''"
  "startsWith path ''/api/v1/internal/'' \<Longrightarrow> resource path = ''internal''"
  by (erule startsWithE; simp add: resource_def segments_def)+

definition rules_imply :: "bool \<Rightarrow> (bool \<times> bool) list \<Rightarrow> bool" where
  "rules_imply q rules \<longleftrightarrow> list_all (\<lambda>(c, r). c \<longrightarrow> r \<longrightarrow> q) rules"

lemma decide_implies: "rules_imply q rules \<Longrightarrow> decide rules \<Longrightarrow> q"
  by (induction rules) (auto simp: rules_imply_def split: if_splits)

definition python_resources :: "string list" where
  "python_resources = [''ai'', ''applications'', ''jobs'', ''interviews'', ''documents'', ''career-evidence'', ''sources'',
     ''projects'', ''operations'', ''approvals'', ''conversations'']"

lemma isPython_confined:
  assumes "isPython m path"
  shows "(m = ''GET'' \<or> m = ''POST'') \<and> resource path \<in> set python_resources \<and> under_api path"
proof -
  have "rules_imply ((m = ''GET'' \<or> m = ''POST'') \<and> resource path \<in> set python_resources \<and> under_api path)
    (python_rules m path)"
    by (auto simp: python_rules_def rules_imply_def Let_def python_resources_def under_api_def resource_def [of "''/api/v1/ai/generate''"]
        resource_def [of "''/api/v1/career-evidence/import''"] resource_def [of "''/api/v1/projects/blueprints''"]
        resource_def [of "''/api/v1/approvals''"] segments_def dest: rx_resource rx_prefix)
  with assms show ?thesis unfolding isPython_def by (rule decide_implies [rotated])
qed

definition internal_paths :: "string list" where
  "internal_paths = [''/api/v1/internal/notifications/ai-done'', ''/api/v1/internal/notifications/run'']"

lemma recruiting_not_internal: "isRecruiting path \<Longrightarrow> resource path \<noteq> ''internal''"
  unfolding isRecruiting_def
  by (erule decide_implies [rotated])
    (auto simp: rules_imply_def dest: rx_resource starts_resource, auto simp: resource_def segments_def)

lemma core_rules_internal:
  "rules_imply (resource path = ''internal'' \<longrightarrow> m = ''POST'' \<and> path \<in> set internal_paths) (core_rules m path)"
  unfolding core_rules_def Let_def rules_imply_def list.pred_inject prod.case internal_paths_def
  by (intro conjI impI TrueI; (elim conjE disjE)?; (drule rx_resource; simp; fail)?; (drule starts_resource; simp; fail)?;
      (drule recruiting_not_internal; simp; fail)?; (simp add: resource_def segments_def; fail)?)

text \<open>C35: What leaves the gateway. A request is forwarded only when its path lies under
  \<open>/api/v1/\<close> and has no doubled or escaped separator; the AI service sees only GET and POST of
  eleven resources, and under \<open>/api/v1/internal/\<close> nothing but the two POST notification hooks is
  reachable, whatever the method.\<close>

theorem ownerOf_confined:
  "(ownerOf m path \<noteq> Deny \<longrightarrow> under_api path \<and> \<not> ambiguous path)
   \<and> (ownerOf m path = Python \<longrightarrow> (m = ''GET'' \<or> m = ''POST'') \<and> resource path \<in> set python_resources)
   \<and> (startsWith path ''/api/v1/internal/'' \<and> ownerOf m path \<noteq> Deny \<longrightarrow>
        ownerOf m path = Core \<and> m = ''POST'' \<and> path \<in> set internal_paths)"
proof (intro conjI impI)
  assume "ownerOf m path \<noteq> Deny"
  then have "\<not> ambiguous path" and own: "isPython m path \<or> isCore m path"
    by (auto simp: ownerOf_def split: if_splits)
  then show "\<not> ambiguous path" by simp
  from own isPython_confined decide_under [OF core_rules_under] show "under_api path"
    by (auto simp: isCore_def)
next
  assume "ownerOf m path = Python"
  then have "isPython m path" by (auto simp: ownerOf_def split: if_splits)
  with isPython_confined show "m = ''GET'' \<or> m = ''POST''" "resource path \<in> set python_resources" by blast+
next
  assume a: "startsWith path ''/api/v1/internal/'' \<and> ownerOf m path \<noteq> Deny"
  then have res: "resource path = ''internal''" by (simp add: starts_resource)
  have np: "\<not> isPython m path"
    using isPython_confined [of m path] res by (auto simp: python_resources_def)
  with a have c: "isCore m path" "ownerOf m path = Core" by (auto simp: ownerOf_def split: if_splits)
  from decide_implies [OF core_rules_internal] c(1) res show "m = ''POST''" "path \<in> set internal_paths"
    unfolding isCore_def by blast+
  from c(2) show "ownerOf m path = Core" .
qed

theorem ownerOf_confined_witness:
  "ownerOf ''POST'' ''/api/v1/internal/notifications/run'' = Core
   \<and> ownerOf ''DELETE'' ''/api/v1/internal/notifications/run'' = Deny
   \<and> under_api ''/api/v1/internal/notifications/run''"
proof -
  let ?p = "''/api/v1/internal/notifications/run''"
  have amb: "\<not> ambiguous ?p" by (simp add: ambiguous_def toLowerCase_def lower_char_def)
  have np: "\<not> isPython m ?p" for m
    using isPython_confined [of m ?p] by (auto simp: resource_def segments_def python_resources_def)
  have rx: "\<not> rx (Lit l # ps) ?p" if "l \<noteq> ''internal''" for l ps
    using rx_resource [of l ps ?p] that by (auto simp: resource_def segments_def)
  have "isCore ''POST'' ?p" by (simp add: isCore_def core_rules_def rx)
  with amb np have p: "ownerOf ''POST'' ?p = Core" by (simp add: ownerOf_def)
  moreover from ownerOf_confined [of "''DELETE''" ?p] have "ownerOf ''DELETE'' ?p = Deny" by auto
  moreover from ownerOf_confined [of "''POST''" ?p] p have "under_api ?p" by simp
  ultimately show ?thesis by blast
qed
end
