(* ===== verification/Clock.thy ===== *)
theory Clock
  imports Prelude "HOL-Library.Monad_Syntax"
begin

text \<open>
  \<open>services/gateway/src/time.ts\<close>: timestamps kept as text with microseconds, and the opaque
  page cursors built from them. The calendar functions are the ECMAScript ones (\<open>Date.UTC\<close>
  and the \<open>getUTC*\<close> accessors over milliseconds since 1970). Text the timestamp pattern
  rejects goes to \<open>new Date(s)\<close>, whose result is implementation-defined: it is the parameter
  \<open>dp\<close>, which gives the milliseconds or \<open>None\<close> for an invalid date.
\<close>

subsection \<open>The calendar\<close>

definition ms_per_day :: int where "ms_per_day = 86400000"

definition is_leap :: "int \<Rightarrow> bool" where
  "is_leap y \<longleftrightarrow> y mod 4 = 0 \<and> (y mod 100 \<noteq> 0 \<or> y mod 400 = 0)"

definition day_from_year :: "int \<Rightarrow> int" where
  "day_from_year y = 365 * (y - 1970) + (y - 1969) div 4 - (y - 1901) div 100 + (y - 1601) div 400"

text \<open>The year of a day: the mean year length gives a candidate that is off by at most one.\<close>

definition year_from_day :: "int \<Rightarrow> int" where
  "year_from_day d =
     (let y = 1970 + (400 * d) div 146097
      in if d < day_from_year y then y - 1
         else if day_from_year (y + 1) \<le> d then y + 1 else y)"

definition month_start :: "bool \<Rightarrow> nat \<Rightarrow> int" where
  "month_start leap m =
     [0, 31, 59, 90, 120, 151, 181, 212, 243, 273, 304, 334] ! m + (if leap \<and> 2 \<le> m then 1 else 0)"

definition month_from_day :: "bool \<Rightarrow> int \<Rightarrow> nat" where
  "month_from_day leap n =
     (if n < month_start leap 1 then 0 else if n < month_start leap 2 then 1
      else if n < month_start leap 3 then 2 else if n < month_start leap 4 then 3
      else if n < month_start leap 5 then 4 else if n < month_start leap 6 then 5
      else if n < month_start leap 7 then 6 else if n < month_start leap 8 then 7
      else if n < month_start leap 9 then 8 else if n < month_start leap 10 then 9
      else if n < month_start leap 11 then 10 else 11)"

definition make_day :: "int \<Rightarrow> int \<Rightarrow> int \<Rightarrow> int" where
  "make_day y m dt =
     (let ym = y + m div 12; mn = nat (m mod 12)
      in day_from_year ym + month_start (is_leap ym) mn + dt - 1)"

text \<open>\<open>Date.UTC\<close>; a year from 0 to 99 counts from 1900.\<close>

definition date_utc :: "int \<Rightarrow> int \<Rightarrow> int \<Rightarrow> int \<Rightarrow> int \<Rightarrow> int \<Rightarrow> int \<Rightarrow> int" where
  "date_utc y m d h mi s ms =
     (let y' = (if 0 \<le> y \<and> y \<le> 99 then 1900 + y else y)
      in make_day y' m d * ms_per_day + h * 3600000 + mi * 60000 + s * 1000 + ms)"

definition utc_year :: "int \<Rightarrow> int" where
  "utc_year ms = year_from_day (ms div ms_per_day)"

definition utc_year_day :: "int \<Rightarrow> int" where
  "utc_year_day ms = ms div ms_per_day - day_from_year (utc_year ms)"

definition utc_month :: "int \<Rightarrow> int" where
  "utc_month ms = int (month_from_day (is_leap (utc_year ms)) (utc_year_day ms))"

definition utc_date :: "int \<Rightarrow> int" where
  "utc_date ms = utc_year_day ms - month_start (is_leap (utc_year ms)) (nat (utc_month ms)) + 1"

definition utc_hours :: "int \<Rightarrow> int" where
  "utc_hours ms = ms div 3600000 mod 24"

definition utc_minutes :: "int \<Rightarrow> int" where
  "utc_minutes ms = ms div 60000 mod 60"

definition utc_seconds :: "int \<Rightarrow> int" where
  "utc_seconds ms = ms div 1000 mod 60"

definition utc_millis :: "int \<Rightarrow> int" where
  "utc_millis ms = ms mod 1000"

lemma int_div_lower: "0 < (k::int) \<Longrightarrow> k * (x div k) \<le> x"
  using pos_mod_sign [of k x] mult_div_mod_eq [of k x] by linarith

lemma int_div_upper: "0 < (k::int) \<Longrightarrow> x < k * (x div k) + k"
  using pos_mod_bound [of k x] mult_div_mod_eq [of k x] by linarith

lemma day_from_year_upper: "400 * day_from_year y \<le> 146097 * y - 287810390"
proof -
  have "4 * ((y - 1969) div 4) \<le> y - 1969" "y - 1901 < 100 * ((y - 1901) div 100) + 100"
    "400 * ((y - 1601) div 400) \<le> y - 1601"
    by (simp_all only: int_div_lower int_div_upper zero_less_numeral)
  then show ?thesis unfolding day_from_year_def distrib_left right_diff_distrib by linarith
qed

lemma day_from_year_lower: "146097 * y - 287811790 \<le> 400 * day_from_year y"
proof -
  have "y - 1969 < 4 * ((y - 1969) div 4) + 4" "100 * ((y - 1901) div 100) \<le> y - 1901"
    "y - 1601 < 400 * ((y - 1601) div 400) + 400"
    by (simp_all only: int_div_lower int_div_upper zero_less_numeral)
  then show ?thesis unfolding day_from_year_def distrib_left right_diff_distrib by linarith
qed

lemma year_from_day_bounds:
  "day_from_year (year_from_day d) \<le> d \<and> d < day_from_year (year_from_day d + 1)"
proof -
  define q where "q = (400 * d) div 146097"
  define y where "y = 1970 + q"
  have q: "146097 * q \<le> 400 * d" "400 * d < 146097 * q + 146097"
    unfolding q_def by (simp_all only: int_div_lower int_div_upper zero_less_numeral)
  have lo: "day_from_year (y - 1) \<le> d"
    using day_from_year_upper [of "y - 1"] q unfolding y_def distrib_left right_diff_distrib by linarith
  have hi: "d < day_from_year (y + 1 + 1)"
    using day_from_year_lower [of "y + 1 + 1"] q unfolding y_def distrib_left right_diff_distrib by linarith
  show ?thesis
    using lo hi unfolding year_from_day_def Let_def q_def [symmetric] y_def [symmetric] by auto
qed

lemma day_from_year_cycle:
  "day_from_year (1601 + (400 * a + r)) =
     365 * (400 * a + r - 369) + (100 * a + r div 4 - 92) - (4 * a + r div 100 - 3) + (a + r div 400)"
proof -
  have e: "1601 + (400 * a + r) - 1969 = r + (100 * a - 92) * 4" "1601 + (400 * a + r) - 1901 = r + (4 * a - 3) * 100"
    "1601 + (400 * a + r) - 1601 = r + a * 400" by simp_all
  have "(1601 + (400 * a + r) - 1969) div 4 = (100 * a - 92) + r div 4"
    "(1601 + (400 * a + r) - 1901) div 100 = (4 * a - 3) + r div 100"
    "(1601 + (400 * a + r) - 1601) div 400 = a + r div 400"
    unfolding e by (simp_all only: div_mult_self1 zero_neq_numeral not_False_eq_True)
  then show ?thesis unfolding day_from_year_def by simp
qed

lemma year_length: "day_from_year (y + 1) - day_from_year y \<le> 366"
proof -
  define a r where "a = (y - 1601) div 400" and "r = (y - 1601) mod 400"
  have "400 * a + r = y - 1601" unfolding a_def r_def by (rule mult_div_mod_eq)
  then have y: "y = 1601 + (400 * a + r)" "y + 1 = 1601 + (400 * a + (r + 1))" by linarith+
  have r: "0 \<le> r" "r < 400" unfolding r_def by simp_all
  have q4: "(r + 1) div 4 \<le> r div 4 + 1"
    using div_add_self2 [of 4 r] zdiv_mono1 [of "r + 1" "r + 4" 4] by linarith
  have q100: "r div 100 \<le> (r + 1) div 100" by (rule zdiv_mono1) simp_all
  have q400: "(r + 1) div 400 - r div 400 \<le> (r + 1) div 100 - r div 100"
  proof (cases "r = 399")
    case True
    then show ?thesis by simp
  next
    case False
    with r have "r + 1 < 400" "0 \<le> r + 1" by linarith+
    then have "(r + 1) div 400 = 0" by (rule div_pos_pos_trivial [rotated])
    moreover from r have "r div 400 = 0" by (intro div_pos_pos_trivial)
    ultimately show ?thesis using q100 by linarith
  qed
  from q4 q400 day_from_year_cycle [of a r] day_from_year_cycle [of a "r + 1"]
  show ?thesis unfolding y(2) unfolding y(1) distrib_left right_diff_distrib by linarith
qed

lemma utc_year_day_range: "0 \<le> utc_year_day ms \<and> utc_year_day ms \<le> 365"
  using year_from_day_bounds [of "ms div ms_per_day"] year_length [of "utc_year ms"]
  unfolding utc_year_day_def utc_year_def by linarith

lemma month_from_day_less [simp]: "month_from_day leap n < 12"
  by (simp add: month_from_day_def)

lemma month_day_range:
  assumes "0 \<le> n" "n \<le> 365"
  shows "0 \<le> n - month_start leap (month_from_day leap n) \<and> n - month_start leap (month_from_day leap n) \<le> 31"
proof -
  have gaps: "month_start leap 0 = 0" "month_start leap 11 \<ge> 334"
    "\<And>m. m < 11 \<Longrightarrow> month_start leap (Suc m) - month_start leap m \<le> 31"
    by (auto simp: month_start_def less_Suc_eq numeral_eq_Suc)
  show ?thesis
    using assms gaps(1,2) gaps(3)[of 0] gaps(3)[of 1] gaps(3)[of 2] gaps(3)[of 3] gaps(3)[of 4] gaps(3)[of 5]
      gaps(3)[of 6] gaps(3)[of 7] gaps(3)[of 8] gaps(3)[of 9] gaps(3)[of 10]
    unfolding month_from_day_def by (simp add: eval_nat_numeral split: if_splits)
qed

lemma utc_month_range: "0 \<le> utc_month ms \<and> utc_month ms < 12"
  using month_from_day_less [of "is_leap (utc_year ms)" "utc_year_day ms"]
  unfolding utc_month_def by linarith

lemma utc_date_range: "1 \<le> utc_date ms \<and> utc_date ms \<le> 32"
  using month_day_range [of "utc_year_day ms" "is_leap (utc_year ms)"] utc_year_day_range [of ms]
  unfolding utc_date_def utc_month_def by simp

lemma make_day_split: "make_day (utc_year ms) (utc_month ms) (utc_date ms) = ms div ms_per_day"
  using utc_month_range [of ms]
  by (simp add: make_day_def utc_date_def utc_year_day_def)

lemma time_split: "(ms::int) div 1000 * 1000
    = ms div 86400000 * 86400000 + (ms div 3600000 mod 24) * 3600000
      + (ms div 60000 mod 60) * 60000 + (ms div 1000 mod 60) * 1000"
proof -
  define x where "x = ms div 1000"
  have d: "ms div 60000 = x div 60" "ms div 3600000 = x div 60 div 60" "ms div 86400000 = x div 60 div 60 div 24"
    unfolding x_def by (simp_all add: zdiv_zmult2_eq [symmetric])
  have "x = 60 * (x div 60) + x mod 60" "x div 60 = 60 * (x div 60 div 60) + x div 60 mod 60"
    "x div 60 div 60 = 24 * (x div 60 div 60 div 24) + x div 60 div 60 mod 24" by simp_all
  then show ?thesis unfolding d x_def [symmetric] by linarith
qed

text \<open>Reading the parts of an instant and building it again gives the instant.\<close>

lemma date_utc_split:
  assumes "\<not> (0 \<le> utc_year ms \<and> utc_year ms \<le> 99)"
  shows "date_utc (utc_year ms) (utc_month ms) (utc_date ms) (utc_hours ms) (utc_minutes ms) (utc_seconds ms) r
    = ms div 1000 * 1000 + r"
proof -
  have "date_utc (utc_year ms) (utc_month ms) (utc_date ms) (utc_hours ms) (utc_minutes ms) (utc_seconds ms) r
     = ms div ms_per_day * ms_per_day + utc_hours ms * 3600000 + utc_minutes ms * 60000 + utc_seconds ms * 1000 + r"
    using assms make_day_split [of ms] by (simp only: date_utc_def Let_def if_False)
  also have "\<dots> = ms div 1000 * 1000 + r"
    by (simp only: time_split [of ms] utc_hours_def utc_minutes_def utc_seconds_def ms_per_day_def)
  finally show ?thesis .
qed

subsection \<open>Parsing and printing\<close>

record utc_parts =
  p_y :: string
  p_mo :: string
  p_d :: string
  p_h :: string
  p_mi :: string
  p_s :: string
  p_micros :: int

datatype time_value = TDate int | TText string

definition pad :: "int \<Rightarrow> nat \<Rightarrow> string" where
  "pad n width = padStart width (CHR ''0'') (int_dec n)"

definition fromEpoch :: "int \<Rightarrow> int \<Rightarrow> utc_parts" where
  "fromEpoch ms micros =
     \<lparr>p_y = int_dec (utc_year ms), p_mo = pad (utc_month ms + 1) 2, p_d = pad (utc_date ms) 2,
      p_h = pad (utc_hours ms) 2, p_mi = pad (utc_minutes ms) 2, p_s = pad (utc_seconds ms) 2,
      p_micros = micros\<rparr>"

text \<open>The pattern of \<open>parseUtc\<close>, as a deterministic scanner.\<close>

definition scan_digits :: "nat \<Rightarrow> string \<Rightarrow> (string \<times> string) option" where
  "scan_digits n s =
     (if n \<le> length s \<and> list_all is_digit (take n s) then Some (take n s, drop n s) else None)"

definition scan_char :: "string \<Rightarrow> string \<Rightarrow> string option" where
  "scan_char cs s = (case s of [] \<Rightarrow> None | c # r \<Rightarrow> if c \<in> set cs then Some r else None)"

definition scan_fraction :: "string \<Rightarrow> (string \<times> string) option" where
  "scan_fraction s = (case s of
       [] \<Rightarrow> Some ([], [])
     | c # r \<Rightarrow> if c = CHR ''.''
         then (case take_digits r of (ds, r') \<Rightarrow> if ds = [] then None else Some (ds, r'))
         else Some ([], s))"

text \<open>The zone: the sign and its digits, \<open>None\<close> for \<open>Z\<close> and for no zone at all.\<close>

definition scan_zone :: "string \<Rightarrow> (int \<times> string) option option" where
  "scan_zone s = (case s of
       [] \<Rightarrow> Some None
     | c # r \<Rightarrow>
         if s = ''Z'' then Some None
         else if c = CHR ''+'' \<or> c = CHR ''-'' then
           do {
             (hh, r1) \<leftarrow> scan_digits 2 r;
             let sg = (if c = CHR ''-'' then -1 else 1);
             if r1 = [] then Some (Some (sg, hh))
             else do {
               let r2 = (if hd r1 = CHR '':'' then tl r1 else r1);
               (mm, r3) \<leftarrow> scan_digits 2 r2;
               if r3 = [] then Some (Some (sg, hh @ mm)) else None
             }
           }
         else None)"

record stamp =
  st_y :: string
  st_mo :: string
  st_d :: string
  st_h :: string
  st_mi :: string
  st_s :: string
  st_frac :: string
  st_zone :: "(int \<times> string) option"

definition match_stamp :: "string \<Rightarrow> stamp option" where
  "match_stamp s0 = do {
     (y, s) \<leftarrow> scan_digits 4 s0; s \<leftarrow> scan_char ''-'' s;
     (mo, s) \<leftarrow> scan_digits 2 s; s \<leftarrow> scan_char ''-'' s;
     (d, s) \<leftarrow> scan_digits 2 s; s \<leftarrow> scan_char ''T '' s;
     (h, s) \<leftarrow> scan_digits 2 s; s \<leftarrow> scan_char '':'' s;
     (mi, s) \<leftarrow> scan_digits 2 s; s \<leftarrow> scan_char '':'' s;
     (sec, s) \<leftarrow> scan_digits 2 s;
     (frac, s) \<leftarrow> scan_fraction s;
     zone \<leftarrow> scan_zone s;
     Some \<lparr>st_y = y, st_mo = mo, st_d = d, st_h = h, st_mi = mi, st_s = sec,
           st_frac = frac, st_zone = zone\<rparr>
   }"

definition zone_offset :: "(int \<times> string) option \<Rightarrow> int" where
  "zone_offset z = (case z of
       None \<Rightarrow> 0
     | Some (sg, ds) \<Rightarrow> sg * (int (dec_val (take 2 ds)) * 60 + int (dec_val (drop 2 ds))))"

definition stamp_micros :: "stamp \<Rightarrow> int" where
  "stamp_micros m = int (dec_val (take 6 (padEnd 6 (CHR ''0'') (st_frac m))))"

definition stamp_ms :: "stamp \<Rightarrow> int" where
  "stamp_ms m = date_utc (int (dec_val (st_y m))) (int (dec_val (st_mo m)) - 1) (int (dec_val (st_d m)))
     (int (dec_val (st_h m))) (int (dec_val (st_mi m)) - zone_offset (st_zone m)) (int (dec_val (st_s m)))
     (stamp_micros m div 1000)"

text \<open>\<open>None\<close> is the thrown \<open>bad timestamp\<close>.\<close>

definition parseUtc :: "(string \<Rightarrow> int option) \<Rightarrow> time_value \<Rightarrow> utc_parts option" where
  "parseUtc dp v = (case v of
       TDate ms \<Rightarrow> Some (fromEpoch ms (utc_millis ms * 1000))
     | TText raw \<Rightarrow>
         (let s = js_trim raw in
          case match_stamp s of
            None \<Rightarrow> (case dp s of None \<Rightarrow> None | Some ms \<Rightarrow> Some (fromEpoch ms (utc_millis ms * 1000)))
          | Some m \<Rightarrow> Some (fromEpoch (stamp_ms m) (stamp_micros m))))"

definition base_text :: "utc_parts \<Rightarrow> string" where
  "base_text p = p_y p @ ''-'' @ p_mo p @ ''-'' @ p_d p @ ''T'' @ p_h p @ '':'' @ p_mi p @ '':'' @ p_s p"

definition parts_text :: "utc_parts \<Rightarrow> string" where
  "parts_text p = (if p_micros p = 0 then base_text p @ ''Z''
     else base_text p @ ''.'' @ pad (p_micros p) 6 @ ''Z'')"

definition formatJsonTimestamp :: "(string \<Rightarrow> int option) \<Rightarrow> time_value \<Rightarrow> string option" where
  "formatJsonTimestamp dp v = map_option parts_text (parseUtc dp v)"

definition formatCursorTimestamp :: "(string \<Rightarrow> int option) \<Rightarrow> time_value \<Rightarrow> string option" where
  "formatCursorTimestamp dp v = formatJsonTimestamp dp v"

subsection \<open>Printing then parsing\<close>

lemma digit_char_0: "digit_char 0 = CHR ''0''"
  by (simp add: digit_char_def char_of_eq_iff take_bit_nat_def)

lemma pad_props:
  assumes "0 \<le> n" "n < 10 ^ w" "0 < w"
  shows "length (pad n w) = w" and "list_all is_digit (pad n w)" and "dec_val (pad n w) = nat n"
proof -
  from assms have "nat n < 10 ^ w" by (simp add: nat_less_iff)
  then have len: "length (nat_dec (nat n)) \<le> w" using assms(3) by (rule length_nat_dec_le)
  have zero: "CHR ''0'' = digit_char 0" by (simp add: digit_char_0)
  have p: "pad n w = replicate (w - length (nat_dec (nat n))) (digit_char 0) @ nat_dec (nat n)"
    using assms(1) by (simp add: pad_def padStart_def int_dec_def zero)
  show "length (pad n w) = w" using len by (simp add: p)
  show "list_all is_digit (pad n w)" using nat_dec_digits [of "nat n"] is_digit_digit_char [of 0]
    by (auto simp: p list_all_iff)
  show "dec_val (pad n w) = nat n" by (simp add: p dec_val_replicate0)
qed

lemma scan_digits_append [simp]:
  "length a = n \<Longrightarrow> list_all is_digit a \<Longrightarrow> scan_digits n (a @ r) = Some (a, r)"
  by (simp add: scan_digits_def)

lemma scan_char_Cons [simp]: "c \<in> set cs \<Longrightarrow> scan_char cs (c # s) = Some s"
  by (simp add: scan_char_def)

lemma js_trim_id: "s \<noteq> [] \<Longrightarrow> \<not> js_space (hd s) \<Longrightarrow> \<not> js_space (last s) \<Longrightarrow> js_trim s = s"
proof -
  assume ne: "s \<noteq> []" and h: "\<not> js_space (hd s)" and l: "\<not> js_space (last s)"
  from ne h have "dropWhile js_space s = s" by (cases s) auto
  moreover from ne l have "dropWhile js_space (rev s) = rev s"
    by (cases s rule: rev_cases) auto
  ultimately show "js_trim s = s" by (simp add: js_trim_def trimStart_def)
qed

lemma digit_not_space: "is_digit c \<Longrightarrow> \<not> js_space c"
  by (auto simp: is_digit_def js_space_def)

lemma int_dec_year:
  assumes "1000 \<le> y" "y \<le> 9999"
  shows "length (int_dec y) = 4" and "list_all is_digit (int_dec y)" and "dec_val (int_dec y) = nat y"
proof -
  define n where "n = nat y"
  from assms have y: "y = int n" "1000 \<le> n" "n \<le> 9999" by (auto simp: n_def)
  have "\<not> n < 10" "\<not> n div 10 < 10" "\<not> n div 10 div 10 < 10" "n div 10 div 10 div 10 < 10"
    using y(2,3) by linarith+
  then have "length (nat_dec n) = 4"
    by (simp add: nat_dec.simps [of n] nat_dec.simps [of "n div 10"] nat_dec.simps [of "n div 10 div 10"]
        nat_dec.simps [of "n div 10 div 10 div 10"])
  then show "length (int_dec y) = 4" by (simp add: y int_dec_def)
  show "list_all is_digit (int_dec y)" by (simp add: y int_dec_def nat_dec_digits)
  show "dec_val (int_dec y) = nat y" by (simp add: y int_dec_def)
qed

text \<open>An instant whose text the pattern accepts: the year has four digits.\<close>

definition printable :: "int \<Rightarrow> int \<Rightarrow> bool" where
  "printable ms micros \<longleftrightarrow> 1000 \<le> utc_year ms \<and> utc_year ms \<le> 9999 \<and> 0 \<le> micros \<and> micros < 1000000"

definition parts_stamp :: "utc_parts \<Rightarrow> stamp" where
  "parts_stamp p = \<lparr>st_y = p_y p, st_mo = p_mo p, st_d = p_d p, st_h = p_h p, st_mi = p_mi p, st_s = p_s p,
     st_frac = (if p_micros p = 0 then [] else pad (p_micros p) 6), st_zone = None\<rparr>"

lemma fromEpoch_fields:
  assumes "printable ms micros"
  defines "p \<equiv> fromEpoch ms micros"
  shows "length (p_y p) = 4" "list_all is_digit (p_y p)"
    "length (p_mo p) = 2" "list_all is_digit (p_mo p)" "length (p_d p) = 2" "list_all is_digit (p_d p)"
    "length (p_h p) = 2" "list_all is_digit (p_h p)" "length (p_mi p) = 2" "list_all is_digit (p_mi p)"
    "length (p_s p) = 2" "list_all is_digit (p_s p)"
    "dec_val (p_y p) = nat (utc_year ms)" "dec_val (p_mo p) = nat (utc_month ms + 1)"
    "dec_val (p_d p) = nat (utc_date ms)" "dec_val (p_h p) = nat (utc_hours ms)"
    "dec_val (p_mi p) = nat (utc_minutes ms)" "dec_val (p_s p) = nat (utc_seconds ms)"
proof -
  have r: "0 \<le> utc_month ms + 1" "utc_month ms + 1 < 10 ^ 2" "0 \<le> utc_date ms" "utc_date ms < 10 ^ 2"
    "0 \<le> utc_hours ms" "utc_hours ms < 10 ^ 2" "0 \<le> utc_minutes ms" "utc_minutes ms < 10 ^ 2"
    "0 \<le> utc_seconds ms" "utc_seconds ms < 10 ^ 2"
    using utc_month_range [of ms] utc_date_range [of ms]
      pos_mod_bound [of 24 "ms div 3600000"] pos_mod_bound [of 60 "ms div 60000"] pos_mod_bound [of 60 "ms div 1000"]
      pos_mod_sign [of 24 "ms div 3600000"] pos_mod_sign [of 60 "ms div 60000"] pos_mod_sign [of 60 "ms div 1000"]
    by (auto simp: utc_hours_def utc_minutes_def utc_seconds_def)
  from assms show
    "length (p_y p) = 4" "list_all is_digit (p_y p)" "dec_val (p_y p) = nat (utc_year ms)"
    by (auto simp: fromEpoch_def printable_def int_dec_year)
  from pad_props [OF r(1,2)] pad_props [OF r(3,4)] pad_props [OF r(5,6)] pad_props [OF r(7,8)] pad_props [OF r(9,10)]
  show "length (p_mo p) = 2" "list_all is_digit (p_mo p)" "length (p_d p) = 2" "list_all is_digit (p_d p)"
    "length (p_h p) = 2" "list_all is_digit (p_h p)" "length (p_mi p) = 2" "list_all is_digit (p_mi p)"
    "length (p_s p) = 2" "list_all is_digit (p_s p)" "dec_val (p_mo p) = nat (utc_month ms + 1)"
    "dec_val (p_d p) = nat (utc_date ms)" "dec_val (p_h p) = nat (utc_hours ms)"
    "dec_val (p_mi p) = nat (utc_minutes ms)" "dec_val (p_s p) = nat (utc_seconds ms)"
    by (simp_all add: p_def fromEpoch_def)
qed

lemma match_stamp_concat:
  assumes "length y = 4" "list_all is_digit y" "length mo = 2" "list_all is_digit mo"
    "length d = 2" "list_all is_digit d" "length h = 2" "list_all is_digit h"
    "length mi = 2" "list_all is_digit mi" "length s = 2" "list_all is_digit s"
    and frac: "scan_fraction tail = Some (fr, rest)" and zone: "scan_zone rest = Some z"
  shows "match_stamp (y @ CHR ''-'' # mo @ CHR ''-'' # d @ CHR ''T'' # h @ CHR '':'' # mi @ CHR '':'' # s @ tail)
    = Some \<lparr>st_y = y, st_mo = mo, st_d = d, st_h = h, st_mi = mi, st_s = s, st_frac = fr, st_zone = z\<rparr>"
  unfolding match_stamp_def using assms(1-12) by (simp add: frac zone)

lemma match_parts_text:
  assumes "printable ms micros"
  shows "match_stamp (parts_text (fromEpoch ms micros)) = Some (parts_stamp (fromEpoch ms micros))"
proof -
  define p where "p = fromEpoch ms micros"
  note f = fromEpoch_fields [OF assms, folded p_def]
  have m: "p_micros p = micros" by (simp add: p_def fromEpoch_def)
  from assms have mr: "0 \<le> micros" "micros < 10 ^ 6" by (auto simp: printable_def)
  have p6: "pad micros 6 \<noteq> []" "list_all is_digit (pad micros 6)"
    using pad_props [OF mr] by auto
  have frac: "take_digits (pad micros 6 @ ''Z'') = (pad micros 6, ''Z'')"
    using p6(2) by (simp add: take_digits_def takeWhile_append dropWhile_append list_all_iff is_digit_def)
  define tail where "tail = (if micros = 0 then ''Z'' else CHR ''.'' # pad micros 6 @ ''Z'')"
  define fr where "fr = (if micros = 0 then [] else pad micros 6)"
  have t: "scan_fraction tail = Some (fr, ''Z'')"
    using p6(1) frac by (simp add: tail_def fr_def scan_fraction_def)
  have z: "scan_zone ''Z'' = Some None" by (simp add: scan_zone_def)
  have eq: "parts_text p = p_y p @ CHR ''-'' # p_mo p @ CHR ''-'' # p_d p @ CHR ''T'' # p_h p
      @ CHR '':'' # p_mi p @ CHR '':'' # p_s p @ tail"
    by (simp add: parts_text_def base_text_def m tail_def)
  show ?thesis
    unfolding p_def [symmetric] eq
    by (subst match_stamp_concat [OF f(1-12) t z]) (simp add: parts_stamp_def m fr_def)
qed

lemma parts_text_trim:
  assumes "printable ms micros"
  shows "js_trim (parts_text (fromEpoch ms micros)) = parts_text (fromEpoch ms micros)"
proof (rule js_trim_id)
  obtain c cs where y: "p_y (fromEpoch ms micros) = c # cs"
    using fromEpoch_fields(1) [OF assms] by (cases "p_y (fromEpoch ms micros)") auto
  moreover from y fromEpoch_fields(2) [OF assms] have "is_digit c" by simp
  ultimately show "\<not> js_space (hd (parts_text (fromEpoch ms micros)))"
    by (simp add: parts_text_def base_text_def digit_not_space)
qed (simp_all add: parts_text_def base_text_def js_space_def)

lemma date_utc_shift_ms: "date_utc y m d h mi s r = date_utc y m d h mi s 0 + r"
  by (simp add: date_utc_def Let_def)

lemma fromEpoch_seconds:
  assumes "0 \<le> r" "r < 1000"
  shows "fromEpoch (ms div 1000 * 1000 + r) micros = fromEpoch ms micros"
proof -
  define x where "x = ms div 1000"
  have s: "(x * 1000 + r) div 1000 = x" using assms by simp
  have d: "\<And>t. t div ms_per_day = t div 1000 div 86400" "\<And>t. (t::int) div 3600000 = t div 1000 div 3600"
    "\<And>t. (t::int) div 60000 = t div 1000 div 60"
    by (simp_all add: ms_per_day_def zdiv_zmult2_eq [symmetric])
  show ?thesis
    unfolding x_def [symmetric] fromEpoch_def utc_month_def utc_date_def utc_hours_def utc_minutes_def
      utc_seconds_def utc_year_day_def utc_year_def d s
    by (simp add: x_def)
qed

text \<open>Microseconds survive: what the gateway prints it parses back to the same parts.\<close>

lemma parse_parts_text:
  assumes "printable ms micros"
  shows "parseUtc dp (TText (parts_text (fromEpoch ms micros))) = Some (fromEpoch ms micros)"
proof -
  let ?p = "fromEpoch ms micros" and ?m = "parts_stamp (fromEpoch ms micros)"
  note f = fromEpoch_fields [OF assms]
  from assms have mr: "0 \<le> micros" "micros < 10 ^ 6" "micros < 1000000"
    and yr: "1000 \<le> utc_year ms" by (auto simp: printable_def)
  have p6: "length (pad micros 6) = 6" "dec_val (pad micros 6) = nat micros" using pad_props [OF mr(1,2)] by auto
  have mic: "stamp_micros ?m = micros"
    using p6 mr by (auto simp: stamp_micros_def parts_stamp_def padEnd_def fromEpoch_def dec_val_def digit_val_def
        eval_nat_numeral)
  have nn: "0 \<le> utc_month ms" "0 \<le> utc_date ms" "0 \<le> utc_hours ms" "0 \<le> utc_minutes ms" "0 \<le> utc_seconds ms"
    using utc_month_range [of ms] utc_date_range [of ms] by (auto simp: utc_hours_def utc_minutes_def utc_seconds_def)
  have "stamp_ms ?m = date_utc (utc_year ms) (utc_month ms) (utc_date ms) (utc_hours ms) (utc_minutes ms)
      (utc_seconds ms) (micros div 1000)"
    using f(13-18) nn yr mic by (simp add: stamp_ms_def parts_stamp_def zone_offset_def)
  also have "\<dots> = ms div 1000 * 1000 + micros div 1000"
    using yr by (intro date_utc_split) auto
  finally have st: "stamp_ms ?m = ms div 1000 * 1000 + micros div 1000" .
  have "fromEpoch (stamp_ms ?m) micros = ?p"
    unfolding st using mr by (intro fromEpoch_seconds) auto
  then show ?thesis
    by (simp add: parseUtc_def parts_text_trim [OF assms] match_parts_text [OF assms] mic)
qed

end
