(* ===== verification/Py_Json.thy ===== *)
theory Py_Json
  imports Prelude "HOL-Library.Word"
begin

unbundle bit_operations_syntax

text \<open>
  The serialiser \<open>pyJson\<close> (\<open>services/gateway/src/time.ts\<close>) and the weak entity tag
  (\<open>services/gateway/src/middleware/cache.ts\<close>), over UTF-16 code units: both depend on units
  that a byte string cannot hold. \<open>widen\<close> embeds the byte strings of the handler theories.
\<close>

type_synonym unit16 = "16 word"
type_synonym ustr = "16 word list"

definition wide :: "char \<Rightarrow> unit16" where
  "wide c = word_of_nat (code_unit c)"

definition widen :: "string \<Rightarrow> ustr" where
  "widen s = map wide s"

subsection \<open>Hexadecimal\<close>

definition hex_digit :: "nat \<Rightarrow> char" where
  "hex_digit n = (if n < 10 then char_of (48 + n) else char_of (87 + n))"

text \<open>\<open>n.toString(16).padStart(w, "0")\<close> for \<open>n < 16 ^ w\<close>.\<close>

fun hex_pad :: "nat \<Rightarrow> nat \<Rightarrow> string" where
  "hex_pad 0 n = []"
| "hex_pad (Suc w) n = hex_pad w (n div 16) @ [hex_digit (n mod 16)]"

lemma hex_val_digit [simp]: "n < 16 \<Longrightarrow> hex_val (hex_digit n) = n"
  by (auto simp: hex_val_def hex_digit_def is_digit_def of_char_of)

lemma radix_val_hex_pad: "n < 16 ^ w \<Longrightarrow> radix_val 16 (hex_pad w n) = n"
proof (induction w arbitrary: n)
  case 0
  then show ?case by (simp add: radix_val_def)
next
  case (Suc w)
  then have "n div 16 < 16 ^ w" by (simp add: less_mult_imp_div_less mult.commute)
  with Suc.IH have "radix_val 16 (hex_pad w (n div 16)) = n div 16" by blast
  then show ?case by (simp add: radix_val_def)
qed

lemma hex_pad_inject: "n < 16 ^ w \<Longrightarrow> m < 16 ^ w \<Longrightarrow> hex_pad w n = hex_pad w m \<Longrightarrow> n = m"
  by (metis radix_val_hex_pad)

lemma length_hex_pad [simp]: "length (hex_pad w n) = w"
  by (induction w arbitrary: n) simp_all

subsection \<open>String quoting\<close>

definition is_high :: "unit16 \<Rightarrow> bool" where
  "is_high u \<longleftrightarrow> 55296 \<le> unat u \<and> unat u \<le> 56319"

definition is_low :: "unit16 \<Rightarrow> bool" where
  "is_low u \<longleftrightarrow> 56320 \<le> unat u \<and> unat u \<le> 57343"

definition u_escape :: "unit16 \<Rightarrow> ustr" where
  "u_escape u = widen (CHR 0x5C # CHR ''u'' # hex_pad 4 (unat u))"

text \<open>One code unit inside \<open>JSON.stringify\<close>, surrogates aside.\<close>

definition quote_unit :: "unit16 \<Rightarrow> ustr" where
  "quote_unit u =
     (if u = 8 then widen [CHR 0x5C, CHR ''b''] else if u = 9 then widen [CHR 0x5C, CHR ''t'']
      else if u = 10 then widen [CHR 0x5C, CHR ''n''] else if u = 12 then widen [CHR 0x5C, CHR ''f'']
      else if u = 13 then widen [CHR 0x5C, CHR ''r''] else if u = 34 then widen [CHR 0x5C, CHR 0x22]
      else if u = 92 then widen [CHR 0x5C, CHR 0x5C]
      else if unat u < 32 then u_escape u else [u])"

fun quote_body :: "ustr \<Rightarrow> ustr" where
  "quote_body [] = []"
| "quote_body (u # r) =
     (if is_high u then
        (case r of
           [] \<Rightarrow> u_escape u
         | v # r' \<Rightarrow> if is_low v then u # v # quote_body r' else u_escape u @ quote_body r)
      else if is_low u then u_escape u @ quote_body r
      else quote_unit u @ quote_body r)"

definition json_quote :: "ustr \<Rightarrow> ustr" where
  "json_quote s = [34] @ quote_body s @ [34]"

text \<open>\<open>.replace(/[\u007f-\uffff]/g, \<dots>)\<close>\<close>

definition ascii_only :: "ustr \<Rightarrow> ustr" where
  "ascii_only s = concat (map (\<lambda>u. if 127 \<le> unat u then u_escape u else [u]) s)"

fun join_units :: "ustr \<Rightarrow> ustr list \<Rightarrow> ustr" where
  "join_units sep [] = []"
| "join_units sep [w] = w"
| "join_units sep (w # ws) = w @ sep @ join_units sep ws"

fun pyJson :: "ustr json \<Rightarrow> ustr" where
  "pyJson JUndef = widen ''null''"
| "pyJson JNull = widen ''null''"
| "pyJson (JNum n) = widen (int_dec n)"
| "pyJson (JBool b) = widen (if b then ''true'' else ''false'')"
| "pyJson (JStr s) = ascii_only (json_quote s)"
| "pyJson (JArr vs) = widen ''['' @ join_units (widen '', '') (map pyJson vs) @ widen '']''"
| "pyJson (JObj kvs) = widen ''{''
     @ join_units (widen '', '') (map (\<lambda>(k, v). json_quote k @ widen '': '' @ pyJson v) kvs) @ widen ''}''"

text \<open>The body text of a handler's JSON value.\<close>

definition body_text :: "jv \<Rightarrow> ustr" where
  "body_text v = pyJson (map_json widen v)"

subsection \<open>Reading a quoted string back\<close>

text \<open>The inverse a JSON parser applies to the characters between the quotes.\<close>

definition hex4 :: "ustr \<Rightarrow> unit16 option" where
  "hex4 ds =
     (if length ds = 4 \<and> list_all (\<lambda>u. unat u < 256 \<and> is_hex_lower (char_of (unat u))) ds
      then Some (word_of_nat (radix_val 16 (map (\<lambda>u. char_of (unat u)) ds))) else None)"

definition simple_escape :: "unit16 \<Rightarrow> unit16 option" where
  "simple_escape u = (if u = 98 then Some 8 else if u = 116 then Some 9 else if u = 110 then Some 10
     else if u = 102 then Some 12 else if u = 114 then Some 13 else if u = 34 then Some 34
     else if u = 92 then Some 92 else None)"

fun unquote :: "ustr \<Rightarrow> ustr option" where
  "unquote [] = Some []"
| "unquote (u # r) =
     (if u \<noteq> 92 then map_option ((#) u) (unquote r)
      else (case r of
          [] \<Rightarrow> None
        | v # r1 \<Rightarrow>
            if v = 117 then
              (case r1 of
                 a # b # c # d # r2 \<Rightarrow>
                   (case hex4 [a, b, c, d] of None \<Rightarrow> None
                    | Some x \<Rightarrow> map_option ((#) x) (unquote r2))
               | _ \<Rightarrow> None)
            else (case simple_escape v of None \<Rightarrow> None
                  | Some x \<Rightarrow> map_option ((#) x) (unquote r1))))"

lemma code_unit_bound: "code_unit c < 256"
  by simp

lemma unat_wide [simp]: "unat (wide c) = code_unit c"
proof -
  have "code_unit c < 65536" using code_unit_bound [of c] by (rule order.strict_trans) simp
  then show ?thesis by (simp add: wide_def unat_of_nat)
qed

lemma wide_inject [simp]: "wide c = wide d \<longleftrightarrow> c = d"
  by (metis char_of_char unat_wide)

lemma char_of_unat_wide [simp]: "char_of (unat (wide c)) = c"
  by simp

lemma is_hex_lower_digit [simp]: "n < 16 \<Longrightarrow> is_hex_lower (hex_digit n)"
  by (auto simp: is_hex_lower_def is_digit_def hex_digit_def of_char_of)

lemma hex_pad_lower: "list_all is_hex_lower (hex_pad w n)"
  by (induction w arbitrary: n) simp_all

lemma unat_less_65536: "unat (u :: unit16) < 16 ^ 4"
  using unsigned_less [of u] by simp

lemma hex4_pad: "hex4 (widen (hex_pad 4 (unat u))) = Some u"
proof -
  have "map (\<lambda>u. char_of (unat u)) (widen (hex_pad 4 (unat u))) = hex_pad 4 (unat u)"
    by (simp add: widen_def comp_def)
  moreover have "list_all (\<lambda>u. unat u < 256 \<and> is_hex_lower (char_of (unat u))) (widen (hex_pad 4 (unat u)))"
    using hex_pad_lower [of 4 "unat u"] by (simp add: widen_def list_all_iff)
  ultimately show ?thesis
    using radix_val_hex_pad [OF unat_less_65536, of u] by (simp add: hex4_def widen_def)
qed

lemma wide_literals:
  "wide (CHR 0x5C) = 92" "wide (CHR ''u'') = 117" "wide (CHR ''b'') = 98" "wide (CHR ''t'') = 116"
  "wide (CHR ''n'') = 110" "wide (CHR ''f'') = 102" "wide (CHR ''r'') = 114" "wide (CHR 0x22) = 34"
  by (simp_all add: wide_def)

lemma list4: "length xs = 4 \<Longrightarrow> \<exists>a b c d. xs = [a, b, c, d]"
  by (cases xs; cases "tl xs"; cases "tl (tl xs)"; cases "tl (tl (tl xs))") auto

lemma unquote_u_escape: "unquote (u_escape u @ r) = map_option ((#) u) (unquote r)"
proof -
  have "length (widen (hex_pad 4 (unat u))) = 4" by (simp only: widen_def length_map length_hex_pad)
  then obtain a b c d where h: "widen (hex_pad 4 (unat u)) = [a, b, c, d]" using list4 by blast
  with hex4_pad [of u] have "hex4 [a, b, c, d] = Some u" by simp
  moreover have "u_escape u = 92 # 117 # [a, b, c, d]"
    using h by (simp add: u_escape_def widen_def wide_literals)
  ultimately show ?thesis by simp
qed

lemma ascii_only_Nil [simp]: "ascii_only [] = []"
  by (simp add: ascii_only_def)

lemma ascii_only_append [simp]: "ascii_only (a @ b) = ascii_only a @ ascii_only b"
  by (simp add: ascii_only_def)

definition printable_unit :: "unit16 \<Rightarrow> bool" where
  "printable_unit u \<longleftrightarrow> 32 \<le> unat u \<and> unat u < 127"

lemma ascii_only_id: "list_all printable_unit s \<Longrightarrow> ascii_only s = s"
  by (induction s) (simp_all add: ascii_only_def printable_unit_def)

lemma hex_lower_printable: "is_hex_lower c \<Longrightarrow> printable_unit (wide c)"
  by (auto simp: is_hex_lower_def is_digit_def printable_unit_def)

lemma u_escape_printable: "list_all printable_unit (u_escape u)"
  using hex_pad_lower [of 4 "unat u"] hex_lower_printable
  by (auto simp: u_escape_def widen_def list_all_iff printable_unit_def)

lemma ascii_quote_unit:
  "ascii_only (quote_unit u) = (if 127 \<le> unat u then u_escape u else quote_unit u)"
proof (cases "127 \<le> unat u")
  case True
  then have "quote_unit u = [u]" by (auto simp: quote_unit_def)
  with True show ?thesis by (simp add: ascii_only_def)
next
  case False
  have "list_all printable_unit (quote_unit u)"
    using False u_escape_printable [of u]
    by (auto simp: quote_unit_def printable_unit_def widen_def)
  with False show ?thesis by (simp add: ascii_only_id)
qed

lemma quote_unit_printable: "list_all printable_unit (ascii_only (quote_unit u))"
  using u_escape_printable [of u]
  by (auto simp: ascii_quote_unit) (auto simp: quote_unit_def printable_unit_def widen_def)

lemma unquote_quote_unit: "unquote (ascii_only (quote_unit u) @ r) = map_option ((#) u) (unquote r)"
  by (auto simp: ascii_quote_unit unquote_u_escape)
    (auto simp: quote_unit_def unquote_u_escape widen_def wide_literals simple_escape_def)

lemma surrogate_wide: "is_high u \<or> is_low u \<Longrightarrow> ascii_only [u] = u_escape u"
  by (auto simp: is_high_def is_low_def ascii_only_def)

lemma u_escape_ascii: "ascii_only (u_escape u) = u_escape u"
  by (rule ascii_only_id [OF u_escape_printable])

text \<open>What the serialiser emits for the tail after one unit or surrogate pair.\<close>

lemma quote_body_step:
  "ascii_only (quote_body (u # r)) =
     (if is_high u \<or> is_low u then u_escape u else ascii_only (quote_unit u)) @ ascii_only (quote_body r)"
proof (cases "is_high u")
  case True
  show ?thesis
  proof (cases r)
    case Nil
    with True show ?thesis by (simp add: u_escape_ascii)
  next
    case (Cons v r')
    show ?thesis
    proof (cases "is_low v")
      case low: True
      then have nh: "\<not> is_high v" by (auto simp: is_high_def is_low_def)
      have "ascii_only (u # v # quote_body r') = ascii_only [u] @ ascii_only [v] @ ascii_only (quote_body r')"
        by (simp add: ascii_only_def)
      with True low nh Cons show ?thesis by (simp add: surrogate_wide u_escape_ascii)
    next
      case False
      with True Cons show ?thesis by (simp add: u_escape_ascii)
    qed
  qed
next
  case False
  then show ?thesis by (simp add: u_escape_ascii)
qed

declare quote_body.simps(2) [simp del]

lemma unquote_body: "unquote (ascii_only (quote_body s)) = Some s"
proof (induction s)
  case Nil
  then show ?case by (simp add: ascii_only_def)
next
  case (Cons u r)
  then show ?case by (simp add: quote_body_step unquote_u_escape unquote_quote_unit)
qed

lemma quote_body_printable: "list_all printable_unit (ascii_only (quote_body s))"
proof (induction s)
  case Nil
  then show ?case by (simp add: ascii_only_def)
next
  case (Cons u r)
  then show ?case by (simp add: quote_body_step u_escape_printable quote_unit_printable)
qed

text \<open>A text value of any code units (controls, quotes, Hangul, emoji, lone surrogates) is
  serialised to printable ASCII between two quotes, and a JSON reader gets exactly that text back:
  the escaping of \<open>pyJson\<close> loses nothing.\<close>

theorem pyJson_string_roundtrip:
  "\<exists>body. pyJson (JStr s) = [34] @ body @ [34] \<and> list_all printable_unit body \<and> unquote body = Some s"
proof -
  have "ascii_only [34] = [34]" by (simp add: ascii_only_def)
  then have "pyJson (JStr s) = [34] @ ascii_only (quote_body s) @ [34]"
    by (simp add: json_quote_def ascii_only_def)
  then show ?thesis using unquote_body quote_body_printable by blast
qed

subsection \<open>The weak entity tag\<close>

text \<open>One round of the hash: \<open>h ^= unit; h = Math.imul(h, 0x01000193)\<close>.\<close>

definition fnv_step :: "32 word \<Rightarrow> unit16 \<Rightarrow> 32 word" where
  "fnv_step h u = (h XOR ucast u) * 16777619"

definition fnv_hash :: "ustr \<Rightarrow> 32 word" where
  "fnv_hash body = foldl fnv_step 2166136261 body"

definition weakEtag :: "ustr \<Rightarrow> string" where
  "weakEtag body = ''W/'' @ CHR 0x22 # hex_pad 8 (unat (fnv_hash body)) @ [CHR 0x22]"

lemma unit_mult_inject:
  fixes m k x y :: "32 word"
  assumes "m * k = 1" "x * m = y * m"
  shows "x = y"
proof -
  have "x * (m * k) = y * (m * k)" using assms(2) by (simp only: mult.assoc [symmetric])
  with assms(1) show ?thesis by simp
qed

lemma fnv_mult_inject: "(x :: 32 word) * 16777619 = y * 16777619 \<Longrightarrow> x = y"
  by (rule unit_mult_inject [of 16777619 899433627]) simp_all

lemma xor_inject_left: "(x :: 32 word) XOR a = y XOR a \<Longrightarrow> x = y"
  by (metis xor.assoc xor_self_eq xor.right_neutral)

lemma xor_inject_right: "(a :: 32 word) XOR x = a XOR y \<Longrightarrow> x = y"
  by (metis xor.commute xor_inject_left)

lemma fnv_step_inject_state: "fnv_step h u = fnv_step h' u \<Longrightarrow> h = h'"
  unfolding fnv_step_def by (drule fnv_mult_inject) (rule xor_inject_left)

lemma ucast_inject: "(ucast (u :: unit16) :: 32 word) = ucast v \<Longrightarrow> u = v"
proof -
  have "unat (ucast w :: 32 word) = unat w" for w :: unit16
  proof -
    have "unat w < 2 ^ 32" using unsigned_less [of w, where 'a = nat] by simp
    then show ?thesis by (simp add: unsigned_ucast_eq take_bit_nat_eq_self)
  qed
  then show "ucast u = (ucast v :: 32 word) \<Longrightarrow> u = v" by (metis word_unat_eq_iff)
qed

lemma fnv_step_inject_unit: "fnv_step h u = fnv_step h v \<Longrightarrow> u = v"
  unfolding fnv_step_def by (drule fnv_mult_inject, drule xor_inject_right) (rule ucast_inject)

lemma fnv_fold_inject: "foldl fnv_step h s = foldl fnv_step h' s \<Longrightarrow> h = h'"
  by (induction s arbitrary: h h') (auto dest: fnv_step_inject_state)

lemma weakEtag_inject: "weakEtag a = weakEtag b \<Longrightarrow> fnv_hash a = fnv_hash b"
proof -
  assume "weakEtag a = weakEtag b"
  then have eq: "hex_pad 8 (unat (fnv_hash a)) = hex_pad 8 (unat (fnv_hash b))"
    by (simp add: weakEtag_def)
  have "\<And>h. unat (h :: 32 word) < 16 ^ 8" subgoal for h using unsigned_less [of h] by simp done
  then have "unat (fnv_hash a) = unat (fnv_hash b)" using hex_pad_inject eq by blast
  then show ?thesis by (simp add: word_unat_eq_iff)
qed

text \<open>Two response bodies that differ in exactly one code unit have different entity tags, so
  a conditional read never answers 304 for a body with a single changed character (a counter, a
  status letter, a microsecond digit).\<close>

theorem weakEtag_single_change:
  assumes "u \<noteq> v"
  shows "weakEtag (pre @ u # post) \<noteq> weakEtag (pre @ v # post)"
proof
  assume "weakEtag (pre @ u # post) = weakEtag (pre @ v # post)"
  then have "fnv_hash (pre @ u # post) = fnv_hash (pre @ v # post)" by (rule weakEtag_inject)
  then have "fnv_step (foldl fnv_step 2166136261 pre) u = fnv_step (foldl fnv_step 2166136261 pre) v"
    unfolding fnv_hash_def by (auto dest: fnv_fold_inject)
  then have "u = v" by (rule fnv_step_inject_unit)
  with assms show False by simp
qed

theorem weakEtag_single_change_witness:
  "weakEtag ([110, 61] @ 49 # [59]) \<noteq> weakEtag ([110, 61] @ 50 # [59])"
  by (rule weakEtag_single_change) simp

end
