(* ===== verification/Js_Map.thy ===== *)
theory Js_Map
  imports Prelude "HOL-Library.AList"
begin

text \<open>
  The \<open>Map\<close> objects of the source (\<open>hits\<close>, \<open>remoteHits\<close>, \<open>leases\<close>, the isolate cache)
  iterate in insertion order, and two of the modelled operations depend on that order (the
  eviction of the oldest entry, the order of the lease returns). A map is therefore an
  association list with distinct keys; \<open>set\<close> overwrites in place or appends.

  The locale \<open>ordered_map\<close> is the interface the client theories rely on; it is
  interpreted here on the association lists.
\<close>

type_synonym ('k, 'v) jsmap = "('k \<times> 'v) list"

definition jm_get :: "('k, 'v) jsmap \<Rightarrow> 'k \<Rightarrow> 'v option" where
  "jm_get m k = map_of m k"

definition jm_set :: "'k \<Rightarrow> 'v \<Rightarrow> ('k, 'v) jsmap \<Rightarrow> ('k, 'v) jsmap" where
  "jm_set k v m = AList.update k v m"

definition jm_delete :: "'k \<Rightarrow> ('k, 'v) jsmap \<Rightarrow> ('k, 'v) jsmap" where
  "jm_delete k m = AList.delete k m"

definition jm_keys :: "('k, 'v) jsmap \<Rightarrow> 'k list" where
  "jm_keys m = map fst m"

definition jm_wf :: "('k, 'v) jsmap \<Rightarrow> bool" where
  "jm_wf m \<longleftrightarrow> distinct (map fst m)"

lemmas jm_defs = jm_get_def jm_set_def jm_delete_def jm_keys_def jm_wf_def

subsection \<open>The interface\<close>

locale ordered_map =
  fixes get :: "'m \<Rightarrow> 'k \<Rightarrow> 'v option"
    and put :: "'k \<Rightarrow> 'v \<Rightarrow> 'm \<Rightarrow> 'm"
    and del :: "'k \<Rightarrow> 'm \<Rightarrow> 'm"
    and keys :: "'m \<Rightarrow> 'k list"
    and wf :: "'m \<Rightarrow> bool"
  assumes get_put: "get (put k v m) = (get m)(k \<mapsto> v)"
    and get_del: "get (del k m) = (get m)(k := None)"
    and keys_put: "keys (put k v m) = (if k \<in> set (keys m) then keys m else keys m @ [k])"
    and keys_del: "keys (del k m) = filter (\<lambda>x. x \<noteq> k) (keys m)"
    and in_keys: "k \<in> set (keys m) \<longleftrightarrow> get m k \<noteq> None"
    and wf_put: "wf m \<Longrightarrow> wf (put k v m)"
    and wf_del: "wf m \<Longrightarrow> wf (del k m)"
    and wf_distinct: "wf m \<Longrightarrow> distinct (keys m)"
begin

text \<open>\<open>delete\<close> followed by \<open>set\<close> makes the key the newest one.\<close>

lemma keys_refresh: "keys (put k v (del k m)) = filter (\<lambda>x. x \<noteq> k) (keys m) @ [k]"
  by (simp add: keys_put keys_del)

lemma wf_refresh: "wf m \<Longrightarrow> wf (put k v (del k m))"
  by (simp add: wf_put wf_del)

lemma size_refresh: "wf m \<Longrightarrow> length (keys (put k v (del k m))) \<le> Suc (length (keys m))"
  by (simp add: keys_refresh)

text \<open>Deleting the oldest key drops the head of the key list.\<close>

lemma keys_del_oldest:
  assumes "wf m" and "keys m = k # ks"
  shows "keys (del k m) = ks"
proof -
  from assms wf_distinct [of m] have "k \<notin> set ks" by simp
  then have "filter (\<lambda>x. x \<noteq> k) ks = ks" by (induction ks) auto
  with assms(2) show ?thesis by (simp add: keys_del)
qed

lemma get_del_other: "k \<noteq> k' \<Longrightarrow> get (del k m) k' = get m k'"
  by (simp add: get_del)

end

lemma filter_map_fst: "map fst (AList.delete k m) = filter (\<lambda>x. x \<noteq> k) (map fst m)"
  by (induction m) auto

lemma keys_update_alist: "map fst (AList.update k v m) = (if k \<in> fst ` set m then map fst m else map fst m @ [k])"
  by (induction m) auto

interpretation jm: ordered_map jm_get jm_set jm_delete jm_keys jm_wf
proof
  show "jm_get (jm_set k v m) = (jm_get m)(k \<mapsto> v)" for k :: 'a and v :: 'b and m
    by (simp add: jm_defs update_conv' fun_eq_iff)
  show "jm_get (jm_delete k m) = (jm_get m)(k := None)" for k :: 'a and m :: "('a, 'b) jsmap"
    by (simp add: jm_defs delete_conv' fun_eq_iff)
  show "jm_keys (jm_set k v m) = (if k \<in> set (jm_keys m) then jm_keys m else jm_keys m @ [k])"
    for k :: 'a and v :: 'b and m
    by (simp add: jm_defs keys_update_alist)
  show "jm_keys (jm_delete k m) = filter (\<lambda>x. x \<noteq> k) (jm_keys m)" for k :: 'a and m :: "('a, 'b) jsmap"
    by (simp add: jm_defs filter_map_fst)
  show "k \<in> set (jm_keys m) \<longleftrightarrow> jm_get m k \<noteq> None" for k :: 'a and m :: "('a, 'b) jsmap"
    by (simp add: jm_defs map_of_eq_None_iff)
  show "jm_wf m \<Longrightarrow> jm_wf (jm_set k v m)" for k :: 'a and v :: 'b and m
    by (simp add: jm_defs distinct_update)
  show "jm_wf m \<Longrightarrow> jm_wf (jm_delete k m)" for k :: 'a and m :: "('a, 'b) jsmap"
    by (simp add: jm_defs filter_map_fst)
  show "jm_wf m \<Longrightarrow> distinct (jm_keys m)" for m :: "('a, 'b) jsmap"
    by (simp add: jm_defs)
qed

lemmas jm_laws [simp] = jm.get_put jm.get_del jm.wf_put jm.wf_del

lemma jm_wf_Nil [simp]: "jm_wf []"
  by (simp add: jm_wf_def)

lemma jm_get_Nil [simp]: "jm_get [] k = None"
  by (simp add: jm_get_def)

subsection \<open>Sums over the entries\<close>

definition msum :: "('k \<Rightarrow> 'v \<Rightarrow> int) \<Rightarrow> ('k, 'v) jsmap \<Rightarrow> int" where
  "msum f m = sum_list (map (\<lambda>(k, v). f k v) m)"

text \<open>The contribution of one key, \<open>0\<close> when it is absent.\<close>

definition mpart :: "('k \<Rightarrow> 'v \<Rightarrow> int) \<Rightarrow> 'k \<Rightarrow> ('k, 'v) jsmap \<Rightarrow> int" where
  "mpart f k m = (case jm_get m k of None \<Rightarrow> 0 | Some v \<Rightarrow> f k v)"

lemma msum_Nil [simp]: "msum f [] = 0"
  by (simp add: msum_def)

lemma msum_Cons [simp]: "msum f ((k, v) # m) = f k v + msum f m"
  by (simp add: msum_def)

lemma jm_delete_absent: "k \<notin> fst ` set m \<Longrightarrow> AList.delete k m = m"
  by (induction m) auto

lemma msum_delete: "jm_wf m \<Longrightarrow> msum f (jm_delete k m) = msum f m - mpart f k m"
proof (induction m)
  case Nil
  then show ?case by (simp add: mpart_def jm_defs)
next
  case (Cons p m)
  obtain k' v' where p: "p = (k', v')" by (cases p)
  from Cons.prems p have wf: "jm_wf m" and new: "k' \<notin> fst ` set m"
    by (auto simp: jm_wf_def)
  show ?case
  proof (cases "k' = k")
    case True
    with p new have "jm_delete k (p # m) = m"
      by (simp add: jm_delete_def jm_delete_absent)
    with p True show ?thesis by (simp add: mpart_def jm_get_def)
  next
    case False
    then have part: "mpart f k (p # m) = mpart f k m" by (simp add: p mpart_def jm_get_def)
    from False p have "jm_delete k (p # m) = p # jm_delete k m" by (simp add: jm_delete_def)
    with Cons.IH [OF wf] p part show ?thesis by simp
  qed
qed

lemma msum_set: "jm_wf m \<Longrightarrow> msum f (jm_set k v m) = msum f m - mpart f k m + f k v"
proof (induction m)
  case Nil
  then show ?case by (simp add: mpart_def jm_defs)
next
  case (Cons p m)
  obtain k' v' where p: "p = (k', v')" by (cases p)
  from Cons.prems p have wf: "jm_wf m" by (auto simp: jm_wf_def)
  show ?case
  proof (cases "k' = k")
    case True
    with p show ?thesis by (simp add: mpart_def jm_get_def jm_set_def)
  next
    case False
    then have part: "mpart f k (p # m) = mpart f k m" by (simp add: p mpart_def jm_get_def)
    from False p have "jm_set k v (p # m) = p # jm_set k v m" by (simp add: jm_set_def)
    with Cons.IH [OF wf] p part show ?thesis by simp
  qed
qed

lemma msum_nonneg: "(\<And>k v. (k, v) \<in> set m \<Longrightarrow> 0 \<le> f k v) \<Longrightarrow> 0 \<le> msum f m"
  by (induction m) (auto simp: msum_def)

lemma jm_get_in: "jm_get m k = Some v \<Longrightarrow> (k, v) \<in> set m"
  by (simp add: jm_get_def map_of_SomeD)

lemma jm_get_iff: "jm_wf m \<Longrightarrow> jm_get m k = Some v \<longleftrightarrow> (k, v) \<in> set m"
  by (simp add: jm_defs)

lemma mpart_le_msum:
  assumes "jm_wf m" and nn: "\<And>k v. (k, v) \<in> set m \<Longrightarrow> 0 \<le> f k v"
  shows "mpart f k m \<le> msum f m"
proof -
  have "0 \<le> msum f (jm_delete k m)"
  proof (rule msum_nonneg)
    fix k' v assume "(k', v) \<in> set (jm_delete k m)"
    then have "(k', v) \<in> set m"
      by (auto simp: jm_delete_def AList.delete_eq)
    then show "0 \<le> f k' v" by (rule nn)
  qed
  with msum_delete [OF assms(1)] show ?thesis by simp
qed

text \<open>Membership after an update, for invariants that range over the entries.\<close>

lemma set_jm_delete: "set (jm_delete k m) = {p \<in> set m. fst p \<noteq> k}"
  by (auto simp: jm_delete_def AList.delete_eq)

lemma set_jm_set_subset: "set (jm_set k v m) \<subseteq> insert (k, v) (set m)"
  by (induction m) (auto simp: jm_set_def)

end
