(* ===== verification/Http.thy ===== *)
theory Http
  imports Py_Json Js_Map
begin

text \<open>
  \<open>services/gateway/src/http.ts\<close>: requests, responses and the helpers every gateway route
  uses. Header names are lower case, as the \<open>Headers\<close> object stores them. A response body is
  absent, a text of UTF-16 units, or the frames of an event stream in order.

  \<open>crypto.randomUUID()\<close> is the argument \<open>uuid\<close>, the SHA-256 digest the argument \<open>sha\<close>, and
  \<open>JSON.parse\<close> of a column delivered as text the argument \<open>jp\<close>.
\<close>

subsection \<open>Requests and responses\<close>

datatype body = BNone | BText ustr | BFrames "ustr list" | BOpaque string

record request =
  rq_method :: string
  rq_path :: string
  rq_search :: string
  rq_query :: "(string \<times> string) list"
  rq_headers :: "(string, string) jsmap"
  rq_body :: string

record response =
  rs_status :: int
  rs_headers :: "(string, string) jsmap"
  rs_body :: body

definition header :: "request \<Rightarrow> string \<Rightarrow> string" where
  "header rq name = or_empty (jm_get (rq_headers rq) name)"

definition search_param :: "request \<Rightarrow> string \<Rightarrow> string" where
  "search_param rq name = or_empty (map_of (rq_query rq) name)"

text \<open>\<open>new TextEncoder().encode(s).byteLength\<close>; a lone surrogate is replaced by U+FFFD.\<close>

fun utf8_length :: "ustr \<Rightarrow> nat" where
  "utf8_length [] = 0"
| "utf8_length [u] = (if unat u < 128 then 1 else if unat u < 2048 then 2 else 3)"
| "utf8_length (u # v # r) =
     (if is_high u \<and> is_low v then 4 + utf8_length r
      else (if unat u < 128 then 1 else if unat u < 2048 then 2 else 3) + utf8_length (v # r))"

subsection \<open>Flags and addresses\<close>

definition asBool :: "jv \<Rightarrow> bool" where
  "asBool v \<longleftrightarrow> v = JBool True \<or> v = JStr ''t'' \<or> v = JStr ''true'' \<or> v = JNum 1"

definition flag :: "string option \<Rightarrow> bool" where
  "flag value = (let v = toLowerCase (js_trim (or_empty value)) in v = ''1'' \<or> v = ''true'' \<or> v = ''yes'')"

definition clientIp :: "request \<Rightarrow> string" where
  "clientIp rq = or_else (header rq ''cf-connecting-ip'')
     (js_trim (hd (split_on CHR '','' (header rq ''x-forwarded-for''))))"

subsection \<open>CORS\<close>

definition ALLOWED_ORIGINS :: "string list" where
  "ALLOWED_ORIGINS = [''tauri://localhost'', ''http://tauri.localhost'', ''https://tauri.localhost'']"

definition ALLOWED_HEADERS :: "string list" where
  "ALLOWED_HEADERS = [''origin'', ''content-type'', ''accept'', ''authorization'', ''idempotency-key'', ''x-request-id'']"

definition port_suffix :: "string \<Rightarrow> bool" where
  "port_suffix s = (case s of [] \<Rightarrow> True | c # d \<Rightarrow> c = CHR '':'' \<and> d \<noteq> [] \<and> list_all is_digit d)"

text \<open>\<open>ORIGIN_RE\<close>.\<close>

definition local_origin :: "string \<Rightarrow> bool" where
  "local_origin o' = (\<exists>scheme \<in> set [''http://'', ''https://'']. \<exists>host \<in> set [''localhost'', ''127.0.0.1''].
     startsWith o' (scheme @ host) \<and> port_suffix (drop (length (scheme @ host)) o'))"

definition corsHeaders :: "request \<Rightarrow> (string, string) jsmap" where
  "corsHeaders rq =
     (let o' = header rq ''origin'';
          h = (if o' \<noteq> [] \<and> (o' \<in> set ALLOWED_ORIGINS \<or> local_origin o')
               then jm_set ''access-control-allow-credentials'' ''true'' (jm_set ''access-control-allow-origin'' o' [])
               else [])
      in jm_set ''vary'' ''Origin'' h)"

definition merge_cors :: "string \<times> string \<Rightarrow> (string, string) jsmap \<Rightarrow> (string, string) jsmap" where
  "merge_cors kv hs =
     (case kv of (k, v) \<Rightarrow>
        if k = ''vary'' then
          (let existing = or_empty (jm_get hs ''vary'') in
           if existing = [] then jm_set ''vary'' v hs
           else if \<not> list_ex (\<lambda>name. toLowerCase (js_trim name) = toLowerCase v) (split_on CHR '','' existing)
           then jm_set ''vary'' (existing @ '', '' @ v) hs
           else hs)
        else if jm_get hs k = None then jm_set k v hs else hs)"

text \<open>\<open>new Response\<close> throws outside 200--599; the original response is then returned.\<close>

definition withCors :: "request \<Rightarrow> response \<Rightarrow> response" where
  "withCors rq rs =
     (let hs = fold merge_cors (corsHeaders rq) (rs_headers rs) in
      if rs_status rs \<in> {204, 205, 304}
      then \<lparr>rs_status = rs_status rs, rs_headers = jm_delete ''content-length'' hs, rs_body = BNone\<rparr>
      else if rs_status rs < 200 \<or> 599 < rs_status rs then rs
      else rs\<lparr>rs_headers := hs\<rparr>)"

definition id_char :: "char \<Rightarrow> bool" where
  "id_char c \<longleftrightarrow> is_alpha c \<or> is_digit c \<or> c \<in> {CHR ''.'', CHR ''_'', CHR '':'', CHR ''-''}"

definition requestIdOf :: "string \<Rightarrow> request \<Rightarrow> string" where
  "requestIdOf uuid rq =
     (let rid = header rq ''x-request-id'' in
      if 1 \<le> length rid \<and> length rid \<le> 128 \<and> list_all id_char rid then rid else ''req_'' @ uuid)"

subsection \<open>JSON responses\<close>

definition headers_of :: "(string \<times> string) list \<Rightarrow> (string, string) jsmap" where
  "headers_of kvs = fold (\<lambda>(k, v) m. jm_set k v m) kvs []"

definition jsonResponse_typed :: "int \<Rightarrow> jv \<Rightarrow> string \<Rightarrow> string \<Rightarrow> response" where
  "jsonResponse_typed status b rid contentType =
     (let txt = body_text b in
      \<lparr>rs_status = status,
       rs_headers = headers_of [(''content-type'', contentType),
         (''content-length'', nat_dec (utf8_length txt)), (''x-request-id'', rid)],
       rs_body = BText txt\<rparr>)"

definition jsonResponse :: "int \<Rightarrow> jv \<Rightarrow> string \<Rightarrow> response" where
  "jsonResponse status b rid = jsonResponse_typed status b rid ''application/json''"

definition error_body :: "string \<Rightarrow> string \<Rightarrow> string \<Rightarrow> jv \<Rightarrow> jv" where
  "error_body code message rid details =
     JObj [(''error'', JObj [(''code'', JStr code), (''message'', JStr message), (''requestId'', JStr rid), (''details'', details)])]"

definition errorDetails :: "int \<Rightarrow> string \<Rightarrow> string \<Rightarrow> string \<Rightarrow> jv \<Rightarrow> response" where
  "errorDetails status code message rid details =
     jsonResponse_typed status (error_body code message rid details) rid ''application/json; charset=utf-8''"

definition errorResponse :: "int \<Rightarrow> string \<Rightarrow> string \<Rightarrow> string \<Rightarrow> response" where
  "errorResponse status code message rid = errorDetails status code message rid JNull"

definition fieldError :: "string \<Rightarrow> string \<Rightarrow> string \<Rightarrow> response" where
  "fieldError field message rid = errorDetails 400 ''VALIDATION_ERROR'' message rid (JObj [(''field'', JStr field)])"

definition USER_CACHE_CONTROL :: string where "USER_CACHE_CONTROL = ''private, no-cache''"

definition conditional :: "ustr \<Rightarrow> request \<Rightarrow> string \<Rightarrow> string \<Rightarrow> response" where
  "conditional b rq rid cacheControl =
     (let etag = weakEtag b;
          hs = headers_of [(''etag'', etag), (''cache-control'', cacheControl), (''vary'', ''Authorization''), (''x-request-id'', rid)]
      in if jm_get (rq_headers rq) ''if-none-match'' = Some etag
         then \<lparr>rs_status = 304, rs_headers = hs, rs_body = BNone\<rparr>
         else \<lparr>rs_status = 200,
               rs_headers = jm_set ''content-length'' (nat_dec (utf8_length b)) (jm_set ''content-type'' ''application/json'' hs),
               rs_body = BText b\<rparr>)"

text \<open>\<open>await loaded.text()\<close>.\<close>

definition text_of :: "body \<Rightarrow> ustr" where
  "text_of b = (case b of BNone \<Rightarrow> [] | BText u \<Rightarrow> u | BFrames fs \<Rightarrow> concat fs | BOpaque s \<Rightarrow> widen s)"

definition freshRead :: "response \<Rightarrow> request \<Rightarrow> string \<Rightarrow> response" where
  "freshRead loaded rq rid =
     (if rs_status loaded \<noteq> 200 then loaded else conditional (text_of (rs_body loaded)) rq rid USER_CACHE_CONTROL)"

subsection \<open>Secrets and identifiers\<close>

definition secretEquals :: "(string \<Rightarrow> string) \<Rightarrow> string \<Rightarrow> string \<Rightarrow> bool" where
  "secretEquals sha got want \<longleftrightarrow> got \<noteq> [] \<and> want \<noteq> [] \<and> sha got = sha want"

definition hex_of :: "nat \<Rightarrow> string \<Rightarrow> bool" where
  "hex_of n s \<longleftrightarrow> length s = n \<and> list_all is_hex s"

definition uuid_shape :: "string \<Rightarrow> bool" where
  "uuid_shape s = (case split_on CHR ''-'' s of
       [a, b, c, d, e] \<Rightarrow> hex_of 8 a \<and> hex_of 4 b \<and> hex_of 4 c \<and> hex_of 4 d \<and> hex_of 12 e
     | _ \<Rightarrow> False)"

definition hyphenate :: "string \<Rightarrow> string" where
  "hyphenate h = join ''-'' [str_slice 0 8 h, str_slice 8 12 h, str_slice 12 16 h, str_slice 16 20 h, drop 20 h]"

definition parseUuid :: "string \<Rightarrow> string option" where
  "parseUuid value =
     (if uuid_shape value then Some (toLowerCase value)
      else if hex_of 32 value then Some (hyphenate (toLowerCase value))
      else None)"

definition positive_decimal :: "string \<Rightarrow> bool" where
  "positive_decimal s = (case s of [] \<Rightarrow> False | c # r \<Rightarrow> is_digit c \<and> c \<noteq> CHR ''0'' \<and> list_all is_digit r)"

definition pageLimit :: "request \<Rightarrow> string \<Rightarrow> response + nat" where
  "pageLimit rq rid =
     (let raw = search_param rq ''limit'' in
      if raw = [] then Inr 50
      else if \<not> positive_decimal raw then Inl (fieldError ''limit'' ''must be a positive integer'' rid)
      else Inr (min (dec_val raw) 100))"

definition preflight :: "request \<Rightarrow> response" where
  "preflight rq =
     (let requested = filter (\<lambda>h. h \<noteq> []) (map (\<lambda>h. toLowerCase (js_trim h))
            (split_on CHR '','' (header rq ''access-control-request-headers'')));
          allowHeaders = filter (\<lambda>h. h \<in> set ALLOWED_HEADERS) requested;
          hs = fold (\<lambda>(k, v) m. jm_set k v m)
            [(''access-control-allow-methods'', ''GET, POST, PATCH, PUT, DELETE, OPTIONS''),
             (''access-control-allow-headers'', or_else (join '', '' allowHeaders) ''Authorization, Content-Type''),
             (''access-control-max-age'', ''600''),
             (''content-type'', ''text/plain; charset=utf-8''),
             (''content-length'', ''2'')] (corsHeaders rq)
      in \<lparr>rs_status = 200, rs_headers = hs, rs_body = BText (widen ''OK'')\<rparr>)"

definition jsonRows :: "(string \<Rightarrow> jv option) \<Rightarrow> jv \<Rightarrow> jv list" where
  "jsonRows jp value =
     (case (case value of JStr s \<Rightarrow> jp s | v \<Rightarrow> Some v) of
        Some (JArr vs) \<Rightarrow> filter (\<lambda>v. case v of JObj _ \<Rightarrow> True | JArr _ \<Rightarrow> True | _ \<Rightarrow> False) vs
      | _ \<Rightarrow> [])"

subsection \<open>Thrown errors\<close>

text \<open>A thrown value: its \<open>status\<close>, \<open>code\<close> and \<open>message\<close> properties, absent as \<open>0\<close> and the
  empty text (both are falsy for the tests made on them).\<close>

record exn =
  x_status :: int
  x_code :: string
  x_message :: string

definition Error :: "string \<Rightarrow> exn" where
  "Error m = \<lparr>x_status = 0, x_code = [], x_message = m\<rparr>"

definition codedError :: "exn \<Rightarrow> string \<Rightarrow> response" where
  "codedError x rid =
     (if x_status x \<noteq> 0 \<and> x_code x \<noteq> []
      then errorResponse (x_status x) (x_code x) (or_else (x_message x) ''internal error'') rid
      else errorResponse 500 ''INTERNAL'' ''internal error'' rid)"

subsection \<open>Lemmas\<close>

lemma errorDetails_status [simp]: "rs_status (errorDetails status code message rid d) = status"
  by (simp add: errorDetails_def jsonResponse_typed_def Let_def)

lemma errorResponse_status [simp]: "rs_status (errorResponse status code message rid) = status"
  by (simp add: errorResponse_def)

lemma fieldError_status [simp]: "rs_status (fieldError f m rid) = 400"
  by (simp add: fieldError_def)

lemma jsonResponse_status [simp]: "rs_status (jsonResponse status b rid) = status"
  by (simp add: jsonResponse_def jsonResponse_typed_def Let_def)

lemma headers_of_wf [simp]: "jm_wf (headers_of kvs)"
proof -
  have "jm_wf m \<Longrightarrow> jm_wf (fold (\<lambda>(k, v) m. jm_set k v m) kvs m)" for m :: "(string, string) jsmap"
    by (induction kvs arbitrary: m) auto
  then show ?thesis by (simp add: headers_of_def)
qed

lemma is_hex_lower_char [simp]: "is_hex c \<Longrightarrow> is_hex (lower_char c)"
  by (auto simp: is_hex_def is_hex_lower_def is_digit_def lower_char_def Let_def of_char_of)

lemma hex_of_lower: "hex_of n s \<Longrightarrow> hex_of n (toLowerCase s)"
  by (auto simp: hex_of_def toLowerCase_def list_all_iff)

lemma hex_not_dash: "list_all is_hex s \<Longrightarrow> CHR ''-'' \<notin> set s"
  by (auto simp: list_all_iff is_hex_def is_hex_lower_def is_digit_def)

lemma lower_char_dash: "lower_char (CHR ''-'') = CHR ''-''"
  by (simp add: lower_char_def)

lemma toLowerCase_append [simp]: "toLowerCase (a @ b) = toLowerCase a @ toLowerCase b"
  by (simp add: toLowerCase_def)

lemma uuid_shape_parts:
  assumes "hex_of 8 a" "hex_of 4 b" "hex_of 4 c" "hex_of 4 d" "hex_of 12 e"
  shows "uuid_shape (join ''-'' [a, b, c, d, e])"
proof -
  have n: "CHR ''-'' \<notin> set a" "CHR ''-'' \<notin> set b" "CHR ''-'' \<notin> set c" "CHR ''-'' \<notin> set d" "CHR ''-'' \<notin> set e"
    using assms by (simp_all add: hex_of_def hex_not_dash)
  have "split_on CHR ''-'' (a @ CHR ''-'' # b @ CHR ''-'' # c @ CHR ''-'' # d @ CHR ''-'' # e) = [a, b, c, d, e]"
    using n by (simp add: split_on_append_sep split_on_free)
  with assms show ?thesis by (simp add: uuid_shape_def)
qed

lemma hex_of_slice: "hex_of n s \<Longrightarrow> j \<le> n \<Longrightarrow> i \<le> j \<Longrightarrow> hex_of (j - i) (str_slice i j s)"
  by (auto simp: hex_of_def str_slice_def list_all_iff dest!: in_set_takeD in_set_dropD)


lemma take_drop_split: "i \<le> j \<Longrightarrow> str_slice i j s @ drop j s = drop i s"
  unfolding str_slice_def by (metis append_take_drop_id drop_drop le_add_diff_inverse2)

lemma toLowerCase_idem [simp]: "toLowerCase (toLowerCase s) = toLowerCase s"
  by (auto simp: toLowerCase_def lower_char_def Let_def of_char_of)

lemma toLowerCase_join5: "toLowerCase (join ''-'' [a, b, c, d, e])
    = join ''-'' [toLowerCase a, toLowerCase b, toLowerCase c, toLowerCase d, toLowerCase e]"
  by (simp add: lower_char_dash toLowerCase_def)

lemma uuid_shape_lower: "uuid_shape s \<Longrightarrow> uuid_shape (toLowerCase s)"
proof -
  assume "uuid_shape s"
  then obtain a b c d e where sp: "split_on CHR ''-'' s = [a, b, c, d, e]"
    and h: "hex_of 8 a" "hex_of 4 b" "hex_of 4 c" "hex_of 4 d" "hex_of 12 e"
    by (auto simp: uuid_shape_def split: list.splits)
  from sp join_split_on [of "CHR ''-''" s] have s: "s = join ''-'' [a, b, c, d, e]" by simp
  show ?thesis unfolding s toLowerCase_join5 using h by (intro uuid_shape_parts hex_of_lower)
qed

lemma uuid_shape_hyphenate: "hex_of 32 h \<Longrightarrow> uuid_shape (hyphenate h)"
  unfolding hyphenate_def
  by (intro uuid_shape_parts) (auto simp: hex_of_def str_slice_def list_all_iff dest!: in_set_takeD in_set_dropD)

lemma toLowerCase_hyphenate: "toLowerCase (hyphenate h) = hyphenate (toLowerCase h)"
  unfolding hyphenate_def toLowerCase_join5 by (simp add: toLowerCase_def str_slice_def take_map drop_map)

lemma parseUuid_shape: "parseUuid v = Some u \<Longrightarrow> uuid_shape u \<and> toLowerCase u = u"
  by (auto simp: parseUuid_def uuid_shape_lower uuid_shape_hyphenate hex_of_lower toLowerCase_hyphenate split: if_splits)

lemma parseUuid_fixed: "uuid_shape u \<Longrightarrow> toLowerCase u = u \<Longrightarrow> parseUuid u = Some u"
  by (simp add: parseUuid_def)

text \<open>Identifiers are canonical after \<open>parseUuid\<close>: an accepted value becomes a lower-case
  dashed UUID, parsing is idempotent on it, and the 32-digit form of an identifier denotes the same
  identifier as its dashed form.\<close>

theorem parseUuid_canonical:
  shows "(\<forall>v u. parseUuid v = Some u \<longrightarrow> uuid_shape u \<and> toLowerCase u = u \<and> parseUuid u = Some u)
    \<and> (\<forall>h. hex_of 32 h \<longrightarrow> parseUuid h = parseUuid (hyphenate h) \<and> parseUuid h \<noteq> None)"
proof -
  have "parseUuid h = parseUuid (hyphenate h) \<and> parseUuid h \<noteq> None" if h: "hex_of 32 h" for h
  proof -
    from h have "CHR ''-'' \<notin> set h" by (simp add: hex_of_def hex_not_dash)
    then have "\<not> uuid_shape h" by (simp add: uuid_shape_def split_on_free)
    with h uuid_shape_hyphenate show ?thesis by (simp add: parseUuid_def toLowerCase_hyphenate)
  qed
  then show ?thesis using parseUuid_shape parseUuid_fixed by blast
qed

theorem parseUuid_canonical_witness:
  "parseUuid ''0123456789ABCDEF0123456789abcdef'' \<noteq> None"
proof -
  have "hex_of 32 ''0123456789ABCDEF0123456789abcdef''" by (simp add: hex_of_def js_defs)
  with parseUuid_canonical show ?thesis by blast
qed

definition allowed_origin :: "string \<Rightarrow> bool" where
  "allowed_origin o' \<longleftrightarrow> o' \<in> set ALLOWED_ORIGINS \<or> local_origin o'"

definition varies_on :: "string \<Rightarrow> response \<Rightarrow> bool" where
  "varies_on name rs \<longleftrightarrow> (case jm_get (rs_headers rs) ''vary'' of
     None \<Rightarrow> False
   | Some v \<Rightarrow> list_ex (\<lambda>n. toLowerCase (js_trim n) = toLowerCase name) (split_on CHR '','' v))"

lemma split_on_append: "split_on d (a @ d # b) = split_on d a @ split_on d b"
  by (induction a) (auto split: list.splits)

lemma corsHeaders_cases:
  "corsHeaders rq = [(''vary'', ''Origin'')]
   \<or> (allowed_origin (header rq ''origin'') \<and> header rq ''origin'' \<noteq> [] \<and>
      corsHeaders rq = [(''access-control-allow-origin'', header rq ''origin''),
        (''access-control-allow-credentials'', ''true''), (''vary'', ''Origin'')])"
  by (auto simp: corsHeaders_def Let_def allowed_origin_def jm_set_def)

definition merge_vary :: "(string, string) jsmap \<Rightarrow> (string, string) jsmap" where
  "merge_vary hs = merge_cors (''vary'', ''Origin'') hs"

lemma merge_vary_other: "k \<noteq> ''vary'' \<Longrightarrow> jm_get (merge_vary hs) k = jm_get hs k"
  by (simp add: merge_vary_def merge_cors_def Let_def)

lemma merge_cors_set: "k \<noteq> ''vary'' \<Longrightarrow> jm_get (merge_cors (k, v) hs) = (jm_get hs)(k := Some (case jm_get hs k of None \<Rightarrow> v | Some x \<Rightarrow> x))"
  by (auto simp: merge_cors_def Let_def fun_eq_iff split: option.splits)

definition lists_name :: "string \<Rightarrow> string \<Rightarrow> bool" where
  "lists_name name v \<longleftrightarrow> list_ex (\<lambda>n. toLowerCase (js_trim n) = toLowerCase name) (split_on CHR '','' v)"

lemma merge_vary_lists:
  "\<exists>v. jm_get (merge_vary hs) ''vary'' = Some v \<and> lists_name ''Origin'' v
     \<and> (\<forall>name old. jm_get hs ''vary'' = Some old \<longrightarrow> old \<noteq> [] \<longrightarrow> lists_name name old \<longrightarrow> lists_name name v)"
proof -
  have one: "lists_name ''Origin'' ''Origin''"
    by (simp add: lists_name_def js_trim_def trimStart_def js_space_def)
  have sp: "lists_name ''Origin'' '' Origin''"
    by (simp add: lists_name_def js_trim_def trimStart_def js_space_def)
  show ?thesis
  proof (cases "or_empty (jm_get hs ''vary'') = []")
    case True
    with one show ?thesis by (auto simp: merge_vary_def merge_cors_def or_empty_def split: option.splits)
  next
    case False
    then obtain old where old: "jm_get hs ''vary'' = Some old" "old \<noteq> []"
      by (auto simp: or_empty_def split: option.splits)
    show ?thesis
    proof (cases "lists_name ''Origin'' old")
      case True
      with old show ?thesis by (auto simp: merge_vary_def merge_cors_def or_empty_def lists_name_def)
    next
      case False
      with old have "jm_get (merge_vary hs) ''vary'' = Some (old @ CHR '','' # '' Origin'')"
        by (simp add: merge_vary_def merge_cors_def or_empty_def lists_name_def)
      moreover have "lists_name name (old @ CHR '','' # '' Origin'') \<longleftrightarrow> lists_name name old \<or> lists_name name '' Origin''" for name
        unfolding lists_name_def split_on_append by simp
      ultimately show ?thesis using sp old by auto
    qed
  qed
qed

text \<open>CORS. A response names an allowed origin only when the route itself did or the request
  came from the app or from localhost; whatever the origin, the answer says that it varies on
  \<open>Origin\<close>, and the names it already varied on are kept.\<close>

theorem withCors_safe:
  assumes "200 \<le> rs_status rs" and "rs_status rs \<le> 599"
  shows "rs_status (withCors rq rs) = rs_status rs
    \<and> (\<forall>o'. jm_get (rs_headers (withCors rq rs)) ''access-control-allow-origin'' = Some o' \<longrightarrow>
          jm_get (rs_headers rs) ''access-control-allow-origin'' = Some o'
          \<or> (o' = header rq ''origin'' \<and> allowed_origin o'))
    \<and> varies_on ''Origin'' (withCors rq rs)
    \<and> (\<forall>name. varies_on name rs \<and> or_empty (jm_get (rs_headers rs) ''vary'') \<noteq> [] \<longrightarrow> varies_on name (withCors rq rs))"
proof -
  let ?o = "header rq ''origin''" and ?acao = "''access-control-allow-origin''" and ?cred = "''access-control-allow-credentials''"
  define hs where "hs = fold merge_cors (corsHeaders rq) (rs_headers rs)"
  obtain h0 where h0: "hs = merge_vary h0" "jm_get h0 ''vary'' = jm_get (rs_headers rs) ''vary''"
    "jm_get h0 ?acao = jm_get (rs_headers rs) ?acao
      \<or> (allowed_origin ?o \<and> jm_get h0 ?acao = Some (case jm_get (rs_headers rs) ?acao of None \<Rightarrow> ?o | Some x \<Rightarrow> x))"
  proof (cases rule: disjE [OF corsHeaders_cases [of rq]])
    case 1
    with that [of "rs_headers rs"] show ?thesis by (simp add: hs_def merge_vary_def)
  next
    case 2
    with that [of "merge_cors (?cred, ''true'') (merge_cors (?acao, ?o) (rs_headers rs))"]
    show ?thesis by (simp add: hs_def merge_vary_def merge_cors_set)
  qed
  from merge_vary_lists [of h0] obtain v where v: "jm_get hs ''vary'' = Some v" "lists_name ''Origin'' v"
    "\<And>name old. jm_get (rs_headers rs) ''vary'' = Some old \<Longrightarrow> old \<noteq> [] \<Longrightarrow> lists_name name old \<Longrightarrow> lists_name name v"
    unfolding h0(1) h0(2) by auto
  have st: "rs_status (withCors rq rs) = rs_status rs"
    and get: "jm_get (rs_headers (withCors rq rs)) k = jm_get hs k" if "k \<noteq> ''content-length''" for k
    using assms that by (simp_all add: withCors_def hs_def Let_def)
  have acao: "jm_get hs ?acao = jm_get h0 ?acao" by (simp add: h0(1) merge_vary_other)
  have "\<forall>o'. jm_get hs ?acao = Some o' \<longrightarrow> jm_get (rs_headers rs) ?acao = Some o' \<or> (o' = ?o \<and> allowed_origin o')"
    using h0(3) unfolding acao by (auto split: option.splits)
  moreover have "varies_on ''Origin'' (withCors rq rs)"
    using v(1,2) by (simp add: varies_on_def get lists_name_def [symmetric])
  moreover have "varies_on name (withCors rq rs)"
    if "varies_on name rs \<and> or_empty (jm_get (rs_headers rs) ''vary'') \<noteq> []" for name
  proof -
    from that obtain old where old: "jm_get (rs_headers rs) ''vary'' = Some old" "lists_name name old" "old \<noteq> []"
      by (auto simp: varies_on_def lists_name_def or_empty_def split: option.splits)
    from v(3) [OF old(1) old(3) old(2)] v(1) show ?thesis by (simp add: varies_on_def get lists_name_def [symmetric])
  qed
  ultimately show ?thesis using st [of "[]"] get [of ?acao] by simp
qed

theorem withCors_safe_witness:
  "let rq = \<lparr>rq_method = ''GET'', rq_path = ''/healthz'', rq_search = [], rq_query = [],
              rq_headers = [(''origin'', ''https://evil.example'')], rq_body = []\<rparr>;
       rs = errorResponse 404 ''NOT_FOUND'' ''resource not found'' ''r1''
   in rs_status (withCors rq rs) = 404 \<and> varies_on ''Origin'' (withCors rq rs)"
proof -
  let ?rq = "\<lparr>rq_method = ''GET'', rq_path = ''/healthz'', rq_search = [], rq_query = [],
     rq_headers = [(''origin'', ''https://evil.example'')], rq_body = []\<rparr>"
  let ?rs = "errorResponse 404 ''NOT_FOUND'' ''resource not found'' ''r1''"
  have "200 \<le> rs_status ?rs" "rs_status ?rs \<le> 599" by simp_all
  from withCors_safe [OF this, of ?rq] show ?thesis by (simp add: Let_def)
qed
end
