(* ===== verification/Cache.thy ===== *)
theory Cache
  imports Js_Map
begin

text \<open>
  \<open>services/gateway/src/middleware/cache.ts\<close>: the TTL clamp and the isolate-local cache of
  authenticated users, at most \<open>AUTH_CAP\<close> entries, oldest insertion evicted first.
\<close>

subsection \<open>The TTL clamp\<close>

definition clampTtl :: "string option \<Rightarrow> int \<Rightarrow> int \<Rightarrow> int" where
  "clampTtl raw fallback mx =
     (case raw of
        None \<Rightarrow> fallback
      | Some s \<Rightarrow>
          if s = [] then fallback
          else (case num_of_string s of
                  Fin n \<Rightarrow> if n < 0 then fallback else min \<lfloor>n\<rfloor> mx
                | _ \<Rightarrow> fallback))"

lemma clampTtl_range: "0 \<le> fallback \<Longrightarrow> fallback \<le> mx \<Longrightarrow> 0 \<le> clampTtl raw fallback mx \<and> clampTtl raw fallback mx \<le> mx"
  by (auto simp: clampTtl_def split: option.splits jsnum.splits)

subsection \<open>The auth cache\<close>

datatype account_type = PERSONAL | EMPLOYER

record user =
  u_id :: string
  u_displayName :: string
  u_locale :: string
  u_createdAt :: string
  u_accountType :: account_type
  u_companyId :: "string option"
  u_companyRole :: "string option"
  u_email :: string
  u_provider :: string
  u_plan :: string

record cached_user = user +
  u_expiresAtMs :: "int option"

record cache_entry =
  ce_user :: cached_user
  ce_until :: int

definition AUTH_CAP :: nat where "AUTH_CAP = 1024"

type_synonym auth_cache = "(string, cache_entry) jsmap"

definition resetAuth :: "auth_cache \<Rightarrow> auth_cache" where
  "resetAuth m = []"

text \<open>A hit past its time is deleted and answers \<open>undefined\<close>.\<close>

definition getAuth :: "auth_cache \<Rightarrow> string \<Rightarrow> int \<Rightarrow> cached_user option \<times> auth_cache" where
  "getAuth m hash nowMs =
     (case jm_get m hash of
        None \<Rightarrow> (None, m)
      | Some e \<Rightarrow> if ce_until e \<le> nowMs then (None, jm_delete hash m) else (Some (ce_user e), m))"

text \<open>\<open>while (auth.size > AUTH_CAP)\<close>: the oldest key goes.\<close>

fun evict :: "auth_cache \<Rightarrow> auth_cache" where
  "evict m = (if length m > AUTH_CAP
     then (case m of [] \<Rightarrow> m | (k, _) # r \<Rightarrow> evict r) else m)"

declare evict.simps [simp del]

definition putAuth :: "auth_cache \<Rightarrow> string \<Rightarrow> cached_user \<Rightarrow> int \<Rightarrow> int \<Rightarrow> auth_cache" where
  "putAuth m hash u nowMs ttlMs =
     evict (jm_set hash \<lparr>ce_user = u, ce_until = nowMs + ttlMs\<rparr> (jm_delete hash m))"

definition dropAuth :: "auth_cache \<Rightarrow> string \<Rightarrow> auth_cache" where
  "dropAuth m hash = jm_delete hash m"

text \<open>Dropping the head pair is \<open>auth.delete(oldest)\<close>: keys are distinct.\<close>

lemma evict_step: "jm_wf ((k, v) # r) \<Longrightarrow> jm_delete k ((k, v) # r) = r"
  by (simp add: jm_defs jm_delete_absent)

definition cache_inv :: "auth_cache \<Rightarrow> bool" where
  "cache_inv m \<longleftrightarrow> jm_wf m \<and> length m \<le> AUTH_CAP"

lemma evict_drop: "evict m = drop (length m - AUTH_CAP) m"
proof (induction m rule: evict.induct)
  case (1 m)
  show ?case
  proof (cases "length m > AUTH_CAP")
    case True
    then obtain k v r where m: "m = (k, v) # r" by (cases m) (auto simp: AUTH_CAP_def)
    with True 1 have "evict r = drop (length r - AUTH_CAP) r" by simp
    moreover have "length m - AUTH_CAP = Suc (length r - AUTH_CAP)" using True m by simp
    ultimately show ?thesis using True m by (simp add: evict.simps [of "(k, v) # r"])
  next
    case False
    then show ?thesis by (simp add: evict.simps [of m])
  qed
qed

lemma jm_wf_drop: "jm_wf m \<Longrightarrow> jm_wf (drop n m)"
  by (simp add: jm_wf_def drop_map [symmetric])

lemma cache_inv_putAuth: "jm_wf m \<Longrightarrow> cache_inv (putAuth m hash u nowMs ttlMs)"
  by (simp add: cache_inv_def putAuth_def evict_drop jm_wf_drop)

lemma length_jm_delete: "length (jm_delete k m) \<le> length m"
  by (simp add: jm_delete_def length_delete_le)

lemma cache_inv_getAuth: "cache_inv m \<Longrightarrow> cache_inv (snd (getAuth m hash nowMs))"
  using length_jm_delete [of hash m]
  by (cases "jm_get m hash") (auto simp: cache_inv_def getAuth_def)

lemma cache_inv_dropAuth: "cache_inv m \<Longrightarrow> cache_inv (dropAuth m hash)"
  using length_jm_delete [of hash m] by (auto simp: cache_inv_def dropAuth_def)

lemma jm_set_fresh: "k \<notin> fst ` set m \<Longrightarrow> jm_set k v m = m @ [(k, v)]"
  by (induction m) (auto simp: jm_set_def)

lemma jm_delete_fresh: "k \<notin> fst ` set (jm_delete k m)"
  by (auto simp: set_jm_delete)

lemma jm_get_drop_append:
  assumes "jm_wf (m @ [(k, v)])" "n \<le> length m"
  shows "jm_get (drop n (m @ [(k, v)])) k = Some v"
proof -
  have "jm_wf (drop n (m @ [(k, v)]))" using assms(1) by (rule jm_wf_drop)
  moreover have "(k, v) \<in> set (drop n (m @ [(k, v)]))" using assms(2) by simp
  ultimately show ?thesis by (simp add: jm_get_iff)
qed

lemma putAuth_append:
  "putAuth m hash u nowMs ttlMs =
     (let m' = jm_delete hash m @ [(hash, \<lparr>ce_user = u, ce_until = nowMs + ttlMs\<rparr>)]
      in drop (length m' - AUTH_CAP) m')"
  by (simp add: putAuth_def evict_drop jm_set_fresh jm_delete_fresh Let_def)

lemma jm_get_putAuth:
  assumes "jm_wf m"
  shows "jm_get (putAuth m hash u nowMs ttlMs) hash = Some \<lparr>ce_user = u, ce_until = nowMs + ttlMs\<rparr>"
proof -
  let ?e = "\<lparr>ce_user = u, ce_until = nowMs + ttlMs\<rparr>"
  have "jm_wf (jm_delete hash m @ [(hash, ?e)])"
    using jm.wf_refresh [OF assms, of hash ?e] by (simp add: jm_set_fresh jm_delete_fresh)
  then show ?thesis
    unfolding putAuth_append Let_def by (rule jm_get_drop_append) (simp add: AUTH_CAP_def)
qed

text \<open>The cache holds at most 1024 users and one entry per token, whatever was put before; the
  user just put is found until its time runs out, at that instant it is gone (and the entry with
  it), and the other entries kept are the most recently inserted ones.\<close>

theorem auth_cache_behaviour:
  fixes m :: auth_cache and hash :: string and u :: cached_user and nowMs ttlMs t :: int
  assumes "cache_inv m"
  defines "m' \<equiv> putAuth m hash u nowMs ttlMs"
  shows "cache_inv m'
    \<and> (t < nowMs + ttlMs \<longrightarrow> getAuth m' hash t = (Some u, m'))
    \<and> (nowMs + ttlMs \<le> t \<longrightarrow> fst (getAuth m' hash t) = None \<and> jm_get (snd (getAuth m' hash t)) hash = None)
    \<and> (\<exists>n. jm_keys m' = drop n (filter (\<lambda>k. k \<noteq> hash) (jm_keys m)) @ [hash])"
proof (intro conjI impI)
  from assms(1) have wf: "jm_wf m" by (simp add: cache_inv_def)
  show "cache_inv m'" unfolding m'_def using wf by (rule cache_inv_putAuth)
  note get = jm_get_putAuth [OF wf, of hash u nowMs ttlMs, folded m'_def]
  show "getAuth m' hash t = (Some u, m')" if "t < nowMs + ttlMs"
    using that by (simp add: getAuth_def get)
  show "fst (getAuth m' hash t) = None" "jm_get (snd (getAuth m' hash t)) hash = None" if "nowMs + ttlMs \<le> t"
    using that by (simp_all add: getAuth_def get)
  let ?d = "jm_delete hash m"
  have "jm_keys m' = drop (Suc (length ?d) - AUTH_CAP) (jm_keys ?d) @ [hash]"
    by (simp add: m'_def putAuth_append Let_def jm_keys_def drop_map AUTH_CAP_def)
  then show "\<exists>n. jm_keys m' = drop n (filter (\<lambda>k. k \<noteq> hash) (jm_keys m)) @ [hash]"
    by (auto simp: jm.keys_del)
qed

text \<open>Two tokens, the second one put at time 1000 for 5 seconds.\<close>

definition demo_user :: cached_user where
  "demo_user = \<lparr>u_id = ''u1'', u_displayName = ''Kim'', u_locale = ''ko'', u_createdAt = ''2026-01-01T00:00:00Z'',
     u_accountType = PERSONAL, u_companyId = None, u_companyRole = None, u_email = [], u_provider = ''google'',
     u_plan = ''FREE'', u_expiresAtMs = Some 9000\<rparr>"

theorem auth_cache_behaviour_witness:
  "let m = [(''h1'', \<lparr>ce_user = demo_user, ce_until = 4000\<rparr>)];
       m' = putAuth m ''h2'' demo_user 1000 5000
   in cache_inv m' \<and> getAuth m' ''h2'' 5999 = (Some demo_user, m') \<and> fst (getAuth m' ''h2'' 6000) = None"
proof -
  have inv: "cache_inv [(''h1'', \<lparr>ce_user = demo_user, ce_until = 4000\<rparr>)]"
    by (simp add: cache_inv_def jm_wf_def AUTH_CAP_def)
  from auth_cache_behaviour [OF inv, of "''h2''" demo_user 1000 5000 5999]
    auth_cache_behaviour [OF inv, of "''h2''" demo_user 1000 5000 6000]
  show ?thesis by (simp add: Let_def)
qed

end
