(* ===== verification/Rate_Limit.thy ===== *)
theory Rate_Limit
  imports Cache
begin

text \<open>
  \<open>services/gateway/src/middleware/ratelimit.ts\<close>: the shared request counter in the table
  \<open>rate_limits\<close> and the lease each isolate takes from it.

  The first part is the SQL: each statement is a function on the table (a map from buckets to
  rows). The second part is the isolate: \<open>hits\<close>, \<open>remoteHits\<close>, \<open>leases\<close> and the auth
  cache are one record, an operation takes it and returns it updated, and a database statement
  the operation issues is part of its result. A lease object carries its identity \<open>l_obj\<close>,
  because the delayed release compares objects with \<open>===\<close>. Code between two \<open>await\<close>s is one
  definition, so that \<open>Lease_System\<close> can interleave them.

  The counter columns are SQL integers; times are milliseconds.
\<close>

subsection \<open>The table and its statements\<close>

record rate_entry =
  e_hits :: int
  e_expires :: int

type_synonym rate_table = "string \<Rightarrow> rate_entry option"

text \<open>\<open>RATE_SQL\<close>: one hit, unless the row is full. \<open>None\<close> is the empty \<open>RETURNING\<close>.\<close>

definition rate_sql :: "rate_table \<Rightarrow> string \<Rightarrow> int \<Rightarrow> int \<Rightarrow> int option \<times> rate_table" where
  "rate_sql tbl bucket expires limit =
     (case tbl bucket of
        None \<Rightarrow> (Some 1, tbl(bucket \<mapsto> \<lparr>e_hits = 1, e_expires = expires\<rparr>))
      | Some e \<Rightarrow>
          if e_hits e < limit
          then (Some (e_hits e + 1), tbl(bucket \<mapsto> e\<lparr>e_hits := e_hits e + 1\<rparr>))
          else (None, tbl))"

definition lease_after :: "int \<Rightarrow> int \<Rightarrow> int" where
  "lease_after h release = max 0 (h - max release 0)"

definition lease_room :: "int \<Rightarrow> int \<Rightarrow> int \<Rightarrow> int" where
  "lease_room cap h release = max 0 (cap - lease_after h release)"

definition lease_shrink :: "int \<Rightarrow> int" where
  "lease_shrink room = (if room = 0 then 0 else max 1 (room div 16))"

definition lease_update :: "int \<Rightarrow> int \<Rightarrow> int \<Rightarrow> int \<Rightarrow> int" where
  "lease_update batch cap h release =
     (let room = lease_room cap h release in min batch (min room (lease_shrink room)))"

definition lease_insert :: "int \<Rightarrow> int \<Rightarrow> int" where
  "lease_insert batch cap = min batch (min cap (lease_shrink cap))"

text \<open>The \<open>bumped\<close> part of \<open>AUTH_RATE_PREFIX\<close> for a live token: the hits after the statement
  and the increment it applied, \<open>None\<close> when the \<open>WHERE\<close> of the update fails.\<close>

definition grant_sql ::
  "rate_table \<Rightarrow> string \<Rightarrow> int \<Rightarrow> int \<Rightarrow> int \<Rightarrow> int \<Rightarrow> (int \<times> int) option \<times> rate_table" where
  "grant_sql tbl bucket expires cap batch release =
     (case tbl bucket of
        None \<Rightarrow>
          (let g = lease_insert batch cap
           in (Some (g, g), tbl(bucket \<mapsto> \<lparr>e_hits = g, e_expires = expires + g\<rparr>)))
      | Some e \<Rightarrow>
          if 0 < release \<or> e_hits e < cap then
            (let g = lease_update batch cap (e_hits e) release;
                 h = lease_after (e_hits e) release + g
             in (Some (h, g), tbl(bucket \<mapsto> \<lparr>e_hits = h, e_expires = expires + g\<rparr>)))
          else (None, tbl))"

text \<open>\<open>RELEASE_SQL\<close>.\<close>

definition release_sql :: "rate_table \<Rightarrow> string \<Rightarrow> int \<Rightarrow> rate_table" where
  "release_sql tbl bucket amount =
     (case tbl bucket of
        None \<Rightarrow> tbl
      | Some e \<Rightarrow> if 0 < amount then tbl(bucket \<mapsto> e\<lparr>e_hits := max 0 (e_hits e - amount)\<rparr>) else tbl)"

definition hits_in :: "rate_table \<Rightarrow> string \<Rightarrow> int" where
  "hits_in tbl bucket = (case tbl bucket of None \<Rightarrow> 0 | Some e \<Rightarrow> e_hits e)"

subsection \<open>The isolate\<close>

record lease =
  l_remaining :: int
  l_size :: int
  l_expiresAt :: int
  l_spent :: bool
  l_bucket :: string
  l_timer :: int
  l_hits :: int
  l_cap :: int
  l_obj :: nat

text \<open>A delayed release armed with \<open>waitUntil\<close>: key, debounce token, delay.\<close>

record armed =
  a_key :: string
  a_epoch :: int
  a_delay :: int

record isolate =
  i_hits :: "(string, int list) jsmap"
  i_remoteHits :: "(string, int) jsmap"
  i_leases :: "(string, lease) jsmap"
  i_auth :: auth_cache
  i_armed :: "armed list"
  i_next :: nat

definition MAX_LEASE :: int where "MAX_LEASE = 8"
definition LEASE_TTL_MS :: int where "LEASE_TTL_MS = 5000"
definition RELEASE_DELAY_MS :: int where "RELEASE_DELAY_MS = 250"

definition readCap :: "int \<Rightarrow> int" where
  "readCap limit = (if limit < 10 then limit else limit - limit div 10)"

definition windowOf :: "int \<Rightarrow> int" where
  "windowOf moment = moment div 60000"

definition resetLimits :: "isolate \<Rightarrow> isolate" where
  "resetLimits st = st\<lparr>i_hits := [], i_remoteHits := [], i_leases := [], i_auth := resetAuth (i_auth st)\<rparr>"

text \<open>The text after the last colon; the whole text when there is none
  (\<open>key.slice(key.lastIndexOf(":") + 1)\<close>).\<close>

definition after_last_colon :: "string \<Rightarrow> string" where
  "after_last_colon s = rev (takeWhile (\<lambda>c. c \<noteq> CHR '':'') (rev s))"

text \<open>The synchronous part of \<open>releaseLease\<close>: the units are out of the lease before the
  \<open>UPDATE\<close> is awaited. \<open>None\<close> is the early return.\<close>

definition releaseLease :: "lease \<Rightarrow> (string \<times> int) option \<times> lease" where
  "releaseLease l =
     (if l_remaining l \<le> 0 then (None, l)
      else (Some (l_bucket l, l_remaining l), l\<lparr>l_remaining := 0, l_spent := False\<rparr>))"

definition due_lease :: "int \<Rightarrow> string \<Rightarrow> string \<Rightarrow> lease \<Rightarrow> bool" where
  "due_lease nowMs exceptKey key l \<longleftrightarrow>
     (let currentWindow = (if CHR '':'' \<in> set exceptKey then after_last_colon exceptKey else []);
          minuteRolled = (currentWindow \<noteq> [] \<and> after_last_colon key \<noteq> currentWindow)
      in key \<noteq> exceptKey \<and> l_remaining l > 0 \<and> (minuteRolled \<or> l_expiresAt l \<le> nowMs))"

text \<open>Deleting an entry of both maps, as every drop of a lease does.\<close>

definition drop_lease :: "string \<Rightarrow> isolate \<Rightarrow> isolate" where
  "drop_lease key st = st\<lparr>i_leases := jm_delete key (i_leases st), i_remoteHits := jm_delete key (i_remoteHits st)\<rparr>"

fun drop_leases :: "string list \<Rightarrow> isolate \<Rightarrow> isolate" where
  "drop_leases [] st = st"
| "drop_leases (k # ks) st = drop_leases ks (drop_lease k st)"

text \<open>\<open>releaseExpired\<close>: the returns it starts, in map order, and the isolate after the loop.\<close>

definition releaseExpired :: "int \<Rightarrow> string \<Rightarrow> isolate \<Rightarrow> (string \<times> int) list \<times> isolate" where
  "releaseExpired nowMs exceptKey st =
     (let due = filter (\<lambda>(k, l). due_lease nowMs exceptKey k l) (i_leases st)
      in (map (\<lambda>(k, l). (l_bucket l, l_remaining l)) due, drop_leases (map fst due) st))"

definition nearCap :: "lease \<Rightarrow> bool" where
  "nearCap l \<longleftrightarrow> (let room = l_cap l - l_hits l
     in l_cap l - l_cap l div 8 \<le> l_hits l \<or> room < max (l_size l) 1 * 16)"

definition worthReturning :: "lease \<Rightarrow> bool" where
  "worthReturning l \<longleftrightarrow> \<not> (l_remaining l \<le> 0 \<or> (l_remaining l \<le> 1 \<and> l_hits l < l_cap l div 4))"

definition releaseDelayMs :: "lease \<Rightarrow> int" where
  "releaseDelayMs l =
     (let mostlyUnused = (l_size l - 1 \<le> l_remaining l \<or> l_size l \<le> l_remaining l * 2)
      in if mostlyUnused \<and> nearCap l then 0 else RELEASE_DELAY_MS)"

text \<open>\<open>armRelease\<close> up to its \<open>sleep\<close>; \<open>wait\<close> says whether the runtime has \<open>waitUntil\<close>.\<close>

definition armRelease :: "bool \<Rightarrow> string \<Rightarrow> isolate \<Rightarrow> isolate" where
  "armRelease wait key st =
     (if \<not> wait then st
      else case jm_get (i_leases st) key of
        None \<Rightarrow> st
      | Some l \<Rightarrow>
          if \<not> worthReturning l then st
          else (let epoch = l_timer l + 1; l' = l\<lparr>l_timer := epoch\<rparr>
                in st\<lparr>i_leases := jm_set key l' (i_leases st),
                      i_armed := i_armed st @ [\<lparr>a_key = key, a_epoch = epoch, a_delay = releaseDelayMs l'\<rparr>]\<rparr>))"

text \<open>The armed task after its \<open>sleep\<close>, up to the \<open>await\<close> of the release: the units to
  return and the object they were taken from.\<close>

definition fireRelease :: "string \<Rightarrow> int \<Rightarrow> isolate \<Rightarrow> (string \<times> int \<times> nat) option \<times> isolate" where
  "fireRelease key epoch st =
     (case jm_get (i_leases st) key of
        None \<Rightarrow> (None, st)
      | Some l \<Rightarrow>
          if l_timer l \<noteq> epoch \<or> \<not> worthReturning l then (None, st)
          else (case releaseLease l of
                  (r, l') \<Rightarrow> (map_option (\<lambda>(b, n). (b, n, l_obj l)) r,
                              st\<lparr>i_leases := jm_set key l' (i_leases st)\<rparr>)))"

text \<open>The rest of the task, once the release has returned.\<close>

definition finishRelease :: "string \<Rightarrow> nat \<Rightarrow> isolate \<Rightarrow> isolate" where
  "finishRelease key obj st =
     (case jm_get (i_leases st) key of
        None \<Rightarrow> st
      | Some l \<Rightarrow> if l_obj l = obj \<and> l_remaining l \<le> 0 then drop_lease key st else st)"

subsection \<open>Counting inside the isolate\<close>

definition prune_hits :: "int \<Rightarrow> (string, int list) jsmap \<Rightarrow> (string, int list) jsmap" where
  "prune_hits cutoff m = filter (\<lambda>(_, times). \<exists>t \<in> set times. cutoff < t) m"

definition allow :: "string \<Rightarrow> int \<Rightarrow> int \<Rightarrow> int \<Rightarrow> isolate \<Rightarrow> bool \<times> isolate" where
  "allow key limit windowMs nowMs st =
     (let list = (case jm_get (i_hits st) key of None \<Rightarrow> [] | Some ts \<Rightarrow> ts);
          cutoff = nowMs - windowMs;
          kept = filter (\<lambda>t. cutoff < t) list
      in if limit \<le> int (length kept) then (False, st\<lparr>i_hits := jm_set key kept (i_hits st)\<rparr>)
         else (let m = (if 10000 < length (i_hits st) then prune_hits cutoff (i_hits st) else i_hits st)
               in (True, st\<lparr>i_hits := jm_set key (kept @ [nowMs]) m\<rparr>)))"

text \<open>A counter row as the driver returns it: \<open>hits\<close> is \<open>None\<close> when the column is NULL;
  \<open>granted\<close> is \<open>None\<close> when the row has no such property.\<close>

record rate_row =
  r_hits :: "int option"
  r_granted :: "int option option"

definition rememberHits :: "string \<Rightarrow> int option \<Rightarrow> int \<Rightarrow> isolate \<Rightarrow> isolate" where
  "rememberHits bucket h limit st =
     st\<lparr>i_remoteHits := jm_set bucket (case h of None \<Rightarrow> limit | Some n \<Rightarrow> n) (i_remoteHits st)\<rparr>"

definition shared_bucket :: "string \<Rightarrow> string \<Rightarrow> int \<Rightarrow> string" where
  "shared_bucket kind key now = kind @ CHR '':'' # or_else key ''unknown'' @ CHR '':'' # int_dec (windowOf now)"

text \<open>\<open>allowShared\<close>: \<open>q\<close> is the database, which returns the row's hits (\<open>Inr None\<close> for an
  empty result) or fails.\<close>

definition allowShared ::
  "(string \<Rightarrow> int \<Rightarrow> int \<Rightarrow> 'w \<Rightarrow> (unit + int option) \<times> 'w) \<Rightarrow> string \<Rightarrow> string \<Rightarrow> int \<Rightarrow> int \<Rightarrow> int
    \<Rightarrow> isolate \<Rightarrow> 'w \<Rightarrow> bool \<times> isolate \<times> 'w" where
  "allowShared q kind key limit windowMs now st w =
     (let window = windowOf now; bucket = shared_bucket kind key now in
      case jm_get (i_remoteHits st) bucket of
        Some known \<Rightarrow> if limit \<le> known then (False, st, w) else
          (case q bucket (window * 60 + 120) limit w of
             (Inl _, w') \<Rightarrow> (case allow bucket limit windowMs now st of (b, st') \<Rightarrow> (b, st', w'))
           | (Inr None, w') \<Rightarrow> (False, rememberHits bucket None limit st, w')
           | (Inr (Some n), w') \<Rightarrow> (n \<le> limit, rememberHits bucket (Some n) limit st, w'))
      | None \<Rightarrow>
          (case q bucket (window * 60 + 120) limit w of
             (Inl _, w') \<Rightarrow> (case allow bucket limit windowMs now st of (b, st') \<Rightarrow> (b, st', w'))
           | (Inr None, w') \<Rightarrow> (False, rememberHits bucket None limit st, w')
           | (Inr (Some n), w') \<Rightarrow> (n \<le> limit, rememberHits bucket (Some n) limit st, w')))"

subsection \<open>Grants\<close>

record rate_params =
  rp_hash :: string
  rp_window :: string
  rp_expires :: int
  rp_cap :: int
  rp_moment :: int
  rp_batch :: int
  rp_release :: int

text \<open>The first seven statement parameters; \<open>$5\<close> is the moment in seconds, kept here in
  milliseconds.\<close>

definition rateParams :: "string \<Rightarrow> int \<Rightarrow> int \<Rightarrow> int \<Rightarrow> int \<Rightarrow> rate_params" where
  "rateParams hash moment limit batch release =
     (let window = windowOf moment; size = max 1 (min MAX_LEASE batch)
      in \<lparr>rp_hash = hash, rp_window = int_dec window, rp_expires = window * 60 + 120,
          rp_cap = readCap limit, rp_moment = moment, rp_batch = size, rp_release = max 0 release\<rparr>)"

definition acceptGrant ::
  "bool \<Rightarrow> string \<Rightarrow> rate_row \<Rightarrow> int \<Rightarrow> int \<Rightarrow> string \<Rightarrow> isolate \<Rightarrow> bool \<times> isolate" where
  "acceptGrant wait key row limit nowMs bucket st0 =
     (let st = rememberHits key (r_hits row) limit st0 in
      case r_hits row of
        None \<Rightarrow> (False, st\<lparr>i_leases := jm_delete key (i_leases st)\<rparr>)
      | Some h \<Rightarrow>
          if limit < h then (False, st\<lparr>i_leases := jm_delete key (i_leases st)\<rparr>)
          else
            (let granted = (case r_granted row of None \<Rightarrow> 1 | Some None \<Rightarrow> 0 | Some (Some g) \<Rightarrow> g) in
             if granted \<le> 0
             then (False, st\<lparr>i_remoteHits := jm_set key limit (i_remoteHits st),
                             i_leases := jm_delete key (i_leases st)\<rparr>)
             else
               (let left = max 0 (granted - 1);
                    prev = jm_get (i_leases st) key;
                    remaining = (case prev of None \<Rightarrow> 0 | Some p \<Rightarrow> l_remaining p) + left;
                    l = \<lparr>l_remaining = remaining, l_size = granted, l_expiresAt = nowMs + LEASE_TTL_MS,
                         l_spent = (remaining = 0), l_bucket = bucket,
                         l_timer = (case prev of None \<Rightarrow> 0 | Some p \<Rightarrow> l_timer p),
                         l_hits = h, l_cap = limit, l_obj = i_next st\<rparr>;
                    st1 = st\<lparr>i_leases := jm_set key l (i_leases st), i_next := Suc (i_next st)\<rparr>;
                    st2 = (if remaining > 0 then armRelease wait key st1 else st1);
                    st3 = (if limit \<le> h \<and> remaining \<le> 0
                           then st2\<lparr>i_remoteHits := jm_set key limit (i_remoteHits st2)\<rparr> else st2)
                in (True, st3))))"

definition spendLease :: "bool \<Rightarrow> string \<Rightarrow> int \<Rightarrow> isolate \<Rightarrow> isolate" where
  "spendLease wait key nowMs st =
     (case jm_get (i_leases st) key of
        None \<Rightarrow> st
      | Some l \<Rightarrow>
          if l_remaining l \<le> 0 then st
          else
            (let l1 = l\<lparr>l_remaining := l_remaining l - 1, l_expiresAt := nowMs + LEASE_TTL_MS\<rparr> in
             if l_remaining l1 = 0
             then st\<lparr>i_leases := jm_set key (l1\<lparr>l_spent := True\<rparr>) (i_leases st)\<rparr>
             else armRelease wait key (st\<lparr>i_leases := jm_set key l1 (i_leases st)\<rparr>)))"

definition nextBatch :: "lease option \<Rightarrow> int \<Rightarrow> int \<Rightarrow> int" where
  "nextBatch l nowMs release =
     (case l of
        None \<Rightarrow> 1
      | Some l \<Rightarrow>
          if 0 < release then 1
          else if l_spent l \<and> l_remaining l \<le> 0 \<and> nowMs < l_expiresAt l
          then min MAX_LEASE (max 1 (l_size l) * 2) else 1)"

text \<open>\<open>clearLease\<close>: the leases of a token are captured first and then returned and dropped one
  by one. The loop awaits each return, so other requests of the isolate run between two turns:
  a captured object may by then be replaced by \<open>acceptGrant\<close> or dropped. A captured lease is
  therefore a key and an object, and \<open>lease_heap\<close> keeps the last value of every object, stored or
  not. \<open>clear_capture\<close> is the first loop, \<open>clear_turn\<close> a turn of the second up to its \<open>await\<close>;
  the rest of the turn is \<open>drop_lease\<close> of the key.\<close>

type_synonym lease_heap = "nat \<Rightarrow> lease option"

definition track :: "isolate \<Rightarrow> lease_heap \<Rightarrow> lease_heap" where
  "track st heap = (\<lambda>ob. case find (\<lambda>(_, l). l_obj l = ob) (i_leases st) of None \<Rightarrow> heap ob | Some (_, l) \<Rightarrow> Some l)"

text \<open>\<open>releaseExpired\<close> empties the objects it drops.\<close>

definition expire_heap :: "int \<Rightarrow> string \<Rightarrow> isolate \<Rightarrow> lease_heap \<Rightarrow> lease_heap" where
  "expire_heap nowMs exceptKey st heap =
     (\<lambda>ob. case find (\<lambda>(k, l). l_obj l = ob \<and> due_lease nowMs exceptKey k l) (i_leases st) of
              None \<Rightarrow> heap ob | Some (_, l) \<Rightarrow> Some (snd (releaseLease l)))"

definition is_stored :: "string \<Rightarrow> nat \<Rightarrow> isolate \<Rightarrow> bool" where
  "is_stored key ob st = (case jm_get (i_leases st) key of None \<Rightarrow> False | Some l \<Rightarrow> l_obj l = ob)"

definition clear_turn :: "string \<Rightarrow> nat \<Rightarrow> isolate \<Rightarrow> lease_heap \<Rightarrow> (string \<times> int) option \<times> isolate \<times> lease_heap" where
  "clear_turn key ob st heap =
     (case (if is_stored key ob st then jm_get (i_leases st) key else heap ob) of
        None \<Rightarrow> (None, st, heap)
      | Some l \<Rightarrow>
          (case releaseLease l of
             (rel, l') \<Rightarrow> (rel, if is_stored key ob st then st\<lparr>i_leases := jm_set key l' (i_leases st)\<rparr> else st,
                          heap(ob \<mapsto> l'))))"

text \<open>\<open>clearLease\<close> is the run of the loop without another request in between; then the captured
  object is the stored one at every turn (lemma \<open>clear_turn_stored\<close>).\<close>

definition owned_leases :: "string \<Rightarrow> isolate \<Rightarrow> (string \<times> lease) list" where
  "owned_leases hash st = filter (\<lambda>(k, _). startsWith k (''user:'' @ hash @ '':'')) (i_leases st)"

fun clear_loop :: "(string \<times> lease) list \<Rightarrow> isolate \<Rightarrow> (string \<times> int) list \<times> isolate" where
  "clear_loop [] st = ([], st)"
| "clear_loop ((k, l) # r) st =
     (case releaseLease l of
        (rel, _) \<Rightarrow> (case clear_loop r (drop_lease k st) of
                      (rels, st') \<Rightarrow> ((case rel of None \<Rightarrow> rels | Some p \<Rightarrow> p # rels), st')))"

definition clear_capture :: "string \<Rightarrow> isolate \<Rightarrow> (string \<times> nat) list" where
  "clear_capture hash st = map (\<lambda>(k, l). (k, l_obj l)) (owned_leases hash st)"

definition clearLease :: "string \<Rightarrow> isolate \<Rightarrow> (string \<times> int) list \<times> isolate" where
  "clearLease hash st = clear_loop (owned_leases hash st) st"


subsection \<open>The SQL never moves a counter past its cap\<close>

lemmas lease_sql_defs = lease_after_def lease_room_def lease_shrink_def lease_update_def lease_insert_def Let_def

lemma lease_shrink_nonneg: "0 \<le> lease_shrink room"
  by (simp add: lease_shrink_def max_def)

lemma lease_update_bounds:
  assumes "1 \<le> batch"
  shows "0 \<le> lease_update batch cap h release \<and> lease_update batch cap h release \<le> batch
    \<and> lease_update batch cap h release \<le> lease_room cap h release"
proof -
  have "0 \<le> lease_room cap h release" by (simp add: lease_room_def)
  with assms lease_shrink_nonneg [of "lease_room cap h release"] show ?thesis
    by (simp add: lease_update_def Let_def)
qed

lemma lease_update_fits:
  "lease_update batch cap h release \<le> lease_room cap h release \<Longrightarrow>
   lease_after h release + lease_update batch cap h release \<le> max (lease_after h release) cap"
  by (simp add: lease_room_def)

lemma lease_insert_bounds:
  assumes "1 \<le> batch" "0 \<le> cap"
  shows "0 \<le> lease_insert batch cap \<and> lease_insert batch cap \<le> min batch cap"
proof -
  have "lease_insert batch cap \<le> cap" unfolding lease_insert_def by (simp add: min.coboundedI2)
  with assms lease_shrink_nonneg [of cap] show ?thesis by (simp add: lease_insert_def)
qed

text \<open>The two laws of the shared counter: what a grant adds is covered by the counter and stays
  within the cap, and what is given back comes off it. Other buckets are never touched.\<close>

locale rate_counter =
  fixes count :: "'t \<Rightarrow> 'b \<Rightarrow> int"
    and grant :: "'t \<Rightarrow> 'b \<Rightarrow> int \<Rightarrow> int \<Rightarrow> int \<Rightarrow> int \<Rightarrow> (int \<times> int) option \<times> 't"
    and give_back :: "'t \<Rightarrow> 'b \<Rightarrow> int \<Rightarrow> 't"
  assumes grant_count:
      "1 \<le> batch \<Longrightarrow> 0 \<le> cap \<Longrightarrow> 0 \<le> rel \<Longrightarrow> 0 \<le> count t b \<Longrightarrow> grant t b ex cap batch rel = (r, t') \<Longrightarrow>
       case r of None \<Rightarrow> t' = t
       | Some (h, g) \<Rightarrow> count t' b = h \<and> h = max 0 (count t b - rel) + g \<and> 0 \<le> g \<and> g \<le> batch
           \<and> h \<le> max (count t b) cap \<and> (0 < g \<longrightarrow> h \<le> cap)"
    and grant_other: "b' \<noteq> b \<Longrightarrow> count (snd (grant t b ex cap batch rel)) b' = count t b'"
    and give_back_count: "0 \<le> n \<Longrightarrow> 0 \<le> count t b \<Longrightarrow> count (give_back t b n) b = max 0 (count t b - n)"
    and give_back_other: "b' \<noteq> b \<Longrightarrow> count (give_back t b n) b' = count t b'"
begin

lemma grant_le_limit:
  assumes "1 \<le> batch" "0 \<le> cap" "cap \<le> L" "0 \<le> rel" "0 \<le> count t b" "count t b \<le> L"
  shows "count (snd (grant t b ex cap batch rel)) b \<le> L"
proof (cases "grant t b ex cap batch rel")
  case (Pair r t')
  from grant_count [OF assms(1,2,4,5) Pair] assms(3,6) Pair show ?thesis
    by (cases r) auto
qed

text \<open>Units held outside the counter stay covered by it, up to a debt \<open>d\<close>, when a grant moves
  \<open>rel\<close> of them back and takes \<open>g\<close> new ones, and when \<open>n\<close> of them are given back.\<close>

lemma grant_covers:
  assumes "1 \<le> batch" "0 \<le> cap" "0 \<le> rel" "0 \<le> count t b" "held + rel \<le> count t b + d"
    and "grant t b ex cap batch rel = (Some (h, g), t')"
  shows "held + g \<le> count t' b + d"
  using grant_count [OF assms(1-4,6)] assms(5) by auto

lemma give_back_covers:
  assumes "0 \<le> n" "0 \<le> count t b" "held + n \<le> count t b + d"
  shows "held \<le> count (give_back t b n) b + d"
  using give_back_count [of n t b] assms by simp

end

lemma grant_sql_count:
  assumes "1 \<le> batch" "0 \<le> cap" "0 \<le> rel" "0 \<le> hits_in t b" and g: "grant_sql t b ex cap batch rel = (r, t')"
  shows "case r of None \<Rightarrow> t' = t
     | Some (h, g) \<Rightarrow> hits_in t' b = h \<and> h = max 0 (hits_in t b - rel) + g \<and> 0 \<le> g \<and> g \<le> batch
         \<and> h \<le> max (hits_in t b) cap \<and> (0 < g \<longrightarrow> h \<le> cap)"
proof (cases "t b")
  case None
  with g lease_insert_bounds [OF assms(1,2)] assms(3,4) show ?thesis
    by (auto simp: grant_sql_def hits_in_def Let_def)
next
  case (Some e)
  have after: "lease_after (e_hits e) rel = max 0 (e_hits e - rel)"
    using assms(3,4) Some by (simp add: lease_after_def hits_in_def)
  note b = lease_update_bounds [OF assms(1), of cap "e_hits e" rel]
  have fits: "x + g \<le> max x cap \<and> (0 < g \<longrightarrow> x + g \<le> cap)" if "g \<le> max 0 (cap - x)" for x g
    using that by linarith
  have h0: "0 \<le> e_hits e" using assms(4) Some by (simp add: hits_in_def)
  let ?x = "max 0 (e_hits e - rel)" and ?g = "lease_update batch cap (e_hits e) rel"
  have f: "?x + ?g \<le> max (e_hits e) cap \<and> (0 < ?g \<longrightarrow> ?x + ?g \<le> cap)"
    using fits [of ?g ?x] b after assms(3) h0 by (auto simp: lease_room_def)
  show ?thesis
  proof (cases "0 < rel \<or> e_hits e < cap")
    case True
    then have r: "r = Some (?x + ?g, ?g)" and t: "t' = t(b \<mapsto> \<lparr>e_hits = ?x + ?g, e_expires = ex + ?g\<rparr>)"
      using g Some by (auto simp: grant_sql_def Let_def after)
    have "hits_in t' b = ?x + ?g" "hits_in t b = e_hits e" using Some by (simp_all add: t hits_in_def)
    with b f show ?thesis by (simp add: r)
  next
    case False
    then show ?thesis using g Some by (auto simp: grant_sql_def)
  qed
qed

interpretation counter: rate_counter hits_in grant_sql release_sql
proof
  show "case r of None \<Rightarrow> t' = t
     | Some (h, g) \<Rightarrow> hits_in t' b = h \<and> h = max 0 (hits_in t b - rel) + g \<and> 0 \<le> g \<and> g \<le> batch
         \<and> h \<le> max (hits_in t b) cap \<and> (0 < g \<longrightarrow> h \<le> cap)"
    if "1 \<le> batch" "0 \<le> cap" "0 \<le> rel" "0 \<le> hits_in t b" "grant_sql t b ex cap batch rel = (r, t')"
    for batch cap rel t b ex r t'
    using that by (rule grant_sql_count)
  show "hits_in (snd (grant_sql t b ex cap batch rel)) b' = hits_in t b'" if "b' \<noteq> b" for b' b t ex cap batch rel
    using that by (auto simp: grant_sql_def hits_in_def Let_def split: option.splits)
  show "hits_in (release_sql t b n) b = max 0 (hits_in t b - n)" if "0 \<le> n" "0 \<le> hits_in t b" for n t b
    using that by (auto simp: release_sql_def hits_in_def split: option.splits)
  show "hits_in (release_sql t b n) b' = hits_in t b'" if "b' \<noteq> b" for b' b t n
    using that by (auto simp: release_sql_def hits_in_def split: option.splits)
qed

lemma rate_sql_count:
  "rate_sql t b ex limit = (r, t') \<Longrightarrow>
     (case r of None \<Rightarrow> t' = t \<and> limit \<le> hits_in t b
      | Some h \<Rightarrow> hits_in t' b = h \<and> h = hits_in t b + 1 \<and> (h \<le> max 1 limit))
     \<and> (\<forall>b'. b' \<noteq> b \<longrightarrow> hits_in t' b' = hits_in t b')"
  by (auto simp: rate_sql_def hits_in_def split: option.splits if_splits)

subsection \<open>What the isolate holds\<close>

text \<open>The units of bucket \<open>b\<close> that the isolate has taken from the counter and not yet handed to a
  request, and the units a list of returns gives back to it.\<close>

definition unit_of :: "string \<Rightarrow> string \<Rightarrow> lease \<Rightarrow> int" where
  "unit_of b k l = (if l_bucket l = b then l_remaining l else 0)"

definition outstanding :: "string \<Rightarrow> isolate \<Rightarrow> int" where
  "outstanding b st = msum (unit_of b) (i_leases st)"

definition returned :: "string \<Rightarrow> (string \<times> int) list \<Rightarrow> int" where
  "returned b rels = sum_list (map (\<lambda>(b', n). if b' = b then n else 0) rels)"

text \<open>\<open>bkt\<close> says which shared bucket a local key belongs to (the same minute of the user that
  owns the token).\<close>

definition lease_ok :: "(string \<Rightarrow> string) \<Rightarrow> string \<Rightarrow> lease \<Rightarrow> bool" where
  "lease_ok bkt k l \<longleftrightarrow> 0 \<le> l_remaining l \<and> l_bucket l = bkt k"

definition iso_inv :: "(string \<Rightarrow> string) \<Rightarrow> isolate \<Rightarrow> bool" where
  "iso_inv bkt st \<longleftrightarrow> jm_wf (i_leases st) \<and> (\<forall>(k, l) \<in> set (i_leases st). lease_ok bkt k l)"

lemma returned_Nil [simp]: "returned b [] = 0"
  by (simp add: returned_def)

lemma returned_Cons [simp]: "returned b ((b', n) # rels) = (if b' = b then n else 0) + returned b rels"
  by (simp add: returned_def)

lemma returned_append [simp]: "returned b (xs @ ys) = returned b xs + returned b ys"
  by (simp add: returned_def)

lemma iso_invD:
  assumes "iso_inv bkt st"
  shows "jm_wf (i_leases st)" and "jm_get (i_leases st) k = Some l \<Longrightarrow> lease_ok bkt k l"
    and "(k, l) \<in> set (i_leases st) \<Longrightarrow> lease_ok bkt k l"
  using assms by (auto simp: iso_inv_def dest: jm_get_in)

lemma outstanding_nonneg:
  assumes "iso_inv bkt st"
  shows "0 \<le> outstanding b st"
  unfolding outstanding_def
  by (rule msum_nonneg) (use iso_invD(3) [OF assms] in \<open>auto simp: unit_of_def lease_ok_def\<close>)

lemma iso_inv_set:
  "iso_inv bkt st \<Longrightarrow> lease_ok bkt k l \<Longrightarrow> iso_inv bkt (st\<lparr>i_leases := jm_set k l (i_leases st)\<rparr>)"
  using set_jm_set_subset [of k l "i_leases st"] by (fastforce simp: iso_inv_def)

lemma iso_inv_delete: "iso_inv bkt st \<Longrightarrow> iso_inv bkt (st\<lparr>i_leases := jm_delete k (i_leases st)\<rparr>)"
  by (auto simp: iso_inv_def set_jm_delete)

lemma iso_inv_leases: "i_leases st' = i_leases st \<Longrightarrow> iso_inv bkt st' = iso_inv bkt st"
  by (simp add: iso_inv_def)

lemma outstanding_leases: "i_leases st' = i_leases st \<Longrightarrow> outstanding b st' = outstanding b st"
  by (simp add: outstanding_def)

definition part :: "string \<Rightarrow> string \<Rightarrow> isolate \<Rightarrow> int" where
  "part b k st = mpart (unit_of b) k (i_leases st)"

lemma part_Some: "jm_get (i_leases st) k = Some l \<Longrightarrow> part b k st = unit_of b k l"
  by (simp add: part_def mpart_def)

lemma part_None: "jm_get (i_leases st) k = None \<Longrightarrow> part b k st = 0"
  by (simp add: part_def mpart_def)

lemma part_nonneg: "iso_inv bkt st \<Longrightarrow> 0 \<le> part b k st"
  by (cases "jm_get (i_leases st) k") (auto simp: part_Some part_None unit_of_def lease_ok_def dest: iso_invD(2))

lemma outstanding_set:
  "iso_inv bkt st \<Longrightarrow>
   outstanding b (st\<lparr>i_leases := jm_set k l (i_leases st)\<rparr>) = outstanding b st - part b k st + unit_of b k l"
  by (simp add: outstanding_def part_def msum_set iso_inv_def)

lemma outstanding_delete:
  "iso_inv bkt st \<Longrightarrow> outstanding b (st\<lparr>i_leases := jm_delete k (i_leases st)\<rparr>) = outstanding b st - part b k st"
  by (simp add: outstanding_def part_def msum_delete iso_inv_def)

lemma drop_lease_eq:
  "i_leases (drop_lease k st) = i_leases (st\<lparr>i_leases := jm_delete k (i_leases st)\<rparr>)"
  by (simp add: drop_lease_def)

lemma iso_inv_drop: "iso_inv bkt st \<Longrightarrow> iso_inv bkt (drop_lease k st)"
  using iso_inv_leases [OF drop_lease_eq] iso_inv_delete by blast

lemma outstanding_drop: "iso_inv bkt st \<Longrightarrow> outstanding b (drop_lease k st) = outstanding b st - part b k st"
  using outstanding_leases [OF drop_lease_eq] outstanding_delete by metis

lemma part_drop_other: "k' \<noteq> k \<Longrightarrow> part b k' (drop_lease k st) = part b k' st"
  by (simp add: part_def mpart_def drop_lease_def)

text \<open>Dropping a set of captured leases while their units are returned moves the units, whatever
  the reason for the drop.\<close>

lemma drop_leases_moves:
  assumes "iso_inv bkt st" "distinct (map fst due)"
    and "\<forall>(k, l) \<in> set due. jm_get (i_leases st) k = Some l"
  shows "iso_inv bkt (drop_leases (map fst due) st)
    \<and> outstanding b (drop_leases (map fst due) st)
        + returned b (map (\<lambda>(k, l). (l_bucket l, l_remaining l)) due) = outstanding b st"
  using assms
proof (induction due arbitrary: st)
  case Nil
  then show ?case by simp
next
  case (Cons p due)
  obtain k l where p: "p = (k, l)" by (cases p)
  from Cons.prems(2) p have new: "k \<notin> fst ` set due" and d: "distinct (map fst due)" by auto
  have "jm_get (i_leases (drop_lease k st)) k' = Some l'" if "(k', l') \<in> set due" for k' l'
  proof -
    from that new have "k' \<noteq> k" by force
    with that Cons.prems(3) show ?thesis by (auto simp: drop_lease_def)
  qed
  then have "\<forall>(k', l') \<in> set due. jm_get (i_leases (drop_lease k st)) k' = Some l'" by auto
  from Cons.IH [OF iso_inv_drop [OF Cons.prems(1)] d this]
  have ih: "iso_inv bkt (drop_leases (map fst due) (drop_lease k st))
      \<and> outstanding b (drop_leases (map fst due) (drop_lease k st))
          + returned b (map (\<lambda>(k, l). (l_bucket l, l_remaining l)) due) = outstanding b (drop_lease k st)" .
  moreover from Cons.prems(3) p have "part b k st = unit_of b k l" by (simp add: part_Some)
  ultimately show ?case
    using outstanding_drop [OF Cons.prems(1), of b k] p by (simp add: unit_of_def)
qed

lemma releaseExpired_moves:
  assumes "iso_inv bkt st" and r: "releaseExpired now ex st = (rels, st')"
  shows "iso_inv bkt st'" and "outstanding b st' + returned b rels = outstanding b st"
proof -
  let ?due = "filter (\<lambda>(k, l). due_lease now ex k l) (i_leases st)"
  from assms(1) have wf: "jm_wf (i_leases st)" by (simp add: iso_inv_def)
  then have "distinct (map fst ?due)"
    by (simp add: jm_wf_def distinct_map_filter)
  moreover have "\<forall>(k, l) \<in> set ?due. jm_get (i_leases st) k = Some l"
    using wf by (auto simp: jm_get_iff)
  ultimately show "iso_inv bkt st'" "outstanding b st' + returned b rels = outstanding b st"
    using drop_leases_moves [OF assms(1), of ?due b] r by (auto simp: releaseExpired_def Let_def)
qed

lemma releaseExpired_amounts: "releaseExpired now ex st = (rels, st') \<Longrightarrow> \<forall>(b, n) \<in> set rels. 0 < n"
  by (auto simp: releaseExpired_def Let_def due_lease_def)

text \<open>Arming a timer moves nothing.\<close>

lemma armRelease_keeps:
  assumes "iso_inv bkt st"
  shows "iso_inv bkt (armRelease wait k st)" and "outstanding b (armRelease wait k st) = outstanding b st"
proof -
  have "iso_inv bkt (armRelease wait k st) \<and> outstanding b (armRelease wait k st) = outstanding b st"
  proof (cases "wait \<and> (\<exists>l. jm_get (i_leases st) k = Some l \<and> worthReturning l)")
    case True
    then obtain l where l: "jm_get (i_leases st) k = Some l" "worthReturning l" and w: wait by blast
    let ?l = "l\<lparr>l_timer := l_timer l + 1\<rparr>"
    have eq: "i_leases (armRelease wait k st) = i_leases (st\<lparr>i_leases := jm_set k ?l (i_leases st)\<rparr>)"
      using l w by (simp add: armRelease_def Let_def)
    have "lease_ok bkt k ?l" using iso_invD(2) [OF assms l(1)] by (simp add: lease_ok_def)
    from iso_inv_set [OF assms this] outstanding_set [OF assms, of b k ?l] part_Some [OF l(1), of b]
    show ?thesis by (simp add: iso_inv_leases [OF eq] outstanding_leases [OF eq] unit_of_def)
  next
    case False
    then have "armRelease wait k st = st" by (auto simp: armRelease_def split: option.splits)
    with assms show ?thesis by simp
  qed
  then show "iso_inv bkt (armRelease wait k st)" "outstanding b (armRelease wait k st) = outstanding b st"
    by blast+
qed

lemma fireRelease_moves:
  assumes "iso_inv bkt st" and f: "fireRelease key epoch st = (r, st')"
  shows "iso_inv bkt st'
    \<and> outstanding b st' + returned b (case r of None \<Rightarrow> [] | Some (b', n, _) \<Rightarrow> [(b', n)]) = outstanding b st
    \<and> (\<forall>b' n ob. r = Some (b', n, ob) \<longrightarrow> 0 < n)"
proof (cases "jm_get (i_leases st) key")
  case None
  with f assms(1) show ?thesis by (auto simp: fireRelease_def)
next
  case (Some l)
  show ?thesis
  proof (cases "l_timer l \<noteq> epoch \<or> \<not> worthReturning l")
    case True
    with Some f assms(1) show ?thesis by (auto simp: fireRelease_def)
  next
    case False
    then have pos: "0 < l_remaining l" by (simp add: worthReturning_def)
    let ?l = "l\<lparr>l_remaining := 0, l_spent := False\<rparr>"
    from f Some False pos have
      r: "r = Some (l_bucket l, l_remaining l, l_obj l)" "st' = st\<lparr>i_leases := jm_set key ?l (i_leases st)\<rparr>"
      by (auto simp: fireRelease_def releaseLease_def)
    have "lease_ok bkt key ?l" using iso_invD(2) [OF assms(1) Some] by (simp add: lease_ok_def)
    from iso_inv_set [OF assms(1) this] outstanding_set [OF assms(1), of b key ?l] part_Some [OF Some, of b] r pos
    show ?thesis by (simp add: unit_of_def)
  qed
qed

lemma finishRelease_keeps:
  assumes "iso_inv bkt st"
  shows "iso_inv bkt (finishRelease key ob st) \<and> outstanding b (finishRelease key ob st) = outstanding b st"
proof (cases "\<exists>l. jm_get (i_leases st) key = Some l \<and> l_obj l = ob \<and> l_remaining l \<le> 0")
  case True
  then obtain l where l: "jm_get (i_leases st) key = Some l" "l_obj l = ob" "l_remaining l \<le> 0" by blast
  with iso_invD(2) [OF assms l(1)] have "l_remaining l = 0" by (simp add: lease_ok_def)
  with l part_Some [OF l(1), of b] have "part b key st = 0" by (simp add: unit_of_def)
  with l iso_inv_drop [OF assms] outstanding_drop [OF assms, of b key] show ?thesis
    by (simp add: finishRelease_def)
next
  case False
  then have "finishRelease key ob st = st" by (auto simp: finishRelease_def split: option.splits)
  with assms show ?thesis by simp
qed

lemma rememberHits_leases [simp]: "i_leases (rememberHits k h limit st) = i_leases st"
  by (simp add: rememberHits_def)

lemma nextBatch_range: "1 \<le> nextBatch l now release \<and> nextBatch l now release \<le> MAX_LEASE"
  by (auto simp: nextBatch_def MAX_LEASE_def split: option.splits)

text \<open>Accepting a grant of \<open>g\<close> units hands one to the request and keeps the others; a refused one
  leaves at most what was there. In both cases the isolate holds at most \<open>g\<close> more than before,
  less the unit handed out.\<close>

definition granted_of :: "rate_row \<Rightarrow> int" where
  "granted_of row = (case r_granted row of None \<Rightarrow> 1 | Some None \<Rightarrow> 0 | Some (Some g) \<Rightarrow> g)"

lemma acceptGrant_cases:
  assumes a: "acceptGrant wait key row limit now bucket st = (ok, st')"
  shows "(\<not> ok \<and> i_leases st' = jm_delete key (i_leases st)) \<or>
    (ok \<and> 0 < granted_of row \<and> (\<exists>h. r_hits row = Some h \<and> h \<le> limit) \<and>
       (\<exists>l st1. l_bucket l = bucket
          \<and> l_remaining l = (case jm_get (i_leases st) key of None \<Rightarrow> 0 | Some p \<Rightarrow> l_remaining p) + (granted_of row - 1)
          \<and> i_leases st1 = jm_set key l (i_leases st)
          \<and> (i_leases st' = i_leases st1 \<or> i_leases st' = i_leases (armRelease wait key st1))))"
proof (cases "r_hits row")
  case None
  with a show ?thesis by (auto simp: acceptGrant_def Let_def)
next
  case (Some h)
  show ?thesis
  proof (cases "limit < h \<or> granted_of row \<le> 0")
    case True
    with a Some show ?thesis by (auto simp: acceptGrant_def Let_def granted_of_def [symmetric] split: if_splits)
  next
    case False
    define l where "l = \<lparr>l_remaining = (case jm_get (i_leases st) key of None \<Rightarrow> 0 | Some p \<Rightarrow> l_remaining p)
        + max 0 (granted_of row - 1), l_size = granted_of row, l_expiresAt = now + LEASE_TTL_MS,
        l_spent = ((case jm_get (i_leases st) key of None \<Rightarrow> 0 | Some p \<Rightarrow> l_remaining p)
        + max 0 (granted_of row - 1) = 0), l_bucket = bucket,
        l_timer = (case jm_get (i_leases st) key of None \<Rightarrow> 0 | Some p \<Rightarrow> l_timer p),
        l_hits = h, l_cap = limit, l_obj = i_next st\<rparr>"
    define st1 where "st1 = (rememberHits key (Some h) limit st)\<lparr>i_leases := jm_set key l (i_leases st), i_next := Suc (i_next st)\<rparr>"
    from a Some False have "ok \<and> (i_leases st' = i_leases st1 \<or> i_leases st' = i_leases (armRelease wait key st1))"
      by (auto simp: acceptGrant_def Let_def granted_of_def [symmetric] l_def [symmetric] st1_def [symmetric]
          rememberHits_def split: if_splits)
         (auto simp: l_def st1_def rememberHits_def)
    moreover have "i_leases st1 = jm_set key l (i_leases st)" "l_bucket l = bucket"
      "l_remaining l = (case jm_get (i_leases st) key of None \<Rightarrow> 0 | Some p \<Rightarrow> l_remaining p) + (granted_of row - 1)"
      using False by (simp_all add: st1_def l_def)
    ultimately show ?thesis using Some False by auto
  qed
qed

lemma acceptGrant_holds:
  assumes "iso_inv bkt st" and "bucket = bkt key" and a: "acceptGrant wait key row limit now bucket st = (ok, st')"
  shows "iso_inv bkt st'
    \<and> outstanding b st' + (if ok \<and> b = bucket then 1 else 0)
        \<le> outstanding b st + (if ok \<and> b = bucket then granted_of row else 0)
    \<and> (ok \<longrightarrow> 0 < granted_of row)"
  using acceptGrant_cases [OF a]
proof (elim disjE)
  assume "\<not> ok \<and> i_leases st' = jm_delete key (i_leases st)"
  then have no: "\<not> ok" and l: "i_leases st' = i_leases (st\<lparr>i_leases := jm_delete key (i_leases st)\<rparr>)" by auto
  show ?thesis
    using no iso_inv_delete [OF assms(1), of key] outstanding_delete [OF assms(1), of b key] part_nonneg [OF assms(1), of b key]
    by (simp add: iso_inv_leases [OF l] outstanding_leases [OF l])
next
  let ?p = "case jm_get (i_leases st) key of None \<Rightarrow> 0 | Some p \<Rightarrow> l_remaining p"
  assume "ok \<and> 0 < granted_of row \<and> (\<exists>h. r_hits row = Some h \<and> h \<le> limit) \<and>
       (\<exists>l st1. l_bucket l = bucket \<and> l_remaining l = ?p + (granted_of row - 1)
          \<and> i_leases st1 = jm_set key l (i_leases st)
          \<and> (i_leases st' = i_leases st1 \<or> i_leases st' = i_leases (armRelease wait key st1)))"
  then obtain l st1 where ok: ok "0 < granted_of row" and l: "l_bucket l = bucket"
      "l_remaining l = ?p + (granted_of row - 1)" and s1: "i_leases st1 = i_leases (st\<lparr>i_leases := jm_set key l (i_leases st)\<rparr>)"
      and s': "i_leases st' = i_leases st1 \<or> i_leases st' = i_leases (armRelease wait key st1)" by auto
  have p0: "0 \<le> ?p" using iso_invD(2) [OF assms(1), of key] by (auto simp: lease_ok_def split: option.splits)
  then have okl: "lease_ok bkt key l" using l ok assms(2) by (simp add: lease_ok_def)
  have inv1: "iso_inv bkt st1" using iso_inv_set [OF assms(1) okl] by (simp add: iso_inv_leases [OF s1])
  have part: "part b key st = (if b = bucket then ?p else 0)"
    using iso_invD(2) [OF assms(1), of key] assms(2)
    by (cases "jm_get (i_leases st) key") (auto simp: part_None part_Some unit_of_def lease_ok_def)
  have out1: "outstanding b st1 = outstanding b st + (if b = bucket then granted_of row - 1 else 0)"
    using outstanding_set [OF assms(1), of b key l] part l by (simp add: outstanding_leases [OF s1] unit_of_def)
  have "iso_inv bkt st' \<and> outstanding b st' = outstanding b st1"
    using s' inv1 armRelease_keeps [OF inv1] iso_inv_leases outstanding_leases by metis
  with out1 ok show ?thesis by simp
qed

text \<open>\<open>spendLease\<close> takes exactly one unit out when the lease has one.\<close>

lemma spendLease_takes:
  assumes "iso_inv bkt st" and "jm_get (i_leases st) key = Some l" "0 < l_remaining l"
  shows "iso_inv bkt (spendLease wait key now st)
    \<and> outstanding b (spendLease wait key now st) = outstanding b st - (if b = bkt key then 1 else 0)"
proof -
  let ?l1 = "l\<lparr>l_remaining := l_remaining l - 1, l_expiresAt := now + LEASE_TTL_MS\<rparr>"
  have okl: "lease_ok bkt key l" using iso_invD(2) [OF assms(1,2)] .
  have ok1: "lease_ok bkt key ?l1" "lease_ok bkt key (?l1\<lparr>l_spent := True\<rparr>)"
    using okl assms(3) by (auto simp: lease_ok_def)
  have part: "part b key st = (if b = bkt key then l_remaining l else 0)"
    using okl part_Some [OF assms(2), of b] by (auto simp: unit_of_def lease_ok_def)
  show ?thesis
  proof (cases "l_remaining l = 1")
    case True
    then have "spendLease wait key now st = st\<lparr>i_leases := jm_set key (?l1\<lparr>l_spent := True\<rparr>) (i_leases st)\<rparr>"
      using assms(2) by (simp add: spendLease_def)
    with iso_inv_set [OF assms(1) ok1(2)] outstanding_set [OF assms(1), of b key "?l1\<lparr>l_spent := True\<rparr>"] part okl True
    show ?thesis by (simp add: unit_of_def lease_ok_def)
  next
    case False
    let ?s = "st\<lparr>i_leases := jm_set key ?l1 (i_leases st)\<rparr>"
    have eq: "spendLease wait key now st = armRelease wait key ?s"
      using assms(2,3) False by (simp add: spendLease_def)
    have inv: "iso_inv bkt ?s" using iso_inv_set [OF assms(1) ok1(1)] .
    have "outstanding b ?s = outstanding b st - (if b = bkt key then 1 else 0)"
      using outstanding_set [OF assms(1), of b key ?l1] part okl by (simp add: unit_of_def lease_ok_def)
    with armRelease_keeps [OF inv] show ?thesis by (simp add: eq)
  qed
qed

lemma clear_loop_drop: "snd (clear_loop owned st) = drop_leases (map fst owned) st"
proof (induction owned arbitrary: st)
  case (Cons p owned)
  from Cons [of "drop_lease (fst p) st"] show ?case
    by (cases p; cases "clear_loop owned (drop_lease (fst p) st)") (auto split: prod.splits)
qed simp

lemma clear_loop_returned:
  "\<forall>(k, l) \<in> set owned. 0 \<le> l_remaining l \<Longrightarrow>
   returned b (fst (clear_loop owned st)) = returned b (map (\<lambda>(k, l). (l_bucket l, l_remaining l)) owned)
   \<and> (\<forall>(b', n) \<in> set (fst (clear_loop owned st)). 0 < n)"
proof (induction owned arbitrary: st)
  case Nil
  then show ?case by simp
next
  case (Cons p owned)
  obtain k l where p: "p = (k, l)" by (cases p)
  from Cons.prems have "\<forall>(k, l) \<in> set owned. 0 \<le> l_remaining l" by simp
  from Cons.IH [OF this, of "drop_lease k st"] Cons.prems show ?case
    by (cases "clear_loop owned (drop_lease k st)") (auto simp: p releaseLease_def)
qed

text \<open>Signing out gives every unit of the token back and forgets its leases.\<close>

lemma clearLease_moves:
  assumes "iso_inv bkt st" and c: "clearLease hash st = (rels, st')"
  shows "iso_inv bkt st' \<and> outstanding b st' + returned b rels = outstanding b st \<and> (\<forall>(b', n) \<in> set rels. 0 < n)"
proof -
  let ?o = "owned_leases hash st"
  from assms(1) have wf: "jm_wf (i_leases st)" by (simp add: iso_inv_def)
  then have d: "distinct (map fst ?o)" by (simp add: jm_wf_def owned_leases_def distinct_map_filter)
  have g: "\<forall>(k, l) \<in> set ?o. jm_get (i_leases st) k = Some l"
    using wf by (auto simp: jm_get_iff owned_leases_def)
  then have "\<forall>(k, l) \<in> set ?o. 0 \<le> l_remaining l"
    using iso_invD(2) [OF assms(1)] by (fastforce simp: lease_ok_def)
  from clear_loop_returned [OF this, of b st] clear_loop_drop [of ?o st] drop_leases_moves [OF assms(1) d g, of b] c
  show ?thesis by (simp add: clearLease_def)
qed

lemma clear_turn_stored:
  "jm_get (i_leases st) k = Some l \<Longrightarrow>
   clear_turn k (l_obj l) st heap =
     (fst (releaseLease l), st\<lparr>i_leases := jm_set k (snd (releaseLease l)) (i_leases st)\<rparr>, heap(l_obj l \<mapsto> snd (releaseLease l)))"
  by (simp add: clear_turn_def is_stored_def split: prod.splits)

text \<open>A turn gives back the units of the object it captured. When the object is still the stored
  one they leave the isolate; otherwise the isolate keeps what it has.\<close>

definition issued :: "(string \<times> int) option \<Rightarrow> (string \<times> int) list" where
  "issued rel = (case rel of None \<Rightarrow> [] | Some r \<Rightarrow> [r])"

lemma releaseLease_unit:
  assumes "releaseLease l = (rel, l')" and "lease_ok bkt k l"
  shows "lease_ok bkt k l'" and "unit_of b k l' + returned b (issued rel) = unit_of b k l"
  using assms by (auto simp: releaseLease_def issued_def lease_ok_def unit_of_def split: if_splits)

lemma releaseLease_pos: "releaseLease l = (rel, l') \<Longrightarrow> \<forall>(b', n) \<in> set (issued rel). 0 < n"
  by (auto simp: releaseLease_def issued_def split: if_splits)

lemma clear_turn_moves:
  assumes "iso_inv bkt st" and t: "clear_turn k ob st heap = (rel, st', heap')"
  shows "iso_inv bkt st'
    \<and> outstanding b st' + (if is_stored k ob st then returned b (issued rel) else 0) = outstanding b st
    \<and> (\<forall>(b', n) \<in> set (issued rel). 0 < n)"
proof (cases "is_stored k ob st")
  case True
  then obtain l where l: "jm_get (i_leases st) k = Some l" by (auto simp: is_stored_def split: option.splits)
  obtain rel' l' where r: "releaseLease l = (rel', l')" by force
  from t l r True have e: "rel = rel'" "st' = st\<lparr>i_leases := jm_set k l' (i_leases st)\<rparr>"
    by (simp_all add: clear_turn_def)
  note ok = releaseLease_unit [OF r iso_invD(2) [OF assms(1) l]]
  from iso_inv_set [OF assms(1) ok(1)] outstanding_set [OF assms(1), of b k l'] part_Some [OF l, of b] ok(2) [of b]
    releaseLease_pos [OF r] True show ?thesis by (simp add: e)
next
  case False
  with t have "st' = st \<and> (\<forall>(b', n) \<in> set (issued rel). 0 < n)"
    using releaseLease_pos by (auto simp: clear_turn_def issued_def split: option.splits prod.splits)
  with assms(1) False show ?thesis by simp
qed

lemma armRelease_get:
  "jm_get (i_leases st) key = Some l \<Longrightarrow>
   \<exists>t. jm_get (i_leases (armRelease wait key st)) key = Some (l\<lparr>l_timer := t\<rparr>)"
  by (auto simp: armRelease_def Let_def intro: exI [of _ "l_timer l"])

lemma acceptGrant_replaces:
  assumes p: "jm_get (i_leases st) key = Some p" and a: "acceptGrant wait key row limit now bucket st = (True, st')"
  shows "\<exists>l. jm_get (i_leases st') key = Some l \<and> l_obj l = i_next st \<and> l_remaining l = l_remaining p + (granted_of row - 1)"
proof -
  from acceptGrant_cases [OF a] obtain h where h: "r_hits row = Some h" "\<not> limit < h" and g: "\<not> granted_of row \<le> 0"
    by auto
  define l where "l = \<lparr>l_remaining = l_remaining p + (granted_of row - 1), l_size = granted_of row,
    l_expiresAt = now + LEASE_TTL_MS, l_spent = (l_remaining p + (granted_of row - 1) = 0), l_bucket = bucket,
    l_timer = l_timer p, l_hits = h, l_cap = limit, l_obj = i_next st\<rparr>"
  define st1 where "st1 = (rememberHits key (Some h) limit st)\<lparr>i_leases := jm_set key l (i_leases st), i_next := Suc (i_next st)\<rparr>"
  define st2 where "st2 = (if l_remaining l > 0 then armRelease wait key st1 else st1)"
  have m: "max 0 (granted_of row - 1) = granted_of row - 1" using g by simp
  have n: "i_next (rememberHits key (Some h') limit' st) = i_next st" for h' limit' by (simp add: rememberHits_def)
  have "st' = (if limit \<le> h \<and> l_remaining l \<le> 0 then st2\<lparr>i_remoteHits := jm_set key limit (i_remoteHits st2)\<rparr> else st2)"
    using a p h g unfolding acceptGrant_def Let_def granted_of_def [symmetric] m
    by (simp add: m n st2_def st1_def l_def cong: if_cong split: if_splits)
  then have "i_leases st' = i_leases st2" by simp
  moreover have "jm_get (i_leases st1) key = Some l" by (simp add: st1_def)
  then have "\<exists>t. jm_get (i_leases st2) key = Some (l\<lparr>l_timer := t\<rparr>)"
    unfolding st2_def using armRelease_get [of st1 key l wait] by (auto intro: exI [of _ "l_timer l"])
  ultimately show ?thesis by (auto simp: l_def)
qed

text \<open>What goes wrong when a grant is accepted between the capture and the turn of a lease: the
  new lease carries the units of the captured one, and the sign-out gives the same units back to
  the counter.\<close>

theorem sign_out_returns_twice:
  assumes "jm_get (i_leases st) key = Some p" "0 < l_remaining p" "l_obj p < i_next st"
    and "acceptGrant wait key row limit now bucket st = (True, st')" and "heap (l_obj p) = Some p"
  shows "fst (clear_turn key (l_obj p) st' heap) = Some (l_bucket p, l_remaining p)
    \<and> fst (snd (clear_turn key (l_obj p) st' heap)) = st'
    \<and> (\<exists>l. jm_get (i_leases st') key = Some l \<and> l_remaining l = l_remaining p + (granted_of row - 1))"
proof -
  obtain l where l: "jm_get (i_leases st') key = Some l" "l_obj l = i_next st" "l_remaining l = l_remaining p + (granted_of row - 1)"
    using acceptGrant_replaces [OF assms(1,4)] by blast
  then have "\<not> is_stored key (l_obj p) st'" using assms(3) by (simp add: is_stored_def)
  with assms(2,5) l show ?thesis by (simp add: clear_turn_def releaseLease_def)
qed
end
