(* ===== verification/Prog.thy ===== *)
theory Prog
  imports Prelude
begin

text \<open>
  Programs of the handlers: they run on a state and end with a value or a thrown error. The
  combinators are the sequencing, \<open>throw\<close> and \<open>try \<dots> catch\<close> of the source.
\<close>

type_synonym ('s, 'e, 'a) program = "'s \<Rightarrow> ('e + 'a) \<times> 's"

definition ret :: "'a \<Rightarrow> ('s, 'e, 'a) program" where
  "ret x s = (Inr x, s)"

definition throw :: "'e \<Rightarrow> ('s, 'e, 'a) program" where
  "throw x s = (Inl x, s)"

definition and_then :: "('s, 'e, 'a) program \<Rightarrow> ('a \<Rightarrow> ('s, 'e, 'b) program) \<Rightarrow> ('s, 'e, 'b) program" where
  "and_then m f s = (case m s of (Inl x, s') \<Rightarrow> (Inl x, s') | (Inr a, s') \<Rightarrow> f a s')"

definition catching :: "('s, 'e, 'a) program \<Rightarrow> ('e \<Rightarrow> ('s, 'e, 'a) program) \<Rightarrow> ('s, 'e, 'a) program" where
  "catching m h s = (case m s of (Inl x, s') \<Rightarrow> h x s' | (Inr a, s') \<Rightarrow> (Inr a, s'))"

text \<open>\<open>const x = await f(); if (x instanceof Response) return x;\<close>\<close>

definition unless_response ::
  "('s, 'e, 'r + 'a) program \<Rightarrow> ('a \<Rightarrow> ('s, 'e, 'r + 'b) program) \<Rightarrow> ('s, 'e, 'r + 'b) program" where
  "unless_response m f = and_then m (\<lambda>r. case r of Inl rs \<Rightarrow> ret (Inl rs) | Inr a \<Rightarrow> f a)"

text \<open>\<open>if (!condition) throw error;\<close>\<close>

definition guard :: "bool \<Rightarrow> 'e \<Rightarrow> ('s, 'e, 'a) program \<Rightarrow> ('s, 'e, 'a) program" where
  "guard c x m = (if c then m else throw x)"

definition from_option :: "'e \<Rightarrow> 'a option \<Rightarrow> ('s, 'e, 'a) program" where
  "from_option x v = (case v of None \<Rightarrow> throw x | Some a \<Rightarrow> ret a)"

definition from_sum :: "'e + 'a \<Rightarrow> ('s, 'e, 'a) program" where
  "from_sum v s = (v, s)"

definition reading :: "('s \<Rightarrow> 'a) \<Rightarrow> ('s, 'e, 'a) program" where
  "reading f s = (Inr (f s), s)"

definition writing :: "('s \<Rightarrow> 's) \<Rightarrow> ('s, 'e, unit) program" where
  "writing f s = (Inr (), f s)"

lemmas prog_defs = ret_def throw_def and_then_def catching_def unless_response_def guard_def from_option_def
  from_sum_def reading_def writing_def

lemma and_then_Inr:
  "and_then m f s = (Inr b, s') \<longleftrightarrow> (\<exists>a s1. m s = (Inr a, s1) \<and> f a s1 = (Inr b, s'))"
  by (auto simp: and_then_def split: prod.splits sum.splits)

lemma ret_simp [simp]: "ret x s = (Inr x, s)"
  by (simp add: ret_def)

lemma throw_simp [simp]: "throw x s = (Inl x, s)"
  by (simp add: throw_def)

lemma guard_Inr: "guard c x m s = (Inr b, s') \<longleftrightarrow> c \<and> m s = (Inr b, s')"
  by (simp add: guard_def)

lemma from_option_Inr: "from_option x v s = (Inr b, s') \<longleftrightarrow> v = Some b \<and> s' = s"
  by (auto simp: from_option_def split: option.splits)

lemma from_sum_Inr: "from_sum v s = (Inr b, s') \<longleftrightarrow> v = Inr b \<and> s' = s"
  by (auto simp: from_sum_def)

lemma reading_Inr: "reading f s = (Inr b, s') \<longleftrightarrow> b = f s \<and> s' = s"
  by (auto simp: reading_def)

lemma writing_Inr: "writing f s = (Inr b, s') \<longleftrightarrow> s' = f s"
  by (auto simp: writing_def)

lemmas prog_results = and_then_Inr guard_Inr from_option_Inr from_sum_Inr reading_Inr writing_Inr

text \<open>Sequencing after a first part that is known.\<close>

lemma seq_simps:
  "and_then (ret x) f s = f x s" "and_then (throw e) f s = (Inl e, s)"
  "and_then (from_sum v) f s = (case v of Inl e \<Rightarrow> (Inl e, s) | Inr a \<Rightarrow> f a s)"
  "and_then (from_option e w) f s = (case w of None \<Rightarrow> (Inl e, s) | Some a \<Rightarrow> f a s)"
  "and_then (reading g) f s = f (g s) s" "and_then (writing h) k s = k () (h s)"
  "and_then (guard b e m) f s = (if b then and_then m f s else (Inl e, s))"
  "guard b e m s = (if b then m s else (Inl e, s))"
  by (auto simp: prog_defs split: option.split sum.split prod.split)

lemma and_then_assoc: "and_then (and_then m n) f s = and_then m (\<lambda>a. and_then (n a) f) s"
  by (auto simp: and_then_def split: sum.split prod.split)

lemma and_then_Inr_first: "m s = (Inr a, s1) \<Longrightarrow> and_then m f s = f a s1"
  by (simp add: and_then_def)

lemma and_then_Inl_first: "m s = (Inl e, s1) \<Longrightarrow> and_then m f s = (Inl e, s1)"
  by (simp add: and_then_def)

end
