(* ===== verification/Gw_Auth.thy ===== *)
theory Gw_Auth
  imports Clock Http Rate_Limit Prog
begin

text \<open>
  \<open>services/gateway/src/middleware/auth.ts\<close> and \<open>queryToleratingCompany\<close> of \<open>ratelimit.ts\<close>:
  the access-token check and the quota lease taken before an authenticated read.

  A handler is a program on the isolate and a world \<open>'w\<close> (database and upstream workers) that
  throws an \<open>exn\<close>. The early returns \<open>if (x instanceof Response) return x\<close> are the left
  summand of \<open>response + 'a\<close>. Everything outside the repository is a field of \<open>deps\<close>: the
  database, the core binding, the AI origin, SHA-256, \<open>JSON.parse\<close> and the engine's \<open>Date\<close> parser.
\<close>

subsection \<open>Dependencies and programs\<close>

text \<open>One constructor per SQL text of the gateway; \<open>Without_Company\<close> is the text after the
  replacements of \<open>queryToleratingCompany\<close>.\<close>

datatype stmt =
    RATE_SQL | RELEASE_SQL | AUTH_SQL | AUTH_RATE_SQL | DEV_USER_SQL
  | LIST_SQL bool | MESSAGES_SQL | STREAM_SQL
  | CONVERSATION_PAGE bool bool bool bool | CONVERSATION_ONE
  | SCOPED_MESSAGES_SQL | ACTIVE_JOB_SQL | CANCEL_SQL | JOB_EVENTS_SQL
  | Without_Company stmt

record 'w deps =
  d_query :: "stmt \<Rightarrow> jv list \<Rightarrow> 'w \<Rightarrow> (exn + jv list) \<times> 'w"
  d_core :: "(request \<Rightarrow> 'w \<Rightarrow> (exn + response) \<times> 'w) option"
  d_fetch :: "string \<Rightarrow> request \<Rightarrow> 'w \<Rightarrow> (exn + response) \<times> 'w"
  d_wait :: bool
  d_dp :: "string \<Rightarrow> int option"
  d_sha :: "string \<Rightarrow> string"
  d_jp :: "string \<Rightarrow> jv option"

record env =
  e_APP_ENV :: "string option"
  e_DEV_AUTH_TOKEN :: "string option"
  e_DEV_USER_ID :: "string option"
  e_MANAGED_AI :: "string option"
  e_MANAGED_GO :: "string option"
  e_SSE_MAX_POLLS :: "string option"
  e_MODEL_CACHE_TTL :: "string option"
  e_JOB_SITES_CACHE_TTL :: "string option"
  e_AUTH_CACHE_TTL :: "string option"
  e_AI_ORIGIN :: "string option"
  e_AI_SHARED_SECRET :: "string option"
  e_INTERNAL_API_SECRET :: "string option"

record rate_limits =
  lim_user :: int
  lim_public :: int
  lim_window :: int

record 'w gw =
  g_iso :: isolate
  g_w :: 'w

type_synonym ('w, 'a) prog = "('w gw, exn, 'a) program"

definition query :: "'w deps \<Rightarrow> stmt \<Rightarrow> jv list \<Rightarrow> ('w, jv list) prog" where
  "query d sql ps s = (case d_query d sql ps (g_w s) of (r, w) \<Rightarrow> (r, s\<lparr>g_w := w\<rparr>))"

definition on_iso :: "(isolate \<Rightarrow> 'a \<times> isolate) \<Rightarrow> ('w, 'a) prog" where
  "on_iso f s = (case f (g_iso s) of (a, i) \<Rightarrow> (Inr a, s\<lparr>g_iso := i\<rparr>))"

definition of_option :: "string \<Rightarrow> 'a option \<Rightarrow> ('w, 'a) prog" where
  "of_option m x = (case x of None \<Rightarrow> throw (Error m) | Some a \<Rightarrow> ret a)"


definition internal_error :: "string \<Rightarrow> response" where
  "internal_error rid = errorResponse 500 ''INTERNAL'' ''internal error'' rid"

definition rate_limited :: "string \<Rightarrow> response" where
  "rate_limited rid = errorResponse 429 ''RATE_LIMITED'' ''too many requests'' rid"

subsection \<open>A database without the company tables\<close>

text \<open>\<open>/relation .* does not exist/\<close>: the two texts on one line, the first before the second.\<close>

fun on_one_line :: "string \<Rightarrow> string \<Rightarrow> string \<Rightarrow> bool" where
  "on_one_line a b [] = False"
| "on_one_line a b (c # s) =
     ((startsWith (c # s) a \<and> str_includes (takeWhile (\<lambda>x. x \<notin> {CHR 0x0A, CHR 0x0D}) (drop (length a) (c # s))) b)
      \<or> on_one_line a b s)"

definition missingCompanyTable :: "exn \<Rightarrow> bool" where
  "missingCompanyTable x =
     (let t = toLowerCase (x_code x @ '' '' @ x_message x @ '' Error: '' @ x_message x)
      in x_code x = ''42P01'' \<or> x_code x = ''42703'' \<or> str_includes t ''42p01'' \<or> str_includes t ''42703''
         \<or> on_one_line ''relation '' '' does not exist'' t \<or> on_one_line ''column '' '' does not exist'' t)"

definition mentions_company :: "stmt \<Rightarrow> bool" where
  "mentions_company sql = (case sql of
       AUTH_SQL \<Rightarrow> True | AUTH_RATE_SQL \<Rightarrow> True | DEV_USER_SQL \<Rightarrow> True
     | LIST_SQL _ \<Rightarrow> True | MESSAGES_SQL \<Rightarrow> True | STREAM_SQL \<Rightarrow> True | _ \<Rightarrow> False)"

definition queryToleratingCompany :: "'w deps \<Rightarrow> stmt \<Rightarrow> jv list \<Rightarrow> ('w, jv list) prog" where
  "queryToleratingCompany d sql ps =
     catching (query d sql ps)
       (\<lambda>x. if \<not> mentions_company sql \<or> \<not> missingCompanyTable x then throw x
            else query d (Without_Company sql) ps)"

subsection \<open>Users\<close>

definition employerFlag :: "jv \<Rightarrow> bool" where
  "employerFlag v \<longleftrightarrow> v = JBool True \<or> v = JStr ''t'' \<or> v = JStr ''true'' \<or> v = JNum 1"

definition textOrNull :: "jv \<Rightarrow> string option" where
  "textOrNull v = (if blank v then None else Some (js_String v))"

definition text_or :: "jv \<Rightarrow> string \<Rightarrow> string" where
  "text_or v fallback = (if nullish v then fallback else js_String v)"

definition timestamp :: "(string \<Rightarrow> int option) \<Rightarrow> jv \<Rightarrow> string option" where
  "timestamp dp v = formatJsonTimestamp dp (TText (js_String v))"

text \<open>\<open>None\<close> is the thrown \<open>bad timestamp\<close>.\<close>

definition userFrom :: "(string \<Rightarrow> int option) \<Rightarrow> jv \<Rightarrow> user option" where
  "userFrom dp row =
     map_option (\<lambda>created.
       \<lparr>u_id = js_String (jget row ''id''), u_displayName = text_or (jget row ''display_name'') [],
        u_locale = text_or (jget row ''locale'') ''ko'', u_createdAt = created,
        u_accountType = (if employerFlag (jget row ''is_employer'') then EMPLOYER else PERSONAL),
        u_companyId = textOrNull (jget row ''company_id''), u_companyRole = textOrNull (jget row ''company_role''),
        u_email = text_or (jget row ''email'') [], u_provider = text_or (jget row ''provider'') [],
        u_plan = text_or (jget row ''plan'') ''FREE''\<rparr>)
       (timestamp dp (jget row ''created_at''))"

definition authTtlMs :: "env \<Rightarrow> int" where
  "authTtlMs e = clampTtl (e_AUTH_CACHE_TTL e) 5 5 * 1000"

definition rememberAuth :: "string \<Rightarrow> user \<Rightarrow> int option \<Rightarrow> int \<Rightarrow> int \<Rightarrow> isolate \<Rightarrow> isolate" where
  "rememberAuth hash u expiresAtMs nowMs ttlMs st =
     (if hash = [] \<or> ttlMs \<le> 0 then st
      else st\<lparr>i_auth := putAuth (i_auth st) hash
             \<lparr>u_id = u_id u, u_displayName = u_displayName u, u_locale = u_locale u, u_createdAt = u_createdAt u,
              u_accountType = u_accountType u, u_companyId = u_companyId u, u_companyRole = u_companyRole u,
              u_email = u_email u, u_provider = u_provider u, u_plan = u_plan u, u_expiresAtMs = expiresAtMs\<rparr>
             nowMs ttlMs\<rparr>)"

definition userFromCached :: "cached_user \<Rightarrow> user" where
  "userFromCached c =
     \<lparr>u_id = u_id c, u_displayName = u_displayName c, u_locale = u_locale c, u_createdAt = u_createdAt c,
      u_accountType = u_accountType c, u_companyId = u_companyId c, u_companyRole = u_companyRole c,
      u_email = u_email c, u_provider = u_provider c, u_plan = u_plan c\<rparr>"

text \<open>\<open>moment > expires\<close>, false for an invalid date.\<close>

definition past :: "int \<Rightarrow> int option \<Rightarrow> bool" where
  "past moment expires = (case expires of None \<Rightarrow> False | Some t \<Rightarrow> t < moment)"

subsection \<open>Reading the token row\<close>

text \<open>The counter columns of a row; they are SQL integers, delivered as numbers or as digits.\<close>

definition int_cell :: "jv \<Rightarrow> int option" where
  "int_cell v = (case js_Number v of Fin q \<Rightarrow> Some \<lfloor>q\<rfloor> | _ \<Rightarrow> None)"

definition counter_row :: "jv \<Rightarrow> rate_row" where
  "counter_row row =
     \<lparr>r_hits = (if blank (jget row ''hits'') then None else int_cell (jget row ''hits'')),
      r_granted = (if has_own row ''granted'' then Some (int_cell (jget row ''granted'')) else None)\<rparr>"

definition user_bucket :: "string \<Rightarrow> int \<Rightarrow> string" where
  "user_bucket uid moment = ''user:'' @ uid @ '':'' @ int_dec (windowOf moment)"

definition interpretAuth ::
  "'w deps \<Rightarrow> jv list \<Rightarrow> int \<Rightarrow> int \<Rightarrow> int \<Rightarrow> string \<Rightarrow> bool \<Rightarrow> string \<Rightarrow> (string \<times> int) option
    \<Rightarrow> ('w, response + user) prog" where
  "interpretAuth d rows moment limit windowMs cacheKey shared rid remember =
     (case rows of
        [] \<Rightarrow> ret (Inl (errorResponse 401 ''UNAUTHENTICATED'' ''invalid access token'' rid))
      | row # _ \<Rightarrow>
          and_then (of_option ''bad timestamp'' (timestamp (d_dp d) (jget row ''expires_at''))) (\<lambda>stamp.
          let expires = d_dp d stamp in
          if past moment expires then ret (Inl (errorResponse 401 ''TOKEN_EXPIRED'' ''access token expired'' rid))
          else
          and_then (of_option ''bad timestamp'' (userFrom (d_dp d) row)) (\<lambda>u.
          if \<not> shared then
            and_then (on_iso (allow (user_bucket (u_id u) moment) limit windowMs moment)) (\<lambda>ok.
              if ok then ret (Inr u) else ret (Inl (rate_limited rid)))
          else if \<not> has_own row ''hits'' then ret (Inr u)
          else
            and_then (on_iso (acceptGrant (d_wait d) cacheKey (counter_row row) (readCap limit) moment
                                (user_bucket (u_id u) moment))) (\<lambda>ok.
              if \<not> ok then ret (Inl (rate_limited rid))
              else
                and_then (on_iso (\<lambda>st. ((), case remember of None \<Rightarrow> st
                    | Some (hash, ttlMs) \<Rightarrow> rememberAuth hash u expires moment ttlMs st))) (\<lambda>_. ret (Inr u))))))"

subsection \<open>The token context\<close>

record token_ctx =
  c_dev :: bool
  c_hash :: string
  c_moment :: int
  c_cacheKey :: string
  c_user :: "user option"
  c_revalidate :: bool
  c_batch :: int
  c_release :: int

definition cache_key :: "string \<Rightarrow> int \<Rightarrow> string" where
  "cache_key hash moment = ''user:'' @ hash @ '':'' @ int_dec (windowOf moment)"

definition plain_ctx :: "string \<Rightarrow> int \<Rightarrow> string \<Rightarrow> token_ctx" where
  "plain_ctx hash moment key = \<lparr>c_dev = False, c_hash = hash, c_moment = moment, c_cacheKey = key,
     c_user = None, c_revalidate = False, c_batch = 1, c_release = 0\<rparr>"

text \<open>The units of an expired lease of this key are taken out and handed to the next statement.\<close>

definition take_expired :: "string \<Rightarrow> int \<Rightarrow> isolate \<Rightarrow> int \<times> isolate" where
  "take_expired key moment st =
     (case jm_get (i_leases st) key of
        None \<Rightarrow> (0, st)
      | Some l \<Rightarrow>
          if l_expiresAt l \<le> moment
          then (l_remaining l, st\<lparr>i_leases := jm_set key (l\<lparr>l_remaining := 0, l_spent := False\<rparr>) (i_leases st)\<rparr>)
          else (0, st))"

definition lease_left :: "string \<Rightarrow> int \<Rightarrow> isolate \<Rightarrow> int" where
  "lease_left key moment st =
     (case jm_get (i_leases st) key of None \<Rightarrow> 0 | Some l \<Rightarrow> if l_expiresAt l \<le> moment then 0 else l_remaining l)"

text \<open>\<open>tokenContext\<close> from the lease lookup to its end: no \<open>await\<close> in between.\<close>

definition token_step ::
  "bool \<Rightarrow> string \<Rightarrow> int \<Rightarrow> int \<Rightarrow> string \<Rightarrow> isolate \<Rightarrow> (response + token_ctx) \<times> isolate" where
  "token_step wait hash moment limit rid st0 =
     (let key = cache_key hash moment;
          leaseLeft = lease_left key moment st0;
          (release, st) = take_expired key moment st0;
          cap = readCap limit;
          full = (case jm_get (i_remoteHits st) key of None \<Rightarrow> False | Some known \<Rightarrow> cap \<le> known)
      in if full \<and> leaseLeft \<le> 0 \<and> release \<le> 0 then (Inl (rate_limited rid), st)
         else
           (case getAuth (i_auth st) hash moment of
              (cached, auth') \<Rightarrow>
                (let st1 = st\<lparr>i_auth := auth'\<rparr> in
                 if leaseLeft > 0 then
                   (case cached of
                      Some c \<Rightarrow>
                        if past moment (u_expiresAtMs c)
                        then (Inl (errorResponse 401 ''TOKEN_EXPIRED'' ''access token expired'' rid),
                              st1\<lparr>i_auth := dropAuth auth' hash\<rparr>)
                        else (Inr ((plain_ctx hash moment key)\<lparr>c_user := Some (userFromCached c)\<rparr>),
                              spendLease wait key moment st1)
                    | None \<Rightarrow> (Inr ((plain_ctx hash moment key)\<lparr>c_revalidate := True\<rparr>), spendLease wait key moment st1))
                 else (Inr ((plain_ctx hash moment key)
                         \<lparr>c_batch := nextBatch (jm_get (i_leases st) key) moment release, c_release := release\<rparr>), st1))))"

text \<open>The \<open>UPDATE\<close>s of the returns; a failed one is ignored.\<close>

fun run_releases :: "'w deps \<Rightarrow> (string \<times> int) list \<Rightarrow> 'w gw \<Rightarrow> 'w gw" where
  "run_releases d [] s = s"
| "run_releases d ((b, n) # r) s = run_releases d r (snd (query d RELEASE_SQL [JStr b, JNum n] s))"

definition bearer :: "request \<Rightarrow> string option" where
  "bearer rq = (let authz = header rq ''authorization'' in
     if startsWith authz ''Bearer '' then Some (drop 7 authz) else None)"

definition tokenContext ::
  "request \<Rightarrow> env \<Rightarrow> 'w deps \<Rightarrow> string \<Rightarrow> rate_limits \<Rightarrow> int \<Rightarrow> ('w, response + token_ctx) prog" where
  "tokenContext rq e d rid limits now =
     (case bearer rq of
        None \<Rightarrow> ret (Inl (errorResponse 401 ''UNAUTHENTICATED'' ''missing bearer token'' rid))
      | Some token \<Rightarrow>
          if e_APP_ENV e = Some ''development'' \<and> secretEquals (d_sha d) token (or_empty (e_DEV_AUTH_TOKEN e))
          then ret (Inr ((plain_ctx [] now [])\<lparr>c_dev := True\<rparr>))
          else
            (let hash = d_sha d token in
             and_then (on_iso (releaseExpired now (cache_key hash now))) (\<lambda>rels s.
               on_iso (token_step (d_wait d) hash now (lim_user limits) rid) (run_releases d rels s))))"

subsection \<open>Requiring a user\<close>

definition forget_token :: "token_ctx \<Rightarrow> isolate \<Rightarrow> unit \<times> isolate" where
  "forget_token ctx st = ((), st\<lparr>i_leases := jm_delete (c_cacheKey ctx) (i_leases st), i_auth := dropAuth (i_auth st) (c_hash ctx)\<rparr>)"

definition revalidateAuth :: "token_ctx \<Rightarrow> env \<Rightarrow> 'w deps \<Rightarrow> string \<Rightarrow> ('w, response + user) prog" where
  "revalidateAuth ctx e d rid =
     unless_response
       (catching (and_then (queryToleratingCompany d AUTH_SQL [JStr (c_hash ctx)]) (\<lambda>rows. ret (Inr rows)))
          (\<lambda>_. ret (Inl (internal_error rid))))
       (\<lambda>rows. case rows of
          [] \<Rightarrow> and_then (on_iso (forget_token ctx)) (\<lambda>_.
                  ret (Inl (errorResponse 401 ''UNAUTHENTICATED'' ''invalid access token'' rid)))
        | row # _ \<Rightarrow>
            and_then (of_option ''bad timestamp'' (timestamp (d_dp d) (jget row ''expires_at''))) (\<lambda>stamp.
            let expires = d_dp d stamp in
            if past (c_moment ctx) expires then
              and_then (on_iso (forget_token ctx)) (\<lambda>_.
                ret (Inl (errorResponse 401 ''TOKEN_EXPIRED'' ''access token expired'' rid)))
            else
              and_then (of_option ''bad timestamp'' (userFrom (d_dp d) row)) (\<lambda>u.
                and_then (on_iso (\<lambda>st. ((), rememberAuth (c_hash ctx) u expires (c_moment ctx) (authTtlMs e) st)))
                  (\<lambda>_. ret (Inr u)))))"

definition rememberBag :: "token_ctx \<Rightarrow> env \<Rightarrow> string \<times> int" where
  "rememberBag ctx e = (c_hash ctx, authTtlMs e)"

definition resolveDevUser :: "env \<Rightarrow> 'w deps \<Rightarrow> ('w, user) prog" where
  "resolveDevUser e d =
     and_then (queryToleratingCompany d DEV_USER_SQL [JStr (or_empty (e_DEV_USER_ID e))]) (\<lambda>rows.
       case rows of
         [] \<Rightarrow> throw \<lparr>x_status = 401, x_code = ''UNAUTHENTICATED'', x_message = ''dev user not seeded''\<rparr>
       | row # _ \<Rightarrow> of_option ''bad timestamp'' (userFrom (d_dp d) row))"

text \<open>\<open>RATE_SQL\<close> through the driver, as \<open>allowShared\<close> reads it: the hits of the first row.\<close>

definition rate_query :: "'w deps \<Rightarrow> string \<Rightarrow> int \<Rightarrow> int \<Rightarrow> 'w \<Rightarrow> (unit + int option) \<times> 'w" where
  "rate_query d bucket expires limit w =
     (case d_query d RATE_SQL [JStr bucket, JNum expires, JNum limit] w of
        (Inl _, w') \<Rightarrow> (Inl (), w')
      | (Inr [], w') \<Rightarrow> (Inr None, w')
      | (Inr (row # _), w') \<Rightarrow> (Inr (if blank (jget row ''hits'') then None else int_cell (jget row ''hits'')), w'))"

definition shared_allow :: "'w deps \<Rightarrow> string \<Rightarrow> string \<Rightarrow> int \<Rightarrow> int \<Rightarrow> int \<Rightarrow> ('w, bool) prog" where
  "shared_allow d kind key limit windowMs now s =
     (case allowShared (rate_query d) kind key limit windowMs now (g_iso s) (g_w s) of
        (ok, i, w) \<Rightarrow> (Inr ok, s\<lparr>g_iso := i, g_w := w\<rparr>))"

definition rate_args :: "rate_params \<Rightarrow> jv list" where
  "rate_args p = [JStr (rp_hash p), JStr (rp_window p), JNum (rp_expires p), JNum (rp_cap p), JNum (rp_moment p),
     JNum (rp_batch p), JNum (rp_release p)]"

definition ctx_args :: "token_ctx \<Rightarrow> rate_limits \<Rightarrow> jv list" where
  "ctx_args ctx limits = rate_args (rateParams (c_hash ctx) (c_moment ctx) (lim_user limits) (c_batch ctx) (c_release ctx))"

definition requireUser ::
  "request \<Rightarrow> env \<Rightarrow> 'w deps \<Rightarrow> string \<Rightarrow> rate_limits \<Rightarrow> int \<Rightarrow> ('w, response + user) prog" where
  "requireUser rq e d rid limits now =
     unless_response (tokenContext rq e d rid limits now) (\<lambda>ctx.
       case c_user ctx of
         Some u \<Rightarrow> ret (Inr u)
       | None \<Rightarrow>
           if c_revalidate ctx then revalidateAuth ctx e d rid
           else if c_dev ctx then
             catching
               (and_then (resolveDevUser e d) (\<lambda>u.
                  and_then (shared_allow d ''user'' (u_id u) (lim_user limits) (lim_window limits) (c_moment ctx)) (\<lambda>ok.
                    ret (if ok then Inr u else Inl (rate_limited rid)))))
               (\<lambda>x. ret (Inl (codedError x rid)))
           else
             unless_response
               (catching
                  (and_then (queryToleratingCompany d AUTH_RATE_SQL (ctx_args ctx limits)) (\<lambda>rows. ret (Inr (rows, True))))
                  (\<lambda>_. catching
                     (and_then (queryToleratingCompany d AUTH_SQL [JStr (c_hash ctx)]) (\<lambda>rows. ret (Inr (rows, False))))
                     (\<lambda>_. ret (Inl (internal_error rid)))))
               (\<lambda>(rows, shared). interpretAuth d rows (c_moment ctx) (lim_user limits) (lim_window limits) (c_cacheKey ctx)
                  shared rid (Some (rememberBag ctx e))))"


subsection \<open>What a token check does to the lease\<close>

definition handed :: "token_ctx \<Rightarrow> bool" where
  "handed ctx \<longleftrightarrow> c_user ctx \<noteq> None \<or> c_revalidate ctx"

definition ctx_ok :: "token_ctx \<Rightarrow> bool" where
  "ctx_ok ctx \<longleftrightarrow> c_cacheKey ctx = cache_key (c_hash ctx) (c_moment ctx) \<and> 0 \<le> c_release ctx \<and> 1 \<le> c_batch ctx"

lemma plain_ctx_simps [simp]:
  "c_dev (plain_ctx h m k) = False" "c_hash (plain_ctx h m k) = h" "c_moment (plain_ctx h m k) = m"
  "c_cacheKey (plain_ctx h m k) = k" "c_user (plain_ctx h m k) = None" "c_revalidate (plain_ctx h m k) = False"
  "c_batch (plain_ctx h m k) = 1" "c_release (plain_ctx h m k) = 0"
  by (simp_all add: plain_ctx_def)

lemma take_expired_moves:
  assumes "iso_inv bkt st" and t: "take_expired key moment st = (release, st')"
  shows "iso_inv bkt st' \<and> 0 \<le> release \<and> lease_left key moment st' = lease_left key moment st
    \<and> (0 < release \<longrightarrow> lease_left key moment st = 0)
    \<and> outstanding b st' + (if b = bkt key then release else 0) = outstanding b st"
proof (cases "\<exists>l. jm_get (i_leases st) key = Some l \<and> l_expiresAt l \<le> moment")
  case True
  then obtain l where l: "jm_get (i_leases st) key = Some l" "l_expiresAt l \<le> moment" by blast
  let ?l = "l\<lparr>l_remaining := 0, l_spent := False\<rparr>"
  have ok: "lease_ok bkt key l" using iso_invD(2) [OF assms(1) l(1)] .
  then have "lease_ok bkt key ?l" by (simp add: lease_ok_def)
  with iso_inv_set [OF assms(1)] outstanding_set [OF assms(1), of b key ?l] part_Some [OF l(1), of b] t l ok
  show ?thesis by (auto simp: take_expired_def lease_left_def lease_ok_def unit_of_def)
next
  case False
  with t have "release = 0 \<and> st' = st" by (auto simp: take_expired_def split: option.splits if_splits)
  with assms(1) show ?thesis by simp
qed

lemma lease_left_pos:
  assumes "0 < lease_left key moment st"
  obtains l where "jm_get (i_leases st) key = Some l" "0 < l_remaining l"
  using assms by (auto simp: lease_left_def split: option.splits if_splits)

lemma token_step_moves:
  assumes "iso_inv bkt st0" and t: "token_step wait hash moment limit rid st0 = (r, st')"
  shows "iso_inv bkt st' \<and> outstanding b st'
      + (case r of Inl _ \<Rightarrow> 0 | Inr ctx \<Rightarrow> (if b = bkt (cache_key hash moment)
           then c_release ctx + (if handed ctx then 1 else 0) else 0)) = outstanding b st0
    \<and> (\<forall>ctx. r = Inr ctx \<longrightarrow> ctx_ok ctx \<and> c_hash ctx = hash \<and> c_moment ctx = moment \<and> \<not> c_dev ctx
           \<and> (handed ctx \<longrightarrow> c_release ctx = 0))"
proof -
  let ?key = "cache_key hash moment"
  obtain release st where e: "take_expired ?key moment st0 = (release, st)" by force
  note m = take_expired_moves [OF assms(1) e]
  have inv: "iso_inv bkt st" using m [of b] by simp
  have o0: "release = 0 \<Longrightarrow> outstanding b st = outstanding b st0"
    using m [of b] by (cases "b = bkt (cache_key hash moment)") auto
  obtain cached auth' where g: "getAuth (i_auth st) hash moment = (cached, auth')" by force
  define st1 where "st1 = st\<lparr>i_auth := auth'\<rparr>"
  have inv1: "iso_inv bkt st1" and out1: "outstanding b st1 = outstanding b st"
    using inv by (simp_all add: st1_def iso_inv_def outstanding_def)
  have inv2: "iso_inv bkt (st1\<lparr>i_auth := dropAuth auth' hash\<rparr>)" and out2: "outstanding b (st1\<lparr>i_auth := dropAuth auth' hash\<rparr>) = outstanding b st"
    using inv by (simp_all add: st1_def iso_inv_def outstanding_def)
  define full where "full = (case jm_get (i_remoteHits st) ?key of None \<Rightarrow> False | Some known \<Rightarrow> readCap limit \<le> known)"
  define left where "left = lease_left ?key moment st0"
  have t': "(if full \<and> left \<le> 0 \<and> release \<le> 0 then (Inl (rate_limited rid), st)
      else if left > 0 then
        (case cached of
           Some c \<Rightarrow> if past moment (u_expiresAtMs c)
             then (Inl (errorResponse 401 ''TOKEN_EXPIRED'' ''access token expired'' rid), st1\<lparr>i_auth := dropAuth auth' hash\<rparr>)
             else (Inr ((plain_ctx hash moment ?key)\<lparr>c_user := Some (userFromCached c)\<rparr>), spendLease wait ?key moment st1)
         | None \<Rightarrow> (Inr ((plain_ctx hash moment ?key)\<lparr>c_revalidate := True\<rparr>), spendLease wait ?key moment st1))
      else (Inr ((plain_ctx hash moment ?key)
              \<lparr>c_batch := nextBatch (jm_get (i_leases st) ?key) moment release, c_release := release\<rparr>), st1)) = (r, st')"
    using t unfolding token_step_def Let_def e prod.case g st1_def full_def left_def by simp
  have ml: "left = lease_left ?key moment st" "0 < release \<Longrightarrow> left = 0" using m [of b] by (simp_all add: left_def)
  show ?thesis
  proof (cases "full \<and> left \<le> 0 \<and> release \<le> 0")
    case True
    then have "r = Inl (rate_limited rid) \<and> st' = st" using t' by simp
    with m [of b] True o0 show ?thesis by simp
  next
    case nf: False
    show ?thesis
    proof (cases "0 < left")
      case True
      then have "0 < lease_left ?key moment st" using ml(1) by simp
      then obtain l where l: "jm_get (i_leases st1) ?key = Some l" "0 < l_remaining l"
        by (rule lease_left_pos) (simp add: st1_def)
      have r0: "release = 0" using m [of b] ml True by auto
      note sp = spendLease_takes [OF inv1 l, of wait moment b]
      show ?thesis
      proof (cases cached)
        case None
        then have "r = Inr ((plain_ctx hash moment ?key)\<lparr>c_revalidate := True\<rparr>)" "st' = spendLease wait ?key moment st1"
          using t' nf True by auto
        with sp o0 [OF r0] out1 show ?thesis by (simp add: handed_def ctx_ok_def)
      next
        case (Some c)
        show ?thesis
        proof (cases "past moment (u_expiresAtMs c)")
          case pa: True
          then have "r = Inl (errorResponse 401 ''TOKEN_EXPIRED'' ''access token expired'' rid)"
              "st' = st1\<lparr>i_auth := dropAuth auth' hash\<rparr>"
            using t' nf True Some by auto
          with inv2 out2 o0 [OF r0] show ?thesis by simp
        next
          case pa: False
          then have "r = Inr ((plain_ctx hash moment ?key)\<lparr>c_user := Some (userFromCached c)\<rparr>)"
              "st' = spendLease wait ?key moment st1"
            using t' nf True Some by auto
          with sp o0 [OF r0] out1 show ?thesis by (simp add: handed_def ctx_ok_def)
        qed
      qed
    next
      case False
      then have "r = Inr ((plain_ctx hash moment ?key)\<lparr>c_batch := nextBatch (jm_get (i_leases st) ?key) moment release,
            c_release := release\<rparr>)" "st' = st1"
        using t' nf False by auto
      with inv1 out1 m [of b] nextBatch_range [of "jm_get (i_leases st) ?key" moment release] show ?thesis
        by (cases "b = bkt ?key") (simp_all add: handed_def ctx_ok_def)
    qed
  qed
qed
end
