(* ===== verification/Lease_System.thy ===== *)
theory Lease_System
  imports Gw_Auth
begin

text \<open>
  Many isolates and one counter table. The operations of \<open>ratelimit.ts\<close> and \<open>auth.ts\<close> are
  interleaved at every \<open>await\<close>: an issued statement is in flight until the database runs it, a
  granted row is in flight until its isolate reads it, and a statement or a reply can be lost.
  The step relation \<open>lease_step\<close> is over the model's own operations; nothing of them is restated.

  \<open>cf_admitted\<close> is a ghost: per bucket, the requests that were let through on a unit of the shared
  counter (a spent lease unit, an accepted grant, or a row counted by the Python worker). Requests
  admitted while the database is down are counted by \<open>allow\<close> in the isolate and not here.

  A sign-out is as many steps as \<open>clearLease\<close> has turns: \<open>cf_clears\<close> holds, for each running one,
  the key whose return is awaited and the captured leases still to come, and \<open>cf_heap\<close> the last
  value of every lease object. A captured object that \<open>acceptGrant\<close> replaced in between has passed
  its units on to its successor and is returned all the same; \<open>cf_stale\<close> counts the hits given back
  from objects that were no longer stored. \<open>cf_purged\<close> counts the hits of the rows that the Python
  worker purged after their expiry (\<open>services/ai/src/app/ratelimit.py\<close>).
\<close>

record config =
  cf_isos :: "isolate list"
  cf_table :: rate_table
  cf_releases :: "(string \<times> int) list"
  cf_queries :: "(nat \<times> token_ctx) list"
  cf_replies :: "(nat \<times> token_ctx \<times> (int \<times> int) option) list"
  cf_admitted :: "string \<Rightarrow> int"
  cf_heap :: "nat \<Rightarrow> lease_heap"
  cf_clears :: "(nat \<times> string \<times> (string \<times> nat) list) list"
  cf_stale :: "string \<Rightarrow> int"
  cf_purged :: "string \<Rightarrow> int"

definition empty_isolate :: isolate where
  "empty_isolate = \<lparr>i_hits = [], i_remoteHits = [], i_leases = [], i_auth = [], i_armed = [], i_next = 0\<rparr>"

definition start :: "nat \<Rightarrow> config" where
  "start n = \<lparr>cf_isos = replicate n empty_isolate, cf_table = (\<lambda>_. None), cf_releases = [], cf_queries = [],
     cf_replies = [], cf_admitted = (\<lambda>_. 0), cf_heap = (\<lambda>_ _. None), cf_clears = [], cf_stale = (\<lambda>_. 0),
     cf_purged = (\<lambda>_. 0)\<rparr>"

text \<open>The bucket a context's statement works on: the owner of the token, the minute of the request.\<close>

definition ctx_bucket :: "(string \<Rightarrow> string) \<Rightarrow> token_ctx \<Rightarrow> string" where
  "ctx_bucket own ctx = user_bucket (own (c_hash ctx)) (c_moment ctx)"

definition granted_row :: "(int \<times> int) option \<Rightarrow> rate_row" where
  "granted_row r = \<lparr>r_hits = map_option fst r, r_granted = Some (map_option snd r)\<rparr>"

definition admit :: "bool \<Rightarrow> string \<Rightarrow> config \<Rightarrow> config" where
  "admit ok b c = (if ok then c\<lparr>cf_admitted := (cf_admitted c)(b := cf_admitted c b + 1)\<rparr> else c)"

definition set_iso :: "nat \<Rightarrow> isolate \<Rightarrow> config \<Rightarrow> config" where
  "set_iso i st c = c\<lparr>cf_isos := (cf_isos c)[i := st], cf_heap := (cf_heap c)(i := track st (cf_heap c i))\<rparr>"

definition set_heap :: "nat \<Rightarrow> lease_heap \<Rightarrow> config \<Rightarrow> config" where
  "set_heap i heap c = c\<lparr>cf_heap := (cf_heap c)(i := heap)\<rparr>"

definition send :: "(string \<times> int) list \<Rightarrow> config \<Rightarrow> config" where
  "send rels c = c\<lparr>cf_releases := cf_releases c @ rels\<rparr>"

definition fired :: "(string \<times> int \<times> nat) option \<Rightarrow> (string \<times> int) list" where
  "fired r = (case r of None \<Rightarrow> [] | Some (b, n, _) \<Rightarrow> [(b, n)])"

definition charge :: "(string \<times> int) list \<Rightarrow> config \<Rightarrow> config" where
  "charge rels c = c\<lparr>cf_stale := (\<lambda>b. cf_stale c b + returned b rels)\<rparr>"

text \<open>The next turn of a running \<open>clearLease\<close>, up to its \<open>await\<close>; it ends when nothing is left.\<close>

definition take_turn :: "nat \<Rightarrow> (string \<times> nat) list \<Rightarrow> config \<Rightarrow> config" where
  "take_turn i refs c =
     (case refs of
        [] \<Rightarrow> c
      | (key, ob) # rest \<Rightarrow>
          (case clear_turn key ob (cf_isos c ! i) (cf_heap c i) of
             (rel, st', heap') \<Rightarrow>
               charge (if is_stored key ob (cf_isos c ! i) then [] else issued rel)
                 (send (issued rel) (set_iso i st' ((set_heap i heap' c)\<lparr>cf_clears := (i, key, rest) # cf_clears c\<rparr>)))))"

definition stop_clears :: "nat \<Rightarrow> config \<Rightarrow> config" where
  "stop_clears i c = (set_heap i (\<lambda>_. None) c)\<lparr>cf_clears := filter (\<lambda>q. fst q \<noteq> i) (cf_clears c)\<rparr>"

text \<open>\<open>DELETE FROM rate_limits WHERE expires_at < now()\<close>.\<close>

definition purge_sql :: "int \<Rightarrow> rate_table \<Rightarrow> rate_table" where
  "purge_sql now tbl = (\<lambda>b. case tbl b of None \<Rightarrow> None | Some e \<Rightarrow> if e_expires e < now then None else Some e)"

inductive lease_step :: "(string \<Rightarrow> string) \<Rightarrow> int \<Rightarrow> config \<Rightarrow> config \<Rightarrow> bool"
  for own :: "string \<Rightarrow> string" and limit :: int
where
  expire: "i < length (cf_isos c) \<Longrightarrow> releaseExpired now key (cf_isos c ! i) = (rels, st') \<Longrightarrow>
    lease_step own limit c (send rels (set_iso i st' (set_heap i (expire_heap now key (cf_isos c ! i) (cf_heap c i)) c)))"
| token_refused: "i < length (cf_isos c) \<Longrightarrow> token_step wait hash moment limit rid (cf_isos c ! i) = (Inl rs, st') \<Longrightarrow>
    lease_step own limit c (set_iso i st' c)"
| token_spent: "i < length (cf_isos c) \<Longrightarrow> token_step wait hash moment limit rid (cf_isos c ! i) = (Inr ctx, st') \<Longrightarrow>
    handed ctx \<Longrightarrow> lease_step own limit c (admit True (ctx_bucket own ctx) (set_iso i st' c))"
| token_query: "i < length (cf_isos c) \<Longrightarrow> token_step wait hash moment limit rid (cf_isos c ! i) = (Inr ctx, st') \<Longrightarrow>
    \<not> handed ctx \<Longrightarrow> lease_step own limit c ((set_iso i st' c)\<lparr>cf_queries := (i, ctx) # cf_queries c\<rparr>)"
| grant: "cf_queries c = xs @ (i, ctx) # ys \<Longrightarrow>
    p = rateParams (c_hash ctx) (c_moment ctx) limit (c_batch ctx) (c_release ctx) \<Longrightarrow>
    grant_sql (cf_table c) (ctx_bucket own ctx) (rp_expires p) (rp_cap p) (rp_batch p) (rp_release p) = (r, t') \<Longrightarrow>
    lease_step own limit c (c\<lparr>cf_queries := xs @ ys, cf_table := t', cf_replies := (i, ctx, r) # cf_replies c\<rparr>)"
| query_lost: "cf_queries c = xs @ q # ys \<Longrightarrow> lease_step own limit c (c\<lparr>cf_queries := xs @ ys\<rparr>)"
| reply: "cf_replies c = xs @ (i, ctx, r) # ys \<Longrightarrow> i < length (cf_isos c) \<Longrightarrow>
    acceptGrant wait (c_cacheKey ctx) (granted_row r) (readCap limit) (c_moment ctx) (ctx_bucket own ctx) (cf_isos c ! i) = (ok, st') \<Longrightarrow>
    lease_step own limit c (admit ok (ctx_bucket own ctx) ((set_iso i st' c)\<lparr>cf_replies := xs @ ys\<rparr>))"
| reply_lost: "cf_replies c = xs @ q # ys \<Longrightarrow> lease_step own limit c (c\<lparr>cf_replies := xs @ ys\<rparr>)"
| fire: "i < length (cf_isos c) \<Longrightarrow> a \<in> set (i_armed (cf_isos c ! i)) \<Longrightarrow>
    fireRelease (a_key a) (a_epoch a) (cf_isos c ! i) = (r, st') \<Longrightarrow>
    lease_step own limit c (send (fired r) (set_iso i st' c))"
| finish: "i < length (cf_isos c) \<Longrightarrow> lease_step own limit c (set_iso i (finishRelease key ob (cf_isos c ! i)) c)"
| release: "cf_releases c = xs @ (b, n) # ys \<Longrightarrow>
    lease_step own limit c (c\<lparr>cf_releases := xs @ ys, cf_table := release_sql (cf_table c) b n\<rparr>)"
| release_lost: "cf_releases c = xs @ q # ys \<Longrightarrow> lease_step own limit c (c\<lparr>cf_releases := xs @ ys\<rparr>)"
| sign_out: "i < length (cf_isos c) \<Longrightarrow>
    lease_step own limit c (take_turn i (clear_capture hash (cf_isos c ! i)) c)"
| sign_out_turn: "cf_clears c = xs @ (i, key, rest) # ys \<Longrightarrow> i < length (cf_isos c) \<Longrightarrow>
    lease_step own limit c (take_turn i rest (set_iso i (drop_lease key (cf_isos c ! i)) (c\<lparr>cf_clears := xs @ ys\<rparr>)))"
| forget: "i < length (cf_isos c) \<Longrightarrow> forget_token ctx (cf_isos c ! i) = (u, st') \<Longrightarrow>
    lease_step own limit c (set_iso i st' c)"
| count: "rate_sql (cf_table c) b ex limit = (r, t') \<Longrightarrow>
    lease_step own limit c (admit (r \<noteq> None) b (c\<lparr>cf_table := t'\<rparr>))"
| purge: "lease_step own limit c (c\<lparr>cf_table := purge_sql now (cf_table c),
    cf_purged := (\<lambda>b. cf_purged c b + (hits_in (cf_table c) b - hits_in (purge_sql now (cf_table c)) b))\<rparr>)"
| restart: "i < length (cf_isos c) \<Longrightarrow> lease_step own limit c (set_iso i empty_isolate (stop_clears i c))"

inductive lease_reach :: "(string \<Rightarrow> string) \<Rightarrow> int \<Rightarrow> nat \<Rightarrow> config \<Rightarrow> bool"
  for own :: "string \<Rightarrow> string" and limit :: int and n :: nat
where
  start: "lease_reach own limit n (start n)"
| step: "lease_reach own limit n c \<Longrightarrow> lease_step own limit c c' \<Longrightarrow> lease_reach own limit n c'"

subsection \<open>Local keys and shared buckets\<close>

definition key_hash :: "string \<Rightarrow> string" where
  "key_hash key = drop 5 (take (length key - length (after_last_colon key) - 1) key)"

definition key_bucket :: "(string \<Rightarrow> string) \<Rightarrow> string \<Rightarrow> string" where
  "key_bucket own key = ''user:'' @ own (key_hash key) @ '':'' @ after_last_colon key"

lemma int_dec_no_colon: "CHR '':'' \<notin> set (int_dec i)"
proof -
  have "CHR '':'' \<notin> set (nat_dec n)" for n
    using nat_dec_digits [of n] by (auto simp: list_all_iff is_digit_def)
  then show ?thesis by (simp add: int_dec_def)
qed

lemma after_last_colon_append: "CHR '':'' \<notin> set w \<Longrightarrow> after_last_colon (a @ '':'' @ w) = w"
  unfolding after_last_colon_def by (subst (asm) set_rev [symmetric], simp add: takeWhile_append)

lemma key_bucket_cache_key: "key_bucket own (cache_key hash moment) = user_bucket (own hash) moment"
proof -
  let ?w = "int_dec (windowOf moment)"
  have k: "cache_key hash moment = (''user:'' @ hash) @ '':'' @ ?w" by (simp add: cache_key_def)
  have w: "after_last_colon (cache_key hash moment) = ?w"
    unfolding k by (rule after_last_colon_append [OF int_dec_no_colon])
  define a where "a = ''user:'' @ hash"
  have ka: "cache_key hash moment = a @ '':'' @ ?w" by (simp add: k a_def)
  then have n: "length (cache_key hash moment) - length ?w - 1 = length a" by simp
  have "take (length (cache_key hash moment) - length ?w - 1) (cache_key hash moment) = a"
    unfolding n unfolding ka by simp
  then show ?thesis by (simp add: key_bucket_def key_hash_def w user_bucket_def a_def)
qed

subsection \<open>The invariant\<close>

definition query_part :: "(string \<Rightarrow> string) \<Rightarrow> string \<Rightarrow> nat \<times> token_ctx \<Rightarrow> int" where
  "query_part own b q = (case q of (_, ctx) \<Rightarrow> if ctx_bucket own ctx = b then c_release ctx else 0)"

definition reply_part :: "(string \<Rightarrow> string) \<Rightarrow> string \<Rightarrow> nat \<times> token_ctx \<times> (int \<times> int) option \<Rightarrow> int" where
  "reply_part own b q = (case q of (_, ctx, r) \<Rightarrow>
     if ctx_bucket own ctx = b then (case r of None \<Rightarrow> 0 | Some (_, g) \<Rightarrow> g) else 0)"

text \<open>The units of \<open>b\<close> that are on the counter and not yet admitted.\<close>

definition in_flight :: "(string \<Rightarrow> string) \<Rightarrow> string \<Rightarrow> config \<Rightarrow> int" where
  "in_flight own b c = sum_list (map (outstanding b) (cf_isos c)) + returned b (cf_releases c)
     + sum_list (map (query_part own b) (cf_queries c)) + sum_list (map (reply_part own b) (cf_replies c))"

definition reply_ok :: "nat \<times> token_ctx \<times> (int \<times> int) option \<Rightarrow> bool" where
  "reply_ok q = (case q of (_, ctx, r) \<Rightarrow> ctx_ok ctx \<and> (\<forall>h g. r = Some (h, g) \<longrightarrow> 0 \<le> g))"

definition parts_ok :: "(string \<Rightarrow> string) \<Rightarrow> config \<Rightarrow> bool" where
  "parts_ok own c \<longleftrightarrow> (\<forall>st \<in> set (cf_isos c). iso_inv (key_bucket own) st)
     \<and> (\<forall>(b, n) \<in> set (cf_releases c). 0 \<le> n) \<and> (\<forall>(i, ctx) \<in> set (cf_queries c). ctx_ok ctx)
     \<and> (\<forall>q \<in> set (cf_replies c). reply_ok q) \<and> (\<forall>b. 0 \<le> cf_admitted c b)"

text \<open>Hits that left the counter although the units they stand for may still be used.\<close>

definition debt :: "string \<Rightarrow> config \<Rightarrow> int" where
  "debt b c = cf_stale c b + cf_purged c b"

definition covered :: "(string \<Rightarrow> string) \<Rightarrow> int \<Rightarrow> config \<Rightarrow> bool" where
  "covered own limit c \<longleftrightarrow> (\<forall>b. cf_admitted c b + in_flight own b c \<le> hits_in (cf_table c) b + debt b c
     \<and> 0 \<le> hits_in (cf_table c) b \<and> hits_in (cf_table c) b \<le> limit)"

definition lease_inv :: "(string \<Rightarrow> string) \<Rightarrow> int \<Rightarrow> config \<Rightarrow> bool" where
  "lease_inv own limit c \<longleftrightarrow> parts_ok own c \<and> covered own limit c"

lemmas config_ops = admit_def set_iso_def send_def set_heap_def charge_def stop_clears_def

lemma returned_nonneg: "\<forall>(b', n) \<in> set rels. 0 \<le> n \<Longrightarrow> 0 \<le> returned b rels"
  by (induction rels) auto

lemma sum_list_part_nonneg: "(\<And>x. x \<in> set xs \<Longrightarrow> 0 \<le> f x) \<Longrightarrow> 0 \<le> sum_list (map f xs :: int list)"
  by (rule sum_list_nonneg) auto

lemma parts_nonneg:
  assumes "parts_ok own c"
  shows "0 \<le> sum_list (map (outstanding b) (cf_isos c))" "0 \<le> returned b (cf_releases c)"
    "0 \<le> sum_list (map (query_part own b) (cf_queries c))" "0 \<le> sum_list (map (reply_part own b) (cf_replies c))"
    "0 \<le> cf_admitted c b"
proof -
  show "0 \<le> sum_list (map (outstanding b) (cf_isos c))"
    using assms by (intro sum_list_part_nonneg outstanding_nonneg) (auto simp: parts_ok_def)
  show "0 \<le> returned b (cf_releases c)"
    using assms by (intro returned_nonneg) (simp add: parts_ok_def)
  show "0 \<le> sum_list (map (query_part own b) (cf_queries c))"
    using assms by (intro sum_list_part_nonneg) (auto simp: parts_ok_def query_part_def ctx_ok_def)
  show "0 \<le> sum_list (map (reply_part own b) (cf_replies c))"
    using assms by (intro sum_list_part_nonneg) (auto simp: parts_ok_def reply_part_def reply_ok_def split: option.splits)
  show "0 \<le> cf_admitted c b" using assms by (simp add: parts_ok_def)
qed

lemma in_flight_nonneg: "parts_ok own c \<Longrightarrow> 0 \<le> in_flight own b c"
  using parts_nonneg [of own c b] by (simp add: in_flight_def)

lemma lease_inv_bound:
  assumes "lease_inv own limit c" "parts_ok own c'" "cf_table c' = cf_table c"
    and "\<And>b. cf_admitted c' b + in_flight own b c' - debt b c' \<le> cf_admitted c b + in_flight own b c - debt b c"
  shows "lease_inv own limit c'"
proof -
  have "cf_admitted c' b + in_flight own b c' \<le> hits_in (cf_table c') b + debt b c'
      \<and> 0 \<le> hits_in (cf_table c') b \<and> hits_in (cf_table c') b \<le> limit" for b
  proof -
    from assms(1) have "cf_admitted c b + in_flight own b c \<le> hits_in (cf_table c) b + debt b c
        \<and> 0 \<le> hits_in (cf_table c) b \<and> hits_in (cf_table c) b \<le> limit"
      by (simp add: lease_inv_def covered_def)
    with assms(3) assms(4) [of b] show ?thesis by simp
  qed
  with assms(2) show ?thesis by (simp add: lease_inv_def covered_def)
qed

lemma parts_ok_set_iso:
  "parts_ok own c \<Longrightarrow> iso_inv (key_bucket own) st' \<Longrightarrow> parts_ok own (set_iso i st' c)"
  using set_update_subset_insert [of "cf_isos c" i st'] by (auto simp: parts_ok_def set_iso_def)

lemma in_flight_set_iso:
  "i < length (cf_isos c) \<Longrightarrow>
   in_flight own b (set_iso i st' c) = in_flight own b c - outstanding b (cf_isos c ! i) + outstanding b st'"
  by (simp add: in_flight_def set_iso_def sum_list_update_int)

lemma parts_ok_send:
  "parts_ok own c \<Longrightarrow> \<forall>(b, n) \<in> set rels. 0 \<le> n \<Longrightarrow> parts_ok own (send rels c)"
  by (auto simp: parts_ok_def send_def)

lemma in_flight_send: "in_flight own b (send rels c) = in_flight own b c + returned b rels"
  by (simp add: in_flight_def send_def)

lemma parts_ok_admit: "parts_ok own c \<Longrightarrow> parts_ok own (admit ok b c)"
  by (simp add: parts_ok_def admit_def)

lemma in_flight_admit [simp]: "in_flight own b (admit ok b' c) = in_flight own b c"
  by (simp add: in_flight_def admit_def)

lemma admitted_admit: "cf_admitted (admit ok b' c) b = cf_admitted c b + (if ok \<and> b = b' then 1 else 0)"
  by (simp add: admit_def)

lemma ops_fields [simp]:
  "cf_table (set_iso i st c) = cf_table c" "cf_admitted (set_iso i st c) = cf_admitted c"
  "cf_table (send rels c) = cf_table c" "cf_admitted (send rels c) = cf_admitted c"
  "cf_table (admit ok b c) = cf_table c"
  "cf_isos (set_heap i h c) = cf_isos c" "cf_isos (stop_clears i c) = cf_isos c"
  "debt b (set_iso i st c) = debt b c" "debt b (send rels c) = debt b c" "debt b (admit ok b' c) = debt b c"
  by (simp_all add: config_ops debt_def)

lemma debt_fields [simp]:
  "debt b (c\<lparr>cf_queries := qs\<rparr>) = debt b c" "debt b (c\<lparr>cf_replies := rs\<rparr>) = debt b c"
  "debt b (c\<lparr>cf_releases := rels\<rparr>) = debt b c" "debt b (c\<lparr>cf_table := t\<rparr>) = debt b c"
  by (simp_all add: debt_def)

text \<open>What the heap and the list of running sign-outs hold does not enter the account.\<close>

definition same_account :: "config \<Rightarrow> config \<Rightarrow> bool" where
  "same_account c d \<longleftrightarrow> (\<exists>h cl. d = c\<lparr>cf_heap := h, cf_clears := cl\<rparr>)"

lemma same_account_inv: "same_account c d \<Longrightarrow> lease_inv own limit c \<Longrightarrow> lease_inv own limit d \<and> cf_isos d = cf_isos c"
  by (auto simp: same_account_def lease_inv_def parts_ok_def covered_def in_flight_def debt_def)

lemma same_accounts:
  "same_account c (set_heap i h c)" "same_account c ((set_heap i h c)\<lparr>cf_clears := cl\<rparr>)" "same_account c (c\<lparr>cf_clears := cl\<rparr>)"
  "same_account c (stop_clears i c)"
proof -
  have "c\<lparr>cf_heap := h, cf_clears := cf_clears c\<rparr> = c\<lparr>cf_heap := h\<rparr>" for h by simp
  moreover have "c\<lparr>cf_heap := cf_heap c, cf_clears := cl\<rparr> = c\<lparr>cf_clears := cl\<rparr>" for cl by simp
  ultimately show "same_account c (set_heap i h c)" "same_account c ((set_heap i h c)\<lparr>cf_clears := cl\<rparr>)"
    "same_account c (c\<lparr>cf_clears := cl\<rparr>)" "same_account c (stop_clears i c)"
    unfolding same_account_def config_ops by metis+
qed

text \<open>Steps of an isolate that return units: what leaves the isolate is in flight.\<close>

lemma iso_step_keeps:
  assumes inv: "lease_inv own limit c" and i: "i < length (cf_isos c)"
    and st': "iso_inv (key_bucket own) st'"
    and move: "\<And>b. outstanding b st' + returned b rels \<le> outstanding b (cf_isos c ! i)"
    and pos: "\<forall>(b, n) \<in> set rels. 0 \<le> n"
  shows "lease_inv own limit (send rels (set_iso i st' c))"
proof (rule lease_inv_bound [OF inv])
  from inv st' pos show "parts_ok own (send rels (set_iso i st' c))"
    by (simp add: lease_inv_def parts_ok_set_iso parts_ok_send)
  show "cf_admitted (send rels (set_iso i st' c)) b + in_flight own b (send rels (set_iso i st' c)) - debt b (send rels (set_iso i st' c))
      \<le> cf_admitted c b + in_flight own b c - debt b c" for b
    using move [of b] i by (simp add: in_flight_send in_flight_set_iso)
qed simp

lemma iso_step_plain:
  assumes "lease_inv own limit c" "i < length (cf_isos c)" "iso_inv (key_bucket own) st'"
    and "\<And>b. outstanding b st' \<le> outstanding b (cf_isos c ! i)"
  shows "lease_inv own limit (set_iso i st' c)"
  using iso_step_keeps [OF assms(1,2,3), of "[]"] assms(4) by (simp add: send_def)

text \<open>A turn of a sign-out: what a stored object held leaves the isolate, what another one held is
  charged.\<close>

lemma turn_keeps:
  assumes inv: "lease_inv own limit c" and i: "i < length (cf_isos c)"
  shows "lease_inv own limit (take_turn i refs c)"
proof (cases refs)
  case Nil
  with inv show ?thesis by (simp add: take_turn_def)
next
  case (Cons r rest)
  obtain key ob where r: "r = (key, ob)" by force
  obtain rel st' heap' where t: "clear_turn key ob (cf_isos c ! i) (cf_heap c i) = (rel, st', heap')"
    by (metis prod_cases3)
  let ?d = "(set_heap i heap' c)\<lparr>cf_clears := (i, key, rest) # cf_clears c\<rparr>"
  let ?st = "if is_stored key ob (cf_isos c ! i) then [] else issued rel"
  let ?e = "send (issued rel) (set_iso i st' ?d)"
  have d: "lease_inv own limit ?d" "cf_isos ?d = cf_isos c"
    using same_account_inv [OF same_accounts(2) inv] by blast+
  from inv i have iso: "iso_inv (key_bucket own) (cf_isos c ! i)" by (simp add: lease_inv_def parts_ok_def)
  note m = clear_turn_moves [OF iso t]
  from m have pos: "\<forall>(b, n) \<in> set (issued rel). 0 \<le> n" by force
  have "lease_inv own limit (charge ?st ?e)"
  proof (rule lease_inv_bound [OF d(1)])
    have "parts_ok own ?e" using d m pos by (simp add: lease_inv_def parts_ok_set_iso parts_ok_send)
    then show "parts_ok own (charge ?st ?e)" by (simp add: parts_ok_def charge_def)
    have fl: "in_flight own b (charge ?st ?e) = in_flight own b ?e" "cf_admitted (charge ?st ?e) b = cf_admitted ?d b"
      "debt b (charge ?st ?e) = debt b ?d + returned b ?st" for b
      by (simp_all add: in_flight_def charge_def debt_def send_def set_iso_def)
    show "cf_admitted (charge ?st ?e) b + in_flight own b (charge ?st ?e) - debt b (charge ?st ?e)
        \<le> cf_admitted ?d b + in_flight own b ?d - debt b ?d" for b
      using m [of b] i d(2) unfolding fl by (simp add: in_flight_send in_flight_set_iso split: if_splits)
    show "cf_table (charge ?st ?e) = cf_table ?d" by (simp add: charge_def)
  qed
  then show ?thesis by (simp add: take_turn_def Cons r t)
qed

lemma iso_of_inv: "lease_inv own limit c \<Longrightarrow> i < length (cf_isos c) \<Longrightarrow> iso_inv (key_bucket own) (cf_isos c ! i)"
  by (simp add: lease_inv_def parts_ok_def)


subsection \<open>Every step keeps it\<close>

lemma ctx_ok_bucket: "ctx_ok ctx \<Longrightarrow> key_bucket own (c_cacheKey ctx) = ctx_bucket own ctx"
  by (simp add: ctx_ok_def key_bucket_cache_key ctx_bucket_def)

lemma token_ctx_bucket:
  "c_hash ctx = hash \<Longrightarrow> c_moment ctx = moment \<Longrightarrow> key_bucket own (cache_key hash moment) = ctx_bucket own ctx"
  by (simp add: key_bucket_cache_key ctx_bucket_def)

lemma token_spent_keeps:
  assumes inv: "lease_inv own limit c" and i: "i < length (cf_isos c)"
    and t: "token_step wait hash moment limit' rid (cf_isos c ! i) = (Inr ctx, st')" and h: "handed ctx"
  shows "lease_inv own limit (admit True (ctx_bucket own ctx) (set_iso i st' c))"
proof (rule lease_inv_bound [OF inv])
  note m = token_step_moves [OF iso_of_inv [OF inv i] t]
  from m have b: "key_bucket own (cache_key hash moment) = ctx_bucket own ctx" by (intro token_ctx_bucket) auto
  from inv m show "parts_ok own (admit True (ctx_bucket own ctx) (set_iso i st' c))"
    by (simp add: lease_inv_def parts_ok_set_iso parts_ok_admit)
  show "cf_admitted (admit True (ctx_bucket own ctx) (set_iso i st' c)) b
      + in_flight own b (admit True (ctx_bucket own ctx) (set_iso i st' c))
      - debt b (admit True (ctx_bucket own ctx) (set_iso i st' c)) \<le> cf_admitted c b + in_flight own b c - debt b c" for b
    using m [of b] h i by (simp add: admitted_admit in_flight_set_iso b split: if_splits)
qed simp

lemma token_query_keeps:
  assumes inv: "lease_inv own limit c" and i: "i < length (cf_isos c)"
    and t: "token_step wait hash moment limit' rid (cf_isos c ! i) = (Inr ctx, st')" and h: "\<not> handed ctx"
  shows "lease_inv own limit ((set_iso i st' c)\<lparr>cf_queries := (i, ctx) # cf_queries c\<rparr>)"
proof (rule lease_inv_bound [OF inv])
  let ?c = "(set_iso i st' c)\<lparr>cf_queries := (i, ctx) # cf_queries c\<rparr>"
  note m = token_step_moves [OF iso_of_inv [OF inv i] t]
  from m have b: "key_bucket own (cache_key hash moment) = ctx_bucket own ctx" by (intro token_ctx_bucket) auto
  have "parts_ok own (set_iso i st' c)" using inv m by (simp add: lease_inv_def parts_ok_set_iso)
  then show "parts_ok own ?c" using m by (simp add: parts_ok_def set_iso_def)
  have "in_flight own b ?c = in_flight own b (set_iso i st' c) + query_part own b (i, ctx)" for b
    by (simp add: in_flight_def set_iso_def)
  then show "cf_admitted ?c b + in_flight own b ?c - debt b ?c \<le> cf_admitted c b + in_flight own b c - debt b c" for b
    using m [of b] h i by (simp add: in_flight_set_iso b query_part_def split: if_splits)
qed simp

lemma reply_keeps:
  assumes inv: "lease_inv own limit c" and q: "cf_replies c = xs @ (i, ctx, r) # ys" and i: "i < length (cf_isos c)"
    and a: "acceptGrant wait (c_cacheKey ctx) (granted_row r) (readCap limit) (c_moment ctx) (ctx_bucket own ctx) (cf_isos c ! i) = (ok, st')"
  shows "lease_inv own limit (admit ok (ctx_bucket own ctx) ((set_iso i st' c)\<lparr>cf_replies := xs @ ys\<rparr>))"
proof (rule lease_inv_bound [OF inv])
  let ?d = "(set_iso i st' c)\<lparr>cf_replies := xs @ ys\<rparr>"
  let ?c = "admit ok (ctx_bucket own ctx) ?d"
  from inv q have rok: "reply_ok (i, ctx, r)" by (simp add: lease_inv_def parts_ok_def)
  then have ctx: "ctx_ok ctx" by (simp add: reply_ok_def)
  note m = acceptGrant_holds [OF iso_of_inv [OF inv i] ctx_ok_bucket [OF ctx, symmetric] a]
  have "parts_ok own (set_iso i st' c)" using inv m by (simp add: lease_inv_def parts_ok_set_iso)
  then have "parts_ok own ?d" using q by (simp add: parts_ok_def set_iso_def)
  then show "parts_ok own ?c" by (rule parts_ok_admit)
  have fl: "in_flight own b ?d = in_flight own b (set_iso i st' c) - reply_part own b (i, ctx, r)" for b
    using q by (simp add: in_flight_def set_iso_def)
  have gr: "granted_of (granted_row r) = (case r of None \<Rightarrow> 0 | Some (h, g) \<Rightarrow> g)"
    by (simp add: granted_of_def granted_row_def split: option.splits)
  have nn: "0 \<le> reply_part own b (i, ctx, r)" for b
    using rok by (auto simp: reply_part_def reply_ok_def split: option.splits)
  show "cf_admitted ?c b + in_flight own b ?c - debt b ?c \<le> cf_admitted c b + in_flight own b c - debt b c" for b
  proof -
    have rp: "reply_part own b (i, ctx, r) = (if ctx_bucket own ctx = b then granted_of (granted_row r) else 0)"
      by (simp add: reply_part_def gr)
    have "outstanding b st' + (if ok \<and> b = ctx_bucket own ctx then 1 else 0)
        \<le> outstanding b (cf_isos c ! i) + reply_part own b (i, ctx, r)"
      using m [of b] nn [of b] rp by (cases ok; cases "ctx_bucket own ctx = b") auto
    then show ?thesis using i by (simp add: admitted_admit fl in_flight_set_iso)
  qed
qed simp

lemma readCap_range: "1 \<le> limit \<Longrightarrow> 0 \<le> readCap limit \<and> readCap limit \<le> limit"
  using int_div_lower [of 10 limit] by (auto simp: readCap_def)

lemma grant_keeps:
  assumes inv: "lease_inv own limit c" and L: "1 \<le> limit" and q: "cf_queries c = xs @ (i, ctx) # ys"
    and p: "p = rateParams (c_hash ctx) (c_moment ctx) limit (c_batch ctx) (c_release ctx)"
    and g: "grant_sql (cf_table c) (ctx_bucket own ctx) (rp_expires p) (rp_cap p) (rp_batch p) (rp_release p) = (r, t')"
  shows "lease_inv own limit (c\<lparr>cf_queries := xs @ ys, cf_table := t', cf_replies := (i, ctx, r) # cf_replies c\<rparr>)"
proof -
  let ?c = "c\<lparr>cf_queries := xs @ ys, cf_table := t', cf_replies := (i, ctx, r) # cf_replies c\<rparr>"
  let ?b = "ctx_bucket own ctx"
  from inv have ok: "parts_ok own c" and cov: "covered own limit c" by (simp_all add: lease_inv_def)
  from ok q have ctx: "ctx_ok ctx" by (simp add: parts_ok_def)
  have rel: "rp_release p = c_release ctx" "0 \<le> rp_release p" and batch: "1 \<le> rp_batch p"
    and cap: "rp_cap p = readCap limit" "0 \<le> rp_cap p" "rp_cap p \<le> limit"
    using ctx readCap_range [OF L] by (simp_all add: p rateParams_def ctx_ok_def Let_def)
  define held where "held b = cf_admitted c b + in_flight own b c - query_part own b (i, ctx)" for b
  have bound: "held b + query_part own b (i, ctx) \<le> hits_in (cf_table c) b + debt b c"
    "0 \<le> hits_in (cf_table c) b" "hits_in (cf_table c) b \<le> limit" for b
    using cov by (simp_all add: held_def covered_def)
  have qb: "query_part own ?b (i, ctx) = rp_release p" by (simp add: query_part_def rel)
  note law = counter.grant_count [OF batch cap(2) rel(2) bound(2) g]
  have limit': "hits_in t' ?b \<le> limit"
    using counter.grant_le_limit [OF batch cap(2,3) rel(2) bound(2,3), where ex = "rp_expires p"] g by (metis snd_conv)
  have other: "hits_in t' b = hits_in (cf_table c) b" if "b \<noteq> ?b" for b
    using counter.grant_other [OF that, of "cf_table c" "rp_expires p"] g by (metis snd_conv)
  have parts: "parts_ok own ?c"
    using ok q ctx law by (auto simp: parts_ok_def reply_ok_def)
  have adm: "cf_admitted ?c b + in_flight own b ?c = held b + reply_part own b (i, ctx, r)" "debt b ?c = debt b c" for b
    using q by (simp_all add: held_def in_flight_def)
  have "cf_admitted ?c b + in_flight own b ?c \<le> hits_in t' b + debt b ?c \<and> 0 \<le> hits_in t' b \<and> hits_in t' b \<le> limit" for b
  proof (cases "b = ?b")
    case True
    have "held ?b + reply_part own ?b (i, ctx, r) \<le> hits_in t' ?b + debt ?b c \<and> 0 \<le> hits_in t' ?b"
    proof (cases r)
      case None
      with law bound(1,2) [of ?b] qb rel show ?thesis by (simp add: reply_part_def)
    next
      case (Some hg)
      with law bound(1,2) [of ?b] qb show ?thesis by (cases hg) (simp add: reply_part_def)
    qed
    with limit' True adm [of ?b] show ?thesis by simp
  next
    case False
    then have "query_part own b (i, ctx) = 0" "reply_part own b (i, ctx, r) = 0"
      by (simp_all add: query_part_def reply_part_def)
    with bound [of b] other [OF False] adm [of b] show ?thesis by simp
  qed
  with parts show ?thesis by (simp add: lease_inv_def covered_def)
qed

lemma release_keeps:
  assumes inv: "lease_inv own limit c" and q: "cf_releases c = xs @ (b, n) # ys"
  shows "lease_inv own limit (c\<lparr>cf_releases := xs @ ys, cf_table := release_sql (cf_table c) b n\<rparr>)"
proof -
  let ?c = "c\<lparr>cf_releases := xs @ ys, cf_table := release_sql (cf_table c) b n\<rparr>"
  from inv have ok: "parts_ok own c" and cov: "covered own limit c" by (simp_all add: lease_inv_def)
  from ok q have n: "0 \<le> n" by (simp add: parts_ok_def)
  have parts: "parts_ok own ?c" using ok q by (simp add: parts_ok_def)
  have fl: "in_flight own b' c = in_flight own b' ?c + (if b' = b then n else 0)" for b'
    using q by (simp add: in_flight_def)
  have "cf_admitted ?c b' + in_flight own b' ?c \<le> hits_in (cf_table ?c) b' + debt b' ?c
      \<and> 0 \<le> hits_in (cf_table ?c) b' \<and> hits_in (cf_table ?c) b' \<le> limit" for b'
  proof -
    have c: "cf_admitted c b' + in_flight own b' c \<le> hits_in (cf_table c) b' + debt b' c"
      "0 \<le> hits_in (cf_table c) b'" "hits_in (cf_table c) b' \<le> limit"
      using cov by (simp_all add: covered_def)
    show ?thesis
    proof (cases "b' = b")
      case True
      from counter.give_back_count [OF n, of "cf_table c" b] c fl [of b] True n show ?thesis by simp
    next
      case False
      with c fl [of b'] counter.give_back_other [OF False] show ?thesis by simp
    qed
  qed
  with parts show ?thesis by (simp add: lease_inv_def covered_def)
qed

text \<open>The hits of a purged row are charged.\<close>

lemma purge_keeps:
  assumes inv: "lease_inv own limit c"
  shows "lease_inv own limit (c\<lparr>cf_table := purge_sql now (cf_table c),
    cf_purged := (\<lambda>b. cf_purged c b + (hits_in (cf_table c) b - hits_in (purge_sql now (cf_table c)) b))\<rparr>)"
proof -
  have keep: "hits_in (purge_sql now t) b = hits_in t b \<or> hits_in (purge_sql now t) b = 0" for now t b
    by (auto simp: purge_sql_def hits_in_def split: option.splits)
  have p: "0 \<le> hits_in (purge_sql now (cf_table c)) b \<and> hits_in (purge_sql now (cf_table c)) b \<le> limit" for b
  proof -
    have "0 \<le> hits_in (cf_table c) b" "hits_in (cf_table c) b \<le> limit" using inv by (simp_all add: lease_inv_def covered_def)
    with keep [of now "cf_table c" b] show ?thesis by (elim disjE) simp_all
  qed
  with inv show ?thesis by (simp add: lease_inv_def parts_ok_def covered_def in_flight_def debt_def add.commute add.left_commute)
qed

lemma count_keeps:
  assumes inv: "lease_inv own limit c" and L: "1 \<le> limit" and r: "rate_sql (cf_table c) b ex limit = (r, t')"
  shows "lease_inv own limit (admit (r \<noteq> None) b (c\<lparr>cf_table := t'\<rparr>))"
proof -
  let ?c = "admit (r \<noteq> None) b (c\<lparr>cf_table := t'\<rparr>)"
  from inv have ok: "parts_ok own c" and cov: "covered own limit c" by (simp_all add: lease_inv_def)
  have parts: "parts_ok own ?c" using ok by (intro parts_ok_admit) (simp add: parts_ok_def)
  have fl: "in_flight own b' ?c = in_flight own b' c" for b'
    by (simp only: in_flight_admit) (simp add: in_flight_def)
  have "cf_admitted ?c b' + in_flight own b' ?c \<le> hits_in (cf_table ?c) b' + debt b' ?c
      \<and> 0 \<le> hits_in (cf_table ?c) b' \<and> hits_in (cf_table ?c) b' \<le> limit" for b'
  proof -
    have c: "cf_admitted c b' + in_flight own b' c \<le> hits_in (cf_table c) b' + debt b' c"
      "0 \<le> hits_in (cf_table c) b'" "hits_in (cf_table c) b' \<le> limit"
      using cov by (simp_all add: covered_def)
    note law = rate_sql_count [OF r]
    show ?thesis
    proof (cases "b' = b")
      case True
      with law c L fl [of b] show ?thesis by (cases r) (simp_all add: admitted_admit)
    next
      case False
      with law have "hits_in t' b' = hits_in (cf_table c) b'" by simp
      with False c fl [of b'] show ?thesis by (simp add: admitted_admit)
    qed
  qed
  with parts show ?thesis by (simp add: lease_inv_def covered_def)
qed

lemma lost_keeps:
  assumes "lease_inv own limit c" "cf_table c' = cf_table c" "cf_admitted c' = cf_admitted c" "parts_ok own c'"
    and "\<And>b. in_flight own b c' \<le> in_flight own b c" and "\<And>b. debt b c' = debt b c"
  shows "lease_inv own limit c'"
  using assms(5) by (intro lease_inv_bound [OF assms(1,4,2)]) (simp add: assms(3,6))

lemma empty_isolate_inv: "iso_inv bkt empty_isolate" "outstanding b empty_isolate = 0"
  by (simp_all add: empty_isolate_def iso_inv_def outstanding_def)

lemma forget_token_holds:
  "iso_inv bkt st \<Longrightarrow> forget_token ctx st = (u, st') \<Longrightarrow> iso_inv bkt st' \<and> outstanding b st' \<le> outstanding b st"
proof -
  assume inv: "iso_inv bkt st" and f: "forget_token ctx st = (u, st')"
  then have l: "i_leases st' = i_leases (st\<lparr>i_leases := jm_delete (c_cacheKey ctx) (i_leases st)\<rparr>)"
    by (auto simp: forget_token_def)
  show ?thesis
    using iso_inv_delete [OF inv, of "c_cacheKey ctx"] outstanding_delete [OF inv, of b "c_cacheKey ctx"] part_nonneg [OF inv, of b "c_cacheKey ctx"]
    by (simp add: iso_inv_leases [OF l] outstanding_leases [OF l])
qed

lemma step_keeps:
  assumes "lease_step own limit c c'" and "lease_inv own limit c" and "1 \<le> limit"
  shows "lease_inv own limit c'"
  using assms(1)
proof cases
  case (expire i now key rels st')
  note inv = iso_of_inv [OF assms(2) expire(2)]
  have "\<forall>(b, n) \<in> set rels. 0 \<le> n" using releaseExpired_amounts [OF expire(3)] by auto
  moreover have "outstanding b st' + returned b rels \<le> outstanding b (cf_isos c ! i)" for b
    using releaseExpired_moves(2) [OF inv expire(3), of b] by simp
  ultimately show ?thesis
    unfolding expire(1) using releaseExpired_moves(1) [OF inv expire(3)] expire(2) same_account_inv [OF same_accounts(1) assms(2)]
    by (intro iso_step_keeps) auto
next
  case (token_refused i wait hash moment rid rs st')
  note m = token_step_moves [OF iso_of_inv [OF assms(2) token_refused(2)] token_refused(3)]
  show ?thesis unfolding token_refused(1) using m by (intro iso_step_plain [OF assms(2) token_refused(2)]) force+
next
  case (token_spent i wait hash moment rid ctx st')
  show ?thesis unfolding token_spent(1) by (rule token_spent_keeps [OF assms(2) token_spent(2,3,4)])
next
  case (token_query i wait hash moment rid ctx st')
  show ?thesis unfolding token_query(1) by (rule token_query_keeps [OF assms(2) token_query(2,3,4)])
next
  case (grant xs i ctx ys p r t')
  show ?thesis unfolding grant(1) by (rule grant_keeps [OF assms(2,3) grant(2,3,4)])
next
  case (query_lost xs q ys)
  have p: "parts_ok own c" using assms(2) by (simp add: lease_inv_def)
  then have "0 \<le> query_part own b q" for b
    using query_lost(2) by (cases q) (auto simp: parts_ok_def query_part_def ctx_ok_def)
  then show ?thesis
    unfolding query_lost(1) using p query_lost(2) by (intro lost_keeps [OF assms(2)]) (auto simp: parts_ok_def in_flight_def)
next
  case (reply xs i ctx r ys wait ok st')
  show ?thesis unfolding reply(1) by (rule reply_keeps [OF assms(2) reply(2,3,4)])
next
  case (reply_lost xs q ys)
  have p: "parts_ok own c" using assms(2) by (simp add: lease_inv_def)
  then have "0 \<le> reply_part own b q" for b
    using reply_lost(2) by (cases q) (auto simp: parts_ok_def reply_part_def reply_ok_def split: option.splits)
  then show ?thesis
    unfolding reply_lost(1) using p reply_lost(2) by (intro lost_keeps [OF assms(2)]) (auto simp: parts_ok_def in_flight_def)
next
  case (fire i a r st')
  note m = fireRelease_moves [OF iso_of_inv [OF assms(2) fire(2)] fire(4)]
  have "\<forall>(b, n) \<in> set (fired r). 0 \<le> n" using m [of "[]"] by (auto simp: fired_def split: option.splits)
  moreover have "outstanding b st' + returned b (fired r) \<le> outstanding b (cf_isos c ! i)" for b
    using m [of b] by (cases r) (auto simp: fired_def)
  ultimately show ?thesis unfolding fire(1) using m by (intro iso_step_keeps [OF assms(2) fire(2)]) auto
next
  case (finish i key ob)
  show ?thesis
    unfolding finish(1) using finishRelease_keeps [OF iso_of_inv [OF assms(2) finish(2)]]
    by (intro iso_step_plain [OF assms(2) finish(2)]) auto
next
  case (release xs b n ys)
  show ?thesis unfolding release(1) by (rule release_keeps [OF assms(2) release(2)])
next
  case (release_lost xs q ys)
  have p: "parts_ok own c" using assms(2) by (simp add: lease_inv_def)
  then have "0 \<le> returned b [q]" for b using release_lost(2) by (intro returned_nonneg) (auto simp: parts_ok_def)
  then have "in_flight own b (c\<lparr>cf_releases := xs @ ys\<rparr>) \<le> in_flight own b c" for b
    using release_lost(2) by (cases q) (simp add: in_flight_def)
  then show ?thesis
    unfolding release_lost(1) using p release_lost(2) by (intro lost_keeps [OF assms(2)]) (auto simp: parts_ok_def)
next
  case (sign_out i hash)
  show ?thesis unfolding sign_out(1) by (rule turn_keeps [OF assms(2) sign_out(2)])
next
  case (sign_out_turn xs i key rest ys)
  let ?d = "c\<lparr>cf_clears := xs @ ys\<rparr>"
  have d: "lease_inv own limit ?d" "cf_isos ?d = cf_isos c" using same_account_inv [OF same_accounts(3) assms(2)] by blast+
  note iso = iso_of_inv [OF assms(2) sign_out_turn(3)]
  have "outstanding b (drop_lease key (cf_isos c ! i)) \<le> outstanding b (cf_isos c ! i)" for b
    using outstanding_drop [OF iso, of b key] part_nonneg [OF iso, of b key] by simp
  then have "lease_inv own limit (set_iso i (drop_lease key (cf_isos c ! i)) ?d)"
    using d sign_out_turn(3) iso_inv_drop [OF iso] by (intro iso_step_plain) auto
  then show ?thesis
    unfolding sign_out_turn(1) using sign_out_turn(3) by (intro turn_keeps) (simp_all add: set_iso_def)
next
  case (forget i ctx u st')
  show ?thesis
    unfolding forget(1) using forget_token_holds [OF iso_of_inv [OF assms(2) forget(2)] forget(3)]
    by (intro iso_step_plain [OF assms(2) forget(2)]) auto
next
  case (count b ex r t')
  show ?thesis unfolding count(1) by (rule count_keeps [OF assms(2,3) count(2)])
next
  case (purge now)
  show ?thesis unfolding purge(1) by (rule purge_keeps [OF assms(2)])
next
  case (restart i)
  have d: "lease_inv own limit (stop_clears i c)" "cf_isos (stop_clears i c) = cf_isos c"
    using same_account_inv [OF same_accounts(4) assms(2)] by blast+
  show ?thesis
    unfolding restart(1) using outstanding_nonneg [OF iso_of_inv [OF assms(2) restart(2)]] d restart(2)
    by (intro iso_step_plain) (simp_all add: empty_isolate_inv)
qed

lemma reach_inv: "lease_reach own limit n c \<Longrightarrow> 1 \<le> limit \<Longrightarrow> lease_inv own limit c"
proof (induction rule: lease_reach.induct)
  case start
  then show ?case
    by (simp add: start_def lease_inv_def parts_ok_def covered_def in_flight_def empty_isolate_inv hits_in_def debt_def
        map_replicate_const sum_list_replicate)
next
  case (step c c')
  then show ?case using step_keeps by blast
qed

text \<open>C1: Shared quota. However many isolates run, in whatever order their requests, grants,
  returns, timers and the turns of their sign-outs interleave, and whichever statements or replies
  are lost, the hits in a row never exceed the limit, and the requests let through on a bucket
  never exceed the hits its row shows by more than two named amounts: the hits of rows of the
  bucket that were purged after their expiry, and the hits that a sign-out gave back from a lease
  that another request had replaced or dropped between the capture and the return.\<close>

theorem quota_safety:
  assumes "lease_reach own limit n c" and "1 \<le> limit"
  shows "0 \<le> cf_admitted c b \<and> cf_admitted c b \<le> hits_in (cf_table c) b + cf_stale c b + cf_purged c b
    \<and> hits_in (cf_table c) b \<le> limit"
proof -
  have inv: "parts_ok own c" "covered own limit c" using reach_inv [OF assms] by (simp_all add: lease_inv_def)
  have "cf_admitted c b + in_flight own b c \<le> hits_in (cf_table c) b + debt b c" "hits_in (cf_table c) b \<le> limit"
    using inv(2) by (simp_all add: covered_def)
  with in_flight_nonneg [OF inv(1), of b] parts_nonneg(5) [OF inv(1), of b] show ?thesis by (simp add: debt_def)
qed

text \<open>Two isolates; the Python worker counts one request of the bucket.\<close>

theorem quota_safety_witness:
  "\<exists>c. lease_reach (\<lambda>_. ''u1'') 600 2 c \<and> cf_admitted c ''user:u1:7'' = 1
     \<and> cf_admitted c ''user:u1:7'' \<le> hits_in (cf_table c) ''user:u1:7'' + cf_stale c ''user:u1:7'' + cf_purged c ''user:u1:7''"
proof -
  let ?own = "\<lambda>_ :: string. ''u1''"
  obtain r t' where r: "rate_sql (cf_table (start 2)) ''user:u1:7'' 540 600 = (r, t')" by force
  let ?c = "admit (r \<noteq> None) ''user:u1:7'' ((start 2)\<lparr>cf_table := t'\<rparr>)"
  have c: "lease_reach ?own 600 2 ?c"
    by (rule lease_reach.step [OF lease_reach.start lease_step.count [OF r]])
  have "cf_admitted ?c ''user:u1:7'' = 1" using r by (auto simp: rate_sql_def start_def admit_def)
  moreover from quota_safety [OF c, of "''user:u1:7''"]
  have "cf_admitted ?c ''user:u1:7'' \<le> hits_in (cf_table ?c) ''user:u1:7'' + cf_stale ?c ''user:u1:7'' + cf_purged ?c ''user:u1:7''"
    by simp
  ultimately show ?thesis using c by blast
qed
end
