(* ===== verification/Catalog.thy ===== *)
theory Catalog
  imports Gw_Auth
begin

text \<open>
  The static routes of the gateway: \<open>models.ts\<close>, \<open>routes/catalog.ts\<close>, \<open>routes/health.ts\<close> and
  \<open>routes/auth.ts\<close>.
\<close>

subsection \<open>The model catalogue\<close>

definition AI_PROVIDERS :: "string list" where
  "AI_PROVIDERS = [''OPENAI'', ''OPENROUTER'', ''CLAUDE'', ''GEMINI'', ''GROK'']"

definition EFFORTS :: "string list" where
  "EFFORTS = [''LOW'', ''MEDIUM'', ''HIGH'', ''MAX'']"

record model_row =
  md_provider :: string
  md_model :: string
  md_label :: string
  md_available :: bool
  md_efforts :: "string list"

definition OPENAI_MODELS :: "(string \<times> string \<times> string) list" where
  "OPENAI_MODELS =
     [(''OPENAI'', ''deepseek/deepseek-v4.1-flash'', ''DeepSeek V4.1 Flash''),
      (''OPENAI'', ''opencode-go/deepseek-v4.1-flash'', ''DeepSeek V4.1 Flash Go''),
      (''OPENAI'', ''openai/gpt-5.6-luna'', ''GPT-5.6 Luna''),
      (''OPENAI'', ''openai/gpt-5.6-terra'', ''GPT-5.6 Terra''),
      (''OPENAI'', ''openai/gpt-5.6-sol'', ''GPT-5.6 Sol'')]"

definition validProvider :: "string \<Rightarrow> bool" where
  "validProvider v \<longleftrightarrow> v \<in> set AI_PROVIDERS"

definition listModels :: "string \<Rightarrow> bool \<Rightarrow> bool \<Rightarrow> model_row list" where
  "listModels provider managedAi managedGo =
     map (\<lambda>(p, m, label). \<lparr>md_provider = p, md_model = m, md_label = label,
           md_available = (if startsWith m ''opencode-go/'' then managedGo else managedAi), md_efforts = EFFORTS\<rparr>)
       (filter (\<lambda>(p, m, label). \<not> (provider \<noteq> [] \<and> provider \<noteq> p)) OPENAI_MODELS)"

definition model_json :: "model_row \<Rightarrow> jv" where
  "model_json m = JObj [(''provider'', JStr (md_provider m)), (''model'', JStr (md_model m)), (''label'', JStr (md_label m)),
     (''available'', JBool (md_available m)), (''supportedEfforts'', JArr (map JStr (md_efforts m)))]"

definition JOB_SITE_CHECKLIST :: "string list" where
  "JOB_SITE_CHECKLIST =
     [''Open the job posting in the built-in browser'',
      ''Review the extracted fields against the posting'',
      ''Upload finalized documents manually'',
      ''Confirm submission in the site UI'',
      ''Record the submission via POST /applications/:id/submission-drafts'']"

definition jobSitesBody :: jv where
  "jobSitesBody = JObj [(''data'', JArr (map (\<lambda>provider. JObj
     [(''provider'', JStr provider), (''enabled'', JBool False), (''permissionVerified'', JBool False),
      (''mode'', JStr ''MANUAL_CHECKLIST''), (''supportedFields'', JArr []),
      (''checklist'', JArr (map JStr JOB_SITE_CHECKLIST))]) [''WANTED'', ''JUMPIT'', ''JOBKOREA'']))]"

subsection \<open>Printing a number\<close>

text \<open>\<open>String(n)\<close> below \<open>10 ^ 21\<close>, to 20 fraction digits.\<close>

fun frac_digits :: "nat \<Rightarrow> rat \<Rightarrow> string" where
  "frac_digits 0 r = []"
| "frac_digits (Suc n) r =
     (if r = 0 then [] else (let t = 10 * r; d = \<lfloor>t\<rfloor> in digit_char (nat d) # frac_digits n (t - of_int d)))"

definition num_text :: "jsnum \<Rightarrow> string" where
  "num_text n = (case n of
       NaN \<Rightarrow> ''NaN'' | PosInf \<Rightarrow> ''Infinity'' | NegInf \<Rightarrow> ''-Infinity''
     | Fin q \<Rightarrow> (let a = \<bar>q\<bar>; i = \<lfloor>a\<rfloor>; f = a - of_int i
        in (if q < 0 then ''-'' else []) @ int_dec i @ (if f = 0 then [] else ''.'' @ frac_digits 20 f)))"

text \<open>\<open>Math.max(1, Number(raw || dflt) || dflt)\<close>\<close>

definition positive_number :: "string option \<Rightarrow> string \<Rightarrow> int \<Rightarrow> jsnum" where
  "positive_number raw text dflt =
     (case num_of_string (or_else (or_empty raw) text) of
        NaN \<Rightarrow> Fin (of_int dflt)
      | PosInf \<Rightarrow> PosInf
      | NegInf \<Rightarrow> Fin 1
      | Fin q \<Rightarrow> if q = 0 then Fin (of_int dflt) else Fin (max 1 q))"

subsection \<open>The routes\<close>

definition aiModels :: "request \<Rightarrow> env \<Rightarrow> 'w deps \<Rightarrow> string \<Rightarrow> rate_limits \<Rightarrow> int \<Rightarrow> ('w, response + response) prog" where
  "aiModels rq e d rid limits now =
     unless_response (requireUser rq e d rid limits now) (\<lambda>_.
       let provider = search_param rq ''provider'' in
       if provider \<noteq> [] \<and> \<not> validProvider provider
       then ret (Inl (fieldError ''provider'' ''unsupported provider'' rid))
       else ret (Inr (conditional
          (body_text (JObj [(''data'', JArr (map model_json
             (listModels provider (flag (e_MANAGED_AI e)) (flag (e_MANAGED_GO e)))))]))
          rq rid (''private, max-age='' @ num_text (positive_number (e_MODEL_CACHE_TTL e) ''600'' 600)))))"

definition jobSites :: "request \<Rightarrow> env \<Rightarrow> 'w deps \<Rightarrow> string \<Rightarrow> rate_limits \<Rightarrow> int \<Rightarrow> ('w, response + response) prog" where
  "jobSites rq e d rid limits now =
     unless_response (requireUser rq e d rid limits now) (\<lambda>_.
       ret (Inr (conditional (body_text jobSitesBody) rq rid
         (''public, max-age='' @ num_text (positive_number (e_JOB_SITES_CACHE_TTL e) ''3600'' 3600)))))"

definition health :: "request \<Rightarrow> 'w deps \<Rightarrow> string \<Rightarrow> string \<Rightarrow> rate_limits \<Rightarrow> int \<Rightarrow> ('w, response) prog" where
  "health rq d path rid limits now =
     (let ok = ret (jsonResponse 200 (JObj [(''data'', JObj [(''status'', JStr ''ok'')])]) rid) in
      if path = ''/api/v1/healthz''
      then and_then (shared_allow d ''ip'' (clientIp rq) (lim_public limits) (lim_window limits) now)
             (\<lambda>allowed. if allowed then ok else ret (rate_limited rid))
      else ok)"

definition opt_json :: "string option \<Rightarrow> jv" where
  "opt_json v = (case v of None \<Rightarrow> JNull | Some s \<Rightarrow> JStr s)"

definition account_text :: "account_type \<Rightarrow> string" where
  "account_text a = (case a of PERSONAL \<Rightarrow> ''PERSONAL'' | EMPLOYER \<Rightarrow> ''EMPLOYER'')"

definition user_json :: "user \<Rightarrow> jv" where
  "user_json u = JObj
     [(''id'', JStr (u_id u)), (''displayName'', JStr (u_displayName u)), (''locale'', JStr (u_locale u)),
      (''createdAt'', JStr (u_createdAt u)), (''accountType'', JStr (account_text (u_accountType u))),
      (''companyId'', opt_json (u_companyId u)), (''companyRole'', opt_json (u_companyRole u)),
      (''email'', JStr (u_email u)), (''provider'', JStr (u_provider u)), (''plan'', JStr (u_plan u))]"

definition authMe :: "request \<Rightarrow> env \<Rightarrow> 'w deps \<Rightarrow> string \<Rightarrow> rate_limits \<Rightarrow> int \<Rightarrow> ('w, response + response) prog" where
  "authMe rq e d rid limits now =
     unless_response (requireUser rq e d rid limits now) (\<lambda>u.
       ret (Inr (conditional (body_text (JObj [(''data'', user_json u)])) rq rid USER_CACHE_CONTROL)))"

text \<open>The response of a route that returns it on either side.\<close>

definition either :: "('w, response + response) prog \<Rightarrow> ('w, response) prog" where
  "either m = and_then m (\<lambda>r. ret (case r of Inl rs \<Rightarrow> rs | Inr rs \<Rightarrow> rs))"

end
