(* ===== verification/Cursor.thy ===== *)
theory Cursor
  imports Clock
begin

text \<open>
  The opaque page cursors of \<open>services/gateway/src/time.ts\<close>: \<open>timestamp|id\<close> in unpadded
  URL-safe Base64. \<open>btoa\<close> and \<open>atob\<close> are the WHATWG functions (\<open>atob\<close> is the forgiving
  decoder); the round trips below make a cursor handed out by a page the position it was
  taken from.
\<close>

subsection \<open>Base64\<close>

definition b64_alphabet :: string where
  "b64_alphabet = ''ABCDEFGHIJKLMNOPQRSTUVWXYZabcdefghijklmnopqrstuvwxyz0123456789+/''"

definition b64_char :: "nat \<Rightarrow> char" where
  "b64_char n =
     (if n < 26 then char_of (65 + n) else if n < 52 then char_of (71 + n)
      else if n < 62 then char_of (n - 4) else if n = 62 then CHR ''+'' else CHR ''/'')"

definition b64_val :: "char \<Rightarrow> nat option" where
  "b64_val c =
     (let n = code_unit c in
      if 65 \<le> n \<and> n \<le> 90 then Some (n - 65) else if 97 \<le> n \<and> n \<le> 122 then Some (n - 71)
      else if 48 \<le> n \<and> n \<le> 57 then Some (n + 4) else if n = 43 then Some 62
      else if n = 47 then Some 63 else None)"

fun btoa :: "string \<Rightarrow> string" where
  "btoa [] = []"
| "btoa [a] = (let x = code_unit a in [b64_char (x div 4), b64_char (x mod 4 * 16), CHR ''='', CHR ''=''])"
| "btoa [a, b] = (let x = code_unit a; y = code_unit b in
     [b64_char (x div 4), b64_char (x mod 4 * 16 + y div 16), b64_char (y mod 16 * 4), CHR ''=''])"
| "btoa (a # b # c # r) = (let x = code_unit a; y = code_unit b; z = code_unit c in
     b64_char (x div 4) # b64_char (x mod 4 * 16 + y div 16) # b64_char (y mod 16 * 4 + z div 64)
       # b64_char (z mod 64) # btoa r)"

definition strip_padding :: "string \<Rightarrow> string" where
  "strip_padding s =
     (if length s mod 4 = 0 then
        (if endsWith s ''=='' then take (length s - 2) s
         else if endsWith s ''='' then take (length s - 1) s else s)
      else s)"

fun sextet_vals :: "string \<Rightarrow> nat list option" where
  "sextet_vals [] = Some []"
| "sextet_vals (c # s) = (case b64_val c of None \<Rightarrow> None
     | Some v \<Rightarrow> (case sextet_vals s of None \<Rightarrow> None | Some vs \<Rightarrow> Some (v # vs)))"

fun sextet_bytes :: "nat list \<Rightarrow> string" where
  "sextet_bytes (a # b # c # d # r) =
     char_of (a * 4 + b div 16) # char_of (b mod 16 * 16 + c div 4) # char_of (c mod 4 * 64 + d) # sextet_bytes r"
| "sextet_bytes [a, b, c] = [char_of (a * 4 + b div 16), char_of (b mod 16 * 16 + c div 4)]"
| "sextet_bytes [a, b] = [char_of (a * 4 + b div 16)]"
| "sextet_bytes _ = []"

definition ascii_space :: "char \<Rightarrow> bool" where
  "ascii_space c \<longleftrightarrow> code_unit c \<in> {9, 10, 12, 13, 32}"

text \<open>\<open>None\<close> is the thrown \<open>InvalidCharacterError\<close>.\<close>

definition atob :: "string \<Rightarrow> string option" where
  "atob s =
     (let t = strip_padding (filter (\<lambda>c. \<not> ascii_space c) s)
      in if length t mod 4 = 1 then None else map_option sextet_bytes (sextet_vals t))"

subsection \<open>Cursors\<close>

definition to_url_safe :: "string \<Rightarrow> string" where
  "to_url_safe s = replace_char (CHR ''/'') (CHR ''_'') (replace_char (CHR ''+'') (CHR ''-'') s)"

definition from_url_safe :: "string \<Rightarrow> string" where
  "from_url_safe s = replace_char (CHR ''_'') (CHR ''/'') (replace_char (CHR ''-'') (CHR ''+'') s)"

text \<open>\<open>s.replace(/=+$/, "")\<close>\<close>

definition drop_trailing_eq :: "string \<Rightarrow> string" where
  "drop_trailing_eq s = rev (dropWhile (\<lambda>c. c = CHR ''='') (rev s))"

definition encodeCursor :: "(string \<Rightarrow> int option) \<Rightarrow> time_value \<Rightarrow> string \<Rightarrow> string option" where
  "encodeCursor dp createdAt ident =
     (case formatCursorTimestamp dp createdAt of
        None \<Rightarrow> None
      | Some stamp \<Rightarrow> Some (drop_trailing_eq (to_url_safe (btoa (stamp @ CHR ''|'' # ident)))))"

text \<open>The text before and after the first bar, \<open>None\<close> when there is none.\<close>

definition split_bar :: "string \<Rightarrow> (string \<times> string) option" where
  "split_bar s = (case dropWhile (\<lambda>c. c \<noteq> CHR ''|'') s of
       [] \<Rightarrow> None
     | _ # r \<Rightarrow> Some (takeWhile (\<lambda>c. c \<noteq> CHR ''|'') s, r))"

text \<open>\<open>None\<close> is the thrown \<open>bad cursor\<close>.\<close>

definition decodeCursor :: "(string \<Rightarrow> int option) \<Rightarrow> string \<Rightarrow> (string \<times> string) option" where
  "decodeCursor dp s =
     (let padded = from_url_safe s @ replicate ((4 - length s mod 4) mod 4) (CHR ''='')
      in case atob padded of
           None \<Rightarrow> None
         | Some raw \<Rightarrow>
             (case split_bar raw of
                None \<Rightarrow> None
              | Some (createdAt, ident) \<Rightarrow>
                  if createdAt = [] \<or> ident = [] then None
                  else (case parseUtc dp (TText createdAt) of
                          None \<Rightarrow> None | Some _ \<Rightarrow> Some (createdAt, ident))))"

subsection \<open>Base64 round trip\<close>

lemma code_unit_less: "code_unit c < 256"
  using range_nat_of_char by auto

lemma b64_val_char [simp]: "n < 64 \<Longrightarrow> b64_val (b64_char n) = Some n"
  by (auto simp: b64_val_def b64_char_def of_char_of Let_def split: if_splits)

definition b64_ok :: "char \<Rightarrow> bool" where
  "b64_ok c \<longleftrightarrow> b64_val c \<noteq> None"

lemma b64_ok_char [simp]: "n < 64 \<Longrightarrow> b64_ok (b64_char n)"
  by (simp add: b64_ok_def)

text \<open>The Base64 text without its padding.\<close>

fun b64_body :: "string \<Rightarrow> string" where
  "b64_body [] = []"
| "b64_body [a] = (let x = code_unit a in [b64_char (x div 4), b64_char (x mod 4 * 16)])"
| "b64_body [a, b] = (let x = code_unit a; y = code_unit b in
     [b64_char (x div 4), b64_char (x mod 4 * 16 + y div 16), b64_char (y mod 16 * 4)])"
| "b64_body (a # b # c # r) = (let x = code_unit a; y = code_unit b; z = code_unit c in
     b64_char (x div 4) # b64_char (x mod 4 * 16 + y div 16) # b64_char (y mod 16 * 4 + z div 64)
       # b64_char (z mod 64) # b64_body r)"

lemma sextet_ranges [simp]:
  "code_unit a div 4 < 64" "code_unit a mod 4 * 16 < 64" "code_unit a mod 4 * 16 + code_unit b div 16 < 64"
  "code_unit b mod 16 * 4 < 64" "code_unit b mod 16 * 4 + code_unit c div 64 < 64" "code_unit c mod 64 < 64"
  using code_unit_less [of a] code_unit_less [of b] code_unit_less [of c] by linarith+

lemma b64_body_ok: "list_all b64_ok (b64_body s)"
  by (induction s rule: b64_body.induct) (simp_all add: Let_def)

lemma sextet_parts [simp]:
  "code_unit b div 16 div 16 = 0" "code_unit b div 16 mod 16 = code_unit b div 16"
  "code_unit c div 64 div 4 = 0" "code_unit c div 64 mod 4 = code_unit c div 64"
proof -
  have "code_unit b div 16 < 16" "code_unit c div 64 < 4"
    using code_unit_less [of b] code_unit_less [of c] by linarith+
  then show "code_unit b div 16 div 16 = 0" "code_unit b div 16 mod 16 = code_unit b div 16"
    "code_unit c div 64 div 4 = 0" "code_unit c div 64 mod 4 = code_unit c div 64" by simp_all
qed

lemma sextets_body: "\<exists>vs. sextet_vals (b64_body s) = Some vs \<and> sextet_bytes vs = s"
proof (induction s rule: b64_body.induct)
  case (4 a b c r)
  then obtain vs where "sextet_vals (b64_body r) = Some vs" "sextet_bytes vs = r" by blast
  then show ?case
    by (simp add: Let_def)
qed (simp_all add: Let_def)

lemma btoa_body:
  "btoa s = b64_body s @ replicate ((4 - length (b64_body s) mod 4) mod 4) (CHR ''='')"
  by (induction s rule: b64_body.induct) (simp_all add: Let_def numeral_2_eq_2)

lemma length_b64_body: "length (b64_body s) mod 4 = 0 \<or> length (b64_body s) mod 4 = 2 \<or> length (b64_body s) mod 4 = 3"
  by (induction s rule: b64_body.induct) (simp_all add: Let_def)

lemma eq_not_b64: "b64_val (CHR ''='') = None"
  by (simp add: b64_val_def)

lemma b64_ok_not_special:
  assumes "b64_ok c"
  shows "c \<noteq> CHR ''=''" "c \<noteq> CHR ''-''" "c \<noteq> CHR ''_''" "\<not> ascii_space c"
  using assms by (auto simp: b64_ok_def b64_val_def ascii_space_def Let_def)

lemma endsWith_last: "endsWith s p \<Longrightarrow> p \<noteq> [] \<Longrightarrow> last p \<in> set s"
  by (metis append_take_drop_id endsWith_def last_appendR last_in_set append_is_Nil_conv)

lemma endsWith_append [simp]: "endsWith (s @ p) p"
  by (simp add: endsWith_def)

lemma strip_padding_body:
  assumes ok: "list_all b64_ok s" and len: "length s mod 4 = 0 \<or> length s mod 4 = 2 \<or> length s mod 4 = 3"
  shows "strip_padding (s @ replicate ((4 - length s mod 4) mod 4) (CHR ''='')) = s"
proof -
  have no: "CHR ''='' \<notin> set s" using ok b64_ok_not_special(1) by (auto simp: list_all_iff)
  consider "length s mod 4 = 0" | "length s mod 4 = 2" | "length s mod 4 = 3" using len by (elim disjE)
  then show ?thesis
  proof cases
    case 1
    with no endsWith_last [of s "''==''"] endsWith_last [of s "''=''"] show ?thesis
      by (auto simp: strip_padding_def)
  next
    case 2
    have "replicate ((4 - length s mod 4) mod 4) (CHR ''='') = ''==''" using 2 by (simp add: numeral_2_eq_2)
    moreover have "(length s + 2) mod 4 = 0" using 2 by presburger
    ultimately show ?thesis by (simp add: strip_padding_def)
  next
    case 3
    have "replicate ((4 - length s mod 4) mod 4) (CHR ''='') = ''=''" using 3 by simp
    moreover have "(length s + 1) mod 4 = 0" using 3 by presburger
    moreover have "\<not> endsWith (s @ ''='') ''==''"
      using no by (cases s rule: rev_cases) (auto simp: endsWith_def)
    ultimately show ?thesis by (simp add: strip_padding_def)
  qed
qed

lemma atob_padded_body:
  "atob (b64_body s @ replicate ((4 - length (b64_body s) mod 4) mod 4) (CHR ''='')) = Some s"
proof -
  let ?p = "b64_body s @ replicate ((4 - length (b64_body s) mod 4) mod 4) (CHR ''='')"
  have "filter (\<lambda>c. \<not> ascii_space c) ?p = ?p"
    using b64_body_ok [of s] b64_ok_not_special(4)
    by (auto simp: list_all_iff ascii_space_def intro!: filter_True)
  then show ?thesis
    using strip_padding_body [OF b64_body_ok length_b64_body, of s] sextets_body [of s] length_b64_body [of s]
    by (auto simp: atob_def)
qed

lemma atob_btoa: "atob (btoa s) = Some s"
  using atob_padded_body [of s] btoa_body [of s] by simp

subsection \<open>Cursor round trip\<close>

lemma url_safe_inverse: "list_all b64_ok s \<Longrightarrow> from_url_safe (to_url_safe s) = s"
  by (induction s) (auto simp: from_url_safe_def to_url_safe_def replace_char_def b64_ok_not_special)

lemma drop_eq_append:
  "CHR ''='' \<notin> set s \<Longrightarrow> drop_trailing_eq (s @ replicate n (CHR ''='')) = s"
proof -
  assume no: "CHR ''='' \<notin> set s"
  then have "dropWhile (\<lambda>c. c = CHR ''='') (rev s) = rev s" by (cases s rule: rev_cases) auto
  then have "dropWhile (\<lambda>c. c = CHR ''='') (replicate n (CHR ''='') @ rev s) = rev s"
    by (induction n) auto
  then show ?thesis by (simp add: drop_trailing_eq_def)
qed

lemma url_btoa: "drop_trailing_eq (to_url_safe (btoa s)) = to_url_safe (b64_body s)"
proof -
  have "CHR ''='' \<notin> set (to_url_safe (b64_body s))"
    using b64_body_ok [of s] b64_ok_not_special(1)
    by (auto simp: to_url_safe_def replace_char_def list_all_iff split: if_splits)
  moreover have "to_url_safe (btoa s) = to_url_safe (b64_body s)
      @ replicate ((4 - length (b64_body s) mod 4) mod 4) (CHR ''='')"
    by (subst btoa_body) (simp add: to_url_safe_def replace_char_def)
  ultimately show ?thesis by (simp add: drop_eq_append)
qed

lemma url_atob:
  "atob (from_url_safe (to_url_safe (b64_body s))
     @ replicate ((4 - length (to_url_safe (b64_body s)) mod 4) mod 4) (CHR ''='')) = Some s"
  using atob_padded_body [of s]
  by (simp add: url_safe_inverse b64_body_ok) (simp add: to_url_safe_def replace_char_def)

lemma split_bar_append: "CHR ''|'' \<notin> set a \<Longrightarrow> split_bar (a @ CHR ''|'' # b) = Some (a, b)"
proof -
  assume no: "CHR ''|'' \<notin> set a"
  then have "takeWhile (\<lambda>c. c \<noteq> CHR ''|'') (a @ CHR ''|'' # b) = a"
    "dropWhile (\<lambda>c. c \<noteq> CHR ''|'') (a @ CHR ''|'' # b) = CHR ''|'' # b"
    by (induction a) auto
  then show ?thesis by (simp add: split_bar_def)
qed

lemma digits_no_bar: "list_all is_digit s \<Longrightarrow> CHR ''|'' \<notin> set s"
  by (auto simp: list_all_iff is_digit_def)

lemma parts_text_no_bar:
  assumes "printable ms micros"
  shows "CHR ''|'' \<notin> set (parts_text (fromEpoch ms micros))"
proof -
  from assms have "0 \<le> micros" "micros < 10 ^ 6" by (auto simp: printable_def)
  then have "CHR ''|'' \<notin> set (pad micros 6)" using pad_props(2) digits_no_bar by simp
  with fromEpoch_fields [OF assms] show ?thesis
    by (simp add: parts_text_def base_text_def digits_no_bar) (simp add: fromEpoch_def)
qed

lemma decode_encode:
  assumes "parseUtc dp v = Some (fromEpoch ms micros)" and "printable ms micros" and "ident \<noteq> []"
  shows "\<exists>c. encodeCursor dp v ident = Some c
    \<and> decodeCursor dp c = Some (parts_text (fromEpoch ms micros), ident)"
proof -
  let ?t = "parts_text (fromEpoch ms micros)"
  let ?raw = "?t @ CHR ''|'' # ident"
  have enc: "encodeCursor dp v ident = Some (to_url_safe (b64_body ?raw))"
    using assms(1) by (simp add: encodeCursor_def formatCursorTimestamp_def formatJsonTimestamp_def url_btoa)
  have ne: "?t \<noteq> []" by (simp add: parts_text_def base_text_def)
  have "decodeCursor dp (to_url_safe (b64_body ?raw)) = Some (?t, ident)"
    unfolding decodeCursor_def Let_def url_atob
    using assms(3) ne parse_parts_text [OF assms(2)] split_bar_append [OF parts_text_no_bar [OF assms(2)]]
    by simp
  with enc show ?thesis by blast
qed

text \<open>A cursor made for a row (any timestamp the driver or a JSON row yields, with a year of
  four digits) decodes to that row's canonical timestamp, microseconds included, and its id: no
  page boundary is moved by the URL-safe Base64 wrapping, whatever characters the id has.\<close>

theorem cursor_roundtrip:
  assumes "parseUtc dp v = Some (fromEpoch ms micros)" and "printable ms micros" and "ident \<noteq> []"
  shows "\<exists>c. encodeCursor dp v ident = Some c
    \<and> decodeCursor dp c = Some (parts_text (fromEpoch ms micros), ident)"
  using assms by (rule decode_encode)

lemma printable_example: "printable 1785553872345 345678"
  by (simp add: printable_def utc_year_def ms_per_day_def year_from_day_def day_from_year_def Let_def)

theorem cursor_roundtrip_witness:
  "\<exists>c. encodeCursor (\<lambda>_. None) (TText (parts_text (fromEpoch 1785553872345 345678))) ''c|d'' = Some c
    \<and> decodeCursor (\<lambda>_. None) c = Some (parts_text (fromEpoch 1785553872345 345678), ''c|d'')"
  by (rule cursor_roundtrip [OF parse_parts_text [OF printable_example] printable_example]) simp

text \<open>The text of an instant with an explicit zone offset.\<close>

definition zoned_text :: "utc_parts \<Rightarrow> int \<Rightarrow> int \<Rightarrow> int \<Rightarrow> string" where
  "zoned_text p sg hh mm =
     p_y p @ CHR ''-'' # p_mo p @ CHR ''-'' # p_d p @ CHR ''T'' # p_h p @ CHR '':'' # p_mi p @ CHR '':'' # p_s p
       @ (if sg < 0 then CHR ''-'' else CHR ''+'') # pad hh 2 @ CHR '':'' # pad mm 2"

lemma zoned_scan:
  assumes "0 \<le> hh" "hh < 100" "0 \<le> mm" "mm < 100" "sg = 1 \<or> sg = -1"
  defines "tail \<equiv> (if sg < 0 then CHR ''-'' else CHR ''+'') # pad hh 2 @ CHR '':'' # pad mm 2"
  shows "scan_fraction tail = Some ([], tail)" "scan_zone tail = Some (Some (sg, pad hh 2 @ pad mm 2))"
proof -
  from assms have h: "0 \<le> hh" "hh < 10 ^ 2" "0 \<le> mm" "mm < 10 ^ 2" by auto
  note ph = pad_props [OF h(1,2)] pad_props [OF h(3,4)]
  show "scan_fraction tail = Some ([], tail)" by (auto simp: tail_def scan_fraction_def)
  have z: "scan_digits 2 (pad mm 2) = Some (pad mm 2, [])" using ph scan_digits_append [of "pad mm 2" 2 "[]"] by simp
  show "scan_zone tail = Some (Some (sg, pad hh 2 @ pad mm 2))"
    using assms(5) ph by (auto simp: tail_def scan_zone_def z)
qed

text \<open>A timestamp with a zone offset denotes the UTC instant earlier by the offset (later for a
  negative one): \<open>+hh:mm\<close> moves the parsed time by \<open>hh * 60 + mm\<close> minutes and nothing else.\<close>

theorem parse_zone_offset:
  assumes "printable ms 0" and "0 \<le> hh" "hh < 100" "0 \<le> mm" "mm < 100" and "sg = 1 \<or> sg = -1"
  shows "parseUtc dp (TText (zoned_text (fromEpoch ms 0) sg hh mm))
    = Some (fromEpoch (ms - sg * (hh * 60 + mm) * 60000) 0)"
proof -
  define p where "p = fromEpoch ms 0"
  note f = fromEpoch_fields [OF assms(1), folded p_def]
  note z = zoned_scan [OF assms(2-6)]
  from assms have h: "0 \<le> hh" "hh < 10 ^ 2" "0 \<le> mm" "mm < 10 ^ 2" by auto
  note ph = pad_props [OF h(1,2)] pad_props [OF h(3,4)]
  from assms(1) have yr: "1000 \<le> utc_year ms" by (simp add: printable_def)
  let ?s = "zoned_text p sg hh mm"
  have m: "match_stamp ?s = Some \<lparr>st_y = p_y p, st_mo = p_mo p, st_d = p_d p, st_h = p_h p, st_mi = p_mi p,
      st_s = p_s p, st_frac = [], st_zone = Some (sg, pad hh 2 @ pad mm 2)\<rparr>" (is "_ = Some ?m")
    unfolding zoned_text_def by (rule match_stamp_concat [OF f(1-12) z])
  have pmm: "pad mm 2 \<noteq> []" "is_digit (last (pad mm 2))"
    using ph(4,5) by (cases "pad mm 2" rule: rev_cases; auto)+
  have py: "p_y p \<noteq> []" "is_digit (hd (p_y p))"
    using f(1,2) by (cases "p_y p"; auto)+
  have tr: "js_trim ?s = ?s"
    using py pmm by (intro js_trim_id) (simp_all add: zoned_text_def digit_not_space)
  have off: "zone_offset (st_zone ?m) = sg * (hh * 60 + mm)"
    using ph h by (simp add: zone_offset_def)
  have mic: "stamp_micros ?m = 0"
    by (simp add: stamp_micros_def padEnd_def dec_val_def digit_val_def eval_nat_numeral)
  have nn: "0 \<le> utc_month ms" "0 \<le> utc_date ms" "0 \<le> utc_hours ms" "0 \<le> utc_minutes ms" "0 \<le> utc_seconds ms"
    using utc_month_range [of ms] utc_date_range [of ms] by (auto simp: utc_hours_def utc_minutes_def utc_seconds_def)
  have "stamp_ms ?m = date_utc (utc_year ms) (utc_month ms) (utc_date ms) (utc_hours ms)
      (utc_minutes ms - sg * (hh * 60 + mm)) (utc_seconds ms) 0"
    using f(13-18) nn yr mic off by (simp add: stamp_ms_def)
  also have "\<dots> = date_utc (utc_year ms) (utc_month ms) (utc_date ms) (utc_hours ms)
      (utc_minutes ms) (utc_seconds ms) 0 - sg * (hh * 60 + mm) * 60000"
    by (simp add: date_utc_def Let_def left_diff_distrib)
  also have "\<dots> = ms div 1000 * 1000 - sg * (hh * 60 + mm) * 60000"
    using yr by (subst date_utc_split) auto
  finally have st: "stamp_ms ?m = ms div 1000 * 1000 - sg * (hh * 60 + mm) * 60000" .
  have "(ms - sg * (hh * 60 + mm) * 60000) div 1000 = ms div 1000 - sg * (hh * 60 + mm) * 60"
    using div_mult_self1 [of 1000 ms "- (sg * (hh * 60 + mm) * 60)"] by (simp add: algebra_simps)
  with st have "stamp_ms ?m = (ms - sg * (hh * 60 + mm) * 60000) div 1000 * 1000 + 0"
    by (simp only: left_diff_distrib mult.assoc)
  then have "fromEpoch (stamp_ms ?m) 0 = fromEpoch (ms - sg * (hh * 60 + mm) * 60000) 0"
    using fromEpoch_seconds [of 0 "ms - sg * (hh * 60 + mm) * 60000" 0] by (simp only:)
  then show ?thesis
    unfolding p_def [symmetric] by (simp add: parseUtc_def tr m mic)
qed

theorem parse_zone_offset_witness:
  "parseUtc (\<lambda>_. None) (TText (zoned_text (fromEpoch 1785553872000 0) 1 9 0))
    = Some (fromEpoch 1785521472000 0)"
proof -
  have "printable 1785553872000 0"
    by (simp add: printable_def utc_year_def ms_per_day_def year_from_day_def day_from_year_def Let_def)
  from parse_zone_offset [OF this, of 9 0 1] show ?thesis by simp
qed

end
