(* ===== verification/Proxy.thy ===== *)
theory Proxy
  imports Gw_Auth
begin

text \<open>
  \<open>services/gateway/src/routes/proxy.ts\<close>: forwarding to the core worker (a service binding) and
  to the AI service (an HTTPS origin), the headers a worker may see, and the invalidation of the
  isolate's cache after a sign-out.
\<close>

definition MAX_BODY_BYTES :: int where "MAX_BODY_BYTES = 20 * 2 ^ 20"

definition ACT_AS :: "string list" where
  "ACT_AS = [''x-push-internal-secret'', ''x-push-act-as'', ''x-push-company'']"

definition isInternalCall :: "(string \<Rightarrow> string) \<Rightarrow> request \<Rightarrow> env \<Rightarrow> bool" where
  "isInternalCall sha rq e = secretEquals sha (header rq ''x-push-internal-secret'')
     (js_trim (or_empty (e_INTERNAL_API_SECRET e)))"

text \<open>\<open>Number(header) > limit\<close>; a missing header is \<open>null\<close>, which counts as 0.\<close>

definition num_greater :: "jsnum \<Rightarrow> int \<Rightarrow> bool" where
  "num_greater n limit = (case n of Fin q \<Rightarrow> of_int limit < q | PosInf \<Rightarrow> True | _ \<Rightarrow> False)"

definition header_number :: "request \<Rightarrow> string \<Rightarrow> jsnum" where
  "header_number rq name = (case jm_get (rq_headers rq) name of None \<Rightarrow> Fin 0 | Some s \<Rightarrow> num_of_string s)"

definition forward_headers :: "(string, string) jsmap \<Rightarrow> string \<Rightarrow> bool \<Rightarrow> (string, string) jsmap" where
  "forward_headers hs rid keepActAs =
     (let kept = filter (\<lambda>(k, _). \<not> (startsWith k ''x-push-'' \<and> \<not> (keepActAs \<and> k \<in> set ACT_AS))) hs
      in jm_set ''x-request-id'' rid (jm_delete ''host'' kept))"

definition forwardInit :: "request \<Rightarrow> string \<Rightarrow> bool \<Rightarrow> response + request" where
  "forwardInit rq rid keepActAs =
     (if num_greater (header_number rq ''content-length'') MAX_BODY_BYTES
      then Inl (errorResponse 413 ''PAYLOAD_TOO_LARGE'' ''request body too large'' rid)
      else Inr (rq\<lparr>rq_headers := forward_headers (rq_headers rq) rid keepActAs,
                  rq_body := (if rq_method rq \<noteq> ''GET'' \<and> rq_method rq \<noteq> ''HEAD'' then rq_body rq else [])\<rparr>))"

text \<open>\<open>new Response(body, \<dots>)\<close> throws on a status outside 200--599.\<close>

definition relay :: "(exn + response) \<Rightarrow> string \<Rightarrow> exn + response" where
  "relay sent rid =
     (case sent of
        Inl _ \<Rightarrow> Inr (internal_error rid)
      | Inr res \<Rightarrow>
          (let out = (if jm_get (rs_headers res) ''x-request-id'' = None
                      then jm_set ''x-request-id'' rid (rs_headers res) else rs_headers res)
           in if rs_status res \<in> {204, 205, 304}
              then Inr \<lparr>rs_status = rs_status res, rs_headers = out, rs_body = BNone\<rparr>
              else if rs_status res < 200 \<or> 599 < rs_status res then Inl (Error ''invalid status'')
              else Inr (res\<lparr>rs_headers := out\<rparr>)))"

definition on_world :: "('w \<Rightarrow> (exn + 'a) \<times> 'w) \<Rightarrow> 'w gw \<Rightarrow> (exn + 'a) \<times> 'w gw" where
  "on_world f s = (case f (g_w s) of (r, w) \<Rightarrow> (r, s\<lparr>g_w := w\<rparr>))"

definition proxy :: "request \<Rightarrow> 'w deps \<Rightarrow> string \<Rightarrow> bool \<Rightarrow> ('w, response) prog" where
  "proxy rq d rid keepActAs =
     (case d_core d of
        None \<Rightarrow> ret (internal_error rid)
      | Some binding \<Rightarrow>
          (case forwardInit rq rid keepActAs of
             Inl rs \<Rightarrow> ret rs
           | Inr rq' \<Rightarrow> (\<lambda>s. case on_world (binding rq') s of (r, s') \<Rightarrow> (relay r rid, s'))))"

definition strip_slash :: "string \<Rightarrow> string" where
  "strip_slash s = (if endsWith s ''/'' then butlast s else s)"

text \<open>The URL and the request sent to the AI origin.\<close>

definition python_request :: "request \<Rightarrow> env \<Rightarrow> string \<Rightarrow> response + (string \<times> request)" where
  "python_request rq e rid =
     (let origin = strip_slash (js_trim (or_empty (e_AI_ORIGIN e)));
          secret = js_trim (or_empty (e_AI_SHARED_SECRET e))
      in if origin = [] then Inl (errorResponse 500 ''NOT_CONFIGURED'' ''ai origin is not configured'' rid)
         else if secret = [] \<or> \<not> startsWith origin ''https://'' then Inl (internal_error rid)
         else (case forwardInit rq rid False of
                 Inl rs \<Rightarrow> Inl rs
               | Inr rq' \<Rightarrow> Inr (origin @ rq_path rq @ rq_search rq,
                   rq'\<lparr>rq_headers := jm_set ''x-push-ai-secret'' secret (rq_headers rq')\<rparr>)))"

definition proxyPython :: "request \<Rightarrow> env \<Rightarrow> 'w deps \<Rightarrow> string \<Rightarrow> ('w, response) prog" where
  "proxyPython rq e d rid =
     (case python_request rq e rid of
        Inl rs \<Rightarrow> ret rs
      | Inr (url, rq') \<Rightarrow> (\<lambda>s. case on_world (d_fetch d url rq') s of (r, s') \<Rightarrow> (relay r rid, s')))"

definition invalidateAfterWrite :: "request \<Rightarrow> string \<Rightarrow> 'w deps \<Rightarrow> 'w gw \<Rightarrow> 'w gw" where
  "invalidateAfterWrite rq path d s =
     (if path \<noteq> ''/api/v1/auth/logout'' \<and> path \<noteq> ''/api/v1/auth/refresh'' then s
      else case bearer rq of
        None \<Rightarrow> s
      | Some token \<Rightarrow>
          if token = [] then s
          else (let hash = d_sha d token; st = (g_iso s)\<lparr>i_auth := dropAuth (i_auth (g_iso s)) hash\<rparr>;
                    (rels, st') = clearLease hash st
                in run_releases d rels (s\<lparr>g_iso := st'\<rparr>)))"

subsection \<open>What a worker may see\<close>

lemma jm_get_filter_key: "jm_get (filter (\<lambda>(k, _). P k) hs) k = (if P k then jm_get hs k else None)"
  by (induction hs) (auto simp: jm_get_def)

lemma forward_headers_get:
  "jm_get (forward_headers hs rid keep) k =
     (if k = ''x-request-id'' then Some rid
      else if k = ''host'' \<or> (startsWith k ''x-push-'' \<and> \<not> (keep \<and> k \<in> set ACT_AS)) then None
      else jm_get hs k)"
  unfolding forward_headers_def Let_def jm_laws by (simp add: jm_get_filter_key)

text \<open>C32: Trusted headers. Whatever a client sends, the core worker sees an \<open>x-push-\<close> header only
  if it is one of the three act-as headers and the request carries the internal secret; the AI
  service is called over HTTPS only and sees no \<open>x-push-\<close> header except the shared secret the
  gateway sets; both see the gateway's request id and no \<open>host\<close>.\<close>

theorem forwarded_headers_trusted:
  "(\<forall>rq'. forwardInit rq rid (isInternalCall sha rq e) = Inr rq' \<longrightarrow>
      jm_get (rq_headers rq') ''x-request-id'' = Some rid \<and> jm_get (rq_headers rq') ''host'' = None
      \<and> (\<forall>k v. startsWith k ''x-push-'' \<and> jm_get (rq_headers rq') k = Some v \<longrightarrow>
            k \<in> set ACT_AS \<and> header rq ''x-push-internal-secret'' \<noteq> []
            \<and> sha (header rq ''x-push-internal-secret'') = sha (js_trim (or_empty (e_INTERNAL_API_SECRET e)))))
   \<and> (\<forall>url rq'. python_request rq e rid = Inr (url, rq') \<longrightarrow>
        startsWith url ''https://'' \<and> jm_get (rq_headers rq') ''x-request-id'' = Some rid
        \<and> jm_get (rq_headers rq') ''host'' = None
        \<and> (\<forall>k v. startsWith k ''x-push-'' \<and> jm_get (rq_headers rq') k = Some v \<longrightarrow>
              k = ''x-push-ai-secret'' \<and> v = js_trim (or_empty (e_AI_SHARED_SECRET e)) \<and> v \<noteq> []))"
proof (intro conjI allI impI)
  fix rq' assume f: "forwardInit rq rid (isInternalCall sha rq e) = Inr rq'"
  then have h: "rq_headers rq' = forward_headers (rq_headers rq) rid (isInternalCall sha rq e)"
    by (auto simp: forwardInit_def split: if_splits)
  show "jm_get (rq_headers rq') ''x-request-id'' = Some rid" "jm_get (rq_headers rq') ''host'' = None"
    by (simp_all add: h forward_headers_get)
  fix k v assume "startsWith k ''x-push-'' \<and> jm_get (rq_headers rq') k = Some v"
  then have "k \<in> set ACT_AS \<and> isInternalCall sha rq e"
    by (auto simp: h forward_headers_get split: if_splits)
  then show "k \<in> set ACT_AS" "header rq ''x-push-internal-secret'' \<noteq> []"
    "sha (header rq ''x-push-internal-secret'') = sha (js_trim (or_empty (e_INTERNAL_API_SECRET e)))"
    by (simp_all add: isInternalCall_def secretEquals_def)
next
  fix url rq' assume p: "python_request rq e rid = Inr (url, rq')"
  let ?origin = "strip_slash (js_trim (or_empty (e_AI_ORIGIN e)))" and ?secret = "js_trim (or_empty (e_AI_SHARED_SECRET e))"
  from p obtain r0 where r0: "forwardInit rq rid False = Inr r0" "url = ?origin @ rq_path rq @ rq_search rq"
      "rq' = r0\<lparr>rq_headers := jm_set ''x-push-ai-secret'' ?secret (rq_headers r0)\<rparr>"
      and s: "?secret \<noteq> []" "startsWith ?origin ''https://''"
    by (auto simp: python_request_def Let_def split: if_splits sum.splits)
  from s(2) show "startsWith url ''https://''" unfolding r0(2) by (auto elim!: startsWithE)
  from r0(1) have h: "rq_headers r0 = forward_headers (rq_headers rq) rid False"
    by (auto simp: forwardInit_def split: if_splits)
  show "jm_get (rq_headers rq') ''x-request-id'' = Some rid" "jm_get (rq_headers rq') ''host'' = None"
    by (simp_all add: r0(3) h forward_headers_get)
  fix k v assume "startsWith k ''x-push-'' \<and> jm_get (rq_headers rq') k = Some v"
  then show "k = ''x-push-ai-secret''" "v = ?secret" "v \<noteq> []"
    using s(1) by (auto simp: r0(3) h forward_headers_get split: if_splits)
qed

definition demo_env :: env where
  "demo_env = \<lparr>e_APP_ENV = None, e_DEV_AUTH_TOKEN = None, e_DEV_USER_ID = None, e_MANAGED_AI = None,
     e_MANAGED_GO = None, e_SSE_MAX_POLLS = None, e_MODEL_CACHE_TTL = None, e_JOB_SITES_CACHE_TTL = None,
     e_AUTH_CACHE_TTL = None, e_AI_ORIGIN = Some ''https://ai'', e_AI_SHARED_SECRET = Some ''s'',
     e_INTERNAL_API_SECRET = Some ''k''\<rparr>"

text \<open>A client that forges all four headers reaches the AI service with none of its own.\<close>

theorem forwarded_headers_trusted_witness:
  "\<exists>url rq'. python_request \<lparr>rq_method = ''GET'', rq_path = ''/api/v1/operations/1'', rq_search = [], rq_query = [],
       rq_headers = [(''x-push-act-as'', ''u2''), (''x-push-ai-secret'', ''guess'')], rq_body = []\<rparr> demo_env ''r'' = Inr (url, rq')
     \<and> startsWith url ''https://'' \<and> jm_get (rq_headers rq') ''x-push-act-as'' = None"
proof -
  let ?rq = "\<lparr>rq_method = ''GET'', rq_path = ''/api/v1/operations/1'', rq_search = [], rq_query = [],
       rq_headers = [(''x-push-act-as'', ''u2''), (''x-push-ai-secret'', ''guess'')], rq_body = []\<rparr>"
  have t: "js_trim ''https://ai'' = ''https://ai''" "js_trim ''s'' = ''s''"
    by (simp_all add: js_trim_def trimStart_def js_space_def)
  have "\<exists>url rq'. python_request ?rq demo_env ''r'' = Inr (url, rq')"
    by (simp add: python_request_def demo_env_def or_empty_def t strip_slash_def endsWith_def forwardInit_def
        header_number_def jm_get_def num_greater_def MAX_BODY_BYTES_def Let_def)
  then obtain url rq' where p: "python_request ?rq demo_env ''r'' = Inr (url, rq')" by blast
  from forwarded_headers_trusted [of ?rq "''r''" id demo_env] p
  have u: "startsWith url ''https://''" and k: "\<And>k v. startsWith k ''x-push-'' \<Longrightarrow> jm_get (rq_headers rq') k = Some v \<Longrightarrow> k = ''x-push-ai-secret''"
    by blast+
  from k [of "''x-push-act-as''"] have "jm_get (rq_headers rq') ''x-push-act-as'' = None"
    by (cases "jm_get (rq_headers rq') ''x-push-act-as''") auto
  with p u show ?thesis by blast
qed

end
