(* ===== verification/Conversations.thy ===== *)
theory Conversations
  imports Catalog Cursor Proxy
begin

text \<open>
  \<open>services/gateway/src/routes/conversations.ts\<close>: the conversation and message pages, the active
  job of a stream, its cancellation, and the event stream itself.

  The clock is read once per token check: \<open>now 0\<close> is the first reading of a request and \<open>now 1\<close>
  the one of the fallback path. The event stream is the list of frames it sends; \<open>gone k\<close> says
  that the client has hung up by the \<open>k\<close>-th time the loop looks.
\<close>

subsection \<open>Cursors and search patterns\<close>

record cursor_pair =
  cur_at :: "string option"
  cur_id :: "string option"

definition cursorPair :: "(string \<Rightarrow> int option) \<Rightarrow> request \<Rightarrow> string \<Rightarrow> response + cursor_pair" where
  "cursorPair dp rq rid =
     (let cur = search_param rq ''cursor'' in
      if cur = [] then Inr \<lparr>cur_at = None, cur_id = None\<rparr>
      else case decodeCursor dp cur of
        None \<Rightarrow> Inl (fieldError ''cursor'' ''invalid cursor'' rid)
      | Some (stamp, i) \<Rightarrow>
          (case (parseUuid i, formatCursorTimestamp dp (TText stamp)) of
             (Some i', Some stamp') \<Rightarrow> Inr \<lparr>cur_at = Some stamp', cur_id = Some i'\<rparr>
           | _ \<Rightarrow> Inl (fieldError ''cursor'' ''invalid cursor'' rid)))"

definition like_special :: "char \<Rightarrow> bool" where
  "like_special c \<longleftrightarrow> c \<in> {CHR 0x5C, CHR ''%'', CHR ''_''}"

definition like_escape :: "string \<Rightarrow> string" where
  "like_escape s = concat (map (\<lambda>c. if like_special c then [CHR 0x5C, c] else [c]) s)"

definition likePattern :: "string \<Rightarrow> string option" where
  "likePattern raw =
     (let trimmed = js_trim raw in if trimmed = [] then None else Some (''%'' @ like_escape trimmed @ ''%''))"

subsection \<open>Rows to JSON\<close>

definition num_json :: "jv \<Rightarrow> jv" where
  "num_json v = (case js_Number v of Fin q \<Rightarrow> JNum \<lfloor>q\<rfloor> | _ \<Rightarrow> JNull)"

definition text_or_null :: "jv \<Rightarrow> jv" where
  "text_or_null v = (if nullish v then JNull else JStr (js_String v))"

text \<open>\<open>None\<close> is a thrown \<open>bad timestamp\<close>.\<close>

definition conversationJson :: "(string \<Rightarrow> int option) \<Rightarrow> jv \<Rightarrow> jv option" where
  "conversationJson dp row =
     (case (timestamp dp (jget row ''created_at''), timestamp dp (jget row ''updated_at'')) of
        (Some created, Some updated) \<Rightarrow> Some (JObj
          [(''id'', JStr (js_String (jget row ''id''))), (''revision'', num_json (jget row ''revision'')),
           (''applicationId'', text_or_null (jget row ''application_id'')),
           (''title'', JStr (text_or (jget row ''title'') [])), (''pinned'', JBool (asBool (jget row ''pinned''))),
           (''createdAt'', JStr created), (''updatedAt'', JStr updated),
           (''status'', JStr (if blank (jget row ''status'') then ''DONE'' else js_String (jget row ''status''))),
           (''lastLine'', if blank (jget row ''last_line'') then JNull else JStr (js_String (jget row ''last_line''))),
           (''lastMessagePreview'', JStr (take 140 (text_or (jget row ''last_message_preview'') []))),
           (''createdBy'', JObj [(''displayName'', JStr (text_or (jget row ''display_name'') []))]),
           (''postingId'', if blank (jget row ''posting_id'') then JNull else JStr (js_String (jget row ''posting_id'')))])
      | _ \<Rightarrow> None)"

definition is_markdown :: "string \<Rightarrow> string \<Rightarrow> bool" where
  "is_markdown name mime \<longleftrightarrow> endsWith (toLowerCase name) ''.md'' \<or> toLowerCase mime = ''text/markdown''"

definition attachmentJson :: "jv \<Rightarrow> jv option" where
  "attachmentJson a =
     (let title = text_or (jget a ''title'') [];
          name = js_String (coalesce (coalesce (jget a ''name'') (jget a ''fileName'')) (JStr []));
          mime = js_String (coalesce (coalesce (jget a ''mime'') (jget a ''mimeType'')) (JStr []))
      in if endsWith (toLowerCase title) ''.md'' \<or> is_markdown name mime then None
         else Some (JObj ([(''type'', JStr (text_or (jget a ''type'') [])), (''id'', JStr (text_or (jget a ''id'') []))]
           @ (if nullish (jget a ''documentId'') then [] else [(''documentId'', JStr (js_String (jget a ''documentId'')))])
           @ (if nullish (jget a ''title'') then [] else [(''title'', JStr (js_String (jget a ''title'')))]))))"

definition parsed_or :: "(string \<Rightarrow> jv option) \<Rightarrow> jv \<Rightarrow> jv \<Rightarrow> jv" where
  "parsed_or jp fallback v = (case v of JStr s \<Rightarrow> (case jp s of None \<Rightarrow> fallback | Some x \<Rightarrow> x) | _ \<Rightarrow> v)"

definition messageJson :: "(string \<Rightarrow> int option) \<Rightarrow> (string \<Rightarrow> jv option) \<Rightarrow> jv \<Rightarrow> jv option" where
  "messageJson dp jp row =
     (let attachments = parsed_or jp (JArr []) (coalesce (jget row ''attachments'') (JArr []));
          cleaned = (case attachments of JArr vs \<Rightarrow> List.map_filter attachmentJson vs | _ \<Rightarrow> [])
      in map_option (\<lambda>created. JObj
        [(''id'', JStr (js_String (jget row ''id''))), (''conversationId'', JStr (js_String (jget row ''conversation_id''))),
         (''role'', JStr (js_String (jget row ''role''))), (''text'', JStr (text_or (jget row ''text'') [])),
         (''attachments'', JArr cleaned), (''operationId'', text_or_null (jget row ''operation_id'')),
         (''createdAt'', JStr created)]) (timestamp dp (jget row ''created_at'')))"

subsection \<open>Pages\<close>

fun map_rows :: "(jv \<Rightarrow> jv option) \<Rightarrow> jv list \<Rightarrow> jv list option" where
  "map_rows f [] = Some []"
| "map_rows f (r # rs) = (case f r of None \<Rightarrow> None | Some x \<Rightarrow> map_option ((#) x) (map_rows f rs))"

text \<open>\<open>stamp_key\<close> is \<open>updatedAt\<close> for conversations and \<open>createdAt\<close> for messages.\<close>

definition pageBody :: "(string \<Rightarrow> int option) \<Rightarrow> string \<Rightarrow> (jv \<Rightarrow> jv option) \<Rightarrow> jv list \<Rightarrow> nat \<Rightarrow> jv option" where
  "pageBody dp stamp_key f rows limit =
     (let more = limit < length rows in
      case map_rows f (if more then take limit rows else rows) of
        None \<Rightarrow> None
      | Some items \<Rightarrow>
          (let body = (\<lambda>cursor. JObj [(''data'', JArr items),
                 (''page'', JObj [(''nextCursor'', cursor), (''hasMore'', JBool more)])])
           in if more \<and> items \<noteq> []
              then map_option (\<lambda>c. body (JStr c))
                (encodeCursor dp (TText (js_String (jget (last items) stamp_key))) (js_String (jget (last items) ''id'')))
              else Some (body JNull)))"

definition conversation_page :: "'w deps \<Rightarrow> jv list \<Rightarrow> nat \<Rightarrow> jv option" where
  "conversation_page d = pageBody (d_dp d) ''updatedAt'' (conversationJson (d_dp d))"

definition message_page :: "'w deps \<Rightarrow> jv list \<Rightarrow> nat \<Rightarrow> jv option" where
  "message_page d = pageBody (d_dp d) ''createdAt'' (messageJson (d_dp d) (d_jp d))"

definition not_found :: "string \<Rightarrow> response" where
  "not_found rid = errorResponse 404 ''NOT_FOUND'' ''resource not found'' rid"

definition json_of :: "string option \<Rightarrow> jv" where
  "json_of = opt_json"

definition listConversationsFor ::
  "'w deps \<Rightarrow> string \<Rightarrow> string option \<Rightarrow> cursor_pair \<Rightarrow> nat \<Rightarrow> string \<Rightarrow> bool \<Rightarrow> string option \<Rightarrow> bool \<Rightarrow> ('w, response) prog" where
  "listConversationsFor d ownerId appId cursor limit rid employer q archived =
     (let byCursor = (cur_at cursor \<noteq> None \<and> cur_id cursor \<noteq> None);
          params = [JStr ownerId] @ (case appId of None \<Rightarrow> [] | Some a \<Rightarrow> [JStr a])
            @ (if byCursor then [json_of (cur_at cursor), json_of (cur_id cursor)] else [])
            @ [json_of q, JNum (int limit + 1)]
      in and_then (query d (CONVERSATION_PAGE employer (appId \<noteq> None) byCursor archived) params) (\<lambda>rows.
         and_then (of_option ''bad timestamp'' (conversation_page d rows limit)) (\<lambda>body.
         ret (jsonResponse 200 body rid))))"

definition getConversation ::
  "request \<Rightarrow> env \<Rightarrow> 'w deps \<Rightarrow> string \<Rightarrow> string \<Rightarrow> rate_limits \<Rightarrow> int \<Rightarrow> ('w, response + response) prog" where
  "getConversation rq e d rawId rid limits now =
     (case parseUuid rawId of
        None \<Rightarrow> ret (Inl (fieldError ''id'' ''must be a UUID'' rid))
      | Some i \<Rightarrow>
          unless_response (requireUser rq e d rid limits now) (\<lambda>u.
            catching
              (and_then (query d CONVERSATION_ONE [JStr i, JStr (u_id u)]) (\<lambda>rows.
                 case rows of
                   [] \<Rightarrow> ret (Inl (not_found rid))
                 | row # _ \<Rightarrow>
                     and_then (of_option ''bad timestamp'' (conversationJson (d_dp d) row)) (\<lambda>v.
                     ret (Inr (freshRead (jsonResponse 200 (JObj [(''data'', v)]) rid) rq rid)))))
              (\<lambda>_. ret (Inl (internal_error rid)))))"

text \<open>A read for a session that is already authenticated, and the same for the fallback paths.\<close>

definition guarded :: "string \<Rightarrow> ('w, response) prog \<Rightarrow> ('w, response + response) prog" where
  "guarded rid m = catching (and_then m (\<lambda>rs. ret (Inr rs))) (\<lambda>_. ret (Inl (internal_error rid)))"

definition session_user :: "token_ctx \<Rightarrow> env \<Rightarrow> 'w deps \<Rightarrow> string \<Rightarrow> ('w, response + user) prog" where
  "session_user ctx e d rid = (case c_user ctx of Some u \<Rightarrow> ret (Inr u) | None \<Rightarrow> revalidateAuth ctx e d rid)"

text \<open>One statement that checks the token, takes the lease and reads the page. An exception of the
  statement or of its interpretation falls back to \<open>fallback\<close>.\<close>

definition one_statement ::
  "'w deps \<Rightarrow> env \<Rightarrow> stmt \<Rightarrow> jv list \<Rightarrow> token_ctx \<Rightarrow> rate_limits \<Rightarrow> string \<Rightarrow> (jv list \<Rightarrow> ('w, response + 'a) prog)
    \<Rightarrow> ('w, response + 'a) prog \<Rightarrow> ('w, response + 'a) prog" where
  "one_statement d e sql extra ctx limits rid f fallback =
     catching
       (and_then (queryToleratingCompany d sql (ctx_args ctx limits @ extra)) (\<lambda>rows.
          unless_response (interpretAuth d rows (c_moment ctx) (lim_user limits) (lim_window limits) (c_cacheKey ctx) True rid
                             (Some (rememberBag ctx e))) (\<lambda>_. f rows)))
       (\<lambda>_. fallback)"

definition first_field :: "jv list \<Rightarrow> string \<Rightarrow> jv" where
  "first_field rows k = (case rows of [] \<Rightarrow> JUndef | row # _ \<Rightarrow> jget row k)"

definition listConversations ::
  "request \<Rightarrow> env \<Rightarrow> 'w deps \<Rightarrow> string \<Rightarrow> rate_limits \<Rightarrow> (nat \<Rightarrow> int) \<Rightarrow> ('w, response + response) prog" where
  "listConversations rq e d rid limits now =
     (case pageLimit rq rid of Inl rs \<Rightarrow> ret (Inl rs) | Inr limit \<Rightarrow>
      let appRaw = search_param rq ''applicationId''; appId = parseUuid appRaw in
      if appRaw \<noteq> [] \<and> appId = None then ret (Inl (fieldError ''applicationId'' ''must be a UUID'' rid))
      else case cursorPair (d_dp d) rq rid of Inl rs \<Rightarrow> ret (Inl rs) | Inr cursor \<Rightarrow>
      let app = (if appRaw = [] then None else appId);
          q = likePattern (search_param rq ''q'');
          archived = (search_param rq ''archived'' = ''true'');
          for_user = (\<lambda>u. listConversationsFor d (u_id u) app cursor limit rid False q archived)
      in
      if search_param rq ''audience'' = ''EMPLOYER'' then
        unless_response (requireUser rq e d rid limits (now 0)) (\<lambda>u.
          case u_companyId u of
            None \<Rightarrow> ret (Inl (errorResponse 403 ''BUSINESS_NOT_VERIFIED'' ''company is not verified'' rid))
          | Some co \<Rightarrow> guarded rid (listConversationsFor d co app cursor limit rid True q archived))
      else
        unless_response (tokenContext rq e d rid limits (now 0)) (\<lambda>ctx.
          if c_user ctx \<noteq> None \<or> c_revalidate ctx then
            unless_response (session_user ctx e d rid) (\<lambda>u.
              guarded rid (and_then (for_user u) (\<lambda>rs. ret (freshRead rs rq rid))))
          else if c_dev ctx then
            unless_response (requireUser rq e d rid limits (now 1)) (\<lambda>u. guarded rid (for_user u))
          else
            one_statement d e (LIST_SQL archived)
              [json_of app, json_of (cur_at cursor), json_of (cur_id cursor), JNum (int limit + 1), json_of q] ctx limits rid
              (\<lambda>rows. and_then (of_option ''bad timestamp'' (conversation_page d (jsonRows (d_jp d) (first_field rows ''rows'')) limit))
                 (\<lambda>body. ret (Inr (conditional (body_text body) rq rid USER_CACHE_CONTROL))))
              (unless_response (requireUser rq e d rid limits (now 1)) (\<lambda>u. guarded rid (for_user u)))))"

subsection \<open>Messages\<close>

definition present :: "jv \<Rightarrow> bool" where
  "present v \<longleftrightarrow> \<not> blank v"

definition listMessagesFor ::
  "'w deps \<Rightarrow> string \<Rightarrow> string \<Rightarrow> cursor_pair \<Rightarrow> nat \<Rightarrow> string \<Rightarrow> string option \<Rightarrow> ('w, response) prog" where
  "listMessagesFor d userId i cursor limit rid companyId =
     and_then (query d SCOPED_MESSAGES_SQL [JStr i, JStr userId, json_of companyId, json_of (cur_at cursor),
                 json_of (cur_id cursor), JNum (int limit + 1)]) (\<lambda>rows.
       if \<not> present (first_field rows ''conversation_id'') then ret (not_found rid)
       else and_then (of_option ''bad timestamp'' (message_page d (jsonRows (d_jp d) (first_field rows ''rows'')) limit))
              (\<lambda>body. ret (jsonResponse 200 body rid)))"

definition listMessages ::
  "request \<Rightarrow> env \<Rightarrow> 'w deps \<Rightarrow> string \<Rightarrow> string \<Rightarrow> rate_limits \<Rightarrow> (nat \<Rightarrow> int) \<Rightarrow> ('w, response + response) prog" where
  "listMessages rq e d rawId rid limits now =
     (case parseUuid rawId of None \<Rightarrow> ret (Inl (fieldError ''id'' ''must be a UUID'' rid)) | Some i \<Rightarrow>
      case pageLimit rq rid of Inl rs \<Rightarrow> ret (Inl rs) | Inr limit \<Rightarrow>
      case cursorPair (d_dp d) rq rid of Inl rs \<Rightarrow> ret (Inl rs) | Inr cursor \<Rightarrow>
      let for_user = (\<lambda>u. listMessagesFor d (u_id u) i cursor limit rid (u_companyId u)) in
      unless_response (tokenContext rq e d rid limits (now 0)) (\<lambda>ctx.
        if c_user ctx \<noteq> None \<or> c_revalidate ctx then
          unless_response (session_user ctx e d rid) (\<lambda>u.
            guarded rid (and_then (for_user u) (\<lambda>rs. ret (freshRead rs rq rid))))
        else if c_dev ctx then
          unless_response (requireUser rq e d rid limits (now 1)) (\<lambda>u. guarded rid (for_user u))
        else
          one_statement d e MESSAGES_SQL
            [JStr i, json_of (cur_at cursor), json_of (cur_id cursor), JNum (int limit + 1)] ctx limits rid
            (\<lambda>rows. if blank (first_field rows ''conversation_id'') then ret (Inl (not_found rid))
               else and_then (of_option ''bad timestamp'' (message_page d (jsonRows (d_jp d) (first_field rows ''rows'')) limit))
                 (\<lambda>body. ret (Inr (conditional (body_text body) rq rid USER_CACHE_CONTROL))))
            (unless_response (requireUser rq e d rid limits (now 1)) (\<lambda>u. guarded rid (for_user u)))))"

subsection \<open>Streams\<close>

definition activeJobFor :: "'w deps \<Rightarrow> string \<Rightarrow> string \<Rightarrow> string option \<Rightarrow> string \<Rightarrow> ('w, response + string option) prog" where
  "activeJobFor d userId i companyId rid =
     and_then (query d ACTIVE_JOB_SQL [JStr i, JStr userId, json_of companyId]) (\<lambda>rows.
       if \<not> present (first_field rows ''conversation_id'') then ret (Inl (not_found rid))
       else ret (Inr (if present (first_field rows ''job_id'') then Some (js_String (first_field rows ''job_id'')) else None)))"

definition streamCancel ::
  "request \<Rightarrow> env \<Rightarrow> 'w deps \<Rightarrow> string \<Rightarrow> string \<Rightarrow> rate_limits \<Rightarrow> int \<Rightarrow> ('w, response + response) prog" where
  "streamCancel rq e d rawId rid limits now =
     (case parseUuid rawId of
        None \<Rightarrow> ret (Inl (fieldError ''id'' ''must be a UUID'' rid))
      | Some i \<Rightarrow>
          unless_response (requireUser rq e d rid limits now) (\<lambda>u.
            guarded rid (and_then (query d CANCEL_SQL [JStr i, JStr (u_id u), json_of (u_companyId u)]) (\<lambda>rows.
              ret (if \<not> present (first_field rows ''conversation_id'') then not_found rid
                   else if \<not> present (first_field rows ''job_id'') then errorResponse 409 ''CONFLICT'' ''no active stream'' rid
                   else jsonResponse 200 (JObj [(''data'', JObj [(''jobId'', JStr (js_String (first_field rows ''job_id''))),
                          (''status'', JStr ''CANCELLED'')])]) rid)))))"

definition EVENT_PAGE :: nat where "EVENT_PAGE = 200"

definition payload_of :: "(string \<Rightarrow> jv option) \<Rightarrow> jv \<Rightarrow> jv" where
  "payload_of jp row =
     (let p = parsed_or jp (JObj []) (coalesce (jget row ''payload'') (JObj []))
      in case p of JObj _ \<Rightarrow> p | JArr _ \<Rightarrow> p | _ \<Rightarrow> JObj [])"

definition hiddenMarkdownFile :: "(string \<Rightarrow> jv option) \<Rightarrow> jv \<Rightarrow> bool" where
  "hiddenMarkdownFile jp row \<longleftrightarrow> jget row ''type'' = JStr ''file'' \<and>
     (let p = payload_of jp row
      in is_markdown (js_String (coalesce (coalesce (jget p ''name'') (jget p ''fileName'')) (JStr [])))
           (js_String (coalesce (coalesce (jget p ''mime'') (jget p ''mimeType'')) (JStr []))))"

text \<open>The own properties \<open>{...p}\<close> copies; an array has its indices.\<close>

definition spread :: "jv \<Rightarrow> (string \<times> jv) list" where
  "spread p = (case p of JObj kvs \<Rightarrow> kvs | JArr vs \<Rightarrow> zip (map nat_dec [0..<length vs]) vs | _ \<Rightarrow> [])"

definition set_props :: "(string \<times> jv) list \<Rightarrow> (string \<times> jv) list \<Rightarrow> (string \<times> jv) list" where
  "set_props new old = fold (\<lambda>(k, v) m. jm_set k v m) new old"

definition sse_body :: "(string \<Rightarrow> jv option) \<Rightarrow> jv \<Rightarrow> (string \<times> jv) list" where
  "sse_body jp row =
     (let p = payload_of jp row; t = jget row ''type'' in
      if t = JStr ''token'' then [(''type'', JStr ''token''), (''text'', JStr (text_or (jget p ''text'') []))]
      else if t = JStr ''status'' then [(''type'', JStr ''status''), (''text'', JStr (text_or (jget p ''text'') []))]
      else if t = JStr ''error'' then [(''type'', JStr ''error''), (''error'', coalesce (jget p ''error'') (JObj []))]
      else if t = JStr ''done'' then [(''type'', JStr ''done''), (''operation'', coalesce (jget p ''operation'') JNull)]
             @ (if truthy (jget p ''awaiting'') then [(''awaiting'', jget p ''awaiting'')] else [])
      else if t = JStr ''cancelled'' then [(''type'', JStr ''cancelled'')]
      else set_props (spread p) [(''type'', t)])"

definition row_seq :: "jv \<Rightarrow> int" where
  "row_seq row = (case int_cell (jget row ''id'') of None \<Rightarrow> 0 | Some n \<Rightarrow> n)"

definition newline :: string where "newline = [CHR 0x0A]"

definition sseFrame :: "(string \<Rightarrow> jv option) \<Rightarrow> jv \<Rightarrow> ustr" where
  "sseFrame jp row =
     (let seq = row_seq row in
      widen (''id: '' @ int_dec seq @ newline @ ''data: '')
        @ body_text (JObj (jm_set ''seq'' (JNum seq) (sse_body jp row))) @ widen (newline @ newline))"

definition terminal_type :: "jv \<Rightarrow> bool" where
  "terminal_type t \<longleftrightarrow> t = JStr ''done'' \<or> t = JStr ''error'' \<or> t = JStr ''cancelled''"

text \<open>One page of rows: the frames sent, the position reached, and whether a terminal row ended it.\<close>

fun send_rows :: "(string \<Rightarrow> jv option) \<Rightarrow> jv list \<Rightarrow> int \<Rightarrow> ustr list \<times> int \<times> bool" where
  "send_rows jp [] after = ([], after, False)"
| "send_rows jp (row # rows) after =
     (if hiddenMarkdownFile jp row then send_rows jp rows (row_seq row)
      else if terminal_type (jget row ''type'') then ([sseFrame jp row], row_seq row, True)
      else (case send_rows jp rows (row_seq row) of (fs, a, t) \<Rightarrow> (sseFrame jp row # fs, a, t)))"

definition ping_frame :: ustr where "ping_frame = widen ('': ping'' @ newline @ newline)"

definition retry_frame :: ustr where "retry_frame = widen (''retry: 400'' @ newline @ newline)"

definition stream_error_frame :: ustr where
  "stream_error_frame = widen ''data: '' @ body_text (JObj [(''type'', JStr ''error''),
     (''error'', JObj [(''code'', JStr ''INTERNAL''), (''message'', JStr ''internal error''), (''details'', JNull)])])
     @ widen (newline @ newline)"

text \<open>The polling loop. \<open>n\<close> polls are left; \<open>unbounded\<close> says that a later poll is allowed after them
  (\<open>SSE_MAX_POLLS=Infinity\<close>); \<open>i\<close> counts the polls made.\<close>

fun poll_loop ::
  "'w deps \<Rightarrow> (nat \<Rightarrow> bool) \<Rightarrow> bool \<Rightarrow> string \<Rightarrow> nat \<Rightarrow> nat \<Rightarrow> int \<Rightarrow> 'w \<Rightarrow> ustr list \<times> 'w" where
  "poll_loop d gone unbounded jobId i 0 after w = ([], w)"
| "poll_loop d gone unbounded jobId i (Suc n) after w =
     (if gone (2 * i) then ([], w)
      else case d_query d JOB_EVENTS_SQL [JStr jobId, JNum after] w of
        (Inl _, w') \<Rightarrow> (if gone (2 * i + 1) then [] else [stream_error_frame], w')
      | (Inr rows, w') \<Rightarrow>
          if gone (2 * i + 1) then ([], w')
          else (case send_rows (d_jp d) rows after of (fs, after', terminal) \<Rightarrow>
            if terminal then (fs, w')
            else (let ping = (if length rows < EVENT_PAGE \<and> (0 < n \<or> unbounded) \<and> rows = [] then [ping_frame] else []) in
              case poll_loop d gone unbounded jobId (Suc i) n after' w' of (fs', w'') \<Rightarrow> (fs @ ping @ fs', w''))))"

text \<open>\<open>Math.max(1, Number(env.SSE_MAX_POLLS || "20") || 20)\<close>, the number of turns of
  \<open>for (i = 0; i < polls; i++)\<close>; \<open>None\<close> when it has no end.\<close>

definition max_polls :: "env \<Rightarrow> nat option" where
  "max_polls e = (case positive_number (e_SSE_MAX_POLLS e) ''20'' 20 of
       Fin q \<Rightarrow> Some (nat \<lceil>q\<rceil>) | PosInf \<Rightarrow> None | _ \<Rightarrow> Some 20)"

text \<open>\<open>fuel\<close> bounds the polls that are observed when \<open>SSE_MAX_POLLS\<close> is infinite; it is not used
  otherwise.\<close>

definition event_frames :: "nat \<Rightarrow> (nat \<Rightarrow> bool) \<Rightarrow> string \<Rightarrow> int \<Rightarrow> env \<Rightarrow> 'w deps \<Rightarrow> 'w \<Rightarrow> ustr list \<times> 'w" where
  "event_frames fuel gone jobId start e d w =
     (case max_polls e of
        Some n \<Rightarrow> (case poll_loop d gone False jobId 0 n start w of (fs, w') \<Rightarrow> (retry_frame # fs, w'))
      | None \<Rightarrow> (case poll_loop d gone True jobId 0 fuel start w of (fs, w') \<Rightarrow> (retry_frame # fs, w')))"

definition jobEvents :: "nat \<Rightarrow> (nat \<Rightarrow> bool) \<Rightarrow> string \<Rightarrow> int \<Rightarrow> env \<Rightarrow> 'w deps \<Rightarrow> string \<Rightarrow> ('w, response) prog" where
  "jobEvents fuel gone jobId start e d rid s =
     (case event_frames fuel gone jobId start e d (g_w s) of
        (fs, w') \<Rightarrow> (Inr \<lparr>rs_status = 200, rs_headers = headers_of
            [(''content-type'', ''text/event-stream''), (''cache-control'', ''no-cache''),
             (''x-accel-buffering'', ''no''), (''x-request-id'', rid)], rs_body = BFrames fs\<rparr>, s\<lparr>g_w := w'\<rparr>))"

definition streamActive ::
  "nat \<Rightarrow> (nat \<Rightarrow> bool) \<Rightarrow> request \<Rightarrow> env \<Rightarrow> 'w deps \<Rightarrow> string \<Rightarrow> string \<Rightarrow> rate_limits \<Rightarrow> (nat \<Rightarrow> int) \<Rightarrow> ('w, response + response) prog" where
  "streamActive fuel gone rq e d rawId rid limits now =
     (case parseUuid rawId of None \<Rightarrow> ret (Inl (fieldError ''id'' ''must be a UUID'' rid)) | Some i \<Rightarrow>
      let job_of = (\<lambda>u. activeJobFor d (u_id u) i (u_companyId u) rid);
          by_user = (\<lambda>k. unless_response (requireUser rq e d rid limits (now k)) job_of)
      in unless_response (tokenContext rq e d rid limits (now 0)) (\<lambda>ctx.
        unless_response
          (if c_user ctx \<noteq> None \<or> c_revalidate ctx then
             catching (unless_response (session_user ctx e d rid) job_of) (\<lambda>_. ret (Inl (internal_error rid)))
           else
             catching
               (if c_dev ctx then by_user 1
                else and_then (queryToleratingCompany d STREAM_SQL (ctx_args ctx limits @ [JStr i])) (\<lambda>rows.
                  unless_response (interpretAuth d rows (c_moment ctx) (lim_user limits) (lim_window limits) (c_cacheKey ctx) True rid
                       (Some (rememberBag ctx e))) (\<lambda>_.
                    if blank (first_field rows ''conversation_id'') then ret (Inl (not_found rid))
                    else ret (Inr (if blank (first_field rows ''job_id'') then None
                                   else Some (js_String (first_field rows ''job_id'')))))))
               (\<lambda>_. catching (by_user 2) (\<lambda>_. ret (Inl (internal_error rid)))))
          (\<lambda>jobId. case jobId of
             None \<Rightarrow> ret (Inr \<lparr>rs_status = 204, rs_headers = headers_of [(''x-request-id'', rid)], rs_body = BNone\<rparr>)
           | Some j \<Rightarrow>
               if j = [] then ret (Inr \<lparr>rs_status = 204, rs_headers = headers_of [(''x-request-id'', rid)], rs_body = BNone\<rparr>)
               else (let afterRaw = or_else (search_param rq ''after'') (header rq ''last-event-id'')
                in and_then (jobEvents fuel gone j
                     (if afterRaw \<noteq> [] \<and> list_all is_digit afterRaw then int (dec_val afterRaw) else 0) e d rid)
                     (\<lambda>rs. ret (Inr rs))))))"

text \<open>The id in the body of the 202 answer of the core worker: \<open>data.result.value.jobId\<close>.\<close>

definition queued_job :: "(string \<Rightarrow> jv option) \<Rightarrow> response \<Rightarrow> string" where
  "queued_job jp rs =
     (case rs_body rs of
        BOpaque txt \<Rightarrow> (case jp txt of None \<Rightarrow> []
          | Some v \<Rightarrow> text_or (jget (jget (jget (jget v ''data'') ''result'') ''value'') ''jobId'') [])
      | _ \<Rightarrow> [])"

definition streamMessage ::
  "nat \<Rightarrow> (nat \<Rightarrow> bool) \<Rightarrow> request \<Rightarrow> env \<Rightarrow> 'w deps \<Rightarrow> string \<Rightarrow> ('w, response) prog" where
  "streamMessage fuel gone rq e d rid =
     and_then (proxy rq d rid False) (\<lambda>queued.
       if rs_status queued \<noteq> 202 then ret queued
       else (let jobId = queued_job (d_jp d) queued in
         if parseUuid jobId = None then ret (internal_error rid)
         else jobEvents fuel gone jobId 0 e d rid))"

end
