(* ===== verification/Paging.thy ===== *)
theory Paging
  imports Conversations
begin

text \<open>
  What a client gets that follows \<open>nextCursor\<close> from page to page, and what the search box means:
  the pages of \<open>pageBody\<close> against a row list in the order of the statement, and the pattern of
  \<open>likePattern\<close> against the \<open>ILIKE \<dots> ESCAPE '\'\<close> of the statement.
\<close>

subsection \<open>Walking the pages\<close>

text \<open>The position of an item: its timestamp and its id.\<close>

definition pos_of :: "string \<Rightarrow> jv \<Rightarrow> string \<times> string" where
  "pos_of key item = (js_String (jget item key), js_String (jget item ''id''))"

text \<open>\<open>WHERE (stamp, id) < ($at, $id) ORDER BY stamp DESC, id DESC LIMIT m\<close> on rows that are in that
  order: the rows behind the one with this position.\<close>

definition rows_after :: "string \<Rightarrow> (jv \<Rightarrow> jv option) \<Rightarrow> jv list \<Rightarrow> cursor_pair \<Rightarrow> nat \<Rightarrow> jv list" where
  "rows_after key f all cur m =
     (case (cur_at cur, cur_id cur) of
        (Some s, Some i) \<Rightarrow> take m (tl (dropWhile (\<lambda>r. map_option (pos_of key) (f r) \<noteq> Some (s, i)) all))
      | _ \<Rightarrow> take m all)"

definition cursor_request :: "string \<Rightarrow> request" where
  "cursor_request c = \<lparr>rq_method = ''GET'', rq_path = ''/api/v1/conversations'', rq_search = [],
     rq_query = (if c = [] then [] else [(''cursor'', c)]), rq_headers = [], rq_body = []\<rparr>"

fun walk_pages ::
  "(string \<Rightarrow> int option) \<Rightarrow> string \<Rightarrow> (jv \<Rightarrow> jv option) \<Rightarrow> jv list \<Rightarrow> nat \<Rightarrow> nat \<Rightarrow> string \<Rightarrow> jv list option" where
  "walk_pages dp key f all limit 0 c = None"
| "walk_pages dp key f all limit (Suc n) c =
     (case cursorPair dp (cursor_request c) [] of
        Inl _ \<Rightarrow> None
      | Inr cur \<Rightarrow>
          (case pageBody dp key f (rows_after key f all cur (limit + 1)) limit of
             None \<Rightarrow> None
           | Some body \<Rightarrow>
               (case (jget body ''data'', jget (jget body ''page'') ''nextCursor'') of
                  (JArr items, JStr c') \<Rightarrow> map_option ((@) items) (walk_pages dp key f all limit n c')
                | (JArr items, _) \<Rightarrow> Some items
                | _ \<Rightarrow> None)))"

text \<open>A row the page can show: it converts, its stamp is a canonical timestamp, its id a UUID.\<close>

definition good_row :: "string \<Rightarrow> (jv \<Rightarrow> jv option) \<Rightarrow> jv \<Rightarrow> bool" where
  "good_row key f r \<longleftrightarrow> (\<exists>x ms micros i. f r = Some x \<and> printable ms micros
     \<and> jget x key = JStr (parts_text (fromEpoch ms micros)) \<and> jget x ''id'' = JStr i \<and> parseUuid i = Some i)"

lemma good_row_item: "good_row key f r \<Longrightarrow> f r = Some (the (f r))"
  by (auto simp: good_row_def)

lemma parseUuid_nonempty: "parseUuid i = Some u \<Longrightarrow> i \<noteq> []"
  by (auto simp: parseUuid_def uuid_shape_def hex_of_def)

lemma decodeCursor_Nil: "decodeCursor dp [] = None"
  by (simp add: decodeCursor_def from_url_safe_def atob_def strip_padding_def split_bar_def endsWith_def replace_char_def Let_def)

lemma good_row_cursor:
  assumes "good_row key f r"
  shows "\<exists>c s i. pos_of key (the (f r)) = (s, i) \<and> c \<noteq> []
    \<and> encodeCursor dp (TText (js_String (jget (the (f r)) key))) (js_String (jget (the (f r)) ''id'')) = Some c
    \<and> cursorPair dp (cursor_request c) rid = Inr \<lparr>cur_at = Some s, cur_id = Some i\<rparr>"
proof -
  from assms obtain x ms micros i where x: "f r = Some x" "printable ms micros"
      "jget x key = JStr (parts_text (fromEpoch ms micros))" "jget x ''id'' = JStr i" "parseUuid i = Some i"
    by (auto simp: good_row_def)
  let ?t = "parts_text (fromEpoch ms micros)"
  note pt = parse_parts_text [OF x(2), of dp]
  from decode_encode [OF pt x(2) parseUuid_nonempty [OF x(5)]]
  obtain c where c: "encodeCursor dp (TText ?t) i = Some c" "decodeCursor dp c = Some (?t, i)" by blast
  have ne: "c \<noteq> []" using c(2) by (auto simp: decodeCursor_Nil)
  have "formatCursorTimestamp dp (TText ?t) = Some ?t"
    using pt by (simp add: formatCursorTimestamp_def formatJsonTimestamp_def)
  with c ne x(5) have "cursorPair dp (cursor_request c) rid = Inr \<lparr>cur_at = Some ?t, cur_id = Some i\<rparr>"
    by (simp add: cursorPair_def search_param_def cursor_request_def or_empty_def)
  with c ne x show ?thesis by (auto simp: pos_of_def)
qed

lemma map_rows_good: "list_all (good_row key f) rs \<Longrightarrow> map_rows f rs = Some (map (the \<circ> f) rs)"
  by (induction rs) (auto dest!: good_row_item split: option.splits)

lemma cursor_start: "cursorPair dp (cursor_request []) rid = Inr \<lparr>cur_at = None, cur_id = None\<rparr>"
  by (simp add: cursorPair_def search_param_def cursor_request_def or_empty_def)

lemma rows_behind:
  assumes "distinct (map (map_option (pos_of key) \<circ> f) (pre @ r # rest))" "map_option (pos_of key) (f r) = Some (s, i)"
  shows "rows_after key f (pre @ r # rest) \<lparr>cur_at = Some s, cur_id = Some i\<rparr> m = take m rest"
proof -
  have "dropWhile (\<lambda>r. map_option (pos_of key) (f r) \<noteq> Some (s, i)) (pre @ r # rest) = r # rest"
    using assms by (subst dropWhile_append2) force+
  then show ?thesis by (simp add: rows_after_def)
qed

definition page_json :: "jv list \<Rightarrow> jv \<Rightarrow> bool \<Rightarrow> jv" where
  "page_json items cursor hm = JObj [(''data'', JArr items), (''page'', JObj [(''nextCursor'', cursor), (''hasMore'', JBool hm)])]"

lemma page_json_get [simp]:
  "jget (page_json items cursor hm) ''data'' = JArr items"
  "jget (jget (page_json items cursor hm) ''page'') ''nextCursor'' = cursor"
  by (simp_all add: page_json_def jget_def Prelude.fields_def)

lemma pageBody_last:
  assumes "list_all (good_row key f) rest" "length rest \<le> limit"
  shows "pageBody dp key f (take (limit + 1) rest) limit = Some (page_json (map (the \<circ> f) rest) JNull False)"
  using assms by (simp add: pageBody_def map_rows_good page_json_def)

lemma pageBody_more:
  assumes g: "list_all (good_row key f) rest" and "limit < length rest" "0 < limit"
  shows "\<exists>c s i. map_option (pos_of key) (f (rest ! (limit - 1))) = Some (s, i) \<and> c \<noteq> []
    \<and> pageBody dp key f (take (limit + 1) rest) limit = Some (page_json (map (the \<circ> f) (take limit rest)) (JStr c) True)
    \<and> cursorPair dp (cursor_request c) rid = Inr \<lparr>cur_at = Some s, cur_id = Some i\<rparr>"
proof -
  let ?r = "rest ! (limit - 1)" and ?items = "map (the \<circ> f) (take limit rest)"
  from assms have "?r \<in> set rest" by simp
  with g have gr: "good_row key f ?r" by (auto simp: list_all_iff)
  from good_row_cursor [OF gr, of dp rid] obtain c s i where c: "pos_of key (the (f ?r)) = (s, i)" "c \<noteq> []"
      "encodeCursor dp (TText (js_String (jget (the (f ?r)) key))) (js_String (jget (the (f ?r)) ''id'')) = Some c"
      "cursorPair dp (cursor_request c) rid = Inr \<lparr>cur_at = Some s, cur_id = Some i\<rparr>" by blast
  have gt: "list_all (good_row key f) (take limit rest)" using g by (auto simp: list_all_iff dest: in_set_takeD)
  have ne: "?items \<noteq> []" using assms by auto
  have "last ?items = the (f ?r)"
    using assms ne by (subst last_conv_nth) simp_all
  moreover have "take limit (take (limit + 1) rest) = take limit rest" by simp
  moreover have "limit < length (take (limit + 1) rest)" using assms by simp
  ultimately have "pageBody dp key f (take (limit + 1) rest) limit = Some (page_json ?items (JStr c) True)"
    using c(3) ne by (simp add: pageBody_def map_rows_good [OF gt] page_json_def)
  moreover have "map_option (pos_of key) (f ?r) = Some (s, i)" using c(1) by (subst good_row_item [OF gr]) simp
  ultimately show ?thesis using c(2,4) by blast
qed

lemma walk_suffix:
  assumes "list_all (good_row key f) all" "distinct (map (map_option (pos_of key) \<circ> f) all)" "0 < limit"
    and "cursorPair dp (cursor_request c) [] = Inr cur" "rows_after key f all cur (limit + 1) = take (limit + 1) rest"
    and "\<exists>pre. all = pre @ rest" "length rest < n"
  shows "walk_pages dp key f all limit n c = Some (map (the \<circ> f) rest)"
  using assms(4-7)
proof (induction n arbitrary: c cur rest)
  case 0
  then show ?case by simp
next
  case (Suc n)
  from Suc.prems(3) obtain pre where pre: "all = pre @ rest" by blast
  with assms(1) have g: "list_all (good_row key f) rest" by simp
  show ?case
  proof (cases "limit < length rest")
    case False
    then show ?thesis using pageBody_last [OF g, of limit dp] Suc.prems by simp
  next
    case True
    from pageBody_more [OF g True assms(3), of dp "[]"] obtain c' s i where
        c': "map_option (pos_of key) (f (rest ! (limit - 1))) = Some (s, i)"
        "pageBody dp key f (take (limit + 1) rest) limit = Some (page_json (map (the \<circ> f) (take limit rest)) (JStr c') True)"
        "cursorPair dp (cursor_request c') [] = Inr \<lparr>cur_at = Some s, cur_id = Some i\<rparr>" by blast
    let ?rest = "drop limit rest" and ?pre = "pre @ take (limit - 1) rest"
    have sp: "all = ?pre @ rest ! (limit - 1) # ?rest"
      using True assms(3) unfolding pre
      by (metis Suc_diff_1 append.assoc append_take_drop_id id_take_nth_drop less_imp_diff_less)
    have "rows_after key f all \<lparr>cur_at = Some s, cur_id = Some i\<rparr> (limit + 1) = take (limit + 1) ?rest"
      unfolding sp using assms(2) c'(1) unfolding sp by (rule rows_behind)
    moreover have "length ?rest < n" using Suc.prems(4) True assms(3) by simp
    moreover have "\<exists>pre. all = pre @ ?rest" using pre append_take_drop_id [of limit rest] by (metis append.assoc)
    ultimately have "walk_pages dp key f all limit n c' = Some (map (the \<circ> f) ?rest)"
      by (intro Suc.IH [OF c'(3)])
    moreover have "map (the \<circ> f) (take limit rest) @ map (the \<circ> f) ?rest = map (the \<circ> f) rest"
      by (metis append_take_drop_id map_append)
    ultimately show ?thesis using Suc.prems c'(2) by simp
  qed
qed

text \<open>C39: Pagination loses and repeats nothing. A client that starts without a cursor and follows
  \<open>nextCursor\<close> until it is null receives every row exactly once, in order, whatever the page size
  and however many pages there are; it never gets an invalid cursor from the server. \<open>f\<close> is the
  row printer (\<open>conversationJson\<close> or \<open>messageJson\<close>).\<close>

theorem pages_complete:
  assumes "list_all (good_row key f) all" and "distinct (map (map_option (pos_of key) \<circ> f) all)"
    and "0 < limit" and "length all < n"
  shows "walk_pages dp key f all limit n [] = Some (map (the \<circ> f) all)"
  by (rule walk_suffix [OF assms(1-3) cursor_start _ _ assms(4)]) (simp_all add: rows_after_def)


text \<open>Two messages in pages of one.\<close>

definition demo_message :: "string \<Rightarrow> jv" where
  "demo_message i = JObj [(''id'', JStr i), (''conversation_id'', JStr ''c''), (''role'', JStr ''USER''),
     (''text'', JStr ''hi''), (''created_at'', JStr (parts_text (fromEpoch 1785553872345 345678)))]"

lemma demo_message_good:
  assumes "parseUuid i = Some i"
  shows "good_row ''createdAt'' (messageJson (\<lambda>_. None) (\<lambda>_. None)) (demo_message i)
    \<and> map_option (pos_of ''createdAt'') (messageJson (\<lambda>_. None) (\<lambda>_. None) (demo_message i))
        = Some (parts_text (fromEpoch 1785553872345 345678), i)"
proof -
  let ?t = "parts_text (fromEpoch 1785553872345 345678)"
  have ts: "timestamp (\<lambda>_. None) (JStr ?t) = Some ?t"
    using parse_parts_text [OF printable_example] by (simp add: timestamp_def formatJsonTimestamp_def)
  have g: "jget (demo_message i) ''created_at'' = JStr ?t" "jget (demo_message i) ''id'' = JStr i"
    by (simp_all add: demo_message_def jget_def Prelude.fields_def)
  have "\<exists>x. messageJson (\<lambda>_. None) (\<lambda>_. None) (demo_message i) = Some x \<and> jget x ''createdAt'' = JStr ?t \<and> jget x ''id'' = JStr i"
    unfolding messageJson_def Let_def g ts by (simp add: jget_def Prelude.fields_def)
  then show ?thesis using assms printable_example by (auto simp: good_row_def pos_of_def)
qed

theorem pages_complete_witness:
  "\<exists>a b. walk_pages (\<lambda>_. None) ''createdAt'' (messageJson (\<lambda>_. None) (\<lambda>_. None))
     [demo_message ''00000000-0000-4000-8000-000000000002'', demo_message ''00000000-0000-4000-8000-000000000001''] 1 3 []
     = Some [a, b]"
proof -
  let ?f = "messageJson (\<lambda>_. None) (\<lambda>_. None)"
  let ?i1 = "''00000000-0000-4000-8000-000000000001''" and ?i2 = "''00000000-0000-4000-8000-000000000002''"
  have u: "parseUuid ?i1 = Some ?i1" "parseUuid ?i2 = Some ?i2"
    by (simp_all add: parseUuid_def uuid_shape_def hex_of_def is_hex_def is_hex_lower_def is_digit_def toLowerCase_def lower_char_def)
  note g = demo_message_good [OF u(1)] demo_message_good [OF u(2)]
  have "list_all (good_row ''createdAt'' ?f) [demo_message ?i2, demo_message ?i1]" using g by simp
  moreover have "distinct (map (map_option (pos_of ''createdAt'') \<circ> ?f) [demo_message ?i2, demo_message ?i1])"
    by (simp del: map_option_eq_Some add: g(1) [THEN conjunct2] g(2) [THEN conjunct2])
  ultimately have "walk_pages (\<lambda>_. None) ''createdAt'' ?f [demo_message ?i2, demo_message ?i1] 1 3 []
      = Some (map (the \<circ> ?f) [demo_message ?i2, demo_message ?i1])"
    by (rule pages_complete) simp_all
  then show ?thesis by auto
qed

subsection \<open>The search box\<close>

text \<open>\<open>LIKE\<close> with \<open>ESCAPE '\'\<close>; \<open>ILIKE\<close> is the same on case-folded texts.\<close>

fun like_match :: "string \<Rightarrow> string \<Rightarrow> bool" where
  "like_match [] t = (t = [])"
| "like_match (c # p) t =
     (if c = CHR 0x5C then (case (p, t) of (d # p', x # t') \<Rightarrow> x = d \<and> like_match p' t' | _ \<Rightarrow> False)
      else if c = CHR ''%'' then like_match p t \<or> (case t of [] \<Rightarrow> False | x # t' \<Rightarrow> like_match (c # p) t')
      else (case t of [] \<Rightarrow> False | x # t' \<Rightarrow> (c = CHR ''_'' \<or> x = c) \<and> like_match p t'))"

lemma like_any: "like_match ''%'' t"
  by (induction t) simp_all

lemma like_prefix: "like_match (like_escape s @ ''%'') t \<longleftrightarrow> startsWith t s"
proof (induction s arbitrary: t)
  case Nil
  then show ?case using like_any [of t] by (simp add: like_escape_def)
next
  case (Cons c s)
  show ?case
  proof (cases t)
    case Nil
    then show ?thesis by (simp add: like_escape_def like_special_def)
  next
    case (Cons x t')
    have e: "like_escape (c # s) = (if like_special c then [CHR 0x5C, c] else [c]) @ like_escape s"
      by (simp add: like_escape_def)
    show ?thesis
    proof (cases "like_special c")
      case True
      then show ?thesis using Cons.IH Cons by (auto simp: e)
    next
      case False
      then have "c \<noteq> CHR 0x5C" "c \<noteq> CHR ''%''" "c \<noteq> CHR ''_''" by (auto simp: like_special_def)
      with False show ?thesis using Cons.IH Cons by (auto simp: e)
    qed
  qed
qed

lemma like_contains: "like_match (CHR ''%'' # like_escape s @ ''%'') t \<longleftrightarrow> str_includes t s"
proof (induction t)
  case Nil
  then show ?case using like_prefix [of s "[]"] by (cases s) auto
next
  case (Cons x t)
  then show ?case using like_prefix [of s "x # t"] by simp
qed

text \<open>The search box searches for the text itself. The pattern sent for a trimmed, non-empty
  query matches exactly the titles and messages that contain the query, with \<open>%\<close>, \<open>_\<close> and the
  backslash taken literally; a blank query sends no pattern at all.\<close>

theorem likePattern_literal:
  "(likePattern raw = None \<longleftrightarrow> js_trim raw = [])
   \<and> (\<forall>p t. likePattern raw = Some p \<longrightarrow> like_match p t = str_includes t (js_trim raw))"
  using like_contains by (auto simp: likePattern_def Let_def)

theorem likePattern_literal_witness:
  "\<exists>p. likePattern ''50%'' = Some p \<and> \<not> like_match p ''50 of 100''"
proof -
  have t: "js_trim ''50%'' = ''50%''" by (simp add: js_trim_def trimStart_def js_space_def)
  then obtain p where p: "likePattern ''50%'' = Some p" using likePattern_literal [of "''50%''"] by auto
  with likePattern_literal [of "''50%''"] t have "like_match p ''50 of 100'' = str_includes ''50 of 100'' ''50%''" by auto
  with p show ?thesis by simp
qed
end
