(* ===== verification/Event_Stream.thy ===== *)
theory Event_Stream
  imports Conversations
begin

text \<open>
  The event stream of a job against its log: the rows of \<open>chat_events\<close> in id order. The stream sends
  every visible row behind the position it was opened at, once and in order, and stops at the
  terminal row; a client that reconnects with the last id it saw continues exactly there.
\<close>

definition sse_visible :: "(string \<Rightarrow> jv option) \<Rightarrow> jv \<Rightarrow> bool" where
  "sse_visible jp row \<longleftrightarrow> \<not> hiddenMarkdownFile jp row"

definition terminal_row :: "jv \<Rightarrow> bool" where
  "terminal_row row = terminal_type (jget row ''type'')"

text \<open>The rows up to and including the first terminal one.\<close>

fun upto_terminal :: "jv list \<Rightarrow> jv list" where
  "upto_terminal [] = []"
| "upto_terminal (r # rs) = (if terminal_row r then [r] else r # upto_terminal rs)"

definition behind :: "int \<Rightarrow> jv list \<Rightarrow> jv list" where
  "behind after evs = filter (\<lambda>r. after < row_seq r) evs"

text \<open>What the database promises for \<open>JOB_EVENTS_SQL\<close> on a log that does not change any more.\<close>

definition serves_log :: "'w deps \<Rightarrow> string \<Rightarrow> jv list \<Rightarrow> bool" where
  "serves_log d jobId evs \<longleftrightarrow> (\<forall>after w. d_query d JOB_EVENTS_SQL [JStr jobId, JNum after] w
     = (Inr (take EVENT_PAGE (behind after evs)), w))"

definition id_order :: "jv list \<Rightarrow> bool" where
  "id_order evs \<longleftrightarrow> sorted_wrt (<) (map row_seq evs)"

lemma hidden_not_terminal: "hiddenMarkdownFile jp row \<Longrightarrow> \<not> terminal_row row"
  by (simp add: hiddenMarkdownFile_def terminal_row_def terminal_type_def)

lemma send_rows_terminal:
  "list_ex terminal_row rows \<Longrightarrow>
   \<exists>a. send_rows jp rows after = (map (sseFrame jp) (filter (sse_visible jp) (upto_terminal rows)), a, True)"
proof (induction rows arbitrary: after)
  case (Cons r rs)
  show ?case
  proof (cases "terminal_row r")
    case True
    then have "\<not> hiddenMarkdownFile jp r" using hidden_not_terminal by blast
    with True show ?thesis by (simp add: sse_visible_def terminal_row_def)
  next
    case False
    with Cons.prems have "list_ex terminal_row rs" by simp
    from Cons.IH [OF this, of "row_seq r"] obtain a where
      "send_rows jp rs (row_seq r) = (map (sseFrame jp) (filter (sse_visible jp) (upto_terminal rs)), a, True)" ..
    with False show ?thesis
      by (cases "hiddenMarkdownFile jp r") (simp_all add: terminal_row_def, simp_all add: sse_visible_def)
  qed
qed simp

lemma send_rows_open:
  "\<not> list_ex terminal_row rows \<Longrightarrow>
   send_rows jp rows after = (map (sseFrame jp) (filter (sse_visible jp) rows), if rows = [] then after else row_seq (last rows), False)"
  by (induction rows arbitrary: after) (auto simp: sse_visible_def terminal_row_def)

lemma upto_terminal_append:
  "\<not> list_ex terminal_row xs \<Longrightarrow> upto_terminal (xs @ ys) = xs @ upto_terminal ys"
  by (induction xs) auto

lemma upto_terminal_early: "list_ex terminal_row xs \<Longrightarrow> upto_terminal (xs @ ys) = upto_terminal xs"
  by (induction xs) auto

text \<open>After a page the position is the id of its last row: the rest is what is behind it.\<close>

lemma behind_last:
  assumes "id_order evs" "behind after evs = xs @ ys" "xs \<noteq> []"
  shows "behind (row_seq (last xs)) evs = ys"
proof -
  have so: "sorted_wrt (<) (map row_seq (xs @ ys))"
    using assms(1,2) unfolding id_order_def behind_def by (metis sorted_wrt_filter sorted_wrt_map)
  have lastin: "last xs \<in> set xs" using assms(3) by simp
  then have la: "after < row_seq (last xs)"
    using assms(2) unfolding behind_def by (metis (mono_tags) Un_iff mem_Collect_eq set_append set_filter)
  have "behind (row_seq (last xs)) evs = filter (\<lambda>r. row_seq (last xs) < row_seq r) (behind after evs)"
    using la by (auto simp: behind_def intro: filter_cong)
  also have "\<dots> = filter (\<lambda>r. row_seq (last xs) < row_seq r) xs @ filter (\<lambda>r. row_seq (last xs) < row_seq r) ys"
    by (simp add: assms(2))
  also have "filter (\<lambda>r. row_seq (last xs) < row_seq r) xs = []"
  proof -
    have "\<not> row_seq (last xs) < row_seq r" if r: "r \<in> set xs" for r
    proof -
      obtain zs where zs: "xs = zs @ [last xs]" using assms(3) by (metis append_butlast_last_id)
      from so have "sorted_wrt (<) (map row_seq xs)" by (simp add: sorted_wrt_append)
      then have "\<forall>z \<in> set zs. row_seq z < row_seq (last xs)" by (subst (asm) zs) (simp add: sorted_wrt_append)
      moreover have "r \<in> set zs \<or> r = last xs" using r zs by (metis Un_iff empty_iff insert_iff list.set set_append)
      ultimately show ?thesis by auto
    qed
    then show ?thesis by (simp add: filter_empty_conv)
  qed
  also have "filter (\<lambda>r. row_seq (last xs) < row_seq r) ys = ys"
    using so lastin by (intro filter_True) (auto simp: sorted_wrt_append)
  finally show ?thesis by simp
qed

lemma poll_loop_log:
  assumes evs: "serves_log d jobId evs" "id_order evs"
  shows "list_ex terminal_row (behind after evs) \<Longrightarrow> length (behind after evs) \<le> n * EVENT_PAGE \<Longrightarrow>
    poll_loop d (\<lambda>_. False) unbounded jobId i n after w
      = (map (sseFrame (d_jp d)) (filter (sse_visible (d_jp d)) (upto_terminal (behind after evs))), w)"
proof (induction n arbitrary: i after)
  case 0
  then have "behind after evs = []" by simp
  with 0(1) show ?case by simp
next
  case (Suc n)
  let ?rest = "behind after evs" and ?page = "take EVENT_PAGE (behind after evs)" and ?tail = "drop EVENT_PAGE (behind after evs)"
  have q: "d_query d JOB_EVENTS_SQL [JStr jobId, JNum after] w = (Inr ?page, w)"
    using evs(1) by (simp add: serves_log_def)
  have ne: "?rest \<noteq> []" using Suc.prems(1) by auto
  then have pne: "?page \<noteq> []" by (simp add: EVENT_PAGE_def)
  show ?case
  proof (cases "list_ex terminal_row ?page")
    case True
    from send_rows_terminal [OF True, of "d_jp d" after] upto_terminal_early [OF True, of ?tail]
    show ?thesis by (auto simp: q)
  next
    case False
    have split: "?rest = ?page @ ?tail" by simp
    have "list_ex terminal_row ?tail" using Suc.prems(1) False by (subst (asm) split) (simp only: list_ex_append simp_thms)
    moreover have b: "behind (row_seq (last ?page)) evs = ?tail" by (rule behind_last [OF evs(2) split pne])
    moreover have "length ?tail \<le> n * EVENT_PAGE" using Suc.prems(2) by simp
    ultimately have "poll_loop d (\<lambda>_. False) unbounded jobId (Suc i) n (row_seq (last ?page)) w
        = (map (sseFrame (d_jp d)) (filter (sse_visible (d_jp d)) (upto_terminal ?tail)), w)"
      using Suc.IH [of "row_seq (last ?page)" "Suc i"] by simp
    moreover have "upto_terminal ?rest = ?page @ upto_terminal ?tail"
      using upto_terminal_append [OF False, of ?tail] by simp
    ultimately show ?thesis using send_rows_open [OF False, of "d_jp d" after] pne by (simp add: q Let_def)
  qed
qed

text \<open>Replay and resume. For a finished job whose log fits in the allowed polls, the stream
  opened behind \<open>start\<close> (0, or the last event id the client saw) sends the retry hint and then
  exactly the visible events with a larger id, each once and in id order, up to the terminal one:
  reconnecting neither loses nor repeats an event.\<close>

theorem events_complete:
  assumes "serves_log d jobId evs" and "id_order evs" and "list_ex terminal_row (behind start evs)"
    and "max_polls e = Some n" and "length (behind start evs) \<le> n * EVENT_PAGE"
  shows "event_frames fuel (\<lambda>_. False) jobId start e d w
    = (retry_frame # map (sseFrame (d_jp d)) (filter (sse_visible (d_jp d)) (upto_terminal (behind start evs))), w)"
  using poll_loop_log [OF assms(1,2,3,5)] assms(4) by (simp add: event_frames_def)

definition demo_event :: "int \<Rightarrow> string \<Rightarrow> jv" where
  "demo_event i t = JObj [(''id'', JNum i), (''type'', JStr t), (''payload'', JObj [(''text'', JStr ''hi'')])]"

definition demo_log :: "jv list" where
  "demo_log = [demo_event 1 ''token'', demo_event 4 ''token'', demo_event 9 ''done'']"

definition demo_deps :: "unit deps" where
  "demo_deps = \<lparr>d_query = (\<lambda>sql ps w. (case ps of
       [_, JNum after] \<Rightarrow> (Inr (take EVENT_PAGE (behind after demo_log)), w) | _ \<Rightarrow> (Inr [], w))),
     d_core = None, d_fetch = (\<lambda>_ _ w. (Inl (Error []), w)), d_wait = True, d_dp = (\<lambda>_. None), d_sha = id, d_jp = (\<lambda>_. None)\<rparr>"

lemma demo_event_simps:
  "row_seq (demo_event i t) = i" "terminal_row (demo_event i t) = terminal_type (JStr t)"
  by (simp_all add: demo_event_def row_seq_def terminal_row_def int_cell_def jget_def Prelude.fields_def)

text \<open>Resuming after event 1 of three.\<close>

theorem events_complete_witness:
  "event_frames 0 (\<lambda>_. False) ''j'' 1 demo_env demo_deps ()
   = ([retry_frame, sseFrame (\<lambda>_. None) (demo_event 4 ''token''), sseFrame (\<lambda>_. None) (demo_event 9 ''done'')], ())"
proof -
  have b: "behind 1 demo_log = [demo_event 4 ''token'', demo_event 9 ''done'']"
    by (simp add: behind_def demo_log_def demo_event_simps)
  have "serves_log demo_deps ''j'' demo_log" by (simp add: serves_log_def demo_deps_def)
  moreover have "id_order demo_log" by (simp add: id_order_def demo_log_def demo_event_simps)
  moreover have "list_ex terminal_row (behind 1 demo_log)" by (simp add: b demo_event_simps terminal_type_def)
  moreover have "max_polls demo_env = Some 20"
    by (simp add: max_polls_def positive_number_def demo_env_def js_defs dec_val_def)
  moreover have "length (behind 1 demo_log) \<le> 20 * EVENT_PAGE" by (simp add: b EVENT_PAGE_def)
  ultimately have "event_frames 0 (\<lambda>_. False) ''j'' 1 demo_env demo_deps ()
      = (retry_frame # map (sseFrame (d_jp demo_deps)) (filter (sse_visible (d_jp demo_deps)) (upto_terminal (behind 1 demo_log))), ())"
    by (rule events_complete)
  moreover have "sse_visible jp (demo_event i ''token'')" "sse_visible jp (demo_event i ''done'')" for jp i
    by (simp_all add: sse_visible_def hiddenMarkdownFile_def demo_event_def jget_def Prelude.fields_def)
  ultimately show ?thesis by (simp add: b demo_event_simps terminal_type_def demo_deps_def)
qed

end
