(* ===== verification/Gateway.thy ===== *)
theory Gateway
  imports Owner Lease_System Paging Event_Stream
begin

text \<open>
  \<open>services/gateway/src/handler.ts\<close>: the request pipeline. \<open>route\<close> dispatches the routes the
  gateway answers itself and forwards the others by owner; \<open>handle\<close> adds CORS and turns every
  exception into a 500. \<open>valid_url\<close> says whether \<open>new URL(request.url)\<close> succeeded.
\<close>

record run_env =
  rn_fuel :: nat
  rn_gone :: "nat \<Rightarrow> bool"
  rn_limits :: rate_limits
  rn_now :: "nat \<Rightarrow> int"

definition default_limits :: rate_limits where
  "default_limits = \<lparr>lim_user = 600, lim_public = 60, lim_window = 60000\<rparr>"

definition path_arg :: "string \<Rightarrow> string" where
  "path_arg path = segments path ! 4"

definition forward :: "request \<Rightarrow> env \<Rightarrow> 'w deps \<Rightarrow> string \<Rightarrow> ('w, response) prog" where
  "forward rq e d rid =
     (let path = rq_path rq; owner = ownerOf (rq_method rq) path in
      if owner = Deny then ret (not_found rid)
      else and_then (if owner = Core then proxy rq d rid (isInternalCall (d_sha d) rq e) else proxyPython rq e d rid)
        (\<lambda>proxied s.
          if 200 \<le> rs_status proxied \<and> rs_status proxied < 300
             \<and> rq_method rq \<in> {''POST'', ''PATCH'', ''PUT'', ''DELETE''}
          then (Inr proxied, invalidateAfterWrite rq path d s)
          else (Inr proxied, s)))"

definition route :: "run_env \<Rightarrow> request \<Rightarrow> env \<Rightarrow> 'w deps \<Rightarrow> string \<Rightarrow> ('w, response) prog" where
  "route rn rq e d rid =
     (let path = rq_path rq; GET = (rq_method rq = ''GET''); POST = (rq_method rq = ''POST'');
          now = rn_now rn; limits = rn_limits rn in
      if GET \<and> (path = ''/healthz'' \<or> path = ''/api/v1/healthz'') then health rq d path rid limits (now 0)
      else if GET \<and> path = ''/api/v1/auth/me'' then either (authMe rq e d rid limits (now 0))
      else if GET \<and> path = ''/api/v1/conversations'' then either (listConversations rq e d rid limits now)
      else if GET \<and> rx [Lit ''conversations'', Any] path then
        either (getConversation rq e d (path_arg path) rid limits (now 0))
      else if GET \<and> rx [Lit ''conversations'', Any, Lit ''messages''] path then
        either (listMessages rq e d (path_arg path) rid limits now)
      else if GET \<and> rx [Lit ''conversations'', Any, Lit ''messages'', Lit ''stream'', Lit ''active''] path then
        either (streamActive (rn_fuel rn) (rn_gone rn) rq e d (path_arg path) rid limits now)
      else if POST \<and> rx [Lit ''conversations'', Any, Lit ''messages'', Lit ''stream''] path then
        streamMessage (rn_fuel rn) (rn_gone rn) rq e d rid
      else if POST \<and> rx [Lit ''conversations'', Any, Lit ''stream'', Lit ''cancel''] path then
        either (streamCancel rq e d (path_arg path) rid limits (now 0))
      else if GET \<and> path = ''/api/v1/ai/models'' then either (aiModels rq e d rid limits (now 0))
      else if GET \<and> path = ''/api/v1/integrations/job-sites'' then either (jobSites rq e d rid limits (now 0))
      else forward rq e d rid)"

definition handle :: "bool \<Rightarrow> string \<Rightarrow> run_env \<Rightarrow> request \<Rightarrow> env \<Rightarrow> 'w deps \<Rightarrow> 'w gw \<Rightarrow> response \<times> 'w gw" where
  "handle valid_url uuid rn rq e d s =
     (let rid = requestIdOf uuid rq in
      if \<not> valid_url then (errorResponse 400 ''VALIDATION_ERROR'' ''invalid url'' rid, s)
      else if rq_method rq = ''OPTIONS'' then (withCors rq (preflight rq), s)
      else (case route rn rq e d rid s of
              (Inr rs, s') \<Rightarrow> (withCors rq rs, s')
            | (Inl _, s') \<Rightarrow> (withCors rq (internal_error rid), s')))"

subsection \<open>Authentication is not optional\<close>

lemma no_bearer_context:
  "bearer rq = None \<Longrightarrow> tokenContext rq e d rid limits now s
     = (Inr (Inl (errorResponse 401 ''UNAUTHENTICATED'' ''missing bearer token'' rid)), s)"
  by (simp add: tokenContext_def ret_def)

lemma no_bearer_user:
  "bearer rq = None \<Longrightarrow> requireUser rq e d rid limits now s
     = (Inr (Inl (errorResponse 401 ''UNAUTHENTICATED'' ''missing bearer token'' rid)), s)"
  by (simp add: requireUser_def unless_response_def and_then_def no_bearer_context ret_def)

lemmas no_bearer = no_bearer_context no_bearer_user

text \<open>The routes the gateway answers from the database.\<close>

definition private_route :: "string \<Rightarrow> string \<Rightarrow> bool" where
  "private_route m path \<longleftrightarrow>
     (m = ''GET'' \<and> (path = ''/api/v1/auth/me'' \<or> path = ''/api/v1/conversations'' \<or> path = ''/api/v1/ai/models''
        \<or> path = ''/api/v1/integrations/job-sites'' \<or> rx [Lit ''conversations'', Any] path \<or> rx [Lit ''conversations'', Any, Lit ''messages''] path
        \<or> rx [Lit ''conversations'', Any, Lit ''messages'', Lit ''stream'', Lit ''active''] path))
     \<or> (m = ''POST'' \<and> rx [Lit ''conversations'', Any, Lit ''stream'', Lit ''cancel''] path)"

definition refused :: "(exn + response) \<times> 'w gw \<Rightarrow> 'w gw \<Rightarrow> bool" where
  "refused r s \<longleftrightarrow> (\<exists>rs. r = (Inr rs, s) \<and> rs_status rs \<in> {400, 401})"

lemma refused_either_user:
  "bearer rq = None \<Longrightarrow> refused (either (unless_response (requireUser rq e d rid limits now) f) s) s"
  by (simp add: refused_def either_def unless_response_def and_then_def no_bearer ret_def)

lemma refused_either_context:
  "bearer rq = None \<Longrightarrow> refused (either (unless_response (tokenContext rq e d rid limits now) f) s) s"
  by (simp add: refused_def either_def unless_response_def and_then_def no_bearer ret_def)

lemma refused_either_ret: "rs_status rs \<in> {400, 401} \<Longrightarrow> refused (either (ret (Inl rs)) s) s"
  by (simp add: refused_def either_def and_then_def ret_def)

lemma refused_field: "refused (either (ret (Inl (fieldError f m rid))) s) s"
  by (rule refused_either_ret) simp

lemma refused_page: "pageLimit rq rid = Inl rs \<Longrightarrow> refused (either (ret (Inl rs)) s) s"
  by (rule refused_either_ret) (auto simp: pageLimit_def Let_def split: if_splits)

lemma refused_cursor: "cursorPair dp rq rid = Inl rs \<Longrightarrow> refused (either (ret (Inl rs)) s) s"
  by (rule refused_either_ret) (auto simp: cursorPair_def Let_def split: if_splits option.splits)

lemmas refusals = refused_either_user refused_either_context refused_field refused_page refused_cursor

lemma refused_listConversations: "bearer rq = None \<Longrightarrow> refused (either (listConversations rq e d rid limits now) s) s"
  by (auto simp: listConversations_def Let_def split: sum.split intro: refusals)

lemma refused_listMessages: "bearer rq = None \<Longrightarrow> refused (either (listMessages rq e d i rid limits now) s) s"
  by (auto simp: listMessages_def Let_def split: sum.split option.split intro: refusals)

lemma refused_streamActive: "bearer rq = None \<Longrightarrow> refused (either (streamActive fuel gone rq e d i rid limits now) s) s"
  by (auto simp: streamActive_def Let_def split: option.split intro: refusals)

lemma refused_getConversation: "bearer rq = None \<Longrightarrow> refused (either (getConversation rq e d i rid limits now) s) s"
  by (auto simp: getConversation_def split: option.split intro: refusals)

lemma refused_streamCancel: "bearer rq = None \<Longrightarrow> refused (either (streamCancel rq e d i rid limits now) s) s"
  by (auto simp: streamCancel_def split: option.split intro: refusals)

lemma refused_static:
  "bearer rq = None \<Longrightarrow> refused (either (authMe rq e d rid limits now) s) s"
  "bearer rq = None \<Longrightarrow> refused (either (aiModels rq e d rid limits now) s) s"
  "bearer rq = None \<Longrightarrow> refused (either (jobSites rq e d rid limits now) s) s"
  by (simp_all add: authMe_def aiModels_def jobSites_def refused_either_user)

text \<open>Patterns exclude each other by length and by segment; a literal path is never under another
  resource.\<close>

lemma rx_conversations:
  assumes "rx (Lit ''conversations'' # p # ps) path"
  shows "path \<noteq> ''/healthz''" "path \<noteq> ''/api/v1/healthz''" "path \<noteq> ''/api/v1/auth/me''" "path \<noteq> ''/api/v1/conversations''"
    "path \<noteq> ''/api/v1/ai/models''" "path \<noteq> ''/api/v1/integrations/job-sites''"
  using assms by (auto simp: rx_def segments_def segs_match_Cons)

lemma rx_other: "resource path \<noteq> l \<Longrightarrow> \<not> rx (Lit l # ps) path"
  using rx_resource by blast

text \<open>No token, no read. On every route the gateway answers from the database, a request without
  a bearer token gets a 400 or a 401, and neither the database, nor an upstream worker, nor the
  isolate's state has been touched.\<close>

theorem no_token_no_effect:
  assumes "private_route (rq_method rq) (rq_path rq)" and "bearer rq = None"
  shows "\<exists>rs. route rn rq e d rid s = (Inr rs, s) \<and> rs_status rs \<in> {400, 401}"
proof -
  note r = refused_listConversations [OF assms(2)] refused_listMessages [OF assms(2)] refused_streamActive [OF assms(2)]
    refused_getConversation [OF assms(2)] refused_streamCancel [OF assms(2)] refused_static [OF assms(2)]
  let ?p = "rq_path rq" and ?any = "[Lit ''conversations'', Any]" and ?msgs = "[Lit ''conversations'', Any, Lit ''messages'']"
    and ?active = "[Lit ''conversations'', Any, Lit ''messages'', Lit ''stream'', Lit ''active'']"
    and ?cancel = "[Lit ''conversations'', Any, Lit ''stream'', Lit ''cancel'']"
  from assms(1) consider (lit) "rq_method rq = ''GET''" "?p = ''/api/v1/auth/me'' \<or> ?p = ''/api/v1/conversations''
        \<or> ?p = ''/api/v1/ai/models'' \<or> ?p = ''/api/v1/integrations/job-sites''"
    | (any) "rq_method rq = ''GET''" "rx ?any ?p" | (msgs) "rq_method rq = ''GET''" "rx ?msgs ?p"
    | (active) "rq_method rq = ''GET''" "rx ?active ?p" | (cancel) "rq_method rq = ''POST''" "rx ?cancel ?p"
    unfolding private_route_def by blast
  then have "refused (route rn rq e d rid s) s"
  proof cases
    case lit
    then show ?thesis by (elim disjE) (simp_all add: route_def Let_def r rx_other resource_def segments_def)
  next
    case any
    with rx_conversations [OF any(2)] show ?thesis by (simp add: route_def Let_def r)
  next
    case msgs
    then have "\<not> rx ?any ?p" by (auto simp: rx_def segs_match_Cons segs_match_Nil)
    with msgs rx_conversations [OF msgs(2)] show ?thesis by (simp add: route_def Let_def r)
  next
    case active
    then have "\<not> rx ?any ?p" "\<not> rx ?msgs ?p" by (auto simp: rx_def segs_match_Cons segs_match_Nil)
    with active rx_conversations [OF active(2)] show ?thesis by (simp add: route_def Let_def r)
  next
    case cancel
    then have "\<not> rx [Lit ''conversations'', Any, Lit ''messages'', Lit ''stream''] ?p"
      by (auto simp: rx_def segs_match_Cons segs_match_Nil)
    with cancel show ?thesis by (simp add: route_def Let_def r)
  qed
  then show ?thesis by (simp add: refused_def)
qed

definition demo_run :: run_env where
  "demo_run = \<lparr>rn_fuel = 0, rn_gone = (\<lambda>_. False), rn_limits = default_limits, rn_now = (\<lambda>_. 0)\<rparr>"

definition demo_get :: "string \<Rightarrow> request" where
  "demo_get path = \<lparr>rq_method = ''GET'', rq_path = path, rq_search = [], rq_query = [], rq_headers = [], rq_body = []\<rparr>"

theorem no_token_no_effect_witness:
  "\<exists>rs. route demo_run (demo_get ''/api/v1/conversations/7/messages'') demo_env demo_deps ''r'' \<lparr>g_iso = empty_isolate, g_w = ()\<rparr>
     = (Inr rs, \<lparr>g_iso = empty_isolate, g_w = ()\<rparr>) \<and> rs_status rs \<in> {400, 401}"
proof -
  let ?rq = "demo_get ''/api/v1/conversations/7/messages''"
  have "private_route (rq_method ?rq) (rq_path ?rq)"
    by (simp add: private_route_def demo_get_def rx_def segments_def)
  moreover have "bearer ?rq = None" by (simp add: bearer_def demo_get_def header_def or_empty_def)
  ultimately show ?thesis by (rule no_token_no_effect)
qed

subsection \<open>Signing out\<close>

lemma run_releases_iso [simp]: "g_iso (run_releases d rels s) = g_iso s"
  by (induction rels arbitrary: s) (auto simp: query_def split: prod.splits)

lemma drop_leases_leases: "i_leases (drop_leases ks st) = fold jm_delete ks (i_leases st)"
  by (induction ks arbitrary: st) (simp_all add: drop_lease_def)

lemma drop_leases_auth: "i_auth (drop_leases ks st) = i_auth st"
  by (induction ks arbitrary: st) (simp_all add: drop_lease_def)

lemma set_fold_delete: "set (fold jm_delete ks m) = {p \<in> set m. fst p \<notin> set ks}"
  by (induction ks arbitrary: m) (auto simp: set_jm_delete)

lemma clearLease_forgets: "owned_leases hash (snd (clearLease hash st)) = []"
proof -
  have "set (i_leases (snd (clearLease hash st))) = {p \<in> set (i_leases st). fst p \<notin> fst ` set (owned_leases hash st)}"
    by (simp add: clearLease_def clear_loop_drop drop_leases_leases set_fold_delete)
  then show ?thesis unfolding owned_leases_def filter_empty_conv by (auto simp: image_iff)
qed

lemma dropAuth_get: "fst (getAuth (dropAuth m hash) hash t) = None"
  by (simp add: getAuth_def dropAuth_def)

text \<open>A sign-out is immediate on the isolate that served it. Whenever the gateway forwards a
  logout or refresh with a bearer token and the core worker answers with success, the isolate
  afterwards holds neither a cached user nor a lease of that token, so the next request with it
  reads the token again.\<close>

theorem sign_out_forgets:
  assumes "rq_method rq = ''POST''" and "rq_path rq \<in> {''/api/v1/auth/logout'', ''/api/v1/auth/refresh''}"
    and "bearer rq = Some token" and "token \<noteq> []"
    and "route rn rq e d rid s = (Inr rs, s')" and "200 \<le> rs_status rs" and "rs_status rs < 300"
  shows "(\<forall>t. fst (getAuth (i_auth (g_iso s')) (d_sha d token) t) = None)
    \<and> owned_leases (d_sha d token) (g_iso s') = []"
proof -
  have nrx: "\<not> rx [Lit ''conversations'', Any, Lit ''messages'', Lit ''stream''] (rq_path rq)"
    "\<not> rx [Lit ''conversations'', Any, Lit ''stream'', Lit ''cancel''] (rq_path rq)"
    using assms(2) by (auto simp: rx_def segments_def)
  have "route rn rq e d rid s = forward rq e d rid s"
    using assms(1) nrx by (simp add: route_def Let_def)
  with assms(5) have f: "forward rq e d rid s = (Inr rs, s')" by simp
  have own: "ownerOf (rq_method rq) (rq_path rq) \<noteq> Deny"
    using f assms(6,7) by (auto simp: forward_def ret_def not_found_def)
  let ?m = "if ownerOf (rq_method rq) (rq_path rq) = Core then proxy rq d rid (isInternalCall (d_sha d) rq e) else proxyPython rq e d rid"
  obtain r s1 where m: "?m s = (r, s1)" by force
  from f own m assms(1,6,7) have s': "s' = invalidateAfterWrite rq (rq_path rq) d s1"
    by (cases r) (auto simp: forward_def Let_def and_then_def split: if_splits)
  let ?h = "d_sha d token" and ?st = "(g_iso s1)\<lparr>i_auth := dropAuth (i_auth (g_iso s1)) (d_sha d token)\<rparr>"
  have g: "g_iso s' = snd (clearLease ?h ?st)"
    using assms(2,3,4) by (auto simp: s' invalidateAfterWrite_def Let_def split: prod.splits)
  have "i_auth (g_iso s') = dropAuth (i_auth (g_iso s1)) ?h"
    by (simp add: g clearLease_def clear_loop_drop drop_leases_auth)
  then show ?thesis by (simp add: dropAuth_get g clearLease_forgets)
qed

text \<open>A core worker that answers 200 to everything.\<close>

definition accepting_deps :: "unit deps" where
  "accepting_deps = demo_deps\<lparr>d_core := Some (\<lambda>_ w. (Inr (jsonResponse 200 JNull ''x''), w))\<rparr>"

theorem sign_out_forgets_witness:
  "\<exists>rs s'. route demo_run ((demo_get ''/api/v1/auth/logout'')\<lparr>rq_method := ''POST'', rq_headers := [(''authorization'', ''Bearer t'')]\<rparr>)
       demo_env accepting_deps ''r'' \<lparr>g_iso = empty_isolate\<lparr>i_auth := [(''t'', \<lparr>ce_user = demo_user, ce_until = 9\<rparr>)]\<rparr>, g_w = ()\<rparr>
     = (Inr rs, s') \<and> fst (getAuth (i_auth (g_iso s')) ''t'' 5) = None"
proof -
  let ?rq = "(demo_get ''/api/v1/auth/logout'')\<lparr>rq_method := ''POST'', rq_headers := [(''authorization'', ''Bearer t'')]\<rparr>"
  let ?s = "\<lparr>g_iso = empty_isolate\<lparr>i_auth := [(''t'', \<lparr>ce_user = demo_user, ce_until = 9\<rparr>)]\<rparr>, g_w = ()\<rparr>"
  have b: "bearer ?rq = Some ''t''" by (simp add: bearer_def demo_get_def header_def or_empty_def jm_get_def)
  have amb: "\<not> ambiguous ''/api/v1/auth/logout''" by (simp add: ambiguous_def toLowerCase_def lower_char_def)
  have np: "\<not> isPython ''POST'' ''/api/v1/auth/logout''"
    using isPython_confined [of "''POST''" "''/api/v1/auth/logout''"]
    by (auto simp: resource_def segments_def python_resources_def)
  have rx: "\<not> rx (Lit l # ps) ''/api/v1/auth/logout''" if "l \<noteq> ''auth''" for l ps
    using rx_resource [of l ps "''/api/v1/auth/logout''"] that by (auto simp: resource_def segments_def)
  have "isCore ''POST'' ''/api/v1/auth/logout''" by (simp add: isCore_def core_rules_def rx)
  with amb np have own: "ownerOf ''POST'' ''/api/v1/auth/logout'' = Core" by (simp add: ownerOf_def)
  have "\<exists>rs s'. route demo_run ?rq demo_env accepting_deps ''r'' ?s = (Inr rs, s') \<and> rs_status rs = 200"
    by (simp add: route_def demo_get_def rx Let_def forward_def own and_then_def proxy_def accepting_deps_def forwardInit_def
        header_number_def jm_get_def num_greater_def MAX_BODY_BYTES_def on_world_def relay_def)
  then obtain rs s' where r: "route demo_run ?rq demo_env accepting_deps ''r'' ?s = (Inr rs, s')" "rs_status rs = 200" by blast
  have "(\<forall>t. fst (getAuth (i_auth (g_iso s')) (d_sha accepting_deps ''t'') t) = None)
      \<and> owned_leases (d_sha accepting_deps ''t'') (g_iso s') = []"
    by (rule sign_out_forgets [OF _ _ b _ r(1)]) (simp_all add: r(2) demo_get_def)
  then show ?thesis using r(1) by (auto simp: accepting_deps_def demo_deps_def)
qed

end
