(* ===== verification/Core_Http.thy ===== *)
theory Core_Http
  imports Http Prog
begin

text \<open>
  \<open>services/core-api/src/http.ts\<close> and \<open>db.ts\<close>: the errors a core handler throws, the responses it
  builds and the tests made on a failed statement. Requests, responses, identifiers and \<open>asBool\<close>
  are those of the theory \<open>Http\<close>, whose source is the same text in both workers.
\<close>

text \<open>An \<open>HttpError\<close>, an error of the database driver (SQLSTATE and message), or any other thrown
  value.\<close>

datatype core_exn =
    HttpError int string string jv
  | DbError string string
  | Thrown string

type_synonym ('s, 'a) core_prog = "('s, core_exn, 'a) program"

definition exn_code :: "core_exn \<Rightarrow> string" where
  "exn_code x = (case x of HttpError _ c _ _ \<Rightarrow> c | DbError c _ \<Rightarrow> c | Thrown _ \<Rightarrow> [])"

definition exn_message :: "core_exn \<Rightarrow> string" where
  "exn_message x = (case x of HttpError _ _ m _ \<Rightarrow> m | DbError _ m \<Rightarrow> m | Thrown m \<Rightarrow> m)"

definition exn_text :: "core_exn \<Rightarrow> string" where
  "exn_text x = exn_code x @ '' '' @ exn_message x @ '' Error: '' @ exn_message x"

definition isUnique :: "core_exn \<Rightarrow> bool" where
  "isUnique x \<longleftrightarrow> exn_code x = ''23505'' \<or> str_includes (toLowerCase (exn_text x)) ''23505''
     \<or> str_includes (toLowerCase (exn_text x)) ''duplicate key'' \<or> str_includes (toLowerCase (exn_text x)) ''unique constraint''"

definition message_text :: "core_exn \<Rightarrow> string" where
  "message_text x = toLowerCase (exn_message x @ '' Error: '' @ exn_message x)"

text \<open>The two texts on one line, the first before the second.\<close>

fun line_has :: "string \<Rightarrow> string \<Rightarrow> string \<Rightarrow> bool" where
  "line_has a b [] = False"
| "line_has a b (c # s) =
     ((startsWith (c # s) a \<and> str_includes (takeWhile (\<lambda>x. x \<notin> {CHR 0x0A, CHR 0x0D}) (drop (length a) (c # s))) b)
      \<or> line_has a b s)"

definition isUndefinedColumn :: "core_exn \<Rightarrow> bool" where
  "isUndefinedColumn x \<longleftrightarrow> exn_code x = ''42703'' \<or> str_includes (message_text x) ''42703''
     \<or> line_has ''column '' '' does not exist'' (message_text x)"

definition isMissingRelation :: "core_exn \<Rightarrow> bool" where
  "isMissingRelation x \<longleftrightarrow> exn_code x = ''42P01'' \<or> str_includes (message_text x) ''42p01''
     \<or> line_has ''relation '' '' does not exist'' (message_text x)"

definition core_requestIdOf :: "string \<Rightarrow> request \<Rightarrow> string" where
  "core_requestIdOf uuid rq =
     (let rid = header rq ''x-request-id'' in if rid = [] \<or> 128 < length rid then ''req_'' @ uuid else rid)"

definition data :: "int \<Rightarrow> jv \<Rightarrow> string \<Rightarrow> response" where
  "data status v rid = jsonResponse status (JObj [(''data'', v)]) rid"

definition page_body :: "jv list \<Rightarrow> string option \<Rightarrow> bool \<Rightarrow> string \<Rightarrow> int option \<Rightarrow> response" where
  "page_body items nextCursor hasMore rid counted =
     jsonResponse 200 (JObj [(''data'', JArr items),
       (''page'', JObj ([(''nextCursor'', case nextCursor of None \<Rightarrow> JNull | Some c \<Rightarrow> JStr c), (''hasMore'', JBool hasMore)]
          @ (case counted of None \<Rightarrow> [] | Some n \<Rightarrow> [(''total'', JNum n)])))]) rid"

definition noContent :: "string \<Rightarrow> response" where
  "noContent rid = \<lparr>rs_status = 204, rs_headers = headers_of [(''x-request-id'', rid)], rs_body = BNone\<rparr>"

text \<open>\<open>retry-after\<close> is set on a 429 whose details carry a number.\<close>

definition errorOf :: "int \<Rightarrow> string \<Rightarrow> string \<Rightarrow> jv \<Rightarrow> string \<Rightarrow> response" where
  "errorOf status code message details rid =
     (let rs = errorDetails status code message rid details in
      case jget details ''retryAfterSec'' of
        JNum n \<Rightarrow> if status = 429 then rs\<lparr>rs_headers := jm_set ''retry-after'' (int_dec n) (rs_headers rs)\<rparr> else rs
      | _ \<Rightarrow> rs)"

text \<open>The \<open>catch\<close> of the handlers: an \<open>HttpError\<close> is answered as such, anything else is a 500.\<close>

definition response_of :: "core_exn \<Rightarrow> string \<Rightarrow> response" where
  "response_of x rid =
     (case x of HttpError st c m d \<Rightarrow> errorOf st c m d rid
      | _ \<Rightarrow> errorResponse 500 ''INTERNAL'' ''internal error'' rid)"

definition field_error :: "string \<Rightarrow> string \<Rightarrow> core_exn" where
  "field_error field message = HttpError 400 ''VALIDATION_ERROR'' message (JObj [(''field'', JStr field)])"

definition not_found_error :: core_exn where
  "not_found_error = HttpError 404 ''NOT_FOUND'' ''resource not found'' JNull"

definition requireUuid :: "string \<Rightarrow> string \<Rightarrow> core_exn + string" where
  "requireUuid v field = (case parseUuid v of None \<Rightarrow> Inl (field_error field ''must be a UUID'') | Some u \<Rightarrow> Inr u)"

definition asString :: "jv \<Rightarrow> string option" where
  "asString v = (if nullish v then None else Some (js_String v))"

definition jsonList :: "(string \<Rightarrow> jv option) \<Rightarrow> jv \<Rightarrow> jv list" where
  "jsonList jp v = (case (case v of JStr s \<Rightarrow> jp s | w \<Rightarrow> Some w) of Some (JArr vs) \<Rightarrow> vs | _ \<Rightarrow> [])"

lemma errorOf_status [simp]: "rs_status (errorOf st c m d rid) = st"
  by (simp add: errorOf_def Let_def split: json.split)

lemma data_status [simp]: "rs_status (data st v rid) = st"
  by (simp add: data_def)

lemma page_body_status [simp]: "rs_status (page_body items c h rid t) = 200"
  by (simp add: page_body_def)

lemma noContent_status [simp]: "rs_status (noContent rid) = 204"
  by (simp add: noContent_def)

end
