(* ===== verification/Core_Page.thy ===== *)
theory Core_Page
  imports Core_Http Cursor
begin

text \<open>
  \<open>services/core-api/src/page.ts\<close> and the cursors of \<open>time.ts\<close>: they carry an optional sort order
  after the id. The rest of the core worker's \<open>time.ts\<close> is the gateway's text (theory \<open>Clock\<close>).
\<close>

subsection \<open>Cursors\<close>

record core_cursor =
  cc_createdAt :: string
  cc_id :: string
  cc_sort :: "string option"

definition core_encodeCursor :: "(string \<Rightarrow> int option) \<Rightarrow> time_value \<Rightarrow> string \<Rightarrow> string option \<Rightarrow> string option" where
  "core_encodeCursor dp createdAt ident srt =
     (case formatJsonTimestamp dp createdAt of
        None \<Rightarrow> None
      | Some stamp \<Rightarrow>
          (let base = stamp @ CHR ''|'' # ident;
               raw = (case srt of None \<Rightarrow> base | Some s \<Rightarrow> if s = [] then base else base @ CHR ''|'' # s)
           in Some (drop_trailing_eq (to_url_safe (btoa raw)))))"

definition core_decodeCursor :: "(string \<Rightarrow> int option) \<Rightarrow> string \<Rightarrow> core_cursor option" where
  "core_decodeCursor dp s =
     (let padded = from_url_safe s @ replicate ((4 - length s mod 4) mod 4) (CHR ''='') in
      case atob padded of
        None \<Rightarrow> None
      | Some raw \<Rightarrow>
          (let parts = split_on CHR ''|'' raw in
           if length parts < 2 \<or> 3 < length parts then None
           else
             (let createdAt = parts ! 0; ident = parts ! 1; srt = (if length parts = 3 then Some (parts ! 2) else None) in
              if createdAt = [] \<or> ident = [] then None
              else if srt \<noteq> None \<and> srt \<noteq> Some ''relevance'' \<and> srt \<noteq> Some ''latest'' then None
              else (case parseUtc dp (TText createdAt) of
                      None \<Rightarrow> None
                    | Some _ \<Rightarrow> Some \<lparr>cc_createdAt = createdAt, cc_id = ident, cc_sort = srt\<rparr>))))"

subsection \<open>Pages\<close>

record page =
  pg_limit :: nat
  pg_cursor :: "(string \<times> string) option"

definition pageOf :: "(string \<Rightarrow> int option) \<Rightarrow> request \<Rightarrow> core_exn + page" where
  "pageOf dp rq =
     (let raw = search_param rq ''limit''; encoded = search_param rq ''cursor'' in
      if raw \<noteq> [] \<and> \<not> positive_decimal raw then Inl (field_error ''limit'' ''must be a positive integer'')
      else
        (let limit = (if raw = [] then 50 else min (dec_val raw) 100) in
         if encoded = [] then Inr \<lparr>pg_limit = limit, pg_cursor = None\<rparr>
         else case core_decodeCursor dp encoded of
           None \<Rightarrow> Inl (field_error ''cursor'' ''invalid cursor'')
         | Some c \<Rightarrow>
             (case parseUuid (cc_id c) of
                None \<Rightarrow> Inl (field_error ''cursor'' ''invalid cursor'')
              | Some i \<Rightarrow> Inr \<lparr>pg_limit = limit, pg_cursor = Some (cc_createdAt c, i)\<rparr>)))"

record 'a page_result =
  pr_items :: "'a list"
  pr_next :: "string option"
  pr_more :: bool

text \<open>\<open>None\<close> is the \<open>bad timestamp\<close> thrown for the cursor of the last item.\<close>

definition pageResult :: "(string \<Rightarrow> int option) \<Rightarrow> 'a list \<Rightarrow> nat \<Rightarrow> ('a \<Rightarrow> time_value \<times> string) \<Rightarrow> 'a page_result option" where
  "pageResult dp items limit cursorOf =
     (if limit < length items
      then (let kept = take limit items; (stamp, i) = cursorOf (last kept) in
            map_option (\<lambda>c. \<lparr>pr_items = kept, pr_next = Some c, pr_more = True\<rparr>) (core_encodeCursor dp stamp i None))
      else Some \<lparr>pr_items = items, pr_next = None, pr_more = False\<rparr>)"

definition ts :: "(string \<Rightarrow> int option) \<Rightarrow> jv \<Rightarrow> core_exn + string option" where
  "ts dp v = (if blank v then Inr None
     else case formatJsonTimestamp dp (TText (js_String v)) of None \<Rightarrow> Inl (Thrown ''bad timestamp'') | Some s \<Rightarrow> Inr (Some s))"

text \<open>\<open>revisionUpdate\<close>: the row of the conditional \<open>UPDATE\<close>, or the reason it matched nothing.
  \<open>current\<close> is the revision of the row, if the user owns one with this id.\<close>

definition revision_result :: "'r option \<Rightarrow> int option \<Rightarrow> core_exn + 'r" where
  "revision_result updated current =
     (case updated of
        Some row \<Rightarrow> Inr row
      | None \<Rightarrow>
          (case current of
             None \<Rightarrow> Inl not_found_error
           | Some r \<Rightarrow> Inl (HttpError 409 ''REVISION_CONFLICT'' ''resource was modified'' (JObj [(''currentRevision'', JNum r)]))))"

subsection \<open>Cursors of the two workers\<close>

lemma core_url_atob:
  "core_decodeCursor dp (to_url_safe (b64_body raw)) =
     (let parts = split_on CHR ''|'' raw in
           if length parts < 2 \<or> 3 < length parts then None
           else
             (let createdAt = parts ! 0; ident = parts ! 1; srt = (if length parts = 3 then Some (parts ! 2) else None) in
              if createdAt = [] \<or> ident = [] then None
              else if srt \<noteq> None \<and> srt \<noteq> Some ''relevance'' \<and> srt \<noteq> Some ''latest'' then None
              else (case parseUtc dp (TText createdAt) of
                      None \<Rightarrow> None
                    | Some _ \<Rightarrow> Some \<lparr>cc_createdAt = createdAt, cc_id = ident, cc_sort = srt\<rparr>)))"
  unfolding core_decodeCursor_def Let_def url_atob by simp

text \<open>Cursors of the core worker. A cursor encoded for a row with a canonical timestamp and an id
  without a bar decodes to the same timestamp, id and sort order; and a cursor without a sort order
  is the same text in both workers and decodes to the same position in the gateway.\<close>

theorem core_cursor_roundtrip:
  assumes "parseUtc dp v = Some (fromEpoch ms micros)" and "printable ms micros"
    and "ident \<noteq> []" and "CHR ''|'' \<notin> set ident"
    and "srt = None \<or> srt = Some ''relevance'' \<or> srt = Some ''latest''"
  shows "\<exists>c. core_encodeCursor dp v ident srt = Some c
    \<and> core_decodeCursor dp c = Some \<lparr>cc_createdAt = parts_text (fromEpoch ms micros), cc_id = ident, cc_sort = srt\<rparr>
    \<and> (srt = None \<longrightarrow> encodeCursor dp v ident = Some c
         \<and> decodeCursor dp c = Some (parts_text (fromEpoch ms micros), ident))"
proof -
  let ?t = "parts_text (fromEpoch ms micros)"
  let ?base = "?t @ CHR ''|'' # ident"
  let ?raw = "case srt of None \<Rightarrow> ?base | Some s \<Rightarrow> ?base @ CHR ''|'' # s"
  have nb: "CHR ''|'' \<notin> set ?t" by (rule parts_text_no_bar [OF assms(2)])
  have ne: "?t \<noteq> []" by (simp add: parts_text_def base_text_def)
  have enc: "core_encodeCursor dp v ident srt = Some (to_url_safe (b64_body ?raw))"
    using assms(1,5) by (auto simp: core_encodeCursor_def formatJsonTimestamp_def url_btoa)
  have parts: "split_on CHR ''|'' ?raw = (case srt of None \<Rightarrow> [?t, ident] | Some s \<Rightarrow> [?t, ident, s])"
    using nb assms(4,5) by (auto simp: split_on_append_sep split_on_free)
  have dec: "core_decodeCursor dp (to_url_safe (b64_body ?raw)) = Some \<lparr>cc_createdAt = ?t, cc_id = ident, cc_sort = srt\<rparr>"
    unfolding core_url_atob Let_def parts
    using ne assms(3,5) parse_parts_text [OF assms(2), of dp] by auto
  have gate: "encodeCursor dp v ident = Some (to_url_safe (b64_body ?raw))" if "srt = None"
    using assms(1) that by (simp add: encodeCursor_def formatCursorTimestamp_def formatJsonTimestamp_def url_btoa)
  from decode_encode [OF assms(1-3)] gate have "decodeCursor dp (to_url_safe (b64_body ?raw)) = Some (?t, ident)"
    if "srt = None" using that by auto
  with enc dec gate show ?thesis by blast
qed

theorem core_cursor_roundtrip_witness:
  "\<exists>c. core_encodeCursor (\<lambda>_. None) (TText (parts_text (fromEpoch 1785553872345 345678))) ''j1'' (Some ''latest'') = Some c
    \<and> core_decodeCursor (\<lambda>_. None) c = Some \<lparr>cc_createdAt = parts_text (fromEpoch 1785553872345 345678), cc_id = ''j1'', cc_sort = Some ''latest''\<rparr>"
  using core_cursor_roundtrip [OF parse_parts_text [OF printable_example] printable_example, of "''j1''" "Some ''latest''" "\<lambda>_. None"]
  by auto

end
