(* ===== verification/Core_Body.thy ===== *)
theory Core_Body
  imports Core_Http Clock
begin

text \<open>
  \<open>services/core-api/src/body.ts\<close>: the strict reading of a JSON request body against a field
  specification, and of a time field. Numbers are the integers of the \<open>json\<close> type, so the kinds
  \<open>int\<close> and \<open>num\<close> accept the same values here.
\<close>

subsection \<open>Field specifications\<close>

datatype field_kind = KStr | KInt | KNum | KBool | KUuid | KUuids | KStrs | KObject | KAny

record field_spec =
  fs_kind :: field_kind
  fs_required :: bool
  fs_nullable :: bool

record body_values =
  bv_values :: "(string \<times> jv) list"
  bv_present :: "string list"

definition invalid :: core_exn where
  "invalid = HttpError 400 ''VALIDATION_ERROR'' ''invalid request body'' JNull"

text \<open>\<open>undefined\<close> is \<open>None\<close>.\<close>

definition fits_uuid :: "jv \<Rightarrow> jv option" where
  "fits_uuid v = (if nullish v then None else map_option JStr (parseUuid (js_String v)))"

definition fits_str :: "jv \<Rightarrow> jv option" where
  "fits_str v = (case v of JStr _ \<Rightarrow> Some v | _ \<Rightarrow> None)"

fun all_some :: "'a option list \<Rightarrow> 'a list option" where
  "all_some [] = Some []"
| "all_some (x # xs) = (case x of None \<Rightarrow> None | Some a \<Rightarrow> map_option ((#) a) (all_some xs))"

definition fits :: "field_kind \<Rightarrow> jv \<Rightarrow> jv option" where
  "fits kind v = (case kind of
       KAny \<Rightarrow> Some v
     | KStr \<Rightarrow> fits_str v
     | KInt \<Rightarrow> (case v of JNum _ \<Rightarrow> Some v | _ \<Rightarrow> None)
     | KNum \<Rightarrow> (case v of JNum _ \<Rightarrow> Some v | _ \<Rightarrow> None)
     | KBool \<Rightarrow> (case v of JBool _ \<Rightarrow> Some v | _ \<Rightarrow> None)
     | KUuid \<Rightarrow> fits_uuid v
     | KObject \<Rightarrow> (case v of JObj _ \<Rightarrow> Some v | _ \<Rightarrow> None)
     | KUuids \<Rightarrow> (case v of JArr vs \<Rightarrow> map_option JArr (all_some (map fits_uuid vs)) | _ \<Rightarrow> None)
     | KStrs \<Rightarrow> (case v of JArr vs \<Rightarrow> map_option JArr (all_some (map fits_str vs)) | _ \<Rightarrow> None))"

text \<open>\<open>key in spec\<close> also holds for the names every object inherits.\<close>

definition inherited :: "string list" where
  "inherited = [''constructor'', ''toString'', ''valueOf'', ''hasOwnProperty'', ''isPrototypeOf'',
     ''propertyIsEnumerable'', ''toLocaleString'', ''__proto__'', ''__defineGetter__'', ''__defineSetter__'',
     ''__lookupGetter__'', ''__lookupSetter__'']"

definition in_spec :: "string \<Rightarrow> (string \<times> field_spec) list \<Rightarrow> bool" where
  "in_spec key spec \<longleftrightarrow> key \<in> fst ` set spec \<or> key \<in> set inherited"

text \<open>The loop over the specification.\<close>

fun read_fields :: "jv \<Rightarrow> (string \<times> field_spec) list \<Rightarrow> core_exn + body_values" where
  "read_fields v [] = Inr \<lparr>bv_values = [], bv_present = []\<rparr>"
| "read_fields v ((key, f) # spec) =
     (if \<not> has_own v key then (if fs_required f then Inl invalid else read_fields v spec)
      else
        (case (if jget v key = JNull then (if fs_nullable f then Some JNull else None) else fits (fs_kind f) (jget v key)) of
           None \<Rightarrow> Inl invalid
         | Some x \<Rightarrow>
             (case read_fields v spec of
                Inl e \<Rightarrow> Inl e
              | Inr b \<Rightarrow> Inr \<lparr>bv_values = (key, x) # bv_values b, bv_present = key # bv_present b\<rparr>)))"

definition strictObject :: "jv \<Rightarrow> (string \<times> field_spec) list \<Rightarrow> core_exn + body_values" where
  "strictObject parsed spec =
     (case parsed of
        JObj kvs \<Rightarrow> if list_all (\<lambda>(k, _). in_spec k spec) kvs then read_fields parsed spec else Inl invalid
      | _ \<Rightarrow> Inl invalid)"

definition strictBody :: "(string \<Rightarrow> jv option) \<Rightarrow> request \<Rightarrow> (string \<times> field_spec) list \<Rightarrow> core_exn + body_values" where
  "strictBody jp rq spec =
     (if rq_body rq = [] then Inl (HttpError 400 ''VALIDATION_ERROR'' ''request body required'' JNull)
      else case jp (rq_body rq) of None \<Rightarrow> Inl invalid | Some v \<Rightarrow> strictObject v spec)"

definition value_of :: "body_values \<Rightarrow> string \<Rightarrow> jv" where
  "value_of b k = (case map_of (bv_values b) k of None \<Rightarrow> JUndef | Some v \<Rightarrow> v)"

subsection \<open>What it accepts\<close>

definition field_value :: "field_spec \<Rightarrow> jv \<Rightarrow> jv option" where
  "field_value f x = (if x = JNull then (if fs_nullable f then Some JNull else None) else fits (fs_kind f) x)"

definition field_ok :: "jv \<Rightarrow> string \<times> field_spec \<Rightarrow> bool" where
  "field_ok v kf = (case kf of (k, f) \<Rightarrow> if has_own v k then field_value f (jget v k) \<noteq> None else \<not> fs_required f)"

lemma read_fields_cases:
  "read_fields v spec =
     (if list_all (field_ok v) spec
      then Inr \<lparr>bv_values = map (\<lambda>(k, f). (k, the (field_value f (jget v k)))) (filter (\<lambda>(k, f). has_own v k) spec),
                bv_present = map fst (filter (\<lambda>(k, f). has_own v k) spec)\<rparr>
      else Inl invalid)"
  by (induction v spec rule: read_fields.induct)
    (auto simp: field_ok_def field_value_def [symmetric] split: option.splits)

lemma all_some_Some: "all_some xs = Some ys \<Longrightarrow> length ys = length xs \<and> (\<forall>i < length xs. xs ! i = Some (ys ! i))"
proof (induction xs arbitrary: ys)
  case (Cons x xs)
  then obtain a zs where "x = Some a" "all_some xs = Some zs" "ys = a # zs" by (auto split: option.splits)
  with Cons.IH [of zs] show ?case by (auto simp: nth_Cons split: nat.split)
qed simp

text \<open>A value of the kind, as the handlers rely on it.\<close>

fun has_kind :: "field_kind \<Rightarrow> jv \<Rightarrow> bool" where
  "has_kind KStr v = (\<exists>s. v = JStr s)"
| "has_kind KInt v = (\<exists>n. v = JNum n)"
| "has_kind KNum v = (\<exists>n. v = JNum n)"
| "has_kind KBool v = (\<exists>b. v = JBool b)"
| "has_kind KUuid v = (\<exists>s. v = JStr s \<and> uuid_shape s \<and> toLowerCase s = s)"
| "has_kind KObject v = (\<exists>kvs. v = JObj kvs)"
| "has_kind KUuids v = (\<exists>vs. v = JArr vs \<and> (\<forall>x \<in> set vs. \<exists>s. x = JStr s \<and> uuid_shape s \<and> toLowerCase s = s))"
| "has_kind KStrs v = (\<exists>vs. v = JArr vs \<and> (\<forall>x \<in> set vs. \<exists>s. x = JStr s))"
| "has_kind KAny v = True"

lemma fits_uuid_kind: "fits_uuid v = Some x \<Longrightarrow> \<exists>s. x = JStr s \<and> uuid_shape s \<and> toLowerCase s = s"
  by (auto simp: fits_uuid_def split: if_splits dest: parseUuid_shape)

lemma fits_str_kind: "fits_str v = Some x \<Longrightarrow> \<exists>s. x = JStr s"
  by (auto simp: fits_str_def split: json.splits)

lemma all_some_all: "all_some (map g vs) = Some ys \<Longrightarrow> (\<And>v x. g v = Some x \<Longrightarrow> P x) \<Longrightarrow> \<forall>y \<in> set ys. P y"
  by (induction vs arbitrary: ys) (auto split: option.splits)

lemma all_some_uuid:
  "all_some (map fits_uuid vs) = Some ys \<Longrightarrow> \<forall>y \<in> set ys. \<exists>s. y = JStr s \<and> uuid_shape s \<and> toLowerCase s = s"
  by (erule all_some_all) (erule fits_uuid_kind)

lemma all_some_str: "all_some (map fits_str vs) = Some ys \<Longrightarrow> \<forall>y \<in> set ys. \<exists>s. y = JStr s"
  by (erule all_some_all) (erule fits_str_kind)

lemma fits_kind: "fits kind v = Some x \<Longrightarrow> has_kind kind x"
  by (cases kind)
    (auto simp: fits_def dest: fits_uuid_kind fits_str_kind dest!: all_some_uuid all_some_str split: json.splits)

text \<open>A strict body. Reading succeeds exactly on an object that names no unknown field (inherited
  names aside), has every required field, and whose fields fit their kinds or are null where that
  is allowed; then the values are exactly the given fields of the specification, each of its kind,
  and every failure is the same 400.\<close>

theorem strictObject_exact:
  assumes "distinct (map fst spec)"
  shows "(strictObject v spec = Inl invalid \<or> (\<exists>b. strictObject v spec = Inr b))
    \<and> ((\<exists>b. strictObject v spec = Inr b) \<longleftrightarrow>
        (\<exists>kvs. v = JObj kvs \<and> list_all (\<lambda>(k, _). in_spec k spec) kvs) \<and> list_all (field_ok v) spec)
    \<and> (\<forall>b k f. strictObject v spec = Inr b \<and> (k, f) \<in> set spec \<longrightarrow>
         (k \<in> set (bv_present b) \<longleftrightarrow> has_own v k)
         \<and> (has_own v k \<longrightarrow> field_value f (jget v k) = Some (value_of b k)
              \<and> (value_of b k = JNull \<and> fs_nullable f \<or> has_kind (fs_kind f) (value_of b k))))"
proof (intro conjI allI impI)
  show "strictObject v spec = Inl invalid \<or> (\<exists>b. strictObject v spec = Inr b)"
    by (auto simp: strictObject_def read_fields_cases split: json.splits)
  show "(\<exists>b. strictObject v spec = Inr b) \<longleftrightarrow>
        (\<exists>kvs. v = JObj kvs \<and> list_all (\<lambda>(k, _). in_spec k spec) kvs) \<and> list_all (field_ok v) spec"
    by (auto simp: strictObject_def read_fields_cases split: json.splits)
  fix b k f assume a: "strictObject v spec = Inr b \<and> (k, f) \<in> set spec"
  then have ok: "list_all (field_ok v) spec" and
    b: "b = \<lparr>bv_values = map (\<lambda>(k, f). (k, the (field_value f (jget v k)))) (filter (\<lambda>(k, f). has_own v k) spec),
             bv_present = map fst (filter (\<lambda>(k, f). has_own v k) spec)\<rparr>"
    by (auto simp: strictObject_def read_fields_cases split: json.splits if_splits)
  show "k \<in> set (bv_present b) \<longleftrightarrow> has_own v k"
    using a by (force simp: b)
  assume own: "has_own v k"
  with a ok have fv: "field_value f (jget v k) \<noteq> None" by (auto simp: list_all_iff field_ok_def)
  have "map_of (bv_values b) k = Some (the (field_value f (jget v k)))"
  proof (rule map_of_is_SomeI)
    have "map fst (bv_values b) = map fst (filter (\<lambda>(k, f). has_own v k) spec)" by (simp add: b case_prod_beta)
    then show "distinct (map fst (bv_values b))" using assms by (simp add: distinct_map_filter)
    show "(k, the (field_value f (jget v k))) \<in> set (bv_values b)" using a own by (force simp: b)
  qed
  then have val: "field_value f (jget v k) = Some (value_of b k)" using fv by (auto simp: value_of_def)
  then show "field_value f (jget v k) = Some (value_of b k)" .
  show "value_of b k = JNull \<and> fs_nullable f \<or> has_kind (fs_kind f) (value_of b k)"
    using val fits_kind by (auto simp: field_value_def split: if_splits)
qed

definition demo_spec :: "(string \<times> field_spec) list" where
  "demo_spec = [(''title'', \<lparr>fs_kind = KStr, fs_required = True, fs_nullable = False\<rparr>),
     (''pinned'', \<lparr>fs_kind = KBool, fs_required = False, fs_nullable = True\<rparr>)]"

theorem strictObject_exact_witness:
  "\<exists>b. strictObject (JObj [(''pinned'', JNull), (''title'', JStr ''x'')]) demo_spec = Inr b \<and> value_of b ''title'' = JStr ''x''"
proof -
  let ?v = "JObj [(''pinned'', JNull), (''title'', JStr ''x'')]"
  have d: "distinct (map fst demo_spec)" by (simp add: demo_spec_def)
  have "list_all (field_ok ?v) demo_spec" "list_all (\<lambda>(k, _). in_spec k demo_spec) [(''pinned'', JNull), (''title'', JStr ''x'')]"
    by (simp_all add: demo_spec_def field_ok_def has_own_def Prelude.fields_def field_value_def jget_def fits_def fits_str_def in_spec_def)
  with strictObject_exact [OF d, of ?v] obtain b where b: "strictObject ?v demo_spec = Inr b" by blast
  have own: "has_own ?v ''title''" by (simp add: has_own_def Prelude.fields_def)
  have m: "(''title'', \<lparr>fs_kind = KStr, fs_required = True, fs_nullable = False\<rparr>) \<in> set demo_spec" by (simp add: demo_spec_def)
  have "field_value \<lparr>fs_kind = KStr, fs_required = True, fs_nullable = False\<rparr> (jget ?v ''title'') = Some (value_of b ''title'')"
    using strictObject_exact [OF d, of ?v] b m own by blast
  then have "value_of b ''title'' = JStr ''x''"
    by (simp add: field_value_def jget_def Prelude.fields_def fits_def fits_str_def)
  with b show ?thesis by blast
qed

subsection \<open>Time fields\<close>

text \<open>The groups of \<open>RFC3339\<close>: year, month, day; hour, minute, second, fraction when given; zone.\<close>

record rfc_time =
  rf_h :: string
  rf_mi :: string
  rf_s :: string
  rf_frac :: string

definition no_time :: rfc_time where
  "no_time = \<lparr>rf_h = ''00'', rf_mi = ''00'', rf_s = ''00'', rf_frac = []\<rparr>"

definition rfc_zone :: "string \<Rightarrow> string option" where
  "rfc_zone s = (case s of
       [] \<Rightarrow> Some ''Z''
     | c # r \<Rightarrow>
         if s = ''Z'' \<or> s = ''z'' then Some s
         else if c = CHR ''+'' \<or> c = CHR ''-'' then
           (case scan_digits 2 r of
              None \<Rightarrow> None
            | Some (hh, r1) \<Rightarrow>
                (let r2 = (if startsWith r1 '':'' then tl r1 else r1)
                 in case scan_digits 2 r2 of Some (mm, []) \<Rightarrow> Some s | _ \<Rightarrow> None))
         else None)"

definition rfc_fraction :: "string \<Rightarrow> (string \<times> string) option" where
  "rfc_fraction s = (case s of
       c # r \<Rightarrow> if c = CHR ''.''
         then (case take_digits r of (ds, r') \<Rightarrow> if ds \<noteq> [] \<and> length ds \<le> 6 then Some (ds, r') else None)
         else Some ([], s)
     | [] \<Rightarrow> Some ([], []))"

definition rfc_clock :: "string \<Rightarrow> (rfc_time \<times> string) option" where
  "rfc_clock s = do {
     (h, s) \<leftarrow> scan_digits 2 s; s \<leftarrow> scan_char '':'' s;
     (mi, s) \<leftarrow> scan_digits 2 s;
     if startsWith s '':'' then do {
       (sec, s) \<leftarrow> scan_digits 2 (tl s);
       (frac, s) \<leftarrow> rfc_fraction s;
       Some (\<lparr>rf_h = h, rf_mi = mi, rf_s = sec, rf_frac = frac\<rparr>, s)
     } else Some (\<lparr>rf_h = h, rf_mi = mi, rf_s = ''00'', rf_frac = []\<rparr>, s)
   }"

definition match_rfc3339 :: "string \<Rightarrow> (string \<times> string \<times> string \<times> rfc_time \<times> string) option" where
  "match_rfc3339 s0 = do {
     (y, s) \<leftarrow> scan_digits 4 s0; s \<leftarrow> scan_char ''-'' s;
     (mo, s) \<leftarrow> scan_digits 2 s; s \<leftarrow> scan_char ''-'' s;
     (d, s) \<leftarrow> scan_digits 2 s;
     (t, s) \<leftarrow> (case scan_char ''Tt '' s of None \<Rightarrow> Some (no_time, s) | Some s' \<Rightarrow> rfc_clock s');
     z \<leftarrow> rfc_zone s;
     Some (y, mo, d, t, z)
   }"

definition parseTimeField :: "(string \<Rightarrow> int option) \<Rightarrow> jv \<Rightarrow> string \<Rightarrow> core_exn + string" where
  "parseTimeField dp v field =
     (case (case v of JStr s \<Rightarrow> match_rfc3339 s | _ \<Rightarrow> None) of
        None \<Rightarrow> Inl (field_error field ''must be RFC3339'')
      | Some (y, mo, d, t, zone) \<Rightarrow>
          (let day = date_utc (int (dec_val y)) (int (dec_val mo) - 1) (int (dec_val d)) 0 0 0 0;
               valid = (utc_year day = int (dec_val y) \<and> utc_month day = int (dec_val mo) - 1 \<and> utc_date day = int (dec_val d)
                 \<and> dec_val (rf_h t) < 24 \<and> dec_val (rf_mi t) < 60 \<and> dec_val (rf_s t) < 60)
           in if \<not> valid then Inl (field_error field ''must be RFC3339'')
              else (case formatJsonTimestamp dp (TText (y @ ''-'' @ mo @ ''-'' @ d @ ''T'' @ rf_h t @ '':'' @ rf_mi t @ '':'' @ rf_s t
                      @ (if rf_frac t = [] then [] else ''.'' @ rf_frac t) @ toUpperCase zone)) of
                      None \<Rightarrow> Inl (Thrown ''bad timestamp'')
                    | Some s \<Rightarrow> Inr s)))"

end
