(* ===== verification/Job_Config.thy ===== *)
theory Job_Config
  imports Core_Http
begin

text \<open>
  \<open>services/core-api/src/jobs/config.ts\<close> and the amounts of \<open>billing/credits.ts\<close>: job types, plans,
  the queue a job is placed on, what a job reserves and what a plan grants. Plans are ordered by
  \<open>PLAN_RANK\<close>.
\<close>

datatype job_type = JT_chat | JT_employer_ai | JT_document | JT_fit | JT_ingest | JT_notify

datatype queue_name = Q_chat_priority | Q_chat | Q_document | Q_ingest | Q_notify | Q_dead

datatype plan = FREE | BASIC | PRO | ULTRA

datatype audience = PERSONAL | EMPLOYER

datatype gate = Employer_interview | Pdf_attachment

fun PLAN_RANK :: "plan \<Rightarrow> nat" where
  "PLAN_RANK FREE = 0"
| "PLAN_RANK BASIC = 1"
| "PLAN_RANK PRO = 2"
| "PLAN_RANK ULTRA = 3"

instantiation plan :: linorder
begin

definition less_eq_plan :: "plan \<Rightarrow> plan \<Rightarrow> bool" where
  "less_eq_plan p q \<longleftrightarrow> PLAN_RANK p \<le> PLAN_RANK q"

definition less_plan :: "plan \<Rightarrow> plan \<Rightarrow> bool" where
  "less_plan p q \<longleftrightarrow> PLAN_RANK p < PLAN_RANK q"

instance
proof
  fix x y :: plan
  show "x \<le> y \<Longrightarrow> y \<le> x \<Longrightarrow> x = y"
    by (cases x; cases y) (simp_all add: less_eq_plan_def)
qed (auto simp: less_eq_plan_def less_plan_def)

end

fun plan_text :: "plan \<Rightarrow> string" where
  "plan_text FREE = ''FREE''"
| "plan_text BASIC = ''BASIC''"
| "plan_text PRO = ''PRO''"
| "plan_text ULTRA = ''ULTRA''"

fun type_text :: "job_type \<Rightarrow> string" where
  "type_text JT_chat = ''chat''"
| "type_text JT_employer_ai = ''employer_ai''"
| "type_text JT_document = ''document''"
| "type_text JT_fit = ''fit''"
| "type_text JT_ingest = ''ingest''"
| "type_text JT_notify = ''notify''"

fun queue_text :: "queue_name \<Rightarrow> string" where
  "queue_text Q_chat_priority = ''q:chat:priority''"
| "queue_text Q_chat = ''q:chat''"
| "queue_text Q_document = ''q:document''"
| "queue_text Q_ingest = ''q:ingest''"
| "queue_text Q_notify = ''q:notify''"
| "queue_text Q_dead = ''q:dead''"

subsection \<open>Tables\<close>

fun ESTIMATE_MICRO :: "job_type \<Rightarrow> int" where
  "ESTIMATE_MICRO JT_chat = 60000"
| "ESTIMATE_MICRO JT_employer_ai = 120000"
| "ESTIMATE_MICRO JT_document = 80000"
| "ESTIMATE_MICRO JT_fit = 20000"
| "ESTIMATE_MICRO JT_ingest = 0"
| "ESTIMATE_MICRO JT_notify = 0"

fun DEPTH_LIMIT :: "plan \<Rightarrow> nat" where
  "DEPTH_LIMIT FREE = 20"
| "DEPTH_LIMIT BASIC = 40"
| "DEPTH_LIMIT PRO = 200"
| "DEPTH_LIMIT ULTRA = 1000"

fun MAX_ATTEMPTS :: "job_type \<Rightarrow> nat" where
  "MAX_ATTEMPTS JT_chat = 4"
| "MAX_ATTEMPTS JT_employer_ai = 4"
| "MAX_ATTEMPTS JT_document = 3"
| "MAX_ATTEMPTS JT_fit = 3"
| "MAX_ATTEMPTS JT_ingest = 4"
| "MAX_ATTEMPTS JT_notify = 5"

fun REQUIRED_PLAN :: "gate \<Rightarrow> plan \<times> string" where
  "REQUIRED_PLAN Employer_interview = (PRO, ''interview requires the PRO plan'')"
| "REQUIRED_PLAN Pdf_attachment = (ULTRA, ''pdf attachments require the ULTRA plan'')"

definition RETRY_AFTER_SEC :: int where "RETRY_AFTER_SEC = 30"

subsection \<open>Functions\<close>

definition plan_of_text :: "string \<Rightarrow> plan" where
  "plan_of_text raw = (if raw = ''BASIC'' then BASIC else if raw = ''PRO'' then PRO
     else if raw = ''ULTRA'' then ULTRA else FREE)"

definition planTier :: "jv \<Rightarrow> plan" where
  "planTier v = plan_of_text (if nullish v then [] else toUpperCase (js_trim (js_String v)))"

definition assertPlanAllows :: "jv \<Rightarrow> gate \<Rightarrow> core_exn + unit" where
  "assertPlanAllows v gt =
     (case REQUIRED_PLAN gt of (need, message) \<Rightarrow>
        if PLAN_RANK (planTier v) < PLAN_RANK need
        then Inl (HttpError 403 ''PLAN_REQUIRED'' message (JObj [(''requiredPlan'', JStr (plan_text need))]))
        else Inr ())"

definition estimateMicro :: "job_type \<Rightarrow> plan \<Rightarrow> int" where
  "estimateMicro t p = (let base = ESTIMATE_MICRO t in
     if p = ULTRA then base * 2 else if p = PRO then base + base div 2 else base)"

definition queueDepthLimit :: "plan \<Rightarrow> nat" where "queueDepthLimit = DEPTH_LIMIT"

definition maxAttempts :: "job_type \<Rightarrow> nat" where "maxAttempts = MAX_ATTEMPTS"

definition queueFor :: "job_type \<Rightarrow> plan \<Rightarrow> audience \<Rightarrow> queue_name" where
  "queueFor t p a =
     (if t = JT_notify then Q_notify
      else if t = JT_ingest then Q_ingest
      else if t = JT_document \<or> t = JT_fit then Q_document
      else (let priority = (a = EMPLOYER \<and> (p = PRO \<or> p = ULTRA)) \<or> (a = PERSONAL \<and> p = ULTRA) in
            if priority then Q_chat_priority else Q_chat))"

subsection \<open>Grants\<close>

definition DISPLAY_MICRO :: nat where "DISPLAY_MICRO = 6000"

definition PERSONAL_GRANT :: "(string \<times> int) list" where
  "PERSONAL_GRANT = [(''FREE'', 1800000), (''PRO'', 27000000), (''ULTRA'', 108000000)]"

definition EMPLOYER_GRANT :: "(string \<times> int) list" where
  "EMPLOYER_GRANT = [(''BASIC'', 18000000), (''PRO'', 90000000), (''ULTRA'', 180000000)]"

text \<open>\<open>table[plan] ?? 0\<close>; the callers pass names of plans, which no object inherits.\<close>

definition grantMicro :: "audience \<Rightarrow> string \<Rightarrow> int" where
  "grantMicro a p = (case map_of (if a = EMPLOYER then EMPLOYER_GRANT else PERSONAL_GRANT) p of
     None \<Rightarrow> 0 | Some n \<Rightarrow> n)"

text \<open>The source computes with a \<open>Number\<close>, which rounds above \<open>2^53\<close>: the two agree for settings below about
  \<open>1.5 * 10^12\<close> credits.\<close>

definition iapTopupMicro :: "string option \<Rightarrow> nat" where
  "iapTopupMicro raw = (let txt = js_trim (or_empty raw) in
     if txt = [] then 300 * DISPLAY_MICRO
     else if \<not> positive_decimal txt then 300 * DISPLAY_MICRO
     else dec_val txt * DISPLAY_MICRO)"

subsection \<open>Lemmas\<close>

lemma estimateMicro_nonneg [simp]: "0 \<le> estimateMicro t p"
  by (cases t; cases p) (simp_all add: estimateMicro_def)

lemma grantMicro_nonneg [simp]: "0 \<le> grantMicro a p"
  by (simp add: grantMicro_def PERSONAL_GRANT_def EMPLOYER_GRANT_def)

lemma upper_char_plan_text [simp]: "toUpperCase (plan_text p) = plan_text p" "js_trim (plan_text p) = plan_text p"
  by (cases p; simp add: js_defs)+

lemma plan_of_plan_text [simp]: "plan_of_text (plan_text p) = p"
  by (cases p) (simp_all add: plan_of_text_def)

lemma planTier_plan_text [simp]: "planTier (JStr (plan_text p)) = p"
  by (simp add: planTier_def nullish_def)

end
