(* ===== verification/Once.thy ===== *)
theory Once
  imports Prelude
begin

text \<open>
  The contract of an insert that does nothing when its key is already there (\<open>ON CONFLICT \<dots> DO
  NOTHING\<close>): repeating inserts changes nothing. The ledger, the processed events and the other
  tables written this way interpret it.
\<close>

locale once =
  fixes ins :: "'r \<Rightarrow> 's \<Rightarrow> 's"
    and key :: "'r \<Rightarrow> 'k"
    and has :: "'k \<Rightarrow> 's \<Rightarrow> bool"
  assumes present: "has (key r) s \<Longrightarrow> ins r s = s"
    and inserted: "has (key r) (ins r s)"
    and kept: "has k s \<Longrightarrow> has k (ins r s)"
    and only: "has k (ins r s) \<Longrightarrow> has k s \<or> k = key r"
begin

lemma has_ins: "has k (ins r s) \<longleftrightarrow> has k s \<or> k = key r"
  using inserted kept only by blast

lemma has_fold: "has k (fold ins rs s) \<longleftrightarrow> has k s \<or> k \<in> key ` set rs"
  by (induction rs arbitrary: s) (auto simp: has_ins)

lemma again: "key r' = key r \<Longrightarrow> ins r' (ins r s) = ins r s"
  using present inserted by metis

lemma all_present: "(\<And>r. r \<in> set rs \<Longrightarrow> has (key r) s) \<Longrightarrow> fold ins rs s = s"
  by (induction rs) (auto simp: present)

lemma repeats: "key ` set rs' \<subseteq> key ` set rs \<Longrightarrow> fold ins rs' (fold ins rs s) = fold ins rs s"
  by (rule all_present) (auto simp: has_fold)

end

end
