(* ===== verification/Credits.thy ===== *)
theory Credits
  imports Job_Config Clock Once "HOL-Library.Char_ord" "HOL-Library.List_Lexorder" "HOL-Library.Product_Lexorder"
begin

text \<open>
  \<open>services/core-api/src/billing/credits.ts\<close> and \<open>jobs/credits.ts\<close>: the credit ledger, the plan's
  monthly grant and the balance a job may reserve. The tables are lists of rows in the order of
  their insertion; \<open>ORDER BY created_at DESC, id DESC LIMIT 1\<close> is the row with the greatest pair.
  Times are milliseconds since the epoch.
\<close>

subsection \<open>Tables\<close>

record ledger_row =
  lg_id :: string
  lg_user :: "string option"
  lg_company :: "string option"
  lg_type :: string
  lg_amount :: int
  lg_balance :: int
  lg_reference :: string
  lg_at :: int

record usage_row =
  us_user :: string
  us_cost :: int
  us_status :: string

record reservation =
  rv_job :: string
  rv_user :: string
  rv_company :: "string option"
  rv_amount :: int
  rv_status :: string

record ai_job =
  aj_id :: string
  aj_type :: job_type
  aj_queue :: queue_name
  aj_user :: string
  aj_company :: "string option"
  aj_plan :: plan
  aj_status :: string
  aj_attempts :: nat
  aj_max :: nat
  aj_payload :: jv
  aj_key :: "string option"
  aj_conversation :: "string option"

text \<open>\<open>usage_table\<close> is \<open>None\<close> while the table \<open>ai_usage\<close> does not exist; \<open>kicks\<close> are the requests sent
  to the dispatcher: its address, the secret and the queue.\<close>

record job_db =
  ledger :: "ledger_row list"
  usage_table :: "usage_row list option"
  reservations :: "reservation list"
  ai_jobs :: "ai_job list"
  outbox :: "(string \<times> queue_name) list"
  members :: "(string \<times> string) list"
  kicks :: "(string \<times> string \<times> queue_name) list"

text \<open>Whose credits: a user's own, or a company's. An empty company id is falsy, but \<open>??\<close> keeps it.\<close>

datatype account = User string | Company string

definition account_of :: "string \<Rightarrow> string option \<Rightarrow> account" where
  "account_of u c = (case c of None \<Rightarrow> User u | Some i \<Rightarrow> if i = [] then User i else Company i)"

definition on_account :: "account \<Rightarrow> ledger_row \<Rightarrow> bool" where
  "on_account a r = (case a of User u \<Rightarrow> lg_user r = Some u
     | Company c \<Rightarrow> lg_company r = Some c \<and> lg_user r = None)"

definition row_key :: "ledger_row \<Rightarrow> int \<times> string" where
  "row_key r = (lg_at r, lg_id r)"

fun latest :: "ledger_row list \<Rightarrow> ledger_row option" where
  "latest [] = None"
| "latest (r # rs) = (case latest rs of None \<Rightarrow> Some r
     | Some x \<Rightarrow> if row_key r < row_key x then Some x else Some r)"

subsection \<open>Balances\<close>

definition chargedMicro :: "account \<Rightarrow> 'z job_db_scheme \<Rightarrow> int" where
  "chargedMicro a db = (case latest (filter (on_account a) (ledger db)) of None \<Rightarrow> 0 | Some r \<Rightarrow> lg_balance r)"

definition settled_sql :: "account \<Rightarrow> ('z job_db_scheme, int) core_prog" where
  "settled_sql a db = (case usage_table db of
       None \<Rightarrow> (Inl (DbError ''42P01'' ''relation ai_usage does not exist''), db)
     | Some us \<Rightarrow> (Inr (sum_list (map us_cost (filter (\<lambda>r. us_status r = ''SETTLED''
         \<and> (case a of User u \<Rightarrow> us_user r = u | Company c \<Rightarrow> (us_user r, c) \<in> set (members db))) us))), db))"

definition settledMicro :: "account \<Rightarrow> ('z job_db_scheme, int) core_prog" where
  "settledMicro a = catching (settled_sql a) (\<lambda>x. if isMissingRelation x then ret 0 else throw x)"

definition reservedMicro :: "account \<Rightarrow> 'z job_db_scheme \<Rightarrow> int" where
  "reservedMicro a db = sum_list (map rv_amount (filter (\<lambda>r. rv_status r = ''RESERVED''
     \<and> (case a of User u \<Rightarrow> rv_user r = u | Company c \<Rightarrow> rv_company r = Some c)) (reservations db)))"

definition availableMicro :: "string \<Rightarrow> string option \<Rightarrow> ('z job_db_scheme, int) core_prog" where
  "availableMicro u c =
     (let a = account_of u c in
      and_then (reading (chargedMicro a)) (\<lambda>charged.
      and_then (settledMicro a) (\<lambda>settled.
      and_then (reading (reservedMicro a)) (\<lambda>reserved. ret (charged - settled - reserved)))))"

definition insufficient :: core_exn where
  "insufficient = HttpError 402 ''INSUFFICIENT_CREDITS'' ''insufficient credits'' JNull"

definition reserveCredits :: "string \<Rightarrow> string option \<Rightarrow> int \<Rightarrow> ('z job_db_scheme, unit) core_prog" where
  "reserveCredits u c amount =
     (if amount \<le> 0 then ret ()
      else and_then (availableMicro u c) (\<lambda>available. guard (amount \<le> available) insufficient (ret ())))"

subsection \<open>Grants\<close>

text \<open>\<open>toISOString().slice(0, 7)\<close>.\<close>

definition iso_month :: "int \<Rightarrow> string" where
  "iso_month now = pad (utc_year now) 4 @ CHR ''-'' # pad (utc_month now + 1) 2"

definition monthly_reference :: "int \<Rightarrow> string" where
  "monthly_reference now = ''monthly:'' @ iso_month now"

definition account_row :: "account \<Rightarrow> string \<Rightarrow> int \<Rightarrow> string \<Rightarrow> int \<Rightarrow> int \<Rightarrow> ledger_row" where
  "account_row a ident amount reference now balance =
     \<lparr>lg_id = ident, lg_user = (case a of User u \<Rightarrow> Some u | Company _ \<Rightarrow> None),
      lg_company = (case a of User _ \<Rightarrow> None | Company c \<Rightarrow> Some c),
      lg_type = ''PURCHASE'', lg_amount = amount, lg_balance = balance, lg_reference = reference, lg_at = now\<rparr>"

definition in_unique_index :: "account \<Rightarrow> ledger_row \<Rightarrow> bool" where
  "in_unique_index a r = (case a of User u \<Rightarrow> lg_user r = Some u | Company c \<Rightarrow> lg_company r = Some c)"

definition granted :: "account \<times> string \<Rightarrow> 'z job_db_scheme \<Rightarrow> bool" where
  "granted k db = (case k of (a, reference) \<Rightarrow>
     \<exists>r \<in> set (ledger db). in_unique_index a r \<and> lg_type r = ''PURCHASE'' \<and> lg_reference r = reference)"

text \<open>\<open>USER_GRANT\<close> and \<open>COMPANY_GRANT\<close>: a row of the same owner, type and reference turns the insert
  into nothing.\<close>

definition grant_sql :: "account \<Rightarrow> string \<Rightarrow> int \<Rightarrow> string \<Rightarrow> int \<Rightarrow> 'z job_db_scheme \<Rightarrow> 'z job_db_scheme" where
  "grant_sql a ident amount reference now db =
     (if granted (a, reference) db then db
      else db\<lparr>ledger := ledger db @ [account_row a ident amount reference now (chargedMicro a db + amount)]\<rparr>)"

definition ensureMonthlyGrant :: "string \<Rightarrow> audience \<Rightarrow> string option \<Rightarrow> string \<Rightarrow> int \<Rightarrow> 'z job_db_scheme \<Rightarrow> 'z job_db_scheme" where
  "ensureMonthlyGrant uuid aud p ownerId now db =
     (let name = or_else (js_trim (or_empty p)) (if aud = PERSONAL then ''FREE'' else []);
          amount = grantMicro aud name
      in if amount \<le> 0 then db
         else grant_sql (if aud = EMPLOYER then Company ownerId else User ownerId) uuid amount (monthly_reference now) now db)"

subsection \<open>The ledger\<close>

lemma latest_snoc: "latest (rs @ [x]) = (case latest rs of None \<Rightarrow> Some x
    | Some y \<Rightarrow> if row_key y < row_key x then Some x else Some y)"
  by (induction rs) (auto split: option.splits dest: less_trans)

lemma latest_None [simp]: "latest rs = None \<longleftrightarrow> rs = []"
  by (cases rs) (auto split: option.splits)

lemma latest_greatest: "latest rs = Some y \<Longrightarrow> y \<in> set rs \<and> (\<forall>r \<in> set rs. row_key r \<le> row_key y)"
proof (induction rs arbitrary: y)
  case (Cons r rs)
  then show ?case
    by (cases "latest rs") (auto split: if_splits simp: not_less intro: less_imp_le order_trans)
qed simp

lemma on_account_row [simp]: "on_account a' (account_row a ident amount reference now b) \<longleftrightarrow> a' = a"
  by (cases a; cases a') (auto simp: on_account_def account_row_def)

lemma in_unique_index_row [simp]: "in_unique_index a' (account_row a ident amount reference now b) \<longleftrightarrow> a' = a"
  by (cases a; cases a') (auto simp: in_unique_index_def account_row_def)

lemma account_row_fields [simp]:
  "lg_type (account_row a ident amount reference now b) = ''PURCHASE''"
  "lg_reference (account_row a ident amount reference now b) = reference"
  "lg_at (account_row a ident amount reference now b) = now" "lg_id (account_row a ident amount reference now b) = ident"
  "lg_balance (account_row a ident amount reference now b) = b" "lg_amount (account_row a ident amount reference now b) = amount"
  by (simp_all add: account_row_def)

lemma grant_sql_tables [simp]:
  "usage_table (grant_sql a i n r t db) = usage_table db" "reservations (grant_sql a i n r t db) = reservations db"
  "ai_jobs (grant_sql a i n r t db) = ai_jobs db" "outbox (grant_sql a i n r t db) = outbox db"
  "members (grant_sql a i n r t db) = members db" "kicks (grant_sql a i n r t db) = kicks db"
  by (simp_all add: grant_sql_def)

definition newest :: "account \<Rightarrow> int \<times> string \<Rightarrow> 'z job_db_scheme \<Rightarrow> bool" where
  "newest a k db \<longleftrightarrow> (\<forall>r \<in> set (ledger db). on_account a r \<longrightarrow> row_key r < k)"

lemma newest_latest:
  "newest a k db \<longleftrightarrow> (case latest (filter (on_account a) (ledger db)) of None \<Rightarrow> True | Some y \<Rightarrow> row_key y < k)"
proof (cases "latest (filter (on_account a) (ledger db))")
  case None
  then show ?thesis by (auto simp: newest_def filter_empty_conv)
next
  case (Some y)
  from latest_greatest [OF this] show ?thesis
    using Some by (auto simp: newest_def intro: le_less_trans)
qed

lemma charged_grant:
  "chargedMicro a' (grant_sql a ident amount reference now db) =
     chargedMicro a' db + (if a' = a \<and> \<not> granted (a, reference) db \<and> newest a (now, ident) db then amount else 0)"
  by (auto simp: grant_sql_def chargedMicro_def latest_snoc newest_latest row_key_def [of "account_row _ _ _ _ _ _"] split: option.split)

lemma granted_grant_sql:
  "granted k (grant_sql a ident amount reference now db) \<longleftrightarrow> granted k db \<or> k = (a, reference)"
  by (auto simp: grant_sql_def granted_def)

interpretation grants: once "\<lambda>(a, ident, amount, reference, now). grant_sql a ident amount reference now"
    "\<lambda>(a, ident, amount, reference, now). (a, reference)" granted
  by unfold_locales (auto simp: granted_grant_sql, simp add: grant_sql_def)

text \<open>A ledger insert. It writes a row exactly when the owner has no purchase with that reference. The
  owner's balance grows by the amount exactly when a row is written and no row of the owner is
  later than it; a row dated before one already written does not count, whatever its amount. No
  other balance changes.\<close>

theorem grant_effect:
  "(ledger (grant_sql a ident amount reference now db) = ledger db) = granted (a, reference) db
   \<and> chargedMicro b (grant_sql a ident amount reference now db) =
       chargedMicro b db + (if b = a \<and> \<not> granted (a, reference) db \<and> newest a (now, ident) db then amount else 0)"
  by (intro conjI, simp add: grant_sql_def, rule charged_grant)

subsection \<open>Monthly grants\<close>

definition plan_name :: "audience \<Rightarrow> string option \<Rightarrow> string" where
  "plan_name aud p = or_else (js_trim (or_empty p)) (if aud = PERSONAL then ''FREE'' else [])"

definition owner_account :: "audience \<Rightarrow> string \<Rightarrow> account" where
  "owner_account aud ownerId = (if aud = EMPLOYER then Company ownerId else User ownerId)"

lemma ensureMonthlyGrant_eq:
  "0 < grantMicro aud (plan_name aud p) \<Longrightarrow> ensureMonthlyGrant i aud p ownerId now db =
     grant_sql (owner_account aud ownerId) i (grantMicro aud (plan_name aud p)) (monthly_reference now) now db"
  by (simp add: ensureMonthlyGrant_def plan_name_def owner_account_def Let_def)

lemma ensureMonthlyGrant_fun:
  "0 < grantMicro aud (plan_name aud p) \<Longrightarrow> ensureMonthlyGrant i aud p ownerId now =
     grant_sql (owner_account aud ownerId) i (grantMicro aud (plan_name aud p)) (monthly_reference now) now"
  by (rule ext) (rule ensureMonthlyGrant_eq)

lemma ensureMonthlyGrant_none:
  "\<not> 0 < grantMicro aud (plan_name aud p) \<Longrightarrow> ensureMonthlyGrant i aud p ownerId now db = db"
  by (simp add: ensureMonthlyGrant_def plan_name_def Let_def not_less)

lemma pad_inj: "0 \<le> x \<Longrightarrow> 0 \<le> y \<Longrightarrow> x < 10 ^ k \<Longrightarrow> y < 10 ^ k \<Longrightarrow> 0 < k \<Longrightarrow> pad x k = pad y k \<Longrightarrow> x = y"
  using pad_props(3) [of x k] pad_props(3) [of y k] by (metis int_nat_eq)

definition month_of :: "int \<Rightarrow> int \<times> int" where
  "month_of t = (utc_year t, utc_month t)"

lemma monthly_reference_inj:
  assumes "0 \<le> utc_year s" "utc_year s < 10000" "0 \<le> utc_year t" "utc_year t < 10000"
  shows "monthly_reference s = monthly_reference t \<longleftrightarrow> month_of s = month_of t"
proof
  assume "monthly_reference s = monthly_reference t"
  then have e: "pad (utc_year s) 4 @ CHR ''-'' # pad (utc_month s + 1) 2 = pad (utc_year t) 4 @ CHR ''-'' # pad (utc_month t + 1) 2"
    by (simp add: monthly_reference_def iso_month_def)
  have "length (pad (utc_year s) 4) = length (pad (utc_year t) 4)"
    using assms pad_props(1) [of _ 4] by simp
  with e have y: "pad (utc_year s) 4 = pad (utc_year t) 4" and m: "pad (utc_month s + 1) 2 = pad (utc_month t + 1) 2" by simp_all
  show "month_of s = month_of t"
    using pad_inj [OF _ _ _ _ _ y] pad_inj [OF _ _ _ _ _ m] assms utc_month_range [of s] utc_month_range [of t]
    by (simp add: month_of_def)
qed (simp add: month_of_def monthly_reference_def iso_month_def)

abbreviation monthly_calls ::
  "(int \<Rightarrow> string) \<Rightarrow> account \<Rightarrow> int \<Rightarrow> int list \<Rightarrow> 'z job_db_scheme \<Rightarrow> 'z job_db_scheme" where
  "monthly_calls ident a amount ts \<equiv> fold (\<lambda>t. grant_sql a (ident t) amount (monthly_reference t) t) ts"

lemma monthly_granted:
  "granted k (monthly_calls ident a amount ts db) \<longleftrightarrow> granted k db \<or> k \<in> (\<lambda>t. (a, monthly_reference t)) ` set ts"
  using grants.has_fold [of k "map (\<lambda>t. (a, ident t, amount, monthly_reference t, t)) ts" db]
  by (simp add: fold_map comp_def image_image)

lemma newest_grant_sql: "newest a k db \<Longrightarrow> (now, ident) < k \<Longrightarrow> newest a k (grant_sql a ident amount reference now db)"
  by (auto simp: newest_def grant_sql_def row_key_def [of "account_row _ _ _ _ _ _"])

lemma monthly_newest:
  "newest a (now, i) (monthly_calls ident a amount ts db)"
  if "\<forall>t \<in> set ts. t < now" "\<forall>r \<in> set (ledger db). on_account a r \<longrightarrow> lg_at r < now"
  using that
proof (induction ts rule: rev_induct)
  case Nil
  then show ?case by (simp add: newest_def row_key_def)
next
  case (snoc t ts)
  then have "newest a (now, i) (monthly_calls ident a amount ts db)" and "t < now" by simp_all
  then show ?case by (simp add: newest_grant_sql)
qed

lemma monthly_charged:
  assumes "sorted_wrt (<) ts" "\<forall>r \<in> set (ledger db). on_account a r \<longrightarrow> (\<forall>t \<in> set ts. lg_at r < t)"
    and "\<forall>t \<in> set ts. \<not> granted (a, monthly_reference t) db"
  shows "chargedMicro a' (monthly_calls ident a amount ts db) =
    chargedMicro a' db + (if a' = a then amount * int (card (monthly_reference ` set ts)) else 0)"
  using assms
proof (induction ts rule: rev_induct)
  case Nil
  then show ?case by simp
next
  case (snoc t ts)
  then have IH: "chargedMicro a' (monthly_calls ident a amount ts db) =
      chargedMicro a' db + (if a' = a then amount * int (card (monthly_reference ` set ts)) else 0)"
    by (simp add: sorted_wrt_append)
  have new: "newest a (t, ident t) (monthly_calls ident a amount ts db)"
    using snoc.prems by (intro monthly_newest) (auto simp: sorted_wrt_append)
  have fresh: "granted (a, monthly_reference t) (monthly_calls ident a amount ts db) \<longleftrightarrow> monthly_reference t \<in> monthly_reference ` set ts"
    using snoc.prems(3) by (auto simp: monthly_granted)
  show ?case by (simp add: charged_grant IH new fresh card_insert_if algebra_simps)
qed

text \<open>The monthly grant. Calls made at increasing times for one owner and plan, later than every
  entry of the owner's account, add the plan's amount to the balance once for every calendar month
  in which a call is made, however many calls there are, and leave every other account alone.\<close>

theorem monthly_grants:
  assumes "0 < grantMicro aud (plan_name aud p)"
    and "sorted_wrt (<) ts" and "\<forall>t \<in> set ts. 0 \<le> utc_year t \<and> utc_year t < 10000"
    and "\<forall>r \<in> set (ledger db). on_account (owner_account aud ownerId) r \<longrightarrow> (\<forall>t \<in> set ts. lg_at r < t)"
    and "\<forall>t \<in> set ts. \<not> granted (owner_account aud ownerId, monthly_reference t) db"
  shows "chargedMicro a (fold (\<lambda>t. ensureMonthlyGrant (ident t) aud p ownerId t) ts db) =
    chargedMicro a db + (if a = owner_account aud ownerId
      then grantMicro aud (plan_name aud p) * int (card (month_of ` set ts)) else 0)"
proof -
  have "card (monthly_reference ` set ts) = card (month_of ` set ts)"
    using assms(3) by (intro card_image_cong) (simp add: monthly_reference_inj)
  then show ?thesis
    by (simp add: ensureMonthlyGrant_fun [OF assms(1)] monthly_charged [OF assms(2,4,5)])
qed

definition empty_db :: job_db where
  "empty_db = \<lparr>ledger = [], usage_table = Some [], reservations = [], ai_jobs = [], outbox = [], members = [], kicks = []\<rparr>"

lemma empty_db_tables [simp]:
  "ledger empty_db = []" "usage_table empty_db = Some []" "reservations empty_db = []" "ai_jobs empty_db = []"
  "outbox empty_db = []" "members empty_db = []" "kicks empty_db = []" "chargedMicro a empty_db = 0"
  by (simp_all add: empty_db_def chargedMicro_def)

theorem monthly_grants_witness:
  "chargedMicro (User ''u1'') (fold (\<lambda>t. ensureMonthlyGrant (nat_dec (nat t)) PERSONAL (Some ''PRO'') ''u1'' t)
     [1785553872345, 1785553999999, 1788300000000] empty_db) = 54000000"
proof -
  have n: "plan_name PERSONAL (Some ''PRO'') = ''PRO''"
    by (simp add: plan_name_def js_defs)
  have m: "month_of 1785553872345 = (2026, 7)" by code_simp
  have m2: "month_of 1785553999999 = (2026, 7)" by code_simp
  have m3: "month_of 1788300000000 = (2026, 8)" by code_simp
  show ?thesis
    using monthly_grants [where aud = PERSONAL and p = "Some ''PRO''" and ts = "[1785553872345, 1785553999999, 1788300000000]"
        and db = empty_db and ownerId = "''u1''" and a = "User ''u1''" and ident = "\<lambda>t. nat_dec (nat t)"]
      m m2 m3 by (simp add: n grantMicro_def PERSONAL_GRANT_def granted_def owner_account_def month_of_def)
qed

end
