(* ===== verification/Enqueue.thy ===== *)
theory Enqueue
  imports Credits "HOL-Library.Sublist"
begin

text \<open>
  \<open>services/core-api/src/jobs/enqueue.ts\<close>, \<open>jobs/backpressure.ts\<close>, \<open>jobs/ingest.ts\<close> and the accepting
  part of \<open>routes/job-status.ts\<close>: placing an AI job on its queue together with the reservation of its
  credits and its outbox row. The two \<open>crypto.randomUUID()\<close> of one call are the arguments \<open>gid\<close>
  (the ledger row of the grant) and \<open>jid\<close> (the job). Each statement is one step; a job is written
  with its reservation and its outbox row by one statement.
\<close>

record enqueue_input =
  ei_type :: job_type
  ei_user :: string
  ei_company :: "string option"
  ei_plan :: plan
  ei_payload :: jv
  ei_key :: "string option"
  ei_conversation :: "string option"
  ei_now :: int

subsection \<open>Statements\<close>

definition same_key :: "string \<Rightarrow> string \<Rightarrow> ai_job \<Rightarrow> bool" where
  "same_key u k j \<longleftrightarrow> aj_user j = u \<and> aj_key j = Some k"

definition EXISTING :: "string \<Rightarrow> string \<Rightarrow> 'z job_db_scheme \<Rightarrow> ai_job option" where
  "EXISTING u k db = find (same_key u k) (ai_jobs db)"

definition duplicate_key :: core_exn where
  "duplicate_key = DbError ''23505'' ''duplicate key value violates unique constraint''"

text \<open>\<open>INSERT_WITH_RESERVE\<close>, and \<open>INSERT_OPEN\<close> when nothing is held.\<close>

definition INSERT_JOB :: "ai_job \<Rightarrow> int option \<Rightarrow> ('z job_db_scheme, ai_job) core_prog" where
  "INSERT_JOB j hold db =
     (if (\<exists>x \<in> set (ai_jobs db). aj_id x = aj_id j \<or> aj_key j \<noteq> None \<and> aj_user x = aj_user j \<and> aj_key x = aj_key j)
      then (Inl duplicate_key, db)
      else (Inr j, db\<lparr>ai_jobs := ai_jobs db @ [j],
             reservations := reservations db @ (case hold of None \<Rightarrow> [] | Some n \<Rightarrow>
               [\<lparr>rv_job = aj_id j, rv_user = aj_user j, rv_company = aj_company j, rv_amount = n, rv_status = ''RESERVED''\<rparr>]),
             outbox := outbox db @ [(aj_id j, aj_queue j)]\<rparr>))"

subsection \<open>Enqueueing\<close>

definition queued :: "ai_job \<Rightarrow> string \<times> queue_name" where
  "queued j = (aj_id j, aj_queue j)"

definition given_key :: "enqueue_input \<Rightarrow> string option" where
  "given_key i = (case ei_key i of None \<Rightarrow> None | Some k \<Rightarrow> if k = [] then None else Some k)"

definition job_audience :: "enqueue_input \<Rightarrow> audience" where
  "job_audience i = (if ei_company i = None \<or> ei_company i = Some [] then PERSONAL else EMPLOYER)"

definition owner_of :: "enqueue_input \<Rightarrow> string" where
  "owner_of i = (case ei_company i of None \<Rightarrow> ei_user i | Some c \<Rightarrow> c)"

definition job_amount :: "enqueue_input \<Rightarrow> int" where
  "job_amount i = estimateMicro (ei_type i) (ei_plan i)"

definition new_job :: "string \<Rightarrow> enqueue_input \<Rightarrow> ai_job" where
  "new_job jid i = \<lparr>aj_id = jid, aj_type = ei_type i, aj_queue = queueFor (ei_type i) (ei_plan i) (job_audience i),
     aj_user = ei_user i, aj_company = ei_company i, aj_plan = ei_plan i, aj_status = ''QUEUED'', aj_attempts = 0,
     aj_max = maxAttempts (ei_type i), aj_payload = (if nullish (ei_payload i) then JObj [] else ei_payload i),
     aj_key = ei_key i, aj_conversation = ei_conversation i\<rparr>"

text \<open>The grant and the check of the balance.\<close>

definition enqueue_check :: "string \<Rightarrow> enqueue_input \<Rightarrow> ('z job_db_scheme, unit) core_prog" where
  "enqueue_check gid i =
     and_then (writing (\<lambda>db. if 0 < job_amount i
        then ensureMonthlyGrant gid (job_audience i) (Some (plan_text (ei_plan i))) (owner_of i) (ei_now i) db else db))
     (\<lambda>_. reserveCredits (ei_user i) (ei_company i) (job_amount i))"

text \<open>The insert; a conflict on the idempotency key answers with the job another request wrote.\<close>

definition enqueue_insert :: "string \<Rightarrow> enqueue_input \<Rightarrow> ('z job_db_scheme, string \<times> queue_name) core_prog" where
  "enqueue_insert jid i =
     catching
       (and_then (INSERT_JOB (new_job jid i) (if 0 < job_amount i then Some (job_amount i) else None)) (\<lambda>j. ret (queued j)))
       (\<lambda>x. case given_key i of
          None \<Rightarrow> throw x
        | Some k \<Rightarrow> if \<not> isUnique x then throw x
            else and_then (reading (EXISTING (ei_user i) k))
              (\<lambda>e. case e of None \<Rightarrow> throw x | Some j \<Rightarrow> ret (queued j)))"

definition enqueueJob :: "string \<Rightarrow> string \<Rightarrow> enqueue_input \<Rightarrow> ('z job_db_scheme, string \<times> queue_name) core_prog" where
  "enqueueJob gid jid i =
     and_then (reading (\<lambda>db. case given_key i of None \<Rightarrow> None | Some k \<Rightarrow> EXISTING (ei_user i) k db))
     (\<lambda>existing. case existing of
        Some j \<Rightarrow> ret (queued j)
      | None \<Rightarrow> and_then (enqueue_check gid i) (\<lambda>_. enqueue_insert jid i))"

subsection \<open>The dispatcher\<close>

text \<open>The variables of the process and those bound for the request; an empty one is falsy. The
  answer of the dispatcher, or its failure, is only logged.\<close>

record kick_env =
  ke_origin :: string
  ke_secret :: string

definition trimOrigin :: "string \<Rightarrow> string" where
  "trimOrigin s = rev (dropWhile (\<lambda>c. c = CHR ''/'') (rev (js_trim s)))"

definition withDispatcher :: "string option \<times> string option \<Rightarrow> string option \<times> string option \<Rightarrow> kick_env" where
  "withDispatcher env process =
     \<lparr>ke_origin = trimOrigin (or_else (or_empty (fst env)) (or_empty (fst process))),
      ke_secret = or_else (or_empty (snd env)) (or_empty (snd process))\<rparr>"

definition kickDispatcher :: "kick_env option \<Rightarrow> string option \<times> string option \<Rightarrow> queue_name \<Rightarrow> ('z job_db_scheme, unit) core_prog" where
  "kickDispatcher bound process q =
     (let origin = or_else (case bound of None \<Rightarrow> [] | Some k \<Rightarrow> ke_origin k) (trimOrigin (or_empty (fst process)));
          secret = or_else (case bound of None \<Rightarrow> [] | Some k \<Rightarrow> ke_secret k) (or_empty (snd process))
      in if origin = [] then ret ()
         else writing (\<lambda>db. db\<lparr>kicks := kicks db @ [(origin @ ''/internal/kick'', secret, q)]\<rparr>))"

subsection \<open>Accepting a job\<close>

definition queue_depth :: "queue_name \<Rightarrow> 'z job_db_scheme \<Rightarrow> nat" where
  "queue_depth q db = length (filter (\<lambda>j. aj_queue j = q \<and> aj_status j \<in> {''QUEUED'', ''RETRY''}) (ai_jobs db))"

text \<open>\<open>None\<close> is \<open>ok\<close>; otherwise the number of seconds to wait.\<close>

definition checkBackpressure :: "queue_name \<Rightarrow> plan \<Rightarrow> 'z job_db_scheme \<Rightarrow> int option" where
  "checkBackpressure q p db = (if queueDepthLimit p < queue_depth q db then Some RETRY_AFTER_SEC else None)"

definition queue_busy :: "int \<Rightarrow> core_exn" where
  "queue_busy n = HttpError 429 ''QUEUE_BUSY'' ''queue is busy'' (JObj [(''retryAfterSec'', JNum n)])"

text \<open>Who asks, at what time, under which settings.\<close>

record job_ctx =
  jc_user :: string
  jc_plan :: jv
  jc_now :: int
  jc_rid :: string
  jc_dispatch :: "string option \<times> string option"
  jc_process :: "string option \<times> string option"

definition acceptJob :: "string \<Rightarrow> string \<Rightarrow> job_ctx \<Rightarrow> request \<Rightarrow> job_type \<Rightarrow> jv \<Rightarrow> ('z job_db_scheme, response) core_prog" where
  "acceptJob gid jid c rq t payload =
     (let p = planTier (jc_plan c);
          q = queueFor t p PERSONAL;
          key = js_trim (header rq ''idempotency-key'') in
      and_then (reading (checkBackpressure q p)) (\<lambda>pressure.
      guard (pressure = None) (queue_busy (case pressure of None \<Rightarrow> 0 | Some n \<Rightarrow> n))
      (and_then (enqueueJob gid jid \<lparr>ei_type = t, ei_user = jc_user c, ei_company = None, ei_plan = p, ei_payload = payload,
           ei_key = (if key = [] then None else Some (type_text t @ '':'' @ key)), ei_conversation = None, ei_now = jc_now c\<rparr>)
       (\<lambda>r. and_then (kickDispatcher (Some (withDispatcher (jc_dispatch c) (jc_process c))) (jc_process c) q)
       (\<lambda>_. ret (data 202 (JObj [(''jobId'', JStr (fst r))]) (jc_rid c)))))))"

definition enqueueIngest :: "string \<Rightarrow> string \<Rightarrow> job_ctx \<Rightarrow> jv \<Rightarrow> ('z job_db_scheme, string) core_prog" where
  "enqueueIngest gid jid c payload =
     and_then (enqueueJob gid jid \<lparr>ei_type = JT_ingest, ei_user = jc_user c, ei_company = None, ei_plan = FREE,
         ei_payload = payload, ei_key = None, ei_conversation = None, ei_now = jc_now c\<rparr>)
     (\<lambda>r. and_then (kickDispatcher (Some (withDispatcher (jc_dispatch c) (jc_process c))) (jc_process c) Q_ingest)
     (\<lambda>_. ret (fst r)))"

subsection \<open>Balances\<close>

definition settled_of :: "account \<Rightarrow> 'z job_db_scheme \<Rightarrow> int" where
  "settled_of a db = (case fst (settled_sql a db) of Inl _ \<Rightarrow> 0 | Inr n \<Rightarrow> n)"

lemma settled_of_cong: "usage_table db' = usage_table db \<Longrightarrow> members db' = members db \<Longrightarrow> settled_of a db' = settled_of a db"
  by (cases a) (simp_all add: settled_of_def settled_sql_def split: option.split)

definition available :: "account \<Rightarrow> 'z job_db_scheme \<Rightarrow> int" where
  "available a db = chargedMicro a db - settled_of a db - reservedMicro a db"

lemma settledMicro_eq: "settledMicro a db = (Inr (settled_of a db), db)"
proof (cases "usage_table db")
  case None
  have "isMissingRelation (DbError ''42P01'' ''relation ai_usage does not exist'')"
    by (simp add: isMissingRelation_def exn_code_def)
  with None show ?thesis by (simp add: settledMicro_def settled_of_def settled_sql_def catching_def)
next
  case (Some us)
  then show ?thesis by (simp add: settledMicro_def settled_of_def settled_sql_def catching_def)
qed

lemma availableMicro_eq: "availableMicro u c db = (Inr (available (account_of u c) db), db)"
  by (simp add: availableMicro_def and_then_def reading_def settledMicro_eq available_def Let_def)

lemma reserveCredits_eq:
  "reserveCredits u c n db = ((if n \<le> 0 \<or> n \<le> available (account_of u c) db then Inr () else Inl insufficient), db)"
  by (simp add: reserveCredits_def and_then_def availableMicro_eq guard_def)

definition grant_of :: "string \<Rightarrow> enqueue_input \<Rightarrow> 'z job_db_scheme \<Rightarrow> 'z job_db_scheme" where
  "grant_of gid i db = (if 0 < job_amount i
     then ensureMonthlyGrant gid (job_audience i) (Some (plan_text (ei_plan i))) (owner_of i) (ei_now i) db else db)"

lemma enqueue_check_eq:
  "enqueue_check gid i db = ((if job_amount i \<le> available (account_of (ei_user i) (ei_company i)) (grant_of gid i db)
      \<or> job_amount i = 0 then Inr () else Inl insufficient), grant_of gid i db)"
proof -
  have "0 \<le> job_amount i" by (simp add: job_amount_def)
  then show ?thesis by (auto simp: enqueue_check_def and_then_def writing_def reserveCredits_eq grant_of_def)
qed

lemma ensureMonthlyGrant_tables [simp]:
  "usage_table (ensureMonthlyGrant g a p o' t db) = usage_table db" "reservations (ensureMonthlyGrant g a p o' t db) = reservations db"
  "ai_jobs (ensureMonthlyGrant g a p o' t db) = ai_jobs db" "outbox (ensureMonthlyGrant g a p o' t db) = outbox db"
  "members (ensureMonthlyGrant g a p o' t db) = members db" "kicks (ensureMonthlyGrant g a p o' t db) = kicks db"
  by (simp_all add: ensureMonthlyGrant_def Let_def)

lemma grant_of_tables [simp]:
  "usage_table (grant_of gid i db) = usage_table db" "reservations (grant_of gid i db) = reservations db"
  "ai_jobs (grant_of gid i db) = ai_jobs db" "outbox (grant_of gid i db) = outbox db"
  "members (grant_of gid i db) = members db" "kicks (grant_of gid i db) = kicks db"
  by (simp_all add: grant_of_def)

lemma EXISTING_grant [simp]: "EXISTING u k (grant_of gid i db) = EXISTING u k db"
  by (simp add: EXISTING_def)

text \<open>The tables with a job, its outbox row and what it holds.\<close>

definition with_job :: "string \<Rightarrow> enqueue_input \<Rightarrow> 'z job_db_scheme \<Rightarrow> 'z job_db_scheme" where
  "with_job jid i db = db\<lparr>ai_jobs := ai_jobs db @ [new_job jid i],
     reservations := reservations db @ (if 0 < job_amount i then
       [\<lparr>rv_job = jid, rv_user = ei_user i, rv_company = ei_company i, rv_amount = job_amount i, rv_status = ''RESERVED''\<rparr>] else []),
     outbox := outbox db @ [(jid, queueFor (ei_type i) (ei_plan i) (job_audience i))]\<rparr>"

definition keyed :: "enqueue_input \<Rightarrow> 'z job_db_scheme \<Rightarrow> bool" where
  "keyed i db \<longleftrightarrow> (case ei_key i of None \<Rightarrow> False | Some k \<Rightarrow> EXISTING (ei_user i) k db \<noteq> None)"

lemma INSERT_JOB_eq:
  assumes "jid \<notin> aj_id ` set (ai_jobs db)"
  shows "INSERT_JOB (new_job jid i) (if 0 < job_amount i then Some (job_amount i) else None) db =
    (if keyed i db then (Inl duplicate_key, db) else (Inr (new_job jid i), with_job jid i db))"
  using assms
  by (auto simp: INSERT_JOB_def new_job_def keyed_def with_job_def EXISTING_def same_key_def find_None_iff find_Some_iff
      split: option.splits)

lemma isUnique_duplicate [simp]: "isUnique duplicate_key"
  by (simp add: isUnique_def duplicate_key_def exn_code_def)

lemma queued_new_job [simp]: "queued (new_job jid i) = (jid, queueFor (ei_type i) (ei_plan i) (job_audience i))"
  by (simp add: queued_def new_job_def)

lemma enqueue_insert_eq:
  assumes "jid \<notin> aj_id ` set (ai_jobs db)"
  shows "enqueue_insert jid i db =
    (if \<not> keyed i db then (Inr (jid, queueFor (ei_type i) (ei_plan i) (job_audience i)), with_job jid i db)
     else case given_key i of None \<Rightarrow> (Inl duplicate_key, db)
       | Some k \<Rightarrow> (Inr (queued (the (EXISTING (ei_user i) k db))), db))"
  by (auto simp: enqueue_insert_def catching_def and_then_def INSERT_JOB_eq [OF assms] reading_def
      keyed_def given_key_def split: option.splits if_splits)

definition already :: "enqueue_input \<Rightarrow> 'z job_db_scheme \<Rightarrow> ai_job option" where
  "already i db = (case given_key i of None \<Rightarrow> None | Some k \<Rightarrow> EXISTING (ei_user i) k db)"

lemma already_None_keyed: "already i db = None \<Longrightarrow> ei_key i \<noteq> Some [] \<Longrightarrow> \<not> keyed i db"
  by (auto simp: already_def given_key_def keyed_def split: option.splits if_splits)

lemma keyed_grant [simp]: "keyed i (grant_of gid i' db) = keyed i db"
  by (simp add: keyed_def split: option.split)

lemma enqueueJob_eq:
  assumes "jid \<notin> aj_id ` set (ai_jobs db)" and "ei_key i \<noteq> Some []"
  shows "enqueueJob gid jid i db =
    (case already i db of Some j \<Rightarrow> (Inr (queued j), db)
     | None \<Rightarrow> (let db1 = grant_of gid i db in
         if 0 < job_amount i \<and> available (account_of (ei_user i) (ei_company i)) db1 < job_amount i then (Inl insufficient, db1)
         else (Inr (jid, queueFor (ei_type i) (ei_plan i) (job_audience i)), with_job jid i db1)))"
proof (cases "already i db")
  case None
  have n: "0 \<le> job_amount i" by (simp add: job_amount_def)
  have "jid \<notin> aj_id ` set (ai_jobs (grant_of gid i db))" using assms(1) by simp
  from enqueue_insert_eq [OF this, of i] already_None_keyed [OF None assms(2)]
  have ins: "enqueue_insert jid i (grant_of gid i db) =
      (Inr (jid, queueFor (ei_type i) (ei_plan i) (job_audience i)), with_job jid i (grant_of gid i db))" by simp
  show ?thesis
    using None n by (auto simp: enqueueJob_def and_then_def reading_def already_def [symmetric] enqueue_check_eq ins Let_def)
next
  case (Some j)
  then show ?thesis by (simp add: enqueueJob_def and_then_def reading_def already_def [symmetric])
qed

definition charged_to :: "enqueue_input \<Rightarrow> account \<Rightarrow> bool" where
  "charged_to i b \<longleftrightarrow> b = User (ei_user i) \<or> (\<exists>c. ei_company i = Some c \<and> b = Company c)"

lemma available_with_job:
  "available b (with_job jid i db) = available b db - (if charged_to i b then job_amount i else 0)"
proof -
  have n: "0 \<le> job_amount i" by (simp add: job_amount_def)
  have "reservedMicro b (with_job jid i db) = reservedMicro b db + (if charged_to i b then job_amount i else 0)"
    using n by (auto simp: reservedMicro_def with_job_def charged_to_def split: account.split)
  moreover have "settled_of b (with_job jid i db) = settled_of b db" by (rule settled_of_cong) (simp_all add: with_job_def)
  moreover have "chargedMicro b (with_job jid i db) = chargedMicro b db" by (simp add: chargedMicro_def with_job_def)
  ultimately show ?thesis by (simp add: available_def)
qed

lemma charged_to_owner: "ei_company i \<noteq> Some [] \<Longrightarrow> charged_to i (account_of (ei_user i) (ei_company i))"
  by (auto simp: charged_to_def account_of_def split: option.split)

text \<open>C21: Enqueueing a job. A request that repeats the idempotency key of an earlier one is answered with that
  job and changes nothing. Otherwise, after the monthly grant, a job is written exactly when the
  owner's available credits cover its estimate, with its outbox row and its reservation; else the
  answer is 402 and nothing but the grant is written. The owner's available credits never go below
  zero by it. A company's job is held against the company and also against its author.\<close>

theorem enqueue_effect:
  assumes "jid \<notin> aj_id ` set (ai_jobs db)" and "ei_key i \<noteq> Some []" and "ei_company i \<noteq> Some []"
  shows "enqueueJob gid jid i db =
      (case already i db of Some j \<Rightarrow> (Inr (queued j), db)
       | None \<Rightarrow> (let db1 = grant_of gid i db in
           if 0 < job_amount i \<and> available (account_of (ei_user i) (ei_company i)) db1 < job_amount i then (Inl insufficient, db1)
           else (Inr (jid, queueFor (ei_type i) (ei_plan i) (job_audience i)), with_job jid i db1)))
    \<and> (\<forall>b. available b (with_job jid i (grant_of gid i db)) =
         available b (grant_of gid i db) - (if charged_to i b then job_amount i else 0))
    \<and> (\<forall>r db'. enqueueJob gid jid i db = (Inr r, db') \<and> already i db = None \<and> 0 < job_amount i \<longrightarrow>
         0 \<le> available (account_of (ei_user i) (ei_company i)) db')"
  using enqueueJob_eq [OF assms(1,2), of gid] charged_to_owner [OF assms(3)]
  by (auto simp: available_with_job Let_def split: option.splits if_splits)

definition demo_input :: enqueue_input where
  "demo_input = \<lparr>ei_type = JT_fit, ei_user = ''u1'', ei_company = None, ei_plan = PRO, ei_payload = JNull,
     ei_key = Some ''fit:k1'', ei_conversation = None, ei_now = 1785553872345\<rparr>"

lemma demo_input_facts:
  "''j1'' \<notin> aj_id ` set (ai_jobs empty_db)" "already demo_input empty_db = None" "job_amount demo_input = 30000"
  "account_of (ei_user demo_input) None = User ''u1''" "charged_to demo_input (User ''u1'')"
  "ei_key demo_input = Some ''fit:k1''" "ei_company demo_input = None"
  "queueFor (ei_type demo_input) (ei_plan demo_input) (job_audience demo_input) = Q_document"
  by (simp_all add: already_def given_key_def demo_input_def EXISTING_def job_amount_def estimateMicro_def account_of_def
      charged_to_def queueFor_def)

lemma demo_available: "available (User ''u1'') (grant_of ''g1'' demo_input empty_db) = 27000000"
proof -
  have n: "plan_name PERSONAL (Some ''PRO'') = ''PRO''" by (simp add: plan_name_def js_defs)
  have g: "grant_of ''g1'' demo_input empty_db = grant_sql (User ''u1'') ''g1'' 27000000 (monthly_reference 1785553872345) 1785553872345 empty_db"
    by (simp add: grant_of_def demo_input_facts(3))
      (simp add: demo_input_def job_audience_def owner_of_def ensureMonthlyGrant_eq n owner_account_def grantMicro_def PERSONAL_GRANT_def)
  show ?thesis
    by (simp add: g available_def charged_grant settled_of_def settled_sql_def reservedMicro_def granted_def newest_def)
qed

theorem enqueue_effect_witness:
  "fst (enqueueJob ''g1'' ''j1'' demo_input empty_db) = Inr (''j1'', Q_document)
   \<and> available (User ''u1'') (snd (enqueueJob ''g1'' ''j1'' demo_input empty_db)) = 26970000"
  using enqueue_effect [OF demo_input_facts(1), of demo_input "''g1''"] demo_available by (simp add: demo_input_facts Let_def)

text \<open>A retry. When a request with an idempotency key has been answered with a job, every later request
  of the same user with that key, whatever else it asks, is answered with the same job and queue and
  changes nothing: nothing is reserved twice.\<close>

theorem enqueue_retry:
  assumes "jid \<notin> aj_id ` set (ai_jobs db)" and "ei_key i = Some k" and "k \<noteq> []"
    and "enqueueJob gid jid i db = (Inr r, db')"
    and "ei_user i' = ei_user i" and "ei_key i' = ei_key i"
  shows "enqueueJob gid' jid' i' db' = (Inr r, db')"
proof -
  have k: "given_key i = Some k" "given_key i' = Some k" using assms by (simp_all add: given_key_def)
  have "\<exists>j. EXISTING (ei_user i) k db' = Some j \<and> queued j = r"
  proof (cases "EXISTING (ei_user i) k db")
    case (Some j)
    then show ?thesis
      using enqueueJob_eq [OF assms(1), of i gid] assms(2-4) by (auto simp: already_def k)
  next
    case None
    then have "\<not> keyed i db" using assms(2) by (simp add: keyed_def)
    have "r = queued (new_job jid i)" and "db' = with_job jid i (grant_of gid i db)"
      using enqueueJob_eq [OF assms(1), of i gid] assms(2-4) None by (auto simp: already_def k Let_def split: if_splits)
    moreover have "EXISTING (ei_user i) k (with_job jid i (grant_of gid i db)) = Some (new_job jid i)"
    proof -
      have "find (same_key (ei_user i) k) (ai_jobs db) = None" using None by (simp add: EXISTING_def)
      then show ?thesis
        using assms(2) by (auto simp: EXISTING_def with_job_def find_snoc same_key_def new_job_def split: option.split)
    qed
    ultimately show ?thesis by simp
  qed
  then show ?thesis
    by (auto simp: enqueueJob_def and_then_def reading_def k assms(5))
qed

theorem enqueue_retry_witness:
  "enqueueJob ''g2'' ''j2'' demo_input (with_job ''j1'' demo_input (grant_of ''g1'' demo_input empty_db)) =
     (Inr (''j1'', Q_document), with_job ''j1'' demo_input (grant_of ''g1'' demo_input empty_db))"
proof (rule enqueue_retry [OF demo_input_facts(1,6) _ _ refl refl])
  show "enqueueJob ''g1'' ''j1'' demo_input empty_db =
      (Inr (''j1'', Q_document), with_job ''j1'' demo_input (grant_of ''g1'' demo_input empty_db))"
    using enqueueJob_eq [OF demo_input_facts(1), of demo_input "''g1''"] demo_available by (simp add: demo_input_facts Let_def)
qed simp

subsection \<open>Concurrent requests\<close>

text \<open>The statements of concurrent requests interleave; the grant and check of one request and the insert of
  another may come in any order.\<close>

inductive enqueue_step :: "'z job_db_scheme \<Rightarrow> 'z job_db_scheme \<Rightarrow> bool" where
  check: "enqueue_check gid i db = (r, db') \<Longrightarrow> enqueue_step db db'"
| insert: "enqueue_insert jid i db = (r, db') \<Longrightarrow> enqueue_step db db'"

inductive_cases enqueue_stepE: "enqueue_step db db'"

text \<open>What the workers and the administration of the queue do (\<open>services/ai/src/app/queue\<close>: \<open>admin.py\<close>, \<open>credits.py\<close>,
  \<open>dispatcher.py\<close>): they change the state of jobs and delete jobs, settle, release or renew
  reservations, add outbox rows for jobs that are tried again and delete old ones. No job changes its id,
  its user, its key, its type or its plan, no reservation its job, its user or its amount; the foreign keys
  delete the reservation and the outbox rows of a job with it. None of them inserts a job; a chat job that
  is written through the view \<open>chat_jobs\<close> (the conversations of a deployment without the queue) has neither
  key nor reservation nor outbox row.\<close>

definition same_job :: "ai_job \<Rightarrow> ai_job \<Rightarrow> bool" where
  "same_job j j' \<longleftrightarrow> aj_id j' = aj_id j \<and> aj_user j' = aj_user j \<and> aj_key j' = aj_key j \<and> aj_type j' = aj_type j \<and> aj_plan j' = aj_plan j"

definition same_hold :: "reservation \<Rightarrow> reservation \<Rightarrow> bool" where
  "same_hold x y \<longleftrightarrow> rv_job y = rv_job x \<and> rv_user y = rv_user x \<and> rv_amount y = rv_amount x"

definition worker_step :: "'z job_db_scheme \<Rightarrow> 'z job_db_scheme \<Rightarrow> bool" where
  "worker_step db db' \<longleftrightarrow>
     (\<exists>f P. ai_jobs db' = map f (filter P (ai_jobs db)) \<and> (\<forall>j. same_job j (f j)))
     \<and> (\<exists>g. reservations db' = map g (filter (\<lambda>x. rv_job x \<in> aj_id ` set (ai_jobs db')) (reservations db)) \<and> (\<forall>x. same_hold x (g x)))
     \<and> fst ` set (outbox db') \<subseteq> aj_id ` set (ai_jobs db')"

inductive job_step :: "'z job_db_scheme \<Rightarrow> 'z job_db_scheme \<Rightarrow> bool" where
  enqueues: "enqueue_step db db' \<Longrightarrow> job_step db db'"
| works: "worker_step db db' \<Longrightarrow> job_step db db'"
| chats: "aj_key j = None \<Longrightarrow> aj_id j \<notin> aj_id ` set (ai_jobs db) \<Longrightarrow> job_step db (db\<lparr>ai_jobs := ai_jobs db @ [j]\<rparr>)"

inductive_cases job_stepE: "job_step db db'"

abbreviation job_reach :: "'z job_db_scheme \<Rightarrow> 'z job_db_scheme \<Rightarrow> bool" where
  "job_reach \<equiv> job_step\<^sup>*\<^sup>*"

definition hold_of :: "ai_job \<Rightarrow> reservation list" where
  "hold_of j = (let n = estimateMicro (aj_type j) (aj_plan j) in
     if 0 < n then [\<lparr>rv_job = aj_id j, rv_user = aj_user j, rv_company = aj_company j, rv_amount = n, rv_status = ''RESERVED''\<rparr>]
     else [])"

definition tables_ok :: "'z job_db_scheme \<Rightarrow> bool" where
  "tables_ok db \<longleftrightarrow> distinct (map aj_id (ai_jobs db))
     \<and> (\<forall>u k. length (filter (same_key u k) (ai_jobs db)) \<le> 1)
     \<and> outbox db = map queued (ai_jobs db)
     \<and> reservations db = concat (map hold_of (ai_jobs db))"

text \<open>What holds also with the workers: a job has at most one reservation, of its estimate, and there are no
  others; an outbox row belongs to a job.\<close>

definition priced :: "ai_job \<Rightarrow> (string \<times> string \<times> int) list" where
  "priced j = (let n = estimateMicro (aj_type j) (aj_plan j) in if 0 < n then [(aj_id j, aj_user j, n)] else [])"

definition held :: "reservation \<Rightarrow> string \<times> string \<times> int" where
  "held x = (rv_job x, rv_user x, rv_amount x)"

definition jobs_ok :: "'z job_db_scheme \<Rightarrow> bool" where
  "jobs_ok db \<longleftrightarrow> distinct (map aj_id (ai_jobs db))
     \<and> (\<forall>u k. length (filter (same_key u k) (ai_jobs db)) \<le> 1)
     \<and> fst ` set (outbox db) \<subseteq> aj_id ` set (ai_jobs db)
     \<and> subseq (map held (reservations db)) (concat (map priced (ai_jobs db)))"

lemma hold_of_new_job: "hold_of (new_job jid i) = (if 0 < job_amount i then
    [\<lparr>rv_job = jid, rv_user = ei_user i, rv_company = ei_company i, rv_amount = job_amount i, rv_status = ''RESERVED''\<rparr>] else [])"
  by (simp add: hold_of_def new_job_def job_amount_def Let_def)

lemma same_key_new_job [simp]: "same_key u k (new_job jid i) \<longleftrightarrow> u = ei_user i \<and> ei_key i = Some k"
  by (auto simp: same_key_def new_job_def)

lemma enqueue_insert_state:
  "snd (enqueue_insert jid i db) = db \<or>
   (jid \<notin> aj_id ` set (ai_jobs db) \<and> \<not> keyed i db \<and> snd (enqueue_insert jid i db) = with_job jid i db)"
proof (cases "jid \<in> aj_id ` set (ai_jobs db)")
  case True
  then have "INSERT_JOB (new_job jid i) h db = (Inl duplicate_key, db)" for h
    by (auto simp: INSERT_JOB_def new_job_def)
  then show ?thesis
    by (auto simp: enqueue_insert_def catching_def and_then_def reading_def split: option.split)
next
  case False
  with enqueue_insert_eq [OF this, of i] show ?thesis by (auto split: option.split)
qed

lemma tables_ok_with_job:
  assumes "tables_ok db" "jid \<notin> aj_id ` set (ai_jobs db)" "\<not> keyed i db"
  shows "tables_ok (with_job jid i db)"
proof -
  have "filter (same_key (ei_user i) k) (ai_jobs db) = []" if "ei_key i = Some k" for k
    using assms(3) that by (auto simp: keyed_def EXISTING_def find_None_iff filter_empty_conv)
  moreover have "aj_id (new_job jid i) = jid" by (simp add: new_job_def)
  ultimately show ?thesis
    using assms(1,2) by (auto simp: tables_ok_def with_job_def hold_of_new_job)
qed

lemma tables_ok_step: "enqueue_step db db' \<Longrightarrow> tables_ok db \<Longrightarrow> tables_ok db'"
proof (erule enqueue_stepE)
  fix gid i r assume "enqueue_check gid i db = (r, db')" "tables_ok db"
  then show "tables_ok db'" by (auto simp: enqueue_check_eq tables_ok_def)
next
  fix jid i r assume "enqueue_insert jid i db = (r, db')" "tables_ok db"
  then show "tables_ok db'" using enqueue_insert_state [of jid i db] tables_ok_with_job by auto
qed

lemma priced_new_job: "priced (new_job jid i) = (if 0 < job_amount i then [(jid, ei_user i, job_amount i)] else [])"
  by (simp add: priced_def new_job_def job_amount_def Let_def)

lemma fst_outbox: "fst ` set xs \<subseteq> A \<longleftrightarrow> (\<forall>x \<in> set xs. fst x \<in> A)"
  by blast

lemma jobs_ok_with_job:
  assumes "jobs_ok db" "jid \<notin> aj_id ` set (ai_jobs db)" "\<not> keyed i db"
  shows "jobs_ok (with_job jid i db)"
proof -
  have "filter (same_key (ei_user i) k) (ai_jobs db) = []" if "ei_key i = Some k" for k
    using assms(3) that by (auto simp: keyed_def EXISTING_def find_None_iff filter_empty_conv)
  moreover have "aj_id (new_job jid i) = jid" by (simp add: new_job_def)
  moreover have "subseq (map held (reservations (with_job jid i db))) (concat (map priced (ai_jobs (with_job jid i db))))"
    using assms(1) by (auto simp: jobs_ok_def with_job_def priced_new_job held_def intro!: list_emb_append_mono)
  ultimately show ?thesis
    using assms(1,2) by (auto simp: jobs_ok_def with_job_def fst_outbox)
qed

lemma jobs_ok_chat:
  assumes "jobs_ok db" "aj_key j = None" "aj_id j \<notin> aj_id ` set (ai_jobs db)"
  shows "jobs_ok (db\<lparr>ai_jobs := ai_jobs db @ [j]\<rparr>)"
proof -
  have "\<not> same_key u k j" for u k using assms(2) by (simp add: same_key_def)
  moreover have "subseq (map held (reservations db)) (concat (map priced (ai_jobs db)) @ priced j)"
    using assms(1) list_emb_append_mono [of "(=)" "map held (reservations db)" "concat (map priced (ai_jobs db))" "[]" "priced j"]
    by (simp add: jobs_ok_def)
  ultimately show ?thesis using assms(1,3) by (auto simp: jobs_ok_def fst_outbox)
qed

lemma priced_kept:
  assumes "subseq (map held rs) (concat (map priced js))" and "\<And>j. same_job j (f j)" and "\<And>x. same_hold x (g x)" and "distinct (map aj_id js)"
  shows "subseq (map held (map g (filter (\<lambda>x. rv_job x \<in> aj_id ` set (map f (filter P js))) rs))) (concat (map priced (map f (filter P js))))"
proof -
  have h: "held (g x) = held x" "rv_job x = fst (held x)" for x using assms(3) [of x] by (simp_all add: held_def same_hold_def)
  have "aj_id (f j) = aj_id j" for j using assms(2) [of j] by (simp add: same_job_def)
  then have ids: "aj_id ` set (map f (filter P js)) = aj_id ` set (filter P js)" by (simp add: image_image)
  have p: "priced (f j) = priced j" for j using assms(2) [of j] by (simp add: priced_def same_job_def Let_def)
  have "map held (map g (filter (\<lambda>x. rv_job x \<in> A) rs)) = filter (\<lambda>v. fst v \<in> A) (map held rs)" for A
    by (induction rs) (simp_all add: h)
  then have "subseq (map held (map g (filter (\<lambda>x. rv_job x \<in> aj_id ` set (map f (filter P js))) rs)))
      (filter (\<lambda>v. fst v \<in> aj_id ` set (filter P js)) (concat (map priced js)))"
    using subseq_filter [OF assms(1)] ids by simp
  also have "filter (\<lambda>v. fst v \<in> aj_id ` set (filter P js)) (concat (map priced js)) = concat (map priced (filter P js))"
  proof -
    have "filter (\<lambda>v. fst v \<in> aj_id ` set (filter P js)) (concat (map priced ks)) = concat (map priced (filter P ks))"
      if "set ks \<subseteq> set js" for ks
      using that
    proof (induction ks)
      case (Cons k ks)
      have "aj_id k \<in> aj_id ` set (filter P js) \<longleftrightarrow> P k"
        using Cons.prems assms(4) by (auto simp: distinct_map inj_on_def)
      then show ?case using Cons by (simp add: priced_def Let_def)
    qed simp
    then show ?thesis by simp
  qed
  also have "\<dots> = concat (map priced (map f (filter P js)))" by (simp add: p comp_def)
  finally show ?thesis .
qed

lemma jobs_ok_worker:
  assumes "worker_step db db'" and "jobs_ok db"
  shows "jobs_ok db'"
proof -
  obtain f P g where j: "ai_jobs db' = map f (filter P (ai_jobs db))" "\<And>j. same_job j (f j)"
    and rs: "reservations db' = map g (filter (\<lambda>x. rv_job x \<in> aj_id ` set (ai_jobs db')) (reservations db))" "\<And>x. same_hold x (g x)"
    and o': "fst ` set (outbox db') \<subseteq> aj_id ` set (ai_jobs db')" using assms(1) unfolding worker_step_def by blast
  note ok = assms(2) [unfolded jobs_ok_def]
  have ids: "map aj_id (ai_jobs db') = map aj_id (filter P (ai_jobs db))" using j by (simp add: same_job_def)
  have keys: "filter (same_key u k) (ai_jobs db') = map f (filter P (filter (same_key u k) (ai_jobs db)))" for u k
  proof -
    have "same_key u k (f x) = same_key u k x" for x using j(2) [of x] by (simp add: same_key_def same_job_def)
    then show ?thesis by (simp add: j(1) filter_map comp_def conj_commute)
  qed
  have "length (filter (same_key u k) (ai_jobs db')) \<le> 1" for u k
    unfolding keys length_map by (rule le_trans [OF length_filter_le]) (use ok in blast)
  moreover have "distinct (map aj_id (ai_jobs db'))" using ok by (simp only: ids) (simp add: distinct_map_filter)
  moreover have "subseq (map held (reservations db')) (concat (map priced (ai_jobs db')))"
    using priced_kept [of "reservations db" "ai_jobs db" f g P] ok j rs by simp
  ultimately show ?thesis using o' by (simp add: jobs_ok_def)
qed

lemma jobs_ok_step: "job_step db db' \<Longrightarrow> jobs_ok db \<Longrightarrow> jobs_ok db'"
proof (erule job_stepE)
  assume s: "enqueue_step db db'" and ok: "jobs_ok db"
  from s show "jobs_ok db'"
  proof cases
    case (check gid i r)
    then have "ai_jobs db' = ai_jobs db" "outbox db' = outbox db" "reservations db' = reservations db" by (auto simp: enqueue_check_eq)
    with ok show ?thesis by (simp add: jobs_ok_def)
  next
    case (insert jid i r)
    with ok show ?thesis using enqueue_insert_state [of jid i db] jobs_ok_with_job by auto
  qed
qed (auto intro: jobs_ok_worker jobs_ok_chat)

text \<open>C30: Job tables under concurrency. However the statements of concurrent enqueueing requests interleave with each other
  and with what the workers, the administration of the queue and the view of the chat jobs do, there is at
  most one job for a user and idempotency key, a job has at most one reservation, of its estimate, there
  is no other, and every outbox row belongs to a job. Among the enqueueing requests alone the outbox and
  the reservations hold exactly one row for every job, the reservation still held, and nothing else.\<close>

theorem one_job_per_key:
  "(job_reach db db' \<and> jobs_ok db \<longrightarrow> jobs_ok db') \<and> (enqueue_step\<^sup>*\<^sup>* db db' \<and> tables_ok db \<longrightarrow> tables_ok db')"
proof (intro conjI impI)
  assume "job_reach db db' \<and> jobs_ok db"
  then have "job_reach db db'" "jobs_ok db" by auto
  then show "jobs_ok db'" by (induction rule: rtranclp_induct) (auto intro: jobs_ok_step)
next
  assume "enqueue_step\<^sup>*\<^sup>* db db' \<and> tables_ok db"
  then have "enqueue_step\<^sup>*\<^sup>* db db'" "tables_ok db" by auto
  then show "tables_ok db'" by (induction rule: rtranclp_induct) (auto intro: tables_ok_step)
qed

text \<open>A job is enqueued, tried again by the administration (a second outbox row), and enqueued once more under
  the same key.\<close>

definition retried_db :: job_db where
  "retried_db = (let db = snd (enqueue_insert ''j1'' demo_input empty_db) in db\<lparr>outbox := outbox db @ outbox db\<rparr>)"

theorem one_job_per_key_witness:
  "outbox retried_db = [(''j1'', Q_document), (''j1'', Q_document)] \<and> jobs_ok (snd (enqueue_insert ''j2'' demo_input retried_db))
     \<and> tables_ok (snd (enqueue_insert ''j2'' demo_input (snd (enqueue_insert ''j1'' demo_input empty_db))))"
proof (intro conjI)
  let ?one = "snd (enqueue_insert ''j1'' demo_input empty_db)"
  have one: "?one = with_job ''j1'' demo_input empty_db" "\<not> keyed demo_input empty_db"
    using enqueue_insert_eq [of "''j1''" empty_db demo_input] by (simp_all add: keyed_def demo_input_def EXISTING_def)
  show "outbox retried_db = [(''j1'', Q_document), (''j1'', Q_document)]"
    by (simp add: retried_db_def Let_def one with_job_def demo_input_facts)
  have e1: "enqueue_step empty_db ?one" by (rule enqueue_step.insert [OF prod.collapse [symmetric]])
  have e2: "enqueue_step db (snd (enqueue_insert ''j2'' demo_input db))" for db :: job_db
    by (rule enqueue_step.insert [OF prod.collapse [symmetric]])
  have "worker_step ?one retried_db"
    unfolding worker_step_def
  proof (intro conjI)
    show "\<exists>f P. ai_jobs retried_db = map f (filter P (ai_jobs ?one)) \<and> (\<forall>j. same_job j (f j))"
      by (intro exI [of _ id] exI [of _ "\<lambda>_. True"]) (simp add: retried_db_def Let_def same_job_def)
    show "\<exists>g. reservations retried_db = map g (filter (\<lambda>x. rv_job x \<in> aj_id ` set (ai_jobs retried_db)) (reservations ?one)) \<and> (\<forall>x. same_hold x (g x))"
      by (intro exI [of _ id]) (simp add: retried_db_def Let_def same_hold_def one with_job_def new_job_def)
    show "fst ` set (outbox retried_db) \<subseteq> aj_id ` set (ai_jobs retried_db)"
      by (simp add: retried_db_def Let_def one with_job_def new_job_def)
  qed
  with e1 e2 have "job_reach empty_db (snd (enqueue_insert ''j2'' demo_input retried_db))"
    by (meson job_step.intros converse_rtranclp_into_rtranclp r_into_rtranclp)
  moreover have "jobs_ok empty_db" by (simp add: jobs_ok_def)
  ultimately show "jobs_ok (snd (enqueue_insert ''j2'' demo_input retried_db))"
    using one_job_per_key [THEN conjunct1] by blast
  have "enqueue_step\<^sup>*\<^sup>* empty_db (snd (enqueue_insert ''j2'' demo_input ?one))"
    using e1 e2 by (meson converse_rtranclp_into_rtranclp r_into_rtranclp)
  moreover have "tables_ok empty_db" by (simp add: tables_ok_def)
  ultimately show "tables_ok (snd (enqueue_insert ''j2'' demo_input ?one))" using one_job_per_key [THEN conjunct2] by blast
qed

text \<open>Overspending by concurrency. The check of the balance and the insert of the reservation are separate
  statements: two requests that are each covered, but not together, both pass the check when it is
  made before either insert, both write their job, and the owner's available credits end below zero.\<close>

theorem reserve_race:
  assumes "account_of (ei_user i) (ei_company i) = a" and "account_of (ei_user i') (ei_company i') = a"
    and "ei_company i \<noteq> Some []" and "ei_company i' \<noteq> Some []"
    and "grant_of gid i db = db" and "grant_of gid' i' db = db"
    and "job_amount i \<le> available a db" and "job_amount i' \<le> available a db"
    and "available a db < job_amount i + job_amount i'"
    and "ei_key i = None" and "ei_key i' = None"
    and "jid \<notin> aj_id ` set (ai_jobs db)" and "jid' \<notin> aj_id ` set (ai_jobs db)" and "jid \<noteq> jid'"
  shows "enqueue_check gid i db = (Inr (), db) \<and> enqueue_check gid' i' db = (Inr (), db)
    \<and> (\<exists>r r' db1 db2. enqueue_insert jid i db = (Inr r, db1) \<and> enqueue_insert jid' i' db1 = (Inr r', db2)
         \<and> available a db2 < 0)"
proof -
  have "jid' \<notin> aj_id ` set (ai_jobs (with_job jid i db))" using assms(13,14) by (auto simp: with_job_def new_job_def)
  from enqueue_insert_eq [OF assms(12), of i] enqueue_insert_eq [OF this, of i'] assms(10,11)
  have "\<exists>r. enqueue_insert jid i db = (Inr r, with_job jid i db)"
    and "\<exists>r. enqueue_insert jid' i' (with_job jid i db) = (Inr r, with_job jid' i' (with_job jid i db))"
    by (simp_all add: keyed_def)
  moreover have "available a (with_job jid' i' (with_job jid i db)) < 0"
    using charged_to_owner [OF assms(3)] charged_to_owner [OF assms(4)] assms(1,2,9) by (simp add: available_with_job)
  ultimately show ?thesis using assms(1,2,5-8) by (auto simp: enqueue_check_eq)
qed

definition spent_db :: job_db where
  "spent_db = empty_db\<lparr>ledger := [account_row (User ''u1'') ''g0'' 27000000 (monthly_reference 1785553872345) 1785553000000 27000000],
     usage_table := Some [\<lparr>us_user = ''u1'', us_cost = 26950000, us_status = ''SETTLED''\<rparr>]\<rparr>"

definition demo_open :: enqueue_input where
  "demo_open = demo_input\<lparr>ei_key := None\<rparr>"

theorem reserve_race_witness:
  "\<exists>r r' db1 db2. enqueue_insert ''j1'' demo_open spent_db = (Inr r, db1) \<and> enqueue_insert ''j2'' demo_open db1 = (Inr r', db2)
     \<and> available (User ''u1'') db2 < 0"
proof -
  have acc: "account_of (ei_user demo_open) (ei_company demo_open) = User ''u1''" and c: "ei_company demo_open \<noteq> Some []"
    and k: "ei_key demo_open = None"
    by (simp_all add: demo_open_def demo_input_def account_of_def)
  have amt: "job_amount demo_open = 30000" by (simp add: job_amount_def demo_open_def demo_input_def estimateMicro_def Let_def)
  have n: "plan_name PERSONAL (Some ''PRO'') = ''PRO''" by (simp add: plan_name_def js_defs)
  have gr: "granted (User ''u1'', monthly_reference 1785553872345) spent_db" by (simp add: granted_def spent_db_def)
  have g: "grant_of gid demo_open spent_db = spent_db" for gid
    using gr amt by (simp add: grant_of_def demo_open_def demo_input_def job_audience_def owner_of_def ensureMonthlyGrant_eq n
        owner_account_def grantMicro_def PERSONAL_GRANT_def grant_sql_def)
  have av: "available (User ''u1'') spent_db = 50000"
    by (simp add: available_def chargedMicro_def settled_of_def settled_sql_def reservedMicro_def spent_db_def)
  have f: "j \<notin> aj_id ` set (ai_jobs spent_db)" for j by (simp add: spent_db_def)
  from reserve_race [OF acc acc c c g g _ _ _ k k f f, of "''j1''" "''j2''"] av amt show ?thesis by simp
qed

end
