(* ===== verification/Core_Routes.thy ===== *)
theory Core_Routes
  imports Owner Core_Http
begin

text \<open>
  The routing of the core worker: \<open>dispatch\<close> of \<open>services/core-api/src/handler.ts\<close> and the
  \<open>dispatch\<dots>\<close> function of every file under \<open>routes/\<close>. Each is a table of rules in the order of its
  tests: a method, a path pattern and what is done when both match. The handlers are named, with the
  segments they receive; what a handler does is the subject of other theories.

  A path given as a text stands in the table as the pattern of its segments.
\<close>

subsection \<open>Rules\<close>

text \<open>\<open>Handler\<close> calls a function on the captured segments and further constants. \<open>Decoding\<close> first
  decodes the captured segment and throws when that fails, \<open>Checked\<close> first requires the shape of a
  UUID; without a function they only make that test. \<open>Stop\<close> is \<open>return null\<close>.\<close>

datatype action =
    Handler string "string list"
  | Decoding "string option" core_exn
  | Checked "string option" core_exn
  | Throws core_exn
  | Stop

datatype dispatched = Call string "string list" | Refuse core_exn

type_synonym rule = "string option \<times> seg list \<times> action"

fun captures :: "seg list \<Rightarrow> string list \<Rightarrow> string list" where
  "captures (Any # ps) (s # ss) = s # captures ps ss"
| "captures (_ # ps) (s # ss) = captures ps ss"
| "captures _ _ = []"

definition call :: "string option \<Rightarrow> string list \<Rightarrow> dispatched option" where
  "call h args = map_option (\<lambda>name. Call name args) h"

fun perform :: "(string \<Rightarrow> string option) \<Rightarrow> action \<Rightarrow> string list \<Rightarrow> dispatched option" where
  "perform uri (Handler h extra) caps = Some (Call h (caps @ extra))"
| "perform uri (Decoding h x) caps = (case uri (hd caps) of None \<Rightarrow> Some (Refuse x) | Some v \<Rightarrow> call h [v])"
| "perform uri (Checked h x) caps = (if uuid_shape (hd caps) then call h [toLowerCase (hd caps)] else Some (Refuse x))"
| "perform uri (Throws x) caps = Some (Refuse x)"
| "perform uri Stop caps = None"

definition applies :: "string option \<Rightarrow> seg list \<Rightarrow> string \<Rightarrow> string list \<Rightarrow> bool" where
  "applies mm pat m sg \<longleftrightarrow> (mm = None \<or> mm = Some m) \<and> segs_match (Lit [] # Lit ''api'' # Lit ''v1'' # pat) sg"

fun run_rules :: "(string \<Rightarrow> string option) \<Rightarrow> rule list \<Rightarrow> string \<Rightarrow> string list \<Rightarrow> dispatched option" where
  "run_rules uri [] m sg = None"
| "run_rules uri ((mm, pat, a) # rules) m sg =
     (if applies mm pat m sg then perform uri a (captures pat (drop 3 sg)) else run_rules uri rules m sg)"

definition on :: "string \<Rightarrow> seg list \<Rightarrow> string \<Rightarrow> rule" where
  "on m pat h = (Some m, pat, Handler h [])"

definition invalid_field :: "string \<Rightarrow> string \<Rightarrow> core_exn" where
  "invalid_field field message = field_error field message"

subsection \<open>The tables\<close>

definition auth_rules :: "rule list" where
  "auth_rules = [
     on ''GET'' [Lit ''auth'', Any, Lit ''start''] ''oauthStart'',
     (Some ''GET'', [Lit ''auth'', Lit ''apple'', Lit ''callback''],
        Throws (HttpError 400 ''VALIDATION_ERROR'' ''apple callback is POST form_post'' JNull)),
     on ''GET'' [Lit ''auth'', Any, Lit ''callback''] ''oauthCallback'',
     on ''POST'' [Lit ''auth'', Lit ''exchange''] ''exchange'',
     on ''POST'' [Lit ''auth'', Lit ''refresh''] ''refresh'',
     on ''POST'' [Lit ''auth'', Lit ''logout''] ''logout'',
     on ''GET'' [Lit ''auth'', Lit ''me''] ''me'',
     on ''DELETE'' [Lit ''me''] ''deleteAccount'']"

definition dispatchEmailAuth :: "rule list" where
  "dispatchEmailAuth = [
     on ''POST'' [Lit ''auth'', Lit ''email'', Lit ''signup''] ''signup'',
     on ''POST'' [Lit ''auth'', Lit ''email'', Lit ''verify''] ''verify'',
     on ''POST'' [Lit ''auth'', Lit ''email'', Lit ''login''] ''login'',
     on ''POST'' [Lit ''auth'', Lit ''email'', Lit ''password-reset''] ''requestReset'',
     on ''POST'' [Lit ''auth'', Lit ''email'', Lit ''password-reset'', Lit ''confirm''] ''confirmReset'']"

definition dispatchPhoneAuth :: "rule list" where
  "dispatchPhoneAuth = [
     on ''POST'' [Lit ''auth'', Lit ''phone'', Lit ''send''] ''sendPhone'',
     on ''POST'' [Lit ''auth'', Lit ''phone'', Lit ''verify''] ''verifyPhone'']"

definition dispatchAppleAuth :: "rule list" where
  "dispatchAppleAuth = [
     on ''POST'' [Lit ''auth'', Lit ''apple'', Lit ''callback''] ''appleCallback'',
     on ''POST'' [Lit ''auth'', Lit ''apple'', Lit ''native''] ''appleNative'']"

definition conversation_rules :: "rule list" where
  "conversation_rules = [
     on ''POST'' [Lit ''conversations''] ''createConversation'',
     on ''PATCH'' [Lit ''conversations'', Any] ''patchConversation'',
     on ''DELETE'' [Lit ''conversations'', Any] ''deleteConversation'',
     on ''POST'' [Lit ''conversations'', Any, Lit ''archive''] ''archiveConversation'',
     (Some ''POST'', [Lit ''conversations'', Any, Lit ''unarchive''], Handler ''archiveConversation'' [''false'']),
     on ''POST'' [Lit ''conversations'', Any, Lit ''messages''] ''postMessage'',
     on ''POST'' [Lit ''conversations'', Any, Lit ''messages'', Lit ''stream''] ''postMessage'',
     on ''POST'' [Lit ''conversations'', Any, Lit ''attachments''] ''postAttachment'',
     on ''POST'' [Lit ''conversations'', Any, Lit ''approvals'', Any] ''resolveApproval'',
     on ''GET'' [Lit ''conversations'', Any, Lit ''artifacts'', Any] ''getArtifact'']"

definition billing_rules :: "rule list" where
  "billing_rules = [
     on ''GET'' [Lit ''billing''] ''billingStatus'',
     on ''POST'' [Lit ''billing'', Lit ''checkout''] ''checkout'',
     on ''POST'' [Lit ''billing'', Lit ''topup''] ''topup'',
     on ''POST'' [Lit ''billing'', Lit ''portal''] ''portal'',
     on ''POST'' [Lit ''billing'', Lit ''iap'', Lit ''verify''] ''verifyIap'',
     on ''GET'' [Lit ''billing'', Lit ''ledger''] ''ledger'',
     on ''POST'' [Lit ''billing'', Lit ''webhook''] ''webhook'',
     on ''POST'' [Lit ''billing'', Lit ''webhook'', Lit ''app-store''] ''appleWebhook'',
     on ''POST'' [Lit ''billing'', Lit ''webhook'', Lit ''google-play''] ''googleWebhook'']"

definition job_rules :: "rule list" where
  "job_rules = [
     on ''GET'' [Lit ''ai'', Lit ''usage''] ''listUsage'',
     on ''GET'' [Lit ''ai'', Lit ''jobs'', Any] ''getQueueJob'',
     on ''POST'' [Lit ''documents'', Any, Lit ''generate''] ''enqueueDocumentGenerate'',
     on ''POST'' [Lit ''postings'', Any, Lit ''fit''] ''enqueueFit'',
     on ''GET'' [Lit ''jobs''] ''listJobs'',
     on ''POST'' [Lit ''jobs''] ''createJob'',
     on ''GET'' [Lit ''jobs'', Any, Lit ''analyses''] ''listAnalyses'',
     on ''GET'' [Lit ''jobs'', Any] ''getJob'',
     on ''PATCH'' [Lit ''jobs'', Any] ''patchJob'']"

definition dispatchPostings :: "rule list" where
  "dispatchPostings = [
     on ''GET'' [Lit ''postings''] ''listPostings'',
     on ''POST'' [Lit ''postings''] ''createPosting'',
     on ''GET'' [Lit ''postings'', Lit ''facets''] ''listPostingFacets'',
     on ''GET'' [Lit ''skills''] ''listSkills'',
     on ''GET'' [Lit ''postings'', Lit ''locations''] ''listPostingLocations'',
     on ''POST'' [Lit ''postings'', Any, Lit ''bookmark''] ''bookmarkPosting'',
     on ''DELETE'' [Lit ''postings'', Any, Lit ''bookmark''] ''unbookmarkPosting'',
     on ''POST'' [Lit ''postings'', Any, Lit ''apply''] ''applyPosting'',
     on ''GET'' [Lit ''companies'', Lit ''me'', Lit ''postings''] ''listCompanyPostings'',
     on ''POST'' [Lit ''postings'', Any, Lit ''close''] ''closePosting'',
     on ''GET'' [Lit ''postings'', Any, Lit ''applicants'', Any, Lit ''files'', Any] ''streamApplicationFile'',
     on ''GET'' [Lit ''postings'', Any, Lit ''applicants'', Any] ''getApplicant'',
     on ''PATCH'' [Lit ''postings'', Any, Lit ''applicants'', Any] ''patchApplicant'',
     on ''GET'' [Lit ''postings'', Any, Lit ''applicants''] ''listApplicants'',
     on ''GET'' [Lit ''postings'', Any, Lit ''applicant-counts''] ''postingApplicantCounts'',
     on ''GET'' [Lit ''postings'', Any] ''getPosting'',
     on ''PATCH'' [Lit ''postings'', Any] ''patchPosting'']"

definition dispatchSearch :: "rule list" where
  "dispatchSearch = [
     on ''GET'' [Lit ''search'', Lit ''counts''] ''searchCounts'',
     on ''GET'' [Lit ''search'', Lit ''trending''] ''searchTrending'',
     on ''GET'' [Lit ''search''] ''search'']"

definition dispatchProfiles :: "rule list" where
  "dispatchProfiles = [
     on ''GET'' [Lit ''profiles''] ''listProfiles'',
     on ''POST'' [Lit ''profiles'', Any, Lit ''offer''] ''offerProfile'',
     on ''GET'' [Lit ''profiles'', Any] ''getProfile'',
     on ''POST'' [Lit ''users'', Any, Lit ''follow''] ''followUser'',
     on ''DELETE'' [Lit ''users'', Any, Lit ''follow''] ''unfollowUser'',
     on ''GET'' [Lit ''me'', Lit ''profile''] ''getMyProfile'',
     on ''PATCH'' [Lit ''me'', Lit ''profile''] ''patchMyProfile'',
     (Some ''GET'', [Lit ''me'', Lit ''follows''], Handler ''listRelation'' [''false'']),
     (Some ''GET'', [Lit ''me'', Lit ''followers''], Handler ''listRelation'' [''true''])]"

definition dispatchOffers :: "rule list" where
  "dispatchOffers = [
     on ''GET'' [Lit ''me'', Lit ''offers''] ''listOffers'',
     on ''GET'' [Lit ''me'', Lit ''offers'', Any, Lit ''messages''] ''listOfferMessages'',
     on ''POST'' [Lit ''me'', Lit ''offers'', Any, Lit ''messages''] ''postOfferMessage'',
     (Some ''POST'', [Lit ''me'', Lit ''offers'', Any, Lit ''accept''], Handler ''decideOffer'' [''ACCEPTED'']),
     (Some ''POST'', [Lit ''me'', Lit ''offers'', Any, Lit ''decline''], Handler ''decideOffer'' [''DECLINED'']),
     (Some ''POST'', [Lit ''me'', Lit ''offers'', Any, Lit ''archive''], Handler ''archiveOffer'' [''true'']),
     (Some ''POST'', [Lit ''me'', Lit ''offers'', Any, Lit ''unarchive''], Handler ''archiveOffer'' [''false'']),
     on ''POST'' [Lit ''me'', Lit ''offers'', Any, Lit ''report''] ''reportOffer'',
     on ''GET'' [Lit ''me'', Lit ''offers'', Any] ''getOffer'']"

definition dispatchBlocks :: "rule list" where
  "dispatchBlocks = [
     on ''POST'' [Lit ''me'', Lit ''blocks''] ''blockUser'',
     on ''GET'' [Lit ''me'', Lit ''blocks''] ''listBlocks'',
     on ''DELETE'' [Lit ''me'', Lit ''blocks'', Any] ''unblockUser'']"

definition dispatchPosts :: "rule list" where
  "dispatchPosts = [
     on ''GET'' [Lit ''me'', Lit ''posts''] ''listMyPosts'',
     on ''GET'' [Lit ''me'', Lit ''commented-posts''] ''listCommentedPosts'',
     on ''GET'' [Lit ''posts''] ''listPosts'',
     on ''POST'' [Lit ''posts''] ''createPost'',
     on ''GET'' [Lit ''posts'', Any, Lit ''comments''] ''listComments'',
     on ''POST'' [Lit ''posts'', Any, Lit ''comments''] ''createComment'',
     on ''GET'' [Lit ''posts'', Any] ''getPost'']"

definition dispatchMe :: "rule list" where
  "dispatchMe = [
     on ''GET'' [Lit ''me'', Lit ''links''] ''listLinks'',
     on ''POST'' [Lit ''me'', Lit ''links''] ''createLink'',
     on ''PATCH'' [Lit ''me'', Lit ''links'', Any] ''updateLink'',
     on ''DELETE'' [Lit ''me'', Lit ''links'', Any] ''deleteLink'',
     on ''POST'' [Lit ''me'', Lit ''links'', Any, Lit ''restore''] ''restoreLink'',
     on ''POST'' [Lit ''me'', Lit ''devices''] ''registerDevice'',
     on ''DELETE'' [Lit ''me'', Lit ''devices'', Any] ''deleteDevice'',
     on ''GET'' [Lit ''me'', Lit ''notifications'', Lit ''unread''] ''unreadNotifications'',
     on ''GET'' [Lit ''me'', Lit ''notifications''] ''listNotifications'',
     on ''POST'' [Lit ''me'', Lit ''notifications'', Lit ''read''] ''readNotifications'',
     on ''GET'' [Lit ''me'', Lit ''settings''] ''getSettings'',
     on ''PATCH'' [Lit ''me'', Lit ''settings''] ''patchSettings'',
     on ''GET'' [Lit ''me'', Lit ''bookmarks''] ''listBookmarks'',
     on ''GET'' [Lit ''me'', Lit ''posting-views''] ''listPostingViews'',
     on ''GET'' [Lit ''me'', Lit ''posting-document-status''] ''listPostingDocumentStatus'',
     on ''GET'' [Lit ''me'', Lit ''suggested-experiences''] ''listSuggestedExperiences'',
     on ''GET'' [Lit ''me'', Lit ''career-topics''] ''listCareerTopics'',
     on ''GET'' [Lit ''me'', Lit ''match-chips''] ''listMatchChips'']"

definition dispatchCompanies :: "rule list" where
  "dispatchCompanies = [
     on ''POST'' [Lit ''companies'', Lit ''verify''] ''verifyBusiness'',
     on ''GET'' [Lit ''companies'', Lit ''me''] ''myCompany'',
     on ''PATCH'' [Lit ''companies'', Lit ''me''] ''patchCompany'',
     on ''GET'' [Lit ''companies'', Lit ''me'', Lit ''members''] ''listMembers'',
     on ''GET'' [Lit ''companies'', Lit ''me'', Lit ''invites''] ''listInvites'',
     on ''POST'' [Lit ''companies'', Lit ''me'', Lit ''invites''] ''invite'',
     (Some ''GET'', [Lit ''companies'', Lit ''invites'', Any], Decoding (Some ''previewInvite'') not_found_error),
     (Some ''POST'', [Lit ''companies'', Lit ''invites'', Any, Lit ''accept''], Decoding (Some ''acceptInvite'') not_found_error),
     (Some ''DELETE'', [Lit ''companies'', Lit ''me'', Lit ''members'', Any],
        Checked (Some ''removeMember'') (invalid_field ''userId'' ''must be a UUID'')),
     (Some ''PATCH'', [Lit ''companies'', Lit ''me'', Lit ''members'', Any],
        Checked (Some ''transferAdmin'') (invalid_field ''userId'' ''must be a UUID'')),
     (None, [Lit ''companies'', Lit ''me'', Lit ''members'', Any],
        Checked None (invalid_field ''userId'' ''must be a UUID''))]"

definition calendar_rules :: "rule list" where
  "calendar_rules = [
     on ''GET'' [Lit ''calendar'', Lit ''events''] ''listEvents'',
     on ''POST'' [Lit ''calendar'', Lit ''events''] ''createEvent'',
     on ''PATCH'' [Lit ''calendar'', Lit ''events'', Any] ''patchEvent'',
     on ''DELETE'' [Lit ''calendar'', Lit ''events'', Any] ''deleteEvent'']"

definition dispatchConsents :: "rule list" where
  "dispatchConsents = [
     on ''PUT'' [Lit ''me'', Lit ''consents'', Lit ''terms''] ''putTerms'',
     on ''GET'' [Lit ''me'', Lit ''consents''] ''getConsents'',
     on ''PUT'' [Lit ''me'', Lit ''consents''] ''putConsents'']"

definition dispatchApplications :: "rule list" where
  "dispatchApplications = [
     on ''GET'' [Lit ''applications''] ''listApplications'',
     on ''POST'' [Lit ''applications''] ''createApplication'',
     on ''POST'' [Lit ''applications'', Lit ''import''] ''importApplication'',
     (None, [Lit ''applications'', Lit ''import''], Stop),
     on ''GET'' [Lit ''applications'', Any] ''getApplication'',
     on ''PATCH'' [Lit ''applications'', Any] ''patchApplication'',
     on ''GET'' [Lit ''applications'', Any, Lit ''timeline''] ''applicationTimeline'',
     on ''GET'' [Lit ''applications'', Any, Lit ''checklist''] ''applicationChecklist'',
     on ''POST'' [Lit ''applications'', Any, Lit ''submission-drafts''] ''createSubmissionDraft'',
     on ''POST'' [Lit ''applications'', Any, Lit ''submissions''] ''submitApplication'',
     on ''GET'' [Lit ''applications'', Any, Lit ''submissions''] ''listSubmissions'']"

definition dispatchSources :: "rule list" where
  "dispatchSources = [
     on ''GET'' [Lit ''sources''] ''listSources'',
     on ''POST'' [Lit ''sources''] ''createSource'',
     on ''GET'' [Lit ''sources'', Any, Lit ''content''] ''getSourceContent'',
     on ''GET'' [Lit ''sources'', Any] ''getSource'',
     on ''DELETE'' [Lit ''sources'', Any] ''deleteSource'']"

definition dispatchEvidence :: "rule list" where
  "dispatchEvidence = [
     on ''GET'' [Lit ''career-evidence''] ''listEvidence'',
     on ''POST'' [Lit ''career-evidence''] ''createEvidence'',
     (None, [Lit ''career-evidence'', Lit ''import''], Stop),
     on ''GET'' [Lit ''career-evidence'', Any] ''getEvidence'',
     on ''POST'' [Lit ''career-evidence'', Any, Lit ''archive''] ''archiveEvidence'']"

definition bad_key :: core_exn where
  "bad_key = field_error ''key'' ''invalid experiment key''"

definition dispatchExperiments :: "rule list" where
  "dispatchExperiments = [
     (Some ''GET'', [Lit ''experiments'', Any, Lit ''assignment''], Decoding (Some ''getAssignment'') bad_key),
     (Some ''POST'', [Lit ''experiments'', Any, Lit ''events''], Decoding (Some ''recordEvent'') bad_key),
     (Some ''GET'', [Lit ''experiments'', Any, Lit ''stats''], Decoding (Some ''experimentStats'') bad_key),
     (Some ''GET'', [Lit ''experiments'', Any, Lit ''results''], Decoding (Some ''experimentResults'') bad_key),
     (None, [Lit ''experiments'', Any, One_Of [''assignment'', ''events'', ''stats'', ''results'']], Decoding None bad_key)]"

definition dispatchInterviews :: "rule list" where
  "dispatchInterviews = [
     on ''GET'' [Lit ''interviews''] ''listInterviews'',
     on ''POST'' [Lit ''interviews''] ''createInterview'',
     on ''GET'' [Lit ''interviews'', Any] ''getInterview'',
     on ''PATCH'' [Lit ''interviews'', Any] ''patchInterview'']"

definition dispatchProjects :: "rule list" where
  "dispatchProjects = [
     on ''GET'' [Lit ''projects''] ''listProjects'',
     (None, [Lit ''projects'', Lit ''blueprints''], Stop),
     on ''POST'' [Lit ''projects'', Any, Lit ''runs'', Any, Lit ''start''] ''startRun'',
     on ''POST'' [Lit ''projects'', Any, Lit ''runs'', Any, Lit ''launch''] ''reportLaunch'',
     on ''POST'' [Lit ''projects'', Any, Lit ''runs'', Any, Lit ''recover''] ''recoverRun'',
     on ''POST'' [Lit ''projects'', Any, Lit ''runs'', Any, Lit ''result''] ''reportResult'',
     on ''GET'' [Lit ''projects'', Any] ''getProject'',
     on ''POST'' [Lit ''projects'', Any, Lit ''select''] ''selectProject'',
     on ''GET'' [Lit ''projects'', Any, Lit ''runs''] ''listRuns'',
     on ''POST'' [Lit ''projects'', Any, Lit ''runs''] ''createRun'',
     on ''GET'' [Lit ''projects'', Any, Lit ''evidence''] ''listProjectEvidence'',
     on ''POST'' [Lit ''projects'', Any, Lit ''evidence''] ''createProjectEvidence'']"

definition dispatchIntegrations :: "rule list" where
  "dispatchIntegrations = [
     on ''GET'' [Lit ''integrations'', Lit ''google''] ''googleStatus'',
     on ''DELETE'' [Lit ''integrations'', Lit ''google''] ''googleDisconnect'',
     on ''POST'' [Lit ''integrations'', Lit ''google'', Lit ''connect''] ''googleConnect'',
     on ''GET'' [Lit ''integrations'', Lit ''google'', Lit ''callback''] ''googleCallback'',
     on ''POST'' [Lit ''integrations'', Lit ''google'', Lit ''complete''] ''googleComplete'',
     on ''POST'' [Lit ''integrations'', Lit ''google'', Lit ''sync''] ''googleSync'',
     on ''GET'' [Lit ''integrations'', Lit ''google'', Lit ''messages''] ''googleMessages'',
     on ''GET'' [Lit ''integrations'', Lit ''google'', Lit ''events''] ''googleEvents'',
     on ''POST'' [Lit ''integrations'', Lit ''google'', Lit ''messages'', Any, Lit ''link''] ''googleLinkMessage'']"

definition dispatchDocuments :: "rule list" where
  "dispatchDocuments = [
     on ''GET'' [Lit ''documents''] ''listDocuments'',
     on ''POST'' [Lit ''documents''] ''createDocument'',
     on ''GET'' [Lit ''documents'', Any, Lit ''versions''] ''listVersions'',
     on ''POST'' [Lit ''documents'', Any, Lit ''versions''] ''createVersion'',
     on ''GET'' [Lit ''documents'', Any, Lit ''versions'', Any] ''getVersion'',
     (None, [Lit ''documents'', Any, Lit ''versions''], Stop),
     (None, [Lit ''documents'', Any, Lit ''versions'', Any], Stop),
     on ''POST'' [Lit ''documents'', Any, Lit ''revisions'', Any, Lit ''apply''] ''applyRevision'',
     on ''POST'' [Lit ''documents'', Any, Lit ''exports'', Any, Lit ''result''] ''recordExportResult'',
     on ''GET'' [Lit ''documents'', Lit ''shared'', Any] ''readShare'',
     on ''POST'' [Lit ''documents'', Any, Lit ''share''] ''shareDocument'',
     on ''DELETE'' [Lit ''documents'', Any, Lit ''share''] ''revokeShare'',
     on ''POST'' [Lit ''documents'', Any, Lit ''base-profile''] ''setBaseProfile'',
     on ''POST'' [Lit ''documents'', Any, Lit ''profile''] ''convertProfile'',
     on ''GET'' [Lit ''documents'', Any] ''getDocument'',
     on ''PATCH'' [Lit ''documents'', Any] ''patchDocument'',
     on ''POST'' [Lit ''documents'', Any, Lit ''edits''] ''applyEdits'',
     on ''POST'' [Lit ''documents'', Any, Lit ''review''] ''reviewDocument'',
     on ''POST'' [Lit ''documents'', Any, Lit ''finalize''] ''finalizeDocument'',
     on ''POST'' [Lit ''documents'', Any, Lit ''archive''] ''archiveDocument'',
     on ''GET'' [Lit ''documents'', Any, Lit ''exports''] ''listExports'',
     on ''POST'' [Lit ''documents'', Any, Lit ''exports''] ''createExport'']"

definition notification_rules :: "rule list" where
  "notification_rules = [
     on ''POST'' [Lit ''internal'', Lit ''notifications'', Lit ''ai-done''] ''recordAiDone'',
     on ''POST'' [Lit ''internal'', Lit ''notifications'', Lit ''run''] ''runNotificationJobs'']"

subsection \<open>Images and the whole\<close>

definition image_prefix :: string where
  "image_prefix = ''/api/v1/uploads/images/''"

definition isImageRead :: "string \<Rightarrow> string \<Rightarrow> bool" where
  "isImageRead m path \<longleftrightarrow> m = ''GET'' \<and> startsWith path image_prefix \<and> \<not> str_includes path ''..''"

definition dispatchImages :: "string \<Rightarrow> string \<Rightarrow> dispatched option" where
  "dispatchImages m path =
     (if path = ''/api/v1/uploads/images'' then (if m = ''POST'' then Some (Call ''uploadImage'' []) else None)
      else if isImageRead m path then Some (Call ''getImage'' [drop (length image_prefix) path])
      else None)"

definition or_next :: "dispatched option \<Rightarrow> dispatched option \<Rightarrow> dispatched option" where
  "or_next a b = (case a of None \<Rightarrow> b | Some _ \<Rightarrow> a)"

definition rules_before_images :: "rule list list" where
  "rules_before_images = [auth_rules, dispatchEmailAuth, dispatchPhoneAuth, dispatchAppleAuth, conversation_rules,
     billing_rules, job_rules, dispatchPostings, dispatchSearch, dispatchProfiles, dispatchOffers, dispatchBlocks,
     dispatchPosts, dispatchMe, dispatchCompanies, calendar_rules, dispatchConsents, dispatchApplications, dispatchSources]"

definition rules_after_images :: "rule list list" where
  "rules_after_images = [dispatchEvidence, dispatchExperiments, dispatchInterviews, dispatchProjects, dispatchIntegrations,
     dispatchDocuments]"

fun try_all :: "(string \<Rightarrow> string option) \<Rightarrow> rule list list \<Rightarrow> string \<Rightarrow> string list \<Rightarrow> dispatched option" where
  "try_all uri [] m sg = None"
| "try_all uri (t # ts) m sg = or_next (run_rules uri t m sg) (try_all uri ts m sg)"

text \<open>\<open>None\<close> is the 404 at the end.\<close>

definition dispatch :: "(string \<Rightarrow> string option) \<Rightarrow> string \<Rightarrow> string \<Rightarrow> dispatched option" where
  "dispatch uri m path =
     (let sg = segments path in
      or_next (try_all uri rules_before_images m sg) (or_next (dispatchImages m path) (try_all uri rules_after_images m sg)))"

subsection \<open>Public routes\<close>

definition PUBLIC :: "string list" where
  "PUBLIC = [''/api/v1/auth/exchange'', ''/api/v1/auth/refresh'', ''/api/v1/auth/logout'',
     ''/api/v1/billing/webhook'', ''/api/v1/billing/webhook/app-store'', ''/api/v1/billing/webhook/google-play'']"

definition EMAIL_PUBLIC :: "string list" where
  "EMAIL_PUBLIC = [''/api/v1/auth/email/signup'', ''/api/v1/auth/email/verify'', ''/api/v1/auth/email/login'',
     ''/api/v1/auth/email/password-reset'', ''/api/v1/auth/email/password-reset/confirm'']"

definition PHONE_PUBLIC :: "string list" where
  "PHONE_PUBLIC = [''/api/v1/auth/phone/send'', ''/api/v1/auth/phone/verify'']"

text \<open>\<open>POSTING_UUID\<close> and \<open>APPLICANT_COUNTS\<close>, which ignore case.\<close>

definition posting_uuid :: "seg list \<Rightarrow> string \<Rightarrow> bool" where
  "posting_uuid rest path \<longleftrightarrow> rx (Lit ''postings'' # Any # rest) (toLowerCase path) \<and> uuid_shape (segments path ! 4)"

definition isGuestRead :: "string \<Rightarrow> string \<Rightarrow> bool" where
  "isGuestRead m path \<longleftrightarrow> m = ''GET''
     \<and> (path \<in> set [''/api/v1/postings'', ''/api/v1/postings/locations'', ''/api/v1/postings/facets'', ''/api/v1/skills'',
          ''/api/v1/search'', ''/api/v1/search/counts'', ''/api/v1/search/trending'']
        \<or> posting_uuid [] path \<or> posting_uuid [Lit ''applicant-counts''] path)"

definition isGoogleCallback :: "string \<Rightarrow> string \<Rightarrow> bool" where
  "isGoogleCallback m path \<longleftrightarrow> m = ''GET'' \<and> path = ''/api/v1/integrations/google/callback''"

definition isPublic :: "string \<Rightarrow> string \<Rightarrow> string \<Rightarrow> bool" where
  "isPublic m path authorization \<longleftrightarrow>
     path \<in> set PUBLIC
     \<or> m = ''POST'' \<and> path \<in> set EMAIL_PUBLIC
     \<or> m = ''POST'' \<and> path \<in> set PHONE_PUBLIC
     \<or> m = ''POST'' \<and> (path = ''/api/v1/auth/apple/callback'' \<or> path = ''/api/v1/auth/apple/native'')
     \<or> m = ''GET'' \<and> rx [Lit ''auth'', Any, One_Of [''start'', ''callback'']] path
     \<or> m = ''GET'' \<and> rx [Lit ''companies'', Lit ''invites'', Any] path
     \<or> isImageRead m path
     \<or> isGoogleCallback m path
     \<or> m = ''GET'' \<and> rx [Lit ''documents'', Lit ''shared'', Any] path
     \<or> authorization = [] \<and> isGuestRead m path"

subsection \<open>Evaluation\<close>

lemma segments_Cons [simp]:
  "segments [] = [[]]"
  "segments (CHR ''/'' # r) = [] # segments r"
  "c \<noteq> CHR ''/'' \<Longrightarrow> segments (c # r) = (case segments r of [] \<Rightarrow> [[c]] | w # ws \<Rightarrow> (c # w) # ws)"
  by (simp_all add: segments_def)

lemma or_next_simps [simp]: "or_next None b = b" "or_next (Some x) b = Some x" "or_next a None = a"
  by (simp_all add: or_next_def split: option.split)

end
