(* ===== verification/Core_User.thy ===== *)
theory Core_User
  imports Core_Http
begin

text \<open>
  The user a request of the core worker runs as: \<open>UserRow\<close> of \<open>types.ts\<close>, the rows of \<open>users\<close> and
  \<open>company_members\<close> it is read from, and \<open>userFrom\<close> (\<open>routes/auth.ts\<close>, \<open>internal-auth.ts\<close>). A row
  is the JSON object the driver delivers.
\<close>

datatype account_type = Personal_Account | Employer_Account

record user_row =
  cu_id :: string
  cu_displayName :: string
  cu_locale :: string
  cu_email :: string
  cu_provider :: string
  cu_plan :: string
  cu_subscriptionStatus :: string
  cu_stripeCustomerId :: "string option"
  cu_periodEndsAt :: "string option"
  cu_createdAt :: string
  cu_accountType :: account_type
  cu_companyId :: "string option"
  cu_companyRole :: "string option"

definition anonymous :: user_row where
  "anonymous = \<lparr>cu_id = [], cu_displayName = [], cu_locale = ''ko'', cu_email = [], cu_provider = [], cu_plan = ''FREE'',
     cu_subscriptionStatus = ''NONE'', cu_stripeCustomerId = None, cu_periodEndsAt = None, cu_createdAt = [],
     cu_accountType = Personal_Account, cu_companyId = None, cu_companyRole = None\<rparr>"

definition GUEST_ID :: string where
  "GUEST_ID = ''00000000-0000-0000-0000-000000000000''"

definition guestUser :: user_row where
  "guestUser = anonymous\<lparr>cu_id := GUEST_ID\<rparr>"

definition employerFlag :: "jv \<Rightarrow> bool" where
  "employerFlag v \<longleftrightarrow> v = JBool True \<or> v = JStr ''t'' \<or> v = JStr ''true'' \<or> v = JNum 1"

definition textOrNull :: "jv \<Rightarrow> string option" where
  "textOrNull v = (if blank v then None else Some (js_String v))"

text \<open>\<open>String(v ?? d)\<close> and \<open>v == null ? null : String(v)\<close>.\<close>

definition text_or :: "string \<Rightarrow> jv \<Rightarrow> string" where
  "text_or d v = (if nullish v then d else js_String v)"

definition accountLabel :: "jv \<Rightarrow> account_type" where
  "accountLabel row = (if employerFlag (jget row ''is_employer'') then Employer_Account else Personal_Account)"

text \<open>\<open>acting\<close> is the company an internal call acts for; it comes before the user's own.\<close>

definition userFrom :: "jv \<Rightarrow> string option \<Rightarrow> user_row" where
  "userFrom row acting =
     \<lparr>cu_id = js_String (jget row ''id''), cu_displayName = text_or [] (jget row ''display_name''),
      cu_locale = text_or ''ko'' (jget row ''locale''), cu_email = text_or [] (jget row ''email''),
      cu_provider = text_or [] (jget row ''provider''), cu_plan = text_or ''FREE'' (jget row ''plan''),
      cu_subscriptionStatus = text_or ''NONE'' (jget row ''subscription_status''),
      cu_stripeCustomerId = asString (jget row ''stripe_customer_id''),
      cu_periodEndsAt = asString (jget row ''period_ends_at''), cu_createdAt = js_String (jget row ''created_at''),
      cu_accountType = accountLabel row,
      cu_companyId = (case acting of Some c \<Rightarrow> Some c | None \<Rightarrow> textOrNull (jget row ''company_id'')),
      cu_companyRole = textOrNull (jget row ''company_role'')\<rparr>"

subsection \<open>Tables\<close>

record member_row =
  mb_user :: string
  mb_company :: string
  mb_role :: string

text \<open>The rows of \<open>users\<close> under their ids. \<open>company_members\<close> is \<open>None\<close> while the table does not exist.\<close>

record user_db =
  users :: "(string \<times> jv) list"
  company_members :: "member_row list option"

definition membership :: "string \<Rightarrow> member_row list \<Rightarrow> member_row option" where
  "membership u ms = find (\<lambda>m. mb_user m = u) ms"

definition missing_members :: core_exn where
  "missing_members = DbError ''42P01'' ''relation company_members does not exist''"

text \<open>\<open>USER_BY_ID\<close>: the row with the membership's company and role; \<open>USER_BY_ID_BASE\<close> without.\<close>

definition with_company :: "member_row list \<Rightarrow> string \<times> jv \<Rightarrow> jv" where
  "with_company ms row = JObj (Prelude.fields (snd row) @ (case membership (fst row) ms of
       None \<Rightarrow> [(''company_id'', JNull), (''company_role'', JNull)]
     | Some m \<Rightarrow> [(''company_id'', JStr (mb_company m)), (''company_role'', JStr (mb_role m))]))"

definition user_by_id :: "string \<Rightarrow> ('z user_db_scheme, jv option) core_prog" where
  "user_by_id u db = (case company_members db of
       None \<Rightarrow> (Inl missing_members, db)
     | Some ms \<Rightarrow> (Inr (map_option (\<lambda>row. with_company ms (u, row)) (map_of (users db) u)), db))"

definition user_by_id_base :: "string \<Rightarrow> ('z user_db_scheme, jv option) core_prog" where
  "user_by_id_base u = reading (\<lambda>db. map_of (users db) u)"

text \<open>\<open>userBy\<close>: the fallback statement when a table or column is not migrated yet.\<close>

definition userBy :: "('s, 'a) core_prog \<Rightarrow> ('s, 'a) core_prog \<Rightarrow> ('s, 'a) core_prog" where
  "userBy sql fallback = catching sql (\<lambda>x. if \<not> isMissingRelation x \<and> \<not> isUndefinedColumn x then throw x else fallback)"

lemma missing_members_relation [simp]: "isMissingRelation missing_members"
  by (simp add: isMissingRelation_def missing_members_def exn_code_def)

lemma user_by_id_reads:
  "userBy (user_by_id u) (user_by_id_base u) db =
     (Inr (case company_members db of None \<Rightarrow> map_of (users db) u
        | Some ms \<Rightarrow> map_option (\<lambda>row. with_company ms (u, row)) (map_of (users db) u)), db)"
  by (simp add: userBy_def catching_def user_by_id_def user_by_id_base_def reading_def split: option.split)

end
