(* ===== verification/Internal_Auth.thy ===== *)
theory Internal_Auth
  imports Core_Routes Core_User
begin

text \<open>
  \<open>services/core-api/src/internal-auth.ts\<close>: a call of the AI worker that acts for a user. It carries
  a shared secret and names the user, and perhaps a company; only the listed routes accept it.
\<close>

definition GP :: "string list" where "GP = [''GET'', ''POST'']"

definition ACT_AS_ROUTES :: "(seg list \<times> string list) list" where
  "ACT_AS_ROUTES = [
     ([Lit ''postings''], GP),
     ([Lit ''postings'', Any], [''GET'', ''PATCH'']),
     ([Lit ''postings'', Any, Lit ''bookmark''], [''POST'', ''DELETE'']),
     ([Lit ''postings'', Any, One_Of [''apply'', ''close'']], [''POST'']),
     ([Lit ''postings'', Any, One_Of [''applicants'', ''applicant-counts'']], [''GET'']),
     ([Lit ''postings'', Any, Lit ''applicants'', Any], [''GET'', ''PATCH'']),
     ([Lit ''me'', One_Of [''bookmarks'', ''offers'']], [''GET'']),
     ([Lit ''me'', Lit ''offers'', Any], [''GET'']),
     ([Lit ''me'', Lit ''offers'', Any, One_Of [''accept'', ''decline'', ''messages'']], [''POST'']),
     ([Lit ''me'', Lit ''profile''], [''GET'', ''PATCH'']),
     ([Lit ''calendar'', Lit ''events''], GP),
     ([Lit ''calendar'', Lit ''events'', Any], [''PATCH'', ''DELETE'']),
     ([Lit ''posts''], GP),
     ([Lit ''posts'', Any, Lit ''comments''], [''POST'']),
     ([Lit ''users'', Any, Lit ''follow''], [''POST'']),
     ([Lit ''companies'', Lit ''me''], [''GET'']),
     ([Lit ''companies'', Lit ''me'', Lit ''postings''], [''GET'']),
     ([Lit ''profiles''], [''GET'']),
     ([Lit ''profiles'', Any], [''GET'']),
     ([Lit ''profiles'', Any, Lit ''offer''], [''POST'']),
     ([Lit ''documents'', Any, Lit ''edits''], [''POST''])]"

definition actAsAllowed :: "string \<Rightarrow> string \<Rightarrow> bool" where
  "actAsAllowed m path \<longleftrightarrow> list_ex (\<lambda>(pat, methods). m \<in> set methods \<and> rx pat path) ACT_AS_ROUTES"

text \<open>The comparison of the bytes; its time does not depend on them.\<close>

definition secretMatches :: "string \<Rightarrow> string \<Rightarrow> bool" where
  "secretMatches presented expected \<longleftrightarrow>
     (if length presented \<noteq> length expected then False else list_all2 (=) presented expected)"

record act_as =
  aa_userId :: string
  aa_companyId :: "string option"

definition unauthorized :: core_exn where
  "unauthorized = HttpError 401 ''UNAUTHORIZED'' ''unauthorized'' JNull"

definition has_header :: "request \<Rightarrow> string \<Rightarrow> bool" where
  "has_header rq name \<longleftrightarrow> jm_get (rq_headers rq) name \<noteq> None"

definition is_member :: "string \<Rightarrow> string \<Rightarrow> ('z user_db_scheme, bool) core_prog" where
  "is_member u c db = (case company_members db of
       None \<Rightarrow> (Inl missing_members, db)
     | Some ms \<Rightarrow> (Inr (\<exists>m \<in> set ms. mb_user m = u \<and> mb_company m = c), db))"

definition actAs :: "string option \<Rightarrow> request \<Rightarrow> ('z user_db_scheme, act_as option) core_prog" where
  "actAs secret rq =
     (if \<not> has_header rq ''x-push-internal-secret'' \<and> \<not> has_header rq ''x-push-act-as'' \<and> \<not> has_header rq ''x-push-company''
      then ret None
      else
        (let expected = js_trim (or_empty secret); presented = header rq ''x-push-internal-secret'' in
         guard (expected \<noteq> [] \<and> secretMatches presented expected) unauthorized
         (if \<not> has_header rq ''x-push-act-as'' then ret None
          else guard (actAsAllowed (rq_method rq) (rq_path rq)) (HttpError 403 ''FORBIDDEN'' ''not available to the ai worker'' JNull)
          (and_then (from_option unauthorized (parseUuid (header rq ''x-push-act-as''))) (\<lambda>userId.
             (let companyRaw = header rq ''x-push-company''; companyId = (if companyRaw = [] then None else parseUuid companyRaw) in
              guard (companyRaw = [] \<or> companyId \<noteq> None) unauthorized
              (case companyId of
                 None \<Rightarrow> ret (Some \<lparr>aa_userId = userId, aa_companyId = None\<rparr>)
               | Some c \<Rightarrow> and_then (is_member userId c) (\<lambda>member.
                   guard member (HttpError 403 ''FORBIDDEN'' ''not a member of this company'' JNull)
                   (ret (Some \<lparr>aa_userId = userId, aa_companyId = Some c\<rparr>))))))))))"

text \<open>\<open>ACT_AS_USER\<close> is the statement \<open>USER_BY_ID\<close>, without a fallback.\<close>

definition userForActAs :: "act_as \<Rightarrow> ('z user_db_scheme, user_row) core_prog" where
  "userForActAs acted = and_then (user_by_id (aa_userId acted)) (\<lambda>row.
     and_then (from_option unauthorized row) (\<lambda>r. ret (userFrom r (aa_companyId acted))))"

subsection \<open>Who may act\<close>

lemma secretMatches_eq [simp]: "secretMatches a b \<longleftrightarrow> a = b"
  by (auto simp: secretMatches_def list_all2_eq [symmetric])

lemma is_member_Inr: "is_member u c db = (Inr b, db') \<longleftrightarrow>
    (\<exists>ms. company_members db = Some ms \<and> b = (\<exists>m \<in> set ms. mb_user m = u \<and> mb_company m = c) \<and> db' = db)"
  by (auto simp: is_member_def split: option.splits)

text \<open>C40: Acting for a user. A call is taken to act for a user only with the configured secret, on a listed
  route, with well-formed ids, and for a company only when the user is its member; the user it then
  runs as is that one, with that company. Without any of the three headers nothing is asked of the
  database. Nothing is ever written.\<close>

theorem act_as_authorised:
  "snd (actAs secret rq db) = db
   \<and> (\<forall>a. fst (actAs secret rq db) = Inr (Some a) \<longrightarrow>
        js_trim (or_empty secret) \<noteq> [] \<and> header rq ''x-push-internal-secret'' = js_trim (or_empty secret)
        \<and> actAsAllowed (rq_method rq) (rq_path rq)
        \<and> parseUuid (header rq ''x-push-act-as'') = Some (aa_userId a)
        \<and> (\<forall>c. aa_companyId a = Some c \<longrightarrow> parseUuid (header rq ''x-push-company'') = Some c
             \<and> (\<exists>ms. company_members db = Some ms \<and> (\<exists>m \<in> set ms. mb_user m = aa_userId a \<and> mb_company m = c)))
        \<and> (aa_companyId a = None \<longrightarrow> header rq ''x-push-company'' = [])
        \<and> (\<forall>u. fst (userForActAs a db) = Inr u \<longrightarrow>
             map_of (users db) (aa_userId a) \<noteq> None \<and> (aa_companyId a \<noteq> None \<longrightarrow> cu_companyId u = aa_companyId a)))"
proof (intro conjI allI impI)
  show "snd (actAs secret rq db) = db"
    by (auto simp: actAs_def Let_def guard_def and_then_def from_option_def is_member_def split: option.split sum.split)
next
  fix a assume "fst (actAs secret rq db) = Inr (Some a)"
  then obtain s' where "actAs secret rq db = (Inr (Some a), s')" by (metis prod.collapse)
  then have r: "js_trim (or_empty secret) \<noteq> []" "header rq ''x-push-internal-secret'' = js_trim (or_empty secret)"
      "actAsAllowed (rq_method rq) (rq_path rq)" "parseUuid (header rq ''x-push-act-as'') = Some (aa_userId a)"
      "aa_companyId a = None \<Longrightarrow> header rq ''x-push-company'' = []"
    and c: "\<And>c. aa_companyId a = Some c \<Longrightarrow> parseUuid (header rq ''x-push-company'') = Some c
      \<and> (\<exists>ms. company_members db = Some ms \<and> (\<exists>m \<in> set ms. mb_user m = aa_userId a \<and> mb_company m = c))"
    by (cases "parseUuid (header rq ''x-push-company'')";
        auto simp: actAs_def Let_def prog_results is_member_Inr split: if_splits)+
  show "js_trim (or_empty secret) \<noteq> []" "header rq ''x-push-internal-secret'' = js_trim (or_empty secret)"
      "actAsAllowed (rq_method rq) (rq_path rq)" "parseUuid (header rq ''x-push-act-as'') = Some (aa_userId a)"
    by fact+
  show "header rq ''x-push-company'' = []" if "aa_companyId a = None" using r(5) [OF that] .
  fix k assume k: "aa_companyId a = Some k"
  show "parseUuid (header rq ''x-push-company'') = Some k" using c [OF k] by blast
  show "\<exists>ms. company_members db = Some ms \<and> (\<exists>m \<in> set ms. mb_user m = aa_userId a \<and> mb_company m = k)"
    using c [OF k] by blast
next
  fix a u assume "fst (userForActAs a db) = Inr u"
  then obtain s' where "userForActAs a db = (Inr u, s')" by (metis prod.collapse)
  then have m: "map_of (users db) (aa_userId a) \<noteq> None" and "aa_companyId a \<noteq> None \<longrightarrow> cu_companyId u = aa_companyId a"
    by (auto simp: userForActAs_def prog_results user_by_id_def userFrom_def split: option.splits)
  then show "map_of (users db) (aa_userId a) \<noteq> None"
    and "aa_companyId a \<noteq> None \<Longrightarrow> cu_companyId u = aa_companyId a" by simp_all
qed

definition demo_uuid :: string where
  "demo_uuid = ''0b4c8f7a-1111-4222-8333-44445555aaaa''"

definition demo_act :: request where
  "demo_act = \<lparr>rq_method = ''GET'', rq_path = ''/api/v1/me/profile'', rq_search = [], rq_query = [],
     rq_headers = [(''x-push-internal-secret'', ''k''), (''x-push-act-as'', demo_uuid)], rq_body = []\<rparr>"

definition demo_users :: user_db where
  "demo_users = \<lparr>users = [(demo_uuid, JObj [(''id'', JStr demo_uuid)])], company_members = Some []\<rparr>"

lemma parseUuid_demo [simp]: "parseUuid demo_uuid = Some demo_uuid"
  by (simp add: parseUuid_def demo_uuid_def uuid_shape_def hex_of_def js_defs)

theorem act_as_authorised_witness:
  "fst (actAs (Some ''k'') demo_act demo_users) = Inr (Some \<lparr>aa_userId = demo_uuid, aa_companyId = None\<rparr>)
   \<and> actAsAllowed ''GET'' ''/api/v1/me/profile'' \<and> map_of (users demo_users) demo_uuid \<noteq> None"
proof -
  have h: "header demo_act ''x-push-internal-secret'' = ''k''" "header demo_act ''x-push-act-as'' = demo_uuid"
    "header demo_act ''x-push-company'' = []" "has_header demo_act ''x-push-act-as''"
    by (simp_all add: demo_act_def header_def has_header_def jm_get_def or_empty_def)
  have k: "js_trim (or_empty (Some ''k'')) = ''k''" by (simp add: js_defs)
  have ok: "actAsAllowed (rq_method demo_act) (rq_path demo_act)"
    by (simp add: demo_act_def actAsAllowed_def ACT_AS_ROUTES_def rx_def segments_def)
  have f: "fst (actAs (Some ''k'') demo_act demo_users) = Inr (Some \<lparr>aa_userId = demo_uuid, aa_companyId = None\<rparr>)"
    by (simp add: actAs_def h k ok guard_def and_then_def from_option_def Let_def)
  have "fst (userForActAs \<lparr>aa_userId = demo_uuid, aa_companyId = None\<rparr> demo_users) =
      Inr (userFrom (with_company [] (demo_uuid, JObj [(''id'', JStr demo_uuid)])) None)"
    by (simp add: userForActAs_def and_then_def user_by_id_def demo_users_def from_option_def)
  with act_as_authorised [of "Some ''k''" demo_act demo_users] f show ?thesis
    by (auto simp: demo_act_def)
qed

end
