(* ===== verification/Routes_Agree.thy ===== *)
theory Routes_Agree
  imports Internal_Auth
begin

text \<open>
  The routes of the two workers against each other: what the core worker answers, the gateway
  forwards to it; and what is public is exactly a short list of handlers. Paths are compared by their
  segments.
\<close>

subsection \<open>Paths and prefixes as segments\<close>

fun starts_segs :: "string list \<Rightarrow> string list \<Rightarrow> bool" where
  "starts_segs (s # ss) [p] = startsWith s p"
| "starts_segs (s # ss) (p # q # ps) = (s = p \<and> starts_segs ss (q # ps))"
| "starts_segs _ _ = False"

lemma starts_segs_Cons2: "qs \<noteq> [] \<Longrightarrow> starts_segs (s # ss) (p # qs) \<longleftrightarrow> s = p \<and> starts_segs ss qs"
  by (cases qs) auto

lemma startsWith_segments: "startsWith path p \<longleftrightarrow> starts_segs (segments path) (segments p)"
  unfolding segments_def
proof (induction p arbitrary: path)
  case Nil
  then show ?case by (cases "split_on CHR ''/'' path") auto
next
  case (Cons c p)
  obtain q qs where q: "split_on CHR ''/'' p = q # qs" by (cases "split_on CHR ''/'' p") auto
  show ?case
  proof (cases path)
    case Nil
    then show ?thesis using q by (cases qs) auto
  next
    case (Cons d path')
    obtain s ss where s: "split_on CHR ''/'' path' = s # ss" by (cases "split_on CHR ''/'' path'") auto
    show ?thesis
      using Cons.IH [of path'] Cons q s by (cases qs) (auto simp: starts_segs_Cons2)
  qed
qed

lemma path_is: "path = CHR ''/'' # r \<longleftrightarrow> segments path = [] # segments r"
proof -
  have "inj segments" by (rule inj_on_inverseI [of _ "join [CHR ''/'']"]) (simp add: segments_def join_split_on)
  then have "path = CHR ''/'' # r \<longleftrightarrow> segments path = segments (CHR ''/'' # r)" by (simp only: inj_eq)
  then show ?thesis by simp
qed

text \<open>The gateway's rules over the segments of a path.\<close>

lemmas python_segs = python_rules_def [unfolded rx_def path_is startsWith_segments Let_def, simplified]

lemmas recruiting_segs = isRecruiting_def [unfolded rx_def path_is startsWith_segments Let_def, simplified]

lemmas core_segs = core_rules_def [unfolded rx_def path_is startsWith_segments Let_def, simplified]

lemma owned_by_core:
  "\<not> ambiguous path \<Longrightarrow> hd (segments path) = [] \<Longrightarrow> segments path ! 1 \<noteq> ''internal'' \<Longrightarrow>
     \<not> decide (python_rules m path) \<Longrightarrow> decide (core_rules m path) \<Longrightarrow> ownerOf m path = Core"
  by (auto simp: ownerOf_def isPython_def isCore_def path_is startsWith_segments
      elim!: starts_segs.elims(2))

lemmas pattern_segs = segs_match_Cons segs_match_Nil seg_match.simps

lemmas owner_segs = python_segs core_segs recruiting_segs

subsection \<open>What the core worker answers is forwarded to it\<close>

text \<open>Paths the tables stop at, and names after \<open>documents/shared\<close> that the gateway reads as something else.\<close>

definition stopped :: "string list list" where
  "stopped = map (\<lambda>p. [[], ''api'', ''v1''] @ p)
     [[''applications'', ''import''], [''career-evidence'', ''import''], [''projects'', ''blueprints'']]"

definition not_tokens :: "string list" where
  "not_tokens = [''base-profile'', ''profile'', ''versions'', ''exports'', ''edits'', ''generate'']"

definition special :: "string list \<Rightarrow> bool" where
  "special sg \<longleftrightarrow> sg \<in> set stopped \<or> (\<exists>t \<in> set not_tokens. sg = [[], ''api'', ''v1'', ''documents'', ''shared'', t])"

lemmas special_segs = special_def stopped_def not_tokens_def

definition calls :: "action \<Rightarrow> bool" where
  "calls a \<longleftrightarrow> (case a of Handler h _ \<Rightarrow> h \<noteq> ''me'' | Decoding h _ \<Rightarrow> h \<noteq> None | Checked h _ \<Rightarrow> h \<noteq> None | _ \<Rightarrow> False)"

definition forwarded :: "string \<Rightarrow> string \<Rightarrow> rule \<Rightarrow> bool" where
  "forwarded m path r \<longleftrightarrow> (case r of (mm, pat, a) \<Rightarrow>
     applies mm pat m (segments path) \<longrightarrow> calls a \<longrightarrow> \<not> ambiguous path \<longrightarrow> \<not> special (segments path) \<longrightarrow> ownerOf m path = Core)"

lemma forwardedI:
  "(segs_match (Lit [] # Lit ''api'' # Lit ''v1'' # pat) (segments path) \<Longrightarrow> \<not> ambiguous path \<Longrightarrow> \<not> special (segments path) \<Longrightarrow> ownerOf n path = Core)
     \<Longrightarrow> forwarded m path (Some n, pat, a)"
  "forwarded m path (mm, pat, Throws x)" "forwarded m path (mm, pat, Stop)"
  "forwarded m path (mm, pat, Decoding None x)" "forwarded m path (mm, pat, Checked None x)"
  "forwarded m path (mm, pat, Handler ''me'' xs)"
  by (auto simp: forwarded_def applies_def calls_def)

lemma forwarded_one: "list_all (forwarded m path) (auth_rules @ dispatchEmailAuth @ dispatchPhoneAuth @ dispatchAppleAuth @ conversation_rules @ billing_rules)"
  unfolding auth_rules_def dispatchEmailAuth_def dispatchPhoneAuth_def dispatchAppleAuth_def conversation_rules_def billing_rules_def on_def append.simps list.pred_inject
  by (intro conjI list.pred_inject(1); (rule forwardedI(2-))?; rule forwardedI(1); simp only: pattern_segs;
      elim exE conjE; rule owned_by_core; simp add: owner_segs special_segs)

lemma forwarded_two: "list_all (forwarded m path) (job_rules @ dispatchPostings @ dispatchSearch @ dispatchProfiles)"
  unfolding job_rules_def dispatchPostings_def dispatchSearch_def dispatchProfiles_def on_def append.simps list.pred_inject
  by (intro conjI list.pred_inject(1); (rule forwardedI(2-))?; rule forwardedI(1); simp only: pattern_segs;
      elim exE conjE; rule owned_by_core; simp add: owner_segs special_segs)

lemma forwarded_three: "list_all (forwarded m path) (dispatchOffers @ dispatchBlocks @ dispatchPosts @ dispatchMe)"
  unfolding dispatchOffers_def dispatchBlocks_def dispatchPosts_def dispatchMe_def on_def append.simps list.pred_inject
  by (intro conjI list.pred_inject(1); (rule forwardedI(2-))?; rule forwardedI(1); simp only: pattern_segs;
      elim exE conjE; rule owned_by_core; simp add: owner_segs special_segs)

lemma forwarded_four: "list_all (forwarded m path) (dispatchCompanies @ calendar_rules @ dispatchConsents @ dispatchApplications @ dispatchSources)"
  unfolding dispatchCompanies_def calendar_rules_def dispatchConsents_def dispatchApplications_def dispatchSources_def on_def append.simps list.pred_inject
  by (intro conjI list.pred_inject(1); (rule forwardedI(2-))?; rule forwardedI(1); simp only: pattern_segs;
      elim exE conjE; rule owned_by_core; simp add: owner_segs special_segs)

lemma forwarded_five: "list_all (forwarded m path) (dispatchEvidence @ dispatchExperiments @ dispatchInterviews @ dispatchProjects @ dispatchIntegrations @ notification_rules)"
  unfolding dispatchEvidence_def dispatchExperiments_def dispatchInterviews_def dispatchProjects_def dispatchIntegrations_def notification_rules_def on_def append.simps list.pred_inject
  by (intro conjI list.pred_inject(1); (rule forwardedI(2-))?; rule forwardedI(1); simp only: pattern_segs;
      elim exE conjE; rule owned_by_core; simp add: owner_segs special_segs)

lemma forwarded_six: "list_all (forwarded m path) (dispatchDocuments)"
  unfolding dispatchDocuments_def on_def append.simps list.pred_inject
  by (intro conjI list.pred_inject(1); (rule forwardedI(2-))?; rule forwardedI(1); simp only: pattern_segs;
      elim exE conjE; rule owned_by_core; simp add: owner_segs special_segs)

lemma run_rules_call:
  "run_rules uri rules m sg = Some (Call h args) \<Longrightarrow>
     \<exists>mm pat a. (mm, pat, a) \<in> set rules \<and> applies mm pat m sg \<and> (calls a \<or> h = ''me'')"
proof (induction rules)
  case (Cons r rules)
  obtain mm pat a where r: "r = (mm, pat, a)" by (cases r)
  show ?case
  proof (cases "applies mm pat m sg")
    case True
    with Cons.prems r have "perform uri a (captures pat (drop 3 sg)) = Some (Call h args)" by simp
    then have "calls a \<or> h = ''me''"
      by (cases a) (auto simp: calls_def call_def split: option.splits if_splits)
    with True r show ?thesis by auto
  next
    case False
    with Cons r show ?thesis by auto
  qed
qed simp

lemma try_all_call: "try_all uri ts m sg = Some (Call h args) \<Longrightarrow> \<exists>t \<in> set ts. run_rules uri t m sg = Some (Call h args)"
  by (induction ts) (auto simp: or_next_def split: option.splits)

definition tables :: "rule list list" where
  "tables = rules_before_images @ rules_after_images"

definition all_rules :: "rule list" where
  "all_rules = concat tables"

lemma forwarded_all: "r \<in> set all_rules \<Longrightarrow> forwarded m path r"
  using forwarded_one [of m path] forwarded_two [of m path] forwarded_three [of m path] forwarded_four [of m path]
    forwarded_five [of m path] forwarded_six [of m path]
  unfolding all_rules_def tables_def rules_before_images_def rules_after_images_def list_all_iff by auto

lemma dispatch_table:
  assumes "dispatch uri m path = Some (Call h args)"
  shows "(\<exists>t \<in> set tables. run_rules uri t m (segments path) = Some (Call h args))
    \<or> dispatchImages m path = Some (Call h args)"
proof -
  let ?sg = "segments path"
  from assms have "try_all uri rules_before_images m ?sg = Some (Call h args) \<or> dispatchImages m path = Some (Call h args)
      \<or> try_all uri rules_after_images m ?sg = Some (Call h args)"
    by (auto simp: dispatch_def Let_def or_next_def split: option.splits)
  then show ?thesis using try_all_call [of uri _ m ?sg h args] by (fastforce simp: tables_def)
qed

lemmas table_list_defs = auth_rules_def dispatchEmailAuth_def dispatchPhoneAuth_def
  dispatchAppleAuth_def conversation_rules_def billing_rules_def job_rules_def dispatchPostings_def dispatchSearch_def
  dispatchProfiles_def dispatchOffers_def dispatchBlocks_def dispatchPosts_def dispatchMe_def dispatchCompanies_def
  calendar_rules_def dispatchConsents_def dispatchApplications_def dispatchSources_def dispatchEvidence_def
  dispatchExperiments_def dispatchInterviews_def dispatchProjects_def dispatchIntegrations_def dispatchDocuments_def

lemmas table_defs = rules_before_images_def rules_after_images_def table_list_defs

lemma no_images: "segments path ! 3 \<noteq> ''uploads'' \<Longrightarrow> dispatchImages m path = None"
  by (auto simp: dispatchImages_def isImageRead_def image_prefix_def startsWith_segments path_is elim!: starts_segs.elims(2))

text \<open>Only the tables with a rule about the resource of a path matter.\<close>

definition about :: "string \<Rightarrow> rule \<Rightarrow> bool" where
  "about l r \<longleftrightarrow> (case r of (mm, pat, a) \<Rightarrow> (case pat of Lit x # _ \<Rightarrow> x = l | _ \<Rightarrow> True))"

lemma run_rules_about: "run_rules uri rules m (x # y # z # l # sg) \<noteq> None \<Longrightarrow> list_ex (about l) rules"
proof (induction rules)
  case (Cons r rules)
  obtain mm pat a where r: "r = (mm, pat, a)" by (cases r)
  show ?case
  proof (cases "applies mm pat m (x # y # z # l # sg)")
    case True
    then have "about l r" by (auto simp: r about_def applies_def split: list.splits seg.splits)
    then show ?thesis by simp
  next
    case False
    with Cons r show ?thesis by auto
  qed
qed simp

definition resource_tables :: "(string \<times> rule list list) list" where
  "resource_tables = [
     (''auth'', [auth_rules, dispatchEmailAuth, dispatchPhoneAuth, dispatchAppleAuth]),
     (''me'', [auth_rules, dispatchProfiles, dispatchOffers, dispatchBlocks, dispatchPosts, dispatchMe, dispatchConsents]),
     (''postings'', [job_rules, dispatchPostings]),
     (''companies'', [dispatchPostings, dispatchCompanies]),
     (''documents'', [job_rules, dispatchDocuments]),
     (''billing'', [billing_rules]),
     (''skills'', [dispatchPostings]),
     (''search'', [dispatchSearch]),
     (''integrations'', [dispatchIntegrations]),
     (''applications'', [dispatchApplications]),
     (''career-evidence'', [dispatchEvidence]),
     (''projects'', [dispatchProjects]),
     (''calendar'', [calendar_rules]),
     (''posts'', [dispatchPosts]),
     (''users'', [dispatchProfiles]),
     (''profiles'', [dispatchProfiles]),
     (''conversations'', [conversation_rules]),
     (''ai'', [job_rules]),
     (''jobs'', [job_rules]),
     (''sources'', [dispatchSources]),
     (''experiments'', [dispatchExperiments]),
     (''interviews'', [dispatchInterviews])]"

definition tables_about :: "string \<Rightarrow> rule list list" where
  "tables_about l = (case map_of resource_tables l of None \<Rightarrow> [] | Some ts \<Rightarrow> ts)"

lemma tables_about_eval [simp]:
  "tables_about ''auth'' = [auth_rules, dispatchEmailAuth, dispatchPhoneAuth, dispatchAppleAuth]"
  "tables_about ''me'' = [auth_rules, dispatchProfiles, dispatchOffers, dispatchBlocks, dispatchPosts, dispatchMe, dispatchConsents]"
  "tables_about ''postings'' = [job_rules, dispatchPostings]"
  "tables_about ''companies'' = [dispatchPostings, dispatchCompanies]"
  "tables_about ''documents'' = [job_rules, dispatchDocuments]"
  "tables_about ''billing'' = [billing_rules]"
  "tables_about ''skills'' = [dispatchPostings]"
  "tables_about ''search'' = [dispatchSearch]"
  "tables_about ''integrations'' = [dispatchIntegrations]"
  "tables_about ''applications'' = [dispatchApplications]"
  "tables_about ''career-evidence'' = [dispatchEvidence]"
  "tables_about ''projects'' = [dispatchProjects]"
  "tables_about ''calendar'' = [calendar_rules]"
  "tables_about ''posts'' = [dispatchPosts]"
  "tables_about ''users'' = [dispatchProfiles]"
  "tables_about ''profiles'' = [dispatchProfiles]"
  "tables_about ''conversations'' = [conversation_rules]"
  "tables_about ''ai'' = [job_rules]"
  "tables_about ''jobs'' = [job_rules]"
  "tables_about ''sources'' = [dispatchSources]"
  "tables_about ''experiments'' = [dispatchExperiments]"
  "tables_about ''interviews'' = [dispatchInterviews]"
  "tables_about ''uploads'' = []"
  by (simp_all add: tables_about_def resource_tables_def)

lemma about_1:
  "list_ex (about l) auth_rules \<Longrightarrow> l = ''auth'' \<or> l = ''me''"
  "list_ex (about l) dispatchEmailAuth \<Longrightarrow> l = ''auth''"
  "list_ex (about l) dispatchPhoneAuth \<Longrightarrow> l = ''auth''"
  "list_ex (about l) dispatchAppleAuth \<Longrightarrow> l = ''auth''"
  "list_ex (about l) conversation_rules \<Longrightarrow> l = ''conversations''"
  "list_ex (about l) billing_rules \<Longrightarrow> l = ''billing''"
  "list_ex (about l) job_rules \<Longrightarrow> l = ''ai'' \<or> l = ''documents'' \<or> l = ''postings'' \<or> l = ''jobs''"
  "list_ex (about l) dispatchPostings \<Longrightarrow> l = ''postings'' \<or> l = ''skills'' \<or> l = ''companies''"
  "list_ex (about l) dispatchSearch \<Longrightarrow> l = ''search''"
  by (auto simp: auth_rules_def dispatchEmailAuth_def dispatchPhoneAuth_def dispatchAppleAuth_def conversation_rules_def
    billing_rules_def job_rules_def dispatchPostings_def dispatchSearch_def on_def about_def)

lemma about_2:
  "list_ex (about l) dispatchProfiles \<Longrightarrow> l = ''profiles'' \<or> l = ''users'' \<or> l = ''me''"
  "list_ex (about l) dispatchOffers \<Longrightarrow> l = ''me''"
  "list_ex (about l) dispatchBlocks \<Longrightarrow> l = ''me''"
  "list_ex (about l) dispatchPosts \<Longrightarrow> l = ''me'' \<or> l = ''posts''"
  "list_ex (about l) dispatchMe \<Longrightarrow> l = ''me''"
  "list_ex (about l) dispatchCompanies \<Longrightarrow> l = ''companies''"
  "list_ex (about l) calendar_rules \<Longrightarrow> l = ''calendar''"
  "list_ex (about l) dispatchConsents \<Longrightarrow> l = ''me''"
  by (auto simp: dispatchProfiles_def dispatchOffers_def dispatchBlocks_def dispatchPosts_def dispatchMe_def
    dispatchCompanies_def calendar_rules_def dispatchConsents_def on_def about_def)

lemma about_3:
  "list_ex (about l) dispatchApplications \<Longrightarrow> l = ''applications''"
  "list_ex (about l) dispatchSources \<Longrightarrow> l = ''sources''"
  "list_ex (about l) dispatchEvidence \<Longrightarrow> l = ''career-evidence''"
  "list_ex (about l) dispatchExperiments \<Longrightarrow> l = ''experiments''"
  "list_ex (about l) dispatchInterviews \<Longrightarrow> l = ''interviews''"
  "list_ex (about l) dispatchProjects \<Longrightarrow> l = ''projects''"
  "list_ex (about l) dispatchIntegrations \<Longrightarrow> l = ''integrations''"
  "list_ex (about l) dispatchDocuments \<Longrightarrow> l = ''documents''"
  by (auto simp: dispatchApplications_def dispatchSources_def dispatchEvidence_def dispatchExperiments_def
    dispatchInterviews_def dispatchProjects_def dispatchIntegrations_def dispatchDocuments_def on_def about_def)

lemma tables_list: "tables = [auth_rules, dispatchEmailAuth, dispatchPhoneAuth, dispatchAppleAuth, conversation_rules, billing_rules, job_rules, dispatchPostings, dispatchSearch, dispatchProfiles, dispatchOffers, dispatchBlocks, dispatchPosts, dispatchMe, dispatchCompanies, calendar_rules, dispatchConsents, dispatchApplications, dispatchSources, dispatchEvidence, dispatchExperiments, dispatchInterviews, dispatchProjects, dispatchIntegrations, dispatchDocuments]"
  by (simp add: tables_def rules_before_images_def rules_after_images_def)

lemma tables_about_member: "t \<in> set tables \<Longrightarrow> list_ex (about l) t \<Longrightarrow> t \<in> set (tables_about l)"
  unfolding tables_list set_simps insert_iff empty_iff
  by (elim disjE FalseE; hypsubst; drule about_1 about_2 about_3; (elim disjE)?; hypsubst; simp only: tables_about_eval set_simps insert_iff simp_thms)

lemma dispatch_about:
  assumes "dispatch uri m path = Some (Call h args)" and "segments path = x # y # z # l # sg" and "l \<noteq> ''uploads''"
  obtains t where "t \<in> set (tables_about l)" and "run_rules uri t m (x # y # z # l # sg) = Some (Call h args)"
proof -
  from dispatch_table [OF assms(1)] no_images [of path m] assms(2,3) obtain t where
    "t \<in> set tables" "run_rules uri t m (x # y # z # l # sg) = Some (Call h args)" by auto
  with run_rules_about [of uri t m x y z l sg] show thesis by (intro that [OF tables_about_member]) auto
qed

lemmas rule_evals = table_defs on_def applies_def call_def dispatchImages_def isImageRead_def image_prefix_def startsWith_segments path_is

lemma stopped_call:
  assumes "dispatch uri m path = Some (Call h args)" and "segments path \<in> set stopped"
  shows "m = ''POST'' \<and> segments path = [[], ''api'', ''v1'', ''applications'', ''import'']"
proof -
  from assms(2) consider "segments path = [[], ''api'', ''v1'', ''applications'', ''import'']"
    | "segments path = [[], ''api'', ''v1'', ''career-evidence'', ''import'']"
    | "segments path = [[], ''api'', ''v1'', ''projects'', ''blueprints'']" by (auto simp: stopped_def)
  then show ?thesis
    by cases (rule dispatch_about [OF assms(1)], assumption, simp, simp add: rule_evals split: if_splits)+
qed

lemma image_owner:
  assumes "dispatchImages m path = Some (Call h args)" and "\<not> ambiguous path"
  shows "h = ''uploadImage'' \<and> ownerOf m path = Core \<or> h = ''getImage''"
proof (cases "path = ''/api/v1/uploads/images''")
  case True
  then have sg: "segments path = [[], ''api'', ''v1'', ''uploads'', ''images'']" by simp
  from True assms(1) have "m = ''POST''" "h = ''uploadImage''" by (simp_all add: dispatchImages_def split: if_splits)
  with sg assms(2) show ?thesis by (auto intro!: owned_by_core simp: owner_segs)
next
  case False
  with assms(1) show ?thesis by (auto simp: dispatchImages_def split: if_splits)
qed

text \<open>C33: The two routings agree. Whatever the core worker would answer for an unambiguous path, the gateway
  forwards to the core worker, with these exceptions: the profile the gateway answers itself
  (\<open>auth/me\<close>), image paths (the core worker reads any depth, the gateway one segment) and documents
  shared under a token that is one of its own words.\<close>

theorem core_routes_forwarded:
  assumes "dispatch uri m path = Some (Call h args)" and "\<not> ambiguous path"
  shows "ownerOf m path = Core \<or> h = ''me'' \<or> h = ''getImage''
    \<or> (\<exists>t \<in> set not_tokens. segments path = [[], ''api'', ''v1'', ''documents'', ''shared'', t])"
proof (cases "special (segments path)")
  case True
  then consider "segments path \<in> set stopped" | "\<exists>t \<in> set not_tokens. segments path = [[], ''api'', ''v1'', ''documents'', ''shared'', t]"
    by (auto simp: special_def)
  then show ?thesis
  proof cases
    case 1
    from stopped_call [OF assms(1) this] assms(2) show ?thesis by (auto intro!: owned_by_core simp: owner_segs)
  qed blast
next
  case False
  from dispatch_table [OF assms(1)] show ?thesis
  proof
    assume "\<exists>t \<in> set tables. run_rules uri t m (segments path) = Some (Call h args)"
    then obtain t where t: "t \<in> set tables" "run_rules uri t m (segments path) = Some (Call h args)" by blast
    from run_rules_call [OF t(2)] obtain mm pat a where r: "(mm, pat, a) \<in> set t" "applies mm pat m (segments path)"
      and a: "calls a \<or> h = ''me''" by blast
    from r(1) t(1) have "(mm, pat, a) \<in> set all_rules" by (auto simp: all_rules_def)
    from forwarded_all [OF this, of m path] r(2) a False assms(2) show ?thesis by (auto simp: forwarded_def)
  next
    assume "dispatchImages m path = Some (Call h args)"
    from image_owner [OF this assms(2)] show ?thesis by blast
  qed
qed

lemma dispatch_logout: "dispatch uri ''POST'' ''/api/v1/auth/logout'' = Some (Call ''logout'' [])"
proof -
  have "run_rules uri auth_rules ''POST'' (segments ''/api/v1/auth/logout'') = Some (Call ''logout'' [])"
    by (simp add: auth_rules_def on_def applies_def)
  then show ?thesis
    by (simp only: dispatch_def Let_def rules_before_images_def try_all.simps or_next_simps)
qed

theorem core_routes_forwarded_witness: "ownerOf ''POST'' ''/api/v1/auth/logout'' = Core"
proof -
  have "\<not> ambiguous ''/api/v1/auth/logout''" by (simp add: ambiguous_def js_defs)
  from core_routes_forwarded [OF dispatch_logout this] show ?thesis by (simp add: not_tokens_def)
qed

subsection \<open>What needs no credentials\<close>

definition public_handlers :: "string list" where
  "public_handlers = [''oauthStart'', ''oauthCallback'', ''exchange'', ''refresh'', ''logout'', ''signup'', ''verify'', ''login'',
     ''requestReset'', ''confirmReset'', ''sendPhone'', ''verifyPhone'', ''appleCallback'', ''appleNative'', ''webhook'',
     ''appleWebhook'', ''googleWebhook'', ''previewInvite'', ''getImage'', ''googleCallback'', ''readShare'']"

definition guest_handlers :: "string list" where
  "guest_handlers = [''listPostings'', ''listPostingLocations'', ''listPostingFacets'', ''listSkills'', ''search'',
     ''searchCounts'', ''searchTrending'', ''getPosting'', ''postingApplicantCounts'']"

definition open_call :: "string \<Rightarrow> string list \<Rightarrow> bool" where
  "open_call h args \<longleftrightarrow> h \<in> set public_handlers \<or> (h = ''listVersions'' \<and> args = [''shared''])"

lemmas open_evals = rule_evals open_call_def public_handlers_def

lemmas public_segs = PUBLIC_def [THEN arg_cong [of _ _ "map segments"], simplified]

lemmas email_segs = EMAIL_PUBLIC_def [THEN arg_cong [of _ _ "map segments"], simplified]

lemmas phone_segs = PHONE_PUBLIC_def [THEN arg_cong [of _ _ "map segments"], simplified]

lemmas google_segs = isGoogleCallback_def [unfolded path_is, simplified]

lemma open_at:
  assumes "dispatch uri m path = Some (Call h args)" and "segments path = x # y # z # l # sg" and "l \<noteq> ''uploads''"
    and "\<And>t. t \<in> set (tables_about l) \<Longrightarrow> run_rules uri t m (x # y # z # l # sg) = Some (Call h args) \<Longrightarrow> open_call h args"
  shows "open_call h args"
  using dispatch_about [OF assms(1-3)] assms(4) by blast

lemma open_fixed:
  assumes "dispatch uri m path = Some (Call h args)"
  shows "segments path \<in> set (map segments PUBLIC) \<Longrightarrow> open_call h args"
    and "segments path \<in> set (map segments EMAIL_PUBLIC) \<Longrightarrow> open_call h args"
    and "segments path \<in> set (map segments PHONE_PUBLIC) \<Longrightarrow> open_call h args"
    and "segments path = [[], ''api'', ''v1'', ''auth'', ''apple'', x] \<Longrightarrow> x = ''callback'' \<or> x = ''native'' \<Longrightarrow> open_call h args"
    and "isGoogleCallback m path \<Longrightarrow> open_call h args"
  unfolding public_segs email_segs phone_segs google_segs set_simps insert_iff empty_iff
  by (elim disjE conjE FalseE; erule open_at [OF assms]; force simp: open_evals split: if_splits)+

lemma open_pattern:
  assumes "dispatch uri m path = Some (Call h args)" and "m = ''GET''"
  shows "rx [Lit ''auth'', Any, One_Of [''start'', ''callback'']] path \<Longrightarrow> open_call h args"
    and "rx [Lit ''companies'', Lit ''invites'', Any] path \<Longrightarrow> open_call h args"
    and "rx [Lit ''documents'', Lit ''shared'', Any] path \<Longrightarrow> open_call h args"
  unfolding rx_def pattern_segs
  by (elim exE conjE, simp only:, erule open_at [OF assms(1)];
      force simp: assms(2) open_evals split: if_splits option.splits)+

lemma segments_lower: "segments (toLowerCase path) = map toLowerCase (segments path)"
proof -
  have slash: "lower_char c = CHR ''/'' \<longleftrightarrow> c = CHR ''/''" for c
    by (auto simp: lower_char_def Let_def char_of_eq_iff take_bit_eq_mod)
  show ?thesis
    unfolding segments_def toLowerCase_def by (induction path) (auto simp: slash split: list.splits)
qed

lemma image_call:
  assumes "isImageRead m path" and "dispatch uri m path = Some (Call h args)"
  shows "h = ''getImage''"
proof -
  from assms(1) have m: "m = ''GET''" and st: "startsWith path image_prefix" by (simp_all add: isImageRead_def)
  then obtain s ss where sg: "segments path = [] # ''api'' # ''v1'' # ''uploads'' # ''images'' # s # ss"
    by (auto simp: startsWith_segments image_prefix_def elim!: starts_segs.elims(2))
  have "\<not> list_ex (about ''uploads'') t" if "t \<in> set tables" for t
    using tables_about_member [OF that, of "''uploads''"] by auto
  with run_rules_about [of uri _ m "[]" "''api''" "''v1''" "''uploads''" "''images'' # s # ss"] dispatch_table [OF assms(2)] sg
  have "dispatchImages m path = Some (Call h args)" by fastforce
  with m show ?thesis by (auto simp: dispatchImages_def split: if_splits)
qed

definition guest_call :: "string \<Rightarrow> bool" where
  "guest_call h \<longleftrightarrow> h \<in> set guest_handlers"

lemma lower_heads: "list_all (\<lambda>(mm, pat, a). case pat of Lit x # _ \<Rightarrow> toLowerCase x = x | _ \<Rightarrow> False) all_rules"
  by (simp add: all_rules_def tables_def table_defs on_def js_defs)

lemma lower_resource:
  assumes "dispatch uri m path = Some (Call h args)" and "map toLowerCase (segments path) = x # y # z # l # sg" and "l \<noteq> ''uploads''"
  obtains sg' where "segments path = [] # ''api'' # ''v1'' # l # sg'" and "map toLowerCase sg' = sg"
proof -
  from assms(2) obtain a b c k sg' where sp: "segments path = a # b # c # k # sg'" and k: "toLowerCase k = l" "map toLowerCase sg' = sg"
    by auto
  have "k \<noteq> ''uploads''" using k(1) assms(3) by (auto simp: js_defs)
  with sp no_images [of path m] dispatch_table [OF assms(1)] obtain t where
    t: "t \<in> set tables" "run_rules uri t m (segments path) = Some (Call h args)" by auto
  from run_rules_call [OF t(2)] obtain mm pat ac where r: "(mm, pat, ac) \<in> set t" "applies mm pat m (segments path)" by blast
  have "(mm, pat, ac) \<in> set all_rules" using r(1) t(1) by (auto simp: all_rules_def)
  with lower_heads obtain w pat' where w: "pat = Lit w # pat'" "toLowerCase w = w"
    unfolding list_all_iff by (fastforce split: list.splits seg.splits)
  with r(2) sp have "k = w" "a = []" "b = ''api''" "c = ''v1''" by (auto simp: applies_def)
  with k w sp show thesis by (intro that [of sg']) auto
qed

lemma guest_calls:
  assumes "dispatch uri m path = Some (Call h args)" and "isGuestRead m path"
  shows "guest_call h"
proof -
  have m: "m = ''GET''" using assms(2) by (simp add: isGuestRead_def)
  have fixed: "guest_call h" if "segments path = x # y # z # l # sg" "l \<noteq> ''uploads''"
      "\<And>t. t \<in> set (tables_about l) \<Longrightarrow> run_rules uri t m (x # y # z # l # sg) = Some (Call h args) \<Longrightarrow> guest_call h" for x y z l sg
    using dispatch_about [OF assms(1) that(1,2)] that(3) by blast
  from assms(2) consider
      l where "segments path = [[], ''api'', ''v1'', l]" "l \<in> {''postings'', ''skills'', ''search''}"
    | l where "segments path = [[], ''api'', ''v1'', ''postings'', l]" "l \<in> {''locations'', ''facets''}"
    | l where "segments path = [[], ''api'', ''v1'', ''search'', l]" "l \<in> {''counts'', ''trending''}"
    | "posting_uuid [] path" | "posting_uuid [Lit ''applicant-counts''] path"
    by (auto simp: isGuestRead_def path_is)
  then show ?thesis
  proof cases
    case 1
    from 1(2) consider "l = ''postings''" | "l = ''skills''" | "l = ''search''" by blast
    then show ?thesis
      by cases (rule fixed [OF 1(1)], simp, force simp: m rule_evals guest_call_def guest_handlers_def split: if_splits)+
  next
    case 2
    from 2(2) consider "l = ''locations''" | "l = ''facets''" by blast
    then show ?thesis
      by cases (rule fixed [OF 2(1)], simp, force simp: m rule_evals guest_call_def guest_handlers_def split: if_splits)+
  next
    case 3
    from 3(2) consider "l = ''counts''" | "l = ''trending''" by blast
    then show ?thesis
      by cases (rule fixed [OF 3(1)], simp, force simp: m rule_evals guest_call_def guest_handlers_def split: if_splits)+
  next
    case 4
    then obtain u where "map toLowerCase (segments path) = [[], ''api'', ''v1'', ''postings'', u]"
      by (auto simp: posting_uuid_def rx_def segments_lower pattern_segs)
    from lower_resource [OF assms(1) this] obtain v where "segments path = [[], ''api'', ''v1'', ''postings'', v]" by auto
    from this show ?thesis
      by (rule fixed, simp) (force simp: m rule_evals guest_call_def guest_handlers_def split: if_splits)
  next
    case 5
    then obtain u where "map toLowerCase (segments path) = [[], ''api'', ''v1'', ''postings'', u, ''applicant-counts'']"
      by (auto simp: posting_uuid_def rx_def segments_lower pattern_segs)
    from lower_resource [OF assms(1) this] obtain sg where
      "segments path = [] # ''api'' # ''v1'' # ''postings'' # sg" "map toLowerCase sg = [u, ''applicant-counts'']" by auto
    then obtain v w where sg: "segments path = [[], ''api'', ''v1'', ''postings'', v, w]" and w: "toLowerCase w = ''applicant-counts''"
      by auto
    have "w \<noteq> ''applicants''" using w by (auto simp: js_defs)
    then have j: "run_rules uri job_rules m (segments path) = None"
      and p: "run_rules uri dispatchPostings m (segments path) = (if v \<noteq> [] \<and> w = ''applicant-counts'' then Some (Call ''postingApplicantCounts'' [v]) else None)"
      by (simp_all add: sg m job_rules_def dispatchPostings_def on_def applies_def)
    show ?thesis
    proof (rule fixed [OF sg])
      show "guest_call h" if "t \<in> set (tables_about ''postings'')" and "run_rules uri t m [[], ''api'', ''v1'', ''postings'', v, w] = Some (Call h args)" for t
        using that j p unfolding sg tables_about_eval set_simps
        by (elim insertE emptyE) (simp_all add: guest_call_def guest_handlers_def split: if_splits)
    qed simp
  qed
qed

text \<open>C36: What needs no credentials. A request that is let through without a bearer token reaches one of
  the listed handlers only: the sign-in and webhook handlers, the shared reads, and, without any
  authorization header, the guest reads. The one surprise is the list of versions of a document with
  the id \<open>shared\<close>, which is not a UUID.\<close>

theorem public_handlers_only:
  assumes "isPublic m path authz" and "dispatch uri m path = Some (Call h args)"
  shows "h \<in> set public_handlers \<or> (authz = [] \<and> h \<in> set guest_handlers) \<or> (h = ''listVersions'' \<and> args = [''shared''])"
proof -
  have to_segments: "path \<in> set ps \<Longrightarrow> segments path \<in> set (map segments ps)" for ps by auto
  note fixed = open_fixed [OF assms(2)]
  have "open_call h args \<or> (authz = [] \<and> guest_call h)"
    using assms(1) unfolding isPublic_def
  proof (elim disjE conjE)
    assume "path \<in> set PUBLIC" then show ?thesis using fixed(1) to_segments by blast
  next
    assume "path \<in> set EMAIL_PUBLIC" then show ?thesis using fixed(2) to_segments by blast
  next
    assume "path \<in> set PHONE_PUBLIC" then show ?thesis using fixed(3) to_segments by blast
  next
    assume "path = ''/api/v1/auth/apple/callback''" then show ?thesis using fixed(4) by (simp add: path_is)
  next
    assume "path = ''/api/v1/auth/apple/native''" then show ?thesis using fixed(4) by (simp add: path_is)
  next
    assume "isImageRead m path"
    then have "h = ''getImage''"
      using assms(2) image_call by blast
    then show ?thesis by (simp add: open_call_def public_handlers_def)
  next
    assume "isGoogleCallback m path" then show ?thesis using fixed(5) by blast
  next
    assume "authz = []" "isGuestRead m path" then show ?thesis using guest_calls [OF assms(2)] by blast
  qed (use open_pattern [OF assms(2)] in blast)+
  then show ?thesis by (auto simp: open_call_def guest_call_def)
qed

theorem public_handlers_only_witness: "''logout'' \<in> set public_handlers"
proof -
  have "''/api/v1/auth/logout'' \<in> set PUBLIC" by (simp add: PUBLIC_def)
  then have "isPublic ''POST'' ''/api/v1/auth/logout'' ''Bearer t''" unfolding isPublic_def by (rule disjI1)
  from public_handlers_only [OF this dispatch_logout] show ?thesis by (elim disjE conjE) simp_all
qed

end
