(* ===== verification/Runs.thy ===== *)
theory Runs
  imports Prelude
begin

text \<open>
  Runs of a system whose steps carry an event, for the components where the statements of many
  requests interleave; and the contract of a statement that claims something for one caller only
  (a compare-and-set, \<open>UPDATE \<dots> WHERE \<dots> IS NULL RETURNING\<close>): in no run does a key have two winners.
\<close>

inductive run :: "('s \<Rightarrow> 'e \<Rightarrow> 's \<Rightarrow> bool) \<Rightarrow> 's \<Rightarrow> 'e list \<Rightarrow> 's \<Rightarrow> bool" for step where
  run_start: "run step s [] s"
| run_more: "run step s es s1 \<Longrightarrow> step s1 e s2 \<Longrightarrow> run step s (es @ [e]) s2"

lemma run_invariant:
  assumes "run step s es s'" and "I s" and "\<And>s e s'. I s \<Longrightarrow> step s e s' \<Longrightarrow> I s'"
  shows "I s'"
  using assms by (induction rule: run.induct) auto

lemma run_append: "run step s2 fs s3 \<Longrightarrow> run step s1 es s2 \<Longrightarrow> run step s1 (es @ fs) s3"
proof (induction rule: run.induct)
  case (run_more s fs s3 f s4)
  then have "run step s1 (es @ fs) s3" by simp
  from run.run_more [OF this run_more.hyps(2)] show ?case by simp
qed simp

lemma run_single: "step s e s' \<Longrightarrow> run step s [e] s'"
  using run_more [OF run_start, of step s e s'] by simp

lemma run_two: "step s e s1 \<Longrightarrow> step s1 f s2 \<Longrightarrow> run step s [e, f] s2"
  using run_more [OF run_single, of step s e s1 f s2] by simp

lemma in_map_filter: "k \<in> set (List.map_filter f xs) \<longleftrightarrow> (\<exists>x \<in> set xs. f x = Some k)"
  by (force simp: map_filter_def)

locale claim =
  fixes step :: "'s \<Rightarrow> 'e \<Rightarrow> 's \<Rightarrow> bool"
    and wins :: "'e \<Rightarrow> 'k option"
    and taken :: "'k \<Rightarrow> 's \<Rightarrow> bool"
  assumes win: "step s e s' \<Longrightarrow> wins e = Some k \<Longrightarrow> \<not> taken k s \<and> taken k s'"
    and stays: "step s e s' \<Longrightarrow> taken k s \<Longrightarrow> taken k s'"
begin

lemma taken_run: "run step s es s' \<Longrightarrow> taken k s \<Longrightarrow> taken k s'"
  by (erule run_invariant) (auto intro: stays)

lemma winners:
  "run step s es s' \<Longrightarrow> distinct (List.map_filter wins es)
     \<and> (\<forall>k \<in> set (List.map_filter wins es). \<not> taken k s \<and> taken k s')"
proof (induction rule: run.induct)
  case (run_start s)
  then show ?case by (simp add: map_filter_def)
next
  case (run_more s es s1 e s2)
  have k: "taken k s2" if "taken k s1" for k using stays [OF run_more.hyps(2) that] .
  show ?case
  proof (cases "wins e")
    case None
    with run_more.IH k show ?thesis by (auto simp: map_filter_def)
  next
    case (Some w)
    with win [OF run_more.hyps(2)] have w: "\<not> taken w s1" "taken w s2" by simp_all
    moreover have "\<not> taken w s" using w(1) taken_run [OF run_more.hyps(1)] by blast
    ultimately show ?thesis using Some run_more.IH k by (auto simp: map_filter_def)
  qed
qed

lemma once_at_most: "run step s es s' \<Longrightarrow> length (filter (\<lambda>e. wins e = Some k) es) \<le> 1"
proof -
  assume r: "run step s es s'"
  have "distinct (List.map_filter wins es) \<Longrightarrow> length (filter (\<lambda>e. wins e = Some k) es) \<le> 1" for es
  proof (induction es)
    case (Cons e es)
    then have IH: "length (filter (\<lambda>e. wins e = Some k) es) \<le> 1"
      by (cases "wins e") (simp_all add: map_filter_def)
    show ?case
    proof (cases "wins e = Some k")
      case True
      then have "k \<notin> set (List.map_filter wins es)" using Cons.prems by (simp add: map_filter_def)
      then have "filter (\<lambda>e. wins e = Some k) es = []" by (auto simp: in_map_filter filter_empty_conv)
      with True show ?thesis by simp
    next
      case False
      with IH show ?thesis by simp
    qed
  qed simp
  with winners [OF r] show ?thesis by blast
qed

lemma not_again: "run step s es s' \<Longrightarrow> taken k s \<Longrightarrow> e \<in> set es \<Longrightarrow> wins e \<noteq> Some k"
  by (drule winners) (auto simp: in_map_filter)

end

end
