(* ===== verification/Session_Db.thy ===== *)
theory Session_Db
  imports Core_User Runs
begin

text \<open>
  The tables behind the sessions and the statements of \<open>services/core-api/src/routes/auth.ts\<close> on
  them: refresh and access tokens, exchange codes, OAuth states and identities. Times are
  milliseconds since the epoch. One statement is one step, whichever request it belongs to; the
  runs below interleave the statements of any number of requests.
\<close>

subsection \<open>Tables\<close>

record refresh_row =
  rf_id :: string
  rf_user :: string
  rf_hash :: string
  rf_expires :: int
  rf_revoked :: "int option"

record access_row =
  ac_id :: string
  ac_user :: string
  ac_hash :: string
  ac_refresh :: string
  ac_expires :: int

record code_row =
  ex_code :: string
  ex_user :: "string option"
  ex_challenge :: string
  ex_expires :: int
  ex_used :: "int option"
  ex_provider :: "string option"
  ex_subject :: "string option"
  ex_email :: "string option"
  ex_verified :: bool
  ex_name :: "string option"
  ex_account :: "string option"

record state_row =
  st_state :: string
  st_provider :: string
  st_challenge :: string
  st_redirect :: string
  st_final :: string
  st_expires :: int
  st_account :: string

record identity_row =
  idt_provider :: string
  idt_subject :: string
  idt_user :: string

record session_db = user_db +
  refresh_tokens :: "refresh_row list"
  access_tokens :: "access_row list"
  exchange_codes :: "code_row list"
  oauth_states :: "state_row list"
  user_identities :: "identity_row list"

subsection \<open>Statements\<close>

definition expire :: "int \<Rightarrow> (access_row \<Rightarrow> bool) \<Rightarrow> access_row list \<Rightarrow> access_row list" where
  "expire now P = map (\<lambda>a. if P a then a\<lparr>ac_expires := now\<rparr> else a)"

definition revoke :: "int \<Rightarrow> (refresh_row \<Rightarrow> bool) \<Rightarrow> refresh_row list \<Rightarrow> refresh_row list" where
  "revoke now P = map (\<lambda>r. if P r \<and> rf_revoked r = None then r\<lparr>rf_revoked := Some now\<rparr> else r)"

definition REVOKE_ALL :: "string \<Rightarrow> int \<Rightarrow> 'z session_db_scheme \<Rightarrow> 'z session_db_scheme" where
  "REVOKE_ALL u now db = db\<lparr>refresh_tokens := revoke now (\<lambda>r. rf_user r = u) (refresh_tokens db),
     access_tokens := expire now (\<lambda>a. ac_user a = u) (access_tokens db)\<rparr>"

text \<open>The rows the first part of \<open>ROTATE_REFRESH\<close> revokes; the statement returns their ids.\<close>

definition ROTATE_REFRESH :: "string \<Rightarrow> int \<Rightarrow> 'z session_db_scheme \<Rightarrow> bool \<times> 'z session_db_scheme" where
  "ROTATE_REFRESH ident now db =
     (let revoked = filter (\<lambda>r. rf_id r = ident \<and> rf_revoked r = None) (refresh_tokens db) in
      (revoked \<noteq> [],
       db\<lparr>refresh_tokens := revoke now (\<lambda>r. rf_id r = ident) (refresh_tokens db),
          access_tokens := expire now (\<lambda>a. ac_refresh a \<in> rf_id ` set revoked) (access_tokens db)\<rparr>))"

definition LOGOUT :: "string \<Rightarrow> int \<Rightarrow> 'z session_db_scheme \<Rightarrow> 'z session_db_scheme" where
  "LOGOUT hash now db =
     (let target = filter (\<lambda>r. rf_hash r = hash) (refresh_tokens db) in
      db\<lparr>refresh_tokens := revoke now (\<lambda>r. rf_id r \<in> rf_id ` set target) (refresh_tokens db),
         access_tokens := expire now (\<lambda>a. ac_refresh a \<in> rf_id ` set target) (access_tokens db)\<rparr>)"

definition missing_user :: core_exn where
  "missing_user = DbError ''23503'' ''insert or update violates foreign key constraint''"

definition duplicate_row :: core_exn where
  "duplicate_row = DbError ''23505'' ''duplicate key value violates unique constraint''"

text \<open>The insert of \<open>issue\<close>: both rows or, when a constraint of the tables fails, none.\<close>

definition INSERT_SESSION :: "refresh_row \<Rightarrow> access_row \<Rightarrow> ('z session_db_scheme, unit) core_prog" where
  "INSERT_SESSION r a db =
     (if map_of (users db) (rf_user r) = None then (Inl missing_user, db)
      else if (\<exists>x \<in> set (refresh_tokens db). rf_id x = rf_id r \<or> rf_hash x = rf_hash r)
        \<or> (\<exists>x \<in> set (access_tokens db). ac_id x = ac_id a \<or> ac_hash x = ac_hash a)
      then (Inl duplicate_row, db)
      else (Inr (), db\<lparr>refresh_tokens := refresh_tokens db @ [r], access_tokens := access_tokens db @ [a]\<rparr>))"

definition mark_used :: "string \<Rightarrow> int \<Rightarrow> code_row list \<Rightarrow> code_row list" where
  "mark_used code now = map (\<lambda>c. if ex_code c = code \<and> ex_used c = None then c\<lparr>ex_used := Some now\<rparr> else c)"

definition USE_CODE :: "string \<Rightarrow> int \<Rightarrow> 'z session_db_scheme \<Rightarrow> bool \<times> 'z session_db_scheme" where
  "USE_CODE code now db =
     (list_ex (\<lambda>c. ex_code c = code \<and> ex_used c = None) (exchange_codes db),
      db\<lparr>exchange_codes := mark_used code now (exchange_codes db)\<rparr>)"

definition INSERT_CODE :: "code_row \<Rightarrow> ('z session_db_scheme, unit) core_prog" where
  "INSERT_CODE c db =
     (if \<exists>x \<in> set (exchange_codes db). ex_code x = ex_code c then (Inl duplicate_row, db)
      else (Inr (), db\<lparr>exchange_codes := exchange_codes db @ [c]\<rparr>))"

definition TAKE_STATE :: "string \<Rightarrow> 'z session_db_scheme \<Rightarrow> state_row option \<times> 'z session_db_scheme" where
  "TAKE_STATE st db = (find (\<lambda>r. st_state r = st) (oauth_states db),
     db\<lparr>oauth_states := filter (\<lambda>r. st_state r \<noteq> st) (oauth_states db)\<rparr>)"

definition INSERT_STATE :: "state_row \<Rightarrow> ('z session_db_scheme, unit) core_prog" where
  "INSERT_STATE r db =
     (if \<exists>x \<in> set (oauth_states db). st_state x = st_state r then (Inl duplicate_row, db)
      else (Inr (), db\<lparr>oauth_states := oauth_states db @ [r]\<rparr>))"

text \<open>\<open>USER_BY_TOKEN\<close> and its fallback: the user of the access token with this hash, and when it expires.\<close>

definition token_row :: "string \<Rightarrow> 'z session_db_scheme \<Rightarrow> (access_row \<times> jv) option" where
  "token_row hash db = (case find (\<lambda>a. ac_hash a = hash) (access_tokens db) of
       None \<Rightarrow> None
     | Some a \<Rightarrow> map_option (Pair a) (map_of (users db) (ac_user a)))"

definition USER_BY_TOKEN :: "string \<Rightarrow> ('z session_db_scheme, (jv \<times> int) option) core_prog" where
  "USER_BY_TOKEN hash db = (case company_members db of
       None \<Rightarrow> (Inl missing_members, db)
     | Some ms \<Rightarrow> (Inr (map_option (\<lambda>(a, row). (with_company ms (ac_user a, row), ac_expires a)) (token_row hash db)), db))"

definition USER_BY_TOKEN_BASE :: "string \<Rightarrow> ('z session_db_scheme, (jv \<times> int) option) core_prog" where
  "USER_BY_TOKEN_BASE hash = reading (\<lambda>db. map_option (\<lambda>(a, row). (row, ac_expires a)) (token_row hash db))"

subsection \<open>Runs\<close>

datatype session_event = Rotated string | Code_Used string | State_Taken string | Quiet

definition same_tokens :: "'z session_db_scheme \<Rightarrow> 'z session_db_scheme \<Rightarrow> bool" where
  "same_tokens db db' \<longleftrightarrow> refresh_tokens db' = refresh_tokens db \<and> access_tokens db' = access_tokens db
     \<and> exchange_codes db' = exchange_codes db \<and> oauth_states db' = oauth_states db"

text \<open>The state of a run is a clock and the tables. A statement carries the time its request began,
  which may lie behind the clock.\<close>

inductive session_step :: "int \<times> 'z session_db_scheme \<Rightarrow> session_event \<Rightarrow> int \<times> 'z session_db_scheme \<Rightarrow> bool" where
  S_tick: "c \<le> c' \<Longrightarrow> session_step (c, db) Quiet (c', db)"
| S_other: "same_tokens db db' \<Longrightarrow> session_step (c, db) Quiet (c, db')"
| S_insert: "INSERT_SESSION r a db = (res, db') \<Longrightarrow> rf_revoked r = None \<Longrightarrow> ac_user a = rf_user r \<Longrightarrow> ac_refresh a = rf_id r
    \<Longrightarrow> session_step (c, db) Quiet (c, db')"
| S_rotate: "now \<le> c \<Longrightarrow> ROTATE_REFRESH i now db = (won, db')
    \<Longrightarrow> session_step (c, db) (if won then Rotated i else Quiet) (c, db')"
| S_revoke_all: "now \<le> c \<Longrightarrow> session_step (c, db) Quiet (c, REVOKE_ALL u now db)"
| S_logout: "now \<le> c \<Longrightarrow> session_step (c, db) Quiet (c, LOGOUT h now db)"
| S_code: "INSERT_CODE k db = (res, db') \<Longrightarrow> session_step (c, db) Quiet (c, db')"
| S_use: "USE_CODE k now db = (won, db') \<Longrightarrow> session_step (c, db) (if won then Code_Used k else Quiet) (c, db')"
| S_state: "INSERT_STATE r db = (res, db') \<Longrightarrow> session_step (c, db) Quiet (c, db')"
| S_take: "TAKE_STATE st db = (found, db') \<Longrightarrow> session_step (c, db) (if found = None then Quiet else State_Taken st) (c, db')"

lemma in_revoke: "r \<in> set (revoke now P rs) \<longleftrightarrow>
    (\<exists>x \<in> set rs. r = (if P x \<and> rf_revoked x = None then x\<lparr>rf_revoked := Some now\<rparr> else x))"
  by (simp only: revoke_def set_map image_iff)

lemma map_revoke: "map rf_id (revoke now P rs) = map rf_id rs" "map rf_hash (revoke now P rs) = map rf_hash rs"
  by (simp_all add: revoke_def)

lemma in_expire: "a \<in> set (expire now P as) \<longleftrightarrow> (\<exists>x \<in> set as. a = (if P x then x\<lparr>ac_expires := now\<rparr> else x))"
  by (simp only: expire_def set_map image_iff)

lemma map_expire: "map ac_hash (expire now P as) = map ac_hash as"
  by (simp add: expire_def)

definition rotated_in :: "string \<Rightarrow> refresh_row list \<Rightarrow> bool" where
  "rotated_in i rs \<longleftrightarrow> i \<in> rf_id ` set rs \<and> (\<forall>r \<in> set rs. rf_id r = i \<longrightarrow> rf_revoked r \<noteq> None)"

definition rotated :: "string \<Rightarrow> int \<times> 'z session_db_scheme \<Rightarrow> bool" where
  "rotated i s \<longleftrightarrow> rotated_in i (refresh_tokens (snd s))"

definition used_in :: "string \<Rightarrow> code_row list \<Rightarrow> bool" where
  "used_in k cs \<longleftrightarrow> k \<in> ex_code ` set cs \<and> (\<forall>c \<in> set cs. ex_code c = k \<longrightarrow> ex_used c \<noteq> None)"

definition code_used :: "string \<Rightarrow> int \<times> 'z session_db_scheme \<Rightarrow> bool" where
  "code_used k s \<longleftrightarrow> used_in k (exchange_codes (snd s))"

lemma codes_mark: "ex_code ` set (mark_used k now cs) = ex_code ` set cs"
proof -
  have "map ex_code (mark_used k now cs) = map ex_code cs" by (simp add: mark_used_def)
  then show ?thesis by (metis list.set_map)
qed

lemma in_mark: "c \<in> set (mark_used k now cs) \<longleftrightarrow>
    (\<exists>x \<in> set cs. c = (if ex_code x = k \<and> ex_used x = None then x\<lparr>ex_used := Some now\<rparr> else x))"
  by (simp only: mark_used_def set_map image_iff)

lemma used_in_mark: "used_in k cs \<Longrightarrow> used_in k (mark_used j now cs)"
  by (auto simp: used_in_def codes_mark in_mark)

lemma used_in_marked: "k \<in> ex_code ` set cs \<Longrightarrow> used_in k (mark_used k now cs)"
  by (auto simp: used_in_def codes_mark in_mark)

lemma ids_revoke: "rf_id ` set (revoke now P rs) = rf_id ` set rs"
  by (metis list.set_map map_revoke(1))

lemma rotated_in_revoke: "rotated_in i rs \<Longrightarrow> rotated_in i (revoke now P rs)"
  by (auto simp: rotated_in_def ids_revoke in_revoke)

lemma rotated_in_rotate: "i \<in> rf_id ` set rs \<Longrightarrow> rotated_in i (revoke now (\<lambda>r. rf_id r = i) rs)"
  by (auto simp: rotated_in_def ids_revoke in_revoke)

lemma rotated_in_snoc: "rotated_in i rs \<Longrightarrow> \<forall>x \<in> set rs. rf_id x \<noteq> rf_id r \<Longrightarrow> rotated_in i (rs @ [r])"
  by (auto simp: rotated_in_def)

fun rotated_id :: "session_event \<Rightarrow> string option" where
  "rotated_id (Rotated i) = Some i"
| "rotated_id _ = None"

fun used_code :: "session_event \<Rightarrow> string option" where
  "used_code (Code_Used k) = Some k"
| "used_code _ = None"

lemma INSERT_SESSION_cases:
  assumes "INSERT_SESSION r a db = (res, db')"
  obtains "db' = db" | "\<forall>x \<in> set (refresh_tokens db). rf_id x \<noteq> rf_id r \<and> rf_hash x \<noteq> rf_hash r"
      "\<forall>x \<in> set (access_tokens db). ac_hash x \<noteq> ac_hash a"
      "db' = db\<lparr>refresh_tokens := refresh_tokens db @ [r], access_tokens := access_tokens db @ [a]\<rparr>"
proof (cases "db' = db")
  case False
  then show thesis using assms by (intro that(2)) (auto simp: INSERT_SESSION_def split: if_splits)
qed (rule that(1))

lemma INSERT_SESSION_unchanged:
  "INSERT_SESSION r a db = (res, db') \<Longrightarrow> exchange_codes db' = exchange_codes db \<and> oauth_states db' = oauth_states db"
  by (erule INSERT_SESSION_cases) simp_all

lemma refresh_unchanged:
  "USE_CODE k now db = (won, db') \<Longrightarrow> refresh_tokens db' = refresh_tokens db \<and> access_tokens db' = access_tokens db"
  "INSERT_CODE x db = (res, db') \<Longrightarrow> refresh_tokens db' = refresh_tokens db \<and> access_tokens db' = access_tokens db"
  "INSERT_STATE y db = (res, db') \<Longrightarrow> refresh_tokens db' = refresh_tokens db \<and> access_tokens db' = access_tokens db"
  "TAKE_STATE st db = (found, db') \<Longrightarrow> refresh_tokens db' = refresh_tokens db \<and> access_tokens db' = access_tokens db"
  by (auto simp: INSERT_CODE_def USE_CODE_def INSERT_STATE_def TAKE_STATE_def split: if_splits)

lemma code_unchanged:
  "ROTATE_REFRESH i now db = (won, db') \<Longrightarrow> exchange_codes db' = exchange_codes db"
  "exchange_codes (REVOKE_ALL u now db) = exchange_codes db"
  "exchange_codes (LOGOUT h now db) = exchange_codes db"
  "INSERT_STATE y db = (res, db') \<Longrightarrow> exchange_codes db' = exchange_codes db"
  "TAKE_STATE st db = (found, db') \<Longrightarrow> exchange_codes db' = exchange_codes db"
  by (auto simp: INSERT_STATE_def TAKE_STATE_def ROTATE_REFRESH_def REVOKE_ALL_def LOGOUT_def Let_def split: if_splits)

lemma session_step_rotated: "session_step s e s' \<Longrightarrow> rotated i s \<Longrightarrow> rotated i s'"
proof (induction rule: session_step.induct)
  case (S_insert r a db res db' c)
  from S_insert(1) show ?case
    by (rule INSERT_SESSION_cases) (use S_insert(5) rotated_in_snoc in \<open>auto simp: rotated_def\<close>)
next
  case (S_rotate now c j db won db')
  then show ?case by (auto simp: rotated_def ROTATE_REFRESH_def Let_def rotated_in_revoke)
qed (auto simp: rotated_def same_tokens_def refresh_unchanged REVOKE_ALL_def LOGOUT_def Let_def rotated_in_revoke)

lemma session_step_rotates: "session_step s e s' \<Longrightarrow> rotated_id e = Some i \<Longrightarrow> \<not> rotated i s \<and> rotated i s'"
proof (induction rule: session_step.induct)
  case (S_rotate now c j db won db')
  then have "won" "j = i" by (auto split: if_splits)
  with S_rotate(2) have "\<exists>r \<in> set (refresh_tokens db). rf_id r = i \<and> rf_revoked r = None"
    and "refresh_tokens db' = revoke now (\<lambda>r. rf_id r = i) (refresh_tokens db)"
    by (auto simp: ROTATE_REFRESH_def Let_def filter_empty_conv)
  then show ?case by (auto simp: rotated_def rotated_in_rotate) (auto simp: rotated_in_def)
qed (auto split: if_splits)

interpretation rotation: claim session_step rotated_id rotated
  by unfold_locales (auto dest: session_step_rotates session_step_rotated)

lemma session_step_used: "session_step s e s' \<Longrightarrow> code_used k s \<Longrightarrow> code_used k s'"
proof (induction rule: session_step.induct)
  case (S_use j now db won db' c)
  then show ?case by (auto simp: code_used_def USE_CODE_def used_in_mark)
next
  case (S_code x db res db' c)
  then show ?case by (force simp: code_used_def used_in_def INSERT_CODE_def split: if_splits)
qed (auto simp: code_used_def same_tokens_def code_unchanged dest: INSERT_SESSION_unchanged)

lemma session_step_uses: "session_step s e s' \<Longrightarrow> used_code e = Some k \<Longrightarrow> \<not> code_used k s \<and> code_used k s'"
proof (induction rule: session_step.induct)
  case (S_use j now db won db' c)
  then have "won" "j = k" by (auto split: if_splits)
  with S_use(1) have "\<exists>c \<in> set (exchange_codes db). ex_code c = k \<and> ex_used c = None"
    and "exchange_codes db' = mark_used k now (exchange_codes db)"
    by (auto simp: USE_CODE_def list_ex_iff)
  then show ?case by (auto simp: code_used_def used_in_marked) (auto simp: used_in_def)
qed (auto split: if_splits)

interpretation code_use: claim session_step used_code code_used
  by unfold_locales (auto dest: session_step_uses session_step_used)

subsection \<open>Revoked sessions are dead\<close>

definition session_wf :: "int \<times> 'z session_db_scheme \<Rightarrow> bool" where
  "session_wf s \<longleftrightarrow> distinct (map rf_id (refresh_tokens (snd s))) \<and> distinct (map rf_hash (refresh_tokens (snd s))) \<and> distinct (map ac_hash (access_tokens (snd s)))
     \<and> (\<forall>a \<in> set (access_tokens (snd s)). \<exists>r \<in> set (refresh_tokens (snd s)). rf_id r = ac_refresh a \<and> rf_user r = ac_user a
          \<and> (rf_revoked r \<noteq> None \<longrightarrow> ac_expires a \<le> fst s))"

lemma wf_parent:
  assumes "session_wf (c, db)" "a \<in> set (access_tokens db)"
  obtains r where "r \<in> set (refresh_tokens db)" "rf_id r = ac_refresh a" "rf_user r = ac_user a" "rf_revoked r \<noteq> None \<longrightarrow> ac_expires a \<le> c"
  using assms by (auto simp: session_wf_def)

lemma wf_unique: "session_wf (c, db) \<Longrightarrow> r \<in> set (refresh_tokens db) \<Longrightarrow> q \<in> set (refresh_tokens db) \<Longrightarrow> rf_id r = rf_id q \<Longrightarrow> r = q"
  by (auto simp: session_wf_def distinct_map inj_on_def)

text \<open>Revoking rows and expiring at least their access tokens keeps the invariant.\<close>

lemma wf_revoke_expire:
  assumes wf: "session_wf (c, db)" and now: "now \<le> c"
    and rs: "refresh_tokens db' = revoke now P (refresh_tokens db)" and as: "access_tokens db' = expire now Q (access_tokens db)"
    and covers: "\<And>a r. a \<in> set (access_tokens db) \<Longrightarrow> r \<in> set (refresh_tokens db) \<Longrightarrow> rf_id r = ac_refresh a \<Longrightarrow> rf_user r = ac_user a
        \<Longrightarrow> P r \<Longrightarrow> rf_revoked r = None \<Longrightarrow> Q a"
  shows "session_wf (c, db')"
  unfolding session_wf_def fst_conv snd_conv rs as map_revoke map_expire
proof (intro conjI ballI)
  show "distinct (map rf_id (refresh_tokens db))" "distinct (map rf_hash (refresh_tokens db))" "distinct (map ac_hash (access_tokens db))"
    using wf by (simp_all add: session_wf_def)
  fix a assume "a \<in> set (expire now Q (access_tokens db))"
  then obtain a0 where a0: "a0 \<in> set (access_tokens db)" "a = (if Q a0 then a0\<lparr>ac_expires := now\<rparr> else a0)" by (auto simp: in_expire)
  from wf_parent [OF wf a0(1)] obtain r where r: "r \<in> set (refresh_tokens db)" "rf_id r = ac_refresh a0" "rf_user r = ac_user a0"
      "rf_revoked r \<noteq> None \<longrightarrow> ac_expires a0 \<le> c" .
  let ?r = "if P r \<and> rf_revoked r = None then r\<lparr>rf_revoked := Some now\<rparr> else r"
  have "?r \<in> set (revoke now P (refresh_tokens db))" unfolding in_revoke by (rule bexI [OF refl r(1)])
  moreover have "rf_id ?r = ac_refresh a" "rf_user ?r = ac_user a" using r a0(2) by simp_all
  moreover have "rf_revoked ?r \<noteq> None \<longrightarrow> ac_expires a \<le> c"
    using r(4) a0(2) now covers [OF a0(1) r(1-3)] by auto
  ultimately show "\<exists>r \<in> set (revoke now P (refresh_tokens db)). rf_id r = ac_refresh a \<and> rf_user r = ac_user a
      \<and> (rf_revoked r \<noteq> None \<longrightarrow> ac_expires a \<le> c)" by blast
qed

lemma wf_same: "session_wf (c, db) \<Longrightarrow> refresh_tokens db' = refresh_tokens db \<and> access_tokens db' = access_tokens db \<Longrightarrow> session_wf (c, db')"
  by (simp add: session_wf_def)

lemma wf_insert:
  assumes "session_wf (c, db)" "INSERT_SESSION r a db = (res, db')" "rf_revoked r = None" "ac_user a = rf_user r" "ac_refresh a = rf_id r"
  shows "session_wf (c, db')"
  using assms(2)
proof (cases rule: INSERT_SESSION_cases)
  case 2
  with assms(1,3-5) show ?thesis by (force simp: session_wf_def)
qed (use assms(1) in simp)

lemma session_step_wf: "session_wf s \<Longrightarrow> session_step s e s' \<Longrightarrow> session_wf s'"
proof (rotate_tac, induction rule: session_step.induct)
  case (S_tick c c' db)
  then show ?case by (fastforce simp: session_wf_def)
next
  case (S_other db db' c)
  then show ?case by (simp add: wf_same same_tokens_def)
next
  case (S_insert r a db res db' c)
  from wf_insert [OF S_insert.prems S_insert(1-4)] show ?case .
next
  case (S_rotate now c i db won db')
  then show ?case
    by (intro wf_revoke_expire [OF S_rotate.prems S_rotate(1), of _ "\<lambda>r. rf_id r = i"
          "\<lambda>a. ac_refresh a \<in> rf_id ` set (filter (\<lambda>r. rf_id r = i \<and> rf_revoked r = None) (refresh_tokens db))"])
       (auto simp: ROTATE_REFRESH_def Let_def)
next
  case (S_revoke_all now c db u)
  then show ?case
    by (intro wf_revoke_expire [OF S_revoke_all.prems S_revoke_all(1), of _ "\<lambda>r. rf_user r = u" "\<lambda>a. ac_user a = u"])
       (auto simp: REVOKE_ALL_def)
next
  case (S_logout now c db h)
  then show ?case
    by (intro wf_revoke_expire [OF S_logout.prems S_logout(1), of _ "\<lambda>r. rf_id r \<in> rf_id ` set (filter (\<lambda>r. rf_hash r = h) (refresh_tokens db))"
          "\<lambda>a. ac_refresh a \<in> rf_id ` set (filter (\<lambda>r. rf_hash r = h) (refresh_tokens db))"])
       (auto simp: LOGOUT_def Let_def)
qed (rule wf_same, assumption, erule refresh_unchanged)+

lemma run_wf: "run session_step s es s' \<Longrightarrow> session_wf s \<Longrightarrow> session_wf s'"
  by (erule run_invariant) (auto intro: session_step_wf)

lemma revoked_expired:
  assumes "session_wf (c, db)" "r \<in> set (refresh_tokens db)" "rf_revoked r \<noteq> None" "a \<in> set (access_tokens db)" "ac_refresh a = rf_id r"
  shows "ac_expires a \<le> c"
  using wf_parent [OF assms(1,4)] wf_unique [OF assms(1) _ assms(2)] assms(3,5) by metis

text \<open>Rows stay: a step never removes a refresh token or moves an access token to another one.\<close>

definition access_of :: "access_row \<Rightarrow> string \<times> string" where
  "access_of a = (ac_hash a, ac_refresh a)"

definition has_access :: "string \<Rightarrow> string \<Rightarrow> int \<times> 'z session_db_scheme \<Rightarrow> bool" where
  "has_access h i s \<longleftrightarrow> (h, i) \<in> set (map access_of (access_tokens (snd s)))"

lemma access_of_expire: "map access_of (expire now Q as) = map access_of as"
  by (simp add: expire_def access_of_def)

lemma access_of_rotate: "ROTATE_REFRESH i now db = (won, db') \<Longrightarrow> map access_of (access_tokens db') = map access_of (access_tokens db)"
  by (auto simp: ROTATE_REFRESH_def Let_def access_of_expire simp del: map_map set_map)

lemma session_step_access: "session_step s e s' \<Longrightarrow> has_access h i s \<Longrightarrow> has_access h i s'"
proof (induction rule: session_step.induct)
  case (S_insert r a db res db' c)
  from S_insert(1) show ?case by (rule INSERT_SESSION_cases) (use S_insert(5) in \<open>simp_all add: has_access_def\<close>)
next
  case (S_rotate now c j db won db')
  then show ?case by (simp add: has_access_def access_of_rotate del: set_map)
qed (simp_all add: has_access_def same_tokens_def refresh_unchanged REVOKE_ALL_def LOGOUT_def Let_def access_of_expire del: set_map)

lemma run_access: "run session_step s es s' \<Longrightarrow> has_access h i s \<Longrightarrow> has_access h i s'"
  by (erule run_invariant) (auto intro: session_step_access)

definition refresh_of :: "refresh_row \<Rightarrow> string \<times> string \<times> string" where
  "refresh_of r = (rf_hash r, rf_id r, rf_user r)"

definition has_refresh :: "string \<Rightarrow> string \<Rightarrow> string \<Rightarrow> int \<times> 'z session_db_scheme \<Rightarrow> bool" where
  "has_refresh h i u s \<longleftrightarrow> (h, i, u) \<in> set (map refresh_of (refresh_tokens (snd s)))"

lemma refresh_of_revoke: "map refresh_of (revoke now P rs) = map refresh_of rs"
  by (simp add: revoke_def refresh_of_def)

lemma refresh_of_rotate: "ROTATE_REFRESH i now db = (won, db') \<Longrightarrow> map refresh_of (refresh_tokens db') = map refresh_of (refresh_tokens db)"
  by (auto simp: ROTATE_REFRESH_def Let_def refresh_of_revoke simp del: map_map set_map)

lemma session_step_refresh: "session_step s e s' \<Longrightarrow> has_refresh h i u s \<Longrightarrow> has_refresh h i u s'"
proof (induction rule: session_step.induct)
  case (S_insert r a db res db' c)
  from S_insert(1) show ?case by (rule INSERT_SESSION_cases) (use S_insert(5) in \<open>simp_all add: has_refresh_def\<close>)
next
  case (S_rotate now c j db won db')
  then show ?case by (simp add: has_refresh_def refresh_of_rotate del: set_map)
qed (simp_all add: has_refresh_def same_tokens_def refresh_unchanged REVOKE_ALL_def LOGOUT_def Let_def refresh_of_revoke del: set_map)

lemma run_refresh: "run session_step s es s' \<Longrightarrow> has_refresh h i u s \<Longrightarrow> has_refresh h i u s'"
  by (erule run_invariant) (auto intro: session_step_refresh)

lemma find_unique:
  "distinct (map f xs) \<Longrightarrow> x \<in> set xs \<Longrightarrow> f x = k \<Longrightarrow> find (\<lambda>x. f x = k) xs = Some x"
  by (induction xs) auto

end
