(* ===== verification/Crypto.thy ===== *)
theory Crypto
  imports Cursor Core_Http "HOL-Library.Word"
begin

text \<open>
  \<open>services/core-api/src/crypto.ts\<close> (PKCE, the byte helpers and the hexadecimal HMAC) and
  \<open>auth/pending-signup.ts\<close>, the signed token that carries a social identity through the phone
  verification. SHA-256 and HMAC-SHA-256 are the arguments \<open>sha\<close> and \<open>hmac\<close> (bytes to bytes),
  \<open>JSON.stringify\<close> followed by \<open>TextEncoder\<close> is \<open>js\<close> and its inverse reading \<open>jp\<close>. The bitwise
  operators work on 32-bit integers, as in the source.
\<close>

unbundle bit_operations_syntax

subsection \<open>Comparison in constant time\<close>

definition char_word :: "char \<Rightarrow> 32 word" where
  "char_word c = of_nat (code_unit c)"

fun diff_loop :: "string \<Rightarrow> string \<Rightarrow> 32 word \<Rightarrow> 32 word" where
  "diff_loop (a # as) (b # bs) diff = diff_loop as bs (diff OR (char_word a XOR char_word b))"
| "diff_loop _ _ diff = diff"

definition same :: "string \<Rightarrow> string \<Rightarrow> bool" where
  "same a b \<longleftrightarrow> (if length a \<noteq> length b then False else diff_loop a b 0 = 0)"

lemma char_word_inj: "char_word a = char_word b \<longleftrightarrow> a = b"
proof
  assume "char_word a = char_word b"
  moreover have "code_unit c < 2 ^ 32" for c using code_unit_less [of c] by (rule less_trans) simp
  ultimately have "code_unit a = code_unit b"
    by (simp add: char_word_def word_of_nat_eq_iff take_bit_nat_eq_self)
  then show "a = b" by simp
qed simp

lemma xor_eq_zero: "x XOR y = 0 \<longleftrightarrow> x = (y :: 'a::len word)"
proof
  assume "x XOR y = 0"
  then have "(x XOR y) XOR y = y" by simp
  then show "x = y" by (simp only: xor.assoc xor_self_eq xor.right_neutral)
qed simp

lemma diff_loop_zero:
  "length a = length b \<Longrightarrow> diff_loop a b diff = 0 \<longleftrightarrow> diff = 0 \<and> a = b"
proof (induction a b diff rule: diff_loop.induct)
  case (1 a as b bs diff)
  have "char_word a XOR char_word b = 0 \<longleftrightarrow> a = b"
    using xor_eq_zero [of "char_word a" "char_word b"] by (simp add: char_word_inj)
  with 1 show ?case by (simp add: or_eq_0_iff)
qed auto

lemma same_iff: "same a b \<longleftrightarrow> a = b"
  by (auto simp: same_def diff_loop_zero)

subsection \<open>PKCE\<close>

definition pkceChallenge :: "(string \<Rightarrow> string) \<Rightarrow> string \<Rightarrow> string" where
  "pkceChallenge sha verifier = drop_trailing_eq (to_url_safe (btoa (sha verifier)))"

definition verifyPkce :: "(string \<Rightarrow> string) \<Rightarrow> string \<Rightarrow> string \<Rightarrow> bool" where
  "verifyPkce sha verifier challenge =
     (if verifier = [] then False else
      (let got = pkceChallenge sha verifier in
       if length got \<noteq> length challenge then False else diff_loop got challenge 0 = 0))"

lemma verifyPkce_iff: "verifyPkce sha v c \<longleftrightarrow> v \<noteq> [] \<and> pkceChallenge sha v = c"
  by (auto simp: verifyPkce_def Let_def diff_loop_zero)

lemma to_url_safe_inj: "list_all b64_ok s \<Longrightarrow> list_all b64_ok t \<Longrightarrow> to_url_safe s = to_url_safe t \<Longrightarrow> s = t"
  by (metis url_safe_inverse)

lemma b64_body_inj: "b64_body s = b64_body t \<Longrightarrow> s = t"
  by (metis option.inject sextets_body)

lemma pkceChallenge_digest: "pkceChallenge sha v = pkceChallenge sha w \<longleftrightarrow> sha v = sha w"
  by (auto simp: pkceChallenge_def url_btoa dest!: to_url_safe_inj [OF b64_body_ok b64_body_ok] b64_body_inj)

text \<open>PKCE. The loop over the characters accepts exactly a non-empty verifier whose challenge is the
  stored one; and two verifiers have the same challenge exactly when their digests agree, so the
  encoding loses nothing.\<close>

theorem pkce_equal:
  "verifyPkce sha v c = (v \<noteq> [] \<and> pkceChallenge sha v = c)
   \<and> verifyPkce sha v (pkceChallenge sha w) = (v \<noteq> [] \<and> sha v = sha w)"
  by (simp add: verifyPkce_iff pkceChallenge_digest)

subsection \<open>Bytes in hexadecimal\<close>

definition hex_digit :: "nat \<Rightarrow> char" where
  "hex_digit n = (if n < 10 then char_of (48 + n) else char_of (87 + n))"

definition hex_byte :: "char \<Rightarrow> string" where
  "hex_byte c = [hex_digit (code_unit c div 16), hex_digit (code_unit c mod 16)]"

definition to_hex :: "string \<Rightarrow> string" where
  "to_hex bytes = concat (map hex_byte bytes)"

definition hmacSha256Hex :: "(string \<Rightarrow> string \<Rightarrow> string) \<Rightarrow> string \<Rightarrow> string \<Rightarrow> string" where
  "hmacSha256Hex hmac secret payload = to_hex (hmac secret payload)"

lemma hex_digit_inj: "m < 16 \<Longrightarrow> n < 16 \<Longrightarrow> hex_digit m = hex_digit n \<Longrightarrow> m = n"
  by (auto simp: hex_digit_def of_char_of take_bit_nat_eq_self dest!: arg_cong [of "char_of _" _ code_unit] split: if_splits)

lemma hex_byte_inj: "hex_byte a = hex_byte b \<longleftrightarrow> a = b"
proof
  assume "hex_byte a = hex_byte b"
  then have "hex_digit (code_unit a div 16) = hex_digit (code_unit b div 16)" "hex_digit (code_unit a mod 16) = hex_digit (code_unit b mod 16)"
    by (simp_all add: hex_byte_def)
  moreover have "code_unit c div 16 < 16" for c using code_unit_less [of c] by linarith
  ultimately have "code_unit a div 16 = code_unit b div 16" "code_unit a mod 16 = code_unit b mod 16"
    using hex_digit_inj by simp_all
  then have "code_unit a = code_unit b" by (metis div_mult_mod_eq)
  then show "a = b" by simp
qed simp

lemma to_hex_inj: "to_hex a = to_hex b \<longleftrightarrow> a = b"
proof
  show "to_hex a = to_hex b \<Longrightarrow> a = b"
  proof (induction a arbitrary: b)
    case Nil
    then show ?case by (cases b) (simp_all add: to_hex_def hex_byte_def)
  next
    case (Cons c a)
    then obtain d b' where b: "b = d # b'" by (cases b) (simp_all add: to_hex_def hex_byte_def)
    from Cons.prems have "hex_byte c = hex_byte d" "to_hex a = to_hex b'" by (simp_all add: b to_hex_def hex_byte_def)
    with Cons.IH b show ?case by (simp add: hex_byte_inj)
  qed
qed simp

subsection \<open>The pending sign-up\<close>

record pending_signup =
  ps_provider :: string
  ps_subject :: string
  ps_email :: "string option"
  ps_exp :: int

definition TTL_SEC :: int where
  "TTL_SEC = 900"

definition b64url :: "string \<Rightarrow> string" where
  "b64url bytes = filter (\<lambda>c. c \<noteq> CHR ''='') (to_url_safe (btoa bytes))"

text \<open>\<open>/^[A-Za-z0-9+/]+={0,2}$/\<close>\<close>

definition base64_text :: "string \<Rightarrow> bool" where
  "base64_text raw \<longleftrightarrow>
     (let letters = takeWhile b64_ok raw; rest = dropWhile b64_ok raw in
      letters \<noteq> [] \<and> rest \<in> {[], ''='', ''==''})"

definition fromB64url :: "string \<Rightarrow> string option" where
  "fromB64url v =
     (let raw = from_url_safe v @ (if length v mod 4 = 0 then [] else replicate (4 - length v mod 4) CHR ''='') in
      if \<not> base64_text raw then None else atob raw)"

definition secretOf :: "string option \<Rightarrow> core_exn + string" where
  "secretOf secret = (let s = js_trim (or_empty secret) in
     if s = [] then Inl (HttpError 503 ''NOT_CONFIGURED'' ''pending signup is not configured'' JNull) else Inr s)"

definition pending_body :: "string \<Rightarrow> string \<Rightarrow> string option \<Rightarrow> int \<Rightarrow> jv" where
  "pending_body provider subject email now = JObj [(''v'', JNum 1), (''provider'', JStr provider), (''subject'', JStr subject),
     (''email'', case email of None \<Rightarrow> JNull | Some e \<Rightarrow> JStr e), (''exp'', JNum (now div 1000 + TTL_SEC))]"

definition signPendingSignup ::
  "(string \<Rightarrow> string \<Rightarrow> string) \<Rightarrow> (jv \<Rightarrow> string) \<Rightarrow> string option \<Rightarrow> string \<Rightarrow> string \<Rightarrow> string option \<Rightarrow> int \<Rightarrow> core_exn + string" where
  "signPendingSignup hmac js secret provider subject email now =
     (let payload = js (pending_body provider subject email now) in
      case secretOf secret of Inl x \<Rightarrow> Inl x
      | Inr s \<Rightarrow> Inr (b64url payload @ ''.'' @ b64url (hmac s payload)))"

definition bad_pending :: core_exn where
  "bad_pending = HttpError 401 ''UNAUTHENTICATED'' ''invalid pending signup'' JNull"

definition pending_expired :: core_exn where
  "pending_expired = HttpError 401 ''TOKEN_EXPIRED'' ''pending signup expired'' JNull"

definition pending_fields :: "jv \<Rightarrow> int \<Rightarrow> core_exn + pending_signup" where
  "pending_fields body now =
     (if jget body ''v'' \<noteq> JNum 1 then Inl bad_pending else
      case (jget body ''provider'', jget body ''subject'', jget body ''exp'') of
        (JStr provider, JStr subject, JNum expiry) \<Rightarrow>
          if provider = [] \<or> provider = ''phone'' \<or> subject = [] then Inl bad_pending
          else (case jget body ''email'' of
             JStr e \<Rightarrow> if expiry * 1000 \<le> now then Inl pending_expired
               else Inr \<lparr>ps_provider = provider, ps_subject = subject, ps_email = Some e, ps_exp = expiry\<rparr>
           | email \<Rightarrow> if \<not> nullish email then Inl bad_pending
               else if expiry * 1000 \<le> now then Inl pending_expired
               else Inr \<lparr>ps_provider = provider, ps_subject = subject, ps_email = None, ps_exp = expiry\<rparr>)
      | _ \<Rightarrow> Inl bad_pending)"

definition readPendingSignup ::
  "(string \<Rightarrow> string \<Rightarrow> string) \<Rightarrow> (string \<Rightarrow> jv option) \<Rightarrow> string option \<Rightarrow> string \<Rightarrow> int \<Rightarrow> core_exn + pending_signup" where
  "readPendingSignup hmac jp secret token now =
     (case secretOf secret of Inl x \<Rightarrow> Inl x
      | Inr s \<Rightarrow>
        (case split_on CHR ''.'' token of
           [p, m] \<Rightarrow>
             if p = [] \<or> m = [] then Inl bad_pending
             else (case (fromB64url p, fromB64url m) of
                (Some payload, Some mac) \<Rightarrow>
                  if \<not> same mac (hmac s payload) then Inl bad_pending
                  else (case jp payload of None \<Rightarrow> Inl bad_pending | Some body \<Rightarrow> pending_fields body now)
              | _ \<Rightarrow> Inl bad_pending)
         | _ \<Rightarrow> Inl bad_pending))"

lemma b64url_eq: "b64url bytes = to_url_safe (b64_body bytes)"
proof -
  have ok: "list_all (\<lambda>c. c \<noteq> CHR ''='') (to_url_safe (b64_body bytes))"
    using b64_body_ok [of bytes] b64_ok_not_special(1) by (auto simp: to_url_safe_def replace_char_def list_all_iff split: if_splits)
  have "to_url_safe (btoa bytes) = to_url_safe (b64_body bytes)
      @ replicate ((4 - length (b64_body bytes) mod 4) mod 4) (CHR ''='')"
    by (subst btoa_body) (simp add: to_url_safe_def replace_char_def)
  with ok show ?thesis by (simp add: b64url_def list_all_iff)
qed

lemma length_to_url_safe [simp]: "length (to_url_safe s) = length s"
  by (simp add: to_url_safe_def replace_char_def)

lemma takeWhile_ok: "list_all P s \<Longrightarrow> \<not> P c \<Longrightarrow> takeWhile P (s @ replicate n c) = s \<and> dropWhile P (s @ replicate n c) = replicate n c"
  by (induction s) (simp_all add: takeWhile_replicate dropWhile_replicate)

lemma fromB64url_b64url: "bytes \<noteq> [] \<Longrightarrow> fromB64url (b64url bytes) = Some bytes"
proof -
  assume ne: "bytes \<noteq> []"
  let ?b = "b64_body bytes"
  define n where "n = (4 - length ?b mod 4) mod 4"
  have pad: "(if length ?b mod 4 = 0 then [] else replicate (4 - length ?b mod 4) CHR ''='') = replicate n CHR ''=''"
    by (simp add: n_def)
  have small: "n = 0 \<or> n = 1 \<or> n = 2" using length_b64_body [of bytes] by (auto simp: n_def)
  have "\<not> b64_ok CHR ''=''" by (simp add: b64_ok_def eq_not_b64)
  from takeWhile_ok [OF b64_body_ok this, of bytes n]
  have tw: "takeWhile b64_ok (?b @ replicate n CHR ''='') = ?b" "dropWhile b64_ok (?b @ replicate n CHR ''='') = replicate n CHR ''=''"
    by simp_all
  have "?b \<noteq> []" using ne by (cases bytes rule: b64_body.cases) (simp_all add: Let_def)
  moreover have "replicate n CHR ''='' \<in> {[], ''='', ''==''}" using small by (auto simp: numeral_2_eq_2)
  ultimately have t: "base64_text (?b @ replicate n CHR ''='')"
    unfolding base64_text_def Let_def tw by blast
  show ?thesis
    using t atob_padded_body [of bytes] unfolding fromB64url_def b64url_eq length_to_url_safe url_safe_inverse [OF b64_body_ok] pad Let_def
    by (simp add: n_def)
qed

lemma b64url_no_dot: "CHR ''.'' \<notin> set (b64url bytes)"
proof -
  have "\<not> b64_ok CHR ''.''" by (simp add: b64_ok_def b64_val_def)
  then have "CHR ''.'' \<notin> set (b64_body bytes)" using b64_body_ok [of bytes] by (auto simp: list_all_iff)
  then show ?thesis by (auto simp: b64url_eq to_url_safe_def replace_char_def split: if_splits)
qed

lemma b64url_nonempty: "bytes \<noteq> [] \<Longrightarrow> b64url bytes \<noteq> []"
  by (cases bytes rule: b64_body.cases) (simp_all add: b64url_eq to_url_safe_def replace_char_def Let_def)

lemma pending_fields_body:
  "provider \<notin> {[], ''phone''} \<Longrightarrow> subject \<noteq> [] \<Longrightarrow> pending_fields (pending_body provider subject email now) later =
    (if (now div 1000 + TTL_SEC) * 1000 \<le> later then Inl pending_expired
     else Inr \<lparr>ps_provider = provider, ps_subject = subject, ps_email = email, ps_exp = now div 1000 + TTL_SEC\<rparr>)"
  by (cases email) (simp_all add: pending_fields_def pending_body_def jget_def Prelude.fields_def nullish_def)

text \<open>A pending sign-up survives its token. The identity that was signed is read back from the token,
  with the expiry 15 minutes after the signing second, as long as that has not come; afterwards the
  reading says that it expired. This rests on \<open>JSON.parse\<close> undoing \<open>JSON.stringify\<close> on the signed
  object, and on a non-empty digest.\<close>

theorem pending_roundtrip:
  assumes "signPendingSignup hmac js secret provider subject email now = Inr token"
    and "jp (js (pending_body provider subject email now)) = Some (pending_body provider subject email now)"
    and "js (pending_body provider subject email now) \<noteq> []" and "\<And>k p. hmac k p \<noteq> []"
    and "provider \<notin> {[], ''phone''}" and "subject \<noteq> []"
  shows "readPendingSignup hmac jp secret token later =
    (if (now div 1000 + TTL_SEC) * 1000 \<le> later then Inl pending_expired
     else Inr \<lparr>ps_provider = provider, ps_subject = subject, ps_email = email, ps_exp = now div 1000 + TTL_SEC\<rparr>)"
proof -
  let ?p = "js (pending_body provider subject email now)"
  from assms(1) obtain s where s: "secretOf secret = Inr s" and token: "token = b64url ?p @ CHR ''.'' # b64url (hmac s ?p)"
    by (auto simp: signPendingSignup_def Let_def split: sum.splits)
  have sp: "split_on CHR ''.'' token = [b64url ?p, b64url (hmac s ?p)]"
    using b64url_no_dot by (simp add: token split_on_append_sep split_on_free)
  show ?thesis
    unfolding pending_fields_body [OF assms(5,6), symmetric]
    using assms(2-4) by (simp add: readPendingSignup_def s sp fromB64url_b64url b64url_nonempty same_iff)
qed

theorem pending_roundtrip_witness:
  "readPendingSignup (\<lambda>k p. k @ p @ ''!'') (\<lambda>_. Some (pending_body ''apple'' ''s1'' None 5000)) (Some ''k'')
     (b64url ''{}'' @ ''.'' @ b64url ''k{}!'') 6000 =
   Inr \<lparr>ps_provider = ''apple'', ps_subject = ''s1'', ps_email = None, ps_exp = 905\<rparr>"
proof -
  have k: "secretOf (Some ''k'') = Inr ''k''" by (simp add: secretOf_def js_defs)
  have sg: "signPendingSignup (\<lambda>k p. k @ p @ ''!'') (\<lambda>_. ''{}'') (Some ''k'') ''apple'' ''s1'' None 5000 = Inr (b64url ''{}'' @ ''.'' @ b64url ''k{}!'')"
    by (simp add: signPendingSignup_def k)
  show ?thesis
    using pending_roundtrip [OF sg, of "\<lambda>_. Some (pending_body ''apple'' ''s1'' None 5000)" 6000]
    by (simp add: TTL_SEC_def)
qed

text \<open>A pending sign-up cannot be made up. A token that is accepted carries, beside its payload, the
  message authentication code of exactly that payload under the configured secret; the identity is
  the one of the payload, its provider is a social one and its expiry has not come. Whoever cannot
  compute the code for a payload cannot make a token for it.\<close>

theorem pending_authentic:
  assumes "readPendingSignup hmac jp secret token now = Inr p"
  shows "\<exists>s enc mac payload body. secretOf secret = Inr s \<and> s \<noteq> [] \<and> token = enc @ CHR ''.'' # mac
    \<and> fromB64url enc = Some payload \<and> fromB64url mac = Some (hmac s payload)
    \<and> jp payload = Some body \<and> jget body ''v'' = JNum 1 \<and> jget body ''provider'' = JStr (ps_provider p)
    \<and> jget body ''subject'' = JStr (ps_subject p) \<and> jget body ''exp'' = JNum (ps_exp p)
    \<and> ps_provider p \<notin> {[], ''phone''} \<and> ps_subject p \<noteq> [] \<and> now < ps_exp p * 1000"
proof -
  from assms obtain s where s: "secretOf secret = Inr s" by (auto simp: readPendingSignup_def split: sum.splits)
  from assms obtain enc mac payload m body where r: "split_on CHR ''.'' token = [enc, mac]" "fromB64url enc = Some payload"
      "fromB64url mac = Some m" "same m (hmac s payload)" "jp payload = Some body" "pending_fields body now = Inr p"
    by (auto simp: readPendingSignup_def s split: list.splits if_splits option.splits)
  have "s \<noteq> []" using s by (auto simp: secretOf_def Let_def split: if_splits)
  moreover have "token = enc @ CHR ''.'' # mac" using join_split_on [of "CHR ''.''" token] r(1) by simp
  moreover have "jget body ''v'' = JNum 1 \<and> jget body ''provider'' = JStr (ps_provider p)
    \<and> jget body ''subject'' = JStr (ps_subject p) \<and> jget body ''exp'' = JNum (ps_exp p)
    \<and> ps_provider p \<notin> {[], ''phone''} \<and> ps_subject p \<noteq> [] \<and> now < ps_exp p * 1000"
    using r(6) by (auto simp: pending_fields_def split: if_splits json.splits)
  ultimately show ?thesis using s r(2-5) by (auto simp: same_iff)
qed

theorem pending_authentic_witness:
  "\<exists>enc mac. b64url ''{}'' @ ''.'' @ b64url ''k{}!'' = enc @ CHR ''.'' # mac"
proof -
  have k: "secretOf (Some ''k'') = Inr ''k''" by (simp add: secretOf_def js_defs)
  have "split_on CHR ''.'' (b64url ''{}'' @ ''.'' @ b64url ''k{}!'') = [b64url ''{}'', b64url ''k{}!'']"
    using b64url_no_dot by (simp add: split_on_append_sep split_on_free)
  then have "readPendingSignup (\<lambda>k p. k @ p @ ''!'') (\<lambda>_. Some (pending_body ''apple'' ''s1'' None 5000)) (Some ''k'')
      (b64url ''{}'' @ ''.'' @ b64url ''k{}!'') 6000 = Inr \<lparr>ps_provider = ''apple'', ps_subject = ''s1'', ps_email = None, ps_exp = 905\<rparr>"
    by (simp add: readPendingSignup_def k fromB64url_b64url b64url_nonempty same_iff pending_fields_body TTL_SEC_def)
  from pending_authentic [OF this] show ?thesis by blast
qed

end
