(* ===== verification/Sessions.thy ===== *)
theory Sessions
  imports Session_Db Crypto
begin

text \<open>
  \<open>services/core-api/src/routes/auth.ts\<close>: signing in with a social identity, issuing and rotating
  tokens, resolving the user of a request and deleting an account. SHA-256 as text is \<open>sha\<close>, as bytes
  \<open>digest\<close>; the environment is a function; \<open>JSON.parse\<close> is \<open>jp\<close>. The random values of a call are the
  record \<open>fresh\<close>. Texts outside ASCII are given by their UTF-8 bytes.
\<close>

type_synonym core_env = "string \<Rightarrow> string option"

definition ACCESS_TTL :: int where "ACCESS_TTL = 900"

definition REFRESH_MS :: int where "REFRESH_MS = 30 * 24 * 60 * 60 * 1000"

definition STATE_MS :: int where "STATE_MS = 10 * 60 * 1000"

definition EXCHANGE_MS :: int where "EXCHANGE_MS = 60 * 1000"

record fresh =
  fr_access :: string
  fr_refresh :: string
  fr_refresh_id :: string
  fr_access_id :: string
  fr_user :: string

record company_row =
  co_id :: string
  co_plan :: "string option"
  co_stripe :: "string option"
  co_deletion :: "int option"

record auth_db = session_db +
  companies :: "company_row list"

definition unauthenticated :: "string \<Rightarrow> core_exn" where
  "unauthenticated message = HttpError 401 ''UNAUTHENTICATED'' message JNull"

definition token_expired :: core_exn where
  "token_expired = HttpError 401 ''TOKEN_EXPIRED'' ''access token expired'' JNull"

definition internal_error :: core_exn where
  "internal_error = HttpError 500 ''INTERNAL'' ''internal error'' JNull"

definition validation :: "string \<Rightarrow> core_exn" where
  "validation message = HttpError 400 ''VALIDATION_ERROR'' message JNull"

definition account_name :: "account_type \<Rightarrow> string" where
  "account_name t = (case t of Personal_Account \<Rightarrow> ''PERSONAL'' | Employer_Account \<Rightarrow> ''EMPLOYER'')"

definition taken_employer :: string where
  "taken_employer = map char_of ([236, 157, 180, 32, 236, 157, 180, 235, 169, 148, 236, 157, 188, 236, 157, 128, 32, 234, 184, 176, 236, 151,
     133, 32, 234, 179, 132, 236, 160, 149, 236, 156, 188, 235, 161, 156, 32, 234, 176, 128, 236, 158, 133, 235,
     144, 152, 236, 150, 180, 32, 236, 158, 136, 236, 150, 180, 236, 154, 148] :: nat list)"

definition taken_personal :: string where
  "taken_personal = map char_of ([236, 157, 180, 32, 236, 157, 180, 235, 169, 148, 236, 157, 188, 236, 157, 128, 32, 234, 176, 156, 236, 157,
     184, 32, 234, 179, 132, 236, 160, 149, 236, 156, 188, 235, 161, 156, 32, 234, 176, 128, 236, 158, 133, 235,
     144, 152, 236, 150, 180, 32, 236, 158, 136, 236, 150, 180, 236, 154, 148] :: nat list)"

definition emailTaken :: "jv \<Rightarrow> core_exn" where
  "emailTaken row =
     (let label = accountLabel row in
      HttpError 409 ''EMAIL_TAKEN'' (if label = Employer_Account then taken_employer else taken_personal)
        (JObj [(''accountType'', JStr (account_name label))]))"

definition accountTypeFrom :: "string option \<Rightarrow> core_exn + account_type" where
  "accountTypeFrom v =
     (if v = None \<or> v = Some [] \<or> v = Some ''PERSONAL'' then Inr Personal_Account
      else if v = Some ''EMPLOYER'' then Inr Employer_Account
      else Inl (field_error ''accountType'' ''must be PERSONAL or EMPLOYER''))"

text \<open>\<open>rec.account_type === "EMPLOYER" ? \<dots>\<close>\<close>

definition wanted_account :: "string option \<Rightarrow> account_type" where
  "wanted_account v = (if v = Some ''EMPLOYER'' then Employer_Account else Personal_Account)"

subsection \<open>The user of a request\<close>

definition resolveUser :: "(string \<Rightarrow> string) \<Rightarrow> core_env \<Rightarrow> int \<Rightarrow> string \<Rightarrow> ('z session_db_scheme, user_row) core_prog" where
  "resolveUser sha env now token =
     (if env ''APP_ENV'' = Some ''development'' \<and> or_empty (env ''DEV_AUTH_TOKEN'') \<noteq> [] \<and> env ''DEV_AUTH_TOKEN'' = Some token
      then (let ident = or_empty (env ''DEV_USER_ID'') in
        and_then (userBy (user_by_id ident) (user_by_id_base ident)) (\<lambda>row.
        and_then (from_option (unauthenticated ''dev user not seeded'') row) (\<lambda>r. ret (userFrom r None))))
      else
        (let hash = sha token in
         and_then (userBy (USER_BY_TOKEN hash) (USER_BY_TOKEN_BASE hash)) (\<lambda>found.
         and_then (from_option (unauthenticated ''invalid access token'') found) (\<lambda>(row, expires).
           guard (\<not> expires < now) token_expired (ret (userFrom row None))))))"

subsection \<open>Issuing\<close>

definition optional_text :: "string option \<Rightarrow> jv" where
  "optional_text v = (case v of None \<Rightarrow> JNull | Some s \<Rightarrow> JStr s)"

definition sessionBody :: "string \<Rightarrow> string \<Rightarrow> user_row \<Rightarrow> jv" where
  "sessionBody access refresh u =
     JObj [(''accessToken'', JStr access), (''refreshToken'', JStr refresh), (''expiresIn'', JNum ACCESS_TTL),
       (''user'', JObj [(''id'', JStr (cu_id u)), (''displayName'', JStr (cu_displayName u)), (''locale'', JStr (cu_locale u)),
          (''accountType'', JStr (account_name (cu_accountType u))), (''companyId'', optional_text (cu_companyId u)),
          (''companyRole'', optional_text (cu_companyRole u))])]"

definition new_refresh :: "(string \<Rightarrow> string) \<Rightarrow> fresh \<Rightarrow> int \<Rightarrow> string \<Rightarrow> refresh_row" where
  "new_refresh sha f now u = \<lparr>rf_id = fr_refresh_id f, rf_user = u, rf_hash = sha (fr_refresh f), rf_expires = now + REFRESH_MS,
     rf_revoked = None\<rparr>"

definition new_access :: "(string \<Rightarrow> string) \<Rightarrow> fresh \<Rightarrow> int \<Rightarrow> string \<Rightarrow> access_row" where
  "new_access sha f now u = \<lparr>ac_id = fr_access_id f, ac_user = u, ac_hash = sha (fr_access f), ac_refresh = fr_refresh_id f,
     ac_expires = now + ACCESS_TTL * 1000\<rparr>"

definition issue :: "(string \<Rightarrow> string) \<Rightarrow> fresh \<Rightarrow> int \<Rightarrow> string \<Rightarrow> ('z session_db_scheme, jv) core_prog" where
  "issue sha f now u =
     and_then (INSERT_SESSION (new_refresh sha f now u) (new_access sha f now u)) (\<lambda>_.
     and_then (userBy (user_by_id u) (user_by_id_base u)) (\<lambda>row.
     and_then (from_option internal_error row) (\<lambda>r. ret (sessionBody (fr_access f) (fr_refresh f) (userFrom r None)))))"

definition readJson :: "(string \<Rightarrow> jv option) \<Rightarrow> request \<Rightarrow> core_exn + jv" where
  "readJson jp rq =
     (if rq_body rq = [] then Inl (validation ''request body required'')
      else (case jp (rq_body rq) of
          Some (JObj kvs) \<Rightarrow> Inr (JObj kvs)
        | _ \<Rightarrow> Inl (validation ''invalid request body'')))"

definition requireString :: "jv \<Rightarrow> string \<Rightarrow> core_exn + string" where
  "requireString body key = (case jget body key of JStr s \<Rightarrow> Inr s | _ \<Rightarrow> Inl (validation ''invalid request body''))"

subsection \<open>Refreshing and leaving\<close>

definition revokeAll :: "string \<Rightarrow> int \<Rightarrow> ('z session_db_scheme, unit) core_prog" where
  "revokeAll u now = writing (REVOKE_ALL u now)"

definition refresh_by_hash :: "string \<Rightarrow> 'z session_db_scheme \<Rightarrow> refresh_row option" where
  "refresh_by_hash hash db = find (\<lambda>r. rf_hash r = hash) (refresh_tokens db)"

definition reused :: "string \<Rightarrow> int \<Rightarrow> ('z session_db_scheme, 'a) core_prog" where
  "reused u now = and_then (revokeAll u now) (\<lambda>_. throw (unauthenticated ''refresh token revoked''))"

definition rotate_step :: "string \<Rightarrow> int \<Rightarrow> ('z session_db_scheme, bool) core_prog" where
  "rotate_step ident now db = (Inr (fst (ROTATE_REFRESH ident now db)), snd (ROTATE_REFRESH ident now db))"

definition refresh :: "(string \<Rightarrow> jv option) \<Rightarrow> (string \<Rightarrow> string) \<Rightarrow> fresh \<Rightarrow> int \<Rightarrow> request \<Rightarrow> string \<Rightarrow> ('z session_db_scheme, response) core_prog" where
  "refresh jp sha f now rq rid =
     and_then (from_sum (readJson jp rq)) (\<lambda>body.
     and_then (from_sum (requireString body ''refreshToken'')) (\<lambda>token.
     and_then (reading (refresh_by_hash (sha token))) (\<lambda>found.
     and_then (from_option (unauthenticated ''invalid refresh token'') found) (\<lambda>r.
       if rf_revoked r \<noteq> None then reused (rf_user r) now
       else guard (\<not> rf_expires r < now) token_expired
         (and_then (rotate_step (rf_id r) now) (\<lambda>revoked.
            if \<not> revoked then reused (rf_user r) now
            else and_then (issue sha f now (rf_user r)) (\<lambda>b. ret (data 200 b rid))))))))"

definition logout :: "(string \<Rightarrow> jv option) \<Rightarrow> (string \<Rightarrow> string) \<Rightarrow> int \<Rightarrow> request \<Rightarrow> string \<Rightarrow> ('z session_db_scheme, response) core_prog" where
  "logout jp sha now rq rid =
     and_then (from_sum (readJson jp rq)) (\<lambda>body.
     and_then (from_sum (requireString body ''refreshToken'')) (\<lambda>token.
     and_then (if token = [] then ret () else writing (LOGOUT (sha token) now)) (\<lambda>_. ret (noContent rid))))"

subsection \<open>Signing in with a social identity\<close>

text \<open>Setting a column of a row.\<close>

definition set_column :: "string \<Rightarrow> jv \<Rightarrow> jv \<Rightarrow> jv" where
  "set_column k v row = JObj (AList.update k v (Prelude.fields row))"

definition update_user :: "string \<Rightarrow> (jv \<Rightarrow> jv) \<Rightarrow> 'z user_db_scheme \<Rightarrow> 'z user_db_scheme" where
  "update_user u f db = db\<lparr>users := map (\<lambda>(i, row). if i = u then (i, f row) else (i, row)) (users db)\<rparr>"

definition admin_companies :: "string \<Rightarrow> member_row list \<Rightarrow> string list" where
  "admin_companies u ms = map mb_company (filter (\<lambda>m. mb_user m = u \<and> mb_role m = ''ADMIN'') ms)"

definition clearDeletion :: "string \<Rightarrow> 'z auth_db_scheme \<Rightarrow> 'z auth_db_scheme" where
  "clearDeletion u db =
     (let db1 = update_user u (set_column ''deletion_requested_at'' JNull) db in
      case company_members db1 of
        None \<Rightarrow> db1
      | Some ms \<Rightarrow> db1\<lparr>companies := map (\<lambda>c. if co_id c \<in> set (admin_companies u ms) then c\<lparr>co_deletion := None\<rparr> else c) (companies db1)\<rparr>)"

type_synonym identified = "string \<times> jv"

definition by_identity :: "string \<Rightarrow> string \<Rightarrow> 'z session_db_scheme \<Rightarrow> identified option" where
  "by_identity provider subject db =
     (case find (\<lambda>i. idt_provider i = provider \<and> idt_subject i = subject \<and> map_of (users db) (idt_user i) \<noteq> None) (user_identities db) of
        None \<Rightarrow> None
      | Some i \<Rightarrow> map_option (Pair (idt_user i)) (map_of (users db) (idt_user i)))"

definition has_email :: "string \<Rightarrow> identified \<Rightarrow> bool" where
  "has_email email p \<longleftrightarrow> (case jget (snd p) ''email'' of JStr e \<Rightarrow> toLowerCase e = toLowerCase email | _ \<Rightarrow> False)"

definition by_email :: "string \<Rightarrow> 'z user_db_scheme \<Rightarrow> identified option" where
  "by_email email db = find (has_email email) (users db)"

definition has_provider :: "string \<Rightarrow> string \<Rightarrow> identified \<Rightarrow> bool" where
  "has_provider provider subject p \<longleftrightarrow> jget (snd p) ''provider'' = JStr provider \<and> jget (snd p) ''provider_subject'' = JStr subject"

definition by_provider :: "string \<Rightarrow> string \<Rightarrow> 'z user_db_scheme \<Rightarrow> identified option" where
  "by_provider provider subject db = find (has_provider provider subject) (users db)"

text \<open>The insert with the unique indexes of \<open>users\<close>.\<close>

definition INSERT_USER :: "string \<Rightarrow> string \<Rightarrow> string \<Rightarrow> string \<Rightarrow> jv \<Rightarrow> ('z user_db_scheme, unit) core_prog" where
  "INSERT_USER u provider subject email row db =
     (if map_of (users db) u \<noteq> None \<or> by_provider provider subject db \<noteq> None \<or> by_email email db \<noteq> None
      then (Inl duplicate_row, db) else (Inr (), db\<lparr>users := users db @ [(u, row)]\<rparr>))"

definition new_user_row :: "string \<Rightarrow> string \<Rightarrow> string \<Rightarrow> string \<Rightarrow> int \<Rightarrow> string \<Rightarrow> account_type \<Rightarrow> jv" where
  "new_user_row u provider subject name now email account =
     JObj [(''id'', JStr u), (''provider'', JStr provider), (''provider_subject'', JStr subject), (''display_name'', JStr name),
       (''locale'', JStr ''ko''), (''created_at'', JNum now), (''email'', JStr email), (''email_verified_at'', JNum now),
       (''is_employer'', JBool (account = Employer_Account)), (''password_hash'', JNull)]"

text \<open>The account that was found must be of the kind that was asked for.\<close>

definition of_kind :: "account_type \<Rightarrow> identified \<Rightarrow> ('s, string) core_prog" where
  "of_kind account p = (if accountLabel (snd p) \<noteq> account then throw (emailTaken (snd p)) else ret (fst p))"

definition not_verified :: core_exn where
  "not_verified = HttpError 400 ''EMAIL_NOT_VERIFIED'' ''email is not verified'' JNull"

definition clean_email :: "string option \<Rightarrow> string" where
  "clean_email v = (case v of None \<Rightarrow> [] | Some e \<Rightarrow> toLowerCase (js_trim e))"

definition resolveOAuthUser :: "fresh \<Rightarrow> int \<Rightarrow> code_row \<Rightarrow> ('z session_db_scheme, string) core_prog" where
  "resolveOAuthUser f now c =
     (let provider = or_empty (ex_provider c); subject = or_empty (ex_subject c); email = clean_email (ex_email c);
          account = wanted_account (ex_account c) in
      if provider = [] then from_option not_verified (case ex_user c of None \<Rightarrow> None | Some u \<Rightarrow> if u = [] then None else Some u)
      else guard (ex_verified c \<and> email \<noteq> []) not_verified
       (and_then (reading (by_identity provider subject)) (\<lambda>i.
          case i of Some p \<Rightarrow> of_kind account p
        | None \<Rightarrow> and_then (reading (by_email email)) (\<lambda>e.
          case e of Some p \<Rightarrow> of_kind account p
        | None \<Rightarrow> and_then (reading (by_provider provider subject)) (\<lambda>b.
          case b of Some p \<Rightarrow> of_kind account p
        | None \<Rightarrow> and_then (catching
              (and_then (INSERT_USER (fr_user f) provider subject email
                  (new_user_row (fr_user f) provider subject (or_else (or_empty (ex_name c)) ''user'') now email account)) (\<lambda>_. ret None))
              (\<lambda>x. if \<not> isUnique x then throw x
                 else and_then (reading (by_email email)) (\<lambda>t. from_option x (map_option Some t))))
            (\<lambda>t. case t of None \<Rightarrow> ret (fr_user f) | Some p \<Rightarrow> of_kind account p))))))"

definition completePersonalSocial ::
  "(string \<Rightarrow> string \<Rightarrow> string) \<Rightarrow> (jv \<Rightarrow> string) \<Rightarrow> (string \<Rightarrow> string) \<Rightarrow> core_env \<Rightarrow> fresh \<Rightarrow> int \<Rightarrow> string \<Rightarrow> code_row
     \<Rightarrow> ('z auth_db_scheme, response) core_prog" where
  "completePersonalSocial hmac js sha env f now rid c =
     (let provider = or_empty (ex_provider c); subject = or_empty (ex_subject c) in
      and_then (reading (\<lambda>db. case by_identity provider subject db of Some p \<Rightarrow> Some p | None \<Rightarrow> by_provider provider subject db)) (\<lambda>found.
        case found of
          Some p \<Rightarrow> and_then (of_kind (wanted_account (ex_account c)) p) (\<lambda>u.
            and_then (writing (clearDeletion u)) (\<lambda>_. and_then (issue sha f now u) (\<lambda>b. ret (data 200 b rid))))
        | None \<Rightarrow>
            (let email = clean_email (ex_email c); verified = ex_verified c \<and> email \<noteq> [] in
             guard (provider = ''apple'' \<or> verified) not_verified
             (and_then (from_sum (signPendingSignup hmac js (env ''PENDING_SIGNUP_SECRET'') provider subject (if verified then Some email else None) now))
               (\<lambda>token. ret (data 200 (JObj [(''pendingToken'', JStr token), (''expiresIn'', JNum TTL_SEC)]) rid))))))"

definition code_by_key :: "string \<Rightarrow> 'z session_db_scheme \<Rightarrow> code_row option" where
  "code_by_key code db = find (\<lambda>c. ex_code c = code) (exchange_codes db)"

definition use_step :: "string \<Rightarrow> int \<Rightarrow> ('z session_db_scheme, bool) core_prog" where
  "use_step code now db = (Inr (fst (USE_CODE code now db)), snd (USE_CODE code now db))"

definition code_gone :: core_exn where
  "code_gone = unauthenticated ''code expired or already used''"

definition exchange ::
  "(string \<Rightarrow> string \<Rightarrow> string) \<Rightarrow> (jv \<Rightarrow> string) \<Rightarrow> (string \<Rightarrow> jv option) \<Rightarrow> (string \<Rightarrow> string) \<Rightarrow> (string \<Rightarrow> string) \<Rightarrow> core_env
     \<Rightarrow> fresh \<Rightarrow> int \<Rightarrow> request \<Rightarrow> string \<Rightarrow> ('z auth_db_scheme, response) core_prog" where
  "exchange hmac js jp digest sha env f now rq rid =
     and_then (from_sum (readJson jp rq)) (\<lambda>body.
     and_then (from_sum (requireString body ''code'')) (\<lambda>code.
     and_then (from_sum (requireString body ''codeVerifier'')) (\<lambda>verifier.
     and_then (reading (code_by_key code)) (\<lambda>found.
     and_then (from_option (unauthenticated ''invalid code'') found) (\<lambda>c.
       guard (ex_used c = None \<and> \<not> ex_expires c < now) code_gone
      (guard (verifyPkce digest verifier (ex_challenge c)) (unauthenticated ''pkce verification failed'')
      (and_then (use_step code now) (\<lambda>marked.
       guard marked code_gone
      (if or_empty (ex_provider c) \<noteq> [] \<and> wanted_account (ex_account c) = Personal_Account
       then completePersonalSocial hmac js sha env f now rid c
       else and_then (resolveOAuthUser f now c) (\<lambda>u.
         and_then (writing (clearDeletion u)) (\<lambda>_. and_then (issue sha f now u) (\<lambda>b. ret (data 200 b rid)))))))))))))"

subsection \<open>Deleting an account\<close>

definition companyMembership :: "string \<Rightarrow> 'z auth_db_scheme \<Rightarrow> (member_row \<times> company_row \<times> nat) option" where
  "companyMembership u db =
     (case company_members db of None \<Rightarrow> None
      | Some ms \<Rightarrow> (case membership u ms of None \<Rightarrow> None
        | Some m \<Rightarrow> (case find (\<lambda>c. co_id c = mb_company m) (companies db) of None \<Rightarrow> None
          | Some c \<Rightarrow> Some (m, c, length (filter (\<lambda>n. mb_company n = mb_company m \<and> mb_user n \<noteq> u) ms)))))"

text \<open>\<open>cancel\<close> is the result of cancelling the subscriptions of a customer at Stripe.\<close>

definition deleteAccount ::
  "(string option \<Rightarrow> core_exn + unit) \<Rightarrow> int \<Rightarrow> user_row \<Rightarrow> string \<Rightarrow> ('z auth_db_scheme, response) core_prog" where
  "deleteAccount cancel now user rid =
     and_then (reading (companyMembership (cu_id user))) (\<lambda>membership.
       (let admin = (case membership of None \<Rightarrow> False | Some (m, _, _) \<Rightarrow> mb_role m = ''ADMIN'');
            others = (case membership of None \<Rightarrow> 0 | Some (_, _, n) \<Rightarrow> n);
            soleAdmin = (admin \<and> others = 0) in
        guard (\<not> (admin \<and> 0 < others)) (HttpError 409 ''ADMIN_TRANSFER_REQUIRED'' ''transfer admin before deleting the account'' JNull)
       (and_then (writing (update_user (cu_id user) (set_column ''deletion_requested_at'' (JNum now)))) (\<lambda>_.
        and_then (catching
            (and_then (from_sum (cancel (cu_stripeCustomerId user))) (\<lambda>_.
               (let customer = (if soleAdmin then (case membership of None \<Rightarrow> [] | Some (_, c, _) \<Rightarrow> or_empty (co_stripe c)) else []) in
                if customer \<noteq> [] \<and> customer \<noteq> or_empty (cu_stripeCustomerId user) then from_sum (cancel (Some customer)) else ret ())))
            (\<lambda>x. and_then (writing (update_user (cu_id user) (set_column ''deletion_requested_at'' JNull))) (\<lambda>_. throw x))) (\<lambda>_.
        and_then (case membership of
            Some (m, _, _) \<Rightarrow> if soleAdmin
              then writing (\<lambda>db. db\<lparr>companies := map (\<lambda>c. if co_id c = mb_company m then c\<lparr>co_deletion := Some now\<rparr> else c) (companies db)\<rparr>)
              else ret ()
          | None \<Rightarrow> ret ()) (\<lambda>_.
        and_then (revokeAll (cu_id user) now) (\<lambda>_. ret (noContent rid))))))))"

end
