(* ===== verification/Session_Props.thy ===== *)
theory Session_Props
  imports Sessions
begin

text \<open>What the sessions guarantee, over every interleaving of the statements of any number of requests.\<close>

subsection \<open>Handlers as runs of their statements\<close>

lemma run_none: "\<exists>es. run session_step (c, db) es (c, db)"
  by (rule exI) (rule run_start)

lemma issue_run:
  assumes "issue sha f now u db = (res, db')"
  shows "run session_step (c, db) [Quiet] (c, db')"
proof -
  obtain r1 db1 where i: "INSERT_SESSION (new_refresh sha f now u) (new_access sha f now u) db = (r1, db1)" by fastforce
  then have "session_step (c, db) Quiet (c, db1)"
    by (rule S_insert) (simp_all add: new_refresh_def new_access_def)
  moreover have "db' = db1"
    using assms i by (auto simp: issue_def and_then_def user_by_id_reads from_option_def split: sum.splits option.splits)
  ultimately show ?thesis by (simp add: run_single)
qed

lemma reused_run: "now \<le> c \<Longrightarrow> reused u now db = (res, db') \<Longrightarrow> run session_step (c, db) [Quiet] (c, db') \<and> res = Inl (unauthenticated ''refresh token revoked'')"
  by (auto simp: reused_def revokeAll_def and_then_def writing_def intro!: run_single S_revoke_all)

lemma rotate_run:
  assumes "now \<le> c"
  shows "run session_step (c, db) [if fst (ROTATE_REFRESH i now db) then Rotated i else Quiet] (c, snd (ROTATE_REFRESH i now db))"
  by (intro run_single S_rotate [OF assms, where db = db]) simp

definition refresh_body :: "(string \<Rightarrow> jv option) \<Rightarrow> request \<Rightarrow> core_exn + string" where
  "refresh_body jp rq = (case readJson jp rq of Inl x \<Rightarrow> Inl x | Inr b \<Rightarrow> requireString b ''refreshToken'')"

lemma rotate_then: "and_then (rotate_step i now) k db = (case ROTATE_REFRESH i now db of (won, db1) \<Rightarrow> k won db1)"
  by (simp add: and_then_def rotate_step_def split: prod.split)

lemma refresh_unfold:
  "refresh jp sha f now rq rid db =
     (case refresh_body jp rq of Inl x \<Rightarrow> (Inl x, db)
      | Inr token \<Rightarrow> (case refresh_by_hash (sha token) db of
          None \<Rightarrow> (Inl (unauthenticated ''invalid refresh token''), db)
        | Some r \<Rightarrow> if rf_revoked r \<noteq> None then reused (rf_user r) now db
            else if rf_expires r < now then (Inl token_expired, db)
            else (case ROTATE_REFRESH (rf_id r) now db of (won, db1) \<Rightarrow>
              if won then and_then (issue sha f now (rf_user r)) (\<lambda>b. ret (data 200 b rid)) db1 else reused (rf_user r) now db1)))"
  by (simp add: refresh_def refresh_body_def seq_simps rotate_then split: sum.split option.split prod.split)

lemma refresh_run:
  assumes "refresh jp sha f now rq rid db = (res, db')" and "now \<le> c"
  shows "\<exists>es. run session_step (c, db) es (c, db') \<and> (\<forall>rs. res = Inr rs \<longrightarrow>
    (\<exists>token r. refresh_body jp rq = Inr token \<and> refresh_by_hash (sha token) db = Some r \<and> Rotated (rf_id r) \<in> set es))"
proof (cases "refresh_body jp rq")
  case (Inr token)
  show ?thesis
  proof (cases "refresh_by_hash (sha token) db")
    case None
    with assms(1) Inr have "db' = db" "\<nexists>rs. res = Inr rs" by (auto simp: refresh_unfold)
    then show ?thesis using run_none [of c db] by simp
  next
    case (Some r)
    let ?won = "fst (ROTATE_REFRESH (rf_id r) now db)" and ?db1 = "snd (ROTATE_REFRESH (rf_id r) now db)"
    consider "rf_revoked r \<noteq> None" | "rf_revoked r = None" "rf_expires r < now" | "rf_revoked r = None" "\<not> rf_expires r < now" by blast
    then show ?thesis
    proof cases
      case 1
      with assms(1) Inr Some have "reused (rf_user r) now db = (res, db')" by (simp add: refresh_unfold)
      from reused_run [OF assms(2) this] show ?thesis by auto
    next
      case 2
      with assms(1) Inr Some have "db' = db" "\<nexists>rs. res = Inr rs" by (auto simp: refresh_unfold)
      then show ?thesis using run_none [of c db] by simp
    next
      case 3
      note rotate = rotate_run [OF assms(2), of db "rf_id r"]
      show ?thesis
      proof (cases ?won)
        case True
        with 3 assms(1) Inr Some have "and_then (issue sha f now (rf_user r)) (\<lambda>b. ret (data 200 b rid)) ?db1 = (res, db')"
          by (simp add: refresh_unfold split: prod.splits)
        then obtain res1 where "issue sha f now (rf_user r) ?db1 = (res1, db')"
          by (auto simp: and_then_def split: prod.splits sum.splits)
        from run_append [OF issue_run [OF this] rotate] True Inr Some show ?thesis by auto
      next
        case False
        with 3 assms(1) Inr Some have "reused (rf_user r) now ?db1 = (res, db')"
          by (simp add: refresh_unfold split: prod.splits)
        from reused_run [OF assms(2) this] run_append [OF _ rotate] show ?thesis by fastforce
      qed
    qed
  qed
next
  case (Inl x)
  with assms(1) have "db' = db" "\<nexists>rs. res = Inr rs" by (auto simp: refresh_unfold)
  then show ?thesis using run_none [of c db] by simp
qed

lemma logout_run:
  assumes "logout jp sha now rq rid db = (res, db')" and "now \<le> c"
  shows "\<exists>es. run session_step (c, db) es (c, db')"
proof -
  have "db' = db \<or> (\<exists>token. db' = LOGOUT (sha token) now db)"
    using assms(1) by (auto simp: logout_def and_then_def from_sum_def writing_def split: sum.splits if_splits)
  then show ?thesis using run_none [of c db] run_single [of session_step, OF S_logout [OF assms(2), of db]] by blast
qed

subsection \<open>One winner\<close>

lemma rotated_id_iff: "rotated_id e = Some i \<longleftrightarrow> e = Rotated i"
  by (cases e) auto

lemma used_code_iff: "used_code e = Some k \<longleftrightarrow> e = Code_Used k"
  by (cases e) auto

text \<open>C28: One rotation. However the statements of any number of requests interleave, a refresh token is
  rotated at most once and an exchange code is used at most once; and a refresh that answers with new
  tokens is a run of those statements in which it rotated the token it was given. So of all requests
  that present one refresh token, at most one is answered with tokens.\<close>

theorem one_rotation:
  "(run session_step s es s' \<longrightarrow>
      length (filter (\<lambda>e. e = Rotated i) es) \<le> 1 \<and> length (filter (\<lambda>e. e = Code_Used k) es) \<le> 1)
   \<and> (refresh jp sha f now rq rid db = (Inr rs, db') \<and> now \<le> c \<longrightarrow>
      (\<exists>es token r. run session_step (c, db) es (c, db') \<and> refresh_body jp rq = Inr token
         \<and> refresh_by_hash (sha token) db = Some r \<and> Rotated (rf_id r) \<in> set es))"
proof (intro conjI impI; (elim conjE)?)
  assume r: "run session_step s es s'"
  show "length (filter (\<lambda>e. e = Rotated i) es) \<le> 1" using rotation.once_at_most [OF r, of i] by (simp add: rotated_id_iff)
  show "length (filter (\<lambda>e. e = Code_Used k) es) \<le> 1" using code_use.once_at_most [OF r, of k] by (simp add: used_code_iff)
next
  assume "refresh jp sha f now rq rid db = (Inr rs, db')" "now \<le> c"
  from refresh_run [OF this] show "\<exists>es token r. run session_step (c, db) es (c, db') \<and> refresh_body jp rq = Inr token
      \<and> refresh_by_hash (sha token) db = Some r \<and> Rotated (rf_id r) \<in> set es" by blast
qed

subsection \<open>Revoked sessions\<close>

lemma has_refreshD:
  assumes "has_refresh h i u (c, db)" and "session_wf (c, db)"
  obtains r where "refresh_by_hash h db = Some r" "r \<in> set (refresh_tokens db)" "rf_id r = i" "rf_user r = u"
proof -
  from assms(1) obtain r where r: "r \<in> set (refresh_tokens db)" "rf_hash r = h" "rf_id r = i" "rf_user r = u"
    by (auto simp: has_refresh_def refresh_of_def)
  with assms(2) have "refresh_by_hash h db = Some r"
    unfolding refresh_by_hash_def by (intro find_unique) (auto simp: session_wf_def)
  with r show thesis by (intro that)
qed

lemma has_accessD:
  assumes "has_access h i (c, db)" and "session_wf (c, db)"
  obtains a where "find (\<lambda>a. ac_hash a = h) (access_tokens db) = Some a" "a \<in> set (access_tokens db)" "ac_refresh a = i"
proof -
  from assms(1) obtain a where a: "a \<in> set (access_tokens db)" "ac_hash a = h" "ac_refresh a = i"
    by (auto simp: has_access_def access_of_def)
  with assms(2) have "find (\<lambda>a. ac_hash a = h) (access_tokens db) = Some a"
    by (intro find_unique) (auto simp: session_wf_def)
  with a show thesis by (intro that)
qed

definition dev_login :: "core_env \<Rightarrow> string \<Rightarrow> bool" where
  "dev_login env token \<longleftrightarrow> env ''APP_ENV'' = Some ''development'' \<and> or_empty (env ''DEV_AUTH_TOKEN'') \<noteq> [] \<and> env ''DEV_AUTH_TOKEN'' = Some token"

lemma by_token_reads:
  "userBy (USER_BY_TOKEN h) (USER_BY_TOKEN_BASE h) db =
     (Inr (case company_members db of
         None \<Rightarrow> map_option (\<lambda>(a, row). (row, ac_expires a)) (token_row h db)
       | Some ms \<Rightarrow> map_option (\<lambda>(a, row). (with_company ms (ac_user a, row), ac_expires a)) (token_row h db)), db)"
  by (simp add: userBy_def catching_def USER_BY_TOKEN_def USER_BY_TOKEN_BASE_def reading_def split: option.split)

lemma resolveUser_token:
  assumes "\<not> dev_login env token"
  shows "resolveUser sha env now token db =
    (case token_row (sha token) db of
       None \<Rightarrow> (Inl (unauthenticated ''invalid access token''), db)
     | Some (a, row) \<Rightarrow> if ac_expires a < now then (Inl token_expired, db)
         else (Inr (userFrom (case company_members db of None \<Rightarrow> row | Some ms \<Rightarrow> with_company ms (ac_user a, row)) None), db))"
  using assms unfolding resolveUser_def dev_login_def
  by (auto simp: and_then_def by_token_reads from_option_def guard_def Let_def split: option.splits)

text \<open>C26: Signed out is signed out. Take a refresh token that is revoked. After any further statements of any
  requests, its access tokens authenticate nobody in a request that began later than the time of every
  statement so far (the clock; a request that began before it may still pass, see \<open>expiry_moved\<close>), and the
  token itself refreshes nothing, at any time: every attempt is refused and revokes all sessions of its
  user.\<close>

theorem revoked_is_final:
  assumes "run session_step (c, db) es (c', db')" and "session_wf (c, db)"
    and "r \<in> set (refresh_tokens db)" and "rf_revoked r \<noteq> None"
    and "has_access (sha token) (rf_id r) (c, db)" and "c' < now" and "\<not> dev_login env token"
  shows "fst (resolveUser sha env now token db') \<in> {Inl token_expired, Inl (unauthenticated ''invalid access token'')}
    \<and> (refresh_body jp rq = Inr t \<and> sha t = rf_hash r \<longrightarrow>
      refresh jp sha f later rq rid db' = (Inl (unauthenticated ''refresh token revoked''), REVOKE_ALL (rf_user r) later db'))"
proof (intro conjI impI)
  have wf: "session_wf (c', db')" using run_wf [OF assms(1,2)] .
  have "rotated (rf_id r) (c, db)"
    using assms(2-4) wf_unique [OF assms(2) _ assms(3)] by (auto simp: rotated_def rotated_in_def)
  with rotation.taken_run [OF assms(1)] have rot: "rotated_in (rf_id r) (refresh_tokens db')" by (simp add: rotated_def)
  have "has_refresh (rf_hash r) (rf_id r) (rf_user r) (c, db)" using assms(3) by (force simp: has_refresh_def refresh_of_def)
  from has_refreshD [OF run_refresh [OF assms(1) this] wf] obtain q where q: "refresh_by_hash (rf_hash r) db' = Some q"
      "q \<in> set (refresh_tokens db')" "rf_id q = rf_id r" "rf_user q = rf_user r" .
  with rot have dead: "rf_revoked q \<noteq> None" by (auto simp: rotated_in_def)
  from has_accessD [OF run_access [OF assms(1,5)] wf] obtain a where a: "find (\<lambda>a. ac_hash a = sha token) (access_tokens db') = Some a"
      "a \<in> set (access_tokens db')" "ac_refresh a = rf_id r" .
  have "ac_expires a \<le> c'" using revoked_expired [OF wf q(2) dead a(2)] a(3) q(3) by simp
  with a(1) assms(6) show "fst (resolveUser sha env now token db') \<in> {Inl token_expired, Inl (unauthenticated ''invalid access token'')}"
    by (cases "map_of (users db') (ac_user a)") (simp_all add: resolveUser_token [OF assms(7)] token_row_def)
  show "refresh jp sha f later rq rid db' = (Inl (unauthenticated ''refresh token revoked''), REVOKE_ALL (rf_user r) later db')"
    if "refresh_body jp rq = Inr t \<and> sha t = rf_hash r"
    using that q dead by (simp add: refresh_unfold reused_def revokeAll_def and_then_def writing_def)
qed

text \<open>Revoking all sessions of a user writes its own time into every access token of the user, also into those
  that have ended before: a request that began in between finds its token valid again.\<close>

lemma find_expire: "find (\<lambda>x. ac_hash x = h) as = Some a \<Longrightarrow> P a
    \<Longrightarrow> find (\<lambda>x. ac_hash x = h) (expire now P as) = Some (a\<lparr>ac_expires := now\<rparr>)"
  by (induction as) (auto simp: expire_def split: if_splits)

lemma expiry_moved:
  assumes "find (\<lambda>x. ac_hash x = sha token) (access_tokens db) = Some a" and "ac_expires a < began" and "began \<le> now"
    and "map_of (users db) (ac_user a) = Some row" and "\<not> dev_login env token"
  shows "fst (resolveUser sha env began token db) = Inl token_expired
    \<and> (\<exists>v. fst (resolveUser sha env began token (REVOKE_ALL (ac_user a) now db)) = Inr v)"
proof -
  have f: "find (\<lambda>x. ac_hash x = sha token) (access_tokens (REVOKE_ALL (ac_user a) now db)) = Some (a\<lparr>ac_expires := now\<rparr>)"
    using find_expire [OF assms(1), of "\<lambda>x. ac_user x = ac_user a" now] by (simp add: REVOKE_ALL_def)
  have "users (REVOKE_ALL (ac_user a) now db) = users db" by (simp add: REVOKE_ALL_def)
  with assms f show ?thesis
    by (simp add: resolveUser_token [OF assms(5)] token_row_def)
qed

definition demo_row :: jv where
  "demo_row = JObj [(''id'', JStr ''u1'')]"

definition demo_sessions :: "int option \<Rightarrow> session_db" where
  "demo_sessions revoked = \<lparr>users = [(''u1'', demo_row)], company_members = Some [],
     refresh_tokens = [\<lparr>rf_id = ''r1'', rf_user = ''u1'', rf_hash = ''t1'', rf_expires = 1000, rf_revoked = revoked\<rparr>],
     access_tokens = [\<lparr>ac_id = ''a1'', ac_user = ''u1'', ac_hash = ''x1'', ac_refresh = ''r1'', ac_expires = 40\<rparr>],
     exchange_codes = [], oauth_states = [], user_identities = []\<rparr>"

definition demo_refresh :: request where
  "demo_refresh = \<lparr>rq_method = ''POST'', rq_path = ''/api/v1/auth/refresh'', rq_search = [], rq_query = [], rq_headers = [],
     rq_body = ''t1''\<rparr>"

definition demo_fresh :: fresh where
  "demo_fresh = \<lparr>fr_access = ''x2'', fr_refresh = ''t2'', fr_refresh_id = ''r2'', fr_access_id = ''a2'', fr_user = ''u2''\<rparr>"

definition demo_jp :: "string \<Rightarrow> jv option" where
  "demo_jp s = Some (JObj [(''refreshToken'', JStr s)])"

lemma demo_body: "refresh_body demo_jp demo_refresh = Inr ''t1''"
  by (simp add: refresh_body_def readJson_def demo_jp_def demo_refresh_def requireString_def jget_def Prelude.fields_def)

theorem one_rotation_witness:
  "\<exists>es db'. run session_step (50, demo_sessions None) es (50, db') \<and> Rotated ''r1'' \<in> set es"
proof -
  have "\<exists>rs db'. refresh demo_jp id demo_fresh 50 demo_refresh ''q'' (demo_sessions None) = (Inr rs, db')"
    by (simp add: refresh_unfold demo_body refresh_by_hash_def demo_sessions_def ROTATE_REFRESH_def revoke_def expire_def
        issue_def and_then_def INSERT_SESSION_def new_refresh_def new_access_def demo_fresh_def user_by_id_reads from_option_def Let_def)
  then obtain rs db' where "refresh demo_jp id demo_fresh 50 demo_refresh ''q'' (demo_sessions None) = (Inr rs, db') \<and> (50::int) \<le> 50" by auto
  from one_rotation [THEN conjunct2, THEN mp, OF this] show ?thesis
    by (auto simp: demo_body refresh_by_hash_def demo_sessions_def)
qed

theorem revoked_is_final_witness:
  "fst (resolveUser id (\<lambda>_. None) 60 ''x1'' (demo_sessions (Some 40))) \<in> {Inl token_expired, Inl (unauthenticated ''invalid access token'')}"
proof -
  have d: "refresh_tokens (demo_sessions (Some 40)) = [\<lparr>rf_id = ''r1'', rf_user = ''u1'', rf_hash = ''t1'', rf_expires = 1000, rf_revoked = Some 40\<rparr>]"
    "access_tokens (demo_sessions (Some 40)) = [\<lparr>ac_id = ''a1'', ac_user = ''u1'', ac_hash = ''x1'', ac_refresh = ''r1'', ac_expires = 40\<rparr>]"
    by (simp_all add: demo_sessions_def)
  let ?r = "\<lparr>rf_id = ''r1'', rf_user = ''u1'', rf_hash = ''t1'', rf_expires = 1000, rf_revoked = Some 40\<rparr>"
  have "session_wf (50, demo_sessions (Some 40))" "?r \<in> set (refresh_tokens (demo_sessions (Some 40)))"
    "has_access (id ''x1'') (rf_id ?r) (50, demo_sessions (Some 40))"
    by (simp_all add: d session_wf_def has_access_def access_of_def)
  from revoked_is_final [where sha = id and token = "''x1''" and now = 60 and env = "\<lambda>_. None", OF run_start this(1,2) _ this(3)] show ?thesis
    by (simp add: dev_login_def)
qed

subsection \<open>Reuse\<close>

lemma revoke_all_refresh:
  assumes "r \<in> set (refresh_tokens (REVOKE_ALL u now db))" and "rf_user r = u"
  shows "rf_revoked r \<noteq> None"
proof -
  from assms(1) obtain x where x: "r = (if rf_user x = u \<and> rf_revoked x = None then x\<lparr>rf_revoked := Some now\<rparr> else x)"
    by (auto simp: REVOKE_ALL_def in_revoke)
  show ?thesis using assms(2) by (cases "rf_user x = u \<and> rf_revoked x = None") (auto simp: x)
qed

lemma revoke_all_access:
  assumes "a \<in> set (access_tokens (REVOKE_ALL u now db))" and "ac_user a = u"
  shows "ac_expires a = now"
proof -
  from assms(1) obtain x where x: "a = (if ac_user x = u then x\<lparr>ac_expires := now\<rparr> else x)"
    by (auto simp: REVOKE_ALL_def in_expire)
  show ?thesis using assms(2) by (cases "ac_user x = u") (auto simp: x)
qed

lemmas revoke_all_dead = revoke_all_refresh revoke_all_access

text \<open>C29: A stolen token is noticed. When a refresh token has been exchanged for a new pair, presenting it
  again is refused, whatever the time, and from then on every refresh token of its user is revoked
  and every access token of the user has expired: the thief's and the owner's alike.\<close>

theorem reuse_detected:
  assumes "refresh jp sha f now rq rid db = (Inr rs, db1)" and "session_wf (c, db)" and "now \<le> c"
    and "refresh_body jp rq = Inr token" and "refresh_by_hash (sha token) db = Some r"
  shows "refresh jp sha f2 later rq rid2 db1 = (Inl (unauthenticated ''refresh token revoked''), REVOKE_ALL (rf_user r) later db1)
    \<and> (\<forall>q \<in> set (refresh_tokens (REVOKE_ALL (rf_user r) later db1)). rf_user q = rf_user r \<longrightarrow> rf_revoked q \<noteq> None)
    \<and> (\<forall>a \<in> set (access_tokens (REVOKE_ALL (rf_user r) later db1)). ac_user a = rf_user r \<longrightarrow> ac_expires a = later)"
proof -
  from refresh_run [OF assms(1,3)] assms(4,5) obtain es where es: "run session_step (c, db) es (c, db1)" "Rotated (rf_id r) \<in> set es"
    by auto
  have wf: "session_wf (c, db1)" using run_wf [OF es(1) assms(2)] .
  have "rf_id r \<in> set (List.map_filter rotated_id es)" unfolding in_map_filter by (rule bexI [OF _ es(2)]) simp
  then have "rotated (rf_id r) (c, db1)" using rotation.winners [OF es(1)] by blast
  then have rot: "rotated_in (rf_id r) (refresh_tokens db1)" by (simp add: rotated_def)
  have "r \<in> set (refresh_tokens db)" "rf_hash r = sha token"
    using assms(5) by (auto simp: refresh_by_hash_def find_Some_iff)
  then have "has_refresh (sha token) (rf_id r) (rf_user r) (c, db)" by (force simp: has_refresh_def refresh_of_def)
  from has_refreshD [OF run_refresh [OF es(1) this] wf] obtain q where q: "refresh_by_hash (sha token) db1 = Some q"
      "q \<in> set (refresh_tokens db1)" "rf_id q = rf_id r" "rf_user q = rf_user r" .
  with rot have "rf_revoked q \<noteq> None" by (auto simp: rotated_in_def)
  with q(1,4) assms(4) have "refresh jp sha f2 later rq rid2 db1 = (Inl (unauthenticated ''refresh token revoked''), REVOKE_ALL (rf_user r) later db1)"
    by (simp add: refresh_unfold reused_def revokeAll_def and_then_def writing_def)
  with revoke_all_dead show ?thesis by blast
qed

theorem reuse_detected_witness:
  "\<exists>db1 :: session_db. refresh demo_jp id demo_fresh 70 demo_refresh ''q'' db1 = (Inl (unauthenticated ''refresh token revoked''), REVOKE_ALL ''u1'' 70 db1)"
proof -
  have "\<exists>rs db'. refresh demo_jp id demo_fresh 50 demo_refresh ''q'' (demo_sessions None) = (Inr rs, db')"
    by (simp add: refresh_unfold demo_body refresh_by_hash_def demo_sessions_def ROTATE_REFRESH_def revoke_def expire_def
        issue_def and_then_def INSERT_SESSION_def new_refresh_def new_access_def demo_fresh_def user_by_id_reads from_option_def Let_def)
  then obtain rs db' where r: "refresh demo_jp id demo_fresh 50 demo_refresh ''q'' (demo_sessions None) = (Inr rs, db')" by blast
  have wf: "session_wf (50, demo_sessions None)" by (simp add: session_wf_def demo_sessions_def)
  have h: "refresh_by_hash (id ''t1'') (demo_sessions None) = Some \<lparr>rf_id = ''r1'', rf_user = ''u1'', rf_hash = ''t1'', rf_expires = 1000, rf_revoked = None\<rparr>"
    by (simp add: refresh_by_hash_def demo_sessions_def)
  have le: "(50 :: int) \<le> 50" by simp
  from reuse_detected [OF r wf le demo_body h, of demo_fresh 70 "''q''"] show ?thesis unfolding refresh_row.simps by blast
qed

text \<open>The state when a second request finds its token used between the rotation and the insert of the first.\<close>

definition race_db :: "(string \<Rightarrow> string) \<Rightarrow> fresh \<Rightarrow> int \<Rightarrow> refresh_row \<Rightarrow> 'z session_db_scheme \<Rightarrow> 'z session_db_scheme" where
  "race_db sha f now r db = snd (INSERT_SESSION (new_refresh sha f now (rf_user r)) (new_access sha f now (rf_user r))
     (REVOKE_ALL (rf_user r) now (snd (ROTATE_REFRESH (rf_id r) now db))))"

text \<open>The notice can be missed. Rotating a token and inserting its successor are two statements. When a
  second request with the same token runs between them, it revokes all sessions of the user, but the
  successor is inserted afterwards: the first request, which may be the thief's, keeps a session that
  authenticates.\<close>

theorem reuse_race:
  assumes "r \<in> set (refresh_tokens db)" and "rf_revoked r = None" and "now \<le> c"
    and "map_of (users db) (rf_user r) \<noteq> None"
    and "\<forall>q \<in> set (refresh_tokens db). rf_id q \<noteq> fr_refresh_id f \<and> rf_hash q \<noteq> sha (fr_refresh f)"
    and "\<forall>a \<in> set (access_tokens db). ac_id a \<noteq> fr_access_id f \<and> ac_hash a \<noteq> sha (fr_access f)"
    and "\<not> dev_login env (fr_access f)"
  shows "run session_step (c, db) [Rotated (rf_id r), Quiet, Quiet] (c, race_db sha f now r db)
    \<and> (\<exists>u. fst (resolveUser sha env now (fr_access f) (race_db sha f now r db)) = Inr u)"
proof -
  let ?u = "rf_user r" and ?db1 = "snd (ROTATE_REFRESH (rf_id r) now db)"
  let ?db2 = "REVOKE_ALL ?u now ?db1" and ?nr = "new_refresh sha f now ?u" and ?na = "new_access sha f now ?u"
  have won: "fst (ROTATE_REFRESH (rf_id r) now db)" using assms(1,2) by (auto simp: ROTATE_REFRESH_def Let_def filter_empty_conv)
  have s1: "session_step (c, db) (Rotated (rf_id r)) (c, ?db1)"
    using S_rotate [OF assms(3), of "rf_id r" db True ?db1] won by (metis prod.collapse)
  have s2: "session_step (c, ?db1) Quiet (c, ?db2)" by (rule S_revoke_all [OF assms(3)])
  have s3: "session_step (c, ?db2) Quiet (c, race_db sha f now r db)"
    unfolding race_db_def by (rule S_insert [of ?nr ?na]) (simp_all add: new_refresh_def new_access_def prod_eq_iff)
  have users: "users ?db2 = users db" by (simp add: REVOKE_ALL_def ROTATE_REFRESH_def Let_def)
  have free: "\<not> (\<exists>x \<in> set (refresh_tokens ?db2). rf_id x = rf_id ?nr \<or> rf_hash x = rf_hash ?nr)"
      "\<not> (\<exists>x \<in> set (access_tokens ?db2). ac_id x = ac_id ?na \<or> ac_hash x = ac_hash ?na)"
    using assms(5,6) by (auto simp: REVOKE_ALL_def ROTATE_REFRESH_def Let_def in_revoke in_expire new_refresh_def new_access_def split: if_splits)
  have ins: "race_db sha f now r db = ?db2\<lparr>refresh_tokens := refresh_tokens ?db2 @ [?nr], access_tokens := access_tokens ?db2 @ [?na]\<rparr>"
    using free assms(4) by (simp add: race_db_def INSERT_SESSION_def users new_refresh_def)
  have "find (\<lambda>a. ac_hash a = sha (fr_access f)) (access_tokens ?db2) = None"
    using free(2) by (auto simp: find_None_iff new_access_def)
  then have "token_row (sha (fr_access f)) (race_db sha f now r db) = map_option (Pair ?na) (map_of (users db) ?u)"
    by (simp add: token_row_def ins find_snoc users new_access_def)
  moreover have "\<not> ac_expires ?na < now" by (simp add: new_access_def ACCESS_TTL_def)
  ultimately have "\<exists>u. fst (resolveUser sha env now (fr_access f) (race_db sha f now r db)) = Inr u"
    using assms(4) by (auto simp: resolveUser_token [OF assms(7)])
  with run_append [OF run_two [of session_step, OF s2 s3] run_single [of session_step, OF s1]] show ?thesis by simp
qed

theorem reuse_race_witness:
  "\<exists>u. fst (resolveUser id (\<lambda>_. None) 30 ''x2''
     (race_db id demo_fresh 30 \<lparr>rf_id = ''r1'', rf_user = ''u1'', rf_hash = ''t1'', rf_expires = 1000, rf_revoked = None\<rparr> (demo_sessions None))) = Inr u"
  using reuse_race [of "\<lparr>rf_id = ''r1'', rf_user = ''u1'', rf_hash = ''t1'', rf_expires = 1000, rf_revoked = None\<rparr>"
      "demo_sessions None" 30 50 demo_fresh id "\<lambda>_. None"]
  by (simp add: demo_sessions_def demo_fresh_def dev_login_def)

end
