(* ===== verification/Core_Limit.thy ===== *)
theory Core_Limit
  imports Core_Http
begin

text \<open>
  \<open>services/core-api/src/ratelimit.ts\<close>: the requests of a bucket in a minute are counted in the table
  \<open>rate_limits\<close>; when the statement fails, in the memory of the isolate. Times are milliseconds since
  the epoch, and the table maps a bucket to its hits and its expiry in seconds.
\<close>

record limiter =
  lm_rows :: "string \<Rightarrow> (int \<times> int) option"
  lm_memory :: "(string, int) jsmap"
  lm_window :: int

definition resetLimits :: "'z limiter_scheme \<Rightarrow> 'z limiter_scheme" where
  "resetLimits s = s\<lparr>lm_memory := [], lm_window := -1\<rparr>"

definition CONSUME_SQL :: "string \<Rightarrow> int \<Rightarrow> int \<Rightarrow> 'z limiter_scheme \<Rightarrow> int option \<times> 'z limiter_scheme" where
  "CONSUME_SQL bucket expires limit s =
     (case lm_rows s bucket of
        None \<Rightarrow> (Some 1, s\<lparr>lm_rows := (lm_rows s)(bucket \<mapsto> (1, expires))\<rparr>)
      | Some (hits, e) \<Rightarrow>
          if hits < limit then (Some (hits + 1), s\<lparr>lm_rows := (lm_rows s)(bucket \<mapsto> (hits + 1, e))\<rparr>) else (None, s))"

definition memoryAllow :: "string \<Rightarrow> int \<Rightarrow> int \<Rightarrow> 'z limiter_scheme \<Rightarrow> bool \<times> 'z limiter_scheme" where
  "memoryAllow bucket limit window s =
     (let s1 = (if window \<noteq> lm_window s then s\<lparr>lm_memory := [], lm_window := window\<rparr> else s);
          hits = (case jm_get (lm_memory s1) bucket of None \<Rightarrow> 0 | Some n \<Rightarrow> n) in
      if limit \<le> hits then (False, s1) else (True, s1\<lparr>lm_memory := jm_set bucket (hits + 1) (lm_memory s1)\<rparr>))"

text \<open>\<open>ok\<close> says whether the database answered.\<close>

definition allow_window :: "int \<Rightarrow> int" where
  "allow_window now = now div 60000"

definition allow_bucket :: "string \<Rightarrow> string \<Rightarrow> int \<Rightarrow> string" where
  "allow_bucket kind key now = kind @ '':'' @ or_else key ''unknown'' @ '':'' @ int_dec (allow_window now)"

definition allow :: "bool \<Rightarrow> string \<Rightarrow> string \<Rightarrow> int \<Rightarrow> int \<Rightarrow> 'z limiter_scheme \<Rightarrow> bool \<times> 'z limiter_scheme" where
  "allow ok kind key limit now s =
     (let window = allow_window now; bucket = allow_bucket kind key now in
      if ok then (case CONSUME_SQL bucket (window * 60 + 120) limit s of
          (None, s1) \<Rightarrow> (False, s1)
        | (Some hits, s1) \<Rightarrow> (hits \<le> limit, s1))
      else memoryAllow bucket limit window s)"

subsection \<open>How many requests get through\<close>

definition db_used :: "string \<Rightarrow> 'z limiter_scheme \<Rightarrow> int" where
  "db_used b s = (case lm_rows s b of None \<Rightarrow> 0 | Some (h, _) \<Rightarrow> h)"

definition memory_used :: "int \<Rightarrow> string \<Rightarrow> 'z limiter_scheme \<Rightarrow> int" where
  "memory_used w b s = (if lm_window s = w then (case jm_get (lm_memory s) b of None \<Rightarrow> 0 | Some n \<Rightarrow> n) else 0)"

lemma get_set: "jm_get (jm_set k v m) j = (if j = k then Some v else jm_get m j)"
  by (simp add: jm_get_def jm_set_def update_conv')

lemma get_empty: "jm_get [] k = None"
  by (simp add: jm_get_def)

lemma allow_counts:
  assumes "allow ok kind key limit now s = (b, s')" and "1 \<le> limit"
    and "db_used (allow_bucket kind key now) s \<le> limit" and "memory_used (allow_window now) (allow_bucket kind key now) s \<le> limit"
  shows "db_used (allow_bucket kind key now) s' = db_used (allow_bucket kind key now) s + (if b \<and> ok then 1 else 0)
    \<and> memory_used (allow_window now) (allow_bucket kind key now) s' = memory_used (allow_window now) (allow_bucket kind key now) s + (if b \<and> \<not> ok then 1 else 0)
    \<and> b = ((if ok then db_used (allow_bucket kind key now) s else memory_used (allow_window now) (allow_bucket kind key now) s) < limit)"
proof (cases ok)
  case True
  with assms show ?thesis
    by (cases "lm_rows s (allow_bucket kind key now)")
      (auto simp: allow_def Let_def CONSUME_SQL_def db_used_def memory_used_def split: if_splits prod.splits)
next
  case False
  with assms show ?thesis
    by (auto simp: allow_def Let_def memoryAllow_def db_used_def memory_used_def get_set get_empty split: if_splits option.splits)
qed

text \<open>A sequence of requests of one bucket: whether the database answered, and the time.\<close>

fun allow_all :: "string \<Rightarrow> string \<Rightarrow> int \<Rightarrow> (bool \<times> int) list \<Rightarrow> 'z limiter_scheme \<Rightarrow> bool list \<times> 'z limiter_scheme" where
  "allow_all kind key limit [] s = ([], s)"
| "allow_all kind key limit ((ok, now) # calls) s =
     (case allow ok kind key limit now s of (b, s1) \<Rightarrow>
       (case allow_all kind key limit calls s1 of (bs, s2) \<Rightarrow> (b # bs, s2)))"

definition passed :: "bool list \<Rightarrow> int" where
  "passed bs = int (length (filter (\<lambda>b. b) bs))"

lemma allow_all_counts:
  assumes "\<forall>c \<in> set calls. allow_window (snd c) = w" and "1 \<le> limit"
    and "B = kind @ '':'' @ or_else key ''unknown'' @ '':'' @ int_dec w"
    and "db_used B s \<le> limit" and "memory_used w B s \<le> limit" and "allow_all kind key limit calls s = (bs, s')"
  shows "passed bs = (db_used B s' - db_used B s) + (memory_used w B s' - memory_used w B s)
    \<and> db_used B s' \<le> limit \<and> memory_used w B s' \<le> limit
    \<and> (list_all fst calls \<longrightarrow> memory_used w B s' = memory_used w B s
        \<and> db_used B s' = min limit (db_used B s + int (length calls)))"
  using assms
proof (induction calls arbitrary: s bs)
  case Nil
  then show ?case by (simp add: passed_def)
next
  case (Cons c calls)
  obtain ok now where c: "c = (ok, now)" by (cases c)
  obtain b s1 where a: "allow ok kind key limit now s = (b, s1)" by fastforce
  obtain bs1 where r: "allow_all kind key limit calls s1 = (bs1, s')" and bs: "bs = b # bs1"
    using Cons.prems(6) c a by (auto split: prod.splits)
  have w: "allow_window now = w" and B: "allow_bucket kind key now = B" using Cons.prems(1,3) c by (simp_all add: allow_bucket_def)
  from allow_counts [OF a Cons.prems(2)] Cons.prems(4,5)
  have d: "db_used B s1 = db_used B s + (if b \<and> ok then 1 else 0)" "memory_used w B s1 = memory_used w B s + (if b \<and> \<not> ok then 1 else 0)"
      "b = ((if ok then db_used B s else memory_used w B s) < limit)" by (simp_all add: w B)
  have "db_used B s1 \<le> limit" "memory_used w B s1 \<le> limit" using d Cons.prems(4,5) by auto
  from Cons.IH [OF _ Cons.prems(2,3) this r] Cons.prems(1) c d show ?case
    by (auto simp: bs passed_def min_def)
qed

text \<open>The limit of a minute. Of the requests of one bucket in one minute, started on a fresh table and a
  fresh isolate, exactly the first \<open>limit\<close> get through while the database answers. When it sometimes
  does not, at most \<open>limit\<close> more get through, counted by the isolate itself.\<close>

theorem allow_bounded:
  assumes "\<forall>c \<in> set calls. allow_window (snd c) = w" and "1 \<le> limit" and "lm_rows s = (\<lambda>_. None)" and "lm_memory s = []"
  shows "passed (fst (allow_all kind key limit calls s)) \<le> 2 * limit
    \<and> (list_all fst calls \<longrightarrow> passed (fst (allow_all kind key limit calls s)) = min limit (int (length calls)))"
proof -
  define B where "B = kind @ '':'' @ or_else key ''unknown'' @ '':'' @ int_dec w"
  have z: "db_used B s = 0" "memory_used w B s = 0" using assms(3,4) by (simp_all add: db_used_def memory_used_def jm_get_def)
  obtain bs s' where r: "allow_all kind key limit calls s = (bs, s')" by fastforce
  from allow_all_counts [OF assms(1,2) B_def _ _ r] assms(2) z show ?thesis by (auto simp: r)
qed

theorem allow_bounded_witness:
  "passed (fst (allow_all ''ip'' ''h'' 2 [(True, 5), (True, 6), (True, 7)] \<lparr>lm_rows = (\<lambda>_. None), lm_memory = [], lm_window = -1\<rparr>)) = 2"
  using allow_bounded [of "[(True, 5), (True, 6), (True, 7)]" 0 2 "\<lparr>lm_rows = (\<lambda>_. None), lm_memory = [], lm_window = -1\<rparr>" "''ip''" "''h''"]
  by (simp add: allow_window_def)

end
