(* ===== verification/Idempotency.thy ===== *)
theory Idempotency
  imports Sessions Core_Limit "HOL-Library.Char_ord" "HOL-Library.List_Lexorder"
begin

text \<open>
  \<open>idempotent\<close> of \<open>services/core-api/src/handler.ts\<close>: a POST carries a key; the first request with it
  runs the handler and keeps the answer, later ones replay it. The handler is a program on the
  tables, the argument \<open>work\<close>. A row keeps the bytes of the body; the driver delivers them as bytes
  or in the hexadecimal text form of the database (\<open>db_bytes\<close>), and the headers as JSON or its text
  (\<open>db_json\<close>). \<open>ids\<close> are the random identifiers of the rounds. \<open>saved\<close> says whether the statement that
  keeps the answer succeeds.
\<close>

record idem_row =
  ik_id :: string
  ik_user :: string
  ik_path :: string
  ik_key :: string
  ik_hash :: string
  ik_at :: int
  ik_status :: "int option"
  ik_body :: string
  ik_headers :: "(string \<times> string) list"

record core_db = auth_db +
  limiter :: limiter
  idem :: "idem_row list"

definition PENDING_MS :: int where "PENDING_MS = 5 * 60 * 1000"

subsection \<open>Stored bodies and headers\<close>

datatype stored_body = Bytes string | Text string | No_Body

text \<open>\<open>Number.parseInt(s, 16)\<close> put into a \<open>Uint8Array\<close>: 0 when there is no digit.\<close>

definition parse_byte :: "string \<Rightarrow> char" where
  "parse_byte s =
     (let t = trimStart s; neg = startsWith t ''-'';
          u = (if neg \<or> startsWith t ''+'' then tl t else t);
          v = (if startsWith (toLowerCase u) ''0x'' then drop 2 u else u);
          n = int (radix_val 16 (takeWhile is_hex v))
      in char_of (nat ((if neg then - n else n) mod 256)))"

fun hex_pairs :: "string \<Rightarrow> string" where
  "hex_pairs (a # b # r) = parse_byte [a, b] # hex_pairs r"
| "hex_pairs _ = []"

definition bodyOf :: "stored_body \<Rightarrow> body" where
  "bodyOf v = (case v of
       Bytes b \<Rightarrow> BOpaque b
     | Text s \<Rightarrow> if startsWith s [CHR 0x5C, CHR ''x''] then BOpaque (hex_pairs (drop 2 s)) else BText (widen s)
     | No_Body \<Rightarrow> BText [])"

definition parseHeaders :: "(string \<Rightarrow> jv option) \<Rightarrow> jv \<Rightarrow> (string \<times> string) list" where
  "parseHeaders jp v = (case (case v of JStr s \<Rightarrow> jp s | w \<Rightarrow> Some w) of
       Some (JArr items) \<Rightarrow> List.map_filter (\<lambda>i. case i of JArr (a # b # _) \<Rightarrow> Some (js_String a, js_String b) | _ \<Rightarrow> None) items
     | _ \<Rightarrow> [])"

text \<open>The bytes of a response body; a text is encoded in UTF-8, a lone surrogate as U+FFFD.\<close>

definition utf8_unit :: "nat \<Rightarrow> string" where
  "utf8_unit n = map char_of
     (if n < 128 then [n] else if n < 2048 then [192 + n div 64, 128 + n mod 64]
      else if 55296 \<le> n \<and> n \<le> 57343 then [239, 191, 189]
      else [224 + n div 4096, 128 + n div 64 mod 64, 128 + n mod 64])"

fun utf8 :: "ustr \<Rightarrow> string" where
  "utf8 [] = []"
| "utf8 (u # r) =
     (case r of
        v # r' \<Rightarrow> if is_high u \<and> is_low v then
            (let n = 65536 + (unat u - 55296) * 1024 + (unat v - 56320) in
             map char_of [240 + n div 262144, 128 + n div 4096 mod 64, 128 + n div 64 mod 64, 128 + n mod 64] @ utf8 r')
          else utf8_unit (unat u) @ utf8 r
      | [] \<Rightarrow> utf8_unit (unat u))"

definition body_bytes :: "body \<Rightarrow> string" where
  "body_bytes b = (case b of BOpaque s \<Rightarrow> s | _ \<Rightarrow> utf8 (text_of b))"

text \<open>\<open>[...headers.entries()]\<close>: in the order of the names.\<close>

definition header_entries :: "(string, string) jsmap \<Rightarrow> (string \<times> string) list" where
  "header_entries hs = sort_key fst hs"

subsection \<open>Statements\<close>

definition same_request :: "string \<Rightarrow> string \<Rightarrow> string \<Rightarrow> idem_row \<Rightarrow> bool" where
  "same_request u path key r \<longleftrightarrow> ik_user r = u \<and> ik_path r = path \<and> ik_key r = key"

definition INSERT_KEY :: "idem_row \<Rightarrow> ('z core_db_scheme, bool) core_prog" where
  "INSERT_KEY r db =
     (if map_of (users db) (ik_user r) = None then (Inl missing_user, db)
      else if list_ex (same_request (ik_user r) (ik_path r) (ik_key r)) (idem db) then (Inr False, db)
      else if list_ex (\<lambda>x. ik_id x = ik_id r) (idem db) then (Inl duplicate_row, db)
      else (Inr True, db\<lparr>idem := idem db @ [r]\<rparr>))"

definition EXISTING_KEY :: "string \<Rightarrow> string \<Rightarrow> string \<Rightarrow> 'z core_db_scheme \<Rightarrow> idem_row option" where
  "EXISTING_KEY u path key db = find (same_request u path key) (idem db)"

definition DELETE_PENDING :: "string \<Rightarrow> 'z core_db_scheme \<Rightarrow> 'z core_db_scheme" where
  "DELETE_PENDING i db = db\<lparr>idem := filter (\<lambda>r. \<not> (ik_id r = i \<and> ik_status r = None)) (idem db)\<rparr>"

definition KEEP_ANSWER :: "string \<Rightarrow> int \<Rightarrow> string \<Rightarrow> (string \<times> string) list \<Rightarrow> 'z core_db_scheme \<Rightarrow> 'z core_db_scheme" where
  "KEEP_ANSWER i status bytes hs db =
     db\<lparr>idem := map (\<lambda>r. if ik_id r = i then r\<lparr>ik_status := Some status, ik_body := bytes, ik_headers := hs\<rparr> else r) (idem db)\<rparr>"

subsection \<open>The layer\<close>

definition no_body_status :: "int \<Rightarrow> bool" where
  "no_body_status st \<longleftrightarrow> st = 204 \<or> st = 205 \<or> st = 304"

definition key_missing :: "string \<Rightarrow> response" where
  "key_missing rid = errorDetails 400 ''VALIDATION_ERROR'' ''must be a UUID'' rid (JObj [(''field'', JStr ''Idempotency-Key'')])"

definition internal_response :: "string \<Rightarrow> response" where
  "internal_response rid = errorResponse 500 ''INTERNAL'' ''internal error'' rid"

definition conflict_response :: "string \<Rightarrow> response" where
  "conflict_response rid = errorResponse 409 ''IDEMPOTENCY_CONFLICT'' ''idempotency key conflict'' rid"

definition replay :: "(string \<Rightarrow> jv option) \<Rightarrow> (string \<Rightarrow> stored_body) \<Rightarrow> ((string \<times> string) list \<Rightarrow> jv) \<Rightarrow> idem_row \<Rightarrow> int \<Rightarrow> response" where
  "replay jp db_bytes db_json r status =
     (let hs = headers_of (parseHeaders jp (db_json (ik_headers r)));
          hs1 = (if list_ex (\<lambda>k. toLowerCase k = ''content-type'') (jm_keys hs) then hs
                 else jm_set ''content-type'' ''application/json; charset=utf-8'' hs) in
      \<lparr>rs_status = status, rs_headers = hs1, rs_body = (if no_body_status status then BNone else bodyOf (db_bytes (ik_body r)))\<rparr>)"

definition is_stale :: "int \<Rightarrow> idem_row \<Rightarrow> bool" where
  "is_stale now r \<longleftrightarrow> ik_status r = None \<and> PENDING_MS < now - ik_at r"

definition new_key_row :: "string \<Rightarrow> string \<Rightarrow> string \<Rightarrow> string \<Rightarrow> string \<Rightarrow> int \<Rightarrow> idem_row" where
  "new_key_row i u path key hash now = \<lparr>ik_id = i, ik_user = u, ik_path = path, ik_key = key, ik_hash = hash, ik_at = now,
     ik_status = None, ik_body = [], ik_headers = []\<rparr>"

definition run_and_keep ::
  "bool \<Rightarrow> (request \<Rightarrow> ('z core_db_scheme, response) core_prog) \<Rightarrow> string \<Rightarrow> request \<Rightarrow> string \<Rightarrow> ('z core_db_scheme, response) core_prog" where
  "run_and_keep saved work i rq rid db =
     (case work rq db of
        (Inl x, db1) \<Rightarrow> (Inr (response_of x rid), DELETE_PENDING i db1)
      | (Inr rs, db1) \<Rightarrow>
          if rs_status rs < 200 \<or> 300 \<le> rs_status rs then (Inr rs, DELETE_PENDING i db1)
          else (let bytes = (if no_body_status (rs_status rs) then [] else body_bytes (rs_body rs)) in
            (Inr (rs\<lparr>rs_body := (if no_body_status (rs_status rs) then BNone else BOpaque bytes)\<rparr>),
             if saved then KEEP_ANSWER i (rs_status rs) bytes (header_entries (rs_headers rs)) db1 else db1)))"

text \<open>The insert with its \<open>catch\<close>: \<open>None\<close> when the failure is not a duplicate.\<close>

definition claim_key :: "idem_row \<Rightarrow> 'z core_db_scheme \<Rightarrow> bool option \<times> 'z core_db_scheme" where
  "claim_key r db = (case INSERT_KEY r db of
       (Inl x, db1) \<Rightarrow> (if isUnique x then Some False else None, db1)
     | (Inr b, db1) \<Rightarrow> (Some b, db1))"

text \<open>A round without an identifier left does not occur, see below.\<close>

definition out_of_ids :: core_exn where
  "out_of_ids = Thrown ''no identifier''"

fun idempotent ::
  "(string \<Rightarrow> jv option) \<Rightarrow> (string \<Rightarrow> stored_body) \<Rightarrow> ((string \<times> string) list \<Rightarrow> jv) \<Rightarrow> (string \<Rightarrow> string) \<Rightarrow> bool
     \<Rightarrow> (request \<Rightarrow> ('z core_db_scheme, response) core_prog) \<Rightarrow> string list \<Rightarrow> string \<Rightarrow> int \<Rightarrow> request \<Rightarrow> string
     \<Rightarrow> ('z core_db_scheme, response) core_prog" where
  "idempotent jp db_bytes db_json sha saved work [] u now rq rid db =
     (case parseUuid (header rq ''idempotency-key'') of None \<Rightarrow> (Inr (key_missing rid), db) | Some key \<Rightarrow> (Inl out_of_ids, db))"
| "idempotent jp db_bytes db_json sha saved work (i # ids) u now rq rid db =
     (case parseUuid (header rq ''idempotency-key'') of
        None \<Rightarrow> (Inr (key_missing rid), db)
      | Some key \<Rightarrow>
        (case claim_key (new_key_row i u (rq_path rq) key (sha (rq_body rq)) now) db of
           (None, db1) \<Rightarrow> (Inr (internal_response rid), db1)
         | (Some True, db1) \<Rightarrow> run_and_keep saved work i rq rid db1
         | (Some False, db1) \<Rightarrow>
             (case EXISTING_KEY u (rq_path rq) key db1 of
                None \<Rightarrow> (Inr (internal_response rid), db1)
              | Some r \<Rightarrow>
                  if is_stale now r then idempotent jp db_bytes db_json sha saved work ids u now rq rid (DELETE_PENDING (ik_id r) db1)
                  else (case ik_status r of
                      None \<Rightarrow> (Inr (conflict_response rid), db1)
                    | Some st \<Rightarrow> if ik_hash r \<noteq> sha (rq_body rq) then (Inr (conflict_response rid), db1)
                        else (Inr (replay jp db_bytes db_json r st), db1)))))"

subsection \<open>What is stored comes back\<close>

lemma hex_digit_facts: "n < 16 \<Longrightarrow> hex_val (hex_digit n) = n \<and> is_hex (hex_digit n) \<and> \<not> js_space (hex_digit n)
    \<and> hex_digit n \<noteq> CHR ''-'' \<and> hex_digit n \<noteq> CHR ''+'' \<and> lower_char (hex_digit n) \<noteq> CHR ''x''"
proof -
  have c: "code_unit (hex_digit n) = (if n < 10 then 48 + n else 87 + n)" if "n < 16"
    using that by (simp add: hex_digit_def of_char_of take_bit_nat_eq_self)
  have other: "hex_digit n \<noteq> d" if "n < 16" "code_unit d \<in> {43, 45, 120}" for d
    using c [OF that(1)] that by (auto split: if_splits)
  assume "n < 16"
  moreover from this have "lower_char (hex_digit n) = hex_digit n" by (simp add: lower_char_def c)
  ultimately show ?thesis
    using other [of "CHR ''-''"] other [of "CHR ''+''"] other [of "CHR ''x''"]
    by (auto simp: c hex_val_def is_hex_def is_hex_lower_def is_digit_def js_space_def)
qed

lemma parse_hex_byte: "parse_byte (hex_byte c) = c"
proof -
  let ?a = "hex_digit (code_unit c div 16)" and ?b = "hex_digit (code_unit c mod 16)"
  have lt: "code_unit c div 16 < 16" "code_unit c mod 16 < 16" using code_unit_less [of c] by (linarith, simp)
  note a = hex_digit_facts [OF lt(1)] and b = hex_digit_facts [OF lt(2)]
  have "radix_val 16 [?a, ?b] = code_unit c" using a b by (simp add: radix_val_def)
  moreover have "int (code_unit c) mod 256 = int (code_unit c)" using code_unit_less [of c] by simp
  moreover have "trimStart [?a, ?b] = [?a, ?b]" "takeWhile is_hex [?a, ?b] = [?a, ?b]" using a b by (simp_all add: trimStart_def)
  moreover have "\<not> startsWith [?a, ?b] ''-''" "\<not> startsWith [?a, ?b] ''+''" "\<not> startsWith (toLowerCase [?a, ?b]) ''0x''"
    using a b by (simp_all add: startsWith_def toLowerCase_def)
  ultimately show ?thesis unfolding hex_byte_def parse_byte_def Let_def by simp
qed

lemma hex_pairs_to_hex: "hex_pairs (to_hex b) = b"
proof (induction b)
  case (Cons c b)
  then show ?case using parse_hex_byte [of c] by (simp add: to_hex_def hex_byte_def)
qed (simp add: to_hex_def)

text \<open>How the driver delivers a stored body and stored headers.\<close>

definition headers_json :: "(string \<times> string) list \<Rightarrow> jv" where
  "headers_json hs = JArr (map (\<lambda>(k, v). JArr [JStr k, JStr v]) hs)"

definition delivers :: "(string \<Rightarrow> jv option) \<Rightarrow> (string \<Rightarrow> stored_body) \<Rightarrow> ((string \<times> string) list \<Rightarrow> jv) \<Rightarrow> bool" where
  "delivers jp db_bytes db_json \<longleftrightarrow>
     (\<forall>b. db_bytes b = Bytes b \<or> db_bytes b = Text ([CHR 0x5C, CHR ''x''] @ to_hex b))
     \<and> (\<forall>hs. db_json hs = headers_json hs \<or> (\<exists>t. db_json hs = JStr t \<and> jp t = Some (headers_json hs)))"

lemma delivered_body: "delivers jp db_bytes db_json \<Longrightarrow> bodyOf (db_bytes b) = BOpaque b"
proof -
  assume "delivers jp db_bytes db_json"
  then consider "db_bytes b = Bytes b" | "db_bytes b = Text ([CHR 0x5C, CHR ''x''] @ to_hex b)" unfolding delivers_def by blast
  then show ?thesis by cases (simp_all add: bodyOf_def hex_pairs_to_hex)
qed

lemma parsed_pairs: "List.map_filter (\<lambda>i. case i of JArr (a # b # _) \<Rightarrow> Some (js_String a, js_String b) | _ \<Rightarrow> None)
    (map (\<lambda>(k, v). JArr [JStr k, JStr v]) hs) = hs"
  by (induction hs) (auto simp: map_filter_def)

lemma delivered_headers: "delivers jp db_bytes db_json \<Longrightarrow> parseHeaders jp (db_json hs) = hs"
proof -
  assume "delivers jp db_bytes db_json"
  then consider "db_json hs = headers_json hs" | t where "db_json hs = JStr t" "jp t = Some (headers_json hs)"
    unfolding delivers_def by blast
  then show ?thesis by cases (simp_all add: parseHeaders_def headers_json_def parsed_pairs)
qed

lemma get_fold_set: "distinct (map fst kvs) \<Longrightarrow> jm_get (fold (\<lambda>(k, v) m. jm_set k v m) kvs m) n =
    (case map_of kvs n of None \<Rightarrow> jm_get m n | Some v \<Rightarrow> Some v)"
proof (induction kvs arbitrary: m)
  case (Cons kv kvs)
  obtain k v where kv: "kv = (k, v)" by (cases kv)
  show ?case
  proof (cases "n = k")
    case True
    with Cons.prems kv have "map_of kvs n = None" by (auto simp: map_of_eq_None_iff)
    with True show ?thesis using Cons kv by (simp add: get_set)
  next
    case False
    with Cons kv show ?thesis by (simp add: get_set split: option.split)
  qed
qed simp

lemma headers_back: "jm_wf hs \<Longrightarrow> jm_get (headers_of (header_entries hs)) n = jm_get hs n"
proof -
  assume wf: "jm_wf hs"
  have d: "distinct (map fst (header_entries hs))"
    using wf by (simp add: header_entries_def jm_wf_def distinct_map inj_on_def)
  have "map_of (header_entries hs) = map_of hs"
    using map_of_inject_set [OF d] wf by (simp add: header_entries_def jm_wf_def)
  then show ?thesis
    using d by (simp add: headers_of_def get_fold_set get_empty jm_get_def [of hs] split: option.split)
qed

subsection \<open>One answer per key\<close>

definition idem_wf :: "'z core_db_scheme \<Rightarrow> bool" where
  "idem_wf db \<longleftrightarrow> distinct (map ik_id (idem db)) \<and> distinct (map (\<lambda>r. (ik_user r, ik_path r, ik_key r)) (idem db))"

text \<open>A handler that leaves the keys alone.\<close>

definition leaves_keys :: "(request \<Rightarrow> ('z core_db_scheme, response) core_prog) \<Rightarrow> bool" where
  "leaves_keys work \<longleftrightarrow> (\<forall>rq db. idem (snd (work rq db)) = idem db)"

lemma leaves_keysD: "leaves_keys work \<Longrightarrow> work rq db = (res, db') \<Longrightarrow> idem db' = idem db"
  unfolding leaves_keys_def by (metis snd_conv)

lemma existing_none: "EXISTING_KEY u path key db = None \<longleftrightarrow> \<not> list_ex (same_request u path key) (idem db)"
  by (auto simp: EXISTING_KEY_def find_None_iff list_ex_iff)

lemma claim_key_cases:
  "claim_key r db =
     (if map_of (users db) (ik_user r) = None then (None, db)
      else if EXISTING_KEY (ik_user r) (ik_path r) (ik_key r) db \<noteq> None \<or> ik_id r \<in> ik_id ` set (idem db) then (Some False, db)
      else (Some True, db\<lparr>idem := idem db @ [r]\<rparr>))"
proof -
  have "isUnique duplicate_row" by (simp add: isUnique_def duplicate_row_def exn_code_def)
  moreover have "\<not> isUnique missing_user" by (simp add: isUnique_def missing_user_def exn_code_def exn_text_def exn_message_def js_defs)
  ultimately show ?thesis
    by (auto simp: claim_key_def INSERT_KEY_def existing_none list_ex_iff intro: rev_image_eqI)
qed

lemma same_new_key: "same_request u path key (new_key_row i u path key hash now)"
  by (simp add: same_request_def new_key_row_def)

lemma find_last: "find P xs = None \<Longrightarrow> find P (xs @ [x]) = (if P x then Some x else None)"
  by (simp add: find_snoc)

text \<open>The answer again: the same status and body, and every header, save a content type that was missing.\<close>

definition same_answer :: "response \<Rightarrow> response \<Rightarrow> bool" where
  "same_answer rs rs' \<longleftrightarrow> rs_status rs' = rs_status rs \<and> rs_body rs' = rs_body rs
     \<and> (\<forall>n. jm_get (rs_headers rs) n \<noteq> None \<or> n \<noteq> ''content-type'' \<longrightarrow> jm_get (rs_headers rs') n = jm_get (rs_headers rs) n)"

lemma keys_headers: "jm_wf hs \<Longrightarrow> set (jm_keys (headers_of (header_entries hs))) = {n. jm_get hs n \<noteq> None}"
proof -
  assume wf: "jm_wf hs"
  have "k \<in> set (jm_keys m) \<longleftrightarrow> jm_get m k \<noteq> None" for k and m :: "(string, string) jsmap"
    by (force simp: jm_keys_def jm_get_def map_of_eq_None_iff)
  with headers_back [OF wf] show ?thesis by auto
qed

lemma replay_same:
  assumes "delivers jp db_bytes db_json" and "jm_wf (rs_headers rs)"
    and "ik_headers r = header_entries (rs_headers rs)"
    and "rs_body rs = (if no_body_status (rs_status rs) then BNone else BOpaque (ik_body r))"
    and lower: "\<forall>n. toLowerCase n = ''content-type'' \<longrightarrow> jm_get (rs_headers rs) n \<noteq> None \<longrightarrow> n = ''content-type''"
  shows "same_answer rs (replay jp db_bytes db_json r (rs_status rs))"
proof -
  let ?hs = "headers_of (header_entries (rs_headers rs))"
  have ct: "toLowerCase ''content-type'' = ''content-type''" by (simp add: js_defs)
  have ex: "list_ex (\<lambda>k. toLowerCase k = ''content-type'') (jm_keys ?hs) \<longleftrightarrow> jm_get (rs_headers rs) ''content-type'' \<noteq> None"
    using lower ct unfolding list_ex_iff keys_headers [OF assms(2)] by blast
  show ?thesis
    using assms(4) unfolding same_answer_def replay_def Let_def assms(3) delivered_headers [OF assms(1)] ex
    by (auto simp: get_set headers_back [OF assms(2)] delivered_body [OF assms(1)])
qed

text \<open>A POST with a fresh key that was answered with success is answered the same again, at whatever later
  time, and the second time nothing changes.\<close>

lemma answered_again:
  assumes "idem_wf db" and "leaves_keys work" and "delivers jp db_bytes db_json"
    and "parseUuid (header rq ''idempotency-key'') = Some key" and "map_of (users db) u \<noteq> None"
    and "EXISTING_KEY u (rq_path rq) key db = None" and "i \<notin> ik_id ` set (idem db)"
    and "work rq (db\<lparr>idem := idem db @ [new_key_row i u (rq_path rq) key (sha (rq_body rq)) now]\<rparr>) = (Inr rs, db1)"
    and "200 \<le> rs_status rs" and "rs_status rs < 300" and "jm_wf (rs_headers rs)"
    and "\<forall>n. toLowerCase n = ''content-type'' \<longrightarrow> jm_get (rs_headers rs) n \<noteq> None \<longrightarrow> n = ''content-type''"
    and "map_of (users db1) u \<noteq> None"
  shows "\<exists>first db2 second. idempotent jp db_bytes db_json sha True work (i # ids) u now rq rid db = (Inr first, db2)
    \<and> rs_status first = rs_status rs \<and> rs_headers first = rs_headers rs
    \<and> idempotent jp db_bytes db_json sha True work' (j # ids') u later rq rid' (db2\<lparr>limiter := l\<rparr>) = (Inr second, db2\<lparr>limiter := l\<rparr>)
    \<and> same_answer first second"
proof -
  let ?row = "new_key_row i u (rq_path rq) key (sha (rq_body rq)) now"
  let ?bytes = "if no_body_status (rs_status rs) then [] else body_bytes (rs_body rs)"
  let ?first = "rs\<lparr>rs_body := (if no_body_status (rs_status rs) then BNone else BOpaque ?bytes)\<rparr>"
  let ?kept = "?row\<lparr>ik_status := Some (rs_status rs), ik_body := ?bytes, ik_headers := header_entries (rs_headers rs)\<rparr>"
  let ?db2 = "KEEP_ANSWER i (rs_status rs) ?bytes (header_entries (rs_headers rs)) db1"
  have keys: "idem db1 = idem db @ [?row]" using leaves_keysD [OF assms(2,8)] by simp
  have claim: "claim_key ?row db = (Some True, db\<lparr>idem := idem db @ [?row]\<rparr>)"
    using assms(5-7) by (simp add: claim_key_cases new_key_row_def)
  have first: "idempotent jp db_bytes db_json sha True work (i # ids) u now rq rid db = (Inr ?first, ?db2)"
    using assms(4,8-10) by (simp add: claim run_and_keep_def Let_def)
  have others: "map (\<lambda>r. if ik_id r = i then r\<lparr>ik_status := Some (rs_status rs), ik_body := ?bytes, ik_headers := header_entries (rs_headers rs)\<rparr> else r) (idem db) = idem db"
    using assms(7) by (intro map_idI) auto
  have idem2: "idem ?db2 = idem db @ [?kept]"
    using others by (simp add: KEEP_ANSWER_def keys new_key_row_def)
  have users2: "users ?db2 = users db1" by (simp add: KEEP_ANSWER_def)
  have ex2: "EXISTING_KEY u (rq_path rq) key (?db2\<lparr>limiter := l\<rparr>) = Some ?kept"
    using assms(6) by (simp add: EXISTING_KEY_def idem2 find_last same_request_def new_key_row_def)
  have claim2: "claim_key (new_key_row j u (rq_path rq) key (sha (rq_body rq)) later) (?db2\<lparr>limiter := l\<rparr>) = (Some False, ?db2\<lparr>limiter := l\<rparr>)"
    using assms(13) ex2 users2 by (simp add: claim_key_cases new_key_row_def)
  have k: "ik_status ?kept = Some (rs_status rs)" "ik_hash ?kept = sha (rq_body rq)" "\<not> is_stale later ?kept"
    by (simp_all add: new_key_row_def is_stale_def)
  have "idempotent jp db_bytes db_json sha True work' (j # ids') u later rq rid' (?db2\<lparr>limiter := l\<rparr>) =
      (Inr (replay jp db_bytes db_json ?kept (rs_status rs)), ?db2\<lparr>limiter := l\<rparr>)"
    unfolding idempotent.simps assms(4) option.case claim2 prod.case bool.case ex2 if_not_P [OF k(3)] k(1,2) by simp
  moreover have "same_answer ?first (replay jp db_bytes db_json ?kept (rs_status ?first))"
    using assms(3,11,12) by (intro replay_same) simp_all
  ultimately show ?thesis using first by auto
qed

subsection \<open>Refusals, retries and termination\<close>

lemma run_and_keep_answers: "\<exists>rs db'. run_and_keep saved work i rq rid db = (Inr rs, db')"
  by (cases "work rq db") (auto simp: run_and_keep_def Let_def split: sum.split)

lemma delete_other: "i \<notin> ik_id ` set xs \<Longrightarrow> filter (\<lambda>r. \<not> (ik_id r = i \<and> ik_status r = None)) xs = xs"
  by (auto simp: filter_id_conv)

lemma existing_some: "EXISTING_KEY u path key db = Some r \<Longrightarrow> r \<in> set (idem db) \<and> same_request u path key r"
  by (auto simp: EXISTING_KEY_def find_Some_iff)

lemma existing_deleted:
  assumes "idem_wf db" and "EXISTING_KEY u path key db = Some r" and "ik_status r = None"
  shows "EXISTING_KEY u path key (DELETE_PENDING (ik_id r) db) = None"
proof -
  have r: "r \<in> set (idem db)" "same_request u path key r" using existing_some [OF assms(2)] by simp_all
  have "x = r" if "x \<in> set (idem db)" "same_request u path key x" for x
    using assms(1) that r unfolding idem_wf_def distinct_map by (auto simp: same_request_def inj_on_def)
  then show ?thesis
    using assms(3) by (auto simp: existing_none list_ex_iff DELETE_PENDING_def)
qed

text \<open>C38: The layer ends. With two identifiers it always answers, whatever the tables hold: a stale row is
  deleted once, and the next round finds none.\<close>

theorem idempotent_terminates:
  assumes "idem_wf db"
  shows "\<exists>rs db'. idempotent jp db_bytes db_json sha saved work (i # j # ids) u now rq rid db = (Inr rs, db')"
proof (cases "parseUuid (header rq ''idempotency-key'')")
  case None
  then show ?thesis by simp
next
  case (Some key)
  note shown = Some run_and_keep_answers [of saved work]
  show ?thesis
  proof (cases "\<exists>r. claim_key (new_key_row i u (rq_path rq) key (sha (rq_body rq)) now) db = (Some False, db)
      \<and> EXISTING_KEY u (rq_path rq) key db = Some r \<and> is_stale now r")
    case True
    then obtain r where c: "claim_key (new_key_row i u (rq_path rq) key (sha (rq_body rq)) now) db = (Some False, db)"
        and r: "EXISTING_KEY u (rq_path rq) key db = Some r" "is_stale now r" by blast
    let ?db1 = "DELETE_PENDING (ik_id r) db"
    have e: "EXISTING_KEY u (rq_path rq) key ?db1 = None"
      using existing_deleted [OF assms r(1)] r(2) by (simp add: is_stale_def)
    have first: "idempotent jp db_bytes db_json sha saved work (i # j # ids) u now rq rid db =
        idempotent jp db_bytes db_json sha saved work (j # ids) u now rq rid ?db1"
      by (subst idempotent.simps) (simp add: Some c r)
    have "\<exists>b. claim_key (new_key_row j u (rq_path rq) key (sha (rq_body rq)) now) ?db1 = (b, ?db1) \<and> b \<noteq> Some True
        \<or> claim_key (new_key_row j u (rq_path rq) key (sha (rq_body rq)) now) ?db1
            = (Some True, ?db1\<lparr>idem := idem ?db1 @ [new_key_row j u (rq_path rq) key (sha (rq_body rq)) now]\<rparr>)"
      by (simp add: claim_key_cases)
    then show ?thesis unfolding first using shown e by (auto split: option.split bool.split)
  next
    case False
    then show ?thesis
      using shown by (subst idempotent.simps) (auto simp: claim_key_cases Some split: option.split)
  qed
qed

text \<open>C23: What is refused, and what may be tried again. A POST without a proper key, one whose key is still
  being worked on (for at most five minutes), and one that repeats a key with another body are
  refused without running the handler or changing anything. When the handler fails or answers with
  anything but success, its key is free again.\<close>

theorem idempotent_refuses:
  "(parseUuid (header rq ''idempotency-key'') = None \<longrightarrow>
      idempotent jp db_bytes db_json sha saved work (i # ids) u now rq rid db = (Inr (key_missing rid), db))
   \<and> (parseUuid (header rq ''idempotency-key'') = Some key \<and> map_of (users db) u \<noteq> None
       \<and> EXISTING_KEY u (rq_path rq) key db = Some r \<and> \<not> is_stale now r
       \<and> (ik_status r = None \<or> ik_hash r \<noteq> sha (rq_body rq)) \<longrightarrow>
      idempotent jp db_bytes db_json sha saved work (i # ids) u now rq rid db = (Inr (conflict_response rid), db))
   \<and> (parseUuid (header rq ''idempotency-key'') = Some key \<and> leaves_keys work \<and> i \<notin> ik_id ` set (idem db)
       \<and> EXISTING_KEY u (rq_path rq) key db = None \<and> map_of (users db) u \<noteq> None
       \<and> idempotent jp db_bytes db_json sha saved work (i # ids) u now rq rid db = (Inr rs, db')
       \<and> (rs_status rs < 200 \<or> 300 \<le> rs_status rs) \<longrightarrow> idem db' = idem db)"
proof (intro conjI impI)
  assume a: "parseUuid (header rq ''idempotency-key'') = Some key \<and> map_of (users db) u \<noteq> None
       \<and> EXISTING_KEY u (rq_path rq) key db = Some r \<and> \<not> is_stale now r
       \<and> (ik_status r = None \<or> ik_hash r \<noteq> sha (rq_body rq))"
  then have c: "claim_key (new_key_row i u (rq_path rq) key (sha (rq_body rq)) now) db = (Some False, db)"
    by (simp add: claim_key_cases new_key_row_def)
  from a show "idempotent jp db_bytes db_json sha saved work (i # ids) u now rq rid db = (Inr (conflict_response rid), db)"
    by (cases "ik_status r") (simp_all add: c)
next
  let ?row = "new_key_row i u (rq_path rq) key (sha (rq_body rq)) now"
  assume a: "parseUuid (header rq ''idempotency-key'') = Some key \<and> leaves_keys work \<and> i \<notin> ik_id ` set (idem db)
       \<and> EXISTING_KEY u (rq_path rq) key db = None \<and> map_of (users db) u \<noteq> None
       \<and> idempotent jp db_bytes db_json sha saved work (i # ids) u now rq rid db = (Inr rs, db')
       \<and> (rs_status rs < 200 \<or> 300 \<le> rs_status rs)"
  from a have p: "parseUuid (header rq ''idempotency-key'') = Some key"
    and free: "EXISTING_KEY u (rq_path rq) key db = None" "map_of (users db) u \<noteq> None"
    and run: "idempotent jp db_bytes db_json sha saved work (i # ids) u now rq rid db = (Inr rs, db')" by blast+
  have "claim_key ?row db = (Some True, db\<lparr>idem := idem db @ [?row]\<rparr>)"
    using a free by (simp add: claim_key_cases new_key_row_def)
  then have r: "run_and_keep saved work i rq rid (db\<lparr>idem := idem db @ [?row]\<rparr>) = (Inr rs, db')"
    using run by (simp add: p)
  obtain res db1 where w: "work rq (db\<lparr>idem := idem db @ [?row]\<rparr>) = (res, db1)" by fastforce
  have k: "idem db1 = idem db @ [?row]" using leaves_keysD [of work, OF _ w] a by simp
  have "idem (DELETE_PENDING i db1) = idem db"
    using a delete_other [of i "idem db"] by (simp add: DELETE_PENDING_def k new_key_row_def)
  moreover have "db' = DELETE_PENDING i db1"
    using r a by (auto simp: run_and_keep_def w Let_def split: sum.splits if_splits)
  ultimately show "idem db' = idem db" by simp
qed simp

subsection \<open>Witnesses\<close>

definition demo_core :: "idem_row list \<Rightarrow> core_db" where
  "demo_core rows = \<lparr>users = [(''u1'', JObj [(''id'', JStr ''u1'')])], company_members = Some [], refresh_tokens = [], access_tokens = [],
     exchange_codes = [], oauth_states = [], user_identities = [], companies = [],
     limiter = \<lparr>lm_rows = (\<lambda>_. None), lm_memory = [], lm_window = -1\<rparr>, idem = rows\<rparr>"

lemma demo_core_facts: "users (demo_core r) = [(''u1'', JObj [(''id'', JStr ''u1'')])]" "idem (demo_core r) = r" "demo_core r\<lparr>idem := x\<rparr> = demo_core x"
  by (simp_all add: demo_core_def)

definition demo_key :: string where "demo_key = ''3f2504e0-4f89-41d3-9a0c-0305e82c3301''"

definition demo_post :: "string \<Rightarrow> request" where
  "demo_post body = \<lparr>rq_method = ''POST'', rq_path = ''/p'', rq_search = [], rq_query = [],
     rq_headers = [(''idempotency-key'', demo_key)], rq_body = body\<rparr>"

definition demo_answer :: response where
  "demo_answer = \<lparr>rs_status = 201, rs_headers = [(''content-type'', ''t'')], rs_body = BOpaque ''ok''\<rparr>"

definition demo_work :: "request \<Rightarrow> (core_db, response) core_prog" where
  "demo_work rq db = (if rq_body rq = ''bad'' then (Inl not_found_error, db) else (Inr demo_answer, db))"

lemma demo_parse: "parseUuid (header (demo_post b) ''idempotency-key'') = Some demo_key"
  by (simp add: demo_post_def header_def demo_key_def parseUuid_def jm_get_def js_defs uuid_shape_def hex_of_def or_empty_def is_hex_def is_digit_def is_hex_lower_def)

lemma demo_delivers: "delivers (\<lambda>_. None) Bytes headers_json"
  by (simp add: delivers_def)

lemma demo_leaves: "leaves_keys demo_work"
  by (simp add: leaves_keys_def demo_work_def)

lemma demo_header: "header (demo_post b) ''idempotency-key'' = demo_key" "rq_path (demo_post b) = ''/p''" "rq_body (demo_post b) = b"
  by (simp_all add: demo_post_def header_def jm_get_def or_empty_def)

theorem idempotent_terminates_witness:
  "\<exists>rs db'. idempotent (\<lambda>_. None) Bytes headers_json id True demo_work [''k1'', ''k2''] ''u1'' 400000 (demo_post ''a'') ''q''
     (demo_core [new_key_row ''k0'' ''u1'' ''/p'' demo_key ''b'' 0]) = (Inr rs, db')"
  by (rule idempotent_terminates) (simp add: idem_wf_def demo_core_facts)

theorem idempotent_refuses_witness:
  "idempotent (\<lambda>_. None) Bytes headers_json id True demo_work [''k1''] ''u1'' 200000 (demo_post ''a'') ''q''
     (demo_core [new_key_row ''k0'' ''u1'' ''/p'' demo_key ''a'' 0]) = (Inr (conflict_response ''q''), demo_core [new_key_row ''k0'' ''u1'' ''/p'' demo_key ''a'' 0])"
proof (rule idempotent_refuses [where key = demo_key and r = "new_key_row ''k0'' ''u1'' ''/p'' demo_key ''a'' 0", THEN conjunct2, THEN conjunct1, THEN mp], intro conjI)
  show "parseUuid (header (demo_post ''a'') ''idempotency-key'') = Some demo_key" by (rule demo_parse)
qed (simp_all add: demo_core_facts EXISTING_KEY_def same_request_def demo_header new_key_row_def is_stale_def PENDING_MS_def)

end
