(* ===== verification/Core_Handler.thy ===== *)
theory Core_Handler
  imports Idempotency Internal_Auth Session_Props
begin

text \<open>
  \<open>handle\<close> of \<open>services/core-api/src/handler.ts\<close>: every request of the core worker. It finds out who asks
  (the AI worker for a user, nobody on a public route, or the holder of a token), counts the request,
  and calls the handler that the routing names, a POST through the idempotency layer. The handlers are
  the argument \<open>handlers\<close>: a name, the segments of the path, the user and the request. The surroundings
  of one call are the record \<open>runtime\<close>. SHA-1 is the argument \<open>sha1\<close> of the identifiers of
  \<open>http.ts\<close>.
\<close>

unbundle bit_operations_syntax

declare idempotent.simps [simp del]

subsection \<open>Identifiers from names\<close>

definition NAMESPACE_URL :: string where
  "NAMESPACE_URL = ''6ba7b811-9dad-11d1-80b4-00c04fd430c8''"

definition uuidBytes :: "string \<Rightarrow> string" where
  "uuidBytes ident = (let hex = filter (\<lambda>c. c \<noteq> CHR ''-'') ident in map (\<lambda>i. parse_byte (take 2 (drop (i * 2) hex))) [0..<16])"

definition formatUuid :: "string \<Rightarrow> string" where
  "formatUuid bytes = (let hex = to_hex bytes in
     take 8 hex @ ''-'' @ take 4 (drop 8 hex) @ ''-'' @ take 4 (drop 12 hex) @ ''-'' @ take 4 (drop 16 hex) @ ''-'' @ drop 20 hex)"

definition versioned :: "string \<Rightarrow> string" where
  "versioned h = h[6 := char_of ((code_unit (h ! 6) AND 0x0f) OR 0x50), 8 := char_of ((code_unit (h ! 8) AND 0x3f) OR 0x80)]"

definition uuid5Url :: "(string \<Rightarrow> string) \<Rightarrow> string \<Rightarrow> string" where
  "uuid5Url sha1 name = formatUuid (versioned (take 16 (sha1 (uuidBytes NAMESPACE_URL @ name))))"

subsection \<open>The key of an answered question\<close>

text \<open>The id of the approval: the segment of \<open>APPROVAL_PATH\<close>.\<close>

definition approval_of :: "string \<Rightarrow> string option" where
  "approval_of path =
     (if rx [Lit ''conversations'', Any, Lit ''approvals'', Any] path then Some (segments path ! 6) else None)"

definition answer_mark :: "jv \<Rightarrow> string" where
  "answer_mark body =
     (let mark = (case jget body ''optionIds'' of
          JArr ids \<Rightarrow> join '','' (List.map_filter (\<lambda>i. case i of JStr s \<Rightarrow> Some s | _ \<Rightarrow> None) ids)
        | _ \<Rightarrow> []) in
      if mark \<noteq> [] then mark else (case jget body ''optionId'' of JStr s \<Rightarrow> s | _ \<Rightarrow> []))"

definition withApprovalAnswerKey :: "(string \<Rightarrow> jv option) \<Rightarrow> (string \<Rightarrow> string) \<Rightarrow> request \<Rightarrow> request" where
  "withApprovalAnswerKey jp sha1 rq =
     (case approval_of (rq_path rq) of
        None \<Rightarrow> rq
      | Some approval \<Rightarrow>
          if has_header rq ''idempotency-key'' then rq
          else (case jp (rq_body rq) of
              None \<Rightarrow> rq
            | Some body \<Rightarrow>
                (let mark = answer_mark body in
                 if mark = [] then rq
                 else rq\<lparr>rq_headers := jm_set ''idempotency-key''
                     (uuid5Url sha1 (''push:approval-answer:'' @ approval @ '':'' @ mark)) (rq_headers rq)\<rparr>)))"

subsection \<open>A request\<close>

record runtime =
  rt_env :: core_env
  rt_jp :: "string \<Rightarrow> jv option"
  rt_bytes :: "string \<Rightarrow> stored_body"
  rt_stored :: "(string \<times> string) list \<Rightarrow> jv"
  rt_sha :: "string \<Rightarrow> string"
  rt_sha1 :: "string \<Rightarrow> string"
  rt_uri :: "string \<Rightarrow> string option"
  rt_now :: int
  rt_rid :: string
  rt_ids :: "string list"
  rt_counts :: bool
  rt_saves :: bool

type_synonym 'z handlers = "string \<Rightarrow> string list \<Rightarrow> user_row \<Rightarrow> request \<Rightarrow> ('z core_db_scheme, response) core_prog"

definition rate_limited_core :: "string \<Rightarrow> response" where
  "rate_limited_core rid = errorResponse 429 ''RATE_LIMITED'' ''too many requests'' rid"

definition missing_bearer :: "string \<Rightarrow> response" where
  "missing_bearer rid = errorResponse 401 ''UNAUTHENTICATED'' ''missing bearer token'' rid"

definition allow_step :: "runtime \<Rightarrow> string \<Rightarrow> string \<Rightarrow> int \<Rightarrow> ('z core_db_scheme, bool) core_prog" where
  "allow_step rt kind key limit db =
     (case allow (rt_counts rt) kind key limit (rt_now rt) (limiter db) of (b, l) \<Rightarrow> (Inr b, db\<lparr>limiter := l\<rparr>))"

definition dispatched_work :: "'z handlers \<Rightarrow> runtime \<Rightarrow> user_row \<Rightarrow> request \<Rightarrow> ('z core_db_scheme, response) core_prog" where
  "dispatched_work handlers rt user rq =
     (case dispatch (rt_uri rt) (rq_method rq) (rq_path rq) of
        None \<Rightarrow> ret (errorResponse 404 ''NOT_FOUND'' ''resource not found'' (rt_rid rt))
      | Some (Refuse x) \<Rightarrow> throw x
      | Some (Call h args) \<Rightarrow> handlers h args user rq)"

definition limited :: "runtime \<Rightarrow> string \<Rightarrow> string \<Rightarrow> int \<Rightarrow> ('z core_db_scheme, response) core_prog \<Rightarrow> ('z core_db_scheme, response) core_prog" where
  "limited rt kind key limit m =
     and_then (allow_step rt kind key limit) (\<lambda>ok. if ok then m else ret (rate_limited_core (rt_rid rt)))"

definition is_stream :: "string \<Rightarrow> bool" where
  "is_stream path = endsWith path ''/stream''"

definition as_user :: "'z handlers \<Rightarrow> runtime \<Rightarrow> user_row \<Rightarrow> request \<Rightarrow> ('z core_db_scheme, response) core_prog" where
  "as_user handlers rt user rq =
     (if rq_method rq \<noteq> ''POST'' \<or> is_stream (rq_path rq) then dispatched_work handlers rt user rq
      else idempotent (rt_jp rt) (rt_bytes rt) (rt_stored rt) (rt_sha rt) (rt_saves rt) (dispatched_work handlers rt user)
        (rt_ids rt) (cu_id user) (rt_now rt) rq (rt_rid rt))"

definition notification_call :: "runtime \<Rightarrow> request \<Rightarrow> dispatched option" where
  "notification_call rt rq =
     (if rq_method rq = ''POST'' \<and> startsWith (rq_path rq) ''/api/v1/internal/notifications/''
      then run_rules (rt_uri rt) notification_rules (rq_method rq) (segments (rq_path rq)) else None)"

definition keyed_request :: "runtime \<Rightarrow> request \<Rightarrow> request" where
  "keyed_request rt rq =
     (if rq_method rq \<noteq> ''POST'' \<or> is_stream (rq_path rq) then rq else withApprovalAnswerKey (rt_jp rt) (rt_sha1 rt) rq)"

definition from_outside :: "'z handlers \<Rightarrow> runtime \<Rightarrow> request \<Rightarrow> ('z core_db_scheme, response) core_prog" where
  "from_outside handlers rt rq =
     (let authz = header rq ''authorization'' in
      if isPublic (rq_method rq) (rq_path rq) authz
      then limited rt ''ip'' (clientIp rq) 60
        (dispatched_work handlers rt (if isGuestRead (rq_method rq) (rq_path rq) then guestUser else anonymous) rq)
      else if \<not> startsWith authz ''Bearer '' then ret (missing_bearer (rt_rid rt))
      else and_then (resolveUser (rt_sha rt) (rt_env rt) (rt_now rt) (drop 7 authz)) (\<lambda>user.
        limited rt ''user'' (cu_id user) 600
          (as_user handlers rt user (keyed_request rt rq))))"

definition handle_request :: "'z handlers \<Rightarrow> runtime \<Rightarrow> request \<Rightarrow> ('z core_db_scheme, response) core_prog" where
  "handle_request handlers rt rq =
     (case notification_call rt rq of
        Some (Call h args) \<Rightarrow> handlers h args anonymous rq
      | Some (Refuse x) \<Rightarrow> throw x
      | None \<Rightarrow>
          and_then (actAs (rt_env rt ''INTERNAL_API_SECRET'') rq) (\<lambda>acted.
            case acted of
              Some a \<Rightarrow> and_then (userForActAs a) (\<lambda>user. limited rt ''user'' (cu_id user) 600 (as_user handlers rt user rq))
            | None \<Rightarrow> from_outside handlers rt rq))"

definition handle :: "'z handlers \<Rightarrow> runtime \<Rightarrow> request \<Rightarrow> 'z core_db_scheme \<Rightarrow> response \<times> 'z core_db_scheme" where
  "handle handlers rt rq db =
     (case handle_request handlers rt rq db of
        (Inl x, db') \<Rightarrow> (response_of x (rt_rid rt), db')
      | (Inr rs, db') \<Rightarrow> (rs, db'))"

subsection \<open>Who a handler runs for\<close>

text \<open>The users for whom a request may run a handler.\<close>

definition may_run :: "runtime \<Rightarrow> request \<Rightarrow> 'z core_db_scheme \<Rightarrow> user_row \<Rightarrow> bool" where
  "may_run rt rq db u \<longleftrightarrow>
     (case fst (actAs (rt_env rt ''INTERNAL_API_SECRET'') rq db) of
        Inl x \<Rightarrow> False
      | Inr (Some a) \<Rightarrow> fst (userForActAs a db) = Inr u
      | Inr None \<Rightarrow>
          (if isPublic (rq_method rq) (rq_path rq) (header rq ''authorization'')
           then u = (if isGuestRead (rq_method rq) (rq_path rq) then guestUser else anonymous)
           else startsWith (header rq ''authorization'') ''Bearer ''
             \<and> fst (resolveUser (rt_sha rt) (rt_env rt) (rt_now rt) (drop 7 (header rq ''authorization'')) db) = Inr u))"

lemma actAs_reads: "snd (actAs secret rq db) = db"
  by (auto simp: actAs_def Let_def guard_def and_then_def from_option_def is_member_def split: option.split sum.split)

lemma userForActAs_reads: "snd (userForActAs a db) = db"
  by (auto simp: userForActAs_def and_then_def user_by_id_def from_option_def split: option.split sum.split)

lemma userBy_reads: "(\<And>db. snd (m db) = db) \<Longrightarrow> (\<And>db. snd (n db) = db) \<Longrightarrow> snd (userBy m n db) = db"
  by (auto simp: userBy_def catching_def split: sum.split prod.split) (metis snd_conv)+

lemma resolveUser_reads: "snd (resolveUser sha env now token db) = db"
proof -
  have a: "snd (userBy (user_by_id i) (user_by_id_base i) db) = db" for i
    by (rule userBy_reads) (simp_all add: user_by_id_def user_by_id_base_def reading_def split: option.split)
  have b: "snd (userBy (USER_BY_TOKEN h) (USER_BY_TOKEN_BASE h) db) = db" for h
    by (rule userBy_reads) (simp_all add: USER_BY_TOKEN_def USER_BY_TOKEN_BASE_def reading_def split: option.split)
  show ?thesis
    using a b by (auto simp: resolveUser_def Let_def and_then_def from_option_def guard_def split: option.split sum.split prod.split) (metis snd_conv)+
qed

lemma and_then_reads: "snd (m db) = db \<Longrightarrow> and_then m f db = (case fst (m db) of Inl x \<Rightarrow> (Inl x, db) | Inr a \<Rightarrow> f a db)"
  by (cases "m db") (auto simp: and_then_def split: sum.split)

definition refusal :: "core_exn \<Rightarrow> bool" where
  "refusal x \<longleftrightarrow> (case x of HttpError st _ _ _ \<Rightarrow> 400 \<le> st | _ \<Rightarrow> True)"

lemma refusal_status: "refusal x \<Longrightarrow> 400 \<le> rs_status (response_of x rid)"
  by (simp add: refusal_def response_of_def split: core_exn.splits)

lemma actAs_refuses: "fst (actAs secret rq db) = Inl x \<Longrightarrow> refusal x"
  by (auto simp: actAs_def Let_def guard_def and_then_def from_option_def is_member_def unauthorized_def missing_members_def refusal_def
      split: option.splits sum.splits if_splits)

lemma userForActAs_refuses: "fst (userForActAs a db) = Inl x \<Longrightarrow> refusal x"
  by (auto simp: userForActAs_def and_then_def user_by_id_def from_option_def unauthorized_def missing_members_def refusal_def
      split: option.splits sum.splits)

lemma resolveUser_refuses: "fst (resolveUser sha env now token db) = Inl x \<Longrightarrow> refusal x"
  by (auto simp: resolveUser_def Let_def and_then_reads user_by_id_reads by_token_reads from_option_def guard_def unauthenticated_def
      token_expired_def refusal_def split: option.splits sum.splits prod.splits if_splits)

lemma handle_cases:
  "handle_request handlers rt rq db =
     (case notification_call rt rq of
        Some (Call h args) \<Rightarrow> handlers h args anonymous rq db
      | Some (Refuse x) \<Rightarrow> (Inl x, db)
      | None \<Rightarrow>
          (case fst (actAs (rt_env rt ''INTERNAL_API_SECRET'') rq db) of
             Inl x \<Rightarrow> (Inl x, db)
           | Inr (Some a) \<Rightarrow> (case fst (userForActAs a db) of
                 Inl x \<Rightarrow> (Inl x, db)
               | Inr u \<Rightarrow> limited rt ''user'' (cu_id u) 600 (as_user handlers rt u rq) db)
           | Inr None \<Rightarrow> from_outside handlers rt rq db))"
  by (simp add: handle_request_def and_then_reads actAs_reads userForActAs_reads split: option.split dispatched.split sum.split)

lemma outside_cases:
  "from_outside handlers rt rq db =
     (let authz = header rq ''authorization'' in
      if isPublic (rq_method rq) (rq_path rq) authz
      then limited rt ''ip'' (clientIp rq) 60
        (dispatched_work handlers rt (if isGuestRead (rq_method rq) (rq_path rq) then guestUser else anonymous) rq) db
      else if \<not> startsWith authz ''Bearer '' then (Inr (missing_bearer (rt_rid rt)), db)
      else (case fst (resolveUser (rt_sha rt) (rt_env rt) (rt_now rt) (drop 7 authz) db) of
          Inl x \<Rightarrow> (Inl x, db)
        | Inr user \<Rightarrow> limited rt ''user'' (cu_id user) 600
          (as_user handlers rt user (keyed_request rt rq)) db))"
  by (simp add: from_outside_def Let_def and_then_reads resolveUser_reads split: sum.split)

lemma same_work: "(\<And>h args q db. handlers h args u q db = handlers' h args u q db) \<Longrightarrow> dispatched_work handlers rt u = dispatched_work handlers' rt u"
  by (intro ext) (simp add: dispatched_work_def split: option.split dispatched.split)

lemma same_as_user: "(\<And>h args q db. handlers h args u q db = handlers' h args u q db) \<Longrightarrow> as_user handlers rt u q = as_user handlers' rt u q"
  using same_work [of handlers u handlers' rt] by (simp add: as_user_def)

text \<open>C10: A handler only runs for an identified user, on every route but one: the internal notification jobs
  (a \<open>POST\<close> to \<open>/api/v1/internal/notifications/\<dots>\<close> that a rule matches, \<open>notification_call\<close>) are dispatched
  before any user is looked up, for nobody, and are excluded here. Everywhere else what a request does
  depends on the handlers only at the users it may run for: the user of a valid token, the user an
  authorised internal call acts for, or nobody on a public route. When there is none, the request is
  refused and changes nothing.\<close>

theorem handlers_run_identified:
  assumes "notification_call rt rq = None"
    and "\<And>u h args q db'. may_run rt rq db u \<Longrightarrow> handlers h args u q db' = handlers' h args u q db'"
  shows "handle handlers rt rq db = handle handlers' rt rq db
    \<and> ((\<nexists>u. may_run rt rq db u) \<longrightarrow> snd (handle handlers rt rq db) = db \<and> 400 \<le> rs_status (fst (handle handlers rt rq db)))"
proof
  have "as_user handlers rt u q = as_user handlers' rt u q \<and> dispatched_work handlers rt u = dispatched_work handlers' rt u"
    if "may_run rt rq db u" for u q
    using that same_work [of handlers u handlers' rt] same_as_user [of handlers u handlers' rt q] assms(2) by blast
  then show "handle handlers rt rq db = handle handlers' rt rq db"
    unfolding handle_def handle_cases assms(1) outside_cases may_run_def Let_def
    by (auto split: sum.split option.split)
  show "(\<nexists>u. may_run rt rq db u) \<longrightarrow> snd (handle handlers rt rq db) = db \<and> 400 \<le> rs_status (fst (handle handlers rt rq db))"
    unfolding handle_def handle_cases assms(1) outside_cases may_run_def Let_def
    by (auto simp: missing_bearer_def refusal_status dest!: actAs_refuses userForActAs_refuses resolveUser_refuses split: sum.split option.split)
qed

subsection \<open>Derived keys\<close>

lemma version_bits: "(n AND 15) OR 80 = n mod 16 + 80" for n :: nat
proof -
  have "(n AND 15) + 80 = (n AND 15) OR 80" by (rule disjunctive_add_eq_or) (simp add: and.assoc)
  moreover have "n AND 15 = n mod 16" using take_bit_eq_mask [of 4 n] by (simp add: take_bit_eq_mod mask_eq_exp_minus_1)
  ultimately show ?thesis by simp
qed

lemma variant_bits: "(n AND 63) OR 128 = n mod 64 + 128" for n :: nat
proof -
  have "(n AND 63) + 128 = (n AND 63) OR 128" by (rule disjunctive_add_eq_or) (simp add: and.assoc)
  moreover have "n AND 63 = n mod 64" using take_bit_eq_mask [of 6 n] by (simp add: take_bit_eq_mod mask_eq_exp_minus_1)
  ultimately show ?thesis by simp
qed

lemma hex_lower_digit: "n < 16 \<Longrightarrow> is_hex (hex_digit n) \<and> lower_char (hex_digit n) = hex_digit n"
  by (auto simp: hex_digit_def is_hex_def is_hex_lower_def is_digit_def lower_char_def Let_def of_char_of take_bit_nat_eq_self)

lemma to_hex_Cons: "to_hex (c # s) = hex_byte c @ to_hex s"
  by (simp add: to_hex_def)

lemma to_hex_lower: "list_all is_hex (to_hex s) \<and> toLowerCase (to_hex s) = to_hex s \<and> length (to_hex s) = 2 * length s"
proof (induction s)
  case (Cons c s)
  have "code_unit c div 16 < 16" "code_unit c mod 16 < 16" using code_unit_less [of c] by (linarith, simp)
  then show ?case using Cons hex_lower_digit by (simp add: to_hex_Cons hex_byte_def toLowerCase_def)
qed (simp add: to_hex_def toLowerCase_def)

lemma to_hex_nth: "i < length s \<Longrightarrow> to_hex s ! (2 * i) = hex_digit (code_unit (s ! i) div 16)"
proof (induction s arbitrary: i)
  case (Cons c s)
  then show ?case by (cases i) (simp_all add: to_hex_Cons hex_byte_def)
qed simp

lemma formatUuid_hyphenate: "formatUuid b = hyphenate (to_hex b)"
  by (simp add: formatUuid_def hyphenate_def Let_def str_slice_def)

lemma hyphenate_nth: "length h = 32 \<Longrightarrow> hyphenate h ! 14 = h ! 12 \<and> hyphenate h ! 19 = h ! 16"
  by (simp add: hyphenate_def str_slice_def nth_append)

lemma hex_digits: "hex_digit 5 = CHR ''5''" "hex_digit 8 = CHR ''8''" "hex_digit 9 = CHR ''9''" "hex_digit 10 = CHR ''a''" "hex_digit 11 = CHR ''b''"
  by (simp_all add: hex_digit_def char_of_def bit_0)

lemma versioned_nibbles:
  assumes "length h = 16"
  shows "to_hex (versioned h) ! 12 = CHR ''5'' \<and> to_hex (versioned h) ! 16 \<in> {CHR ''8'', CHR ''9'', CHR ''a'', CHR ''b''}"
proof
  have l: "length (versioned h) = 16" using assms by (simp add: versioned_def)
  have "code_unit (versioned h ! 6) = code_unit (h ! 6) mod 16 + 80" "code_unit (versioned h ! 8) = code_unit (h ! 8) mod 64 + 128"
    using assms by (simp_all add: versioned_def version_bits variant_bits of_char_of take_bit_nat_eq_self)
  then have q: "code_unit (versioned h ! 6) div 16 = 5" "code_unit (versioned h ! 8) div 16 = 8 + code_unit (h ! 8) mod 64 div 16"
    by linarith+
  show "to_hex (versioned h) ! 12 = CHR ''5''" using to_hex_nth [of 6 "versioned h"] l q by (simp add: hex_digits)
  have "code_unit (h ! 8) mod 64 div 16 \<in> {0, 1, 2, 3}" by auto
  then have "hex_digit (8 + code_unit (h ! 8) mod 64 div 16) \<in> {hex_digit 8, hex_digit 9, hex_digit 10, hex_digit 11}" by auto
  then show "to_hex (versioned h) ! 16 \<in> {CHR ''8'', CHR ''9'', CHR ''a'', CHR ''b''}"
    using to_hex_nth [of 8 "versioned h"] l q by (simp add: hex_digits)
qed

lemma uuid5_shape:
  assumes "16 \<le> length (sha1 (uuidBytes NAMESPACE_URL @ name))"
  shows "parseUuid (uuid5Url sha1 name) = Some (uuid5Url sha1 name)
    \<and> uuid5Url sha1 name ! 14 = CHR ''5'' \<and> uuid5Url sha1 name ! 19 \<in> {CHR ''8'', CHR ''9'', CHR ''a'', CHR ''b''}"
proof -
  let ?h = "take 16 (sha1 (uuidBytes NAMESPACE_URL @ name))"
  have "length ?h = 16" using assms by simp
  note n = versioned_nibbles [OF this]
  have "length (versioned ?h) = 16" using assms by (simp add: versioned_def)
  then have "hex_of 32 (to_hex (versioned ?h))" "toLowerCase (to_hex (versioned ?h)) = to_hex (versioned ?h)"
    using to_hex_lower [of "versioned ?h"] by (simp_all add: hex_of_def)
  then show ?thesis
    using n hyphenate_nth [of "to_hex (versioned ?h)"]
    by (simp add: uuid5Url_def formatUuid_hyphenate parseUuid_def uuid_shape_hyphenate toLowerCase_hyphenate hex_of_def)
qed

text \<open>C37: Names become identifiers. A SHA-1 digest is turned into a canonical UUID of version 5 and of the
  standard variant. So an answer to a question of the assistant that carries no key, and names an
  option, reaches the idempotency layer with a well-formed key, which depends only on the question
  and the options.\<close>

theorem answer_key_type:
  assumes "\<And>bytes. length (sha1 bytes) = 20"
  shows "parseUuid (uuid5Url sha1 name) = Some (uuid5Url sha1 name)
    \<and> uuid5Url sha1 name ! 14 = CHR ''5'' \<and> uuid5Url sha1 name ! 19 \<in> {CHR ''8'', CHR ''9'', CHR ''a'', CHR ''b''}
    \<and> (approval_of (rq_path rq) = Some approval \<and> \<not> has_header rq ''idempotency-key'' \<and> jp (rq_body rq) = Some body \<and> answer_mark body \<noteq> []
       \<longrightarrow> parseUuid (header (withApprovalAnswerKey jp sha1 rq) ''idempotency-key'')
             = Some (uuid5Url sha1 (''push:approval-answer:'' @ approval @ '':'' @ answer_mark body)))"
proof -
  have "16 \<le> length (sha1 b)" for b using assms [of b] by simp
  note u = uuid5_shape [of sha1, OF this]
  show ?thesis using u by (auto simp: withApprovalAnswerKey_def Let_def header_def get_set or_empty_def)
qed

theorem answer_key_type_witness:
  "parseUuid (uuid5Url (\<lambda>_. replicate 20 CHR ''x'') ''push'') \<noteq> None"
  using answer_key_type [of "\<lambda>_. replicate 20 CHR ''x''"] by simp

subsection \<open>A repeated POST\<close>

text \<open>A token request: its user is found and its limit is not reached. \<open>counted\<close> is the state after counting.\<close>

definition counted :: "runtime \<Rightarrow> request \<Rightarrow> user_row \<Rightarrow> 'z core_db_scheme \<Rightarrow> 'z core_db_scheme \<Rightarrow> bool" where
  "counted rt rq user db db' \<longleftrightarrow>
     notification_call rt rq = None \<and> fst (actAs (rt_env rt ''INTERNAL_API_SECRET'') rq db) = Inr None
     \<and> \<not> isPublic (rq_method rq) (rq_path rq) (header rq ''authorization'')
     \<and> startsWith (header rq ''authorization'') ''Bearer ''
     \<and> fst (resolveUser (rt_sha rt) (rt_env rt) (rt_now rt) (drop 7 (header rq ''authorization'')) db) = Inr user
     \<and> allow_step rt ''user'' (cu_id user) 600 db = (Inr True, db')"

lemma counted_handle:
  assumes "counted rt rq user db db'" and "rq_method rq = ''POST''" and "\<not> is_stream (rq_path rq)"
    and "has_header rq ''idempotency-key''"
  shows "handle_request handlers rt rq db =
    idempotent (rt_jp rt) (rt_bytes rt) (rt_stored rt) (rt_sha rt) (rt_saves rt) (dispatched_work handlers rt user)
        (rt_ids rt) (cu_id user) (rt_now rt) rq (rt_rid rt) db'"
  using assms by (simp add: handle_cases outside_cases counted_def Let_def limited_def and_then_def keyed_request_def
      withApprovalAnswerKey_def as_user_def split: option.split)

lemma parseUuid_Nil: "parseUuid [] = None"
  by (simp add: parseUuid_def uuid_shape_def hex_of_def)

lemma counted_tables: "counted rt rq user db db' \<Longrightarrow> \<exists>l. db' = db\<lparr>limiter := l\<rparr>"
  by (auto simp: counted_def allow_step_def split: prod.splits)

text \<open>The two runs share what is stored and how.\<close>

definition same_store :: "runtime \<Rightarrow> runtime \<Rightarrow> bool" where
  "same_store rt rt' \<longleftrightarrow> rt_jp rt' = rt_jp rt \<and> rt_bytes rt' = rt_bytes rt \<and> rt_stored rt' = rt_stored rt \<and> rt_sha rt' = rt_sha rt"

text \<open>C22: A stored answer is given again. When a user's POST with a fresh key, on a path that does not stream, has
  been answered with success, and the statement that stores the answer has succeeded (\<open>rt_saves\<close>; the
  code sends the answer also when it fails, and a retry may then run again), the same request, sent again
  as the next one, with the same key and a valid token of the same user, at whatever later time, is
  answered the same (status, body and headers), and the database does not change any more, the request
  counter apart: the handler does not run a second time.\<close>

theorem post_answered_once:
  assumes "counted rt rq user db dbl" and "rq_method rq = ''POST''" and "\<not> is_stream (rq_path rq)"
    and "parseUuid (header rq ''idempotency-key'') = Some key" and "rt_ids rt = i # ids" and "rt_saves rt"
    and "idem_wf db" and "EXISTING_KEY (cu_id user) (rq_path rq) key db = None" and "i \<notin> ik_id ` set (idem db)"
    and "map_of (users db) (cu_id user) \<noteq> None" and "leaves_keys (dispatched_work handlers rt user)"
    and "dispatched_work handlers rt user rq
          (dbl\<lparr>idem := idem dbl @ [new_key_row i (cu_id user) (rq_path rq) key (rt_sha rt (rq_body rq)) (rt_now rt)]\<rparr>) = (Inr rs, db1)"
    and "200 \<le> rs_status rs" and "rs_status rs < 300" and "jm_wf (rs_headers rs)"
    and "\<forall>n. toLowerCase n = ''content-type'' \<longrightarrow> jm_get (rs_headers rs) n \<noteq> None \<longrightarrow> n = ''content-type''"
    and "map_of (users db1) (cu_id user) \<noteq> None"
    and "delivers (rt_jp rt) (rt_bytes rt) (rt_stored rt)" and "same_store rt rt'" and "rt_saves rt'" and "rt_ids rt' = j # ids'"
    and "counted rt' rq user' (snd (handle handlers rt rq db)) db2" and "cu_id user' = cu_id user"
  shows "rs_status (fst (handle handlers rt rq db)) = rs_status rs
    \<and> snd (handle handlers' rt' rq (snd (handle handlers rt rq db))) = db2
    \<and> (\<exists>l. db2 = snd (handle handlers rt rq db)\<lparr>limiter := l\<rparr>)
    \<and> same_answer (fst (handle handlers rt rq db)) (fst (handle handlers' rt' rq (snd (handle handlers rt rq db))))"
proof -
  obtain l where dbl: "dbl = db\<lparr>limiter := l\<rparr>" using counted_tables [OF assms(1)] by blast
  have key: "has_header rq ''idempotency-key''"
    using assms(4) by (cases "jm_get (rq_headers rq) ''idempotency-key''") (simp_all add: has_header_def header_def or_empty_def parseUuid_Nil)
  have "\<exists>first db2 second. idempotent (rt_jp rt) (rt_bytes rt) (rt_stored rt) (rt_sha rt) True (dispatched_work handlers rt user) (i # ids)
        (cu_id user) (rt_now rt) rq (rt_rid rt) dbl = (Inr first, db2)
    \<and> rs_status first = rs_status rs \<and> rs_headers first = rs_headers rs
    \<and> idempotent (rt_jp rt) (rt_bytes rt) (rt_stored rt) (rt_sha rt) True (dispatched_work handlers' rt' user') (j # ids')
        (cu_id user) (rt_now rt') rq (rt_rid rt') (db2\<lparr>limiter := l'\<rparr>) = (Inr second, db2\<lparr>limiter := l'\<rparr>)
    \<and> same_answer first second" for l'
    using dbl assms(4,7-18)
    by (intro answered_again [where work = "dispatched_work handlers rt user" and ?db1.0 = db1 and db = dbl and rs = rs])
      (simp_all add: idem_wf_def EXISTING_KEY_def)
  note again = this
  note h = counted_handle [OF assms(1-3) key] and h' = counted_handle [OF assms(22,2,3) key]
  obtain l' where l': "db2 = snd (handle handlers rt rq db)\<lparr>limiter := l'\<rparr>"
    using counted_tables [OF assms(22)] by blast
  obtain first dbf second where r: "handle_request handlers rt rq db = (Inr first, dbf)" "rs_status first = rs_status rs"
      "idempotent (rt_jp rt) (rt_bytes rt) (rt_stored rt) (rt_sha rt) True (dispatched_work handlers' rt' user') (j # ids')
        (cu_id user) (rt_now rt') rq (rt_rid rt') (dbf\<lparr>limiter := l'\<rparr>) = (Inr second, dbf\<lparr>limiter := l'\<rparr>)"
      "same_answer first second"
    using again [of l'] h [of handlers] assms(5,6) by auto
  have f: "handle handlers rt rq db = (first, dbf)" using r(1) by (simp add: handle_def)
  have "handle_request handlers' rt' rq dbf = (Inr second, db2)"
    using h' [of handlers'] r(3) f l' assms(19-21,23) by (simp add: same_store_def)
  then show ?thesis using r f l' by (simp add: handle_def) blast
qed

subsection \<open>Witnesses\<close>

definition demo_env :: core_env where
  "demo_env n = map_of [(''APP_ENV'', ''development''), (''DEV_AUTH_TOKEN'', ''t''), (''DEV_USER_ID'', ''u1'')] n"

definition demo_rt :: "int \<Rightarrow> string \<Rightarrow> runtime" where
  "demo_rt now i = \<lparr>rt_env = demo_env, rt_jp = (\<lambda>_. None), rt_bytes = Bytes, rt_stored = headers_json, rt_sha = id,
     rt_sha1 = (\<lambda>_. replicate 20 CHR ''x''), rt_uri = Some, rt_now = now, rt_rid = ''q'', rt_ids = [i, i @ ''b''], rt_counts = True, rt_saves = True\<rparr>"

definition demo_ask :: request where
  "demo_ask = \<lparr>rq_method = ''POST'', rq_path = ''/api/v1/conversations'', rq_search = [], rq_query = [],
     rq_headers = [(''authorization'', ''Bearer t''), (''idempotency-key'', demo_key)], rq_body = ''b''\<rparr>"

definition demo_handlers :: "string \<Rightarrow> string list \<Rightarrow> user_row \<Rightarrow> request \<Rightarrow> (core_db, response) core_prog" where
  "demo_handlers h args u rq db = (Inr demo_answer, db)"

definition demo_u1 :: user_row where
  "demo_u1 = userFrom (with_company [] (''u1'', JObj [(''id'', JStr ''u1'')])) None"

lemma demo_u1_id: "cu_id demo_u1 = ''u1''"
  by (simp add: demo_u1_def userFrom_def with_company_def Prelude.fields_def jget_def membership_def)

lemma demo_dispatch: "dispatch uri ''POST'' ''/api/v1/conversations'' = Some (Call ''createConversation'' [])"
proof -
  have "run_rules uri auth_rules ''POST'' (segments ''/api/v1/conversations'') = None"
    "run_rules uri dispatchEmailAuth ''POST'' (segments ''/api/v1/conversations'') = None"
    "run_rules uri dispatchPhoneAuth ''POST'' (segments ''/api/v1/conversations'') = None"
    "run_rules uri dispatchAppleAuth ''POST'' (segments ''/api/v1/conversations'') = None"
    by (simp_all add: auth_rules_def dispatchEmailAuth_def dispatchPhoneAuth_def dispatchAppleAuth_def on_def applies_def)
  moreover have "run_rules uri conversation_rules ''POST'' (segments ''/api/v1/conversations'') = Some (Call ''createConversation'' [])"
    by (simp add: conversation_rules_def on_def applies_def)
  ultimately show ?thesis
    by (simp only: dispatch_def Let_def rules_before_images_def try_all.simps or_next_simps)
qed

lemma demo_work_of: "dispatched_work demo_handlers (demo_rt now i) u demo_ask db = (Inr demo_answer, db)"
proof -
  have "rq_method demo_ask = ''POST''" "rq_path demo_ask = ''/api/v1/conversations''" by (simp_all add: demo_ask_def)
  then show ?thesis by (simp only: dispatched_work_def demo_dispatch option.case dispatched.case demo_handlers_def)
qed

lemma demo_ask_facts: "rq_method demo_ask = ''POST''" "rq_path demo_ask = ''/api/v1/conversations''"
  "header demo_ask ''authorization'' = ''Bearer t''" "header demo_ask ''idempotency-key'' = demo_key" "rq_body demo_ask = ''b''"
  "\<not> has_header demo_ask ''x-push-internal-secret''" "\<not> has_header demo_ask ''x-push-act-as''" "\<not> has_header demo_ask ''x-push-company''"
  by (simp_all add: demo_ask_def header_def has_header_def jm_get_def or_empty_def)

lemma demo_not_public: "\<not> isPublic ''POST'' ''/api/v1/conversations'' a"
  by (simp add: isPublic_def PUBLIC_def EMAIL_PUBLIC_def PHONE_PUBLIC_def isGoogleCallback_def isImageRead_def isGuestRead_def)

lemma demo_counted:
  assumes "users db = users (demo_core [])" and "company_members db = Some []"
    and "allow_step (demo_rt now i) ''user'' ''u1'' 600 db = (Inr True, db')"
  shows "counted (demo_rt now i) demo_ask demo_u1 db db'"
proof -
  have "fst (resolveUser id demo_env now ''t'' db) = Inr demo_u1"
    using assms(1,2) by (simp add: resolveUser_def demo_env_def or_empty_def and_then_def user_by_id_reads from_option_def demo_core_facts demo_u1_def Let_def)
  moreover have "fst (actAs None demo_ask db) = Inr None" by (simp add: actAs_def demo_ask_facts)
  ultimately show ?thesis
    using assms(3) by (simp add: counted_def demo_ask_facts demo_not_public demo_u1_id notification_call_def)
      (simp add: demo_rt_def demo_env_def startsWith_def)
qed

lemma demo_allow:
  assumes "\<And>b h e. lm_rows (limiter db) b = Some (h, e) \<Longrightarrow> h < n" and "n \<le> 600"
  shows "\<exists>l. allow_step (demo_rt now i) k u 600 db = (Inr True, db\<lparr>limiter := l\<rparr>) \<and> (\<forall>b h e. lm_rows l b = Some (h, e) \<longrightarrow> h < max 1 n + 1)"
proof (rule exI [of _ "snd (allow True k u 600 now (limiter db))"], intro conjI allI impI)
  have rows: "lm_rows (limiter db) (allow_bucket k u now) = Some (h, e) \<Longrightarrow> h < 600" for h e using assms by fastforce
  then show "allow_step (demo_rt now i) k u 600 db = (Inr True, db\<lparr>limiter := snd (allow True k u 600 now (limiter db))\<rparr>)"
    by (auto simp: allow_step_def demo_rt_def allow_def Let_def CONSUME_SQL_def split: option.split)
  show "h < max 1 n + 1" if "lm_rows (snd (allow True k u 600 now (limiter db))) b = Some (h, e)" for b h e
    using that rows assms(1) [of b] assms(1) [of "allow_bucket k u now"]
    by (fastforce simp: allow_def Let_def CONSUME_SQL_def split: option.splits if_splits)
qed

lemma demo_start: "\<exists>l. counted (demo_rt 0 ''k1'') demo_ask demo_u1 (demo_core []) (demo_core []\<lparr>limiter := l\<rparr>)
    \<and> (\<forall>b h e. lm_rows l b = Some (h, e) \<longrightarrow> h < 2)"
proof -
  have "lm_rows (limiter (demo_core [])) = (\<lambda>_. None)" "company_members (demo_core []) = Some []" by (simp_all add: demo_core_def)
  with demo_allow [of "demo_core []" 0 0 "''k1''" "''user''" "''u1''"] demo_counted [of "demo_core []" 0 "''k1''"] show ?thesis by fastforce
qed

lemma demo_handled:
  assumes "counted (demo_rt 0 ''k1'') demo_ask demo_u1 (demo_core []) (demo_core []\<lparr>limiter := l\<rparr>)"
  shows "fst (handle demo_handlers (demo_rt 0 ''k1'') demo_ask (demo_core [])) = demo_answer
    \<and> users (snd (handle demo_handlers (demo_rt 0 ''k1'') demo_ask (demo_core []))) = users (demo_core [])
    \<and> company_members (snd (handle demo_handlers (demo_rt 0 ''k1'') demo_ask (demo_core []))) = Some []
    \<and> limiter (snd (handle demo_handlers (demo_rt 0 ''k1'') demo_ask (demo_core []))) = l"
proof -
  have key: "has_header demo_ask ''idempotency-key''" by (simp add: demo_ask_def has_header_def jm_get_def)
  have parse: "parseUuid demo_key = Some demo_key" using demo_parse [of "''a''"] demo_header [of "''a''"] by simp
  have c: "company_members (demo_core []) = Some []" "EXISTING_KEY u p k (demo_core []\<lparr>limiter := l\<rparr>) = None" for u p k
    by (simp_all add: demo_core_def EXISTING_KEY_def)
  have "rt_ids (demo_rt 0 ''k1'') = [''k1'', ''k1b'']" "rt_sha (demo_rt 0 ''k1'') = id" by (simp_all add: demo_rt_def)
  then show ?thesis
    using counted_handle [OF assms _ _ key, of demo_handlers]
    by (simp add: demo_ask_facts is_stream_def endsWith_def handle_def idempotent.simps parse claim_key_cases c demo_core_facts demo_u1_id
        new_key_row_def run_and_keep_def demo_work_of)
      (simp add: demo_answer_def no_body_status_def body_bytes_def KEEP_ANSWER_def demo_core_facts c Let_def)
qed

definition gone_handlers :: "string \<Rightarrow> string list \<Rightarrow> user_row \<Rightarrow> request \<Rightarrow> (core_db, response) core_prog" where
  "gone_handlers h args u rq db = (Inl not_found_error, db)"

theorem post_answered_once_witness:
  "same_answer demo_answer (fst (handle gone_handlers (demo_rt 900000 ''k2'') demo_ask
     (snd (handle demo_handlers (demo_rt 0 ''k1'') demo_ask (demo_core [])))))"
proof -
  obtain l where l: "counted (demo_rt 0 ''k1'') demo_ask demo_u1 (demo_core []) (demo_core []\<lparr>limiter := l\<rparr>)"
    "\<forall>b h e. lm_rows l b = Some (h, e) \<longrightarrow> h < 2" using demo_start by blast
  let ?db = "snd (handle demo_handlers (demo_rt 0 ''k1'') demo_ask (demo_core []))"
  note h = demo_handled [OF l(1)]
  obtain l2 where "allow_step (demo_rt 900000 ''k2'') ''user'' ''u1'' 600 ?db = (Inr True, ?db\<lparr>limiter := l2\<rparr>)"
    using demo_allow [of ?db 2 900000 "''k2''" "''user''" "''u1''"] h l(2) by auto
  with h have c: "counted (demo_rt 900000 ''k2'') demo_ask demo_u1 ?db (?db\<lparr>limiter := l2\<rparr>)" by (intro demo_counted) simp_all
  have k: "parseUuid (header demo_ask ''idempotency-key'') = Some demo_key"
    using demo_parse [of "''a''"] demo_header [of "''a''"] demo_ask_facts by simp
  have stored: "rt_jp (demo_rt n i) = (\<lambda>_. None)" "rt_bytes (demo_rt n i) = Bytes" "rt_stored (demo_rt n i) = headers_json"
    "rt_ids (demo_rt n i) = [i, i @ ''b'']" "rt_saves (demo_rt n i)" "rt_sha (demo_rt n i) = id" for n i by (simp_all add: demo_rt_def)
  have keeps: "leaves_keys (dispatched_work demo_handlers (demo_rt 0 ''k1'') demo_u1)"
    by (auto simp: leaves_keys_def dispatched_work_def demo_handlers_def split: option.split dispatched.split)
  have m: "rq_method demo_ask = ''POST''" "\<not> is_stream (rq_path demo_ask)"
    by (simp_all add: demo_ask_facts is_stream_def endsWith_def)
  have e: "idem_wf (demo_core [])" "EXISTING_KEY (cu_id demo_u1) (rq_path demo_ask) demo_key (demo_core []) = None"
    "''k1'' \<notin> ik_id ` set (idem (demo_core []))" "map_of (users (demo_core [])) (cu_id demo_u1) \<noteq> None"
    by (simp_all add: idem_wf_def EXISTING_KEY_def demo_core_facts demo_u1_id)
  have a: "200 \<le> rs_status demo_answer" "rs_status demo_answer < 300" "jm_wf (rs_headers demo_answer)"
    "\<forall>n. toLowerCase n = ''content-type'' \<longrightarrow> jm_get (rs_headers demo_answer) n \<noteq> None \<longrightarrow> n = ''content-type''"
    by (simp_all add: demo_answer_def jm_wf_def jm_get_def)
  have d: "delivers (rt_jp (demo_rt 0 ''k1'')) (rt_bytes (demo_rt 0 ''k1'')) (rt_stored (demo_rt 0 ''k1''))"
    "same_store (demo_rt 0 ''k1'') (demo_rt 900000 ''k2'')" by (simp_all add: stored demo_delivers same_store_def)
  have u: "map_of (users (demo_core []\<lparr>limiter := l, idem := x\<rparr>)) (cu_id demo_u1) \<noteq> None" for x
    by (simp add: demo_core_facts demo_u1_id)
  from post_answered_once [OF l(1) m k stored(4,5) e keeps demo_work_of a u d stored(5,4) c refl, of gone_handlers] h
  show ?thesis by (elim conjE) simp
qed

definition only_u1 :: "string \<Rightarrow> string list \<Rightarrow> user_row \<Rightarrow> request \<Rightarrow> (core_db, response) core_prog" where
  "only_u1 h args u rq db = (if u = demo_u1 then (Inr demo_answer, db) else (Inl not_found_error, db))"

theorem handlers_run_identified_witness:
  "handle only_u1 (demo_rt 0 ''k1'') demo_ask (demo_core []) = handle demo_handlers (demo_rt 0 ''k1'') demo_ask (demo_core [])"
proof -
  obtain l where "counted (demo_rt 0 ''k1'') demo_ask demo_u1 (demo_core []) (demo_core []\<lparr>limiter := l\<rparr>)"
    using demo_start by blast
  then have n: "notification_call (demo_rt 0 ''k1'') demo_ask = None"
    and m: "may_run (demo_rt 0 ''k1'') demo_ask (demo_core []) u \<Longrightarrow> u = demo_u1" for u
    by (auto simp: counted_def may_run_def)
  show ?thesis
    by (rule handlers_run_identified [OF n, THEN conjunct1]) (drule m, simp add: only_u1_def demo_handlers_def)
qed

end
