(* ===== verification/Billing_Db.thy ===== *)
theory Billing_Db
  imports Credits Sessions
begin

text \<open>
  The tables of \<open>services/core-api/src/routes/billing.ts\<close> and the statements on them: the plan columns
  of \<open>users\<close> and \<open>companies\<close>, the ledger (theory \<open>Credits\<close>), the purchases of the app stores and the
  processed events of Stripe. The surroundings of a call are the record \<open>billing_rt\<close>: Stripe's API and
  the store receipts are functions of it, as are \<open>Date.parse\<close> and the database's reading of an
  identifier. Times are milliseconds since the epoch.
\<close>

record payer =
  py_id :: string
  py_plan :: string
  py_status :: string
  py_customer :: "string option"
  py_period :: "int option"

record firm =
  fm_id :: string
  fm_plan :: "string option"
  fm_customer :: "string option"

record iap_row =
  ia_user :: string
  ia_platform :: string
  ia_transaction :: string
  ia_product :: string
  ia_expires :: "int option"
  ia_status :: string
  ia_sandbox :: bool

type_synonym stripe_call = "string \<times> string \<times> (string \<times> string) list"

record billing_db = job_db +
  payers :: "payer list"
  firms :: "firm list"
  iap_rows :: "iap_row list"
  stripe_events :: "string list"
  stripe_calls :: "stripe_call list"

record receipt =
  rc_product :: string
  rc_transaction :: string
  rc_expires :: "string option"
  rc_sandbox :: bool

record store_note =
  nt_type :: string
  nt_transaction :: string
  nt_product :: string
  nt_expires :: "string option"
  nt_sandbox :: bool

record billing_rt =
  br_env :: core_env
  br_jp :: "string \<Rightarrow> jv option"
  br_dp :: "string \<Rightarrow> int option"
  br_uuid :: "string \<Rightarrow> string option"
  br_hmac :: "string \<Rightarrow> string \<Rightarrow> string"
  br_frac :: "rat \<Rightarrow> string"
  br_now :: int
  br_rid :: string
  br_fresh :: string
  br_stripe :: "string \<Rightarrow> string \<Rightarrow> (string \<times> string) list \<Rightarrow> jv option"
  br_apple :: "string \<Rightarrow> core_exn + receipt"
  br_google :: "string \<Rightarrow> string \<Rightarrow> bool \<Rightarrow> core_exn + receipt"
  br_apple_note :: "string \<Rightarrow> core_exn + store_note"
  br_google_note :: "jv \<Rightarrow> string option \<Rightarrow> core_exn + store_note"

definition bad_uuid :: core_exn where
  "bad_uuid = DbError ''22P02'' ''invalid input syntax for type uuid''"

definition bad_time :: core_exn where
  "bad_time = DbError ''22007'' ''invalid input syntax for type timestamp with time zone''"

definition missing_owner :: core_exn where
  "missing_owner = DbError ''23503'' ''violates foreign key constraint''"

definition pg_uuid :: "billing_rt \<Rightarrow> string \<Rightarrow> ('s, string) core_prog" where
  "pg_uuid rt v = from_option bad_uuid (br_uuid rt v)"

text \<open>\<open>$n::timestamptz\<close> of a text or \<open>null\<close>.\<close>

definition pg_time :: "billing_rt \<Rightarrow> string option \<Rightarrow> ('s, int option) core_prog" where
  "pg_time rt v = (case v of None \<Rightarrow> ret None | Some s \<Rightarrow> from_option bad_time (map_option Some (br_dp rt s)))"

definition coalesce_opt :: "'a option \<Rightarrow> 'a option \<Rightarrow> 'a option" where
  "coalesce_opt a b = (case a of None \<Rightarrow> b | Some _ \<Rightarrow> a)"

definition nullif_empty :: "string \<Rightarrow> string option" where
  "nullif_empty s = (if s = [] then None else Some s)"

subsection \<open>The ledger\<close>

definition owner_exists :: "account \<Rightarrow> 'z billing_db_scheme \<Rightarrow> bool" where
  "owner_exists a db = (case a of User u \<Rightarrow> list_ex (\<lambda>p. py_id p = u) (payers db) | Company c \<Rightarrow> list_ex (\<lambda>f. fm_id f = c) (firms db))"

definition ledger_insert :: "billing_rt \<Rightarrow> account \<Rightarrow> int \<Rightarrow> string \<Rightarrow> ('z billing_db_scheme, unit) core_prog" where
  "ledger_insert rt a amount reference db =
     (if \<not> granted (a, reference) db \<and> \<not> owner_exists a db then (Inl missing_owner, db)
      else (Inr (), grant_sql a (br_fresh rt) amount reference (br_now rt) db))"

definition userLedger :: "billing_rt \<Rightarrow> string \<Rightarrow> int \<Rightarrow> string \<Rightarrow> ('z billing_db_scheme, unit) core_prog" where
  "userLedger rt u amount reference = and_then (pg_uuid rt u) (\<lambda>i. ledger_insert rt (User i) amount reference)"

definition companyLedger :: "billing_rt \<Rightarrow> string \<Rightarrow> int \<Rightarrow> string \<Rightarrow> ('z billing_db_scheme, unit) core_prog" where
  "companyLedger rt c amount reference = and_then (pg_uuid rt c) (\<lambda>i. ledger_insert rt (Company i) amount reference)"

subsection \<open>Plans\<close>

definition update_payers :: "(payer \<Rightarrow> bool) \<Rightarrow> (payer \<Rightarrow> payer) \<Rightarrow> 'z billing_db_scheme \<Rightarrow> 'z billing_db_scheme" where
  "update_payers P f db = db\<lparr>payers := map (\<lambda>p. if P p then f p else p) (payers db)\<rparr>"

definition update_firms :: "(firm \<Rightarrow> bool) \<Rightarrow> (firm \<Rightarrow> firm) \<Rightarrow> 'z billing_db_scheme \<Rightarrow> 'z billing_db_scheme" where
  "update_firms P f db = db\<lparr>firms := map (\<lambda>m. if P m then f m else m) (firms db)\<rparr>"

text \<open>The statement of a personal purchase: one snapshot, the user and the ledger row together, and
  neither without the user.\<close>

definition PERSONAL_PURCHASE :: "billing_rt \<Rightarrow> string \<Rightarrow> string \<Rightarrow> string \<Rightarrow> int \<Rightarrow> string \<Rightarrow> 'z billing_db_scheme \<Rightarrow> 'z billing_db_scheme" where
  "PERSONAL_PURCHASE rt u plan customer credits reference db =
     (if owner_exists (User u) db
      then update_payers (\<lambda>p. py_id p = u)
        (\<lambda>p. p\<lparr>py_plan := plan, py_status := ''ACTIVE'', py_customer := coalesce_opt (nullif_empty customer) (py_customer p)\<rparr>)
        (grant_sql (User u) (br_fresh rt) credits reference (br_now rt) db)
      else db)"

text \<open>\<open>UPDATE users SET plan, subscription_status, period_ends_at = COALESCE(\<dots>) WHERE id\<close>.\<close>

definition SET_PLAN :: "string \<Rightarrow> string \<Rightarrow> string \<Rightarrow> int option \<Rightarrow> 'z billing_db_scheme \<Rightarrow> 'z billing_db_scheme" where
  "SET_PLAN u plan status period =
     update_payers (\<lambda>p. py_id p = u) (\<lambda>p. p\<lparr>py_plan := plan, py_status := status, py_period := coalesce_opt period (py_period p)\<rparr>)"

subsection \<open>Purchases of the stores\<close>

definition CLAIM_PURCHASE :: "iap_row \<Rightarrow> 'z billing_db_scheme \<Rightarrow> bool \<times> 'z billing_db_scheme" where
  "CLAIM_PURCHASE r db =
     (case find (\<lambda>x. ia_transaction x = ia_transaction r) (iap_rows db) of
        None \<Rightarrow> (True, db\<lparr>iap_rows := iap_rows db @ [r]\<rparr>)
      | Some x \<Rightarrow> if ia_user x = ia_user r
          then (True, db\<lparr>iap_rows := map (\<lambda>x. if ia_transaction x = ia_transaction r then r else x) (iap_rows db)\<rparr>)
          else (False, db))"

definition update_purchases :: "string \<Rightarrow> (iap_row \<Rightarrow> iap_row) \<Rightarrow> 'z billing_db_scheme \<Rightarrow> 'z billing_db_scheme" where
  "update_purchases t f db = db\<lparr>iap_rows := map (\<lambda>x. if ia_transaction x = t then f x else x) (iap_rows db)\<rparr>"

definition purchase_of :: "string \<Rightarrow> 'z billing_db_scheme \<Rightarrow> iap_row option" where
  "purchase_of t db = find (\<lambda>x. ia_transaction x = t) (iap_rows db)"

subsection \<open>Events\<close>

definition INSERT_EVENT :: "string \<Rightarrow> 'z billing_db_scheme \<Rightarrow> bool \<times> 'z billing_db_scheme" where
  "INSERT_EVENT e db = (if e \<in> set (stripe_events db) then (False, db) else (True, db\<lparr>stripe_events := stripe_events db @ [e]\<rparr>))"

definition DELETE_EVENT :: "string \<Rightarrow> 'z billing_db_scheme \<Rightarrow> 'z billing_db_scheme" where
  "DELETE_EVENT e db = db\<lparr>stripe_events := filter (\<lambda>x. x \<noteq> e) (stripe_events db)\<rparr>"

end
