(* ===== verification/Billing.thy ===== *)
theory Billing
  imports Billing_Db Core_Page
begin

text \<open>
  The handlers of \<open>services/core-api/src/routes/billing.ts\<close>: the status page, checkouts at Stripe, Stripe's
  webhook with its signature, and the purchases and notifications of the app stores.
\<close>

definition TOLERANCE :: rat where "TOLERANCE = 300"

definition MAX_TOPUP :: int where "MAX_TOPUP = 100000"

definition PLANS :: "string list" where "PLANS = [''FREE'', ''PRO'', ''ULTRA'']"

definition EMPLOYER_PLANS :: "string list" where "EMPLOYER_PLANS = [''BASIC'', ''PRO'', ''ULTRA'']"

definition ENDED :: "string list" where "ENDED = [''canceled'', ''unpaid'', ''incomplete_expired'']"

text \<open>\<open>/^[0-9a-f-]{36}$/i\<close>.\<close>

definition uuid_text :: "string \<Rightarrow> bool" where
  "uuid_text s \<longleftrightarrow> length s = 36 \<and> list_all (\<lambda>c. is_hex c \<or> c = CHR ''-'') s"

definition setting :: "billing_rt \<Rightarrow> string \<Rightarrow> string" where
  "setting rt name = or_empty (br_env rt name)"

definition configured :: "billing_rt \<Rightarrow> bool" where
  "configured rt \<longleftrightarrow> setting rt ''STRIPE_SECRET_KEY'' \<noteq> []"

definition not_configured :: "string \<Rightarrow> core_exn" where
  "not_configured message = HttpError 503 ''NOT_CONFIGURED'' message JNull"

definition provider_error :: "string \<Rightarrow> core_exn" where
  "provider_error message = HttpError 502 ''PROVIDER_ERROR'' message JNull"

definition forbidden_admin :: core_exn where
  "forbidden_admin = HttpError 403 ''FORBIDDEN'' ''admin required'' JNull"

text \<open>\<open>String(a || b || "")\<close>.\<close>

definition first_text :: "jv list \<Rightarrow> string" where
  "first_text vs = (case find truthy vs of None \<Rightarrow> [] | Some v \<Rightarrow> js_String v)"

subsection \<open>Months and balances\<close>

definition utcMonth :: "int \<Rightarrow> int \<times> int" where
  "utcMonth now = (date_utc (utc_year now) (utc_month now) 1 0 0 0 0, date_utc (utc_year now) (utc_month now + 1) 1 0 0 0 0)"

definition monthlyMicro :: "audience \<Rightarrow> string option \<Rightarrow> int" where
  "monthlyMicro aud plan =
     (let named = js_trim (or_empty plan) in if aud = PERSONAL \<and> named = [] then grantMicro PERSONAL ''FREE'' else grantMicro aud named)"

definition employerPlanOf :: "string option \<Rightarrow> string option" where
  "employerPlanOf v = (let plan = or_empty v in if plan \<in> set EMPLOYER_PLANS then Some plan else None)"

definition grantMonthly :: "billing_rt \<Rightarrow> audience \<Rightarrow> string option \<Rightarrow> string \<Rightarrow> 'z billing_db_scheme \<Rightarrow> 'z billing_db_scheme" where
  "grantMonthly rt aud plan ownerId db =
     (if or_empty plan = [] then db else ensureMonthlyGrant (br_fresh rt) aud plan ownerId (br_now rt) db)"

text \<open>What the account used in the month; the rows of \<open>ai_usage\<close> with their time are an argument, \<open>None\<close> while
  the table does not exist.\<close>

definition spentInMonth :: "(usage_row \<times> int) list option \<Rightarrow> int \<Rightarrow> (string \<Rightarrow> bool) \<Rightarrow> int" where
  "spentInMonth uses now owns =
     (case uses of None \<Rightarrow> 0
      | Some us \<Rightarrow> (case utcMonth now of (start, stop) \<Rightarrow>
          sum_list (map (us_cost \<circ> fst) (filter (\<lambda>(r, t). us_status r = ''SETTLED'' \<and> start \<le> t \<and> t < stop \<and> owns (us_user r)) us))))"

definition status_body :: "string \<Rightarrow> string option \<Rightarrow> string option \<Rightarrow> int \<Rightarrow> int \<Rightarrow> int \<Rightarrow> int \<Rightarrow> string \<Rightarrow> string option \<Rightarrow> jv" where
  "status_body status plan period available reserved monthly spent aud source =
     JObj [(''subscriptionStatus'', JStr status), (''plan'', optional_text plan), (''periodEndsAt'', optional_text period),
       (''balanceMicroCredits'', JNum available), (''reservedMicroCredits'', JNum reserved), (''monthlyMicroCredits'', JNum monthly),
       (''spentMicroCredits'', JNum spent), (''audience'', JStr aud), (''source'', optional_text source)]"

definition firm_by_id :: "string \<Rightarrow> 'z billing_db_scheme \<Rightarrow> firm option" where
  "firm_by_id c db = find (\<lambda>f. fm_id f = c) (firms db)"

text \<open>The company of an employer request; an empty id is none.\<close>

definition own_company :: "user_row \<Rightarrow> string option" where
  "own_company user = (case cu_companyId user of None \<Rightarrow> None | Some c \<Rightarrow> if c = [] then None else Some c)"

definition active_platform :: "string \<Rightarrow> 'z billing_db_scheme \<Rightarrow> string" where
  "active_platform u db = (case find (\<lambda>r. ia_user r = u \<and> ia_status r = ''ACTIVE'') (iap_rows db) of None \<Rightarrow> [] | Some r \<Rightarrow> ia_platform r)"

definition billingStatus :: "billing_rt \<Rightarrow> (usage_row \<times> int) list option \<Rightarrow> user_row \<Rightarrow> ('z billing_db_scheme, response) core_prog" where
  "billingStatus rt uses user =
     (if cu_accountType user = Employer_Account then
        and_then (from_option not_found_error (own_company user)) (\<lambda>c.
        and_then (reading (firm_by_id c)) (\<lambda>row.
        and_then (from_option not_found_error row) (\<lambda>f.
          (let plan = employerPlanOf (fm_plan f) in
           and_then (writing (grantMonthly rt EMPLOYER plan c)) (\<lambda>_.
           and_then (reading (\<lambda>db. spentInMonth uses (br_now rt) (\<lambda>u. (u, c) \<in> set (members db)))) (\<lambda>spent.
           and_then (availableMicro (cu_id user) (Some c)) (\<lambda>available.
           and_then (reading (reservedMicro (account_of (cu_id user) (Some c)))) (\<lambda>reserved.
             ret (data 200 (status_body (if plan = None then ''NONE'' else ''ACTIVE'') plan None available reserved
               (monthlyMicro EMPLOYER plan) spent ''EMPLOYER'' (if plan = None then None else Some ''STRIPE'')) (br_rid rt))))))))))
      else
        (let plan = nullif_empty (cu_plan user) in
         and_then (writing (grantMonthly rt PERSONAL plan (cu_id user))) (\<lambda>_.
         and_then (reading (\<lambda>db. spentInMonth uses (br_now rt) (\<lambda>u. u = cu_id user))) (\<lambda>spent.
         and_then (availableMicro (cu_id user) None) (\<lambda>available.
         and_then (reading (reservedMicro (account_of (cu_id user) None))) (\<lambda>reserved.
         and_then (reading (active_platform (cu_id user))) (\<lambda>platform.
         and_then (from_sum (ts (br_dp rt) (optional_text (cu_periodEndsAt user)))) (\<lambda>period.
           (let source = (if platform = ''APP_STORE'' \<or> platform = ''GOOGLE_PLAY'' then Some platform
                else if cu_subscriptionStatus user = ''ACTIVE'' then Some ''STRIPE'' else None) in
            ret (data 200 (status_body (or_else (cu_subscriptionStatus user) ''NONE'') plan period available reserved
              (monthlyMicro PERSONAL plan) spent ''PERSONAL'' source) (br_rid rt)))))))))))"

subsection \<open>Stripe\<close>

definition stripe :: "billing_rt \<Rightarrow> string \<Rightarrow> string \<Rightarrow> (string \<times> string) list \<Rightarrow> ('z billing_db_scheme, jv) core_prog" where
  "stripe rt method path form =
     and_then (writing (\<lambda>db. db\<lparr>stripe_calls := stripe_calls db @ [(method, path, form)]\<rparr>)) (\<lambda>_.
       from_option (Thrown ''stripe'') (br_stripe rt method path form))"

text \<open>The \<open>catch\<close> of the calls to Stripe.\<close>

definition at_provider :: "string \<Rightarrow> ('s, 'a) core_prog \<Rightarrow> ('s, 'a) core_prog" where
  "at_provider message m =
     catching m (\<lambda>x. case x of HttpError st c t d \<Rightarrow> throw (HttpError st c t d) | _ \<Rightarrow> throw (provider_error message))"

definition session_url :: "jv \<Rightarrow> core_exn + string" where
  "session_url session = (case jget session ''url'' of JStr u \<Rightarrow> if u = [] then Inl (Thrown ''url'') else Inr u | _ \<Rightarrow> Inl (Thrown ''url''))"

text \<open>\<open>new Date(Number(v) * 1000)\<close>: \<open>None\<close> when it is not a valid date.\<close>

definition epoch_ms :: "jv \<Rightarrow> int option" where
  "epoch_ms v = (case js_Number v of
       Fin q \<Rightarrow> (let ms = (if 0 \<le> q then floor (q * 1000) else ceiling (q * 1000)) in
         if abs (q * 1000) \<le> 8640000000000000 then Some ms else None)
     | _ \<Rightarrow> None)"

definition expires_text :: "billing_rt \<Rightarrow> jv \<Rightarrow> core_exn + string option" where
  "expires_text rt v =
     (if \<not> truthy v then Inr None
      else case epoch_ms v of
        None \<Rightarrow> Inl (Thrown ''bad timestamp'')
      | Some ms \<Rightarrow> Inr (formatJsonTimestamp (br_dp rt) (TDate ms)))"

definition employerPrice :: "billing_rt \<Rightarrow> string \<Rightarrow> string" where
  "employerPrice rt planId =
     (if planId = ''BASIC'' then setting rt ''STRIPE_PRICE_EMPLOYER_BASIC''
      else if planId = ''PRO'' then setting rt ''STRIPE_PRICE_EMPLOYER_PRO''
      else setting rt ''STRIPE_PRICE_EMPLOYER_ULTRA'')"

definition checkoutSession :: "billing_rt \<Rightarrow> (string \<times> string) list \<Rightarrow> ('z billing_db_scheme, response) core_prog" where
  "checkoutSession rt form =
     at_provider ''stripe checkout session failed''
      (and_then (stripe rt ''POST'' ''/v1/checkout/sessions'' form) (\<lambda>session.
       and_then (from_sum (session_url session)) (\<lambda>url.
       and_then (from_sum (expires_text rt (jget session ''expires_at''))) (\<lambda>expires.
         ret (data 200 (JObj [(''url'', JStr url), (''expiresAt'', optional_text expires)]) (br_rid rt))))))"

text \<open>The guards shared by the two checkouts: the company of an admin.\<close>

definition admin_company :: "user_row \<Rightarrow> core_exn + string" where
  "admin_company user =
     (if cu_accountType user \<noteq> Employer_Account then Inl forbidden_admin
      else case own_company user of
        None \<Rightarrow> Inl not_found_error
      | Some c \<Rightarrow> if cu_companyRole user \<noteq> Some ''ADMIN'' then Inl forbidden_admin else Inr c)"

definition customer_field :: "string option \<Rightarrow> (string \<times> string) list" where
  "customer_field v = (if or_empty v = [] then [] else [(''customer'', or_empty v)])"

definition checkout :: "billing_rt \<Rightarrow> user_row \<Rightarrow> request \<Rightarrow> ('z billing_db_scheme, response) core_prog" where
  "checkout rt user rq =
     guard (configured rt) (not_configured ''billing is not configured'')
     (and_then (from_sum (readJson (br_jp rt) rq)) (\<lambda>body.
      and_then (from_sum (requireString body ''planId'')) (\<lambda>planId.
      and_then (from_sum (admin_company user)) (\<lambda>c.
      guard (planId \<in> set EMPLOYER_PLANS) (field_error ''planId'' ''unsupported plan'')
      (let price = employerPrice rt planId in
       guard (price \<noteq> []) (not_configured ''plan price is not configured'')
       (and_then (reading (firm_by_id c)) (\<lambda>row.
        and_then (from_option not_found_error row) (\<lambda>f.
          checkoutSession rt
            ([(''mode'', ''subscription''), (''line_items[0][price]'', price), (''line_items[0][quantity]'', ''1''),
              (''success_url'', setting rt ''STRIPE_SUCCESS_URL''), (''cancel_url'', setting rt ''STRIPE_CANCEL_URL''),
              (''client_reference_id'', c), (''metadata[audience]'', ''EMPLOYER''), (''metadata[plan]'', planId)]
             @ customer_field (fm_customer f))))))))))"

definition topup :: "billing_rt \<Rightarrow> user_row \<Rightarrow> request \<Rightarrow> ('z billing_db_scheme, response) core_prog" where
  "topup rt user rq =
     guard (configured rt) (not_configured ''billing is not configured'')
     (and_then (from_sum (readJson (br_jp rt) rq)) (\<lambda>body.
      and_then (case jget body ''amount'' of
          JNum n \<Rightarrow> if 0 < n \<and> n \<le> MAX_TOPUP then ret n else throw (field_error ''amount'' ''must be a positive integer'')
        | _ \<Rightarrow> throw (field_error ''amount'' ''must be a positive integer'')) (\<lambda>amount.
      and_then (from_sum (admin_company user)) (\<lambda>c.
      (let price = setting rt ''STRIPE_PRICE_TOPUP'' in
       guard (price \<noteq> []) (not_configured ''plan price is not configured'')
       (and_then (reading (firm_by_id c)) (\<lambda>row.
        and_then (from_option not_found_error row) (\<lambda>f.
          at_provider ''stripe checkout session failed''
           (and_then (stripe rt ''POST'' ''/v1/checkout/sessions''
              ([(''mode'', ''payment''), (''line_items[0][price]'', price), (''line_items[0][quantity]'', int_dec amount),
                (''success_url'', setting rt ''STRIPE_SUCCESS_URL''), (''cancel_url'', setting rt ''STRIPE_CANCEL_URL''),
                (''client_reference_id'', c), (''metadata[amountMicroCredits]'', int_dec (amount * int DISPLAY_MICRO)),
                (''metadata[audience]'', ''EMPLOYER''), (''metadata[ownerId]'', c)]
               @ customer_field (fm_customer f))) (\<lambda>session.
            and_then (from_sum (session_url session)) (\<lambda>url. ret (data 200 (JObj [(''url'', JStr url)]) (br_rid rt)))))))))))))"

definition portal :: "billing_rt \<Rightarrow> user_row \<Rightarrow> ('z billing_db_scheme, response) core_prog" where
  "portal rt user =
     guard (configured rt) (not_configured ''billing is not configured'')
     (guard (or_empty (cu_stripeCustomerId user) \<noteq> []) (HttpError 409 ''INVALID_TRANSITION'' ''no billing account'' JNull)
      (at_provider ''stripe portal session failed''
        (and_then (stripe rt ''POST'' ''/v1/billing_portal/sessions''
            [(''customer'', or_empty (cu_stripeCustomerId user)), (''return_url'', setting rt ''STRIPE_PORTAL_RETURN_URL'')]) (\<lambda>session.
         and_then (from_sum (session_url session)) (\<lambda>url. ret (data 200 (JObj [(''url'', JStr url)]) (br_rid rt)))))))"

text \<open>\<open>encodeURIComponent\<close> is the argument \<open>uri\<close>.\<close>

fun cancel_each :: "billing_rt \<Rightarrow> (string \<Rightarrow> string) \<Rightarrow> jv list \<Rightarrow> ('z billing_db_scheme, unit) core_prog" where
  "cancel_each rt uri [] = ret ()"
| "cancel_each rt uri (sub # subs) =
     guard (\<not> nullish sub) (Thrown ''no subscription'')
      (and_then (stripe rt ''DELETE'' (''/v1/subscriptions/'' @ uri (js_String (jget sub ''id''))) []) (\<lambda>_. cancel_each rt uri subs))"

definition cancelSubscriptions :: "billing_rt \<Rightarrow> (string \<Rightarrow> string) \<Rightarrow> user_row \<Rightarrow> string option \<Rightarrow> ('z billing_db_scheme, unit) core_prog" where
  "cancelSubscriptions rt uri user customerId =
     (let customer = or_empty (case customerId of Some c \<Rightarrow> Some c | None \<Rightarrow> cu_stripeCustomerId user) in
      if \<not> configured rt \<or> customer = [] then ret ()
      else catching
        (and_then (stripe rt ''GET'' (''/v1/subscriptions?limit=100&customer='' @ uri customer) []) (\<lambda>listed.
           cancel_each rt uri (case jget listed ''data'' of JArr subs \<Rightarrow> subs | _ \<Rightarrow> [])))
        (\<lambda>x. throw (provider_error ''stripe subscription cancel failed'')))"

end
