(* ===== verification/Webhooks.thy ===== *)
theory Webhooks
  imports Billing
begin

text \<open>
  The second half of \<open>services/core-api/src/routes/billing.ts\<close>: Stripe's webhook with its signature and what
  its events do, the purchases verified with the app stores, and the notifications of the stores.
\<close>

subsection \<open>The signature\<close>

record signature =
  sg_stamp :: jsnum
  sg_sigs :: "string list"

definition signature_part :: "string \<Rightarrow> signature \<Rightarrow> signature" where
  "signature_part part s =
     (case split_on CHR ''='' (js_trim part) of
        k # v # rest \<Rightarrow>
          if k = ''t'' then s\<lparr>sg_stamp := num_of_string v\<rparr>
          else if k = ''v1'' then s\<lparr>sg_sigs := sg_sigs s @ [join ''='' (v # rest)]\<rparr> else s
      | _ \<Rightarrow> s)"

definition signature_of :: "string \<Rightarrow> signature" where
  "signature_of h = fold signature_part (split_on CHR '','' h) \<lparr>sg_stamp = Fin 0, sg_sigs = []\<rparr>"

text \<open>A number in a template text.\<close>

definition number_text :: "billing_rt \<Rightarrow> rat \<Rightarrow> string" where
  "number_text rt q = (if of_int (floor q) = q then int_dec (floor q) else br_frac rt q)"

definition verifyStripe :: "billing_rt \<Rightarrow> string \<Rightarrow> string \<Rightarrow> string \<Rightarrow> int \<Rightarrow> core_exn + unit" where
  "verifyStripe rt payload h secret now =
     (let s = signature_of h in
      case sg_stamp s of
        Fin q \<Rightarrow>
          if q = 0 \<or> sg_sigs s = [] then Inl (Thrown ''missing signature'')
          else if TOLERANCE < abs (of_int (now div 1000) - q) then Inl (Thrown ''stale timestamp'')
          else if list_ex (\<lambda>sig. same sig (hmacSha256Hex (br_hmac rt) secret (number_text rt q @ ''.'' @ payload))) (sg_sigs s)
          then Inr () else Inl (Thrown ''signature mismatch'')
      | NaN \<Rightarrow> Inl (Thrown ''missing signature'')
      | _ \<Rightarrow> Inl (Thrown (if sg_sigs s = [] then ''missing signature'' else ''stale timestamp'')))"

subsection \<open>Events of Stripe\<close>

definition metaOf :: "jv \<Rightarrow> jv" where
  "metaOf obj = (case jget obj ''metadata'' of JObj kvs \<Rightarrow> JObj kvs | _ \<Rightarrow> JObj [])"

definition positiveInt :: "jv \<Rightarrow> int option" where
  "positiveInt v = (case js_Number v of
       Fin q \<Rightarrow> if of_int (floor q) = q \<and> 0 < q \<and> q \<le> 9007199254740991 then Some (floor q) else None
     | _ \<Rightarrow> None)"

definition bad_reference :: core_exn where
  "bad_reference = validation ''invalid session reference''"

definition unsupported_plan :: core_exn where
  "unsupported_plan = validation ''unsupported plan''"

definition checkoutCompleted :: "billing_rt \<Rightarrow> jv \<Rightarrow> ('z billing_db_scheme, unit) core_prog" where
  "checkoutCompleted rt obj =
     (if jget obj ''payment_status'' = JStr ''unpaid'' then ret ()
      else
        (let meta = metaOf obj; employer = (first_text [jget meta ''audience''] = ''EMPLOYER'');
             reference = first_text [jget obj ''id''] in
         if \<not> nullish (jget meta ''amountMicroCredits'') \<and> js_String (jget meta ''amountMicroCredits'') \<noteq> [] then
           and_then (from_option unsupported_plan (positiveInt (jget meta ''amountMicroCredits''))) (\<lambda>micro.
             (let ownerId = first_text [jget meta ''ownerId'', jget obj ''client_reference_id''] in
              guard (uuid_text ownerId) bad_reference
               (if employer then companyLedger rt ownerId micro reference else userLedger rt ownerId micro reference)))
         else if employer then
           (let companyId = first_text [jget meta ''ownerId'', jget obj ''client_reference_id''];
                planId = first_text [jget meta ''plan'', jget meta ''planId''] in
            guard (uuid_text companyId) bad_reference
           (guard (planId \<in> set EMPLOYER_PLANS) unsupported_plan
           (and_then (pg_uuid rt companyId) (\<lambda>c.
            and_then (writing (update_firms (\<lambda>f. fm_id f = c)
               (\<lambda>f. f\<lparr>fm_plan := Some planId, fm_customer := coalesce_opt (nullif_empty (first_text [jget obj ''customer''])) (fm_customer f)\<rparr>))) (\<lambda>_.
              companyLedger rt companyId (grantMicro EMPLOYER planId) reference)))))
         else
           (let userId = first_text [jget obj ''client_reference_id'']; planId = first_text [jget meta ''planId''] in
            guard (uuid_text userId) bad_reference
           (guard (planId \<in> set PLANS \<and> planId \<noteq> ''FREE'') unsupported_plan
           (and_then (pg_uuid rt userId) (\<lambda>u.
              writing (PERSONAL_PURCHASE rt u planId (first_text [jget obj ''customer'']) (grantMicro PERSONAL planId) reference)))))))"

text \<open>\<open>v === env.NAME\<close>.\<close>

definition is_setting :: "billing_rt \<Rightarrow> jv \<Rightarrow> string \<Rightarrow> bool" where
  "is_setting rt v name \<longleftrightarrow> (case br_env rt name of None \<Rightarrow> v = JUndef | Some s \<Rightarrow> v = JStr s)"

definition employerPlanByPrice :: "billing_rt \<Rightarrow> jv \<Rightarrow> string option" where
  "employerPlanByPrice rt priceId =
     (if is_setting rt priceId ''STRIPE_PRICE_EMPLOYER_BASIC'' then Some ''BASIC''
      else if is_setting rt priceId ''STRIPE_PRICE_EMPLOYER_PRO'' then Some ''PRO''
      else if is_setting rt priceId ''STRIPE_PRICE_EMPLOYER_ULTRA'' then Some ''ULTRA'' else None)"

definition personalPlanByPrice :: "billing_rt \<Rightarrow> jv \<Rightarrow> string option" where
  "personalPlanByPrice rt priceId =
     (if is_setting rt priceId ''STRIPE_PRICE_PRO'' then Some ''PRO''
      else if is_setting rt priceId ''STRIPE_PRICE_ULTRA'' then Some ''ULTRA'' else None)"

definition price_of :: "jv \<Rightarrow> jv" where
  "price_of obj = (let i = jget (case jget (jget obj ''items'') ''data'' of JArr (x # _) \<Rightarrow> jget x ''price'' | _ \<Rightarrow> JUndef) ''id'' in
     if truthy i then i else JStr [])"

definition subscriptionChanged :: "billing_rt \<Rightarrow> string \<Rightarrow> jv \<Rightarrow> ('z billing_db_scheme, unit) core_prog" where
  "subscriptionChanged rt kind obj =
     (let customer = first_text [jget obj ''customer'']; priceId = price_of obj;
          canceled = (kind = ''customer.subscription.deleted'' \<or> (if nullish (jget obj ''status'') then [] else js_String (jget obj ''status'')) \<in> set ENDED) in
      guard (customer \<noteq> []) (validation ''invalid subscription payload'')
     (and_then (reading (\<lambda>db. list_ex (\<lambda>f. fm_customer f = Some customer) (firms db))) (\<lambda>company.
      and_then (writing (update_firms (\<lambda>f. fm_customer f = Some customer)
          (\<lambda>f. f\<lparr>fm_plan := (if canceled then None
             else coalesce_opt (if truthy priceId then employerPlanByPrice rt priceId else None) (fm_plan f))\<rparr>))) (\<lambda>_.
        if company then ret ()
        else and_then (if truthy (jget obj ''current_period_end'')
               then from_option (Thrown ''Invalid time value'') (map_option Some (epoch_ms (jget obj ''current_period_end''))) else ret None) (\<lambda>period.
          (let plan = (if canceled then Some ''FREE'' else if truthy priceId then personalPlanByPrice rt priceId else None) in
           and_then (reading (\<lambda>db. list_ex (\<lambda>p. py_customer p = Some customer) (payers db))) (\<lambda>updated.
           and_then (writing (update_payers (\<lambda>p. py_customer p = Some customer)
               (\<lambda>p. p\<lparr>py_status := (if canceled then ''CANCELED'' else ''ACTIVE''), py_period := coalesce_opt period (py_period p),
                  py_plan := (case plan of None \<Rightarrow> py_plan p | Some n \<Rightarrow> n)\<rparr>))) (\<lambda>_.
             guard updated internal_error (ret ())))))))))"

definition received :: "string \<Rightarrow> response" where
  "received rid = data 200 (JObj [(''received'', JBool True)]) rid"

definition event_work :: "billing_rt \<Rightarrow> jv \<Rightarrow> ('z billing_db_scheme, unit) core_prog" where
  "event_work rt event =
     (let obj = jget (jget event ''data'') ''object''; kind = jget event ''type'' in
      if kind = JStr ''checkout.session.completed'' \<or> kind = JStr ''checkout.session.async_payment_succeeded'' then checkoutCompleted rt obj
      else if kind = JStr ''customer.subscription.updated'' \<or> kind = JStr ''customer.subscription.deleted''
      then subscriptionChanged rt (js_String kind) obj
      else ret ())"

text \<open>The event of a signed body: text that is not JSON is an empty object, and \<open>null\<close> has no fields to
  read.\<close>

definition event_of :: "billing_rt \<Rightarrow> request \<Rightarrow> core_exn + jv" where
  "event_of rt rq =
     (if rq_body rq = [] then Inl (validation ''unreadable body'')
      else if \<not> configured rt \<or> setting rt ''STRIPE_WEBHOOK_SECRET'' = [] then Inl (not_configured ''billing is not configured'')
      else case verifyStripe rt (rq_body rq) (header rq ''stripe-signature'') (setting rt ''STRIPE_WEBHOOK_SECRET'') (br_now rt) of
        Inl x \<Rightarrow> Inl (validation ''invalid webhook signature'')
      | Inr _ \<Rightarrow>
          (case br_jp rt (rq_body rq) of
             Some JNull \<Rightarrow> Inl (Thrown ''Cannot read properties of null'')
           | parsed \<Rightarrow>
               (let event = (case parsed of None \<Rightarrow> JObj [] | Some v \<Rightarrow> v) in
                if truthy (jget event ''id'') then Inr event else Inl (validation ''invalid webhook payload''))))"

definition webhook :: "billing_rt \<Rightarrow> request \<Rightarrow> ('z billing_db_scheme, response) core_prog" where
  "webhook rt rq =
     and_then (from_sum (event_of rt rq)) (\<lambda>event.
       (let i = js_String (jget event ''id'') in
        and_then (\<lambda>db. (Inr (fst (INSERT_EVENT i db)), snd (INSERT_EVENT i db))) (\<lambda>fresh.
          if \<not> fresh then ret (received (br_rid rt))
          else and_then (catching (event_work rt event) (\<lambda>x. and_then (writing (DELETE_EVENT i)) (\<lambda>_. throw x)))
            (\<lambda>_. ret (received (br_rid rt))))))"

subsection \<open>Purchases of the stores\<close>

datatype product_kind = Kind_PRO | Kind_ULTRA | Kind_TOPUP | Kind_UNKNOWN | Kind_MISSING

definition productKind :: "billing_rt \<Rightarrow> string \<Rightarrow> product_kind" where
  "productKind rt productId =
     (let pro = setting rt ''IAP_PRODUCT_PRO''; ultra = setting rt ''IAP_PRODUCT_ULTRA''; top = setting rt ''IAP_PRODUCT_TOPUP'' in
      if pro = [] \<and> ultra = [] \<and> top = [] then Kind_MISSING
      else if pro \<noteq> [] \<and> productId = pro then Kind_PRO
      else if ultra \<noteq> [] \<and> productId = ultra then Kind_ULTRA
      else if top \<noteq> [] \<and> productId = top then Kind_TOPUP else Kind_UNKNOWN)"

definition requireKind :: "billing_rt \<Rightarrow> string \<Rightarrow> core_exn + product_kind" where
  "requireKind rt productId =
     (case productKind rt productId of
        Kind_MISSING \<Rightarrow> Inl (not_configured ''iap products are not configured'')
      | Kind_UNKNOWN \<Rightarrow> Inl (field_error ''productId'' ''unknown product'')
      | kind \<Rightarrow> Inr kind)"

definition kind_plan :: "product_kind \<Rightarrow> string" where
  "kind_plan k = (case k of Kind_PRO \<Rightarrow> ''PRO'' | Kind_ULTRA \<Rightarrow> ''ULTRA'' | Kind_TOPUP \<Rightarrow> ''TOPUP'' | Kind_UNKNOWN \<Rightarrow> ''UNKNOWN''
     | Kind_MISSING \<Rightarrow> ''MISSING'')"

definition claimed_by_other :: core_exn where
  "claimed_by_other = HttpError 409 ''CONFLICT'' ''purchase belongs to another account'' JNull"

definition claim_step :: "iap_row \<Rightarrow> ('z billing_db_scheme, bool) core_prog" where
  "claim_step r db = (Inr (fst (CLAIM_PURCHASE r db)), snd (CLAIM_PURCHASE r db))"

definition claimPurchase :: "billing_rt \<Rightarrow> user_row \<Rightarrow> string \<Rightarrow> receipt \<Rightarrow> string \<Rightarrow> ('z billing_db_scheme, unit) core_prog" where
  "claimPurchase rt user platform r status =
     and_then (pg_time rt (rc_expires r)) (\<lambda>expires.
     and_then (claim_step \<lparr>ia_user = cu_id user, ia_platform = platform, ia_transaction = rc_transaction r,
         ia_product = rc_product r, ia_expires = expires, ia_status = status, ia_sandbox = rc_sandbox r\<rparr>)
       (\<lambda>row. guard row claimed_by_other (ret ())))"

definition nonempty_text :: "jv \<Rightarrow> bool" where
  "nonempty_text v \<longleftrightarrow> (case v of JStr s \<Rightarrow> s \<noteq> [] | _ \<Rightarrow> False)"

text \<open>A date that does not parse compares as \<open>NaN\<close>.\<close>

definition run_out :: "billing_rt \<Rightarrow> receipt \<Rightarrow> bool" where
  "run_out rt r \<longleftrightarrow> (case rc_expires r of None \<Rightarrow> False
     | Some e \<Rightarrow> (case br_dp rt e of None \<Rightarrow> False | Some t \<Rightarrow> t \<le> br_now rt))"

definition verifyIap :: "billing_rt \<Rightarrow> user_row \<Rightarrow> request \<Rightarrow> ('z billing_db_scheme, response) core_prog" where
  "verifyIap rt user rq =
     and_then (from_sum (readJson (br_jp rt) rq)) (\<lambda>body.
       (let platform = jget body ''platform''; apple = (platform = JStr ''APP_STORE'');
            signed = jget body ''signedTransaction''; token = jget body ''purchaseToken'' in
        guard (apple \<or> platform = JStr ''GOOGLE_PLAY'') (field_error ''platform'' ''invalid request body'')
       (and_then (case jget body ''productId'' of
             JStr p \<Rightarrow> if p = [] then throw (field_error ''productId'' ''invalid request body'') else ret p
           | _ \<Rightarrow> throw (field_error ''productId'' ''invalid request body'')) (\<lambda>productId.
        and_then (from_sum (requireKind rt productId)) (\<lambda>kind.
        guard (\<not> (kind \<noteq> Kind_TOPUP \<and> cu_subscriptionStatus user = ''ACTIVE'' \<and> or_empty (cu_stripeCustomerId user) \<noteq> []))
          (HttpError 409 ''ALREADY_SUBSCRIBED'' ''already subscribed'' JNull)
       (guard (apple \<longrightarrow> nonempty_text signed) (field_error ''signedTransaction'' ''invalid request body'')
       (guard (\<not> apple \<longrightarrow> nonempty_text token) (field_error ''purchaseToken'' ''invalid request body'')
       (and_then (from_sum (if apple then br_apple rt (js_String signed) else br_google rt (js_String token) productId (kind \<noteq> Kind_TOPUP))) (\<lambda>r.
        and_then (from_sum (requireKind rt (rc_product r))) (\<lambda>bought.
        guard (bought = kind) (field_error ''productId'' ''unknown product'')
       (guard (\<not> (kind \<noteq> Kind_TOPUP \<and> run_out rt r))
          (validation ''purchase is not valid'')
       (and_then (claimPurchase rt user (js_String platform) r (if kind = Kind_TOPUP then ''CONSUMED'' else ''ACTIVE'')) (\<lambda>_.
        if kind = Kind_TOPUP then
          and_then (userLedger rt (cu_id user) (int (iapTopupMicro (br_env rt ''IAP_TOPUP_CREDITS''))) (rc_transaction r)) (\<lambda>_.
          and_then (from_sum (ts (br_dp rt) (optional_text (cu_periodEndsAt user)))) (\<lambda>period.
            ret (data 200 (JObj [(''plan'', optional_text (nullif_empty (cu_plan user))), (''periodEndsAt'', optional_text period)]) (br_rid rt))))
        else
          and_then (pg_time rt (rc_expires r)) (\<lambda>period.
          and_then (writing (SET_PLAN (cu_id user) (kind_plan kind) ''ACTIVE'' period)) (\<lambda>_.
          and_then (userLedger rt (cu_id user) (grantMicro PERSONAL (kind_plan kind)) (rc_transaction r)) (\<lambda>_.
          and_then (from_sum (ts (br_dp rt) (optional_text (rc_expires r)))) (\<lambda>shown.
            ret (data 200 (JObj [(''plan'', JStr (kind_plan kind)), (''periodEndsAt'', optional_text shown)]) (br_rid rt)))))))))))))))))))"

subsection \<open>Notifications of the stores\<close>

definition ENDING :: "string list" where "ENDING = [''REFUND'', ''EXPIRED'', ''REVOKE'', ''GRACE_PERIOD_EXPIRED'']"

definition GRANTING :: "string list" where "GRANTING = [''PURCHASE'', ''RENEWAL'', ''SUBSCRIBED'', ''DID_RENEW'']"

definition grantNote :: "billing_rt \<Rightarrow> store_note \<Rightarrow> ('z billing_db_scheme, unit) core_prog" where
  "grantNote rt n =
     (let upper = toUpperCase (nt_type n); t = nt_transaction n in
      if upper \<in> set ENDING then
        and_then (reading (purchase_of t)) (\<lambda>row.
        and_then (pg_time rt (nt_expires n)) (\<lambda>expires.
        and_then (writing (update_purchases t (\<lambda>x. x\<lparr>ia_status := ''CANCELED'', ia_expires := coalesce_opt expires (ia_expires x), ia_sandbox := nt_sandbox n\<rparr>))) (\<lambda>_.
          case row of None \<Rightarrow> ret () | Some x \<Rightarrow> writing (SET_PLAN (ia_user x) ''FREE'' ''CANCELED'' expires))))
      else if upper \<notin> set GRANTING \<or> t = [] then ret ()
      else and_then (from_sum (requireKind rt (nt_product n))) (\<lambda>kind.
        and_then (reading (purchase_of t)) (\<lambda>row.
          case row of
            None \<Rightarrow> ret ()
          | Some x \<Rightarrow>
              if kind = Kind_TOPUP then userLedger rt (ia_user x) (int (iapTopupMicro (br_env rt ''IAP_TOPUP_CREDITS''))) t
              else
                and_then (pg_time rt (nt_expires n)) (\<lambda>expires.
                and_then (writing (update_purchases t (\<lambda>y. y\<lparr>ia_status := ''ACTIVE'', ia_product := nt_product n,
                    ia_expires := coalesce_opt expires (ia_expires y), ia_sandbox := nt_sandbox n\<rparr>))) (\<lambda>_.
                and_then (writing (SET_PLAN (ia_user x) (kind_plan kind) ''ACTIVE'' expires)) (\<lambda>_.
                  userLedger rt (ia_user x) (grantMicro PERSONAL (kind_plan kind)) t))))))"

definition appleWebhook :: "billing_rt \<Rightarrow> request \<Rightarrow> ('z billing_db_scheme, response) core_prog" where
  "appleWebhook rt rq =
     guard (rq_body rq \<noteq> []) (validation ''unreadable body'')
      (and_then (from_sum (br_apple_note rt (rq_body rq))) (\<lambda>n.
       and_then (grantNote rt n) (\<lambda>_. ret (received (br_rid rt)))))"

definition googleWebhook :: "billing_rt \<Rightarrow> request \<Rightarrow> ('z billing_db_scheme, response) core_prog" where
  "googleWebhook rt rq =
     guard (rq_body rq \<noteq> []) (validation ''unreadable body'')
      (and_then (from_option (validation ''invalid request body'') (br_jp rt (rq_body rq))) (\<lambda>body.
       and_then (from_sum (br_google_note rt body (jm_get (rq_headers rq) ''authorization''))) (\<lambda>n.
       and_then (grantNote rt (n\<lparr>nt_sandbox := False\<rparr>)) (\<lambda>_. ret (received (br_rid rt))))))"

subsection \<open>The ledger page\<close>

text \<open>A cell \<open>created_at\<close> of the ledger as the driver delivers it.\<close>

definition ledger_item :: "(string \<Rightarrow> int option) \<Rightarrow> ledger_row \<Rightarrow> jv" where
  "ledger_item dp r = JObj [(''id'', JStr (lg_id r)), (''type'', JStr (lg_type r)), (''amountMicroCredits'', JNum (lg_amount r)),
     (''balanceAfter'', JNum (lg_balance r)), (''referenceId'', JStr (lg_reference r)),
     (''createdAt'', optional_text (formatJsonTimestamp dp (TDate (lg_at r))))]"

definition before :: "int \<times> string \<Rightarrow> ledger_row \<Rightarrow> bool" where
  "before c r \<longleftrightarrow> row_key r < c"

text \<open>\<open>ORDER BY created_at DESC, id DESC LIMIT n\<close>.\<close>

definition newest_first :: "nat \<Rightarrow> ledger_row list \<Rightarrow> ledger_row list" where
  "newest_first n rs = take n (rev (sort_key row_key rs))"

definition ledger_page :: "billing_rt \<Rightarrow> user_row \<Rightarrow> request \<Rightarrow> ('z billing_db_scheme, response) core_prog" where
  "ledger_page rt user rq =
     (let employer = (cu_accountType user = Employer_Account) in
      and_then (if employer then from_option not_found_error (map_option Company (own_company user)) else ret (User (cu_id user))) (\<lambda>a.
      and_then (from_sum (pageOf (br_dp rt) rq)) (\<lambda>pg.
      and_then (case pg_cursor pg of None \<Rightarrow> ret None
          | Some (at', i) \<Rightarrow> and_then (pg_time rt (Some at')) (\<lambda>t. ret (map_option (\<lambda>m. (m, i)) t))) (\<lambda>c.
      and_then (reading (\<lambda>db. newest_first (pg_limit pg + 1)
          (filter (\<lambda>r. on_account a r \<and> (case c of None \<Rightarrow> True | Some k \<Rightarrow> before k r)) (ledger db)))) (\<lambda>rows.
      and_then (from_option (Thrown ''bad timestamp'')
          (pageResult (br_dp rt) rows (pg_limit pg) (\<lambda>r. (TDate (lg_at r), lg_id r)))) (\<lambda>p.
        ret (page_body (map (ledger_item (br_dp rt)) (pr_items p)) (pr_next p) (pr_more p) (br_rid rt) None)))))))"

end
