(* ===== verification/Frames.thy ===== *)
theory Frames
  imports Core_Http
begin

text \<open>
  Frames of programs: a relation between the states before and after that holds whatever the program
  answers. The rules are proved once, in a locale for relations that are reflexive (one part of the
  program writes, the others only read) and in its extension for those that are transitive as well.
\<close>

definition moves :: "('s \<Rightarrow> 's \<Rightarrow> bool) \<Rightarrow> ('s, 'a) core_prog \<Rightarrow> bool" where
  "moves R m \<longleftrightarrow> (\<forall>s. R s (snd (m s)))"

lemma movesD: "moves R m \<Longrightarrow> m s = (r, s') \<Longrightarrow> R s s'"
  unfolding moves_def by (metis snd_conv)

locale touch =
  fixes R :: "'s \<Rightarrow> 's \<Rightarrow> bool"
  assumes refl: "R s s"
begin

lemma m_quiet: "moves R (ret x)" "moves R (throw e)" "moves R (from_option e v)" "moves R (from_sum w)" "moves R (reading g)"
  by (auto simp: moves_def prog_defs refl split: option.split)

lemma m_guard: "moves R m \<Longrightarrow> moves R (guard b e m)"
  by (auto simp: moves_def guard_def refl)

lemma m_write: "(\<And>s. R s (g s)) \<Longrightarrow> moves R (writing g)"
  by (simp add: moves_def writing_def)

lemma m_last: "moves (=) m \<Longrightarrow> (\<And>a. moves R (f a)) \<Longrightarrow> moves R (and_then m f)"
  unfolding moves_def and_then_def by (auto split: sum.split prod.split) (metis snd_conv refl)+

lemma m_first: "moves R m \<Longrightarrow> (\<And>a. moves (=) (f a)) \<Longrightarrow> moves R (and_then m f)"
  unfolding moves_def and_then_def by (auto split: sum.split prod.split) (metis snd_conv)+

end

locale stable = touch R for R :: "'s \<Rightarrow> 's \<Rightarrow> bool" +
  assumes trans: "R s t \<Longrightarrow> R t u \<Longrightarrow> R s u"
begin

lemma m_then: "moves R m \<Longrightarrow> (\<And>a. moves R (f a)) \<Longrightarrow> moves R (and_then m f)"
  unfolding moves_def and_then_def by (auto split: sum.split prod.split) (metis snd_conv trans)+

lemma m_catch: "moves R m \<Longrightarrow> (\<And>x. moves R (h x)) \<Longrightarrow> moves R (catching m h)"
  unfolding moves_def catching_def by (auto split: sum.split prod.split) (metis snd_conv trans)+

lemmas m_rules = m_then m_catch m_quiet m_guard m_write

end

interpretation same: stable "(=)"
  by unfold_locales simp_all

lemmas reads_only = same.m_then same.m_quiet same.m_guard

end
