(* ===== verification/Billing_Props.thy ===== *)
theory Billing_Props
  imports Webhooks Frames
begin

text \<open>What billing guarantees: events are processed once, only signed ones, a credit stays on record, and a
  purchase stays with the account that verified it first.\<close>

interpretation events: once "\<lambda>e. snd \<circ> INSERT_EVENT e" "\<lambda>e. e" "\<lambda>k db. k \<in> set (stripe_events db)"
  by unfold_locales (auto simp: INSERT_EVENT_def split: if_splits)

subsection \<open>What the statements leave alone\<close>

lemma tables_grant [simp]:
  "payers (grant_sql a i n r t db) = payers db" "firms (grant_sql a i n r t db) = firms db"
  "iap_rows (grant_sql a i n r t db) = iap_rows db" "stripe_events (grant_sql a i n r t db) = stripe_events db"
  "stripe_calls (grant_sql a i n r t db) = stripe_calls db"
  by (simp_all add: grant_sql_def)

lemma tables_update [simp]:
  "stripe_events (update_payers P f db) = stripe_events db" "iap_rows (update_payers P f db) = iap_rows db"
  "ledger (update_payers P f db) = ledger db" "firms (update_payers P f db) = firms db"
  "stripe_events (update_firms Q g db) = stripe_events db" "iap_rows (update_firms Q g db) = iap_rows db"
  "ledger (update_firms Q g db) = ledger db" "payers (update_firms Q g db) = payers db"
  "stripe_events (update_purchases u h db) = stripe_events db" "ledger (update_purchases u h db) = ledger db"
  "payers (update_purchases u h db) = payers db"
  "stripe_events (SET_PLAN v p s t db) = stripe_events db" "iap_rows (SET_PLAN v p s t db) = iap_rows db"
  "ledger (SET_PLAN v p s t db) = ledger db"
  "stripe_events (PERSONAL_PURCHASE rt v p c n r db) = stripe_events db" "iap_rows (PERSONAL_PURCHASE rt v p c n r db) = iap_rows db"
  by (simp_all add: update_payers_def update_firms_def update_purchases_def SET_PLAN_def PERSONAL_PURCHASE_def)

subsection \<open>Owners and the ledger\<close>

definition row_for :: "account \<Rightarrow> string \<Rightarrow> ledger_row \<Rightarrow> bool" where
  "row_for a reference r \<longleftrightarrow> in_unique_index a r \<and> lg_type r = ''PURCHASE'' \<and> lg_reference r = reference"

text \<open>At most one credit for an account and a reference.\<close>

definition credited_once :: "'z job_db_scheme \<Rightarrow> bool" where
  "credited_once db \<longleftrightarrow> (\<forall>a reference. length (filter (row_for a reference) (ledger db)) \<le> 1)"

definition owner_of_purchase :: "string \<Rightarrow> 'z billing_db_scheme \<Rightarrow> string option" where
  "owner_of_purchase t db = map_option ia_user (purchase_of t db)"

definition kept :: "'z billing_db_scheme \<Rightarrow> 'z billing_db_scheme \<Rightarrow> bool" where
  "kept db db' \<longleftrightarrow> (\<forall>t u. owner_of_purchase t db = Some u \<longrightarrow> owner_of_purchase t db' = Some u)
     \<and> (\<forall>k. granted k db \<longrightarrow> granted k db') \<and> (credited_once db \<longrightarrow> credited_once db')"

interpretation kept: stable kept
  by unfold_locales (auto simp: kept_def)

lemma kept_same: "iap_rows db' = iap_rows db \<Longrightarrow> ledger db' = ledger db \<Longrightarrow> kept db db'"
  by (simp add: kept_def owner_of_purchase_def purchase_of_def granted_def credited_once_def)

lemma granted_rows: "granted (a, reference) db \<longleftrightarrow> filter (row_for a reference) (ledger db) \<noteq> []"
  by (auto simp: granted_def row_for_def filter_empty_conv)

lemma kept_grant: "kept db (grant_sql a i n reference t db)"
proof -
  have "length (filter (row_for b q) (ledger (grant_sql a i n reference t db))) \<le> 1" if c: "credited_once db" for b q
  proof (cases "granted (a, reference) db")
    case True
    with c show ?thesis by (simp add: grant_sql_def credited_once_def)
  next
    case False
    then have "filter (row_for a reference) (ledger db) = []" by (simp add: granted_rows)
    with False c show ?thesis by (auto simp: grant_sql_def credited_once_def row_for_def)
  qed
  then show ?thesis by (simp add: kept_def owner_of_purchase_def purchase_of_def granted_grant_sql credited_once_def)
qed

lemma kept_ledger: "moves kept (ledger_insert rt a n reference)"
  by (simp add: moves_def ledger_insert_def kept_grant kept.refl)

lemma find_map_keep: "(\<And>x. P (f x) = P x) \<Longrightarrow> find P (map f xs) = map_option f (find P xs)"
  by (induction xs) auto

lemma kept_purchases: "(\<And>x. ia_user (f x) = ia_user x \<and> ia_transaction (f x) = ia_transaction x) \<Longrightarrow> kept db (update_purchases t f db)"
  by (simp add: kept_def owner_of_purchase_def purchase_of_def update_purchases_def granted_def credited_once_def find_map_keep option.map_comp comp_def
      if_distrib [of ia_user] cong: if_cong)

lemma kept_claim: "kept db (snd (CLAIM_PURCHASE r db))"
proof (cases "find (\<lambda>x. ia_transaction x = ia_transaction r) (iap_rows db)")
  case None
  then show ?thesis
    by (auto simp: CLAIM_PURCHASE_def kept_def owner_of_purchase_def purchase_of_def granted_def credited_once_def find_snoc split: option.splits)
next
  case (Some x)
  let ?f = "\<lambda>x. if ia_transaction x = ia_transaction r then r else x"
  have m: "find (\<lambda>y. ia_transaction y = t) (map ?f (iap_rows db)) = map_option ?f (find (\<lambda>y. ia_transaction y = t) (iap_rows db))" for t
    by (rule find_map_keep) auto
  have "owner_of_purchase t (db\<lparr>iap_rows := map ?f (iap_rows db)\<rparr>) = owner_of_purchase t db" if "ia_user x = ia_user r" for t
  proof (cases "find (\<lambda>y. ia_transaction y = t) (iap_rows db)")
    case None
    then show ?thesis using m [of t] by (simp add: owner_of_purchase_def purchase_of_def)
  next
    case found: (Some y)
    then have "ia_transaction y = t" by (auto simp: find_Some_iff)
    then have "ia_user (?f y) = ia_user y" using found Some that by auto
    then show ?thesis using m [of t] found by (simp add: owner_of_purchase_def purchase_of_def)
  qed
  then show ?thesis
    using Some by (simp add: CLAIM_PURCHASE_def kept_def granted_def credited_once_def)
qed

subsection \<open>Every handler keeps them\<close>

lemmas kept_rules = kept.m_rules kept_ledger

lemma kept_writes: "(\<And>db. iap_rows (g db) = iap_rows db \<and> ledger (g db) = ledger db) \<Longrightarrow> moves kept (writing g)"
  by (intro kept.m_write kept_same) auto

lemma kept_purchase_stmt: "moves kept (writing (PERSONAL_PURCHASE rt u p c n r))"
proof (rule kept.m_write)
  fix db :: "'a billing_db_scheme"
  have "kept (grant_sql (User u) (br_fresh rt) n r (br_now rt) db) (update_payers P f (grant_sql (User u) (br_fresh rt) n r (br_now rt) db))" for P f
    by (rule kept_same) simp_all
  from kept.trans [OF kept_grant this] show "kept db (PERSONAL_PURCHASE rt u p c n r db)"
    by (auto simp: PERSONAL_PURCHASE_def kept.refl)
qed

lemma kept_claiming: "moves kept (claim_step r)"
  by (simp add: moves_def claim_step_def kept_claim)

lemma kept_event: "moves kept (\<lambda>db. (Inr (fst (INSERT_EVENT i db)), snd (INSERT_EVENT i db)))"
  by (auto simp: moves_def INSERT_EVENT_def intro: kept_same)

lemma kept_delete: "moves kept (writing (DELETE_EVENT i))"
  by (rule kept_writes) (simp add: DELETE_EVENT_def)

lemma kept_casts: "moves kept (pg_uuid rt v)" "moves kept (pg_time rt w)"
  by (auto simp: pg_uuid_def pg_time_def intro: kept.m_rules split: option.split)

lemma kept_ledgers: "moves kept (userLedger rt u n r)" "moves kept (companyLedger rt c n r)"
  by (auto simp: userLedger_def companyLedger_def intro!: kept_rules kept_casts)

lemma kept_checkout: "moves kept (checkoutCompleted rt obj)"
  unfolding checkoutCompleted_def Let_def
  by (auto intro!: kept_rules kept_casts kept_ledgers kept_purchase_stmt kept_same)

lemma kept_subscription: "moves kept (subscriptionChanged rt kind obj)"
  unfolding subscriptionChanged_def Let_def by (auto intro!: kept_rules kept_same)

lemma kept_webhook: "moves kept (webhook rt rq)"
  unfolding webhook_def event_work_def Let_def
  by (auto intro!: kept_rules kept_event kept_delete kept_checkout kept_subscription)

lemma kept_note: "moves kept (grantNote rt n)"
  unfolding grantNote_def Let_def
  by (auto intro!: kept_rules kept_casts kept_ledgers kept_purchases kept_same split: option.split)

lemma kept_verify: "moves kept (verifyIap rt user rq)"
  unfolding verifyIap_def claimPurchase_def Let_def
  by (auto intro!: kept_rules kept_casts kept_ledgers kept_claiming kept_same split: json.split)

lemma kept_available: "moves kept (availableMicro u c)"
proof -
  have "moves kept (settled_sql a)" for a
    by (auto simp: moves_def settled_sql_def kept.refl split: option.split)
  then show ?thesis
    unfolding availableMicro_def settledMicro_def Let_def by (auto intro!: kept_rules)
qed

lemma kept_monthly: "kept db (grantMonthly rt aud plan o' db)"
  by (simp add: grantMonthly_def ensureMonthlyGrant_def Let_def kept_grant kept.refl)

lemma kept_status: "moves kept (billingStatus rt uses user)"
  unfolding billingStatus_def Let_def
  by (auto intro!: kept_rules kept_available kept_monthly)

text \<open>The requests of billing, in any order.\<close>

inductive billing_step :: "'z billing_db_scheme \<Rightarrow> 'z billing_db_scheme \<Rightarrow> bool" where
  B_webhook: "webhook rt rq db = (r, db') \<Longrightarrow> billing_step db db'"
| B_verify: "verifyIap rt user rq db = (r, db') \<Longrightarrow> billing_step db db'"
| B_apple: "appleWebhook rt rq db = (r, db') \<Longrightarrow> billing_step db db'"
| B_google: "googleWebhook rt rq db = (r, db') \<Longrightarrow> billing_step db db'"
| B_status: "billingStatus rt uses user db = (r, db') \<Longrightarrow> billing_step db db'"

lemma step_kept: "billing_step db db' \<Longrightarrow> kept db db'"
proof (induction rule: billing_step.induct)
  case (B_apple rt rq db r db')
  have "moves kept (appleWebhook rt rq)" unfolding appleWebhook_def by (auto intro!: kept_rules kept_note)
  from movesD [OF this B_apple] show ?case .
next
  case (B_google rt rq db r db')
  have "moves kept (googleWebhook rt rq)" unfolding googleWebhook_def by (auto intro!: kept_rules kept_note)
  from movesD [OF this B_google] show ?case .
qed (auto dest: movesD [OF kept_webhook] movesD [OF kept_verify] movesD [OF kept_status])

lemma steps_kept: "billing_step\<^sup>*\<^sup>* db db' \<Longrightarrow> kept db db'"
  by (induction rule: rtranclp_induct) (auto intro: kept.refl kept.trans dest: step_kept)

subsection \<open>What is promised\<close>

text \<open>A program that ends with an error and changes nothing.\<close>

definition stops :: "('s, 'a) core_prog \<Rightarrow> 's \<Rightarrow> bool" where
  "stops m s \<longleftrightarrow> (\<exists>x. m s = (Inl x, s))"

lemma stops_first: "stops m s \<Longrightarrow> stops (and_then m f) s"
  by (auto simp: stops_def and_then_def)

lemma stops_sum: "(\<And>a. v = Inr a \<Longrightarrow> stops (f a) s) \<Longrightarrow> stops (and_then (from_sum v) f) s"
  by (cases v) (auto simp: stops_def seq_simps)

lemma stops_text: "(\<And>p. stops (f p) s) \<Longrightarrow> stops (and_then (case v of JStr p \<Rightarrow> if p = [] then throw e else ret p | _ \<Rightarrow> throw e) f) s"
  by (auto simp: stops_def seq_simps split: json.split)

lemma stops_guard: "(b \<Longrightarrow> stops m s) \<Longrightarrow> stops (guard b e m) s"
  by (auto simp: stops_def guard_def)

lemma stops_claim:
  assumes "owner_of_purchase (rc_transaction r) db = Some u" and "cu_id user \<noteq> u"
  shows "stops (claimPurchase rt user platform r status) db"
proof -
  obtain x where "find (\<lambda>x. ia_transaction x = rc_transaction r) (iap_rows db) = Some x" "ia_user x = u"
    using assms(1) by (auto simp: owner_of_purchase_def purchase_of_def)
  with assms(2) show ?thesis
    by (auto simp: stops_def claimPurchase_def and_then_def pg_time_def from_option_def claim_step_def CLAIM_PURCHASE_def guard_def split: option.split)
qed

lemma stops_verify:
  assumes "\<And>s r. br_apple rt s = Inr r \<Longrightarrow> rc_transaction r = t" and "\<And>s p b r. br_google rt s p b = Inr r \<Longrightarrow> rc_transaction r = t"
    and "owner_of_purchase t db = Some u" and "cu_id user \<noteq> u"
  shows "stops (verifyIap rt user rq) db"
proof -
  have claim: "stops (claimPurchase rt user platform r status) db" if "rc_transaction r = t" for platform r status
    using stops_claim [of r] assms(3,4) that by simp
  show ?thesis
    unfolding verifyIap_def Let_def
    by (intro stops_sum stops_guard stops_text stops_first [OF claim]) (auto dest: assms(1,2) split: if_splits)
qed

text \<open>C25: A purchase belongs to the account that verified it first. Whatever requests of billing follow, its
  owner stays; and when another account presents the store's receipt for it, the request fails and
  changes nothing: neither a plan nor credits.\<close>

theorem purchase_belongs:
  assumes "billing_step\<^sup>*\<^sup>* db db'" and "owner_of_purchase t db = Some u"
  shows "owner_of_purchase t db' = Some u
    \<and> (cu_id user \<noteq> u \<and> (\<forall>s r. br_apple rt s = Inr r \<longrightarrow> rc_transaction r = t) \<and> (\<forall>s p b r. br_google rt s p b = Inr r \<longrightarrow> rc_transaction r = t)
         \<longrightarrow> (\<exists>x. verifyIap rt user rq db' = (Inl x, db')))"
proof
  show o': "owner_of_purchase t db' = Some u" using steps_kept [OF assms(1)] assms(2) by (simp add: kept_def)
  show "cu_id user \<noteq> u \<and> (\<forall>s r. br_apple rt s = Inr r \<longrightarrow> rc_transaction r = t) \<and> (\<forall>s p b r. br_google rt s p b = Inr r \<longrightarrow> rc_transaction r = t)
         \<longrightarrow> (\<exists>x. verifyIap rt user rq db' = (Inl x, db'))"
    using stops_verify [OF _ _ o', of rt user rq] by (auto simp: stops_def)
qed

subsection \<open>Events\<close>

definition same_events :: "'z billing_db_scheme \<Rightarrow> 'z billing_db_scheme \<Rightarrow> bool" where
  "same_events db db' \<longleftrightarrow> stripe_events db' = stripe_events db"

interpretation same_events: stable same_events
  by unfold_locales (auto simp: same_events_def)

lemmas event_rules = same_events.m_rules

lemma events_pieces: "moves same_events (pg_uuid rt v)" "moves same_events (pg_time rt w)" "moves same_events (ledger_insert rt a n reference)"
  "moves same_events (claim_step r)"
  by (auto simp: moves_def same_events_def pg_uuid_def pg_time_def from_option_def ledger_insert_def claim_step_def CLAIM_PURCHASE_def split: option.split)

lemma events_ledgers: "moves same_events (userLedger rt u n r)" "moves same_events (companyLedger rt c n r)"
  by (auto simp: userLedger_def companyLedger_def intro!: event_rules events_pieces)

lemma events_write: "(\<And>db. stripe_events (g db) = stripe_events db) \<Longrightarrow> moves same_events (writing g)"
  by (simp add: moves_def writing_def same_events_def)

lemma events_checkout: "moves same_events (checkoutCompleted rt obj)"
  unfolding checkoutCompleted_def Let_def
  by (auto intro!: event_rules events_pieces events_ledgers events_write)

lemma events_subscription: "moves same_events (subscriptionChanged rt kind obj)"
  unfolding subscriptionChanged_def Let_def by (auto intro!: event_rules events_write)

lemma events_work: "moves same_events (event_work rt event)"
  unfolding event_work_def Let_def
  by (auto intro!: events_checkout events_subscription event_rules)

lemma events_note: "moves same_events (grantNote rt n)"
  unfolding grantNote_def Let_def
  by (auto intro!: event_rules events_pieces events_ledgers simp: same_events_def split: option.split)

lemma events_verify: "moves same_events (verifyIap rt user rq)"
  unfolding verifyIap_def claimPurchase_def Let_def
  by (auto intro!: event_rules events_pieces events_ledgers simp: same_events_def split: json.split)

lemma events_status: "moves same_events (billingStatus rt uses user)"
proof -
  have "moves same_events (settled_sql a)" for a
    by (auto simp: moves_def settled_sql_def same_events_def split: option.split)
  then show ?thesis
    unfolding billingStatus_def availableMicro_def settledMicro_def Let_def
    by (auto intro!: event_rules simp: same_events_def grantMonthly_def ensureMonthlyGrant_def Let_def)
qed

lemma webhook_cases:
  "webhook rt rq db =
     (case event_of rt rq of
        Inl x \<Rightarrow> (Inl x, db)
      | Inr event \<Rightarrow>
          (let i = js_String (jget event ''id'') in
           if i \<in> set (stripe_events db) then (Inr (received (br_rid rt)), db)
           else (case event_work rt event (db\<lparr>stripe_events := stripe_events db @ [i]\<rparr>) of
               (Inl x, db1) \<Rightarrow> (Inl x, DELETE_EVENT i db1)
             | (Inr _, db1) \<Rightarrow> (Inr (received (br_rid rt)), db1))))"
  by (simp add: webhook_def Let_def INSERT_EVENT_def and_then_def catching_def writing_def from_sum_def split: sum.split prod.split)

lemma webhook_events:
  assumes "webhook rt rq db = (r, db')"
  shows "set (stripe_events db) \<subseteq> set (stripe_events db')
    \<and> ((\<exists>x. r = Inl x) \<longrightarrow> stripe_events db' = stripe_events db)
    \<and> (\<forall>rs e. r = Inr rs \<and> event_of rt rq = Inr e \<longrightarrow> js_String (jget e ''id'') \<in> set (stripe_events db'))"
proof (cases "event_of rt rq")
  case (Inl x)
  with assms show ?thesis by (auto simp: webhook_cases)
next
  case (Inr e)
  let ?i = "js_String (jget e ''id'')"
  show ?thesis
  proof (cases "?i \<in> set (stripe_events db)")
    case True
    with Inr assms show ?thesis by (auto simp: webhook_cases)
  next
    case False
    obtain r1 db1 where w: "event_work rt e (db\<lparr>stripe_events := stripe_events db @ [?i]\<rparr>) = (r1, db1)" by fastforce
    from movesD [OF events_work this] have "stripe_events db1 = stripe_events db @ [?i]" by (simp add: same_events_def)
    moreover have "filter (\<lambda>x. x \<noteq> ?i) (stripe_events db) = stripe_events db" using False by (auto simp: filter_id_conv)
    ultimately show ?thesis
      using Inr False w assms by (cases r1) (auto simp: webhook_cases Let_def DELETE_EVENT_def)
  qed
qed

lemma step_events: "billing_step db db' \<Longrightarrow> set (stripe_events db) \<subseteq> set (stripe_events db')"
proof (induction rule: billing_step.induct)
  case (B_webhook rt rq db r db')
  then show ?case using webhook_events by blast
next
  case (B_apple rt rq db r db')
  have "moves same_events (appleWebhook rt rq)" unfolding appleWebhook_def by (auto intro!: event_rules events_note)
  from movesD [OF this B_apple] show ?case by (simp add: same_events_def)
next
  case (B_google rt rq db r db')
  have "moves same_events (googleWebhook rt rq)" unfolding googleWebhook_def by (auto intro!: event_rules events_note)
  from movesD [OF this B_google] show ?case by (simp add: same_events_def)
qed (auto dest!: movesD [OF events_verify] movesD [OF events_status] simp: same_events_def)

lemma steps_events: "billing_step\<^sup>*\<^sup>* db db' \<Longrightarrow> set (stripe_events db) \<subseteq> set (stripe_events db')"
  by (induction rule: rtranclp_induct) (auto dest!: step_events)

text \<open>C24: An event of Stripe is processed once. After a delivery that was answered with success, and whatever
  requests of billing follow, every further delivery of the event is answered with success and
  changes nothing. A delivery that fails leaves no mark, so that Stripe's next attempt is processed.\<close>

theorem event_once:
  "(webhook rt rq db = (Inr rs, db1) \<and> event_of rt rq = Inr e \<and> billing_step\<^sup>*\<^sup>* db1 db2
      \<and> event_of rt' rq' = Inr e' \<and> js_String (jget e' ''id'') = js_String (jget e ''id'')
    \<longrightarrow> webhook rt' rq' db2 = (Inr (received (br_rid rt')), db2))
   \<and> (webhook rt rq db = (Inl x, db1) \<longrightarrow> stripe_events db1 = stripe_events db)"
proof (intro conjI impI)
  assume a: "webhook rt rq db = (Inr rs, db1) \<and> event_of rt rq = Inr e \<and> billing_step\<^sup>*\<^sup>* db1 db2
      \<and> event_of rt' rq' = Inr e' \<and> js_String (jget e' ''id'') = js_String (jget e ''id'')"
  then have "js_String (jget e ''id'') \<in> set (stripe_events db1)" using webhook_events by blast
  then have "js_String (jget e' ''id'') \<in> set (stripe_events db2)" using a steps_events [of db1 db2] by auto
  with a show "webhook rt' rq' db2 = (Inr (received (br_rid rt')), db2)" by (simp add: webhook_cases Let_def)
next
  assume "webhook rt rq db = (Inl x, db1)"
  then show "stripe_events db1 = stripe_events db" using webhook_events by blast
qed

subsection \<open>Signatures\<close>

definition signed_by :: "billing_rt \<Rightarrow> request \<Rightarrow> bool" where
  "signed_by rt rq \<longleftrightarrow> (\<exists>q sig. sg_stamp (signature_of (header rq ''stripe-signature'')) = Fin q
     \<and> sig \<in> set (sg_sigs (signature_of (header rq ''stripe-signature'')))
     \<and> abs (of_int (br_now rt div 1000) - q) \<le> 300
     \<and> sig = to_hex (br_hmac rt (setting rt ''STRIPE_WEBHOOK_SECRET'') (number_text rt q @ ''.'' @ rq_body rq)))"

lemma verifyStripe_signed:
  "verifyStripe rt (rq_body rq) (header rq ''stripe-signature'') (setting rt ''STRIPE_WEBHOOK_SECRET'') (br_now rt) = Inr u \<Longrightarrow> signed_by rt rq"
  by (auto simp: verifyStripe_def Let_def signed_by_def same_iff hmacSha256Hex_def TOLERANCE_def list_ex_iff split: jsnum.splits if_splits)

text \<open>C31: Only signed events count. A delivery changes the database, or is answered with success, only when
  its header names a time within five minutes of the clock and carries the HMAC of that time and the
  body under the configured secret; every other delivery is refused without effect.\<close>

theorem webhook_authentic:
  "(webhook rt rq db = (r, db') \<and> (db' \<noteq> db \<or> (\<exists>rs. r = Inr rs)) \<longrightarrow>
      signed_by rt rq \<and> setting rt ''STRIPE_WEBHOOK_SECRET'' \<noteq> [] \<and> rq_body rq \<noteq> [])"
proof (intro impI)
  assume a: "webhook rt rq db = (r, db') \<and> (db' \<noteq> db \<or> (\<exists>rs. r = Inr rs))"
  then obtain e where "event_of rt rq = Inr e" by (cases "event_of rt rq") (auto simp: webhook_cases)
  then show "signed_by rt rq \<and> setting rt ''STRIPE_WEBHOOK_SECRET'' \<noteq> [] \<and> rq_body rq \<noteq> []"
    by (auto simp: event_of_def verifyStripe_signed split: if_splits sum.splits)
qed

subsection \<open>Witnesses\<close>

definition demo_firm_id :: string where "demo_firm_id = ''0b4c8f7a-1111-4222-8333-44445555aaaa''"

definition demo_settings :: core_env where
  "demo_settings = map_of [(''STRIPE_SECRET_KEY'', ''sk''), (''STRIPE_WEBHOOK_SECRET'', ''wh''), (''STRIPE_PRICE_TOPUP'', ''p''),
     (''IAP_PRODUCT_PRO'', ''pro''), (''IAP_PRODUCT_TOPUP'', ''top'')]"

definition demo_receipt :: receipt where
  "demo_receipt = \<lparr>rc_product = ''top'', rc_transaction = ''t1'', rc_expires = None, rc_sandbox = False\<rparr>"

definition demo_brt :: "jv \<Rightarrow> billing_rt" where
  "demo_brt body = \<lparr>br_env = demo_settings, br_jp = (\<lambda>_. Some body), br_dp = (\<lambda>_. None), br_uuid = Some, br_hmac = (\<lambda>_ _. []),
     br_frac = (\<lambda>_. []), br_now = 5000, br_rid = ''q'', br_fresh = ''l1'', br_stripe = (\<lambda>_ _ _. Some (JObj [(''url'', JStr ''u'')])),
     br_apple = (\<lambda>_. Inr demo_receipt), br_google = (\<lambda>_ _ _. Inr demo_receipt), br_apple_note = (\<lambda>_. Inl not_found_error),
     br_google_note = (\<lambda>_ _. Inl not_found_error)\<rparr>"

definition demo_payer :: "string \<Rightarrow> payer" where
  "demo_payer u = \<lparr>py_id = u, py_plan = ''ULTRA'', py_status = ''ACTIVE'', py_customer = Some ''c'', py_period = None\<rparr>"

definition demo_books :: "iap_row list \<Rightarrow> billing_db" where
  "demo_books rows = \<lparr>ledger = [], usage_table = None, reservations = [], ai_jobs = [], outbox = [], members = [], kicks = [],
     payers = [demo_payer ''u1'', demo_payer ''u2''], firms = [\<lparr>fm_id = demo_firm_id, fm_plan = None, fm_customer = None\<rparr>],
     iap_rows = rows, stripe_events = [], stripe_calls = []\<rparr>"

definition demo_purchase :: iap_row where
  "demo_purchase = \<lparr>ia_user = ''u1'', ia_platform = ''APP_STORE'', ia_transaction = ''t1'', ia_product = ''top'', ia_expires = None,
     ia_status = ''CONSUMED'', ia_sandbox = False\<rparr>"

definition demo_event :: jv where "demo_event = JObj [(''id'', JStr ''e1'')]"

definition demo_delivery :: request where
  "demo_delivery = \<lparr>rq_method = ''POST'', rq_path = ''/api/v1/billing/webhook'', rq_search = [], rq_query = [],
     rq_headers = [(''stripe-signature'', ''t=5,v1='')], rq_body = ''x''\<rparr>"

lemma demo_signed:
  assumes "truthy (jget e ''id'')" and "e \<noteq> JNull"
  shows "event_of (demo_brt e) demo_delivery = Inr e"
proof -
  have "header demo_delivery ''stripe-signature'' = ''t=5,v1=''" by (simp add: demo_delivery_def header_def jm_get_def or_empty_def)
  moreover have "signature_of ''t=5,v1='' = \<lparr>sg_stamp = Fin 5, sg_sigs = [[]]\<rparr>"
    by (simp add: signature_of_def signature_part_def js_trim_def trimStart_def js_space_def num_of_string_def radix_literal_def strip_sign_def
        unsigned_decimal_def take_digits_def is_digit_def exponent_of_def pow10_def dec_val_def digit_val_def)
  ultimately have "verifyStripe (demo_brt e) (rq_body demo_delivery) (header demo_delivery ''stripe-signature'') ''wh'' 5000 = Inr ()"
    by (simp add: verifyStripe_def TOLERANCE_def hmacSha256Hex_def to_hex_def same_iff demo_brt_def)
  moreover have "rq_body demo_delivery \<noteq> []" "configured (demo_brt e)" "setting (demo_brt e) ''STRIPE_WEBHOOK_SECRET'' = ''wh''"
      "br_now (demo_brt e) = 5000" "br_jp (demo_brt e) = (\<lambda>_. Some e)"
    by (simp_all add: demo_delivery_def configured_def setting_def demo_brt_def demo_settings_def or_empty_def)
  ultimately show ?thesis using assms by (cases e) (simp_all add: event_of_def)
qed

lemma demo_event_of: "event_of (demo_brt demo_event) demo_delivery = Inr demo_event"
  by (rule demo_signed) (simp_all add: demo_event_def jget_def Prelude.fields_def truthy_def)

lemma demo_webhook: "webhook (demo_brt demo_event) demo_delivery (demo_books []) =
    (Inr (received ''q''), demo_books []\<lparr>stripe_events := [''e1'']\<rparr>)"
proof -
  have "stripe_events (demo_books []) = []" "jget demo_event ''id'' = JStr ''e1''" "br_rid (demo_brt demo_event) = ''q''"
    by (simp_all add: demo_books_def demo_event_def jget_def Prelude.fields_def demo_brt_def)
  moreover have "event_work (demo_brt demo_event) demo_event db = (Inr (), db)" for db :: billing_db
    by (simp add: event_work_def demo_event_def jget_def Prelude.fields_def)
  ultimately show ?thesis by (simp add: webhook_cases demo_event_of Let_def)
qed

theorem event_once_witness:
  "webhook (demo_brt demo_event) demo_delivery (demo_books []\<lparr>stripe_events := [''e1'']\<rparr>) =
     (Inr (received (br_rid (demo_brt demo_event))), demo_books []\<lparr>stripe_events := [''e1'']\<rparr>)"
  using event_once [THEN conjunct1, THEN mp, of "demo_brt demo_event" demo_delivery "demo_books []" "received ''q''"
      "demo_books []\<lparr>stripe_events := [''e1'']\<rparr>" demo_event "demo_books []\<lparr>stripe_events := [''e1'']\<rparr>" "demo_brt demo_event" demo_delivery demo_event]
    demo_webhook demo_event_of by simp

theorem webhook_authentic_witness: "signed_by (demo_brt demo_event) demo_delivery"
  using webhook_authentic [of "demo_brt demo_event" demo_delivery "demo_books []"] demo_webhook by auto

definition demo_verify :: jv where
  "demo_verify = JObj [(''platform'', JStr ''APP_STORE''), (''productId'', JStr ''top''), (''signedTransaction'', JStr ''s'')]"

definition demo_account :: "string \<Rightarrow> user_row" where
  "demo_account u = anonymous\<lparr>cu_id := u\<rparr>"

theorem purchase_belongs_witness:
  "\<exists>x. verifyIap (demo_brt demo_verify) (demo_account ''u2'') demo_delivery (demo_books [demo_purchase]) = (Inl x, demo_books [demo_purchase])"
proof -
  have "owner_of_purchase ''t1'' (demo_books [demo_purchase]) = Some ''u1''"
    by (simp add: owner_of_purchase_def purchase_of_def demo_books_def demo_purchase_def)
  from purchase_belongs [OF rtranclp.rtrancl_refl this, THEN conjunct2, THEN mp, of "demo_account ''u2''" "demo_brt demo_verify" demo_delivery]
  show ?thesis by (simp add: demo_account_def demo_brt_def demo_receipt_def)
qed

end
