(* ===== verification/Billing_Credits.thy ===== *)
theory Billing_Credits
  imports Billing_Props
begin

text \<open>Money and credits: what a checkout asks Stripe for, what the paid session credits, and what the
  notifications of the app stores do to plans and credits.\<close>

subsection \<open>Numbers in forms\<close>

lemma num_of_dec: "num_of_string (nat_dec n) = Fin (of_nat n)"
proof -
  have d: "list_all is_digit (nat_dec n)" "nat_dec n \<noteq> []" by (simp_all add: nat_dec_digits nat_dec_nonempty)
  obtain c cs where cs: "nat_dec n = c # cs" "is_digit c" "list_all is_digit cs" using d by (cases "nat_dec n") auto
  have trim: "js_trim (nat_dec n) = nat_dec n"
    using d digit_not_space by (intro js_trim_id) (auto simp: list_all_iff)
  have c: "c \<noteq> CHR ''-''" "c \<noteq> CHR ''+''" "c \<noteq> CHR ''I''" using cs(2) by (auto simp: is_digit_def)
  have sign: "strip_sign (nat_dec n) = (1, nat_dec n)" using c by (simp add: cs strip_sign_def)
  have x: "x \<notin> {CHR ''x'', CHR ''X''} \<and> x \<notin> {CHR ''o'', CHR ''O''} \<and> x \<notin> {CHR ''b'', CHR ''B''}" if "is_digit x" for x
    using that by (auto simp: is_digit_def)
  have radix: "radix_literal (nat_dec n) = None"
    using x cs by (cases cs) (auto simp: radix_literal_def)
  have inf: "nat_dec n \<noteq> ''Infinity''" using c(3) cs by simp
  have "take_digits (nat_dec n) = (nat_dec n, [])"
    using d(1) by (simp add: take_digits_def list_all_iff)
  then have "unsigned_decimal (nat_dec n) = Some (of_nat n)"
    using d(2) by (simp add: unsigned_decimal_def exponent_of_def pow10_def)
  then show ?thesis using trim sign radix inf d(2) by (simp add: num_of_string_def)
qed
lemma positive_dec: "0 < n \<Longrightarrow> n \<le> 9007199254740991 \<Longrightarrow> positiveInt (JStr (int_dec n)) = Some n"
  by (simp add: positiveInt_def int_dec_def num_of_dec)

subsection \<open>A paid top-up\<close>

text \<open>The metadata of a session are those of the form it was created with.\<close>

definition field_of :: "(string \<times> string) list \<Rightarrow> string \<Rightarrow> jv" where
  "field_of form k = (case map_of form k of None \<Rightarrow> JUndef | Some v \<Rightarrow> JStr v)"

definition session_meta :: "stripe_call \<Rightarrow> jv" where
  "session_meta call = (case call of (_, _, form) \<Rightarrow>
     JObj [(''amountMicroCredits'', field_of form ''metadata[amountMicroCredits]''), (''audience'', field_of form ''metadata[audience]''),
       (''ownerId'', field_of form ''metadata[ownerId]'')])"

definition topup_form :: "billing_rt \<Rightarrow> string \<Rightarrow> int \<Rightarrow> firm \<Rightarrow> (string \<times> string) list" where
  "topup_form rt c amount f =
     [(''mode'', ''payment''), (''line_items[0][price]'', setting rt ''STRIPE_PRICE_TOPUP''), (''line_items[0][quantity]'', int_dec amount),
      (''success_url'', setting rt ''STRIPE_SUCCESS_URL''), (''cancel_url'', setting rt ''STRIPE_CANCEL_URL''),
      (''client_reference_id'', c), (''metadata[amountMicroCredits]'', int_dec (amount * int DISPLAY_MICRO)),
      (''metadata[audience]'', ''EMPLOYER''), (''metadata[ownerId]'', c)] @ customer_field (fm_customer f)"

lemma stripe_first:
  "and_then (stripe rt m p form) k db =
     (let db1 = db\<lparr>stripe_calls := stripe_calls db @ [(m, p, form)]\<rparr> in
      case br_stripe rt m p form of None \<Rightarrow> (Inl (Thrown ''stripe''), db1) | Some b \<Rightarrow> k b db1)"
  by (simp add: stripe_def and_then_assoc seq_simps Let_def)

lemma provider_state: "snd (at_provider msg m db) = snd (m db)"
  by (auto simp: at_provider_def catching_def split: sum.split prod.split core_exn.split)

lemma topup_ask:
  assumes "jget body ''amount'' = JNum amount" and "0 < amount" and "amount \<le> MAX_TOPUP" and "admin_company user = Inr c"
    and "readJson (br_jp rt) rq = Inr body" and "configured rt" and "setting rt ''STRIPE_PRICE_TOPUP'' \<noteq> []" and "firm_by_id c db = Some f"
  shows "snd (topup rt user rq db) = db\<lparr>stripe_calls := stripe_calls db @ [(''POST'', ''/v1/checkout/sessions'', topup_form rt c amount f)]\<rparr>"
  using assms
  by (simp add: topup_def seq_simps Let_def provider_state stripe_first topup_form_def from_sum_def split: option.split sum.split)

lemma topup_quiet:
  assumes "snd (topup rt user rq db) \<noteq> db"
  shows "\<exists>body amount c f. readJson (br_jp rt) rq = Inr body \<and> jget body ''amount'' = JNum amount \<and> 0 < amount \<and> amount \<le> MAX_TOPUP
    \<and> admin_company user = Inr c \<and> configured rt \<and> setting rt ''STRIPE_PRICE_TOPUP'' \<noteq> [] \<and> firm_by_id c db = Some f"
proof -
  have conf: "configured rt" using assms by (rule contrapos_np) (simp add: topup_def seq_simps)
  obtain body where body: "readJson (br_jp rt) rq = Inr body" using assms conf by (cases "readJson (br_jp rt) rq") (auto simp: topup_def seq_simps)
  obtain amount where n: "jget body ''amount'' = JNum amount" "0 < amount" "amount \<le> MAX_TOPUP"
    using assms conf body by (cases "jget body ''amount''") (auto simp: topup_def seq_simps split: if_splits)
  obtain c where c: "admin_company user = Inr c"
    using assms conf body n by (cases "admin_company user") (auto simp: topup_def seq_simps)
  have price: "setting rt ''STRIPE_PRICE_TOPUP'' \<noteq> []"
    using assms conf body n c by (auto simp: topup_def seq_simps Let_def)
  obtain f where "firm_by_id c db = Some f"
    using assms conf body n c price by (cases "firm_by_id c db") (auto simp: topup_def seq_simps Let_def)
  with conf body n c price show ?thesis by blast
qed

lemma topup_call:
  assumes "snd (topup rt user rq db) \<noteq> db"
  shows "\<exists>body amount c f. readJson (br_jp rt) rq = Inr body \<and> jget body ''amount'' = JNum amount \<and> 0 < amount \<and> amount \<le> MAX_TOPUP
    \<and> admin_company user = Inr c \<and> firm_by_id c db = Some f
    \<and> snd (topup rt user rq db) = db\<lparr>stripe_calls := stripe_calls db @ [(''POST'', ''/v1/checkout/sessions'', topup_form rt c amount f)]\<rparr>"
  using topup_quiet [OF assms] topup_ask by metis

lemma topup_meta:
  "session_meta (m, p, topup_form rt c amount f) =
     JObj [(''amountMicroCredits'', JStr (int_dec (amount * int DISPLAY_MICRO))), (''audience'', JStr ''EMPLOYER''), (''ownerId'', JStr c)]"
  by (simp add: session_meta_def topup_form_def field_of_def)

text \<open>C34: A top-up credits what was paid for. When an admin's top-up has asked Stripe for a session, the
  completed session with that metadata credits the admin's company with exactly the chosen amount in
  micro credits (6000 for each), under the session's id.\<close>

theorem topup_credits:
  assumes "snd (topup rt user rq db) = db'" and "db' \<noteq> db" and "admin_company user = Inr c"
    and "metaOf obj = session_meta (last (stripe_calls db'))" and "jget obj ''id'' = JStr sid" and "sid \<noteq> []"
    and "jget obj ''payment_status'' \<noteq> JStr ''unpaid''" and "uuid_text c" and "br_uuid rt' c = Some c" and "owner_exists (Company c) db2"
  shows "\<exists>body amount. readJson (br_jp rt) rq = Inr body \<and> jget body ''amount'' = JNum amount \<and> 0 < amount \<and> amount \<le> 100000
    \<and> checkoutCompleted rt' obj db2 = (Inr (), grant_sql (Company c) (br_fresh rt') (amount * 6000) sid (br_now rt') db2)"
proof -
  obtain body amount f where t: "readJson (br_jp rt) rq = Inr body" "jget body ''amount'' = JNum amount" "0 < amount" "amount \<le> MAX_TOPUP"
      "db' = db\<lparr>stripe_calls := stripe_calls db @ [(''POST'', ''/v1/checkout/sessions'', topup_form rt c amount f)]\<rparr>"
    using topup_call [of rt user rq db] assms(1-3) by auto
  define n where "n = amount * 6000"
  have n: "0 < n" "n \<le> 9007199254740991" "amount * int DISPLAY_MICRO = n" using t(3,4) by (simp_all add: n_def MAX_TOPUP_def DISPLAY_MICRO_def)
  have m: "metaOf obj = JObj [(''amountMicroCredits'', JStr (int_dec n)), (''audience'', JStr ''EMPLOYER''), (''ownerId'', JStr c)]"
    using assms(4) t(5) n(3) topup_meta by simp
  have c: "c \<noteq> []" using assms(8) by (auto simp: uuid_text_def)
  have e: "int_dec n \<noteq> []" using n(1) by (simp add: int_dec_def)
  have "checkoutCompleted rt' obj db2 = companyLedger rt' c n sid db2"
    using assms(5-8) c e n positive_dec [OF n(1,2)]
    by (simp add: checkoutCompleted_def m jget_def [of "JObj _"] Prelude.fields_def nullish_def first_text_def truthy_def seq_simps Let_def)
  also have "\<dots> = (Inr (), grant_sql (Company c) (br_fresh rt') n sid (br_now rt') db2)"
    using assms(9,10) by (simp add: companyLedger_def pg_uuid_def seq_simps ledger_insert_def)
  finally show ?thesis using t n_def by (auto simp: MAX_TOPUP_def)
qed

subsection \<open>Notifications of the stores\<close>

lemma claim_owner:
  assumes "CLAIM_PURCHASE r db = (True, db1)"
  shows "owner_of_purchase (ia_transaction r) db1 = Some (ia_user r)"
proof (cases "find (\<lambda>x. ia_transaction x = ia_transaction r) (iap_rows db)")
  case None
  with assms show ?thesis by (auto simp: CLAIM_PURCHASE_def owner_of_purchase_def purchase_of_def find_snoc)
next
  case (Some x)
  have "find (\<lambda>y. ia_transaction y = ia_transaction r) (map (\<lambda>x. if ia_transaction x = ia_transaction r then r else x) (iap_rows db)) =
      map_option (\<lambda>x. if ia_transaction x = ia_transaction r then r else x) (find (\<lambda>y. ia_transaction y = ia_transaction r) (iap_rows db))"
    by (rule find_map_keep) auto
  moreover have "ia_transaction x = ia_transaction r" using Some by (auto simp: find_Some_iff)
  ultimately show ?thesis using Some assms by (auto simp: CLAIM_PURCHASE_def owner_of_purchase_def purchase_of_def split: if_splits)
qed

lemma claimed:
  assumes "claimPurchase rt user platform r status db = (Inr u, db1)"
  shows "owner_of_purchase (rc_transaction r) db1 = Some (cu_id user)"
proof -
  obtain e where "claim_step \<lparr>ia_user = cu_id user, ia_platform = platform, ia_transaction = rc_transaction r,
      ia_product = rc_product r, ia_expires = e, ia_status = status, ia_sandbox = rc_sandbox r\<rparr> db = (Inr True, db1)"
    using assms by (auto simp: claimPurchase_def prog_results pg_time_def split: option.splits)
  then have "CLAIM_PURCHASE \<lparr>ia_user = cu_id user, ia_platform = platform, ia_transaction = rc_transaction r,
      ia_product = rc_product r, ia_expires = e, ia_status = status, ia_sandbox = rc_sandbox r\<rparr> db = (True, db1)"
    by (simp add: claim_step_def prod_eq_iff)
  from claim_owner [OF this] show ?thesis by simp
qed

lemma ledgered:
  assumes "userLedger rt u n t db = (Inr v, db1)"
  shows "(\<exists>i. br_uuid rt u = Some i \<and> granted (User i, t) db1) \<and> iap_rows db1 = iap_rows db"
  using assms by (auto simp: userLedger_def pg_uuid_def prog_results ledger_insert_def granted_grant_sql split: if_splits)

lemma granted_stmts [simp]: "granted k (SET_PLAN v p c e db) = granted k db" "granted k (update_purchases t f db) = granted k db"
  by (simp_all add: granted_def split: prod.split)

lemma same_owner: "iap_rows db' = iap_rows db \<Longrightarrow> owner_of_purchase t db' = owner_of_purchase t db"
  by (simp add: owner_of_purchase_def purchase_of_def)

text \<open>What holds of the state whenever a program ends well.\<close>

definition ends :: "('s \<Rightarrow> bool) \<Rightarrow> ('s, 'a) core_prog \<Rightarrow> 's \<Rightarrow> bool" where
  "ends Q m s \<longleftrightarrow> (\<forall>a s'. m s = (Inr a, s') \<longrightarrow> Q s')"

lemma ends_then: "(\<And>a s1. m s = (Inr a, s1) \<Longrightarrow> ends Q (f a) s1) \<Longrightarrow> ends Q (and_then m f) s"
  by (auto simp: ends_def and_then_Inr)

lemma ends_guard: "(b \<Longrightarrow> ends Q m s) \<Longrightarrow> ends Q (guard b e m) s"
  by (simp add: ends_def guard_Inr)

lemma ends_ret: "Q s \<Longrightarrow> ends Q (ret x) s"
  by (simp add: ends_def)

lemma ends_if: "(b \<Longrightarrow> ends Q m s) \<Longrightarrow> (\<not> b \<Longrightarrow> ends Q n s) \<Longrightarrow> ends Q (if b then m else n) s"
  by simp

text \<open>The account has a purchase that is credited to it.\<close>

definition has_purchase :: "billing_rt \<Rightarrow> user_row \<Rightarrow> 'z billing_db_scheme \<Rightarrow> bool" where
  "has_purchase rt user db \<longleftrightarrow>
     (\<exists>t i. owner_of_purchase t db = Some (cu_id user) \<and> br_uuid rt (cu_id user) = Some i \<and> granted (User i, t) db)"

lemma purchased:
  assumes "claimPurchase rt user platform r status db0 = (Inr u, dbc)" and "iap_rows db1 = iap_rows dbc"
    and "userLedger rt (cu_id user) n (rc_transaction r) db1 = (Inr v, db2)"
  shows "has_purchase rt user db2"
  using claimed [OF assms(1)] ledgered [OF assms(3)] assms(2) same_owner [of db2 dbc] by (auto simp: has_purchase_def)

lemma verified: "verifyIap rt user rq db = (Inr rs, db1) \<Longrightarrow> has_purchase rt user db1"
proof -
  have "ends (has_purchase rt user) (verifyIap rt user rq) db"
    unfolding verifyIap_def Let_def
    by (intro ends_then ends_guard ends_if ends_ret)
      (auto simp: prog_results pg_time_def split: option.splits intro: purchased [OF _ refl] purchased [OF _ tables_update(13)])
  then show "verifyIap rt user rq db = (Inr rs, db1) \<Longrightarrow> has_purchase rt user db1" by (simp add: ends_def)
qed

text \<open>Renewals add no credits. Once an account has verified a purchase, no later notification for that
  transaction changes the ledger, a renewal of the next month included: its credit is booked under
  the original transaction, which already has one.\<close>

theorem renewals_uncredited:
  assumes "verifyIap rt user rq db = (Inr rs, db1)" and "billing_step\<^sup>*\<^sup>* db1 db2"
  shows "\<exists>t. owner_of_purchase t db2 = Some (cu_id user)
    \<and> (\<forall>n rt'. nt_transaction n = t \<and> br_uuid rt' = br_uuid rt \<longrightarrow> ledger (snd (grantNote rt' n db2)) = ledger db2)"
proof -
  obtain t i where t: "owner_of_purchase t db1 = Some (cu_id user)" "br_uuid rt (cu_id user) = Some i" "granted (User i, t) db1"
    using verified [OF assms(1)] by (auto simp: has_purchase_def)
  then have o': "owner_of_purchase t db2 = Some (cu_id user)" and g: "granted (User i, t) db2"
    using steps_kept [OF assms(2)] by (auto simp: kept_def)
  then obtain x where x: "purchase_of t db2 = Some x" "ia_user x = cu_id user" by (auto simp: owner_of_purchase_def)
  have "ledger (snd (grantNote rt' n db2)) = ledger db2" if "nt_transaction n = t" "br_uuid rt' = br_uuid rt" for n rt'
    using that x t(2) g
    by (simp add: grantNote_def Let_def seq_simps userLedger_def pg_uuid_def pg_time_def ledger_insert_def grant_sql_def writing_def
        split: option.split sum.split)
  with o' show ?thesis by blast
qed

text \<open>The refund of a top-up takes the plan, not the credits. The notification that a consumable purchase
  was refunded sets its buyer's plan to \<open>FREE\<close> and the subscription to \<open>CANCELED\<close>, whatever
  subscription the account has, and leaves the credits of the refunded purchase in the ledger.\<close>

theorem topup_refund:
  assumes "purchase_of (nt_transaction n) db = Some x" and "productKind rt (ia_product x) = Kind_TOPUP"
    and "toUpperCase (nt_type n) = ''REFUND''" and "nt_expires n = None" and "p \<in> set (payers db)" and "py_id p = ia_user x"
  shows "p\<lparr>py_plan := ''FREE'', py_status := ''CANCELED''\<rparr> \<in> set (payers (snd (grantNote rt n db)))
    \<and> ledger (snd (grantNote rt n db)) = ledger db"
proof -
  have "snd (grantNote rt n db) = SET_PLAN (ia_user x) ''FREE'' ''CANCELED'' None
      (update_purchases (nt_transaction n) (\<lambda>x. x\<lparr>ia_status := ''CANCELED'', ia_expires := coalesce_opt None (ia_expires x), ia_sandbox := nt_sandbox n\<rparr>) db)"
    using assms(1,3,4) by (simp add: grantNote_def ENDING_def Let_def seq_simps pg_time_def writing_def)
  then show ?thesis
    using assms(5,6) by (force simp: SET_PLAN_def update_payers_def coalesce_opt_def)
qed

subsection \<open>One credit for a session or a transaction\<close>

text \<open>A program that credits at most the account and reference \<open>k\<close>, and nothing when it has been credited.\<close>

definition adds :: "account \<times> string \<Rightarrow> 'z billing_db_scheme \<Rightarrow> 'z billing_db_scheme \<Rightarrow> bool" where
  "adds k db db' \<longleftrightarrow> (granted k db \<longrightarrow> ledger db' = ledger db) \<and> (ledger db' \<noteq> ledger db \<longrightarrow> granted k db')"

lemma same_grants: "ledger db' = ledger db \<Longrightarrow> granted k db' = granted k db"
  by (simp add: granted_def split: prod.split)

interpretation adds: stable "adds k" for k
  by unfold_locales (simp_all add: adds_def, metis same_grants)

lemma adds_same: "ledger db' = ledger db \<Longrightarrow> adds k db db'"
  by (simp add: adds_def)

lemma adds_grant: "adds (a, t) db (grant_sql a i n t now db)"
  by (auto simp: adds_def granted_grant_sql) (simp add: grant_sql_def)

lemma adds_ledger: "moves (adds (a, t)) (ledger_insert rt a n t)"
  by (simp add: moves_def ledger_insert_def adds_grant adds.refl)

lemma adds_write: "(\<And>db. ledger (g db) = ledger db) \<Longrightarrow> moves (adds k) (writing g)"
  by (intro adds.m_write adds_same)

lemma adds_firms: "moves (adds k) (writing (update_firms P f))"
  by (rule adds_write) simp

lemma adds_if: "(b \<Longrightarrow> moves R m) \<Longrightarrow> (\<not> b \<Longrightarrow> moves R n) \<Longrightarrow> moves R (if b then m else n)"
  by simp

lemma adds_text: "moves (adds k) (case v of JStr p \<Rightarrow> if p = [] then throw e else ret p | _ \<Rightarrow> throw e)"
  by (auto intro: adds.m_quiet split: json.split)

lemma adds_sum: "(\<And>a. v = Inr a \<Longrightarrow> moves (adds k) (f a)) \<Longrightarrow> moves (adds k) (and_then (from_sum v) f)"
  by (cases v) (auto simp: moves_def seq_simps adds.refl)

lemma adds_uuid: "(\<And>i. br_uuid rt v = Some i \<Longrightarrow> moves (adds k) (f i)) \<Longrightarrow> moves (adds k) (and_then (pg_uuid rt v) f)"
  by (cases "br_uuid rt v") (auto simp: moves_def pg_uuid_def seq_simps adds.refl)

lemma adds_time: "moves (adds k) (pg_time rt w)"
  by (auto simp: pg_time_def intro: adds.m_rules split: option.split)

lemma adds_claim: "moves (adds k) (claim_step r)"
  by (auto simp: moves_def claim_step_def CLAIM_PURCHASE_def intro: adds_same split: option.split)

lemma adds_purchase: "moves (adds (User u, t)) (writing (PERSONAL_PURCHASE rt u p c n t))"
proof (rule adds.m_write)
  fix db :: "'a billing_db_scheme"
  have "adds (User u, t) (grant_sql (User u) (br_fresh rt) n t (br_now rt) db) (update_payers P f (grant_sql (User u) (br_fresh rt) n t (br_now rt) db))" for P f
    by (rule adds_same) simp
  from adds.trans [OF adds_grant this] show "adds (User u, t) db (PERSONAL_PURCHASE rt u p c n t db)"
    by (auto simp: PERSONAL_PURCHASE_def adds.refl)
qed

text \<open>Whom a completed session credits, and under which reference.\<close>

definition session_owner :: "jv \<Rightarrow> string" where
  "session_owner obj =
     (let meta = metaOf obj in
      if \<not> nullish (jget meta ''amountMicroCredits'') \<and> js_String (jget meta ''amountMicroCredits'') \<noteq> [] \<or> first_text [jget meta ''audience''] = ''EMPLOYER''
      then first_text [jget meta ''ownerId'', jget obj ''client_reference_id''] else first_text [jget obj ''client_reference_id''])"

definition session_key :: "billing_rt \<Rightarrow> jv \<Rightarrow> (account \<times> string) option" where
  "session_key rt obj = map_option (\<lambda>i. (if first_text [jget (metaOf obj) ''audience''] = ''EMPLOYER'' then Company i else User i, first_text [jget obj ''id'']))
     (br_uuid rt (session_owner obj))"

lemma checkout_adds:
  assumes "session_key rt obj = Some k \<or> session_key rt obj = None"
  shows "moves (adds k) (checkoutCompleted rt obj)"
proof -
  have k: "k = (if first_text [jget (metaOf obj) ''audience''] = ''EMPLOYER'' then Company i else User i, first_text [jget obj ''id''])"
    if "br_uuid rt (session_owner obj) = Some i" for i using that assms by (auto simp: session_key_def)
  show ?thesis
    unfolding checkoutCompleted_def Let_def userLedger_def companyLedger_def
    by (auto intro!: adds.m_guard adds.m_quiet adds_uuid adds_ledger adds_purchase adds.m_then adds_firms simp: k session_owner_def Let_def)
qed

lemma subscription_adds: "moves (adds k) (subscriptionChanged rt kind obj)"
  unfolding subscriptionChanged_def Let_def by (auto intro!: adds.m_rules adds_same)

text \<open>The object of an event.\<close>

definition object_of :: "jv \<Rightarrow> jv" where
  "object_of e = jget (jget e ''data'') ''object''"

lemma webhook_adds:
  assumes "event_of rt rq = Inr e" and "session_key rt (object_of e) = Some k \<or> session_key rt (object_of e) = None"
  shows "moves (adds k) (webhook rt rq)"
proof -
  have ev: "moves (adds k) (\<lambda>db. (Inr (fst (INSERT_EVENT i db)), snd (INSERT_EVENT i db)))" for i
    by (auto simp: moves_def INSERT_EVENT_def intro: adds_same)
  have del: "moves (adds k) (writing (DELETE_EVENT i))" for i by (rule adds_write) (simp add: DELETE_EVENT_def)
  have work: "moves (adds k) (event_work rt e)"
    unfolding event_work_def Let_def by (auto intro!: adds.m_quiet subscription_adds checkout_adds assms(2) [unfolded object_of_def])
  show ?thesis
    unfolding webhook_def Let_def
    by (rule adds_sum) (use assms(1) in \<open>auto intro!: adds.m_rules ev del work\<close>)
qed

text \<open>Every receipt that a request verifies is for the transaction \<open>t\<close>.\<close>

definition receipts_for :: "billing_rt \<Rightarrow> string \<Rightarrow> bool" where
  "receipts_for rt t \<longleftrightarrow> (\<forall>s r. br_apple rt s = Inr r \<longrightarrow> rc_transaction r = t) \<and> (\<forall>s p b r. br_google rt s p b = Inr r \<longrightarrow> rc_transaction r = t)"

lemma verify_adds:
  assumes "receipts_for rt t" and "br_uuid rt (cu_id user) = Some i"
  shows "moves (adds (User i, t)) (verifyIap rt user rq)"
proof -
  have credit: "moves (adds (User i, t)) (ledger_insert rt (User j) n (rc_transaction x))"
    if "br_uuid rt (cu_id user) = Some j" "(if apple then br_apple rt s else br_google rt p q b) = Inr x" for j n x apple s p q b
    using that assms adds_ledger by (auto simp: receipts_for_def split: if_splits)
  have plan: "moves (adds k) (writing (SET_PLAN v p c e))" for k v p c e by (rule adds_write) simp
  show ?thesis
    unfolding verifyIap_def claimPurchase_def userLedger_def Let_def
    by (rule adds_sum | rule adds_uuid | rule adds.m_guard | rule adds_text | rule plan | rule adds_time | rule adds_claim | erule (1) credit
        | rule adds.m_quiet | rule adds.m_then | rule adds_if)+
qed

lemma verified_for:
  assumes "receipts_for rt t" and "verifyIap rt user rq db = (Inr rs, db1)"
  shows "\<exists>i. br_uuid rt (cu_id user) = Some i \<and> granted (User i, t) db1"
proof -
  let ?Q = "\<lambda>s. \<exists>i. br_uuid rt (cu_id user) = Some i \<and> granted (User i, t) s"
  have r: "rc_transaction r = t" if "(if apple then br_apple rt s else br_google rt p q b) = Inr r" for apple s p q b r
    using that assms(1) by (auto simp: receipts_for_def split: if_splits)
  have "ends ?Q (verifyIap rt user rq) db"
    unfolding verifyIap_def Let_def
    by (intro ends_then ends_guard ends_if ends_ret) (auto simp: from_sum_Inr dest!: r ledgered)
  with assms(2) show ?thesis by (simp add: ends_def)
qed

text \<open>C27: A session or a transaction credits once. When a delivery of a Stripe event has credited a completed
  session, no later delivery for that session changes the ledger, whatever whole requests of billing
  come in between and also when it is another event (a payment that completes later is announced a second
  time): the credit is booked under the session itself. The same holds for a store transaction that an
  account has verified and presents again: the account was credited under it, and nothing is added.\<close>

theorem credits_once:
  assumes "billing_step\<^sup>*\<^sup>* db1 db2" and "br_uuid rt' = br_uuid rt"
  shows "(webhook rt rq db = (r, db1) \<and> ledger db1 \<noteq> ledger db \<and> event_of rt rq = Inr e \<and> event_of rt' rq' = Inr e'
      \<and> jget (object_of e') ''id'' = jget (object_of e) ''id'' \<and> metaOf (object_of e') = metaOf (object_of e)
      \<and> jget (object_of e') ''client_reference_id'' = jget (object_of e) ''client_reference_id''
      \<longrightarrow> ledger (snd (webhook rt' rq' db2)) = ledger db2)
    \<and> (verifyIap rt user rq db = (Inr rs, db1) \<and> receipts_for rt t \<and> receipts_for rt' t \<and> cu_id user' = cu_id user
      \<longrightarrow> (\<exists>i. br_uuid rt (cu_id user) = Some i \<and> granted (User i, t) db2) \<and> ledger (snd (verifyIap rt' user' rq' db2)) = ledger db2)"
proof (intro conjI impI)
  assume w: "webhook rt rq db = (r, db1) \<and> ledger db1 \<noteq> ledger db \<and> event_of rt rq = Inr e \<and> event_of rt' rq' = Inr e'
      \<and> jget (object_of e') ''id'' = jget (object_of e) ''id'' \<and> metaOf (object_of e') = metaOf (object_of e)
      \<and> jget (object_of e') ''client_reference_id'' = jget (object_of e) ''client_reference_id''"
  then have same: "session_key rt' (object_of e') = session_key rt (object_of e)"
    using assms(2) by (simp add: session_key_def session_owner_def Let_def)
  have first: "moves (adds k) (webhook rt rq)" if "session_key rt (object_of e) = Some k \<or> session_key rt (object_of e) = None" for k
    using w webhook_adds that by blast
  obtain k where k: "session_key rt (object_of e) = Some k \<or> session_key rt (object_of e) = None" by (cases "session_key rt (object_of e)") auto
  from w movesD [OF first [OF k], of db r db1] have "granted k db1" by (simp add: adds_def)
  then have "granted k db2" using steps_kept [OF assms(1)] by (cases k) (simp add: kept_def)
  moreover have "adds k db2 (snd (webhook rt' rq' db2))"
    by (rule movesD [OF webhook_adds [of rt' rq' e' k] prod.collapse [symmetric]]) (use w k same in simp_all)
  ultimately show "ledger (snd (webhook rt' rq' db2)) = ledger db2" by (simp add: adds_def)
next
  assume v: "verifyIap rt user rq db = (Inr rs, db1) \<and> receipts_for rt t \<and> receipts_for rt' t \<and> cu_id user' = cu_id user"
  then obtain i where i: "br_uuid rt (cu_id user) = Some i" "granted (User i, t) db1" using verified_for by blast
  then have g: "granted (User i, t) db2" using steps_kept [OF assms(1)] by (simp add: kept_def)
  with i show "\<exists>i. br_uuid rt (cu_id user) = Some i \<and> granted (User i, t) db2" by blast
  have "adds (User i, t) db2 (snd (verifyIap rt' user' rq' db2))"
    by (rule movesD [OF verify_adds [of rt' t user' i rq'] prod.collapse [symmetric]]) (use v i assms(2) in simp_all)
  with g show "ledger (snd (verifyIap rt' user' rq' db2)) = ledger db2" by (simp add: adds_def)
qed

definition demo_note :: store_note where
  "demo_note = \<lparr>nt_type = ''REFUND'', nt_transaction = ''t1'', nt_product = ''top'', nt_expires = None, nt_sandbox = False\<rparr>"

theorem topup_refund_witness:
  "(demo_payer ''u1'')\<lparr>py_plan := ''FREE'', py_status := ''CANCELED''\<rparr> \<in> set (payers (snd (grantNote (demo_brt JNull) demo_note (demo_books [demo_purchase]))))"
  by (rule topup_refund [where x = demo_purchase, THEN conjunct1])
    (simp_all add: demo_note_def purchase_of_def demo_books_def demo_purchase_def demo_payer_def productKind_def setting_def demo_brt_def
      demo_settings_def or_empty_def js_defs)

definition demo_admin :: user_row where
  "demo_admin = anonymous\<lparr>cu_id := ''u1'', cu_accountType := Employer_Account, cu_companyId := Some demo_firm_id, cu_companyRole := Some ''ADMIN''\<rparr>"

definition demo_amount :: jv where "demo_amount = JObj [(''amount'', JNum 10)]"

definition demo_session :: "stripe_call \<Rightarrow> jv" where
  "demo_session call = JObj [(''metadata'', session_meta call), (''id'', JStr ''s1'')]"

lemma demo_topup_kind: "requireKind (demo_brt v) ''top'' = Inr Kind_TOPUP"
  by (simp add: requireKind_def productKind_def setting_def demo_brt_def demo_settings_def or_empty_def)

theorem renewals_uncredited_witness:
  "\<exists>db1 t. owner_of_purchase t db1 = Some ''u1'' \<and> (\<forall>n. nt_transaction n = t \<longrightarrow> ledger (snd (grantNote (demo_brt demo_verify) n db1)) = ledger (db1 :: billing_db))"
proof -
  have body: "readJson (br_jp (demo_brt demo_verify)) demo_delivery = Inr demo_verify"
    by (simp add: readJson_def demo_brt_def demo_delivery_def demo_verify_def)
  have fields: "jget demo_verify ''platform'' = JStr ''APP_STORE''" "jget demo_verify ''productId'' = JStr ''top''"
      "jget demo_verify ''signedTransaction'' = JStr ''s''" by (simp_all add: demo_verify_def jget_def Prelude.fields_def)
  have rt: "br_apple (demo_brt v) s = Inr demo_receipt" "br_uuid (demo_brt v) = Some" "br_dp (demo_brt v) = (\<lambda>_. None)" for v s
    by (simp_all add: demo_brt_def)
  have acc: "cu_id (demo_account u) = u" "cu_periodEndsAt (demo_account u) = None" "cu_subscriptionStatus (demo_account u) = ''NONE''" for u
    by (simp_all add: demo_account_def anonymous_def)
  have claim: "and_then (claim_step r) f s = f (fst (CLAIM_PURCHASE r s)) (snd (CLAIM_PURCHASE r s))" for r and f :: "bool \<Rightarrow> (billing_db, 'a) core_prog" and s
    by (simp add: and_then_def claim_step_def)
  have booked: "and_then (ledger_insert rt (User ''u1'') n t) f s = f () (grant_sql (User ''u1'') (br_fresh rt) n t (br_now rt) s)"
    if "owner_exists (User ''u1'') s" for rt n t and f :: "unit \<Rightarrow> (billing_db, 'a) core_prog" and s
    using that by (simp add: and_then_def ledger_insert_def)
  have owner: "owner_exists (User ''u1'') (demo_books []\<lparr>iap_rows := xs\<rparr>)" "iap_rows (demo_books []) = []" for xs
    by (simp_all add: owner_exists_def demo_books_def demo_payer_def)
  have "\<exists>rs db1. verifyIap (demo_brt demo_verify) (demo_account ''u1'') demo_delivery (demo_books []) = (Inr rs, db1)"
    by (simp add: verifyIap_def seq_simps and_then_assoc Let_def body fields rt acc nonempty_text_def demo_topup_kind demo_receipt_def
        claimPurchase_def pg_time_def claim CLAIM_PURCHASE_def userLedger_def pg_uuid_def booked owner
        ts_def blank_def optional_text_def nullish_def)
  then obtain rs db1 where "verifyIap (demo_brt demo_verify) (demo_account ''u1'') demo_delivery (demo_books []) = (Inr rs, db1)" by blast
  from renewals_uncredited [OF this rtranclp.rtrancl_refl] show ?thesis by (auto simp: acc)
qed

text \<open>A paid session is announced twice, by two events.\<close>

definition twice_obj :: jv where
  "twice_obj = JObj [(''metadata'', JObj [(''amountMicroCredits'', JStr (int_dec 60000)), (''audience'', JStr ''EMPLOYER''), (''ownerId'', JStr demo_firm_id)]),
     (''id'', JStr ''s1'')]"

definition twice_event :: "string \<Rightarrow> string \<Rightarrow> jv" where
  "twice_event i kind = JObj [(''id'', JStr i), (''type'', JStr kind), (''data'', JObj [(''object'', twice_obj)])]"

lemma twice_fields: "jget (twice_event i kind) ''id'' = JStr i" "jget (twice_event i kind) ''type'' = JStr kind" "object_of (twice_event i kind) = twice_obj"
  "jget (jget (twice_event i kind) ''data'') ''object'' = twice_obj"
  by (simp_all add: twice_event_def jget_def Prelude.fields_def object_of_def)

lemma twice_event_of:
  assumes "i \<noteq> []"
  shows "event_of (demo_brt (twice_event i kind)) demo_delivery = Inr (twice_event i kind)"
  by (rule demo_signed) (simp_all add: twice_fields truthy_def assms, simp add: twice_event_def)

lemma twice_checkout: "checkoutCompleted (demo_brt b) twice_obj (db :: billing_db) = companyLedger (demo_brt b) demo_firm_id 60000 ''s1'' db"
proof -
  have m: "metaOf twice_obj = JObj [(''amountMicroCredits'', JStr (int_dec 60000)), (''audience'', JStr ''EMPLOYER''), (''ownerId'', JStr demo_firm_id)]"
    and o': "jget twice_obj ''id'' = JStr ''s1''" "jget twice_obj ''payment_status'' \<noteq> JStr ''unpaid''"
    by (simp_all add: metaOf_def twice_obj_def jget_def Prelude.fields_def)
  have c: "demo_firm_id \<noteq> []" "uuid_text demo_firm_id" by (simp_all add: uuid_text_def demo_firm_id_def js_defs)
  have e: "int_dec 60000 \<noteq> []" by (simp add: int_dec_def)
  show ?thesis
    using m o' c e positive_dec [of 60000]
    by (simp add: checkoutCompleted_def m jget_def [of "JObj _"] Prelude.fields_def nullish_def first_text_def truthy_def seq_simps Let_def)
qed

definition twice_once :: billing_db where
  "twice_once = grant_sql (Company demo_firm_id) ''l1'' 60000 ''s1'' 5000 (demo_books []\<lparr>stripe_events := [''e1'']\<rparr>)"

lemma twice_first: "webhook (demo_brt (twice_event ''e1'' ''checkout.session.completed'')) demo_delivery (demo_books []) = (Inr (received ''q''), twice_once)"
proof -
  let ?rt = "demo_brt (twice_event ''e1'' ''checkout.session.completed'')"
  have "stripe_events (demo_books []) = []" "br_rid ?rt = ''q''" "br_fresh ?rt = ''l1''" "br_now ?rt = 5000" "br_uuid ?rt = Some"
    "owner_exists (Company demo_firm_id) (demo_books []\<lparr>stripe_events := xs\<rparr>)" for xs
    by (simp_all add: demo_books_def demo_brt_def owner_exists_def)
  then show ?thesis
    using twice_event_of [of "''e1''" "''checkout.session.completed''"]
    by (simp add: webhook_cases twice_fields Let_def event_work_def twice_checkout companyLedger_def pg_uuid_def seq_simps ledger_insert_def twice_once_def)
qed

theorem credits_once_witness:
  "\<exists>rs db1. webhook (demo_brt (twice_event ''e1'' ''checkout.session.completed'')) demo_delivery (demo_books []) = (Inr rs, db1)
     \<and> map lg_amount (ledger db1) = [60000]
     \<and> ledger (snd (webhook (demo_brt (twice_event ''e2'' ''checkout.session.async_payment_succeeded'')) demo_delivery db1)) = ledger db1"
proof (intro exI conjI)
  show "webhook (demo_brt (twice_event ''e1'' ''checkout.session.completed'')) demo_delivery (demo_books []) = (Inr (received ''q''), twice_once)"
    by (rule twice_first)
  show a: "map lg_amount (ledger twice_once) = [60000]"
    by (simp add: twice_once_def grant_sql_def granted_def demo_books_def account_row_def)
  have "ledger twice_once \<noteq> ledger (demo_books [])" using a by (auto simp: demo_books_def)
  moreover have "br_uuid (demo_brt b) = br_uuid (demo_brt c)" for b c by (simp add: demo_brt_def)
  moreover have "event_of (demo_brt (twice_event i kind)) demo_delivery = Inr (twice_event i kind)" if "i \<noteq> []" for i kind
    by (rule twice_event_of [OF that])
  ultimately show "ledger (snd (webhook (demo_brt (twice_event ''e2'' ''checkout.session.async_payment_succeeded'')) demo_delivery twice_once)) = ledger twice_once"
    using credits_once [
        where rt = "demo_brt (twice_event ''e1'' ''checkout.session.completed'')" and rt' = "demo_brt (twice_event ''e2'' ''checkout.session.async_payment_succeeded'')"
          and rq = demo_delivery and rq' = demo_delivery and db = "demo_books []" and ?db1.0 = twice_once and r = "Inr (received ''q'')"
          and e = "twice_event ''e1'' ''checkout.session.completed''" and e' = "twice_event ''e2'' ''checkout.session.async_payment_succeeded''",
        OF rtranclp.rtrancl_refl, THEN conjunct1, THEN mp]
      twice_first by (simp add: twice_fields(3))
qed

theorem topup_credits_witness:
  "\<exists>call. checkoutCompleted (demo_brt JNull) (demo_session call) (demo_books []) =
     (Inr (), grant_sql (Company demo_firm_id) ''l1'' 60000 ''s1'' 5000 (demo_books []))"
proof -
  let ?rt = "demo_brt demo_amount"
  have body: "readJson (br_jp ?rt) demo_delivery = Inr demo_amount" and amount: "jget demo_amount ''amount'' = JNum 10"
    by (simp_all add: readJson_def demo_brt_def demo_delivery_def demo_amount_def jget_def Prelude.fields_def)
  have admin: "admin_company demo_admin = Inr demo_firm_id"
    by (simp add: admin_company_def demo_admin_def own_company_def demo_firm_id_def)
  have conf: "configured ?rt" "setting ?rt ''STRIPE_PRICE_TOPUP'' \<noteq> []"
    by (simp_all add: configured_def setting_def demo_brt_def demo_settings_def or_empty_def)
  have firm: "firm_by_id demo_firm_id (demo_books []) = Some \<lparr>fm_id = demo_firm_id, fm_plan = None, fm_customer = None\<rparr>"
    by (simp add: firm_by_id_def demo_books_def)
  define db' where "db' = snd (topup ?rt demo_admin demo_delivery (demo_books []))"
  have asked: "db' \<noteq> demo_books []"
  proof -
    have "stripe_calls db' \<noteq> stripe_calls (demo_books [])"
      unfolding db'_def by (subst topup_ask [OF amount _ _ admin body conf firm]) (simp_all add: MAX_TOPUP_def)
    then show ?thesis by auto
  qed
  let ?obj = "demo_session (last (stripe_calls db'))"
  have obj: "metaOf ?obj = session_meta (last (stripe_calls db'))" "jget ?obj ''id'' = JStr ''s1''" "jget ?obj ''payment_status'' \<noteq> JStr ''unpaid''"
    by (simp_all add: metaOf_def demo_session_def jget_def Prelude.fields_def session_meta_def split: prod.split)
  have c: "uuid_text demo_firm_id" "br_uuid (demo_brt JNull) demo_firm_id = Some demo_firm_id" "owner_exists (Company demo_firm_id) (demo_books [])"
    by (simp_all add: uuid_text_def demo_firm_id_def js_defs demo_brt_def owner_exists_def demo_books_def)
  from topup_credits [OF db'_def [symmetric] asked admin obj(1,2) _ obj(3) c] body amount
  have "checkoutCompleted (demo_brt JNull) ?obj (demo_books []) =
      (Inr (), grant_sql (Company demo_firm_id) (br_fresh (demo_brt JNull)) 60000 ''s1'' (br_now (demo_brt JNull)) (demo_books []))" by auto
  moreover have "br_fresh (demo_brt JNull) = ''l1''" "br_now (demo_brt JNull) = 5000" by (simp_all add: demo_brt_def)
  ultimately show ?thesis by (intro exI [of _ "last (stripe_calls db')"]) simp
qed

end
