(* ===== verification/Route_Base.thy ===== *)
theory Route_Base
  imports Core_Page Core_Body Core_User Py_Json Crypto "HOL-Library.Product_Lexorder" "HOL-Library.List_Lexorder" "HOL-Library.Char_ord"
begin

text \<open>
  What the route files of the core worker share: the surroundings of a request (\<open>route_rt\<close>), the page
  of a table (\<open>listPage\<close> of \<open>page.ts\<close>), \<open>hashJson\<close> of \<open>http.ts\<close> and the fallback to a statement without a
  column that is not migrated yet. A timestamp that a handler writes is milliseconds since the epoch;
  one that a client sends is kept as its text, as the driver delivers it.
\<close>

subsection \<open>The surroundings of a request\<close>

text \<open>\<open>rr_pg\<close> is the database's reading of a timestamp in microseconds, \<open>rr_ilike pattern text\<close> its \<open>ILIKE\<close>, \<open>rr_sha\<close> is
  \<open>sha256Hex\<close>, and \<open>rr_uuid n\<close> the \<open>n\<close>th identifier drawn by
  \<open>crypto.randomUUID\<close> in the request.\<close>

record route_rt =
  rr_jp :: "string \<Rightarrow> jv option"
  rr_dp :: "string \<Rightarrow> int option"
  rr_pg :: "string \<Rightarrow> int option"
  rr_sha :: "string \<Rightarrow> string"
  rr_ilike :: "string \<Rightarrow> string \<Rightarrow> bool"
  rr_uuid :: "nat \<Rightarrow> string"
  rr_now :: int
  rr_rid :: string

definition stamp :: "int \<Rightarrow> string" where
  "stamp ms = parts_text (fromEpoch ms (utc_millis ms * 1000))"

lemma format_date [simp]: "formatJsonTimestamp dp (TDate ms) = Some (stamp ms)"
  by (simp add: formatJsonTimestamp_def parseUtc_def stamp_def)

definition opt_text :: "string option \<Rightarrow> jv" where
  "opt_text v = (case v of None \<Rightarrow> JNull | Some s \<Rightarrow> JStr s)"

definition opt_num :: "int option \<Rightarrow> jv" where
  "opt_num v = (case v of None \<Rightarrow> JNull | Some n \<Rightarrow> JNum n)"

definition strs :: "string list \<Rightarrow> jv" where
  "strs ss = JArr (map JStr ss)"

text \<open>The strings of a list of strings that \<open>strictBody\<close> has read.\<close>

definition texts_of :: "jv \<Rightarrow> string list" where
  "texts_of v = (case v of JArr vs \<Rightarrow> map js_String vs | _ \<Rightarrow> [])"

definition conflict_error :: "int \<Rightarrow> core_exn" where
  "conflict_error current = HttpError 409 ''REVISION_CONFLICT'' ''resource was modified'' (JObj [(''currentRevision'', JNum current)])"

definition undefined_column :: core_exn where
  "undefined_column = DbError ''42703'' ''column does not exist''"

definition spec_field :: "string \<Rightarrow> field_kind \<Rightarrow> bool \<Rightarrow> bool \<Rightarrow> string \<times> field_spec" where
  "spec_field name kind required nullable = (name, \<lparr>fs_kind = kind, fs_required = required, fs_nullable = nullable\<rparr>)"

text \<open>\<open>map\<close> with a function that may throw.\<close>

fun each :: "('a \<Rightarrow> 'e + 'b) \<Rightarrow> 'a list \<Rightarrow> 'e + 'b list" where
  "each f [] = Inr []"
| "each f (x # xs) = (case f x of Inl e \<Rightarrow> Inl e | Inr y \<Rightarrow> (case each f xs of Inl e \<Rightarrow> Inl e | Inr ys \<Rightarrow> Inr (y # ys)))"

definition bind_sum :: "'e + 'a \<Rightarrow> ('a \<Rightarrow> 'e + 'b) \<Rightarrow> 'e + 'b" where
  "bind_sum v f = (case v of Inl e \<Rightarrow> Inl e | Inr a \<Rightarrow> f a)"

lemma bind_sum_Inr: "bind_sum v f = Inr b \<longleftrightarrow> (\<exists>a. v = Inr a \<and> f a = Inr b)"
  by (cases v) (auto simp: bind_sum_def)

lemma each_Inr: "each f xs = Inr ys \<Longrightarrow> length ys = length xs \<and> (\<forall>i < length xs. f (xs ! i) = Inr (ys ! i))"
proof (induction xs arbitrary: ys)
  case (Cons x xs)
  then obtain y zs where "f x = Inr y" "each f xs = Inr zs" "ys = y # zs" by (auto split: sum.splits)
  with Cons.IH [of zs] show ?case by (auto simp: nth_Cons split: nat.split)
qed simp

text \<open>\<open>url.searchParams.get(name)\<close>.\<close>

definition search_get :: "request \<Rightarrow> string \<Rightarrow> string option" where
  "search_get rq name = map_of (rq_query rq) name"

subsection \<open>A statement whose column may be missing\<close>

definition loose :: "('s, 'a) core_prog \<Rightarrow> ('s, 'a) core_prog \<Rightarrow> ('s, 'a) core_prog" where
  "loose stmt fallback = catching stmt (\<lambda>x. if isUndefinedColumn x then fallback else throw x)"

lemma undefined_column_is [simp]: "isUndefinedColumn undefined_column"
  by (simp add: isUndefinedColumn_def undefined_column_def exn_code_def)

text \<open>\<open>if (!updated) await failedUpdate(\<dots>)\<close> with the revision read afterwards.\<close>

definition failedUpdate :: "('s \<Rightarrow> int option) \<Rightarrow> ('s, 'a) core_prog" where
  "failedUpdate current = and_then (reading current) (\<lambda>r. case r of None \<Rightarrow> throw not_found_error | Some n \<Rightarrow> throw (conflict_error n))"

subsection \<open>Pages of a table\<close>

definition bad_stamp :: core_exn where
  "bad_stamp = DbError ''22007'' ''invalid input syntax for type timestamp with time zone''"

definition cursor_key :: "route_rt \<Rightarrow> (string \<times> string) option \<Rightarrow> core_exn + (int \<times> string) option" where
  "cursor_key rt c =
     (case c of None \<Rightarrow> Inr None
      | Some (t, i) \<Rightarrow> (case rr_pg rt t of None \<Rightarrow> Inl bad_stamp | Some m \<Rightarrow> Inr (Some (m, i))))"

text \<open>The order \<open>created_at DESC, id DESC\<close> is that of this key, downwards.\<close>

definition micros_key :: "('r \<Rightarrow> int \<times> string) \<Rightarrow> 'r \<Rightarrow> int \<times> string" where
  "micros_key key r = (1000 * fst (key r), snd (key r))"

definition newest :: "nat \<Rightarrow> ('r \<Rightarrow> int \<times> string) \<Rightarrow> 'r list \<Rightarrow> 'r list" where
  "newest n key rs = take n (rev (sort_key (micros_key key) rs))"

definition after_cursor :: "('r \<Rightarrow> int \<times> string) \<Rightarrow> (int \<times> string) option \<Rightarrow> 'r \<Rightarrow> bool" where
  "after_cursor key c r = (case c of None \<Rightarrow> True | Some k \<Rightarrow> micros_key key r < k)"

definition listPage ::
  "route_rt \<Rightarrow> ('s \<Rightarrow> 'r list) \<Rightarrow> ('r \<Rightarrow> int \<times> string) \<Rightarrow> page \<Rightarrow> ('s \<Rightarrow> 'r \<Rightarrow> core_exn + jv) \<Rightarrow> bool \<Rightarrow> ('s, response) core_prog" where
  "listPage rt rows key pg dto withTotal =
     and_then (from_sum (cursor_key rt (pg_cursor pg))) (\<lambda>c.
     and_then (reading rows) (\<lambda>all.
     and_then (from_option (Thrown ''bad timestamp'')
        (pageResult (rr_dp rt) (newest (pg_limit pg + 1) key (filter (after_cursor key c) all)) (pg_limit pg)
           (\<lambda>r. (TDate (fst (key r)), snd (key r))))) (\<lambda>p.
     and_then (reading dto) (\<lambda>show_row.
     and_then (from_sum (each show_row (pr_items p))) (\<lambda>items.
       ret (page_body items (pr_next p) (pr_more p) (rr_rid rt) (if withTotal then Some (int (length all)) else None)))))))"

subsection \<open>Hashes of JSON values\<close>

fun js_json :: "ustr json \<Rightarrow> ustr" where
  "js_json JUndef = widen ''null''"
| "js_json JNull = widen ''null''"
| "js_json (JNum n) = widen (int_dec n)"
| "js_json (JBool b) = widen (if b then ''true'' else ''false'')"
| "js_json (JStr s) = json_quote s"
| "js_json (JArr vs) = widen ''['' @ join_units (widen '','') (map js_json vs) @ widen '']''"
| "js_json (JObj kvs) = widen ''{''
     @ join_units (widen '','') (map (\<lambda>(k, v). json_quote k @ widen '':'' @ js_json v) (filter (\<lambda>(k, v). v \<noteq> JUndef) kvs)) @ widen ''}''"

fun sortDeep :: "jv \<Rightarrow> jv" where
  "sortDeep (JArr vs) = JArr (map sortDeep vs)"
| "sortDeep (JObj kvs) = JObj (sort_key fst (map (\<lambda>(k, v). (k, sortDeep v)) kvs))"
| "sortDeep v = v"

definition hash_text :: "jv \<Rightarrow> string" where
  "hash_text v =
     map (\<lambda>u. char_of (unat u)) (concat (map (\<lambda>u. if 128 \<le> unat u then u_escape u else [u]) (js_json (map_json widen (sortDeep v)))))"

definition hashJson :: "route_rt \<Rightarrow> jv \<Rightarrow> string" where
  "hashJson rt v = rr_sha rt (hash_text v)"

end
