(* ===== verification/Doc_Content.thy ===== *)
theory Doc_Content
  imports Route_Base
begin

text \<open>
  \<open>services/core-api/src/document-content.ts\<close>: the rules of a TipTap document with its blocks, the
  quality of a version, and the edits of chat hunks. A document is a JSON value; a child that is
  \<open>null\<close> makes the source fail with a \<open>TypeError\<close>.
\<close>

subsection \<open>Blocks\<close>

record evidence_ref =
  er_id :: string
  er_start :: int
  er_end :: int

record block =
  bk_id :: string
  bk_text :: string
  bk_refs :: "evidence_ref list"
  bk_status :: string

definition ALLOWED :: "string list" where
  "ALLOWED = [''doc'', ''paragraph'', ''heading'', ''bulletList'', ''orderedList'', ''listItem'', ''text'']"

definition BLOCK_NODES :: "string list" where "BLOCK_NODES = [''paragraph'', ''heading'', ''listItem'']"

definition plain :: "string \<Rightarrow> core_exn" where
  "plain message = HttpError 400 ''VALIDATION_ERROR'' message JNull"

definition type_error :: core_exn where
  "type_error = Thrown ''Cannot read properties of null''"

definition children :: "jv \<Rightarrow> jv list" where
  "children n = (case jget n ''content'' of JArr cs \<Rightarrow> cs | _ \<Rightarrow> [])"

lemma size_field: "(k, v) \<in> set kvs \<Longrightarrow> size v < size (JObj kvs :: 's json)"
  by (induction kvs) auto

lemma size_child: "c \<in> set (children n) \<Longrightarrow> size c < size n"
proof -
  assume c: "c \<in> set (children n)"
  then obtain kvs where n: "n = JObj kvs" by (cases n) (auto simp: children_def jget_def Prelude.fields_def)
  from c obtain cs where m: "map_of kvs ''content'' = Some (JArr cs)" "c \<in> set cs"
    by (auto simp: n children_def jget_def Prelude.fields_def split: option.splits json.splits)
  have "size c < size (JArr cs :: jv)" using m(2) by (induction cs) auto
  also have "\<dots> < size n" unfolding n by (rule size_field [OF map_of_SomeD [OF m(1)]])
  finally show ?thesis .
qed

lemma size_children: "size_list size (children n) < size n"
proof (cases "\<exists>kvs cs. n = JObj kvs \<and> map_of kvs ''content'' = Some (JArr cs)")
  case True
  then obtain kvs cs where n: "n = JObj kvs" "map_of kvs ''content'' = Some (JArr cs)" by blast
  have "size_list size cs < size (JArr cs :: jv)" by simp
  also have "\<dots> < size n" unfolding n(1) by (rule size_field [OF map_of_SomeD [OF n(2)]])
  finally show ?thesis by (simp add: n children_def jget_def Prelude.fields_def)
next
  case False
  then have "children n = []"
    by (cases n) (auto simp: children_def jget_def Prelude.fields_def split: option.splits json.splits)
  then show ?thesis by (cases n) auto
qed

lemma children_measure: "2 * size_list size (children n) < Suc (2 * size n)"
  using size_children [of n] by simp

subsection \<open>Links\<close>

definition scheme_char :: "char \<Rightarrow> bool" where
  "scheme_char c \<longleftrightarrow> is_alpha c \<or> is_digit c \<or> c \<in> {CHR ''+'', CHR ''.'', CHR ''-''}"

definition url_scheme :: "string \<Rightarrow> string option" where
  "url_scheme raw = (let s = takeWhile scheme_char raw in
     if s \<noteq> [] \<and> is_alpha (hd s) \<and> startsWith (drop (length s) raw) '':'' then Some (toLowerCase s) else None)"

text \<open>Before and after the last \<open>@\<close>.\<close>

fun last_at :: "string \<Rightarrow> (string \<times> string) option" where
  "last_at [] = None"
| "last_at (c # s) = (case last_at s of Some (a, b) \<Rightarrow> Some (c # a, b)
     | None \<Rightarrow> if c = CHR ''@'' then Some ([], s) else None)"

definition bracket_host :: "string \<Rightarrow> string" where
  "bracket_host hp = (if CHR '']'' \<in> set hp then takeWhile (\<lambda>c. c \<noteq> CHR '']'') (tl hp) else butlast (tl hp))"

definition validateUrl :: "string \<Rightarrow> core_exn + unit" where
  "validateUrl raw =
     (case url_scheme raw of
        None \<Rightarrow> Inl (plain ''url must be http(s)'')
      | Some scheme \<Rightarrow>
          if scheme \<noteq> ''http'' \<and> scheme \<noteq> ''https'' then Inl (plain ''url must be http(s)'')
          else
            (let rest = drop (length scheme + 1) raw;
                 netloc = (if startsWith rest ''//'' then takeWhile (\<lambda>c. c \<notin> {CHR ''/'', CHR ''?'', CHR ''#''}) (drop 2 rest) else []);
                 hostPort = (case last_at netloc of None \<Rightarrow> netloc | Some (_, h) \<Rightarrow> h) in
             case (case last_at netloc of None \<Rightarrow> [] | Some (cred, _) \<Rightarrow> split_on CHR '':'' cred) of
               user # pass \<Rightarrow>
                 if user \<noteq> [] \<or> join '':'' pass \<noteq> [] then Inl (plain ''url must not contain credentials'')
                 else if (if startsWith hostPort ''['' then bracket_host hostPort else hd (split_on CHR '':'' hostPort)) = []
                   then Inl (plain ''url must have a host'') else Inr ()
             | [] \<Rightarrow>
                 if (if startsWith hostPort ''['' then bracket_host hostPort else hd (split_on CHR '':'' hostPort)) = []
                   then Inl (plain ''url must have a host'') else Inr ()))"

subsection \<open>The walk over the nodes\<close>

text \<open>\<open>String(n.text ?? "")\<close>.\<close>

definition own_text :: "jv \<Rightarrow> string" where
  "own_text n = (if nullish (jget n ''text'') then [] else js_String (jget n ''text''))"

function nodeText :: "jv \<Rightarrow> core_exn + string" and nodeTexts :: "jv list \<Rightarrow> core_exn + string" where
  "nodeText n = (if nullish n then Inl type_error else bind_sum (nodeTexts (children n)) (\<lambda>t. Inr (own_text n @ t)))"
| "nodeTexts [] = Inr []"
| "nodeTexts (c # cs) = bind_sum (nodeText c) (\<lambda>t. bind_sum (nodeTexts cs) (\<lambda>ts'. Inr (t @ ts')))"
  by pat_completeness auto
termination
  by (relation "measure (\<lambda>x. case x of Inl n \<Rightarrow> 2 * size n + 1 | Inr cs \<Rightarrow> 2 * size_list size cs)")
    (auto simp: children_measure)

definition check_mark :: "jv \<Rightarrow> core_exn + unit" where
  "check_mark m =
     (if nullish m then Inl type_error
      else if jget m ''type'' \<noteq> JStr ''link''
        then Inl (field_error ''content'' (''unsupported mark type '' @ (if nullish (jget m ''type'') then ''None'' else js_String (jget m ''type''))))
      else (case (if is_object (jget m ''attrs'') then jget (jget m ''attrs'') ''href'' else JUndef) of
              JStr href \<Rightarrow> if href = [] then Inl (field_error ''content'' ''link mark requires href'') else validateUrl href
            | _ \<Rightarrow> Inl (field_error ''content'' ''link mark requires href'')))"

definition marks_of :: "jv \<Rightarrow> jv list" where
  "marks_of n = (case jget n ''marks'' of JArr ms \<Rightarrow> ms | _ \<Rightarrow> [])"

text \<open>The blocks found so far, in the order of the walk: the map \<open>extracted\<close> and its keys \<open>order\<close>.\<close>

definition enter_block :: "string \<Rightarrow> jv \<Rightarrow> (string \<times> string) list \<Rightarrow> core_exn + (string \<times> string) list" where
  "enter_block kind n found =
     (if kind \<notin> set BLOCK_NODES then Inr found
      else if \<not> is_object (jget n ''attrs'') \<or> \<not> truthy (jget (jget n ''attrs'') ''blockId'')
        then Inl (field_error ''content'' (''block node of type '' @ kind @ '' requires attrs.blockId''))
      else
        (let bid = js_String (jget (jget n ''attrs'') ''blockId'') in
         if bid \<in> fst ` set found then Inl (field_error ''content'' (''duplicate blockId '' @ bid))
         else bind_sum (nodeText n) (\<lambda>t. Inr (found @ [(bid, t)]))))"

definition node_kind :: "jv \<Rightarrow> core_exn + string" where
  "node_kind n =
     (if nullish n then Inl type_error
      else case jget n ''type'' of
        JStr kind \<Rightarrow> if kind \<in> set ALLOWED then Inr kind else Inl (field_error ''content'' (''unsupported node type '' @ kind))
      | t \<Rightarrow> Inl (field_error ''content'' (''unsupported node type '' @ (if nullish t then ''None'' else js_String t))))"

function walk :: "jv \<Rightarrow> (string \<times> string) list \<Rightarrow> core_exn + (string \<times> string) list"
  and walk_all :: "jv list \<Rightarrow> (string \<times> string) list \<Rightarrow> core_exn + (string \<times> string) list" where
  "walk n found =
     bind_sum (node_kind n) (\<lambda>kind.
     bind_sum (each check_mark (marks_of n)) (\<lambda>_.
     bind_sum (enter_block kind n found) (\<lambda>found'. walk_all (children n) found')))"
| "walk_all [] found = Inr found"
| "walk_all (c # cs) found = bind_sum (walk c found) (\<lambda>found'. walk_all cs found')"
  by pat_completeness auto
termination
  by (relation "measure (\<lambda>x. case x of Inl (n, _) \<Rightarrow> 2 * size n + 1 | Inr (cs, _) \<Rightarrow> 2 * size_list size cs)")
    (auto simp: children_measure)

text \<open>The loop over the blocks, \<open>seen\<close> being the ids so far.\<close>

fun check_blocks :: "(string \<times> string) list \<Rightarrow> block list \<Rightarrow> string list \<Rightarrow> core_exn + string list" where
  "check_blocks found [] seen = Inr seen"
| "check_blocks found (b # bs) seen =
     (if bk_id b = [] then Inl (field_error ''blocks'' ''block id is required'')
      else if bk_id b \<in> set seen then Inl (field_error ''blocks'' (''duplicate block id '' @ bk_id b))
      else (case map_of found (bk_id b) of
              None \<Rightarrow> Inl (field_error ''blocks'' (''block '' @ bk_id b @ '' has no matching content node''))
            | Some t \<Rightarrow> if t \<noteq> bk_text b then Inl (field_error ''blocks'' (''block '' @ bk_id b @ '' text does not match content node text''))
                else check_blocks found bs (seen @ [bk_id b])))"

definition validateDocumentContent :: "jv \<Rightarrow> block list \<Rightarrow> core_exn + unit" where
  "validateDocumentContent content blocks =
     (if \<not> is_object content then Inl (plain ''content must be valid TipTap JSON'')
      else if jget content ''type'' \<noteq> JStr ''doc'' then Inl (field_error ''content'' ''root node must be doc'')
      else bind_sum (walk content []) (\<lambda>found.
           bind_sum (check_blocks found blocks []) (\<lambda>seen.
             (case find (\<lambda>bid. bid \<notin> set seen) (map fst found) of
                None \<Rightarrow> Inr ()
              | Some bid \<Rightarrow> Inl (field_error ''content'' (''content node '' @ bid @ '' has no matching block''))))))"

subsection \<open>Evidence and quality\<close>

definition codePointSlice :: "string \<Rightarrow> int \<Rightarrow> int \<Rightarrow> string option" where
  "codePointSlice s a b =
     (if a < 0 \<or> b < 0 \<or> b \<le> a then None
      else if int (length s) < b \<or> int (length s) \<le> a then None
      else Some (take (nat (b - a)) (drop (nat a) s)))"

definition issue :: "string \<Rightarrow> string \<Rightarrow> string \<Rightarrow> string \<Rightarrow> jv" where
  "issue code severity bid message = JObj [(''code'', JStr code), (''severity'', JStr severity), (''blockId'', JStr bid), (''message'', JStr message)]"

definition block_issue :: "block \<Rightarrow> jv list" where
  "block_issue b =
     (if bk_status b = ''UNSUPPORTED'' then [issue ''UNSUPPORTED_CLAIM'' ''ERROR'' (bk_id b) ''block has no evidence references'']
      else if bk_status b = ''NEEDS_REVIEW'' then [issue ''NEEDS_REVIEW'' ''WARN'' (bk_id b) ''evidence span does not literally appear in block text'']
      else [])"

definition fidelity :: "block list \<Rightarrow> jv" where
  "fidelity blocks =
     (if blocks = [] then JNull
      else JNum ((int (length blocks) - int (length (filter (\<lambda>b. bk_status b = ''UNSUPPORTED'') blocks))) * 100 div int (length blocks)))"

definition computeQuality :: "block list \<Rightarrow> jv" where
  "computeQuality blocks = JObj [(''jobFit'', JNull), (''evidenceFidelity'', fidelity blocks), (''readability'', JNull), (''ats'', JNull),
     (''method'', JStr ''RULE_BASED''), (''issues'', JArr (concat (map block_issue blocks)))]"

subsection \<open>Edits\<close>

record hunk_state =
  hs_anchor :: "string option"
  hs_removed :: "string list"
  hs_added :: "string list"
  hs_edits :: "(string \<times> string) list"

definition NL :: string where "NL = [CHR 0x0A]"

definition flush :: "hunk_state \<Rightarrow> core_exn + hunk_state" where
  "flush s =
     (if hs_removed s \<noteq> [] then Inr (s\<lparr>hs_edits := hs_edits s @ [(join NL (hs_removed s), join NL (hs_added s))], hs_removed := [], hs_added := []\<rparr>)
      else if hs_added s \<noteq> [] then
        (case hs_anchor s of
           None \<Rightarrow> Inl (field_error ''hunks'' ''an added line needs a context line before it'')
         | Some a \<Rightarrow> Inr (s\<lparr>hs_edits := hs_edits s @ [(a, a @ NL @ join NL (hs_added s))], hs_removed := [], hs_added := []\<rparr>))
      else Inr s)"

definition falsy_text :: "jv \<Rightarrow> string" where
  "falsy_text v = (if truthy v then js_String v else [])"

definition hunk_step :: "jv \<Rightarrow> hunk_state \<Rightarrow> core_exn + hunk_state" where
  "hunk_step raw s =
     (let hunk = (if is_object raw then raw else JObj []); sgn' = falsy_text (jget hunk ''sign''); t = falsy_text (jget hunk ''text'') in
      if sgn' = ''-'' then bind_sum (if hs_added s \<noteq> [] then flush s else Inr s) (\<lambda>s. Inr (s\<lparr>hs_removed := hs_removed s @ [t]\<rparr>))
      else if sgn' = ''+'' then Inr (s\<lparr>hs_added := hs_added s @ [t]\<rparr>)
      else bind_sum (flush s) (\<lambda>s. Inr (s\<lparr>hs_anchor := Some t\<rparr>)))"

fun hunk_loop :: "jv list \<Rightarrow> hunk_state \<Rightarrow> core_exn + hunk_state" where
  "hunk_loop [] s = flush s"
| "hunk_loop (h # hs) s = bind_sum (hunk_step h s) (hunk_loop hs)"

definition hunkEdits :: "jv list \<Rightarrow> core_exn + (string \<times> string) list" where
  "hunkEdits hunks = bind_sum (hunk_loop hunks \<lparr>hs_anchor = None, hs_removed = [], hs_added = [], hs_edits = []\<rparr>) (\<lambda>s. Inr (hs_edits s))"

text \<open>\<open>s.replace(old, () => next)\<close>: the first occurrence.\<close>

fun replace_first :: "string \<Rightarrow> string \<Rightarrow> string \<Rightarrow> string" where
  "replace_first old nxt [] = (if old = [] then nxt else [])"
| "replace_first old nxt (c # s) =
     (if startsWith (c # s) old then nxt @ drop (length old) (c # s) else c # replace_first old nxt s)"

text \<open>An assignment \<open>o.key = v\<close>.\<close>

definition set_field :: "string \<Rightarrow> jv \<Rightarrow> jv \<Rightarrow> jv" where
  "set_field k v n = (case n of
       JObj kvs \<Rightarrow> JObj (if k \<in> fst ` set kvs then map (\<lambda>(k', w). if k' = k then (k', v) else (k', w)) kvs else kvs @ [(k, v)])
     | w \<Rightarrow> w)"

text \<open>The node after the search, and whether the text has been replaced.\<close>

function replaceInNode :: "string \<Rightarrow> string \<Rightarrow> jv \<Rightarrow> core_exn + jv \<times> bool"
  and replaceInNodes :: "string \<Rightarrow> string \<Rightarrow> jv list \<Rightarrow> core_exn + jv list \<times> bool" where
  "replaceInNode old nxt n =
     (if nullish n then Inl type_error
      else if jget n ''type'' = JStr ''text'' \<and> str_includes (own_text n) old
        then Inr (set_field ''text'' (JStr (replace_first old nxt (js_String (jget n ''text'')))) n, True)
      else if children n = [] then Inr (n, False)
      else bind_sum (replaceInNodes old nxt (children n)) (\<lambda>(cs, applied). Inr (set_field ''content'' (JArr cs) n, applied)))"
| "replaceInNodes old nxt [] = Inr ([], False)"
| "replaceInNodes old nxt (c # cs) =
     bind_sum (replaceInNode old nxt c) (\<lambda>(c', applied).
       if applied then Inr (c' # cs, True)
       else bind_sum (replaceInNodes old nxt cs) (\<lambda>(cs', applied'). Inr (c' # cs', applied')))"
  by pat_completeness auto
termination
  by (relation "measure (\<lambda>x. case x of Inl (_, _, n) \<Rightarrow> 2 * size n + 1 | Inr (_, _, cs) \<Rightarrow> 2 * size_list size cs)")
    (auto simp: children_measure)

record edit_result =
  ed_content :: jv
  ed_blocks :: "block list"
  ed_applied :: bool

definition replace_blocks :: "string \<Rightarrow> string \<Rightarrow> block list \<Rightarrow> block list" where
  "replace_blocks old nxt = map (\<lambda>b. if str_includes (bk_text b) old then b\<lparr>bk_text := replace_first old nxt (bk_text b)\<rparr> else b)"

fun apply_edits :: "(string \<times> string) list \<Rightarrow> jv \<Rightarrow> block list \<Rightarrow> core_exn + jv \<times> block list \<times> bool" where
  "apply_edits [] content blocks = Inr (content, blocks, True)"
| "apply_edits ((old, nxt) # edits) content blocks =
     bind_sum (replaceInNode old nxt content) (\<lambda>(content', applied).
       if \<not> applied then Inr (content', blocks, False) else apply_edits edits content' (replace_blocks old nxt blocks))"

definition replaced :: "jv \<Rightarrow> block list \<Rightarrow> (string \<times> string) list \<Rightarrow> core_exn + edit_result" where
  "replaced content blocks edits =
     bind_sum (apply_edits edits content blocks) (\<lambda>(c, bs, ok). Inr \<lparr>ed_content = c, ed_blocks = bs, ed_applied = ok \<and> edits \<noteq> []\<rparr>)"

subsection \<open>Reading back from the database\<close>

text \<open>\<open>Number(v)\<close> of a stored range, which is an integer.\<close>

definition stored_int :: "jv \<Rightarrow> int" where
  "stored_int v = (case js_Number v of Fin q \<Rightarrow> floor q | _ \<Rightarrow> 0)"

definition as_object :: "jv \<Rightarrow> jv" where
  "as_object v = (if is_object v then v else JObj [])"

definition ref_of :: "jv \<Rightarrow> evidence_ref" where
  "ref_of r = (let ref = as_object r in
     \<lparr>er_id = js_String (coalesce (jget ref ''evidenceId'') (jget ref ''evidence_id'')), er_start = stored_int (jget ref ''start''), er_end = stored_int (jget ref ''end'')\<rparr>)"

definition or_blank :: "jv \<Rightarrow> string" where
  "or_blank v = (if nullish v then [] else js_String v)"

definition block_of :: "jv \<Rightarrow> block" where
  "block_of raw = (let b = as_object raw in
     \<lparr>bk_id = or_blank (jget b ''id''), bk_text = or_blank (jget b ''text''),
      bk_refs = (case coalesce (jget b ''evidenceRefs'') (jget b ''evidence_refs'') of JArr rs \<Rightarrow> map ref_of rs | _ \<Rightarrow> []),
      bk_status = or_blank (coalesce (jget b ''claimStatus'') (jget b ''claim_status''))\<rparr>)"

definition blocksOf :: "jv \<Rightarrow> block list" where
  "blocksOf v = (case v of JArr bs \<Rightarrow> map block_of bs | _ \<Rightarrow> [])"

definition nullable_num :: "jv \<Rightarrow> jv" where
  "nullable_num v = (if nullish v then JNull else JNum (stored_int v))"

definition issue_of :: "jv \<Rightarrow> jv" where
  "issue_of raw = (let i = as_object raw; bid = coalesce (jget i ''blockId'') (jget i ''block_id'') in
     JObj ([(''code'', JStr (js_String (jget i ''code''))), (''severity'', JStr (js_String (jget i ''severity'')))]
       @ (if nullish bid then [] else [(''blockId'', JStr (js_String bid))]) @ [(''message'', JStr (js_String (jget i ''message'')))]))"

definition qualityOf :: "jv \<Rightarrow> jv" where
  "qualityOf v = (let q = as_object v; m = coalesce (jget q ''method'') (JStr ''RULE_BASED'') in
     JObj [(''jobFit'', nullable_num (coalesce (jget q ''jobFit'') (jget q ''job_fit''))),
       (''evidenceFidelity'', nullable_num (coalesce (jget q ''evidenceFidelity'') (jget q ''evidence_fidelity''))),
       (''readability'', nullable_num (jget q ''readability'')), (''ats'', nullable_num (jget q ''ats'')), (''method'', JStr (js_String m)),
       (''issues'', JArr (case jget q ''issues'' of JArr is \<Rightarrow> map issue_of is | _ \<Rightarrow> []))])"

text \<open>A block as it is written into \<open>jsonb\<close>.\<close>

definition ref_json :: "evidence_ref \<Rightarrow> jv" where
  "ref_json r = JObj [(''evidenceId'', JStr (er_id r)), (''start'', JNum (er_start r)), (''end'', JNum (er_end r))]"

definition block_json :: "block \<Rightarrow> jv" where
  "block_json b = JObj [(''id'', JStr (bk_id b)), (''text'', JStr (bk_text b)), (''evidenceRefs'', JArr (map ref_json (bk_refs b))),
     (''claimStatus'', JStr (bk_status b))]"

definition blocks_json :: "block list \<Rightarrow> jv" where
  "blocks_json bs = JArr (map block_json bs)"

end
