(* ===== verification/Applications.thy ===== *)
theory Applications
  imports Doc_Content
begin

text \<open>
  \<open>services/core-api/src/routes/applications.ts\<close>: job applications with their stages, the drafts of a
  submission and the submission under an approval. Tables are lists of rows, a statement is one step on
  them. The fit of an application with a posting (\<open>loadFit\<close>) is a reading given to \<open>getApplication\<close>.
\<close>

subsection \<open>Tables\<close>

record app_row =
  ap_id :: string
  ap_user :: string
  ap_revision :: int
  ap_job :: string
  ap_company :: string
  ap_title :: string
  ap_stage :: string
  ap_notes :: string
  ap_applied :: "string option"
  ap_next :: "string option"
  ap_imported :: bool
  ap_created :: int
  ap_updated :: int
  ap_entered :: "(string \<times> string) list option"

record saved_job =
  sj_id :: string
  sj_user :: string
  sj_company :: string
  sj_title :: string

record event_row =
  ev_id :: string
  ev_user :: string
  ev_app :: string
  ev_type :: string
  ev_payload :: jv
  ev_created :: int

record draft_row =
  dr_id :: string
  dr_user :: string
  dr_app :: string
  dr_revision :: int
  dr_mode :: string
  dr_adapter :: "string option"
  dr_versions :: "string list"
  dr_confirmed :: bool
  dr_hash :: string
  dr_created :: int

record submission_row =
  sb_id :: string
  sb_user :: string
  sb_app :: string
  sb_mode :: string
  sb_adapter :: "string option"
  sb_status :: string
  sb_versions :: "string list"
  sb_approval :: "string option"
  sb_receipt :: "string option"
  sb_error :: "string option"
  sb_created :: int
  sb_updated :: int

record approval_row =
  av_id :: string
  av_user :: string
  av_revision :: int
  av_kind :: string
  av_app :: "string option"
  av_target :: string
  av_hash :: string
  av_status :: string
  av_expires :: "string option"
  av_consumed :: "int option"
  av_created :: int
  av_updated :: int

record gap_row =
  gp_id :: string
  gp_user :: string
  gp_app :: string
  gp_score :: "int option"
  gp_created :: int

record doc_row =
  dc_id :: string
  dc_user :: string
  dc_revision :: int
  dc_app :: "string option"
  dc_title :: string
  dc_kind :: string
  dc_template :: string
  dc_language :: string
  dc_status :: string
  dc_latest :: "string option"
  dc_final :: "string option"
  dc_created :: int
  dc_updated :: int

record version_row =
  vr_id :: string
  vr_user :: string
  vr_doc :: string
  vr_app :: "string option"
  vr_number :: int
  vr_content :: jv
  vr_blocks :: jv
  vr_note :: string
  vr_quality :: jv
  vr_created :: int

record evidence_row =
  en_id :: string
  en_user :: string
  en_text :: string
  en_archived :: bool

record app_db =
  has_entered :: bool
  apps :: "app_row list"
  saved_jobs :: "saved_job list"
  app_events :: "event_row list"
  drafts :: "draft_row list"
  submissions :: "submission_row list"
  approvals :: "approval_row list"
  gaps :: "gap_row list"
  docs :: "doc_row list"
  versions :: "version_row list"
  evidence_rows :: "evidence_row list"
  interview_rows :: "(string \<times> string) list"

subsection \<open>Stages\<close>

definition STAGE_ORDER :: "string list" where
  "STAGE_ORDER = [''DISCOVERED'', ''PREPARING'', ''READY'', ''APPLIED'', ''SCREENING'', ''INTERVIEW'', ''OFFER'', ''ACCEPTED'']"

definition TERMINAL :: "string list" where "TERMINAL = [''ACCEPTED'', ''REJECTED'', ''WITHDRAWN'']"

definition validStage :: "string \<Rightarrow> bool" where
  "validStage stage \<longleftrightarrow> stage \<in> set STAGE_ORDER \<or> stage = ''REJECTED'' \<or> stage = ''WITHDRAWN''"

definition afterApplied :: "string \<Rightarrow> bool" where
  "afterApplied stage \<longleftrightarrow> stage = ''SCREENING'' \<or> stage = ''INTERVIEW'' \<or> stage = ''OFFER''"

definition APPLIED_STAGES :: "string list" where
  "APPLIED_STAGES = [''APPLIED'', ''SCREENING'', ''INTERVIEW'', ''OFFER''] @ TERMINAL"

definition isApplied :: "string \<Rightarrow> string option \<Rightarrow> bool" where
  "isApplied stage appliedAt \<longleftrightarrow> appliedAt \<noteq> None \<or> stage \<in> set TERMINAL \<or> stage = ''APPLIED'' \<or> afterApplied stage"

text \<open>\<open>indexOf\<close>, \<open>-1\<close> when it is absent.\<close>

fun indexOf :: "string list \<Rightarrow> string \<Rightarrow> int" where
  "indexOf [] s = -1"
| "indexOf (x # xs) s = (if x = s then 0 else if indexOf xs s = -1 then -1 else indexOf xs s + 1)"

definition canPatchStage :: "string \<Rightarrow> string \<Rightarrow> bool" where
  "canPatchStage from_stage to_stage =
     (if from_stage = to_stage then True
      else if from_stage \<in> set TERMINAL then False
      else if to_stage = ''REJECTED'' \<or> to_stage = ''WITHDRAWN'' then True
      else if to_stage = ''APPLIED'' then False
      else indexOf STAGE_ORDER to_stage = indexOf STAGE_ORDER from_stage + 1)"

definition transition :: "string \<Rightarrow> core_exn" where
  "transition message = HttpError 409 ''INVALID_TRANSITION'' message JNull"

definition approvalRequired :: "string \<Rightarrow> core_exn" where
  "approvalRequired message = HttpError 409 ''APPROVAL_REQUIRED'' message JNull"

definition approvalStale :: "string \<Rightarrow> core_exn" where
  "approvalStale message = HttpError 409 ''APPROVAL_STALE'' message JNull"

subsection \<open>Rows as JSON\<close>

definition stageEnteredAt :: "route_rt \<Rightarrow> app_row \<Rightarrow> core_exn + (string \<times> string) list" where
  "stageEnteredAt rt row =
     bind_sum (each (\<lambda>(k, v). bind_sum (ts (rr_dp rt) (JStr v)) (\<lambda>t. Inr (k, t))) (case ap_entered row of None \<Rightarrow> [] | Some m \<Rightarrow> m)) (\<lambda>seen.
       (let out = map (\<lambda>(k, t). (k, the t)) (filter (\<lambda>(k, t). t \<noteq> None) seen) in
        Inr (if out \<noteq> [] then out else [(ap_stage row, stamp (ap_created row))])))"

definition appDto :: "route_rt \<Rightarrow> int option \<Rightarrow> app_row \<Rightarrow> core_exn + jv" where
  "appDto rt score row =
     bind_sum (ts (rr_dp rt) (opt_text (ap_applied row))) (\<lambda>applied.
     bind_sum (ts (rr_dp rt) (opt_text (ap_next row))) (\<lambda>nxt.
     bind_sum (stageEnteredAt rt row) (\<lambda>entered.
       Inr (JObj ([(''id'', JStr (ap_id row)), (''revision'', JNum (ap_revision row)), (''jobId'', JStr (ap_job row)),
           (''company'', JStr (ap_company row)), (''title'', JStr (ap_title row)), (''stage'', JStr (ap_stage row)),
           (''notes'', JStr (ap_notes row)), (''appliedAt'', opt_text applied), (''nextActionAt'', opt_text nxt),
           (''imported'', JBool (ap_imported row))]
         @ (case score of None \<Rightarrow> [] | Some n \<Rightarrow> [(''fitScore'', JNum n)])
         @ [(''createdAt'', JStr (stamp (ap_created row))), (''updatedAt'', JStr (stamp (ap_updated row))),
            (''stageEnteredAt'', JObj (map (\<lambda>(k, t). (k, JStr t)) entered))])))))"

definition eventDto :: "event_row \<Rightarrow> jv" where
  "eventDto r = JObj [(''id'', JStr (ev_id r)), (''applicationId'', JStr (ev_app r)), (''type'', JStr (ev_type r)),
     (''payload'', coalesce (ev_payload r) (JObj [])), (''createdAt'', JStr (stamp (ev_created r)))]"

definition draftDto :: "draft_row \<Rightarrow> jv" where
  "draftDto r = JObj [(''id'', JStr (dr_id r)), (''applicationId'', JStr (dr_app r)), (''applicationRevision'', JNum (dr_revision r)),
     (''mode'', JStr (dr_mode r)), (''adapter'', opt_text (dr_adapter r)), (''documentVersionIds'', strs (dr_versions r)),
     (''confirmedSubmitted'', JBool (dr_confirmed r)), (''payloadHash'', JStr (dr_hash r)), (''createdAt'', JStr (stamp (dr_created r)))]"

definition submissionDto :: "submission_row \<Rightarrow> jv" where
  "submissionDto r = JObj [(''id'', JStr (sb_id r)), (''applicationId'', JStr (sb_app r)), (''mode'', JStr (sb_mode r)),
     (''adapter'', opt_text (sb_adapter r)), (''status'', JStr (sb_status r)), (''documentVersionIds'', strs (sb_versions r)),
     (''approvalId'', opt_text (sb_approval r)), (''receiptUrl'', opt_text (sb_receipt r)), (''errorCode'', opt_text (sb_error r)),
     (''createdAt'', JStr (stamp (sb_created r))), (''updatedAt'', JStr (stamp (sb_updated r)))]"

subsection \<open>Loading\<close>

definition app_at :: "string \<Rightarrow> string \<Rightarrow> 'z app_db_scheme \<Rightarrow> app_row option" where
  "app_at i u db = find (\<lambda>a. ap_id a = i \<and> ap_user a = u) (apps db)"

definition loadApp :: "string \<Rightarrow> string \<Rightarrow> ('z app_db_scheme, app_row) core_prog" where
  "loadApp u i = and_then (reading (app_at i u)) (from_option not_found_error)"

definition loadJob :: "string \<Rightarrow> string \<Rightarrow> ('z app_db_scheme, saved_job) core_prog" where
  "loadJob u j = and_then (reading (\<lambda>db. find (\<lambda>r. sj_id r = j \<and> sj_user r = u) (saved_jobs db))) (from_option not_found_error)"

text \<open>The subselect \<open>fit_score\<close> of \<open>APP_SELECT\<close>.\<close>

definition latest_score :: "string \<Rightarrow> 'z app_db_scheme \<Rightarrow> int option" where
  "latest_score i db =
     (case newest 1 (\<lambda>g. (gp_created g, gp_id g)) (filter (\<lambda>g. gp_app g = i) (gaps db)) of [] \<Rightarrow> None | g # _ \<Rightarrow> gp_score g)"

subsection \<open>Lists\<close>

definition app_matches :: "route_rt \<Rightarrow> string \<Rightarrow> string \<Rightarrow> string \<Rightarrow> bool \<Rightarrow> app_row \<Rightarrow> bool" where
  "app_matches rt u stage q applied a \<longleftrightarrow>
     ap_user a = u \<and> (stage = [] \<or> ap_stage a = stage)
     \<and> (q = [] \<or> rr_ilike rt (''%'' @ q @ ''%'') (ap_company a) \<or> rr_ilike rt (''%'' @ q @ ''%'') (ap_title a))
     \<and> (applied \<longrightarrow> ap_applied a \<noteq> None \<or> ap_stage a \<in> set APPLIED_STAGES)"

definition listApplications :: "route_rt \<Rightarrow> user_row \<Rightarrow> request \<Rightarrow> ('z app_db_scheme, response) core_prog" where
  "listApplications rt user rq =
     and_then (from_sum (pageOf (rr_dp rt) rq)) (\<lambda>pg.
       (let stage = search_param rq ''stage''; q = search_param rq ''query''; applied = search_get rq ''applied'' in
        guard (stage = [] \<or> validStage stage) (field_error ''stage'' ''unsupported stage'')
       (guard (applied = None \<or> applied = Some ''true'' \<or> applied = Some ''false'') (field_error ''applied'' ''must be true or false'')
         (listPage rt (\<lambda>db. filter (app_matches rt (cu_id user) stage q (applied = Some ''true'')) (apps db))
            (\<lambda>a. (ap_created a, ap_id a)) pg (\<lambda>db a. appDto rt (latest_score (ap_id a) db) a) (applied = Some ''true'')))))"

definition getApplication :: "route_rt \<Rightarrow> ('z app_db_scheme \<Rightarrow> jv option) \<Rightarrow> user_row \<Rightarrow> string \<Rightarrow> ('z app_db_scheme, response) core_prog" where
  "getApplication rt loadFit user idRaw =
     and_then (from_sum (requireUuid idRaw ''id'')) (\<lambda>i.
     and_then (loadApp (cu_id user) i) (\<lambda>row.
     and_then (reading (latest_score i)) (\<lambda>score.
     and_then (from_sum (appDto rt score row)) (\<lambda>dto.
     and_then (reading loadFit) (\<lambda>fit.
       ret (data 200 (case fit of None \<Rightarrow> dto | Some f \<Rightarrow> JObj (Prelude.fields dto @ [(''fit'', f)])) (rr_rid rt)))))))"

definition applicationTimeline :: "route_rt \<Rightarrow> user_row \<Rightarrow> request \<Rightarrow> string \<Rightarrow> ('z app_db_scheme, response) core_prog" where
  "applicationTimeline rt user rq idRaw =
     and_then (from_sum (requireUuid idRaw ''id'')) (\<lambda>i.
     and_then (from_sum (pageOf (rr_dp rt) rq)) (\<lambda>pg.
     and_then (loadApp (cu_id user) i) (\<lambda>_.
       listPage rt (\<lambda>db. filter (\<lambda>e. ev_user e = cu_id user \<and> ev_app e = i) (app_events db))
         (\<lambda>e. (ev_created e, ev_id e)) pg (\<lambda>_ e. Inr (eventDto e)) False)))"

definition checklist_item :: "string \<Rightarrow> string \<Rightarrow> bool \<Rightarrow> jv" where
  "checklist_item key label completed = JObj [(''key'', JStr key), (''label'', JStr label), (''completed'', JBool completed)]"

definition applicationChecklist :: "route_rt \<Rightarrow> user_row \<Rightarrow> string \<Rightarrow> ('z app_db_scheme, response) core_prog" where
  "applicationChecklist rt user idRaw =
     and_then (from_sum (requireUuid idRaw ''id'')) (\<lambda>i.
     and_then (loadApp (cu_id user) i) (\<lambda>app.
     and_then (reading (\<lambda>db. JArr
        [checklist_item ''evidence'' ''Career evidence collected'' (list_ex (\<lambda>e. en_user e = cu_id user \<and> \<not> en_archived e) (evidence_rows db)),
         checklist_item ''analysis'' ''Gap analysis completed'' (list_ex (\<lambda>g. gp_user g = cu_id user \<and> gp_app g = i) (gaps db)),
         checklist_item ''document_finalized'' ''Document finalized''
           (list_ex (\<lambda>d. dc_user d = cu_id user \<and> dc_app d = Some i \<and> dc_status d = ''FINALIZED'') (docs db)),
         checklist_item ''applied'' ''Application submitted'' (isApplied (ap_stage app) (ap_applied app)),
         checklist_item ''interview_prep'' ''Interview session scheduled'' (list_ex (\<lambda>r. r = (cu_id user, i)) (interview_rows db))])) (\<lambda>items.
       ret (data 200 (JObj [(''items'', items), (''automationEnabled'', JBool False)]) (rr_rid rt)))))"

definition listSubmissions :: "route_rt \<Rightarrow> user_row \<Rightarrow> request \<Rightarrow> string \<Rightarrow> ('z app_db_scheme, response) core_prog" where
  "listSubmissions rt user rq idRaw =
     and_then (from_sum (requireUuid idRaw ''id'')) (\<lambda>i.
     and_then (from_sum (pageOf (rr_dp rt) rq)) (\<lambda>pg.
     and_then (loadApp (cu_id user) i) (\<lambda>_.
       listPage rt (\<lambda>db. filter (\<lambda>s. sb_user s = cu_id user \<and> sb_app s = i) (submissions db))
         (\<lambda>s. (sb_created s, sb_id s)) pg (\<lambda>_ s. Inr (submissionDto s)) False)))"

end
