(* ===== verification/Submissions.thy ===== *)
theory Submissions
  imports Applications
begin

text \<open>
  The writing half of \<open>services/core-api/src/routes/applications.ts\<close>: creating, importing and patching an
  application, drafts of a submission and the submission itself. A handler that reads and then writes
  is split at the statement that writes, so that other requests can come in between.
\<close>

subsection \<open>Creating and importing\<close>

text \<open>The insert; \<open>entered\<close> says whether the statement names the column \<open>stage_entered_at\<close>.\<close>

definition insert_app :: "bool \<Rightarrow> app_row \<Rightarrow> event_row list \<Rightarrow> ('z app_db_scheme, unit) core_prog" where
  "insert_app entered row evs db =
     (if entered \<and> \<not> has_entered db then (Inl undefined_column, db)
      else (Inr (), db\<lparr>apps := apps db @ [if entered then row else row\<lparr>ap_entered := None\<rparr>], app_events := app_events db @ evs\<rparr>))"

definition new_app :: "route_rt \<Rightarrow> user_row \<Rightarrow> saved_job \<Rightarrow> string \<Rightarrow> string \<Rightarrow> string option \<Rightarrow> bool \<Rightarrow> app_row" where
  "new_app rt user job stage notes applied imported =
     \<lparr>ap_id = rr_uuid rt 0, ap_user = cu_id user, ap_revision = 1, ap_job = sj_id job, ap_company = sj_company job,
      ap_title = sj_title job, ap_stage = stage, ap_notes = notes, ap_applied = applied, ap_next = None,
      ap_imported = imported, ap_created = rr_now rt, ap_updated = rr_now rt,
      ap_entered = Some [(stage, stamp (rr_now rt))]\<rparr>"

definition text_or_empty :: "jv \<Rightarrow> string" where
  "text_or_empty v = (if nullish v then [] else js_String v)"

definition createApplication :: "route_rt \<Rightarrow> user_row \<Rightarrow> request \<Rightarrow> ('z app_db_scheme, response) core_prog" where
  "createApplication rt user rq =
     and_then (from_sum (strictBody (rr_jp rt) rq [spec_field ''jobId'' KUuid True False, spec_field ''notes'' KStr False False])) (\<lambda>b.
     and_then (loadJob (cu_id user) (js_String (value_of b ''jobId''))) (\<lambda>job.
       (let row = new_app rt user job ''DISCOVERED'' (text_or_empty (value_of b ''notes'')) None False in
        and_then (loose (insert_app True row []) (insert_app False row [])) (\<lambda>_.
        and_then (from_sum (appDto rt None row)) (\<lambda>dto. ret (data 201 dto (rr_rid rt)))))))"

definition importApplication :: "route_rt \<Rightarrow> user_row \<Rightarrow> request \<Rightarrow> ('z app_db_scheme, response) core_prog" where
  "importApplication rt user rq =
     and_then (from_sum (strictBody (rr_jp rt) rq [spec_field ''jobId'' KUuid True False, spec_field ''stage'' KStr True False,
        spec_field ''appliedAt'' KStr True False, spec_field ''notes'' KStr False False, spec_field ''confirmed'' KBool False False])) (\<lambda>b.
     and_then (from_sum (parseTimeField (rr_dp rt) (value_of b ''appliedAt'') ''appliedAt'')) (\<lambda>appliedAt.
     guard (value_of b ''confirmed'' = JBool True) (field_error ''confirmed'' ''must be true to record a past application'')
       (let stage = js_String (value_of b ''stage'') in
        guard (validStage stage \<and> stage \<noteq> ''DISCOVERED'') (field_error ''stage'' ''unsupported stage for import'')
       (and_then (loadJob (cu_id user) (js_String (value_of b ''jobId''))) (\<lambda>job.
         (let row = new_app rt user job stage (text_or_empty (value_of b ''notes'')) (Some appliedAt) True;
              ev = \<lparr>ev_id = rr_uuid rt 1, ev_user = cu_id user, ev_app = ap_id row, ev_type = ''IMPORTED'',
                    ev_payload = JObj [(''stage'', JStr stage), (''appliedAt'', JStr appliedAt)], ev_created = rr_now rt\<rparr> in
          and_then (loose (insert_app True row [ev]) (insert_app False row [ev])) (\<lambda>_.
          and_then (from_sum (appDto rt None row)) (\<lambda>dto. ret (data 201 dto (rr_rid rt))))))))))"

subsection \<open>Patching\<close>

definition times_of :: "(string \<times> string) list option \<Rightarrow> (string \<times> string) list" where
  "times_of m = (case m of None \<Rightarrow> [] | Some kept \<Rightarrow> kept)"

text \<open>\<open>COALESCE(stage_entered_at, '{}') || CASE WHEN \<dots> ? stage THEN '{}' ELSE jsonb_build_object(stage, now) END\<close>.\<close>

definition enter :: "string \<Rightarrow> int \<Rightarrow> app_row \<Rightarrow> (string \<times> string) list option" where
  "enter stage now a =
     (let m = times_of (ap_entered a) in Some (if stage \<in> fst ` set m then m else m @ [(stage, stamp now)]))"

text \<open>What the handler changes in the row it has read, with the stages of the event.\<close>

record patch_plan =
  pp_row :: app_row
  pp_event :: "(string \<times> string) option"

definition plan_stage :: "route_rt \<Rightarrow> body_values \<Rightarrow> app_row \<Rightarrow> core_exn + patch_plan" where
  "plan_stage rt b app =
     (if nullish (value_of b ''stage'') then Inr \<lparr>pp_row = app, pp_event = None\<rparr>
      else
        (let to_stage = js_String (value_of b ''stage''); from_stage = ap_stage app in
         if \<not> validStage to_stage then Inl (field_error ''stage'' ''unsupported stage'')
         else if to_stage = ''APPLIED'' \<and> from_stage \<noteq> ''APPLIED'' then Inl (transition ''APPLIED can only be reached through submissions'')
         else if \<not> canPatchStage from_stage to_stage then Inl (transition (''cannot move from '' @ from_stage @ '' to '' @ to_stage))
         else if to_stage = from_stage then Inr \<lparr>pp_row = app, pp_event = None\<rparr>
         else bind_sum (stageEnteredAt rt app) (\<lambda>times.
           Inr \<lparr>pp_row = app\<lparr>ap_entered := Some (if to_stage \<in> fst ` set times then times else times @ [(to_stage, stamp (rr_now rt))]),
                  ap_stage := to_stage,
                  ap_applied := (if to_stage = ''APPLIED'' then Some (stamp (rr_now rt)) else ap_applied app)\<rparr>,
                pp_event = Some (from_stage, to_stage)\<rparr>)))"

definition plan_patch :: "route_rt \<Rightarrow> body_values \<Rightarrow> bool \<Rightarrow> string option \<Rightarrow> app_row \<Rightarrow> core_exn + patch_plan" where
  "plan_patch rt b clearNext nextAt app =
     bind_sum (plan_stage rt b app) (\<lambda>p.
       (let row = pp_row p;
            row = (if nullish (value_of b ''notes'') then row else row\<lparr>ap_notes := js_String (value_of b ''notes'')\<rparr>);
            row = (if clearNext then row\<lparr>ap_next := None\<rparr> else if nextAt \<noteq> None then row\<lparr>ap_next := nextAt\<rparr> else row)
        in Inr \<lparr>pp_row = row\<lparr>ap_updated := rr_now rt\<rparr>, pp_event = pp_event p\<rparr>))"

definition stage_event :: "string \<Rightarrow> string \<Rightarrow> string \<Rightarrow> string \<times> string \<Rightarrow> int \<Rightarrow> event_row" where
  "stage_event ident u i change now = \<lparr>ev_id = ident, ev_user = u, ev_app = i, ev_type = ''STAGE_CHANGED'',
     ev_payload = JObj [(''from'', JStr (fst change)), (''to'', JStr (snd change))], ev_created = now\<rparr>"

definition at_revision :: "string \<Rightarrow> string \<Rightarrow> int \<Rightarrow> app_row \<Rightarrow> bool" where
  "at_revision i u expected a \<longleftrightarrow> ap_id a = i \<and> ap_user a = u \<and> ap_revision a = expected"

definition PATCH_APP :: "bool \<Rightarrow> route_rt \<Rightarrow> string \<Rightarrow> int \<Rightarrow> string option \<Rightarrow> string option \<Rightarrow> patch_plan \<Rightarrow> ('z app_db_scheme, bool) core_prog" where
  "PATCH_APP entered rt u expected applied nxt p db =
     (let row = pp_row p; i = ap_id row; now = rr_now rt in
      if entered \<and> \<not> has_entered db then (Inl undefined_column, db)
      else if \<not> list_ex (at_revision i u expected) (apps db) then (Inr False, db)
      else (Inr True, db\<lparr>
        apps := map (\<lambda>a. if at_revision i u expected a
          then a\<lparr>ap_revision := ap_revision a + 1, ap_stage := ap_stage row, ap_notes := ap_notes row, ap_applied := applied,
                 ap_next := nxt, ap_imported := ap_imported row, ap_updated := now,
                 ap_entered := (if entered then enter (ap_stage row) now a else ap_entered a)\<rparr>
          else a) (apps db),
        app_events := app_events db @ (case pp_event p of None \<Rightarrow> [] | Some change \<Rightarrow> [stage_event (rr_uuid rt 0) u i change now])\<rparr>))"

definition patch_spec :: "(string \<times> field_spec) list" where
  "patch_spec = [spec_field ''expectedRevision'' KInt True False, spec_field ''stage'' KStr False True,
     spec_field ''notes'' KStr False True, spec_field ''nextActionAt'' KStr False True]"

definition int_value :: "jv \<Rightarrow> int" where
  "int_value v = (case v of JNum n \<Rightarrow> n | _ \<Rightarrow> 0)"

text \<open>From the conditional \<open>UPDATE\<close> on.\<close>

definition patch_store :: "route_rt \<Rightarrow> user_row \<Rightarrow> int \<Rightarrow> int option \<Rightarrow> patch_plan \<Rightarrow> ('z app_db_scheme, response) core_prog" where
  "patch_store rt user expected score p =
     and_then (from_sum (ts (rr_dp rt) (opt_text (ap_applied (pp_row p))))) (\<lambda>applied.
     and_then (from_sum (ts (rr_dp rt) (opt_text (ap_next (pp_row p))))) (\<lambda>nxt.
     and_then (loose (PATCH_APP True rt (cu_id user) expected applied nxt p) (PATCH_APP False rt (cu_id user) expected applied nxt p)) (\<lambda>updated.
     and_then (if updated then ret () else failedUpdate (\<lambda>db. map_option ap_revision (app_at (ap_id (pp_row p)) (cu_id user) db))) (\<lambda>_.
     and_then (from_sum (appDto rt score ((pp_row p)\<lparr>ap_revision := expected + 1\<rparr>))) (\<lambda>dto. ret (data 200 dto (rr_rid rt)))))))"

definition patch_read :: "route_rt \<Rightarrow> user_row \<Rightarrow> request \<Rightarrow> string \<Rightarrow> ('z app_db_scheme, int \<times> int option \<times> patch_plan) core_prog" where
  "patch_read rt user rq idRaw =
     and_then (from_sum (requireUuid idRaw ''id'')) (\<lambda>i.
     and_then (from_sum (strictBody (rr_jp rt) rq patch_spec)) (\<lambda>b.
       (let given = ''nextActionAt'' \<in> set (bv_present b); clearNext = (given \<and> value_of b ''nextActionAt'' = JNull) in
        and_then (if given \<and> \<not> clearNext then from_sum (map_sum id Some (parseTimeField (rr_dp rt) (value_of b ''nextActionAt'') ''nextActionAt''))
             else ret None) (\<lambda>nextAt.
        and_then (loadApp (cu_id user) i) (\<lambda>app.
        and_then (reading (latest_score i)) (\<lambda>score.
          (let expected = int_value (value_of b ''expectedRevision'') in
           guard (ap_revision app = expected) (conflict_error (ap_revision app))
            (and_then (from_sum (plan_patch rt b clearNext nextAt app)) (\<lambda>p. ret (expected, score, p))))))))))"

definition patchApplication :: "route_rt \<Rightarrow> user_row \<Rightarrow> request \<Rightarrow> string \<Rightarrow> ('z app_db_scheme, response) core_prog" where
  "patchApplication rt user rq idRaw =
     and_then (patch_read rt user rq idRaw) (\<lambda>(expected, score, p). patch_store rt user expected score p)"

subsection \<open>Drafts of a submission\<close>

definition draft_spec :: "(string \<times> field_spec) list" where
  "draft_spec = [spec_field ''expectedRevision'' KInt True False, spec_field ''mode'' KStr True False,
     spec_field ''adapter'' KStr False True, spec_field ''documentVersionIds'' KUuids False False, spec_field ''confirmedSubmitted'' KBool False False]"

definition finalized_of :: "version_row \<Rightarrow> 'z app_db_scheme \<Rightarrow> string option" where
  "finalized_of v db = (case find (\<lambda>d. dc_id d = vr_doc v \<and> dc_user d = vr_user v) (docs db) of None \<Rightarrow> None | Some d \<Rightarrow> dc_final d)"

definition check_version :: "string \<Rightarrow> string \<Rightarrow> 'z app_db_scheme \<Rightarrow> string \<Rightarrow> core_exn + unit" where
  "check_version u i db vid =
     (case find (\<lambda>v. vr_id v = vid \<and> vr_user v = u) (versions db) of
        None \<Rightarrow> Inl (field_error ''documentVersionIds'' (''version '' @ vid @ '' not found''))
      | Some v \<Rightarrow>
          if vr_app v \<noteq> Some i then Inl (field_error ''documentVersionIds'' (''version '' @ vid @ '' belongs to another application''))
          else if finalized_of v db \<noteq> Some vid
          then Inl (HttpError 422 ''DOCUMENT_NOT_FINALIZED'' (''document version '' @ vid @ '' is not finalized'') JNull)
          else Inr ())"

definition draft_hash :: "route_rt \<Rightarrow> string \<Rightarrow> int \<Rightarrow> string \<Rightarrow> string list \<Rightarrow> string" where
  "draft_hash rt i revision mode vids =
     hashJson rt (JObj [(''applicationId'', JStr i), (''applicationRevision'', JNum revision), (''mode'', JStr mode), (''adapter'', JNull),
       (''documentVersionIds'', strs vids)])"

definition createSubmissionDraft :: "route_rt \<Rightarrow> user_row \<Rightarrow> request \<Rightarrow> string \<Rightarrow> ('z app_db_scheme, response) core_prog" where
  "createSubmissionDraft rt user rq idRaw =
     and_then (from_sum (requireUuid idRaw ''id'')) (\<lambda>i.
     and_then (from_sum (strictBody (rr_jp rt) rq draft_spec)) (\<lambda>b.
     and_then (loadApp (cu_id user) i) (\<lambda>app.
     guard (JNum (ap_revision app) = value_of b ''expectedRevision'') (conflict_error (ap_revision app))
       (let mode = js_String (value_of b ''mode''); vids = texts_of (value_of b ''documentVersionIds'') in
        guard (mode = ''MANUAL_RECORD'' \<or> mode = ''ADAPTER'') (field_error ''mode'' ''must be MANUAL_RECORD or ADAPTER'')
       (guard (mode \<noteq> ''ADAPTER'') (HttpError 403 ''FEATURE_DISABLED'' ''adapter submission is not enabled for this site'' JNull)
       (guard (nullish (value_of b ''adapter'')) (field_error ''adapter'' ''adapter is only valid with ADAPTER mode'')
       (guard (vids \<noteq> []) (field_error ''documentVersionIds'' ''at least one document version is required'')
       (and_then (reading (\<lambda>db. each (check_version (cu_id user) i db) vids)) (\<lambda>checked.
        and_then (from_sum checked) (\<lambda>_.
          (let row = \<lparr>dr_id = rr_uuid rt 0, dr_user = cu_id user, dr_app = i, dr_revision = ap_revision app, dr_mode = mode,
                 dr_adapter = None, dr_versions = vids, dr_confirmed = (value_of b ''confirmedSubmitted'' = JBool True),
                 dr_hash = draft_hash rt i (ap_revision app) mode vids, dr_created = rr_now rt\<rparr> in
           and_then (writing (\<lambda>db. db\<lparr>drafts := drafts db @ [row]\<rparr>)) (\<lambda>_. ret (data 201 (draftDto row) (rr_rid rt))))))))))))))"

subsection \<open>Submitting\<close>

definition submit_spec :: "(string \<times> field_spec) list" where
  "submit_spec = [spec_field ''expectedRevision'' KInt True False, spec_field ''draftId'' KUuid True False, spec_field ''approvalId'' KUuid True False]"

text \<open>\<open>ctx.now.getTime() > Date.parse(String(ts(expires_at)))\<close>; \<open>NaN\<close> compares false.\<close>

definition expired :: "route_rt \<Rightarrow> string option \<Rightarrow> core_exn + bool" where
  "expired rt e =
     (case e of None \<Rightarrow> Inr False
      | Some s \<Rightarrow> bind_sum (ts (rr_dp rt) (JStr s)) (\<lambda>t.
          Inr (case rr_dp rt (case t of None \<Rightarrow> ''null'' | Some x \<Rightarrow> x) of None \<Rightarrow> False | Some ms \<Rightarrow> ms < rr_now rt)))"

record submit_plan =
  sp_app :: string
  sp_expected :: int
  sp_approval :: string
  sp_approval_revision :: int
  sp_stage :: string
  sp_move :: bool
  sp_row :: submission_row

definition draft_at :: "string \<Rightarrow> string \<Rightarrow> 'z app_db_scheme \<Rightarrow> draft_row option" where
  "draft_at d u db = find (\<lambda>r. dr_id r = d \<and> dr_user r = u) (drafts db)"

definition approval_at :: "string \<Rightarrow> string \<Rightarrow> 'z app_db_scheme \<Rightarrow> approval_row option" where
  "approval_at v u db = find (\<lambda>r. av_id r = v \<and> av_user r = u) (approvals db)"

text \<open>The reads and guards of \<open>submitApplication\<close>, up to the statement.\<close>

definition submit_read :: "route_rt \<Rightarrow> user_row \<Rightarrow> request \<Rightarrow> string \<Rightarrow> ('z app_db_scheme, submit_plan) core_prog" where
  "submit_read rt user rq idRaw =
     and_then (from_sum (requireUuid idRaw ''id'')) (\<lambda>i.
     and_then (from_sum (strictBody (rr_jp rt) rq submit_spec)) (\<lambda>b.
       (let expected = int_value (value_of b ''expectedRevision''); approvalId = js_String (value_of b ''approvalId'') in
        and_then (loadApp (cu_id user) i) (\<lambda>app.
        guard (ap_revision app = expected) (conflict_error (ap_revision app))
       (and_then (reading (draft_at (js_String (value_of b ''draftId'')) (cu_id user))) (\<lambda>found.
        and_then (from_option (field_error ''draftId'' ''draft not found'') found) (\<lambda>draft.
        guard (dr_app draft = i) (field_error ''draftId'' ''draft belongs to another application'')
       (guard (dr_revision draft = ap_revision app)
          (approvalStale ''application changed since the draft was created; create a new draft and approval'')
       (and_then (reading (approval_at approvalId (cu_id user))) (\<lambda>granted.
        and_then (from_option (approvalRequired ''approval not found'') granted) (\<lambda>approval.
        guard (av_kind approval = ''APPLICATION_SUBMIT'' \<and> av_app approval = Some i \<and> av_target approval = dr_id draft)
          (approvalRequired ''approval does not cover this target'')
       (and_then (from_sum (expired rt (av_expires approval))) (\<lambda>late.
        guard (\<not> late) (approvalRequired ''approval expired'')
       (guard (av_status approval = ''APPROVED'') (approvalRequired ''approval is not approved'')
       (guard (dr_hash draft = [] \<or> av_hash approval = dr_hash draft) (approvalStale ''approved content has changed'')
       (guard (\<not> (dr_mode draft = ''MANUAL_RECORD'' \<and> \<not> dr_confirmed draft))
          (field_error ''confirmedSubmitted'' ''manual submission requires confirming the external submission completed'')
       (guard (ap_stage app \<notin> set TERMINAL) (transition ''application is closed'')
         (ret \<lparr>sp_app = i, sp_expected = expected, sp_approval = approvalId, sp_approval_revision = av_revision approval,
           sp_stage = ap_stage app, sp_move = (ap_stage app \<noteq> ''APPLIED'' \<and> \<not> afterApplied (ap_stage app)),
           sp_row = \<lparr>sb_id = rr_uuid rt 0, sb_user = cu_id user, sb_app = i, sb_mode = dr_mode draft, sb_adapter = dr_adapter draft,
             sb_status = ''SUCCEEDED'', sb_versions = dr_versions draft, sb_approval = Some approvalId, sb_receipt = None, sb_error = None,
             sb_created = rr_now rt, sb_updated = rr_now rt\<rparr>\<rparr>))))))))))))))))))"

definition approval_matches :: "string \<Rightarrow> string \<Rightarrow> int \<Rightarrow> approval_row \<Rightarrow> bool" where
  "approval_matches v u revision r \<longleftrightarrow> av_id r = v \<and> av_user r = u \<and> av_revision r = revision"

definition submission_event :: "string \<Rightarrow> submission_row \<Rightarrow> int \<Rightarrow> event_row" where
  "submission_event ident s now = \<lparr>ev_id = ident, ev_user = sb_user s, ev_app = sb_app s, ev_type = ''SUBMISSION'',
     ev_payload = JObj [(''submissionId'', JStr (sb_id s)), (''mode'', JStr (sb_mode s)), (''status'', JStr ''SUCCEEDED'')], ev_created = now\<rparr>"

definition SUBMIT :: "bool \<Rightarrow> route_rt \<Rightarrow> string \<Rightarrow> submit_plan \<Rightarrow> ('z app_db_scheme, bool) core_prog" where
  "SUBMIT entered rt u p db =
     (let now = rr_now rt; i = sp_app p;
          ap = list_ex (approval_matches (sp_approval p) u (sp_approval_revision p)) (approvals db)
             \<and> list_ex (at_revision i u (sp_expected p)) (apps db) in
      if entered \<and> \<not> has_entered db then (Inl undefined_column, db)
      else if \<not> ap then (Inr False, db)
      else (Inr True, db\<lparr>
        approvals := map (\<lambda>r. if approval_matches (sp_approval p) u (sp_approval_revision p) r
          then r\<lparr>av_revision := av_revision r + 1, av_status := ''CONSUMED'', av_consumed := Some now, av_updated := now\<rparr> else r) (approvals db),
        submissions := submissions db @ [sp_row p],
        apps := map (\<lambda>a. if sp_move p \<and> at_revision i u (sp_expected p) a
          then a\<lparr>ap_revision := ap_revision a + 1, ap_stage := ''APPLIED'', ap_applied := Some (stamp now), ap_updated := now,
                 ap_entered := (if entered then enter ''APPLIED'' now a else ap_entered a)\<rparr> else a) (apps db),
        app_events := app_events db @ (if sp_move p then [stage_event (rr_uuid rt 1) u i (sp_stage p, ''APPLIED'') now] else [])
          @ [submission_event (rr_uuid rt 2) (sp_row p) now]\<rparr>))"

definition submit_store :: "route_rt \<Rightarrow> user_row \<Rightarrow> submit_plan \<Rightarrow> ('z app_db_scheme, response) core_prog" where
  "submit_store rt user p =
     and_then (loose (SUBMIT True rt (cu_id user) p) (SUBMIT False rt (cu_id user) p)) (\<lambda>completed.
     and_then (if completed then ret ()
       else and_then (loadApp (cu_id user) (sp_app p)) (\<lambda>latest.
         guard (ap_revision latest = sp_expected p) (conflict_error (ap_revision latest))
           (failedUpdate (\<lambda>db. map_option av_revision (approval_at (sp_approval p) (cu_id user) db))))) (\<lambda>_.
       ret (data 201 (submissionDto (sp_row p)) (rr_rid rt))))"

definition submitApplication :: "route_rt \<Rightarrow> user_row \<Rightarrow> request \<Rightarrow> string \<Rightarrow> ('z app_db_scheme, response) core_prog" where
  "submitApplication rt user rq idRaw = and_then (submit_read rt user rq idRaw) (submit_store rt user)"

end
