(* ===== verification/Doc_Db.thy ===== *)
theory Doc_Db
  imports Submissions Enqueue
begin

text \<open>
  The tables of \<open>services/core-api/src/routes/documents.ts\<close> on top of those of applications, the rows
  as JSON, the loading of documents and versions, and the check of the evidence of blocks. The jobs and
  credits are a part of the state of their own; \<open>on_jobs\<close> runs a program on it.
\<close>

subsection \<open>Tables\<close>

record proposal_row =
  pr_id :: string
  pr_user :: string
  pr_doc :: string
  pr_source :: string
  pr_source_revision :: int
  pr_selection :: jv
  pr_replacement :: string
  pr_applied :: "int option"

record export_row =
  ex_id :: string
  ex_user :: string
  ex_doc :: string
  ex_version :: string
  ex_format :: string
  ex_template :: string
  ex_language :: string
  ex_content :: jv
  ex_blocks :: jv
  ex_hash :: string
  ex_status :: string
  ex_renderer :: string
  ex_result :: jv
  ex_created :: int
  ex_updated :: int

record share_row =
  sh_id :: string
  sh_doc :: string
  sh_version :: string
  sh_token :: string
  sh_by :: string
  sh_created :: int
  sh_revoked :: "int option"

record source_row =
  so_id :: string
  so_user :: string
  so_file :: "string option"
  so_mime :: "string option"
  so_content :: string

text \<open>\<open>shares\<close> is \<open>None\<close> before the table is migrated.\<close>

record doc_db = app_db +
  proposals :: "proposal_row list"
  exports :: "export_row list"
  shares :: "share_row list option"
  sources :: "source_row list"
  doc_jobs :: job_db

definition on_jobs :: "(job_db, 'a) core_prog \<Rightarrow> ('z doc_db_scheme, 'a) core_prog" where
  "on_jobs m db = (case m (doc_jobs db) of (r, j) \<Rightarrow> (r, db\<lparr>doc_jobs := j\<rparr>))"

subsection \<open>Constants\<close>

definition KINDS :: "string list" where
  "KINDS = [''RESUME'', ''PORTFOLIO'', ''COVER_LETTER'', ''CAREER_STATEMENT'', ''HUB_PROFILE'']"

definition TEMPLATES :: "string list" where
  "TEMPLATES = [''SIMPLE'', ''MODERN'', ''CREATIVE'', ''ATS'', ''CLASSIC'', ''COMPACT'']"

text \<open>\<open>TEMPLATE_ALIASES[template] ?? template\<close>.\<close>

definition stored_template :: "string \<Rightarrow> string" where
  "stored_template t = (if t = ''CLASSIC'' then ''SIMPLE'' else if t = ''COMPACT'' then ''ATS'' else t)"

definition template_error :: core_exn where
  "template_error = field_error ''template'' ''must be SIMPLE, MODERN, CREATIVE, ATS, CLASSIC or COMPACT''"

definition body_error :: core_exn where
  "body_error = HttpError 400 ''VALIDATION_ERROR'' ''invalid request body'' JNull"

subsection \<open>Rows as JSON\<close>

definition documentDto :: "doc_row \<Rightarrow> jv" where
  "documentDto d = JObj [(''id'', JStr (dc_id d)), (''revision'', JNum (dc_revision d)), (''applicationId'', opt_text (dc_app d)),
     (''title'', JStr (dc_title d)), (''kind'', JStr (dc_kind d)), (''template'', JStr (dc_template d)), (''language'', JStr (dc_language d)),
     (''status'', JStr (dc_status d)), (''latestVersionId'', opt_text (dc_latest d)), (''finalizedVersionId'', opt_text (dc_final d)),
     (''createdAt'', JStr (stamp (dc_created d))), (''updatedAt'', JStr (stamp (dc_updated d)))]"

definition versionDto :: "version_row \<Rightarrow> jv" where
  "versionDto v = JObj [(''id'', JStr (vr_id v)), (''documentId'', JStr (vr_doc v)), (''applicationId'', opt_text (vr_app v)),
     (''number'', JNum (vr_number v)), (''content'', vr_content v), (''blocks'', blocks_json (blocksOf (vr_blocks v))),
     (''changeNote'', JStr (vr_note v)), (''quality'', qualityOf (vr_quality v)), (''createdAt'', JStr (stamp (vr_created v)))]"

definition container :: "jv \<Rightarrow> bool" where
  "container v = (case v of JObj _ \<Rightarrow> True | JArr _ \<Rightarrow> True | _ \<Rightarrow> False)"

definition flag :: "jv \<Rightarrow> jv" where "flag v = JBool (truthy v)"

definition exportResultOf :: "jv \<Rightarrow> jv" where
  "exportResultOf r =
     (if \<not> container r then JNull
      else
        (let v = (if container (jget r ''validation'') then jget r ''validation'' else JObj []);
             pageCount = coalesce (jget r ''pageCount'') (jget r ''page_count'');
             errorCode = coalesce (jget r ''errorCode'') (jget r ''error_code'') in
         JObj ([(''sha256'', JStr (js_String (jget r ''sha256''))),
             (''byteLength'', JNum (stored_int (coalesce (jget r ''byteLength'') (jget r ''byte_length''))))]
           @ (if nullish pageCount then [] else [(''pageCount'', JNum (stored_int pageCount))])
           @ [(''validation'', JObj [(''koreanText'', flag (coalesce (jget v ''koreanText'') (jget v ''korean_text''))),
                (''links'', flag (jget v ''links'')), (''atsText'', flag (coalesce (jget v ''atsText'') (jget v ''ats_text'')))])]
           @ (if nullish errorCode then [] else [(''errorCode'', JStr (js_String errorCode))]))))"

definition exportDto :: "export_row \<Rightarrow> jv" where
  "exportDto e = JObj [(''id'', JStr (ex_id e)), (''documentId'', JStr (ex_doc e)), (''versionId'', JStr (ex_version e)),
     (''format'', JStr (ex_format e)), (''template'', JStr (ex_template e)), (''language'', JStr (ex_language e)),
     (''content'', ex_content e), (''blocks'', blocks_json (blocksOf (ex_blocks e))), (''contentHash'', JStr (ex_hash e)),
     (''status'', JStr (ex_status e)), (''rendererVersion'', JStr (ex_renderer e)), (''result'', exportResultOf (ex_result e)),
     (''createdAt'', JStr (stamp (ex_created e))), (''updatedAt'', JStr (stamp (ex_updated e)))]"

subsection \<open>Loading\<close>

definition doc_at :: "string \<Rightarrow> string \<Rightarrow> 'z app_db_scheme \<Rightarrow> doc_row option" where
  "doc_at i u db = find (\<lambda>d. dc_id d = i \<and> dc_user d = u) (docs db)"

definition loadDocument :: "string \<Rightarrow> string \<Rightarrow> ('z app_db_scheme, doc_row) core_prog" where
  "loadDocument u i = and_then (reading (doc_at i u)) (from_option not_found_error)"

text \<open>\<open>_get_mutable\<close>: archived documents take no writes.\<close>

definition loadMutable :: "string \<Rightarrow> string \<Rightarrow> ('z app_db_scheme, doc_row) core_prog" where
  "loadMutable u i = and_then (loadDocument u i) (\<lambda>d.
     guard (dc_status d \<noteq> ''ARCHIVED'') (transition ''document is archived'') (ret d))"

definition version_at :: "string \<Rightarrow> string \<Rightarrow> string \<Rightarrow> 'z app_db_scheme \<Rightarrow> version_row option" where
  "version_at i v u db = find (\<lambda>r. vr_id r = v \<and> vr_user r = u \<and> vr_doc r = i) (versions db)"

definition loadVersion :: "string \<Rightarrow> string \<Rightarrow> string \<Rightarrow> ('z app_db_scheme, version_row) core_prog" where
  "loadVersion u i v = and_then (reading (version_at i v u)) (from_option not_found_error)"

text \<open>The update guarded by the revision: whether it found the row, and the rows after it.\<close>

definition doc_matches :: "string \<Rightarrow> string \<Rightarrow> int \<Rightarrow> doc_row \<Rightarrow> bool" where
  "doc_matches i u e d \<longleftrightarrow> dc_id d = i \<and> dc_user d = u \<and> dc_revision d = e"

definition UPDATE_DOC :: "string \<Rightarrow> string \<Rightarrow> int \<Rightarrow> (doc_row \<Rightarrow> doc_row) \<Rightarrow> 'z app_db_scheme \<Rightarrow> bool \<times> 'z app_db_scheme" where
  "UPDATE_DOC i u e f db =
     (list_ex (doc_matches i u e) (docs db),
      db\<lparr>docs := map (\<lambda>d. if doc_matches i u e d then f (d\<lparr>dc_revision := dc_revision d + 1\<rparr>) else d) (docs db)\<rparr>)"

definition guarded_update :: "string \<Rightarrow> string \<Rightarrow> int \<Rightarrow> (doc_row \<Rightarrow> doc_row) \<Rightarrow> ('z app_db_scheme, unit) core_prog" where
  "guarded_update i u e f db =
     (case UPDATE_DOC i u e f db of (True, db') \<Rightarrow> (Inr (), db')
      | (False, _) \<Rightarrow> failedUpdate (\<lambda>db. map_option dc_revision (doc_at i u db)) db)"

subsection \<open>Evidence\<close>

definition first_seen :: "string list \<Rightarrow> string list" where
  "first_seen xs = rev (remdups (rev xs))"

definition wanted_ids :: "block list \<Rightarrow> string list" where
  "wanted_ids bs = first_seen (concat (map (\<lambda>b. map er_id (bk_refs b)) bs))"

definition evidence_for :: "string \<Rightarrow> string \<Rightarrow> 'z app_db_scheme \<Rightarrow> evidence_row option" where
  "evidence_for u i db = find (\<lambda>e. en_id e = i \<and> en_user e = u) (evidence_rows db)"

text \<open>The inner loop over the references of a block, with the status so far.\<close>

fun verify_refs :: "(string \<Rightarrow> evidence_row option) \<Rightarrow> string \<Rightarrow> evidence_ref list \<Rightarrow> string \<Rightarrow> core_exn + string" where
  "verify_refs evidence txt [] status = Inr status"
| "verify_refs evidence txt (r # rs) status =
     (case evidence (er_id r) of
        None \<Rightarrow> Inl (field_error ''blocks'' (''evidence '' @ er_id r @ '' not found''))
      | Some e \<Rightarrow>
          if en_archived e then Inl (field_error ''blocks'' (''evidence '' @ er_id r @ '' is archived''))
          else (case codePointSlice (en_text e) (er_start r) (er_end r) of
                  None \<Rightarrow> Inl (field_error ''blocks'' (''evidenceRef range out of bounds for '' @ er_id r))
                | Some part \<Rightarrow> verify_refs evidence txt rs
                    (if part = [] \<or> \<not> str_includes txt part then ''NEEDS_REVIEW'' else status)))"

definition verify_block :: "(string \<Rightarrow> evidence_row option) \<Rightarrow> block \<Rightarrow> core_exn + block" where
  "verify_block evidence b =
     (if bk_refs b = [] then Inr (b\<lparr>bk_status := ''UNSUPPORTED''\<rparr>)
      else bind_sum (verify_refs evidence (bk_text b) (bk_refs b) ''SUPPORTED'') (\<lambda>st. Inr (b\<lparr>bk_status := st\<rparr>)))"

definition bad_uuid :: core_exn where
  "bad_uuid = DbError ''22P02'' ''invalid input syntax for type uuid''"

text \<open>The blocks with their status and the ids of the evidence; the statement casts the ids to \<open>uuid\<close>.\<close>

definition verifyBlocks :: "string \<Rightarrow> block list \<Rightarrow> ('z app_db_scheme, block list \<times> string list) core_prog" where
  "verifyBlocks u bs =
     guard (list_all (\<lambda>i. parseUuid i \<noteq> None) (wanted_ids bs)) bad_uuid
       (and_then (reading (\<lambda>db. each (verify_block (\<lambda>i. evidence_for u i db)) bs)) (\<lambda>r.
        and_then (from_sum r) (\<lambda>verified. ret (verified, wanted_ids bs))))"

subsection \<open>Bodies\<close>

definition ref_input :: "jv \<Rightarrow> core_exn + evidence_ref" where
  "ref_input v = bind_sum (strictObject v [spec_field ''evidenceId'' KUuid True False, spec_field ''start'' KInt True False, spec_field ''end'' KInt True False])
     (\<lambda>r. Inr \<lparr>er_id = js_String (value_of r ''evidenceId''), er_start = stored_int (value_of r ''start''), er_end = stored_int (value_of r ''end'')\<rparr>)"

definition block_input :: "jv \<Rightarrow> core_exn + block" where
  "block_input v = bind_sum (strictObject v [spec_field ''id'' KStr True False, spec_field ''text'' KStr True False, spec_field ''evidenceRefs'' KAny False False])
     (\<lambda>b. bind_sum (case value_of b ''evidenceRefs'' of JUndef \<Rightarrow> Inr [] | JArr rs \<Rightarrow> each ref_input rs | _ \<Rightarrow> Inl body_error)
     (\<lambda>refs. Inr \<lparr>bk_id = js_String (value_of b ''id''), bk_text = js_String (value_of b ''text''), bk_refs = refs, bk_status = []\<rparr>))"

definition blockInputs :: "jv \<Rightarrow> core_exn + block list" where
  "blockInputs v = (case v of JUndef \<Rightarrow> Inr [] | JArr vs \<Rightarrow> each block_input vs | _ \<Rightarrow> Inl body_error)"

end
