(* ===== verification/Documents.thy ===== *)
theory Documents
  imports Doc_Db
begin

text \<open>
  \<open>services/core-api/src/routes/documents.ts\<close>: creating and patching documents, saving a version, applying
  a proposal or the edits of a chat, reviewing, finalizing under an approval and archiving. A handler
  that reads and then writes is split at the statement that writes.
\<close>

subsection \<open>Lists and creation\<close>

text \<open>A query parameter that is missing or empty is \<open>None\<close>.\<close>

definition given_param :: "request \<Rightarrow> string \<Rightarrow> string option" where
  "given_param rq name = (case search_get rq name of Some v \<Rightarrow> if v = [] then None else Some v | None \<Rightarrow> None)"

definition app_param :: "request \<Rightarrow> core_exn + string option" where
  "app_param rq = (case given_param rq ''applicationId'' of None \<Rightarrow> Inr None
     | Some v \<Rightarrow> (case parseUuid v of None \<Rightarrow> Inl (field_error ''applicationId'' ''must be a UUID'') | Some i \<Rightarrow> Inr (Some i)))"

definition listDocuments :: "route_rt \<Rightarrow> user_row \<Rightarrow> request \<Rightarrow> ('z app_db_scheme, response) core_prog" where
  "listDocuments rt user rq =
     and_then (from_sum (pageOf (rr_dp rt) rq)) (\<lambda>pg.
     and_then (from_sum (app_param rq)) (\<lambda>app.
       (let kind = given_param rq ''kind'' in
        guard (case kind of None \<Rightarrow> True | Some k \<Rightarrow> k \<in> set KINDS) (field_error ''kind'' ''unsupported kind'')
          (listPage rt (\<lambda>db. filter (\<lambda>d. dc_user d = cu_id user \<and> (app = None \<or> dc_app d = app) \<and> (kind = None \<or> Some (dc_kind d) = kind)) (docs db))
             (\<lambda>d. (dc_created d, dc_id d)) pg (\<lambda>_ d. Inr (documentDto d)) False))))"

definition new_doc :: "route_rt \<Rightarrow> user_row \<Rightarrow> string option \<Rightarrow> string \<Rightarrow> string \<Rightarrow> string \<Rightarrow> string \<Rightarrow> doc_row" where
  "new_doc rt user app title kind template language =
     \<lparr>dc_id = rr_uuid rt 0, dc_user = cu_id user, dc_revision = 1, dc_app = app, dc_title = title, dc_kind = kind,
      dc_template = template, dc_language = language, dc_status = ''DRAFT'', dc_latest = None, dc_final = None,
      dc_created = rr_now rt, dc_updated = rr_now rt\<rparr>"

definition title_ok :: "string \<Rightarrow> bool" where
  "title_ok t \<longleftrightarrow> 1 \<le> length t \<and> length t \<le> 300"

definition title_error :: core_exn where
  "title_error = field_error ''title'' ''title must be 1-300 characters''"

definition create_spec :: "(string \<times> field_spec) list" where
  "create_spec = [spec_field ''applicationId'' KUuid True False, spec_field ''title'' KStr True False, spec_field ''kind'' KStr True False,
     spec_field ''template'' KStr False False, spec_field ''language'' KStr True False]"

definition createDocument :: "route_rt \<Rightarrow> user_row \<Rightarrow> request \<Rightarrow> ('z app_db_scheme, response) core_prog" where
  "createDocument rt user rq =
     and_then (from_sum (strictBody (rr_jp rt) rq create_spec)) (\<lambda>b.
       (let app = js_String (value_of b ''applicationId''); title = js_String (value_of b ''title''); kind = js_String (value_of b ''kind'');
            template = or_blank (value_of b ''template'') in
        and_then (loadApp (cu_id user) app) (\<lambda>_.
        guard (title_ok title) title_error
       (guard (kind \<in> set KINDS) (field_error ''kind'' ''must be RESUME, PORTFOLIO, COVER_LETTER, CAREER_STATEMENT or HUB_PROFILE'')
       (guard (template \<in> set TEMPLATES) template_error
          (let row = new_doc rt user (Some app) title kind (stored_template template) (js_String (value_of b ''language'')) in
           and_then (writing (\<lambda>db. db\<lparr>docs := docs db @ [row]\<rparr>)) (\<lambda>_.
             ret (data 201 (documentDto row) (rr_rid rt)))))))))"

definition getDocument :: "route_rt \<Rightarrow> user_row \<Rightarrow> string \<Rightarrow> ('z app_db_scheme, response) core_prog" where
  "getDocument rt user idRaw =
     and_then (from_sum (requireUuid idRaw ''id'')) (\<lambda>i.
     and_then (loadDocument (cu_id user) i) (\<lambda>d. ret (data 200 (documentDto d) (rr_rid rt))))"

subsection \<open>Patching\<close>

text \<open>The changes to the row that was read; \<open>null\<close> leaves a field as it is.\<close>

definition patch_title :: "jv \<Rightarrow> doc_row \<Rightarrow> core_exn + doc_row" where
  "patch_title v d = (if nullish v then Inr d else if title_ok (js_String v) then Inr (d\<lparr>dc_title := js_String v\<rparr>) else Inl title_error)"

definition patch_template :: "jv \<Rightarrow> doc_row \<Rightarrow> core_exn + doc_row" where
  "patch_template v d =
     (if nullish v then Inr d
      else if js_String v \<notin> set TEMPLATES then Inl template_error
      else if stored_template (js_String v) = dc_template d then Inr d
      else Inr (d\<lparr>dc_template := stored_template (js_String v), dc_final := None,
             dc_status := (if dc_status d = ''FINALIZED'' then ''DRAFT'' else dc_status d)\<rparr>))"

definition doc_patch_spec :: "(string \<times> field_spec) list" where
  "doc_patch_spec = [spec_field ''expectedRevision'' KInt True False, spec_field ''title'' KStr False True,
     spec_field ''template'' KStr False True, spec_field ''language'' KStr False True]"

definition patch_doc_read :: "route_rt \<Rightarrow> user_row \<Rightarrow> request \<Rightarrow> string \<Rightarrow> ('z app_db_scheme, int \<times> doc_row) core_prog" where
  "patch_doc_read rt user rq idRaw =
     and_then (from_sum (requireUuid idRaw ''id'')) (\<lambda>i.
     and_then (from_sum (strictBody (rr_jp rt) rq doc_patch_spec)) (\<lambda>b.
       (let expected = int_value (value_of b ''expectedRevision'') in
        and_then (loadMutable (cu_id user) i) (\<lambda>d.
        guard (dc_revision d = expected) (conflict_error (dc_revision d))
       (and_then (from_sum (patch_title (value_of b ''title'') d)) (\<lambda>d.
        and_then (from_sum (patch_template (value_of b ''template'') d)) (\<lambda>d.
          (let v = value_of b ''language'' in
           ret (expected, if nullish v then d else d\<lparr>dc_language := js_String v\<rparr>))))))))) "

definition patch_doc_store :: "route_rt \<Rightarrow> user_row \<Rightarrow> int \<Rightarrow> doc_row \<Rightarrow> ('z app_db_scheme, response) core_prog" where
  "patch_doc_store rt user expected d =
     and_then (guarded_update (dc_id d) (cu_id user) expected (\<lambda>r. r\<lparr>dc_title := dc_title d, dc_template := dc_template d,
        dc_language := dc_language d, dc_status := dc_status d, dc_latest := dc_latest d, dc_final := dc_final d, dc_updated := rr_now rt\<rparr>)) (\<lambda>_.
       ret (data 200 (documentDto (d\<lparr>dc_revision := expected + 1, dc_updated := rr_now rt\<rparr>)) (rr_rid rt)))"

definition patchDocument :: "route_rt \<Rightarrow> user_row \<Rightarrow> request \<Rightarrow> string \<Rightarrow> ('z app_db_scheme, response) core_prog" where
  "patchDocument rt user rq idRaw =
     and_then (patch_doc_read rt user rq idRaw) (\<lambda>(expected, d). patch_doc_store rt user expected d)"

subsection \<open>Versions\<close>

definition listVersions :: "route_rt \<Rightarrow> user_row \<Rightarrow> request \<Rightarrow> string \<Rightarrow> ('z app_db_scheme, response) core_prog" where
  "listVersions rt user rq idRaw =
     and_then (from_sum (requireUuid idRaw ''id'')) (\<lambda>i.
     and_then (from_sum (pageOf (rr_dp rt) rq)) (\<lambda>pg.
     and_then (loadDocument (cu_id user) i) (\<lambda>_.
       listPage rt (\<lambda>db. filter (\<lambda>v. vr_user v = cu_id user \<and> vr_doc v = i) (versions db))
         (\<lambda>v. (vr_created v, vr_id v)) pg (\<lambda>_ v. Inr (versionDto v)) False)))"

definition getVersion :: "route_rt \<Rightarrow> user_row \<Rightarrow> string \<Rightarrow> string \<Rightarrow> ('z app_db_scheme, response) core_prog" where
  "getVersion rt user idRaw versionRaw =
     and_then (from_sum (requireUuid idRaw ''id'')) (\<lambda>i.
     and_then (from_sum (requireUuid versionRaw ''versionId'')) (\<lambda>v.
     and_then (loadDocument (cu_id user) i) (\<lambda>_.
     and_then (loadVersion (cu_id user) i v) (\<lambda>r. ret (data 200 (versionDto r) (rr_rid rt))))))"

text \<open>A version that has passed the rules: the document as it was read, the revision it must still
  have, the checked blocks, and the proposal that is used up.\<close>

record save_plan =
  sv_doc :: doc_row
  sv_expected :: int
  sv_content :: jv
  sv_blocks :: "block list"
  sv_note :: string
  sv_proposal :: "string option"

definition check_save :: "string \<Rightarrow> save_plan \<Rightarrow> ('z app_db_scheme, save_plan) core_prog" where
  "check_save u p =
     and_then (from_sum (validateDocumentContent (sv_content p) (sv_blocks p))) (\<lambda>_.
     and_then (verifyBlocks u (sv_blocks p)) (\<lambda>(bs, _). ret (p\<lparr>sv_blocks := bs\<rparr>)))"

definition next_number :: "string \<Rightarrow> 'z app_db_scheme \<Rightarrow> int" where
  "next_number i db = fold max (map vr_number (filter (\<lambda>v. vr_doc v = i) (versions db))) 0 + 1"

definition version_of :: "route_rt \<Rightarrow> string \<Rightarrow> save_plan \<Rightarrow> int \<Rightarrow> version_row" where
  "version_of rt u p n = \<lparr>vr_id = rr_uuid rt 0, vr_user = u, vr_doc = dc_id (sv_doc p), vr_app = dc_app (sv_doc p), vr_number = n,
     vr_content = sv_content p, vr_blocks = blocks_json (sv_blocks p), vr_note = sv_note p, vr_quality = computeQuality (sv_blocks p),
     vr_created = rr_now rt\<rparr>"

text \<open>The document after a save.\<close>

definition moved_on :: "route_rt \<Rightarrow> doc_row \<Rightarrow> doc_row" where
  "moved_on rt d = d\<lparr>dc_latest := Some (rr_uuid rt 0), dc_final := None,
     dc_status := (if dc_status d = ''FINALIZED'' then ''DRAFT'' else dc_status d), dc_updated := rr_now rt\<rparr>"

text \<open>The statement: the update of the document, the insert of the version and the use of the proposal.\<close>

definition SAVE_VERSION :: "route_rt \<Rightarrow> string \<Rightarrow> save_plan \<Rightarrow> ('z doc_db_scheme, int option) core_prog" where
  "SAVE_VERSION rt u p db =
     (let i = dc_id (sv_doc p); n = next_number i db in
      case UPDATE_DOC i u (sv_expected p) (moved_on rt) db of
        (False, _) \<Rightarrow> (Inr None, db)
      | (True, db1) \<Rightarrow> (Inr (Some n), db1\<lparr>versions := versions db1 @ [version_of rt u p n],
          proposals := map (\<lambda>r. if Some (pr_id r) = sv_proposal p \<and> pr_user r = u then r\<lparr>pr_applied := Some (rr_now rt)\<rparr> else r) (proposals db1)\<rparr>))"

definition saved_json :: "route_rt \<Rightarrow> string \<Rightarrow> save_plan \<Rightarrow> int \<Rightarrow> jv" where
  "saved_json rt u p n = JObj [(''document'', documentDto (moved_on rt ((sv_doc p)\<lparr>dc_revision := sv_expected p + 1\<rparr>))),
     (''version'', versionDto (version_of rt u p n))]"

definition save_store :: "route_rt \<Rightarrow> job_ctx \<Rightarrow> user_row \<Rightarrow> int \<Rightarrow> save_plan \<Rightarrow> ('z doc_db_scheme, response) core_prog" where
  "save_store rt jc user status p =
     and_then (SAVE_VERSION rt (cu_id user) p) (\<lambda>saved.
     and_then (case saved of Some n \<Rightarrow> ret n
       | None \<Rightarrow> failedUpdate (\<lambda>db. map_option dc_revision (doc_at (dc_id (sv_doc p)) (cu_id user) db))) (\<lambda>n.
     and_then (on_jobs (enqueueIngest (rr_uuid rt 1) (rr_uuid rt 2) jc (JObj [(''documentId'', JStr (dc_id (sv_doc p)))]))) (\<lambda>_.
       ret (data status (saved_json rt (cu_id user) p n) (rr_rid rt)))))"

definition version_spec :: "(string \<times> field_spec) list" where
  "version_spec = [spec_field ''expectedRevision'' KInt True False, spec_field ''content'' KObject True False,
     spec_field ''blocks'' KAny False False, spec_field ''changeNote'' KStr False False]"

definition version_read :: "route_rt \<Rightarrow> user_row \<Rightarrow> request \<Rightarrow> string \<Rightarrow> ('z app_db_scheme, save_plan) core_prog" where
  "version_read rt user rq idRaw =
     and_then (from_sum (requireUuid idRaw ''id'')) (\<lambda>i.
     and_then (from_sum (strictBody (rr_jp rt) rq version_spec)) (\<lambda>b.
     and_then (from_sum (blockInputs (value_of b ''blocks''))) (\<lambda>bs.
       (let expected = int_value (value_of b ''expectedRevision'') in
        and_then (loadMutable (cu_id user) i) (\<lambda>d.
        guard (dc_revision d = expected) (conflict_error (dc_revision d))
          (check_save (cu_id user) \<lparr>sv_doc = d, sv_expected = expected, sv_content = value_of b ''content'', sv_blocks = bs,
             sv_note = or_blank (value_of b ''changeNote''), sv_proposal = None\<rparr>))))))"

definition createVersion :: "route_rt \<Rightarrow> job_ctx \<Rightarrow> user_row \<Rightarrow> request \<Rightarrow> string \<Rightarrow> ('z doc_db_scheme, response) core_prog" where
  "createVersion rt jc user rq idRaw = and_then (version_read rt user rq idRaw) (save_store rt jc user 201)"

subsection \<open>Proposals and edits\<close>

definition proposal_at :: "string \<Rightarrow> string \<Rightarrow> string \<Rightarrow> 'z doc_db_scheme \<Rightarrow> proposal_row option" where
  "proposal_at p i u db = find (\<lambda>r. pr_id r = p \<and> pr_user r = u \<and> pr_doc r = i) (proposals db)"

definition selected_text :: "jv \<Rightarrow> string" where
  "selected_text selection = or_blank (jget (coalesce selection (JObj [])) ''text'')"

definition apply_read :: "route_rt \<Rightarrow> user_row \<Rightarrow> request \<Rightarrow> string \<Rightarrow> string \<Rightarrow> ('z doc_db_scheme, save_plan) core_prog" where
  "apply_read rt user rq idRaw proposalRaw =
     and_then (from_sum (requireUuid idRaw ''id'')) (\<lambda>i.
     and_then (from_sum (requireUuid proposalRaw ''revisionId'')) (\<lambda>proposalId.
     and_then (from_sum (strictBody (rr_jp rt) rq [spec_field ''expectedRevision'' KInt True False])) (\<lambda>b.
       (let expected = int_value (value_of b ''expectedRevision'') in
        and_then (loadMutable (cu_id user) i) (\<lambda>d.
        guard (dc_revision d = expected) (conflict_error (dc_revision d))
       (and_then (reading (proposal_at proposalId i (cu_id user))) (\<lambda>found.
        and_then (from_option not_found_error found) (\<lambda>pr.
        guard (pr_applied pr = None) (transition ''proposal already applied'')
       (guard (dc_latest d = Some (pr_source pr) \<and> pr_source_revision pr = dc_revision d)
          (approvalStale ''document changed since the proposal was created'')
       (and_then (loadVersion (cu_id user) i (pr_source pr)) (\<lambda>src.
        and_then (from_sum (replaced (vr_content src) (blocksOf (vr_blocks src)) [(selected_text (pr_selection pr), pr_replacement pr)])) (\<lambda>edit.
        guard (ed_applied edit) (approvalStale ''selection text no longer present in the version'')
          (check_save (cu_id user) \<lparr>sv_doc = d, sv_expected = expected, sv_content = ed_content edit, sv_blocks = ed_blocks edit,
             sv_note = ''applied proposal '' @ proposalId, sv_proposal = Some proposalId\<rparr>)))))))))))))"

definition applyRevision :: "route_rt \<Rightarrow> job_ctx \<Rightarrow> user_row \<Rightarrow> request \<Rightarrow> string \<Rightarrow> string \<Rightarrow> ('z doc_db_scheme, response) core_prog" where
  "applyRevision rt jc user rq idRaw proposalRaw = and_then (apply_read rt user rq idRaw proposalRaw) (save_store rt jc user 200)"

definition edit_body :: "route_rt \<Rightarrow> request \<Rightarrow> core_exn + jv" where
  "edit_body rt rq = (case rr_jp rt (rq_body rq) of None \<Rightarrow> Inl body_error | Some v \<Rightarrow> if is_object v then Inr v else Inl body_error)"

definition edits_read :: "route_rt \<Rightarrow> user_row \<Rightarrow> request \<Rightarrow> string \<Rightarrow> ('z app_db_scheme, save_plan) core_prog" where
  "edits_read rt user rq idRaw =
     and_then (from_sum (requireUuid idRaw ''id'')) (\<lambda>i.
     and_then (from_sum (edit_body rt rq)) (\<lambda>body.
     and_then (from_sum (hunkEdits (case jget body ''hunks'' of JArr hs \<Rightarrow> hs | _ \<Rightarrow> []))) (\<lambda>edits.
     and_then (loadMutable (cu_id user) i) (\<lambda>d.
       (let expectedVersion = falsy_text (jget body ''revisionId'') in
        and_then (from_option (conflict_error (dc_revision d)) (dc_latest d)) (\<lambda>latest.
        guard (expectedVersion = [] \<or> expectedVersion = latest) (conflict_error (dc_revision d))
       (and_then (loadVersion (cu_id user) i latest) (\<lambda>src.
        and_then (from_sum (replaced (vr_content src) (blocksOf (vr_blocks src)) edits)) (\<lambda>edit.
        guard (ed_applied edit) (conflict_error (dc_revision d))
          (check_save (cu_id user) \<lparr>sv_doc = d, sv_expected = dc_revision d, sv_content = ed_content edit, sv_blocks = ed_blocks edit,
             sv_note = ''applied chat edit'', sv_proposal = None\<rparr>)))))))))) "

definition applyEdits :: "route_rt \<Rightarrow> job_ctx \<Rightarrow> user_row \<Rightarrow> request \<Rightarrow> string \<Rightarrow> ('z doc_db_scheme, response) core_prog" where
  "applyEdits rt jc user rq idRaw = and_then (edits_read rt user rq idRaw) (save_store rt jc user 200)"

definition reviewDocument :: "route_rt \<Rightarrow> user_row \<Rightarrow> request \<Rightarrow> string \<Rightarrow> ('z app_db_scheme, response) core_prog" where
  "reviewDocument rt user rq idRaw =
     and_then (from_sum (requireUuid idRaw ''id'')) (\<lambda>i.
     and_then (from_sum (strictBody (rr_jp rt) rq [spec_field ''versionId'' KUuid True False])) (\<lambda>b.
     and_then (loadDocument (cu_id user) i) (\<lambda>_.
     and_then (loadVersion (cu_id user) i (js_String (value_of b ''versionId''))) (\<lambda>v.
     and_then (verifyBlocks (cu_id user) (blocksOf (vr_blocks v))) (\<lambda>(bs, _).
       ret (data 200 (JObj [(''quality'', computeQuality bs), (''blocks'', blocks_json bs)]) (rr_rid rt)))))))"

end
