(* ===== verification/Doc_Final.thy ===== *)
theory Doc_Final
  imports Documents
begin

text \<open>
  The rest of \<open>services/core-api/src/routes/documents.ts\<close>: finalizing under an approval, archiving,
  exports, shares, and the conversion of profile documents and sources. Not modelled is the copy of a
  document onto the profile (\<open>copyOntoBaseProfile\<close>), an argument of the handlers that call it.
\<close>

subsection \<open>Finalizing\<close>

text \<open>The approval \<open>EVIDENCE_USE\<close> of one piece of evidence: the newest that is pending or granted and has
  not expired. Where two have the same time the order of the database is not specified; here it is
  the greater id.\<close>

definition usable :: "route_rt \<Rightarrow> string option \<Rightarrow> bool" where
  "usable rt e = (case e of None \<Rightarrow> True | Some t \<Rightarrow> (case rr_pg rt t of None \<Rightarrow> False | Some m \<Rightarrow> 1000 * rr_now rt < m))"

definition latest_use :: "route_rt \<Rightarrow> string \<Rightarrow> string option \<Rightarrow> string \<Rightarrow> 'z app_db_scheme \<Rightarrow> string option" where
  "latest_use rt u app e db =
     (case Route_Base.newest 1 (\<lambda>r. (av_created r, av_id r)) (filter (\<lambda>r. av_user r = u \<and> av_kind r = ''EVIDENCE_USE'' \<and> av_app r = app
         \<and> av_target r = e \<and> av_status r \<in> {''APPROVED'', ''PENDING''} \<and> usable rt (av_expires r)) (approvals db)) of
        [] \<Rightarrow> None | r # _ \<Rightarrow> Some (av_status r))"

definition unapproved :: "route_rt \<Rightarrow> string \<Rightarrow> string option \<Rightarrow> string list \<Rightarrow> 'z app_db_scheme \<Rightarrow> string option" where
  "unapproved rt u app es db = find (\<lambda>e. latest_use rt u app e db \<noteq> Some ''APPROVED'') es"

definition finalize_hash :: "route_rt \<Rightarrow> string \<Rightarrow> jv \<Rightarrow> block list \<Rightarrow> string" where
  "finalize_hash rt v content bs =
     hashJson rt (JObj [(''kind'', JStr ''DOCUMENT_FINALIZE''), (''versionId'', JStr v), (''content'', content), (''blocks'', blocks_json bs)])"

record final_plan =
  fp_doc :: doc_row
  fp_expected :: int
  fp_version :: string
  fp_approval :: string
  fp_revision :: int

definition finalize_spec :: "(string \<times> field_spec) list" where
  "finalize_spec = [spec_field ''expectedRevision'' KInt True False, spec_field ''versionId'' KUuid True False, spec_field ''approvalId'' KUuid True False]"

definition unsupported :: "block list \<Rightarrow> core_exn + unit" where
  "unsupported bs = (case find (\<lambda>b. bk_status b \<noteq> ''SUPPORTED'') bs of None \<Rightarrow> Inr ()
     | Some b \<Rightarrow> Inl (HttpError 409 ''UNSUPPORTED_CLAIM'' (''block '' @ bk_id b @ '' is '' @ bk_status b) JNull))"

text \<open>The checks of the approval against the version.\<close>

definition check_approval :: "route_rt \<Rightarrow> string option \<Rightarrow> version_row \<Rightarrow> block list \<Rightarrow> approval_row \<Rightarrow> core_exn + unit" where
  "check_approval rt app v bs r =
     (if av_kind r \<noteq> ''DOCUMENT_FINALIZE'' \<or> av_app r \<noteq> app \<or> av_target r \<noteq> vr_id v
        then Inl (approvalRequired ''approval does not cover this target'')
      else bind_sum (expired rt (av_expires r)) (\<lambda>late.
        if late then Inl (approvalRequired ''approval expired'')
        else if av_status r \<noteq> ''APPROVED'' then Inl (approvalRequired ''approval is not approved'')
        else if av_hash r \<noteq> finalize_hash rt (vr_id v) (vr_content v) bs then Inl (approvalStale ''approved content has changed'')
        else Inr ()))"

definition final_read :: "route_rt \<Rightarrow> user_row \<Rightarrow> request \<Rightarrow> string \<Rightarrow> ('z app_db_scheme, final_plan) core_prog" where
  "final_read rt user rq idRaw =
     and_then (from_sum (requireUuid idRaw ''id'')) (\<lambda>i.
     and_then (from_sum (strictBody (rr_jp rt) rq finalize_spec)) (\<lambda>b.
       (let expected = int_value (value_of b ''expectedRevision''); versionId = js_String (value_of b ''versionId'');
            approvalId = js_String (value_of b ''approvalId'') in
        and_then (loadMutable (cu_id user) i) (\<lambda>d.
        guard (dc_revision d = expected) (conflict_error (dc_revision d))
       (and_then (loadVersion (cu_id user) i versionId) (\<lambda>v.
        and_then (verifyBlocks (cu_id user) (blocksOf (vr_blocks v))) (\<lambda>(bs, es).
        and_then (from_sum (unsupported bs)) (\<lambda>_.
        and_then (reading (unapproved rt (cu_id user) (dc_app d) es)) (\<lambda>missing.
        guard (missing = None) (approvalRequired (''EVIDENCE_USE approval required for evidence '' @ (case missing of None \<Rightarrow> [] | Some e \<Rightarrow> e)))
       (and_then (reading (approval_at approvalId (cu_id user))) (\<lambda>found.
        and_then (from_option (approvalRequired ''approval not found'') found) (\<lambda>r.
        and_then (from_sum (check_approval rt (dc_app d) v bs r)) (\<lambda>_.
          ret \<lparr>fp_doc = d, fp_expected = expected, fp_version = versionId, fp_approval = approvalId, fp_revision = av_revision r\<rparr>)))))))))))))"

definition consume :: "string \<Rightarrow> string \<Rightarrow> int \<Rightarrow> int \<Rightarrow> approval_row list \<Rightarrow> approval_row list" where
  "consume v u n now rows = map (\<lambda>r. if approval_matches v u n r
     then r\<lparr>av_revision := av_revision r + 1, av_status := ''CONSUMED'', av_consumed := Some now, av_updated := now\<rparr> else r) rows"

definition finalized_event :: "route_rt \<Rightarrow> string \<Rightarrow> final_plan \<Rightarrow> event_row list" where
  "finalized_event rt u p = (case dc_app (fp_doc p) of None \<Rightarrow> []
     | Some a \<Rightarrow> [\<lparr>ev_id = rr_uuid rt 0, ev_user = u, ev_app = a, ev_type = ''DOCUMENT_FINALIZED'',
         ev_payload = JObj [(''documentId'', JStr (dc_id (fp_doc p))), (''versionId'', JStr (fp_version p))], ev_created = rr_now rt\<rparr>])"

definition FINALIZE :: "route_rt \<Rightarrow> string \<Rightarrow> final_plan \<Rightarrow> ('z app_db_scheme, bool) core_prog" where
  "FINALIZE rt u p db =
     (if \<not> list_ex (approval_matches (fp_approval p) u (fp_revision p)) (approvals db) then (Inr False, db)
      else case UPDATE_DOC (dc_id (fp_doc p)) u (fp_expected p)
             (\<lambda>d. d\<lparr>dc_status := ''FINALIZED'', dc_final := Some (fp_version p), dc_updated := rr_now rt\<rparr>) db of
        (False, _) \<Rightarrow> (Inr False, db)
      | (True, db1) \<Rightarrow> (Inr True, db1\<lparr>approvals := consume (fp_approval p) u (fp_revision p) (rr_now rt) (approvals db1),
          app_events := app_events db1 @ finalized_event rt u p\<rparr>))"

definition final_store :: "route_rt \<Rightarrow> user_row \<Rightarrow> final_plan \<Rightarrow> ('z app_db_scheme, response) core_prog" where
  "final_store rt user p =
     and_then (FINALIZE rt (cu_id user) p) (\<lambda>completed.
     and_then (if completed then ret ()
       else and_then (loadDocument (cu_id user) (dc_id (fp_doc p))) (\<lambda>latest.
         guard (dc_revision latest = fp_expected p) (conflict_error (dc_revision latest))
           (failedUpdate (\<lambda>db. map_option av_revision (approval_at (fp_approval p) (cu_id user) db))))) (\<lambda>_.
       ret (data 200 (documentDto ((fp_doc p)\<lparr>dc_revision := fp_expected p + 1, dc_status := ''FINALIZED'',
         dc_final := Some (fp_version p), dc_updated := rr_now rt\<rparr>)) (rr_rid rt))))"

definition finalizeDocument :: "route_rt \<Rightarrow> user_row \<Rightarrow> request \<Rightarrow> string \<Rightarrow> ('z app_db_scheme, response) core_prog" where
  "finalizeDocument rt user rq idRaw = and_then (final_read rt user rq idRaw) (final_store rt user)"

subsection \<open>Archiving\<close>

definition archive_read :: "route_rt \<Rightarrow> user_row \<Rightarrow> request \<Rightarrow> string \<Rightarrow> ('z app_db_scheme, int \<times> doc_row) core_prog" where
  "archive_read rt user rq idRaw =
     and_then (from_sum (requireUuid idRaw ''id'')) (\<lambda>i.
     and_then (from_sum (strictBody (rr_jp rt) rq [spec_field ''expectedRevision'' KInt True False])) (\<lambda>b.
       (let expected = int_value (value_of b ''expectedRevision'') in
        and_then (loadDocument (cu_id user) i) (\<lambda>d.
        guard (dc_revision d = expected) (conflict_error (dc_revision d)) (ret (expected, d))))))"

definition archive_store :: "route_rt \<Rightarrow> user_row \<Rightarrow> int \<Rightarrow> doc_row \<Rightarrow> ('z app_db_scheme, response) core_prog" where
  "archive_store rt user expected d =
     (if dc_status d = ''ARCHIVED'' then ret (data 200 (documentDto d) (rr_rid rt))
      else and_then (guarded_update (dc_id d) (cu_id user) expected (\<lambda>r. r\<lparr>dc_status := ''ARCHIVED'', dc_updated := rr_now rt\<rparr>)) (\<lambda>_.
        ret (data 200 (documentDto (d\<lparr>dc_revision := expected + 1, dc_status := ''ARCHIVED'', dc_updated := rr_now rt\<rparr>)) (rr_rid rt))))"

definition archiveDocument :: "route_rt \<Rightarrow> user_row \<Rightarrow> request \<Rightarrow> string \<Rightarrow> ('z app_db_scheme, response) core_prog" where
  "archiveDocument rt user rq idRaw = and_then (archive_read rt user rq idRaw) (\<lambda>(expected, d). archive_store rt user expected d)"

subsection \<open>Exports\<close>

definition export_spec :: "(string \<times> field_spec) list" where
  "export_spec = [spec_field ''versionId'' KUuid True False, spec_field ''format'' KStr True False, spec_field ''rendererVersion'' KStr True False]"

definition exportable :: "doc_row \<Rightarrow> version_row \<Rightarrow> bool" where
  "exportable d v \<longleftrightarrow> dc_kind d = ''HUB_PROFILE'' \<and> dc_latest d = Some (vr_id v) \<or> dc_final d = Some (vr_id v)"

definition new_export :: "route_rt \<Rightarrow> string \<Rightarrow> string \<Rightarrow> string \<Rightarrow> doc_row \<Rightarrow> version_row \<Rightarrow> export_row" where
  "new_export rt u format renderer d v =
     \<lparr>ex_id = rr_uuid rt 0, ex_user = u, ex_doc = dc_id d, ex_version = vr_id v, ex_format = format, ex_template = dc_template d,
      ex_language = dc_language d, ex_content = vr_content v, ex_blocks = blocks_json (blocksOf (vr_blocks v)), ex_hash = hashJson rt (vr_content v),
      ex_status = ''READY_TO_RENDER'', ex_renderer = renderer, ex_result = JNull, ex_created = rr_now rt, ex_updated = rr_now rt\<rparr>"

definition export_read :: "route_rt \<Rightarrow> user_row \<Rightarrow> request \<Rightarrow> string \<Rightarrow> ('z doc_db_scheme, export_row) core_prog" where
  "export_read rt user rq idRaw =
     and_then (from_sum (requireUuid idRaw ''id'')) (\<lambda>i.
     and_then (from_sum (strictBody (rr_jp rt) rq export_spec)) (\<lambda>b.
       (let format = js_String (value_of b ''format''); renderer = js_String (value_of b ''rendererVersion'') in
        guard (format = ''PDF'' \<or> format = ''DOCX'') (field_error ''format'' ''must be PDF or DOCX'')
       (guard (renderer \<noteq> []) (field_error ''rendererVersion'' ''required'')
       (and_then (loadDocument (cu_id user) i) (\<lambda>d.
        and_then (loadVersion (cu_id user) i (js_String (value_of b ''versionId''))) (\<lambda>v.
        guard (exportable d v) (HttpError 422 ''DOCUMENT_NOT_FINALIZED'' ''only the finalized version can be exported'' JNull)
          (ret (new_export rt (cu_id user) format renderer d v)))))))))"

definition export_store :: "route_rt \<Rightarrow> export_row \<Rightarrow> ('z doc_db_scheme, response) core_prog" where
  "export_store rt e = and_then (writing (\<lambda>db. db\<lparr>exports := exports db @ [e]\<rparr>)) (\<lambda>_. ret (data 201 (exportDto e) (rr_rid rt)))"

definition createExport :: "route_rt \<Rightarrow> user_row \<Rightarrow> request \<Rightarrow> string \<Rightarrow> ('z doc_db_scheme, response) core_prog" where
  "createExport rt user rq idRaw = and_then (export_read rt user rq idRaw) (export_store rt)"

definition listExports :: "route_rt \<Rightarrow> user_row \<Rightarrow> request \<Rightarrow> string \<Rightarrow> ('z doc_db_scheme, response) core_prog" where
  "listExports rt user rq idRaw =
     and_then (from_sum (requireUuid idRaw ''id'')) (\<lambda>i.
     and_then (from_sum (pageOf (rr_dp rt) rq)) (\<lambda>pg.
     and_then (loadDocument (cu_id user) i) (\<lambda>_.
       listPage rt (\<lambda>db. filter (\<lambda>e. ex_user e = cu_id user \<and> ex_doc e = i) (exports db))
         (\<lambda>e. (ex_created e, ex_id e)) pg (\<lambda>_ e. Inr (exportDto e)) False)))"

definition result_spec :: "(string \<times> field_spec) list" where
  "result_spec = [spec_field ''sha256'' KStr True False, spec_field ''byteLength'' KInt True False, spec_field ''pageCount'' KInt False True,
     spec_field ''validation'' KAny False False, spec_field ''status'' KStr True False, spec_field ''errorCode'' KStr False True]"

definition validation_of :: "jv \<Rightarrow> core_exn + jv" where
  "validation_of v = bind_sum (if v = JUndef then Inr \<lparr>bv_values = [], bv_present = []\<rparr>
       else strictObject v [spec_field ''koreanText'' KBool False False, spec_field ''links'' KBool False False, spec_field ''atsText'' KBool False False])
     (\<lambda>b. Inr (JObj (map (\<lambda>k. (k, JBool (value_of b k = JBool True))) [''koreanText'', ''links'', ''atsText''])))"

definition export_at :: "string \<Rightarrow> string \<Rightarrow> string \<Rightarrow> 'z doc_db_scheme \<Rightarrow> export_row option" where
  "export_at x i u db = find (\<lambda>e. ex_id e = x \<and> ex_user e = u \<and> ex_doc e = i) (exports db)"

definition already_recorded :: core_exn where
  "already_recorded = transition ''export result already recorded''"

definition result_read :: "route_rt \<Rightarrow> user_row \<Rightarrow> request \<Rightarrow> string \<Rightarrow> string \<Rightarrow> ('z doc_db_scheme, export_row) core_prog" where
  "result_read rt user rq idRaw exportRaw =
     and_then (from_sum (requireUuid idRaw ''id'')) (\<lambda>i.
     and_then (from_sum (requireUuid exportRaw ''exportId'')) (\<lambda>x.
     and_then (from_sum (strictBody (rr_jp rt) rq result_spec)) (\<lambda>b.
     and_then (from_sum (validation_of (value_of b ''validation''))) (\<lambda>checked.
       (let status = js_String (value_of b ''status'') in
        guard (status = ''SUCCEEDED'' \<or> status = ''FAILED'') (field_error ''status'' ''must be SUCCEEDED or FAILED'')
       (guard (js_String (value_of b ''sha256'') \<noteq> [] \<and> 0 \<le> int_value (value_of b ''byteLength''))
          (field_error ''sha256'' ''sha256 and non-negative byteLength are required'')
       (and_then (reading (export_at x i (cu_id user))) (\<lambda>found.
        and_then (from_option not_found_error found) (\<lambda>row.
        guard (ex_status row = ''READY_TO_RENDER'') already_recorded
          (ret (row\<lparr>ex_status := status, ex_updated := rr_now rt,
             ex_result := exportResultOf (JObj [(''sha256'', value_of b ''sha256''), (''byteLength'', value_of b ''byteLength''),
               (''pageCount'', coalesce (value_of b ''pageCount'') JNull), (''validation'', checked),
               (''errorCode'', coalesce (value_of b ''errorCode'') JNull)])\<rparr>)))))))))))"

text \<open>The statement, for the row as it shall be.\<close>

definition open_export :: "export_row \<Rightarrow> export_row \<Rightarrow> bool" where
  "open_export row e \<longleftrightarrow> ex_id e = ex_id row \<and> ex_user e = ex_user row \<and> ex_status e = ''READY_TO_RENDER''"

definition RECORD_RESULT :: "export_row \<Rightarrow> ('z doc_db_scheme, bool) core_prog" where
  "RECORD_RESULT row db =
     (Inr (list_ex (open_export row) (exports db)),
      db\<lparr>exports := map (\<lambda>e. if open_export row e
        then e\<lparr>ex_status := ex_status row, ex_result := ex_result row, ex_updated := ex_updated row\<rparr> else e) (exports db)\<rparr>)"

definition result_store :: "route_rt \<Rightarrow> export_row \<Rightarrow> ('z doc_db_scheme, response) core_prog" where
  "result_store rt row = and_then (RECORD_RESULT row) (\<lambda>recorded. guard recorded already_recorded (ret (data 200 (exportDto row) (rr_rid rt))))"

definition recordExportResult :: "route_rt \<Rightarrow> user_row \<Rightarrow> request \<Rightarrow> string \<Rightarrow> string \<Rightarrow> ('z doc_db_scheme, response) core_prog" where
  "recordExportResult rt user rq idRaw exportRaw = and_then (result_read rt user rq idRaw exportRaw) (result_store rt)"

end
