(* ===== verification/Doc_Share.thy ===== *)
theory Doc_Share
  imports Doc_Final
begin

text \<open>
  Shares of a document, and the conversion of profile documents and sources, of
  \<open>services/core-api/src/routes/documents.ts\<close>. The token of a share is the argument \<open>token\<close>, the reading of a
  stored file as text the argument \<open>sourceText\<close> (\<open>Buffer\<close> of the platform). Characters of the source beyond
  Latin-1 are written as their UTF-8 bytes.
\<close>

subsection \<open>Shares\<close>

definition sharingUnavailable :: core_exn where
  "sharingUnavailable = HttpError 404 ''SHARING_UNAVAILABLE'' ''sharing unavailable'' JNull"

definition missing_shares :: core_exn where
  "missing_shares = DbError ''42P01'' ''relation document_shares does not exist''"

definition shares_missing :: "('s, 'a) core_prog \<Rightarrow> ('s, 'a) core_prog" where
  "shares_missing m = catching m (\<lambda>x. if isMissingRelation x then throw sharingUnavailable else throw x)"

definition live :: "share_row \<Rightarrow> bool" where
  "live s \<longleftrightarrow> sh_revoked s = None"

definition revoke_live :: "string \<Rightarrow> int \<Rightarrow> share_row list \<Rightarrow> share_row list" where
  "revoke_live d now = map (\<lambda>s. if sh_doc s = d \<and> live s then s\<lparr>sh_revoked := Some now\<rparr> else s)"

definition duplicate_share :: core_exn where
  "duplicate_share = DbError ''23505'' ''duplicate key value violates unique constraint''"

text \<open>The insert against the unique index on the shares of a document that are not revoked.\<close>

definition insert_share :: "share_row \<Rightarrow> share_row list \<Rightarrow> core_exn + share_row list" where
  "insert_share s rows =
     (if list_ex (\<lambda>x. sh_doc x = sh_doc s \<and> live x) rows \<or> list_ex (\<lambda>x. sh_token x = sh_token s) rows then Inl duplicate_share
      else Inr (rows @ [s]))"

text \<open>The statement revokes in a \<open>WITH\<close> part that the insert does not refer to. The database does not specify
  which of the two runs first: \<open>revoke_first\<close>.\<close>

definition SHARE :: "bool \<Rightarrow> share_row \<Rightarrow> ('z doc_db_scheme, unit) core_prog" where
  "SHARE revoke_first s db =
     (case shares db of None \<Rightarrow> (Inl missing_shares, db)
      | Some rows \<Rightarrow>
          (case insert_share s (if revoke_first then revoke_live (sh_doc s) (sh_created s) rows else rows) of
             Inl x \<Rightarrow> (Inl x, db)
           | Inr rows' \<Rightarrow> (Inr (), db\<lparr>shares := Some (if revoke_first then rows' else revoke_live (sh_doc s) (sh_created s) rows @ [s])\<rparr>)))"

definition share_body :: "route_rt \<Rightarrow> request \<Rightarrow> core_exn + string" where
  "share_body rt rq =
     (if js_trim (rq_body rq) = [] then Inr []
      else case rr_jp rt (rq_body rq) of None \<Rightarrow> Inl body_error
        | Some v \<Rightarrow> bind_sum (strictObject v [spec_field ''versionId'' KUuid False False])
            (\<lambda>b. Inr (if ''versionId'' \<in> set (bv_present b) then js_String (value_of b ''versionId'') else [])))"

definition share_path :: "string \<Rightarrow> string" where
  "share_path token = ''/api/v1/documents/shared/'' @ token"

definition shareDocument :: "bool \<Rightarrow> route_rt \<Rightarrow> string \<Rightarrow> user_row \<Rightarrow> request \<Rightarrow> string \<Rightarrow> ('z doc_db_scheme, response) core_prog" where
  "shareDocument revoke_first rt token user rq idRaw =
     and_then (from_sum (requireUuid idRaw ''id'')) (\<lambda>i.
     and_then (from_sum (share_body rt rq)) (\<lambda>versionId.
     and_then (loadDocument (cu_id user) i) (\<lambda>d.
       (let pinned = (if versionId \<noteq> [] then versionId else case dc_latest d of None \<Rightarrow> [] | Some v \<Rightarrow> v) in
        guard (pinned \<noteq> []) not_found_error
       (and_then (loadVersion (cu_id user) i pinned) (\<lambda>_.
        and_then (shares_missing (SHARE revoke_first \<lparr>sh_id = rr_uuid rt 0, sh_doc = i, sh_version = pinned, sh_token = rr_sha rt token,
            sh_by = cu_id user, sh_created = rr_now rt, sh_revoked = None\<rparr>)) (\<lambda>_.
          ret (data 200 (JObj [(''token'', JStr token), (''path'', JStr (share_path token)), (''versionId'', JStr pinned),
            (''createdAt'', JStr (stamp (rr_now rt)))]) (rr_rid rt)))))))))"

definition own_live :: "string \<Rightarrow> string \<Rightarrow> share_row \<Rightarrow> bool" where
  "own_live d u s \<longleftrightarrow> sh_doc s = d \<and> sh_by s = u \<and> live s"

definition REVOKE_SHARE :: "string \<Rightarrow> string \<Rightarrow> int \<Rightarrow> ('z doc_db_scheme, bool) core_prog" where
  "REVOKE_SHARE d u now db =
     (case shares db of None \<Rightarrow> (Inl missing_shares, db)
      | Some rows \<Rightarrow> (Inr (list_ex (own_live d u) rows),
          db\<lparr>shares := Some (map (\<lambda>s. if own_live d u s then s\<lparr>sh_revoked := Some now\<rparr> else s) rows)\<rparr>))"

definition revokeShare :: "route_rt \<Rightarrow> user_row \<Rightarrow> string \<Rightarrow> ('z doc_db_scheme, response) core_prog" where
  "revokeShare rt user idRaw =
     and_then (from_sum (requireUuid idRaw ''id'')) (\<lambda>i.
     and_then (loadDocument (cu_id user) i) (\<lambda>_.
     and_then (shares_missing (REVOKE_SHARE i (cu_id user) (rr_now rt))) (\<lambda>found.
       ret (data 200 (JObj [(''revoked'', JBool found)]) (rr_rid rt)))))"

text \<open>The share of a token with its version and its document.\<close>

definition shared_row :: "string \<Rightarrow> ('z doc_db_scheme, (doc_row \<times> version_row) option) core_prog" where
  "shared_row h db =
     (case shares db of None \<Rightarrow> (Inl missing_shares, db)
      | Some rows \<Rightarrow> (Inr (case find (\<lambda>s. sh_token s = h \<and> live s) rows of None \<Rightarrow> None
          | Some s \<Rightarrow> (case (find (\<lambda>d. dc_id d = sh_doc s) (docs db), find (\<lambda>v. vr_id v = sh_version s) (versions db)) of
              (Some d, Some v) \<Rightarrow> Some (d, v) | _ \<Rightarrow> None)), db))"

definition jsonValue :: "route_rt \<Rightarrow> jv \<Rightarrow> jv" where
  "jsonValue rt v = (case v of JStr s \<Rightarrow> if s = [] then v else (case rr_jp rt s of None \<Rightarrow> v | Some w \<Rightarrow> w) | _ \<Rightarrow> coalesce v JNull)"

definition readShare :: "route_rt \<Rightarrow> string \<Rightarrow> ('z doc_db_scheme, response) core_prog" where
  "readShare rt token =
     and_then (shares_missing (shared_row (rr_sha rt token))) (\<lambda>found.
     and_then (from_option not_found_error found) (\<lambda>(d, v).
       ret (data 200 (JObj [(''title'', JStr (dc_title d)), (''kind'', JStr (dc_kind d)), (''content'', jsonValue rt (vr_content v)),
         (''blocks'', blocks_json (blocksOf (jsonValue rt (vr_blocks v))))]) (rr_rid rt))))"

subsection \<open>Markdown as a document\<close>

definition trim_end :: "string \<Rightarrow> string" where
  "trim_end s = rev (dropWhile js_space (rev s))"

definition skip_space :: "string \<Rightarrow> string" where
  "skip_space s = dropWhile js_space s"

text \<open>\<open>/^(#{1,4})\s+(.*)/\<close>: the level and the text, up to a carriage return (a dot does not match one).\<close>

definition dot_text :: "string \<Rightarrow> string" where
  "dot_text s = takeWhile (\<lambda>c. c \<noteq> CHR 0x0D) (skip_space s)"

definition heading_of :: "string \<Rightarrow> (nat \<times> string) option" where
  "heading_of s =
     (let n = length (takeWhile (\<lambda>c. c = CHR ''#'') s); r = drop n s in
      if 1 \<le> n \<and> n \<le> 4 \<and> r \<noteq> [] \<and> js_space (hd r) then Some (n, dot_text r) else None)"

text \<open>\<open>/^\s*[-*]\s+(.*)/\<close>.\<close>

definition item_of :: "string \<Rightarrow> string option" where
  "item_of s =
     (case skip_space s of
        c # r \<Rightarrow> if c \<in> {CHR ''-'', CHR ''*''} \<and> r \<noteq> [] \<and> js_space (hd r) then Some (dot_text r) else None
      | [] \<Rightarrow> None)"

definition BULLET :: string where "BULLET = [CHR 0xE2, CHR 0x80, CHR 0xA2, CHR '' '']"

text \<open>A line: the kind of its node, the further attributes, and the text.\<close>

definition md_line :: "string \<Rightarrow> string \<times> (string \<times> jv) list \<times> string" where
  "md_line line =
     (case heading_of line of
        Some (n, t) \<Rightarrow> (''heading'', [(''level'', JNum (int n))], t)
      | None \<Rightarrow> (case item_of line of Some t \<Rightarrow> (''paragraph'', [], BULLET @ t) | None \<Rightarrow> (''paragraph'', [], line)))"

definition md_lines :: "string \<Rightarrow> (string \<times> (string \<times> jv) list \<times> string) list" where
  "md_lines md = (let ls = map md_line (filter (\<lambda>l. l \<noteq> []) (map trim_end (split_on CHR 0x0A md))) in
     if ls = [] then [(''paragraph'', [], [])] else ls)"

definition block_id :: "nat \<Rightarrow> string" where
  "block_id n = ''block-'' @ nat_dec n"

definition md_node :: "string \<Rightarrow> string \<times> (string \<times> jv) list \<times> string \<Rightarrow> jv" where
  "md_node bid = (\<lambda>(kind, more_attrs, t). JObj [(''type'', JStr kind), (''attrs'', JObj ((''blockId'', JStr bid) # more_attrs)),
     (''content'', JArr [JObj [(''type'', JStr ''text''), (''text'', JStr t)]])])"

definition md_block :: "string \<Rightarrow> string \<Rightarrow> block" where
  "md_block bid t = \<lparr>bk_id = bid, bk_text = t, bk_refs = [], bk_status = ''UNSUPPORTED''\<rparr>"

definition mdToDoc :: "string \<Rightarrow> jv \<times> block list" where
  "mdToDoc md =
     (let ls = zip (map block_id [1..<Suc (length (md_lines md))]) (md_lines md) in
      (JObj [(''type'', JStr ''doc''), (''content'', JArr (map (\<lambda>(bid, l). md_node bid l) ls))],
       map (\<lambda>(bid, _, _, t). md_block bid t) ls))"

subsection \<open>Conversion\<close>

definition profile_doc :: "route_rt \<Rightarrow> user_row \<Rightarrow> string \<Rightarrow> string option \<Rightarrow> doc_row" where
  "profile_doc rt user title version = (new_doc rt user None title ''HUB_PROFILE'' ''SIMPLE'' ''ko'')\<lparr>dc_latest := version\<rparr>"

definition source_version :: "route_rt \<Rightarrow> string \<Rightarrow> string \<Rightarrow> string \<Rightarrow> jv \<times> block list \<Rightarrow> version_row" where
  "source_version rt u d vid built = \<lparr>vr_id = vid, vr_user = u, vr_doc = d, vr_app = None, vr_number = 1, vr_content = fst built,
     vr_blocks = blocks_json (snd built), vr_note = ''source'', vr_quality = computeQuality (snd built), vr_created = rr_now rt\<rparr>"

text \<open>Identifiers: the document is \<open>rr_uuid rt 0\<close>, its version \<open>rr_uuid rt 1\<close>.\<close>

definition insertProfileDocument :: "route_rt \<Rightarrow> user_row \<Rightarrow> string \<Rightarrow> (jv \<times> block list) option \<Rightarrow> ('z doc_db_scheme, string) core_prog" where
  "insertProfileDocument rt user title version =
     (let vid = rr_uuid rt 1; d = profile_doc rt user title (map_option (\<lambda>_. vid) version) in
      and_then (writing (\<lambda>db. db\<lparr>docs := docs db @ [d],
          versions := versions db @ (case version of None \<Rightarrow> [] | Some built \<Rightarrow> [source_version rt (cu_id user) (dc_id d) vid built])\<rparr>)) (\<lambda>_.
        ret (dc_id d)))"

definition clip :: "string \<Rightarrow> nat \<Rightarrow> string" where
  "clip s n = (if length s \<le> n then s else take n s)"

definition PROFILE_TITLE :: string where
  "PROFILE_TITLE = [CHR 0xED, CHR 0x94, CHR 0x84, CHR 0xEB, CHR 0xA1, CHR 0x9C, CHR 0xED, CHR 0x95, CHR 0x84]"

definition convertOwnedSource :: "route_rt \<Rightarrow> job_ctx \<Rightarrow> (string \<Rightarrow> string) \<Rightarrow> user_row \<Rightarrow> string \<Rightarrow> ('z doc_db_scheme, response) core_prog" where
  "convertOwnedSource rt jc sourceText user i =
     and_then (reading (\<lambda>db. find (\<lambda>s. so_id s = i \<and> so_user s = cu_id user) (sources db))) (\<lambda>found.
     and_then (from_option not_found_error found) (\<lambda>src.
       (let title = clip (or_else (or_empty (so_file src)) PROFILE_TITLE) 300; mime = or_empty (so_mime src) in
        if mime \<in> {''text/plain'', ''text/markdown''}
        then and_then (insertProfileDocument rt user title (Some (mdToDoc (sourceText (so_content src))))) (\<lambda>d.
          ret (data 200 (JObj [(''target'', JStr ''application''), (''documentId'', JStr d), (''applicationId'', JNull)]) (rr_rid rt)))
        else and_then (insertProfileDocument rt user title None) (\<lambda>d.
          and_then (on_jobs (enqueueIngest (rr_uuid rt 1) (rr_uuid rt 2) jc
              (JObj [(''sourceId'', JStr i), (''profileDocumentId'', JStr d)]))) (\<lambda>job.
            ret (data 202 (JObj [(''target'', JStr ''application''), (''documentId'', JStr d), (''jobId'', JStr job), (''applicationId'', JNull)]) (rr_rid rt)))))))"

definition PROFILE_SECTIONS :: "string list" where
  "PROFILE_SECTIONS = [''headline'', ''intro'', ''careers'', ''skills'', ''links'']"

definition unprocessable :: "string \<Rightarrow> string \<Rightarrow> core_exn" where
  "unprocessable field message = HttpError 422 ''VALIDATION_ERROR'' message (JObj [(''field'', JStr field)])"

definition sectionsOf :: "jv \<Rightarrow> core_exn + string list" where
  "sectionsOf v = (case v of
       JArr vs \<Rightarrow> if list_all (\<lambda>x. case x of JStr s \<Rightarrow> s \<in> set PROFILE_SECTIONS | _ \<Rightarrow> False) vs then Inr (first_seen (map js_String vs))
         else Inl (unprocessable ''sections'' ''unsupported section'')
     | _ \<Rightarrow> Inl (unprocessable ''sections'' ''unsupported section''))"

text \<open>\<open>copyOntoBaseProfile\<close>: from the document and the sections the fields of the answer.\<close>

type_synonym 'z profile_copy = "doc_row \<Rightarrow> string list option \<Rightarrow> ('z doc_db_scheme, (string \<times> jv) list) core_prog"

definition sections_of :: "body_values \<Rightarrow> core_exn + string list option" where
  "sections_of b = (if ''sections'' \<in> set (bv_present b) then map_sum id Some (sectionsOf (value_of b ''sections'')) else Inr None)"

definition convertHubDocument :: "'z profile_copy \<Rightarrow> route_rt \<Rightarrow> user_row \<Rightarrow> doc_row \<Rightarrow> string \<Rightarrow> body_values \<Rightarrow> ('z doc_db_scheme, response) core_prog" where
  "convertHubDocument copy rt user d target b =
     guard (dc_kind d = ''HUB_PROFILE'') (field_error ''kind'' ''only a hub profile document can be converted'')
       (if target = ''application'' then
          (if ''applicationId'' \<notin> set (bv_present b)
           then ret (data 200 (JObj [(''target'', JStr target), (''documentId'', JStr (dc_id d)), (''applicationId'', JNull)]) (rr_rid rt))
           else guard (''expectedRevision'' \<in> set (bv_present b)) (field_error ''expectedRevision'' ''required'')
             (let expected = int_value (value_of b ''expectedRevision''); app = js_String (value_of b ''applicationId'') in
              guard (dc_revision d = expected) (conflict_error (dc_revision d))
                (and_then (loadApp (cu_id user) app) (\<lambda>_.
                 and_then (guarded_update (dc_id d) (cu_id user) expected (\<lambda>r. r\<lparr>dc_app := Some app, dc_updated := rr_now rt\<rparr>)) (\<lambda>_.
                   ret (data 200 (JObj [(''target'', JStr target), (''documentId'', JStr (dc_id d)), (''applicationId'', JStr app)]) (rr_rid rt)))))))
        else and_then (from_sum (sections_of b)) (\<lambda>sections.
          and_then (copy d sections) (\<lambda>copied. ret (data 200 (JObj ((''target'', JStr target) # copied)) (rr_rid rt)))))"

definition convert_spec :: "(string \<times> field_spec) list" where
  "convert_spec = [spec_field ''target'' KStr False False, spec_field ''applicationId'' KUuid False False,
     spec_field ''expectedRevision'' KInt False False, spec_field ''sections'' KAny False False]"

definition convertProfile :: "'z profile_copy \<Rightarrow> (string \<Rightarrow> string) \<Rightarrow> route_rt \<Rightarrow> job_ctx \<Rightarrow> user_row \<Rightarrow> request \<Rightarrow> string \<Rightarrow> ('z doc_db_scheme, response) core_prog" where
  "convertProfile copy sourceText rt jc user rq idRaw =
     and_then (from_sum (requireUuid idRaw ''id'')) (\<lambda>i.
     and_then (from_sum (strictBody (rr_jp rt) rq convert_spec)) (\<lambda>b.
       (let target = (if ''target'' \<in> set (bv_present b) then js_String (value_of b ''target'') else ''application'') in
        guard (target = ''hub'' \<or> target = ''application'') (field_error ''target'' ''must be hub or application'')
       (guard (\<not> (''sections'' \<in> set (bv_present b) \<and> target \<noteq> ''hub'')) (unprocessable ''sections'' ''unsupported section'')
       (and_then (reading (doc_at i (cu_id user))) (\<lambda>found.
          case found of Some d \<Rightarrow> convertHubDocument copy rt user d target b
          | None \<Rightarrow> convertOwnedSource rt jc sourceText user i))))))"

definition setBaseProfile :: "'z profile_copy \<Rightarrow> route_rt \<Rightarrow> user_row \<Rightarrow> request \<Rightarrow> string \<Rightarrow> ('z doc_db_scheme, response) core_prog" where
  "setBaseProfile copy rt user rq idRaw =
     and_then (from_sum (requireUuid idRaw ''id'')) (\<lambda>i.
     and_then (from_sum (strictBody (rr_jp rt) rq [spec_field ''sections'' KAny False False])) (\<lambda>b.
     and_then (loadDocument (cu_id user) i) (\<lambda>d.
     guard (dc_kind d = ''HUB_PROFILE'') (field_error ''kind'' ''only a hub profile document can be the base profile'')
       (and_then (from_sum (sections_of b)) (\<lambda>sections.
        and_then (copy d sections) (\<lambda>copied. ret (data 200 (JObj copied) (rr_rid rt))))))))"

end
