(* ===== verification/Doc_Edits.thy ===== *)
theory Doc_Edits
  imports Doc_Content
begin

text \<open>
  What the rules of documents accept, against a definition by the blocks of the tree; what an edit does
  to a document of paragraphs; and the reading of stored blocks.
\<close>

subsection \<open>The blocks of a tree\<close>

function tree_text :: "jv \<Rightarrow> string" where
  "tree_text n = own_text n @ concat (map tree_text (children n))"
  by pat_completeness auto
termination by (relation "measure size") (auto dest: size_child)

declare tree_text.simps [simp del]

definition own_block :: "jv \<Rightarrow> (string \<times> string) list" where
  "own_block n = (case jget n ''type'' of
       JStr kind \<Rightarrow> if kind \<in> set BLOCK_NODES then [(js_String (jget (jget n ''attrs'') ''blockId''), tree_text n)] else []
     | _ \<Rightarrow> [])"

function tree_blocks :: "jv \<Rightarrow> (string \<times> string) list" where
  "tree_blocks n = own_block n @ concat (map tree_blocks (children n))"
  by pat_completeness auto
termination by (relation "measure size") (auto dest: size_child)

declare tree_blocks.simps [simp del]

text \<open>A node on its own: of an allowed type, its links safe, and with an id where it is a block.\<close>

definition node_ok :: "jv \<Rightarrow> bool" where
  "node_ok n \<longleftrightarrow> \<not> nullish n \<and> (\<exists>kind. jget n ''type'' = JStr kind \<and> kind \<in> set ALLOWED
      \<and> (kind \<in> set BLOCK_NODES \<longrightarrow> is_object (jget n ''attrs'') \<and> truthy (jget (jget n ''attrs'') ''blockId'')))
    \<and> (\<forall>m \<in> set (marks_of n). check_mark m = Inr ())"

function tree_ok :: "jv \<Rightarrow> bool" where
  "tree_ok n \<longleftrightarrow> node_ok n \<and> (\<forall>c \<in> set (children n). tree_ok c)"
  by pat_completeness auto
termination by (relation "measure size") (auto dest: size_child)

declare tree_ok.simps [simp del]

lemma node_text: "tree_ok n \<Longrightarrow> nodeText n = Inr (tree_text n)"
  and node_texts: "list_all tree_ok cs \<Longrightarrow> nodeTexts cs = Inr (concat (map tree_text cs))"
proof (induction n and cs rule: nodeText_nodeTexts.induct)
  case (1 n)
  then have "\<not> nullish n" "list_all tree_ok (children n)" by (auto simp: tree_ok.simps [of n] node_ok_def list_all_iff)
  with 1 show ?case by (simp add: tree_text.simps [of n] bind_sum_def)
qed (simp_all add: bind_sum_def)

lemma each_unit: "(\<exists>us. each f xs = Inr us) \<longleftrightarrow> (\<forall>x \<in> set xs. \<exists>u. f x = Inr u)"
  by (induction xs) (auto split: sum.split)

lemma enter_ok:
  assumes "tree_ok n" and "jget n ''type'' = JStr kind"
  shows "enter_block kind n found = Inr found' \<longleftrightarrow>
    found' = found @ own_block n \<and> (\<forall>k \<in> fst ` set (own_block n). k \<notin> fst ` set found)"
proof -
  have "node_ok n" using assms(1) by (simp add: tree_ok.simps [of n])
  with assms(2) have b: "kind \<in> set BLOCK_NODES \<longrightarrow> is_object (jget n ''attrs'') \<and> truthy (jget (jget n ''attrs'') ''blockId'')"
    by (auto simp: node_ok_def)
  show ?thesis
    using b node_text [OF assms(1)] by (auto simp: enter_block_def own_block_def assms(2) bind_sum_def Let_def)
qed

definition fresh_blocks :: "(string \<times> string) list \<Rightarrow> (string \<times> string) list \<Rightarrow> bool" where
  "fresh_blocks found new \<longleftrightarrow> distinct (map fst new) \<and> fst ` set new \<inter> fst ` set found = {}"

lemma fresh_append: "fresh_blocks found (xs @ ys) \<longleftrightarrow> fresh_blocks found xs \<and> fresh_blocks (found @ xs) ys"
  by (auto simp: fresh_blocks_def image_Un)

lemma fresh_own: "fresh_blocks found (own_block n) \<longleftrightarrow> (\<forall>k \<in> fst ` set (own_block n). k \<notin> fst ` set found)"
  by (auto simp: fresh_blocks_def own_block_def split: json.split)

lemma walk_node:
  "walk n found = Inr found' \<longleftrightarrow>
     node_ok n \<and> (\<exists>kind f. jget n ''type'' = JStr kind \<and> enter_block kind n found = Inr f \<and> walk_all (children n) f = Inr found')"
proof -
  have m: "(\<exists>us. each check_mark (marks_of n) = Inr us) \<longleftrightarrow> (\<forall>m \<in> set (marks_of n). check_mark m = Inr ())"
    by (auto simp: each_unit)
  have e: "enter_block kind n found = Inr f \<Longrightarrow> kind \<in> set BLOCK_NODES \<longrightarrow> is_object (jget n ''attrs'') \<and> truthy (jget (jget n ''attrs'') ''blockId'')" for kind f
    by (auto simp: enter_block_def split: if_splits)
  have k: "node_kind n = Inr kind \<longleftrightarrow> \<not> nullish n \<and> jget n ''type'' = JStr kind \<and> kind \<in> set ALLOWED" for kind
    by (auto simp: node_kind_def split: json.splits)
  show ?thesis
  proof
    assume "walk n found = Inr found'"
    then obtain kind us f where "\<not> nullish n" "jget n ''type'' = JStr kind" "kind \<in> set ALLOWED" "each check_mark (marks_of n) = Inr us"
        and f: "enter_block kind n found = Inr f" "walk_all (children n) f = Inr found'"
      unfolding walk.simps [of n] bind_sum_Inr k by (elim exE conjE) (rule that)
    with m e [OF f(1)] have "node_ok n" unfolding node_ok_def by blast
    with f \<open>jget n ''type'' = JStr kind\<close> show "node_ok n \<and> (\<exists>kind f. jget n ''type'' = JStr kind \<and> enter_block kind n found = Inr f \<and> walk_all (children n) f = Inr found')"
      by blast
  next
    assume r: "node_ok n \<and> (\<exists>kind f. jget n ''type'' = JStr kind \<and> enter_block kind n found = Inr f \<and> walk_all (children n) f = Inr found')"
    then obtain kind f where f: "jget n ''type'' = JStr kind" "enter_block kind n found = Inr f" "walk_all (children n) f = Inr found'" by blast
    from r f(1) have "\<not> nullish n" "kind \<in> set ALLOWED" by (auto simp: node_ok_def)
    moreover from r m obtain us where "each check_mark (marks_of n) = Inr us" by (auto simp: node_ok_def)
    ultimately show "walk n found = Inr found'" unfolding walk.simps [of n] bind_sum_Inr k using f by blast
  qed
qed

declare walk.simps [simp del]

lemma walk_blocks:
  "walk n found = Inr found' \<longleftrightarrow> tree_ok n \<and> fresh_blocks found (tree_blocks n) \<and> found' = found @ tree_blocks n"
  and walk_all_blocks:
  "walk_all cs found = Inr found' \<longleftrightarrow> list_all tree_ok cs \<and> fresh_blocks found (concat (map tree_blocks cs)) \<and> found' = found @ concat (map tree_blocks cs)"
proof (induction n found and cs found arbitrary: found' and found' rule: walk_walk_all.induct)
  case (1 n found)
  note sub = 1
  show ?case
  proof
    assume "walk n found = Inr found'"
    then obtain kind f where f: "node_ok n" "jget n ''type'' = JStr kind" "enter_block kind n found = Inr f" "walk_all (children n) f = Inr found'"
      unfolding walk_node by blast
    then have c: "list_all tree_ok (children n)" "fresh_blocks f (concat (map tree_blocks (children n)))" "found' = f @ concat (map tree_blocks (children n))"
      using sub by blast+
    from c(1) f(1) have ok: "tree_ok n" by (simp add: tree_ok.simps [of n] list_all_iff)
    from f(3) enter_ok [OF ok f(2)] have "f = found @ own_block n" "fresh_blocks found (own_block n)" by (simp_all add: fresh_own)
    with c ok show "tree_ok n \<and> fresh_blocks found (tree_blocks n) \<and> found' = found @ tree_blocks n"
      by (simp add: tree_blocks.simps [of n] fresh_append)
  next
    assume r: "tree_ok n \<and> fresh_blocks found (tree_blocks n) \<and> found' = found @ tree_blocks n"
    then have ok: "tree_ok n" and n: "node_ok n" "list_all tree_ok (children n)" by (simp_all add: tree_ok.simps [of n] list_all_iff)
    then obtain kind where k: "jget n ''type'' = JStr kind" by (auto simp: node_ok_def)
    from r have f: "fresh_blocks found (own_block n)" "fresh_blocks (found @ own_block n) (concat (map tree_blocks (children n)))"
      "found' = (found @ own_block n) @ concat (map tree_blocks (children n))"
      by (simp_all add: tree_blocks.simps [of n] fresh_append)
    with enter_ok [OF ok k] have "enter_block kind n found = Inr (found @ own_block n)" by (simp add: fresh_own)
    with sub n k f show "walk n found = Inr found'" unfolding walk_node by blast
  qed
next
  case (2 found)
  then show ?case by (auto simp: fresh_blocks_def)
next
  case (3 c cs found)
  show ?case
  proof (cases "walk c found")
    case (Inl x)
    with 3(1) have "\<not> (tree_ok c \<and> fresh_blocks found (tree_blocks c))" by auto
    with Inl show ?thesis by (auto simp: bind_sum_def fresh_append)
  next
    case (Inr f)
    with 3(1) have f: "tree_ok c" "fresh_blocks found (tree_blocks c)" "f = found @ tree_blocks c" by auto
    with 3(2) Inr show ?thesis by (auto simp: bind_sum_def fresh_append)
  qed
qed

lemma check_blocks_result:
  "check_blocks found bs seen = Inr out \<longleftrightarrow> out = seen @ map bk_id bs \<and> distinct (map bk_id bs) \<and> (\<forall>b \<in> set bs. bk_id b \<notin> set seen)
     \<and> (\<forall>b \<in> set bs. bk_id b \<noteq> [] \<and> map_of found (bk_id b) = Some (bk_text b))"
proof (induction bs arbitrary: seen)
  case (Cons b bs)
  have "check_blocks found (b # bs) seen = Inr out \<longleftrightarrow> bk_id b \<noteq> [] \<and> bk_id b \<notin> set seen \<and> map_of found (bk_id b) = Some (bk_text b)
      \<and> check_blocks found bs (seen @ [bk_id b]) = Inr out"
    by (auto split: option.split)
  moreover have "(\<forall>b' \<in> set bs. bk_id b' \<notin> set (seen @ [bk_id b])) \<longleftrightarrow> (\<forall>b' \<in> set bs. bk_id b' \<notin> set seen) \<and> bk_id b \<notin> set (map bk_id bs)"
    by (simp add: ball_conj_distrib image_iff) metis
  ultimately show ?case unfolding Cons.IH by simp blast
qed auto

lemma valid_content:
  "validateDocumentContent content blocks = Inr () \<longleftrightarrow>
     is_object content \<and> jget content ''type'' = JStr ''doc'' \<and> tree_ok content \<and> distinct (map fst (tree_blocks content))
     \<and> distinct (map bk_id blocks) \<and> (\<forall>b \<in> set blocks. bk_id b \<noteq> [])
     \<and> set (map (\<lambda>b. (bk_id b, bk_text b)) blocks) = set (tree_blocks content)"
proof -
  have find: "find (\<lambda>k. k \<notin> set ks) xs = None \<longleftrightarrow> set xs \<subseteq> set ks" for ks and xs :: "string list"
    by (auto simp: find_None_iff)
  have w: "walk content [] = Inr f \<longleftrightarrow> tree_ok content \<and> distinct (map fst (tree_blocks content)) \<and> f = tree_blocks content" for f
    by (simp add: walk_blocks fresh_blocks_def)
  have eq: "(\<forall>b \<in> set blocks. map_of found (bk_id b) = Some (bk_text b)) \<and> fst ` set found \<subseteq> bk_id ` set blocks
      \<longleftrightarrow> set (map (\<lambda>b. (bk_id b, bk_text b)) blocks) = set found" if "distinct (map fst found)" for found
  proof -
    have m: "map_of found (bk_id b) = Some (bk_text b) \<longleftrightarrow> (bk_id b, bk_text b) \<in> set found" for b
      using that by simp
    show ?thesis
    proof
      assume a: "(\<forall>b \<in> set blocks. map_of found (bk_id b) = Some (bk_text b)) \<and> fst ` set found \<subseteq> bk_id ` set blocks"
      show "set (map (\<lambda>b. (bk_id b, bk_text b)) blocks) = set found"
      proof
        show "set (map (\<lambda>b. (bk_id b, bk_text b)) blocks) \<subseteq> set found" using a m by auto
        show "set found \<subseteq> set (map (\<lambda>b. (bk_id b, bk_text b)) blocks)"
        proof
          fix x assume x: "x \<in> set found"
          with a obtain b where b: "b \<in> set blocks" "fst x = bk_id b" by auto
          with a have "map_of found (fst x) = Some (bk_text b)" by auto
          moreover have "map_of found (fst x) = Some (snd x)" using x that map_of_is_SomeI [of found "fst x" "snd x"] by simp
          ultimately have "x = (bk_id b, bk_text b)" using b(2) by (cases x) simp
          with b show "x \<in> set (map (\<lambda>b. (bk_id b, bk_text b)) blocks)" by auto
        qed
      qed
    next
      assume "set (map (\<lambda>b. (bk_id b, bk_text b)) blocks) = set found"
      then show "(\<forall>b \<in> set blocks. map_of found (bk_id b) = Some (bk_text b)) \<and> fst ` set found \<subseteq> bk_id ` set blocks"
        using m by force
    qed
  qed
  have "validateDocumentContent content blocks = Inr () \<longleftrightarrow> is_object content \<and> jget content ''type'' = JStr ''doc''
      \<and> (\<exists>f seen. walk content [] = Inr f \<and> check_blocks f blocks [] = Inr seen \<and> set (map fst f) \<subseteq> set seen)"
    by (auto simp: validateDocumentContent_def bind_sum_Inr find split: option.splits)
  also have "\<dots> \<longleftrightarrow> is_object content \<and> jget content ''type'' = JStr ''doc'' \<and> tree_ok content \<and> distinct (map fst (tree_blocks content))
      \<and> distinct (map bk_id blocks) \<and> (\<forall>b \<in> set blocks. bk_id b \<noteq> [])
      \<and> ((\<forall>b \<in> set blocks. map_of (tree_blocks content) (bk_id b) = Some (bk_text b)) \<and> fst ` set (tree_blocks content) \<subseteq> bk_id ` set blocks)"
    unfolding w check_blocks_result by (simp add: ball_conj_distrib conj_ac del: map_of_eq_Some_iff)
  finally show ?thesis using eq [of "tree_blocks content"] by blast
qed

text \<open>C11: What a valid document is. The rules accept a content with its blocks exactly when the content is a
  tree of allowed nodes with safe links, rooted in a \<open>doc\<close> node, whose block nodes have distinct ids, and
  the blocks, with distinct ids of their own, are those of the tree with their texts.\<close>

theorem valid_document:
  "validateDocumentContent content blocks = Inr () \<longleftrightarrow>
     is_object content \<and> jget content ''type'' = JStr ''doc'' \<and> tree_ok content \<and> distinct (map fst (tree_blocks content))
     \<and> distinct (map bk_id blocks) \<and> [] \<notin> bk_id ` set blocks
     \<and> set (map (\<lambda>b. (bk_id b, bk_text b)) blocks) = set (tree_blocks content)"
  using valid_content [of content blocks] by (force simp: image_iff)

subsection \<open>Edits of a document of paragraphs\<close>

definition paragraph_node :: "string \<times> string \<Rightarrow> jv" where
  "paragraph_node p = JObj [(''type'', JStr ''paragraph''), (''attrs'', JObj [(''blockId'', JStr (fst p))]),
     (''content'', JArr [JObj [(''type'', JStr ''text''), (''text'', JStr (snd p))]])]"

definition flat_doc :: "(string \<times> string) list \<Rightarrow> jv" where
  "flat_doc ps = JObj [(''type'', JStr ''doc''), (''content'', JArr (map paragraph_node ps))]"

definition flat_blocks :: "(string \<times> string) list \<Rightarrow> block list" where
  "flat_blocks ps = map (\<lambda>(i, t). \<lparr>bk_id = i, bk_text = t, bk_refs = [], bk_status = ''UNSUPPORTED''\<rparr>) ps"

lemmas node_defs = children_def jget_def Prelude.fields_def nullish_def own_text_def set_field_def

lemma text_node: "tree_text (JObj [(''type'', JStr ''text''), (''text'', JStr t)]) = t"
  "tree_blocks (JObj [(''type'', JStr ''text''), (''text'', JStr t)]) = []" "tree_ok (JObj [(''type'', JStr ''text''), (''text'', JStr t)])"
proof -
  let ?n = "JObj [(''type'', JStr ''text''), (''text'', JStr t)] :: jv"
  have c: "children ?n = []" "own_text ?n = t" "jget ?n ''type'' = JStr ''text''" by (simp_all add: node_defs)
  show "tree_text ?n = t" by (simp add: tree_text.simps [of ?n] c)
  show "tree_blocks ?n = []" by (simp add: tree_blocks.simps [of ?n] c own_block_def BLOCK_NODES_def)
  have "marks_of ?n = []" by (simp add: marks_of_def node_defs)
  then show "tree_ok ?n" by (simp add: tree_ok.simps [of ?n] c node_ok_def nullish_def BLOCK_NODES_def ALLOWED_def)
qed

lemma paragraph_tree: "tree_blocks (paragraph_node p) = [p]" "fst p \<noteq> [] \<Longrightarrow> tree_ok (paragraph_node p)"
proof -
  have c: "children (paragraph_node p) = [JObj [(''type'', JStr ''text''), (''text'', JStr (snd p))]]"
    by (simp add: paragraph_node_def node_defs)
  have "own_block (paragraph_node p) = [(fst p, tree_text (paragraph_node p))]"
  proof -
    have "jget (paragraph_node p) ''type'' = JStr ''paragraph''" "jget (jget (paragraph_node p) ''attrs'') ''blockId'' = JStr (fst p)"
      by (simp_all add: paragraph_node_def node_defs)
    then show ?thesis by (simp add: own_block_def BLOCK_NODES_def)
  qed
  moreover have "tree_text (paragraph_node p) = snd p"
    by (simp add: tree_text.simps [of "paragraph_node p"] c text_node) (simp add: paragraph_node_def node_defs)
  ultimately show "tree_blocks (paragraph_node p) = [p]"
    by (simp add: tree_blocks.simps [of "paragraph_node p"] c text_node)
  show "tree_ok (paragraph_node p)" if "fst p \<noteq> []"
    unfolding tree_ok.simps [of "paragraph_node p"] c using that
    by (simp add: text_node) (simp add: node_ok_def paragraph_node_def node_defs marks_of_def ALLOWED_def is_object_def truthy_def)
qed

lemma flat_children: "children (flat_doc ps) = map paragraph_node ps"
  by (simp add: flat_doc_def node_defs)

lemma flat_tree: "tree_blocks (flat_doc ps) = ps" "\<forall>p \<in> set ps. fst p \<noteq> [] \<Longrightarrow> tree_ok (flat_doc ps)"
proof -
  have "own_block (flat_doc ps) = []" by (simp add: own_block_def flat_doc_def node_defs BLOCK_NODES_def)
  then show "tree_blocks (flat_doc ps) = ps"
    by (simp add: tree_blocks.simps [of "flat_doc ps"] flat_children paragraph_tree comp_def)
  have "node_ok (flat_doc ps)" by (simp add: node_ok_def flat_doc_def node_defs marks_of_def ALLOWED_def BLOCK_NODES_def)
  then show "tree_ok (flat_doc ps)" if "\<forall>p \<in> set ps. fst p \<noteq> []"
    using that by (simp add: tree_ok.simps [of "flat_doc ps"] flat_children paragraph_tree)
qed

lemma flat_ids: "map bk_id (flat_blocks ps) = map fst ps" "map (\<lambda>b. (bk_id b, bk_text b)) (flat_blocks ps) = ps"
  by (simp_all add: flat_blocks_def comp_def case_prod_beta)

lemma replace_text: "replaceInNode old nxt (JObj [(''type'', JStr ''text''), (''text'', JStr t)]) =
    Inr (JObj [(''type'', JStr ''text''), (''text'', JStr (if str_includes t old then replace_first old nxt t else t))], str_includes t old)"
  by (simp add: replaceInNode.simps node_defs)

lemma replace_paragraph: "replaceInNode old nxt (paragraph_node (i, t)) =
    Inr (paragraph_node (i, if str_includes t old then replace_first old nxt t else t), str_includes t old)"
proof -
  have c: "children (paragraph_node (i, t)) = [JObj [(''type'', JStr ''text''), (''text'', JStr t)]]"
    and n: "\<not> nullish (paragraph_node (i, t))" "jget (paragraph_node (i, t)) ''type'' \<noteq> JStr ''text''"
    by (simp_all add: paragraph_node_def node_defs)
  show ?thesis
    unfolding replaceInNode.simps [of old nxt "paragraph_node (i, t)"] c
    using n by (simp add: replace_text bind_sum_def) (simp add: paragraph_node_def node_defs)
qed

declare replaceInNode.simps [simp del]

text \<open>The paragraphs after an edit: the first one with the text is changed.\<close>

fun edit_first :: "string \<Rightarrow> string \<Rightarrow> (string \<times> string) list \<Rightarrow> (string \<times> string) list" where
  "edit_first old nxt [] = []"
| "edit_first old nxt ((i, t) # ps) = (if str_includes t old then (i, replace_first old nxt t) # ps else (i, t) # edit_first old nxt ps)"

lemma replace_paragraphs:
  "replaceInNodes old nxt (map paragraph_node ps) = Inr (map paragraph_node (edit_first old nxt ps), list_ex (\<lambda>p. str_includes (snd p) old) ps)"
  by (induction ps) (auto simp: replace_paragraph bind_sum_def)

lemma replace_flat:
  "ps \<noteq> [] \<Longrightarrow> replaceInNode old nxt (flat_doc ps) = Inr (flat_doc (edit_first old nxt ps), list_ex (\<lambda>p. str_includes (snd p) old) ps)"
proof -
  have n: "\<not> nullish (flat_doc ps)" "jget (flat_doc ps) ''type'' \<noteq> JStr ''text''" by (simp_all add: flat_doc_def node_defs)
  show ?thesis if "ps \<noteq> []"
    unfolding replaceInNode.simps [of old nxt "flat_doc ps"] flat_children
    using n that by (simp add: replace_paragraphs bind_sum_def) (simp add: flat_doc_def node_defs)
qed

lemma replace_flat_blocks:
  "replace_blocks old nxt (flat_blocks ps) = flat_blocks (map (\<lambda>(i, t). (i, if str_includes t old then replace_first old nxt t else t)) ps)"
  by (auto simp: replace_blocks_def flat_blocks_def)

lemma startsWith_split: "startsWith s old \<longleftrightarrow> s = old @ drop (length old) s"
  unfolding startsWith_def by (metis append_eq_conv_conj)

lemma replace_same: "str_includes t old \<Longrightarrow> replace_first old nxt t = t \<longleftrightarrow> nxt = old"
proof (induction t)
  case (Cons c s)
  show ?case
  proof (cases "startsWith (c # s) old")
    case True
    then have "c # s = old @ drop (length old) (c # s)" by (simp only: startsWith_split [symmetric])
    with True show ?thesis by (metis append_same_eq replace_first.simps(2))
  qed (use Cons in simp)
qed (auto simp: startsWith_def)

lemma no_blank: "[] \<notin> set (map f xs) \<longleftrightarrow> (\<forall>x \<in> set xs. f x \<noteq> [])"
  by force

lemma edit_first_split:
  "edit_first old nxt (pre @ (i, t) # post) = pre @ (i, replace_first old nxt t) # post"
  if "\<forall>p \<in> set pre. \<not> str_includes (snd p) old" and "str_includes t old"
  using that by (induction pre) auto

text \<open>C12: An edit and its second occurrence. In a document of paragraphs an edit changes the first paragraph with
  the text, but every block with it: the result is a valid document exactly when no later paragraph
  contains the text (or the edit changes nothing). Otherwise saving it is refused as an
  inconsistent content.\<close>

theorem edit_of_paragraphs:
  assumes "\<forall>p \<in> set pre. \<not> str_includes (snd p) old" and "str_includes t old"
    and "distinct (map fst (pre @ (i, t) # post))" and "\<forall>p \<in> set (pre @ (i, t) # post). fst p \<noteq> []"
  shows "\<exists>r. replaced (flat_doc (pre @ (i, t) # post)) (flat_blocks (pre @ (i, t) # post)) [(old, nxt)] = Inr r \<and> ed_applied r
    \<and> ed_content r = flat_doc (pre @ (i, replace_first old nxt t) # post)
    \<and> (validateDocumentContent (ed_content r) (ed_blocks r) = Inr () \<longleftrightarrow> nxt = old \<or> (\<forall>p \<in> set post. \<not> str_includes (snd p) old))"
proof -
  let ?ps = "pre @ (i, t) # post"
  let ?c = "pre @ (i, replace_first old nxt t) # post"
  let ?up = "\<lambda>(i, t). (i, if str_includes t old then replace_first old nxt t else t)"
  let ?r = "\<lparr>ed_content = flat_doc ?c, ed_blocks = flat_blocks (map ?up ?ps), ed_applied = True\<rparr>"
  have r: "replaced (flat_doc ?ps) (flat_blocks ?ps) [(old, nxt)] = Inr ?r"
    using assms(2) by (simp add: replaced_def replace_flat edit_first_split [OF assms(1,2)] bind_sum_def replace_flat_blocks)
  have pre: "map ?up pre = pre" using assms(1) by (induction pre) auto
  have eq: "set (map ?up ?ps) = set ?c \<longleftrightarrow> map ?up post = post"
  proof
    assume e: "set (map ?up ?ps) = set ?c"
    have d: "distinct (map fst ?c)" "map fst (map ?up ?ps) = map fst ?c" using assms(3) by (auto simp: comp_def case_prod_beta)
    have "?up p = p" if "p \<in> set post" for p
    proof -
      have "?up p \<in> set (map ?up ?ps)" using that by simp
      then have up: "?up p \<in> set ?c" unfolding e .
      obtain k v where p: "p = (k, v)" by (cases p)
      have "p \<in> set ?c" using that by simp
      with p up d(1) eq_key_imp_eq_value [of ?c k "snd (?up p)" v] show ?thesis by simp
    qed
    then show "map ?up post = post" by (simp add: map_idI)
  next
    assume "map ?up post = post"
    with pre assms(2) show "set (map ?up ?ps) = set ?c" by (simp del: set_map add: set_append)
  qed
  have "map ?up post = post \<longleftrightarrow> nxt = old \<or> (\<forall>p \<in> set post. \<not> str_includes (snd p) old)"
    using replace_same by (induction post) auto
  moreover have "validateDocumentContent (flat_doc ?c) (flat_blocks (map ?up ?ps)) = Inr () \<longleftrightarrow> set (map ?up ?ps) = set ?c"
  proof -
    have ids: "map fst (map ?up ?ps) = map fst ?ps" "map fst ?c = map fst ?ps" by (auto simp: comp_def case_prod_beta)
    have e: "[] \<notin> set (map fst ?ps)" using assms(4) unfolding set_map image_iff by metis
    have "[] \<notin> set (map fst ?c)" "[] \<notin> set (map bk_id (flat_blocks (map ?up ?ps)))" unfolding flat_ids ids by (rule e)+
    then have ne: "\<forall>p \<in> set ?c. fst p \<noteq> []" "\<forall>b \<in> set (flat_blocks (map ?up ?ps)). bk_id b \<noteq> []"
      by (simp_all only: no_blank)
    have o: "is_object (flat_doc ?c)" "jget (flat_doc ?c) ''type'' = JStr ''doc''" by (simp_all add: flat_doc_def node_defs is_object_def)
    show ?thesis
      unfolding valid_content flat_tree(1) flat_ids ids
      using o ne flat_tree(2) [OF ne(1)] assms(3) by simp
  qed
  ultimately show ?thesis using r eq by auto
qed

theorem edit_of_paragraphs_witness:
  "\<exists>r. replaced (flat_doc [(''1'', ''a''), (''2'', ''a'')]) (flat_blocks [(''1'', ''a''), (''2'', ''a'')]) [(''a'', ''xb'')] = Inr r
     \<and> ed_applied r \<and> validateDocumentContent (ed_content r) (ed_blocks r) \<noteq> Inr ()"
proof -
  have i: "str_includes ''a'' ''a''" by (simp add: str_includes.simps startsWith_def)
  have n: "(''xb'' = ''a'' \<or> (\<forall>p \<in> set [(''2'', ''a'')]. \<not> str_includes (snd p) ''a'')) \<longleftrightarrow> False" using i by simp
  have d: "distinct (map fst ([] @ (''1'', ''a'') # [(''2'', ''a'')]))" "\<forall>p \<in> set ([] @ (''1'', ''a'') # [(''2'', ''a'')]). fst p \<noteq> ([] :: string)"
    and e: "\<forall>p \<in> set []. \<not> str_includes (snd p) ''a''"
    by simp_all
  show ?thesis
    using edit_of_paragraphs [OF e i d, of "''xb''"] unfolding n append_Nil by blast
qed

lemma stored_blocks: "blocksOf (blocks_json bs) = bs"
proof -
  have "ref_of (ref_json r) = r" for r
    by (simp add: ref_of_def ref_json_def as_object_def is_object_def jget_def Prelude.fields_def coalesce_def nullish_def stored_int_def)
  then have "map ref_of (map ref_json rs) = rs" for rs by (simp add: comp_def map_idI)
  then have "block_of (block_json b) = b" for b
    by (simp add: block_of_def block_json_def as_object_def is_object_def jget_def Prelude.fields_def coalesce_def nullish_def or_blank_def)
  then show ?thesis by (simp add: blocksOf_def blocks_json_def comp_def map_idI)
qed

text \<open>Blocks survive the database: reading back what was written as JSON gives the same blocks.\<close>

theorem blocks_roundtrip: "blocksOf (blocks_json bs) = bs"
  by (rule stored_blocks)

end
