(* ===== verification/Postings.thy ===== *)
theory Postings
  imports Submissions
begin

text \<open>
  The other writer of an application's stage: \<open>patchApplicant\<close> of
  \<open>services/core-api/src/routes/postings.ts\<close>, by which a member of the company that posted a job moves an
  applicant. It checks the stage it has read and then writes by the identifier alone; the handler is
  split there. The tables of postings, companies and jobs are only read, each once, so they are an
  argument; what \<open>notify\<close> answers (it touches settings and notifications only) is another.
\<close>

subsection \<open>Tables that are only read\<close>

record posting_tables =
  pt_company :: "(string \<times> string) list"
  pt_members :: "(string \<times> string) list"
  pt_jobs :: "(string \<times> string option) list"

text \<open>\<open>job_postings p JOIN company_members m ON m.company_id = p.company_id AND m.user_id = $2\<close>.\<close>

definition posting_member :: "posting_tables \<Rightarrow> string \<Rightarrow> string \<Rightarrow> bool" where
  "posting_member t p u \<longleftrightarrow> list_ex (\<lambda>(p', c). p' = p \<and> (c, u) \<in> set (pt_members t)) (pt_company t)"

text \<open>\<open>JOIN jobs j ON j.id = a.job_id WHERE \<dots> j.source_posting_id = $2\<close>.\<close>

definition of_posting :: "posting_tables \<Rightarrow> string \<Rightarrow> app_row \<Rightarrow> bool" where
  "of_posting t p a \<longleftrightarrow> (ap_job a, Some p) \<in> set (pt_jobs t)"

definition requirePostingMember :: "posting_tables \<Rightarrow> user_row \<Rightarrow> string \<Rightarrow> ('z app_db_scheme, unit) core_prog" where
  "requirePostingMember t user p = guard (posting_member t p (cu_id user)) not_found_error (ret ())"

definition applicant_at :: "posting_tables \<Rightarrow> string \<Rightarrow> string \<Rightarrow> 'z app_db_scheme \<Rightarrow> app_row option" where
  "applicant_at t p i db = find (\<lambda>a. ap_id a = i \<and> of_posting t p a) (apps db)"

definition loadApplicant :: "posting_tables \<Rightarrow> string \<Rightarrow> string \<Rightarrow> ('z app_db_scheme, app_row) core_prog" where
  "loadApplicant t p i = and_then (reading (applicant_at t p i)) (from_option not_found_error)"

subsection \<open>Bodies and answers\<close>

definition readObject :: "route_rt \<Rightarrow> request \<Rightarrow> core_exn + jv" where
  "readObject rt rq =
     (if rq_body rq = [] then Inl (HttpError 400 ''VALIDATION_ERROR'' ''request body required'' JNull)
      else case rr_jp rt (rq_body rq) of Some (JObj kvs) \<Rightarrow> Inr (JObj kvs) | _ \<Rightarrow> Inl invalid)"

definition EMPLOYER_STAGES :: "string list" where
  "EMPLOYER_STAGES = [''SCREENING'', ''INTERVIEW'', ''OFFER'', ''REJECTED'']"

definition TERMINAL_STAGES :: "string list" where
  "TERMINAL_STAGES = [''ACCEPTED'', ''REJECTED'', ''WITHDRAWN'']"

definition unsupported_stage :: core_exn where
  "unsupported_stage = HttpError 422 ''VALIDATION_ERROR'' ''unsupported stage'' (JObj [(''field'', JStr ''stage'')])"

definition employer_stage :: "jv \<Rightarrow> string option" where
  "employer_stage body = (case jget body ''stage'' of JStr s \<Rightarrow> if s \<in> set EMPLOYER_STAGES then Some s else None | _ \<Rightarrow> None)"

definition applicationDto :: "route_rt \<Rightarrow> int option \<Rightarrow> app_row \<Rightarrow> core_exn + (string \<times> jv) list" where
  "applicationDto rt score row =
     bind_sum (ts (rr_dp rt) (opt_text (ap_applied row))) (\<lambda>applied.
     bind_sum (ts (rr_dp rt) (opt_text (ap_next row))) (\<lambda>nxt.
     bind_sum (stageEnteredAt rt row) (\<lambda>entered.
       Inr [(''id'', JStr (ap_id row)), (''revision'', JNum (ap_revision row)), (''jobId'', JStr (ap_job row)),
         (''company'', JStr (ap_company row)), (''title'', JStr (ap_title row)), (''stage'', JStr (ap_stage row)),
         (''notes'', JStr (ap_notes row)), (''appliedAt'', opt_text applied), (''nextActionAt'', opt_text nxt),
         (''imported'', JBool (ap_imported row)), (''createdAt'', JStr (stamp (ap_created row))),
         (''updatedAt'', JStr (stamp (ap_updated row))), (''fitScore'', opt_num score),
         (''stageEnteredAt'', JObj (map (\<lambda>(k, t). (k, JStr t)) entered))])))"

text \<open>Neither statement selects \<open>stage_entered_at\<close>.\<close>

definition companyApplicationDto :: "route_rt \<Rightarrow> int option \<Rightarrow> app_row \<Rightarrow> core_exn + jv" where
  "companyApplicationDto rt score row =
     bind_sum (applicationDto rt score (row\<lparr>ap_entered := None\<rparr>)) (\<lambda>dto.
       Inr (JObj (filter (\<lambda>(k, _). k \<noteq> ''notes'' \<and> k \<noteq> ''stageEnteredAt'') dto)))"

subsection \<open>Moving an applicant\<close>

text \<open>The reads and checks: the answer when there is nothing to do, or the row that was read and the stage.\<close>

definition applicant_read ::
  "route_rt \<Rightarrow> posting_tables \<Rightarrow> user_row \<Rightarrow> request \<Rightarrow> string \<Rightarrow> string \<Rightarrow> ('z app_db_scheme, response + app_row \<times> string) core_prog" where
  "applicant_read rt t user rq postingRaw applicationRaw =
     and_then (from_sum (requireUuid postingRaw ''id'')) (\<lambda>p.
     and_then (from_sum (requireUuid applicationRaw ''applicationId'')) (\<lambda>i.
     and_then (from_sum (readObject rt rq)) (\<lambda>body.
     and_then (from_option unsupported_stage (employer_stage body)) (\<lambda>stage.
     and_then (requirePostingMember t user p) (\<lambda>_.
     and_then (loadApplicant t p i) (\<lambda>current.
     and_then (reading (latest_score i)) (\<lambda>score.
       if ap_stage current = stage
       then and_then (from_sum (companyApplicationDto rt score current)) (\<lambda>dto. ret (Inl (data 200 dto (rr_rid rt))))
       else guard (ap_stage current \<notin> set TERMINAL_STAGES) (transition ''terminal stage'')
         (ret (Inr (current, stage))))))))))"

definition moved_to :: "bool \<Rightarrow> int \<Rightarrow> string \<Rightarrow> app_row \<Rightarrow> app_row" where
  "moved_to entered now stage a =
     a\<lparr>ap_stage := stage, ap_revision := ap_revision a + 1, ap_updated := now,
       ap_entered := (if entered then enter stage now a else ap_entered a)\<rparr>"

definition MOVE_APPLICANT :: "bool \<Rightarrow> route_rt \<Rightarrow> string \<Rightarrow> string \<Rightarrow> string \<Rightarrow> ('z app_db_scheme, app_row option) core_prog" where
  "MOVE_APPLICANT entered rt i u stage db =
     (if entered \<and> \<not> has_entered db then (Inl undefined_column, db)
      else (Inr (map_option (moved_to entered (rr_now rt) stage) (app_at i u db)),
        db\<lparr>apps := map (\<lambda>a. if ap_id a = i \<and> ap_user a = u then moved_to entered (rr_now rt) stage a else a) (apps db)\<rparr>))"

definition applicant_store :: "route_rt \<Rightarrow> core_exn + unit \<Rightarrow> app_row \<Rightarrow> string \<Rightarrow> ('z app_db_scheme, response) core_prog" where
  "applicant_store rt notified current stage =
     and_then (loose (MOVE_APPLICANT True rt (ap_id current) (ap_user current) stage) (MOVE_APPLICANT False rt (ap_id current) (ap_user current) stage)) (\<lambda>updated.
     and_then (from_option not_found_error updated) (\<lambda>row.
     and_then (from_sum notified) (\<lambda>_.
     and_then (from_sum (companyApplicationDto rt None row)) (\<lambda>dto. ret (data 200 dto (rr_rid rt))))))"

definition patchApplicant ::
  "route_rt \<Rightarrow> posting_tables \<Rightarrow> core_exn + unit \<Rightarrow> user_row \<Rightarrow> request \<Rightarrow> string \<Rightarrow> string \<Rightarrow> ('z app_db_scheme, response) core_prog" where
  "patchApplicant rt t notified user rq postingRaw applicationRaw =
     and_then (applicant_read rt t user rq postingRaw applicationRaw) (\<lambda>r.
       case r of Inl rs \<Rightarrow> ret rs | Inr (current, stage) \<Rightarrow> applicant_store rt notified current stage)"

end
