(* ===== verification/Submission_Props.thy ===== *)
theory Submission_Props
  imports Postings Runs Frames
begin

text \<open>
  Applications under interleaved requests: the statements of patches, submissions and the moves of
  employers whose reads lie in the past, new applications and drafts, and decisions on approvals taken
  elsewhere. The owner's requests move a stage along the stage machine only, an employer moves it to one
  of the employer's stages, and an approval is used for one submission.
\<close>

subsection \<open>Rows by their key\<close>

definition app_of :: "string \<Rightarrow> 'z app_db_scheme \<Rightarrow> app_row option" where
  "app_of i db = find (\<lambda>a. ap_id a = i) (apps db)"

definition approval_of_id :: "string \<Rightarrow> 'z app_db_scheme \<Rightarrow> approval_row option" where
  "approval_of_id v db = find (\<lambda>r. av_id r = v) (approvals db)"

definition keyed :: "'z app_db_scheme \<Rightarrow> bool" where
  "keyed db \<longleftrightarrow> distinct (map ap_id (apps db)) \<and> distinct (map av_id (approvals db))"

lemma find_map_key: "(\<And>x. k (f x) = k x) \<Longrightarrow> find (\<lambda>x. k x = i) (map f xs) = map_option f (find (\<lambda>x. k x = i) xs)"
  by (induction xs) auto

lemma find_key: "distinct (map k xs) \<Longrightarrow> x \<in> set xs \<Longrightarrow> find (\<lambda>y. k y = k x) xs = Some x"
  by (induction xs) (auto simp: image_iff)

lemma find_keyD: "find P xs = Some x \<Longrightarrow> x \<in> set xs \<and> P x"
  by (auto simp: find_Some_iff)

lemma find_append: "find P (xs @ ys) = (case find P xs of None \<Rightarrow> find P ys | Some x \<Rightarrow> Some x)"
  by (induction xs) auto

lemma app_at_of: "keyed db \<Longrightarrow> app_at i u db = Some a \<Longrightarrow> app_of i db = Some a \<and> ap_id a = i \<and> ap_user a = u"
  unfolding app_at_def app_of_def keyed_def using find_key [of ap_id "apps db" a] by (auto dest!: find_keyD)

lemma approval_at_of: "keyed db \<Longrightarrow> approval_at v u db = Some r \<Longrightarrow> approval_of_id v db = Some r \<and> av_id r = v \<and> av_user r = u"
  unfolding approval_at_def approval_of_id_def keyed_def using find_key [of av_id "approvals db" r] by (auto dest!: find_keyD)

lemma ex_revision: "keyed db \<Longrightarrow> list_ex (at_revision i u e) (apps db) \<longleftrightarrow> (\<exists>a. app_of i db = Some a \<and> at_revision i u e a)"
  unfolding keyed_def app_of_def at_revision_def list_ex_iff by (metis find_key find_keyD)

lemma ex_approval: "keyed db \<Longrightarrow> list_ex (approval_matches v u n) (approvals db) \<longleftrightarrow> (\<exists>r. approval_of_id v db = Some r \<and> approval_matches v u n r)"
  unfolding keyed_def approval_of_id_def approval_matches_def list_ex_iff by (metis find_key find_keyD)

subsection \<open>The statements\<close>

text \<open>The fallback makes each write the statement that fits the columns.\<close>

lemma loose_patch: "loose (PATCH_APP True rt u e x y p) (PATCH_APP False rt u e x y p) db = PATCH_APP (has_entered db) rt u e x y p db"
  by (simp add: loose_def catching_def PATCH_APP_def Let_def)

lemma loose_submit: "loose (SUBMIT True rt u p) (SUBMIT False rt u p) db = SUBMIT (has_entered db) rt u p db"
  by (simp add: loose_def catching_def SUBMIT_def Let_def)

lemma loose_insert: "loose (insert_app True row evs) (insert_app False row evs) db = insert_app (has_entered db) row evs db"
  by (simp add: loose_def catching_def insert_app_def)

text \<open>What a change may do to an application.\<close>

definition app_change :: "(app_row \<Rightarrow> app_row \<Rightarrow> bool) \<Rightarrow> 'z app_db_scheme \<Rightarrow> 'z app_db_scheme \<Rightarrow> bool" where
  "app_change Q db db' \<longleftrightarrow> (\<forall>i a. app_of i db = Some a \<longrightarrow>
     (\<exists>a'. app_of i db' = Some a' \<and> (a' = a \<or> ap_user a' = ap_user a \<and> ap_revision a' = ap_revision a + 1 \<and> Q a a')))"

lemma app_change_same: "apps db' = apps db \<Longrightarrow> app_change Q db db'"
  by (simp add: app_change_def app_of_def)

lemma app_change_map:
  assumes "apps db' = map f (apps db)" and "\<And>a. ap_id (f a) = ap_id a"
    and "\<And>a. a \<in> set (apps db) \<Longrightarrow> f a = a \<or> ap_user (f a) = ap_user a \<and> ap_revision (f a) = ap_revision a + 1 \<and> Q a (f a)"
  shows "app_change Q db db'"
proof -
  have "app_of i db' = map_option f (app_of i db)" for i
    unfolding app_of_def assms(1) by (rule find_map_key) (rule assms(2))
  then show ?thesis using assms(3) by (auto simp: app_change_def app_of_def dest: find_keyD)
qed

definition patches_to :: "string \<Rightarrow> string \<Rightarrow> int \<Rightarrow> string \<Rightarrow> app_row \<Rightarrow> app_row \<Rightarrow> bool" where
  "patches_to i u e stage a a' \<longleftrightarrow> at_revision i u e a \<and> ap_stage a' = stage"

lemma patch_store_result:
  assumes "patch_store rt user e sc p db = (r, db')"
  shows "db' = db \<or> (\<exists>x y. PATCH_APP (has_entered db) rt (cu_id user) e x y p db = (Inr True, db'))"
proof -
  have other: "PATCH_APP (has_entered db) rt u e x y p db = (Inr True, snd (PATCH_APP (has_entered db) rt u e x y p db))
      \<or> PATCH_APP (has_entered db) rt u e x y p db = (Inr False, db)" for u x y
    by (auto simp: PATCH_APP_def Let_def)
  show ?thesis
    using assms unfolding patch_store_def failedUpdate_def
    by (auto simp: and_then_def from_sum_def loose_patch reading_def split: sum.splits prod.splits if_splits option.splits)
      (metis other Pair_inject sum.inject(2))+
qed

lemma patch_change:
  assumes "PATCH_APP c rt u e x y p db = (Inr True, db')"
  shows "app_change (patches_to (ap_id (pp_row p)) u e (ap_stage (pp_row p))) db db'
    \<and> map ap_id (apps db') = map ap_id (apps db) \<and> approvals db' = approvals db \<and> submissions db' = submissions db \<and> drafts db' = drafts db"
proof -
  let ?f = "\<lambda>a. if at_revision (ap_id (pp_row p)) u e a
          then a\<lparr>ap_revision := ap_revision a + 1, ap_stage := ap_stage (pp_row p), ap_notes := ap_notes (pp_row p), ap_applied := x,
                 ap_next := y, ap_imported := ap_imported (pp_row p), ap_updated := rr_now rt,
                 ap_entered := (if c then enter (ap_stage (pp_row p)) (rr_now rt) a else ap_entered a)\<rparr> else a"
  have s: "apps db' = map ?f (apps db)" "approvals db' = approvals db" "submissions db' = submissions db" "drafts db' = drafts db"
    using assms by (auto simp: PATCH_APP_def Let_def split: if_splits)
  have "app_change (patches_to (ap_id (pp_row p)) u e (ap_stage (pp_row p))) db db'"
    by (rule app_change_map [OF s(1)]) (auto simp: patches_to_def)
  with s show ?thesis by simp
qed

lemma submit_store_result:
  assumes "submit_store rt user p db = (r, db')"
  shows "db' = db \<and> (\<exists>x. r = Inl x) \<or> SUBMIT (has_entered db) rt (cu_id user) p db = (Inr True, db') \<and> (\<exists>rs. r = Inr rs)"
proof -
  have other: "SUBMIT (has_entered db) rt u p db = (Inr True, snd (SUBMIT (has_entered db) rt u p db))
      \<or> SUBMIT (has_entered db) rt u p db = (Inr False, db)" for u
    by (auto simp: SUBMIT_def Let_def)
  from other [of "cu_id user"] show ?thesis
    using assms unfolding submit_store_def failedUpdate_def
    by (elim disjE) (auto simp: and_then_def loose_submit reading_def loadApp_def from_option_def guard_def
        split: sum.splits prod.splits if_splits option.splits)
qed

definition submits :: "string \<Rightarrow> string \<Rightarrow> int \<Rightarrow> app_row \<Rightarrow> app_row \<Rightarrow> bool" where
  "submits i u e a a' \<longleftrightarrow> at_revision i u e a \<and> ap_stage a' = ''APPLIED''"

definition consumes :: "string \<Rightarrow> string \<Rightarrow> int \<Rightarrow> 'z app_db_scheme \<Rightarrow> 'z app_db_scheme \<Rightarrow> bool" where
  "consumes v u n db db' \<longleftrightarrow> (\<exists>r. approval_of_id v db = Some r \<and> approval_matches v u n r)
     \<and> (\<forall>w r. approval_of_id w db = Some r \<longrightarrow> (\<exists>r'. approval_of_id w db' = Some r'
          \<and> (if w = v then av_revision r' = n + 1 \<and> av_status r' = ''CONSUMED'' else r' = r)))"

lemma submit_change:
  assumes "SUBMIT c rt u p db = (Inr True, db')" and "keyed db"
  shows "app_change (\<lambda>a a'. sp_move p \<and> submits (sp_app p) u (sp_expected p) a a') db db'
    \<and> map ap_id (apps db') = map ap_id (apps db) \<and> map av_id (approvals db') = map av_id (approvals db)
    \<and> consumes (sp_approval p) u (sp_approval_revision p) db db' \<and> submissions db' = submissions db @ [sp_row p] \<and> drafts db' = drafts db
    \<and> (\<exists>a. app_of (sp_app p) db = Some a \<and> at_revision (sp_app p) u (sp_expected p) a)"
proof -
  let ?m = "approval_matches (sp_approval p) u (sp_approval_revision p)"
  let ?g = "\<lambda>r. if ?m r then r\<lparr>av_revision := av_revision r + 1, av_status := ''CONSUMED'', av_consumed := Some (rr_now rt), av_updated := rr_now rt\<rparr> else r"
  let ?f = "\<lambda>a. if sp_move p \<and> at_revision (sp_app p) u (sp_expected p) a
          then a\<lparr>ap_revision := ap_revision a + 1, ap_stage := ''APPLIED'', ap_applied := Some (stamp (rr_now rt)), ap_updated := rr_now rt,
                 ap_entered := (if c then enter ''APPLIED'' (rr_now rt) a else ap_entered a)\<rparr> else a"
  have s: "apps db' = map ?f (apps db)" "approvals db' = map ?g (approvals db)" "submissions db' = submissions db @ [sp_row p]" "drafts db' = drafts db"
    and e: "list_ex ?m (approvals db)" "list_ex (at_revision (sp_app p) u (sp_expected p)) (apps db)"
    using assms(1) by (auto simp: SUBMIT_def Let_def split: if_splits)
  have "app_change (\<lambda>a a'. sp_move p \<and> submits (sp_app p) u (sp_expected p) a a') db db'"
    by (rule app_change_map [OF s(1)]) (auto simp: submits_def)
  moreover have ids: "map av_id (approvals db') = map av_id (approvals db)" "map ap_id (apps db') = map ap_id (apps db)" by (simp_all add: s)
  moreover obtain r where r: "approval_of_id (sp_approval p) db = Some r" "?m r" using e(1) ex_approval [OF assms(2)] by blast
  have g: "approval_of_id w db' = map_option ?g (approval_of_id w db)" for w
    unfolding approval_of_id_def s(2) by (rule find_map_key) simp
  have "consumes (sp_approval p) u (sp_approval_revision p) db db'"
    unfolding consumes_def
  proof (intro conjI allI impI)
    show "\<exists>r. approval_of_id (sp_approval p) db = Some r \<and> ?m r" using r by blast
    fix w q assume q: "approval_of_id w db = Some q"
    then have w: "av_id q = w" by (auto simp: approval_of_id_def dest: find_keyD)
    show "\<exists>r'. approval_of_id w db' = Some r' \<and> (if w = sp_approval p then av_revision r' = sp_approval_revision p + 1 \<and> av_status r' = ''CONSUMED'' else r' = q)"
    proof (cases "w = sp_approval p")
      case True
      with q r have "q = r" by simp
      with True r g [of w] show ?thesis by (auto simp: approval_matches_def)
    next
      case False
      with q w g [of w] show ?thesis by (auto simp: approval_matches_def)
    qed
  qed
  ultimately show ?thesis using s(3,4) e(2) ex_revision [OF assms(2)] by blast
qed

subsection \<open>The reads\<close>

text \<open>The moves of the stage machine that a patch may make.\<close>

definition patch_move :: "string \<Rightarrow> string \<Rightarrow> bool" where
  "patch_move f t \<longleftrightarrow> f \<noteq> t \<and> canPatchStage f t \<and> t \<noteq> ''APPLIED'' \<and> validStage t"

lemma plan_stage_row:
  assumes "plan_stage rt b app = Inr p"
  shows "ap_id (pp_row p) = ap_id app \<and> (ap_stage (pp_row p) = ap_stage app \<or> patch_move (ap_stage app) (ap_stage (pp_row p)))"
proof (cases "nullish (value_of b ''stage'') \<or> js_String (value_of b ''stage'') = ap_stage app")
  case True
  with assms have "pp_row p = app" by (fastforce simp: plan_stage_def Let_def split: if_split_asm)
  then show ?thesis by simp
next
  case False
  let ?t = "js_String (value_of b ''stage'')"
  from False assms have t: "validStage ?t" "canPatchStage (ap_stage app) ?t" by (auto simp: plan_stage_def Let_def split: if_split_asm)
  then have "?t \<noteq> ''APPLIED''" using False by (auto simp: canPatchStage_def split: if_split_asm)
  moreover obtain times where "p = \<lparr>pp_row = app\<lparr>ap_entered := times, ap_stage := ?t, ap_applied := ap_applied app\<rparr>, pp_event = Some (ap_stage app, ?t)\<rparr>"
    using False assms t calculation by (simp add: plan_stage_def Let_def bind_sum_Inr) blast
  ultimately show ?thesis using False t by (auto simp: patch_move_def)
qed

lemma plan_patch_row:
  assumes "plan_patch rt b c n app = Inr p"
  shows "ap_id (pp_row p) = ap_id app \<and> (ap_stage (pp_row p) = ap_stage app \<or> patch_move (ap_stage app) (ap_stage (pp_row p)))"
proof -
  obtain q where q: "plan_stage rt b app = Inr q" "ap_id (pp_row p) = ap_id (pp_row q)" "ap_stage (pp_row p) = ap_stage (pp_row q)"
    using assms by (auto simp: plan_patch_def bind_sum_Inr Let_def)
  with plan_stage_row [OF q(1)] show ?thesis by simp
qed

definition patch_seen :: "app_row \<Rightarrow> string \<Rightarrow> int \<Rightarrow> patch_plan \<Rightarrow> bool" where
  "patch_seen a u e p \<longleftrightarrow> ap_user a = u \<and> ap_revision a = e
     \<and> (ap_stage (pp_row p) = ap_stage a \<or> patch_move (ap_stage a) (ap_stage (pp_row p)))"

lemma patch_read_seen:
  assumes "patch_read rt user rq i db = (Inr (e, sc, p), db')" and "keyed db"
  shows "db' = db \<and> (\<exists>a. app_of (ap_id (pp_row p)) db = Some a \<and> patch_seen a (cu_id user) e p)"
proof -
  obtain j b c n app where p: "app_at j (cu_id user) db = Some app" "plan_patch rt b c n app = Inr p" "ap_revision app = e" "db' = db"
    using assms(1) unfolding patch_read_def loadApp_def Let_def
    by (auto simp: prog_results split: if_splits)
  with app_at_of [OF assms(2) p(1)] plan_patch_row [OF p(2)] show ?thesis
    unfolding patch_seen_def by metis
qed

lemma app_at_user: "app_at i u db = Some a \<Longrightarrow> ap_user a = u"
  by (auto simp: app_at_def dest: find_keyD)

lemma approval_at_user: "approval_at v u db = Some r \<Longrightarrow> av_user r = u"
  by (auto simp: approval_at_def dest: find_keyD)

lemma draft_at_mem: "draft_at d u db = Some r \<Longrightarrow> r \<in> set (drafts db)"
  by (auto simp: draft_at_def dest: find_keyD)

text \<open>The approval covers the draft whose versions are submitted.\<close>

definition covers :: "draft_row list \<Rightarrow> approval_row \<Rightarrow> submit_plan \<Rightarrow> bool" where
  "covers ds r p \<longleftrightarrow> (\<exists>d \<in> set ds. av_target r = dr_id d \<and> dr_app d = sp_app p \<and> (dr_hash d = [] \<or> av_hash r = dr_hash d)
     \<and> sb_versions (sp_row p) = dr_versions d \<and> (dr_mode d = ''MANUAL_RECORD'' \<longrightarrow> dr_confirmed d))"

definition open_seen :: "app_row \<Rightarrow> string \<Rightarrow> submit_plan \<Rightarrow> bool" where
  "open_seen a u p \<longleftrightarrow> ap_user a = u \<and> ap_revision a = sp_expected p \<and> ap_stage a \<notin> set TERMINAL
     \<and> (sp_move p \<longleftrightarrow> ap_stage a \<noteq> ''APPLIED'' \<and> \<not> afterApplied (ap_stage a))"

definition approved_seen :: "approval_row \<Rightarrow> string \<Rightarrow> submit_plan \<Rightarrow> bool" where
  "approved_seen r u p \<longleftrightarrow> av_user r = u \<and> av_revision r = sp_approval_revision p \<and> av_status r = ''APPROVED''
     \<and> av_kind r = ''APPLICATION_SUBMIT'' \<and> av_app r = Some (sp_app p)"

definition submit_seen :: "app_row \<Rightarrow> approval_row \<Rightarrow> string \<Rightarrow> submit_plan \<Rightarrow> bool" where
  "submit_seen a r u p \<longleftrightarrow> open_seen a u p \<and> approved_seen r u p
     \<and> sb_approval (sp_row p) = Some (sp_approval p) \<and> sb_app (sp_row p) = sp_app p"

lemma submit_read_seen:
  assumes "submit_read rt user rq i db = (Inr p, db')" and "keyed db"
  shows "db' = db \<and> (\<exists>a r. app_of (sp_app p) db = Some a \<and> approval_of_id (sp_approval p) db = Some r
      \<and> submit_seen a r (cu_id user) p \<and> covers (drafts db) r p)"
proof -
  have c: "db' = db \<and> (case (app_at (sp_app p) (cu_id user) db, approval_at (sp_approval p) (cu_id user) db) of
      (Some a, Some r) \<Rightarrow> submit_seen a r (cu_id user) p \<and> covers (drafts db) r p | _ \<Rightarrow> False)"
    using assms(1) unfolding submit_read_def loadApp_def Let_def prog_results
    by (auto simp: submit_seen_def open_seen_def approved_seen_def covers_def app_at_user approval_at_user intro!: rev_bexI [OF draft_at_mem])
  then obtain a r where p: "app_at (sp_app p) (cu_id user) db = Some a" "approval_at (sp_approval p) (cu_id user) db = Some r"
      "submit_seen a r (cu_id user) p \<and> covers (drafts db) r p" by (auto split: option.splits)
  with c app_at_of [OF assms(2) p(1)] approval_at_of [OF assms(2) p(2)] show ?thesis by blast
qed

text \<open>What a move of an employer has read: a member of the company that posted the job saw the application
  open and in another stage.\<close>

definition move_seen :: "posting_tables \<Rightarrow> string \<Rightarrow> string \<Rightarrow> app_row \<Rightarrow> string \<Rightarrow> bool" where
  "move_seen t u p cur st \<longleftrightarrow> posting_member t p u \<and> of_posting t p cur \<and> st \<in> set EMPLOYER_STAGES
     \<and> ap_stage cur \<notin> set TERMINAL \<and> ap_stage cur \<noteq> st"

lemma TERMINAL_STAGES: "TERMINAL_STAGES = TERMINAL"
  by (simp add: TERMINAL_STAGES_def TERMINAL_def)

lemma applicant_read_seen:
  assumes "applicant_read rt t user rq pr ar db = (Inr (Inr (cur, st)), db')" and "keyed db"
  shows "db' = db \<and> app_of (ap_id cur) db = Some cur \<and> (\<exists>p. move_seen t (cu_id user) p cur st)"
proof -
  obtain p i where f: "applicant_at t p i db = Some cur" and d: "db' = db" and m: "posting_member t p (cu_id user)"
    and st: "st \<in> set EMPLOYER_STAGES" "ap_stage cur \<notin> set TERMINAL" "ap_stage cur \<noteq> st"
  proof -
    have es: "employer_stage body = Some x \<Longrightarrow> x \<in> set EMPLOYER_STAGES" for body x
      by (cases "jget body ''stage''") (auto simp: employer_stage_def split: if_split_asm)
    obtain p i body stage current score where h: "employer_stage body = Some stage" "posting_member t p (cu_id user)"
        "applicant_at t p i db = Some current"
      and k: "(if ap_stage current = stage
        then and_then (from_sum (companyApplicationDto rt score current)) (\<lambda>dto. ret (Inl (data 200 dto (rr_rid rt))))
        else guard (ap_stage current \<notin> set TERMINAL_STAGES) (transition ''terminal stage'') (ret (Inr (current, stage)))) db = (Inr (Inr (cur, st)), db')"
      using assms(1) unfolding applicant_read_def requirePostingMember_def loadApplicant_def
      by (simp only: prog_results ret_simp prod.inject sum.inject) (elim exE conjE, blast)
    from k have "current = cur \<and> stage = st \<and> db' = db \<and> ap_stage cur \<noteq> st \<and> ap_stage cur \<notin> set TERMINAL"
      by (cases "ap_stage current = stage") (auto simp: prog_results TERMINAL_STAGES)
    with h es [OF h(1)] that show ?thesis by blast
  qed
  from f have "cur \<in> set (apps db)" "of_posting t p cur" by (auto simp: applicant_at_def dest: find_keyD)
  with find_key [of ap_id "apps db" cur] d m st assms(2) show ?thesis
    by (auto simp: move_seen_def app_of_def keyed_def)
qed

lemma loose_move: "loose (MOVE_APPLICANT True rt i u st) (MOVE_APPLICANT False rt i u st) db = MOVE_APPLICANT (has_entered db) rt i u st db"
  by (simp add: loose_def catching_def MOVE_APPLICANT_def)

definition employs :: "string \<Rightarrow> string \<Rightarrow> app_row \<Rightarrow> app_row \<Rightarrow> bool" where
  "employs i st a a' \<longleftrightarrow> ap_id a = i \<and> ap_stage a' = st"

lemma applicant_store_change:
  assumes "applicant_store rt ntf cur st db = (r, db')"
  shows "app_change (employs (ap_id cur) st) db db' \<and> map ap_id (apps db') = map ap_id (apps db)
    \<and> approvals db' = approvals db \<and> submissions db' = submissions db \<and> drafts db' = drafts db"
proof -
  have "db' = snd (MOVE_APPLICANT (has_entered db) rt (ap_id cur) (ap_user cur) st db)"
    using assms unfolding applicant_store_def
    by (auto simp: and_then_def loose_move from_option_def from_sum_def split: sum.splits prod.splits option.splits)
  then have "apps db' = map (\<lambda>a. if ap_id a = ap_id cur \<and> ap_user a = ap_user cur then moved_to (has_entered db) (rr_now rt) st a else a) (apps db)"
    and k: "approvals db' = approvals db \<and> submissions db' = submissions db \<and> drafts db' = drafts db"
    by (simp_all add: MOVE_APPLICANT_def)
  note s = this(1)
  have "app_change (employs (ap_id cur) st) db db'"
    by (rule app_change_map [OF s]) (auto simp: employs_def moved_to_def)
  with s k show ?thesis by (simp add: moved_to_def)
qed

subsection \<open>Interleaved requests\<close>

record sub_system =
  su_db :: app_db
  su_patches :: "(route_rt \<times> user_row \<times> int \<times> int option \<times> patch_plan) set"
  su_submits :: "(route_rt \<times> user_row \<times> submit_plan) set"
  su_moves :: "(route_rt \<times> posting_tables \<times> user_row \<times> app_row \<times> string) set"

text \<open>A submission under an approval, and the move of an application to a stage by an employer.\<close>

datatype sub_event = Quiet | Submitted string | Employer string string

text \<open>New rows leave the others as they are.\<close>

definition adds_app :: "string \<Rightarrow> app_db \<Rightarrow> app_db \<Rightarrow> bool" where
  "adds_app i db db' \<longleftrightarrow> db' = db \<or> (\<exists>row. ap_id row = i \<and> apps db' = apps db @ [row] \<and> approvals db' = approvals db
     \<and> submissions db' = submissions db \<and> drafts db' = drafts db)"

text \<open>What happens to approvals elsewhere: a change of a granted one counts the revision up (a pending one may
  expire without), and what is consumed stays so.\<close>

definition approvals_later :: "'z app_db_scheme \<Rightarrow> 'z app_db_scheme \<Rightarrow> bool" where
  "approvals_later db db' \<longleftrightarrow> (\<forall>v r. approval_of_id v db = Some r \<longrightarrow> (\<exists>r'. approval_of_id v db' = Some r'
     \<and> (av_status r = ''CONSUMED'' \<longrightarrow> av_status r' = ''CONSUMED'')
     \<and> (r' = r \<or> av_revision r < av_revision r' \<or> av_revision r' = av_revision r \<and> av_status r \<noteq> ''APPROVED'')))"

inductive sub_step :: "sub_system \<Rightarrow> sub_event \<Rightarrow> sub_system \<Rightarrow> bool" where
  S_patch_read: "patch_read rt user rq i (su_db s) = (Inr (e, sc, p), db') \<Longrightarrow>
     sub_step s Quiet (s\<lparr>su_db := db', su_patches := insert (rt, user, e, sc, p) (su_patches s)\<rparr>)"
| S_patch_store: "(rt, user, e, sc, p) \<in> su_patches s \<Longrightarrow> patch_store rt user e sc p (su_db s) = (r, db') \<Longrightarrow>
     sub_step s Quiet (s\<lparr>su_db := db'\<rparr>)"
| S_submit_read: "submit_read rt user rq i (su_db s) = (Inr q, db') \<Longrightarrow>
     sub_step s Quiet (s\<lparr>su_db := db', su_submits := insert (rt, user, q) (su_submits s)\<rparr>)"
| S_submit: "(rt, user, q) \<in> su_submits s \<Longrightarrow> submit_store rt user q (su_db s) = (Inr rs, db') \<Longrightarrow>
     sub_step s (Submitted (sp_approval q)) (s\<lparr>su_db := db'\<rparr>)"
| S_refused: "(rt, user, q) \<in> su_submits s \<Longrightarrow> submit_store rt user q (su_db s) = (Inl x, db') \<Longrightarrow>
     sub_step s Quiet (s\<lparr>su_db := db'\<rparr>)"
| S_create: "createApplication rt user rq (su_db s) = (r, db') \<Longrightarrow> app_of (rr_uuid rt 0) (su_db s) = None \<Longrightarrow>
     sub_step s Quiet (s\<lparr>su_db := db'\<rparr>)"
| S_import: "importApplication rt user rq (su_db s) = (r, db') \<Longrightarrow> app_of (rr_uuid rt 0) (su_db s) = None \<Longrightarrow>
     sub_step s Quiet (s\<lparr>su_db := db'\<rparr>)"
| S_added: "adds_app i (su_db s) db' \<Longrightarrow> app_of i (su_db s) = None \<Longrightarrow> sub_step s Quiet (s\<lparr>su_db := db'\<rparr>)"
| S_move_read: "applicant_read rt t user rq pr ar (su_db s) = (Inr (Inr (cur, st)), db') \<Longrightarrow>
     sub_step s Quiet (s\<lparr>su_db := db', su_moves := insert (rt, t, user, cur, st) (su_moves s)\<rparr>)"
| S_move: "(rt, t, user, cur, st) \<in> su_moves s \<Longrightarrow> applicant_store rt ntf cur st (su_db s) = (r, db') \<Longrightarrow>
     e = (if db' = su_db s then Quiet else Employer (ap_id cur) st) \<Longrightarrow> sub_step s e (s\<lparr>su_db := db'\<rparr>)"
| S_draft: "createSubmissionDraft rt user rq i (su_db s) = (r, db') \<Longrightarrow> sub_step s Quiet (s\<lparr>su_db := db'\<rparr>)"
| S_decide: "db' = (su_db s)\<lparr>approvals := vs\<rparr> \<Longrightarrow> approvals_later (su_db s) db' \<Longrightarrow> distinct (map av_id vs) \<Longrightarrow>
     sub_step s Quiet (s\<lparr>su_db := db'\<rparr>)"

definition patch_ok :: "app_db \<Rightarrow> string \<Rightarrow> int \<Rightarrow> patch_plan \<Rightarrow> bool" where
  "patch_ok db u e p \<longleftrightarrow> (\<exists>a. app_of (ap_id (pp_row p)) db = Some a \<and> (e < ap_revision a \<or> patch_seen a u e p))"

definition submit_ok :: "app_db \<Rightarrow> string \<Rightarrow> submit_plan \<Rightarrow> bool" where
  "submit_ok db u p \<longleftrightarrow> (\<exists>a. app_of (sp_app p) db = Some a \<and> (sp_expected p < ap_revision a \<or> open_seen a u p))
     \<and> (\<exists>r. approval_of_id (sp_approval p) db = Some r
          \<and> (sp_approval_revision p < av_revision r \<or> approved_seen r u p \<and> covers (drafts db) r p))
     \<and> sb_approval (sp_row p) = Some (sp_approval p)"

definition move_ok :: "app_db \<Rightarrow> posting_tables \<Rightarrow> string \<Rightarrow> app_row \<Rightarrow> string \<Rightarrow> bool" where
  "move_ok db t u cur st \<longleftrightarrow> (\<exists>a. app_of (ap_id cur) db = Some a \<and> (ap_revision cur < ap_revision a \<or> a = cur))
     \<and> (\<exists>p. move_seen t u p cur st)"

definition sub_inv :: "sub_system \<Rightarrow> bool" where
  "sub_inv s \<longleftrightarrow> keyed (su_db s)
     \<and> (\<forall>(rt, user, e, sc, p) \<in> su_patches s. patch_ok (su_db s) (cu_id user) e p)
     \<and> (\<forall>(rt, user, p) \<in> su_submits s. submit_ok (su_db s) (cu_id user) p)
     \<and> (\<forall>(rt, t, user, cur, st) \<in> su_moves s. move_ok (su_db s) t (cu_id user) cur st)"

text \<open>The frame of a step: what it may do to the rows others have read.\<close>

definition later :: "app_db \<Rightarrow> app_db \<Rightarrow> bool" where
  "later db db' \<longleftrightarrow> keyed db' \<and> app_change (\<lambda>_ _. True) db db' \<and> approvals_later db db' \<and> set (drafts db) \<subseteq> set (drafts db')"

lemma patch_ok_later: "patch_ok db u e p \<Longrightarrow> later db db' \<Longrightarrow> patch_ok db' u e p"
  unfolding patch_ok_def later_def app_change_def by (fastforce simp: patch_seen_def)

lemma move_ok_later: "move_ok db t u cur st \<Longrightarrow> later db db' \<Longrightarrow> move_ok db' t u cur st"
  unfolding move_ok_def later_def app_change_def by fastforce

lemma submit_ok_later: "submit_ok db u p \<Longrightarrow> later db db' \<Longrightarrow> submit_ok db' u p"
proof -
  assume ok: "submit_ok db u p" and l: "later db db'"
  have "\<exists>a. app_of (sp_app p) db' = Some a \<and> (sp_expected p < ap_revision a \<or> open_seen a u p)"
    using ok l unfolding submit_ok_def later_def app_change_def by (fastforce simp: open_seen_def)
  moreover have "\<exists>r. approval_of_id (sp_approval p) db' = Some r
          \<and> (sp_approval_revision p < av_revision r \<or> approved_seen r u p \<and> covers (drafts db') r p)"
  proof -
    obtain r where r: "approval_of_id (sp_approval p) db = Some r"
        "sp_approval_revision p < av_revision r \<or> approved_seen r u p \<and> covers (drafts db) r p"
      using ok by (auto simp: submit_ok_def)
    moreover obtain r' where "approval_of_id (sp_approval p) db' = Some r'"
      "r' = r \<or> av_revision r < av_revision r' \<or> av_revision r' = av_revision r \<and> av_status r \<noteq> ''APPROVED''"
      using r(1) l unfolding later_def approvals_later_def by blast
    moreover have "covers (drafts db) r p \<Longrightarrow> covers (drafts db') r p" using l by (auto simp: covers_def later_def)
    ultimately show ?thesis by (auto simp: approved_seen_def)
  qed
  ultimately show ?thesis using ok by (simp add: submit_ok_def)
qed

lemma later_refl: "keyed db \<Longrightarrow> later db db"
  by (simp add: later_def app_change_same approvals_later_def)

lemma consumes_later: "consumes v u n db db' \<Longrightarrow> approvals_later db db'"
  unfolding consumes_def approvals_later_def approval_matches_def
  by (metis less_add_one option.inject)

lemma consumed_after: "consumes v u n db db' \<Longrightarrow> \<exists>r. approval_of_id v db' = Some r \<and> av_status r = ''CONSUMED''"
  unfolding consumes_def by metis

lemma app_change_mono: "app_change Q db db' \<Longrightarrow> app_change (\<lambda>_ _. True) db db'"
  by (fastforce simp: app_change_def)

interpretation adds: touch "adds_app i" for i
  by unfold_locales (simp add: adds_app_def)

lemma insert_adds: "i = ap_id row \<Longrightarrow> moves (adds_app i) (loose (insert_app True row evs) (insert_app False row evs))"
  by (auto simp: moves_def loose_insert insert_app_def adds_app_def)

lemma new_app_id: "ap_id (new_app rt user job st n a m) = rr_uuid rt 0"
  by (simp add: new_app_def)

lemma create_adds: "moves (adds_app (rr_uuid rt 0)) (createApplication rt user rq)"
  unfolding createApplication_def loadJob_def Let_def
  by (intro adds.m_last [OF reads_only(4)] adds.m_last reads_only adds.m_first [OF insert_adds] reads_only) (simp_all add: new_app_id)

lemma import_adds: "moves (adds_app (rr_uuid rt 0)) (importApplication rt user rq)"
  unfolding importApplication_def loadJob_def Let_def
  by (intro adds.m_guard adds.m_first [OF insert_adds] adds.m_last reads_only) (simp_all add: new_app_id)

definition adds_draft :: "app_db \<Rightarrow> app_db \<Rightarrow> bool" where
  "adds_draft db db' \<longleftrightarrow> apps db' = apps db \<and> approvals db' = approvals db \<and> submissions db' = submissions db
     \<and> set (drafts db) \<subseteq> set (drafts db')"

interpretation adds_draft: stable adds_draft
  by unfold_locales (auto simp: adds_draft_def)

lemma draft_adds: "moves adds_draft (createSubmissionDraft rt user rq i)"
  unfolding createSubmissionDraft_def loadApp_def Let_def
  by (intro adds_draft.m_rules) (auto simp: adds_draft_def)

lemma adds_app_keeps: "adds_app i db db' \<Longrightarrow> app_of j db = Some a \<Longrightarrow> app_of j db' = Some a"
  by (auto simp: adds_app_def app_of_def find_append)

lemma adds_app_later: "adds_app i db db' \<Longrightarrow> keyed db \<Longrightarrow> app_of i db = None \<Longrightarrow> later db db'"
proof -
  assume a: "adds_app i db db'" "keyed db" "app_of i db = None"
  then have "keyed db'" by (auto simp: adds_app_def keyed_def app_of_def find_None_iff) blast
  moreover have "approvals_later db db'" "set (drafts db) \<subseteq> set (drafts db')"
    using a(1) by (auto simp: adds_app_def approvals_later_def approval_of_id_def)
  ultimately show ?thesis using adds_app_keeps [OF a(1)] by (simp add: later_def app_change_def)
qed

lemma adds_draft_later: "adds_draft db db' \<Longrightarrow> keyed db \<Longrightarrow> later db db'"
  by (simp add: adds_draft_def later_def keyed_def app_change_same approvals_later_def approval_of_id_def)

subsection \<open>One step\<close>

text \<open>What a step may do to the stage of an application: nothing, a move of the machine, the submission
  under an approval that the owner was given for it and that covers the submitted draft, or the move of
  an employer who has read this application, now or at an earlier revision.\<close>

definition stage_step :: "sub_system \<Rightarrow> sub_event \<Rightarrow> sub_system \<Rightarrow> app_row \<Rightarrow> app_row \<Rightarrow> bool" where
  "stage_step s e s' a a' \<longleftrightarrow> ap_stage a' = ap_stage a \<or> patch_move (ap_stage a) (ap_stage a')
     \<or> ap_stage a' = ''APPLIED'' \<and> ap_stage a \<notin> set TERMINAL \<and> \<not> afterApplied (ap_stage a)
       \<and> (\<exists>v r p. e = Submitted v \<and> approval_of_id v (su_db s) = Some r \<and> approved_seen r (ap_user a) p \<and> sp_app p = ap_id a
            \<and> covers (drafts (su_db s)) r p \<and> submissions (su_db s') = submissions (su_db s) @ [sp_row p]
            \<and> (\<exists>r'. approval_of_id v (su_db s') = Some r' \<and> av_status r' = ''CONSUMED''))
     \<or> (\<exists>rt t user p cur. e = Employer (ap_id a) (ap_stage a') \<and> (rt, t, user, cur, ap_stage a') \<in> su_moves s \<and> ap_id cur = ap_id a
          \<and> move_seen t (cu_id user) p cur (ap_stage a') \<and> (ap_revision cur < ap_revision a \<or> cur = a))"

definition step_ok :: "sub_system \<Rightarrow> sub_event \<Rightarrow> sub_system \<Rightarrow> bool" where
  "step_ok s e s' \<longleftrightarrow> later (su_db s) (su_db s') \<and> app_change (stage_step s e s') (su_db s) (su_db s')
     \<and> (case e of Quiet \<Rightarrow> submissions (su_db s') = submissions (su_db s)
        | Employer _ _ \<Rightarrow> submissions (su_db s') = submissions (su_db s)
        | Submitted v \<Rightarrow> (\<exists>r r' row. approval_of_id v (su_db s) = Some r \<and> av_status r = ''APPROVED''
             \<and> approval_of_id v (su_db s') = Some r' \<and> av_status r' = ''CONSUMED''
             \<and> submissions (su_db s') = submissions (su_db s) @ [row] \<and> sb_approval row = Some v))"

lemma app_of_id: "app_of i db = Some a \<Longrightarrow> ap_id a = i"
  by (auto simp: app_of_def dest: find_keyD)

lemma step_ok_quiet:
  "later (su_db s) (su_db s') \<Longrightarrow> apps (su_db s') = apps (su_db s) \<Longrightarrow> submissions (su_db s') = submissions (su_db s) \<Longrightarrow> step_ok s Quiet s'"
  by (simp add: step_ok_def app_change_same)

lemma step_ok_adds:
  assumes "adds_app i (su_db s) (su_db s')" and "keyed (su_db s)" and "app_of i (su_db s) = None"
  shows "step_ok s Quiet s'"
  using adds_app_later [OF assms] adds_app_keeps [OF assms(1)] assms(1)
  by (auto simp: step_ok_def app_change_def adds_app_def)

lemma patch_step_ok:
  assumes "PATCH_APP c rt u e x y p (su_db s) = (Inr True, su_db s')" and "keyed (su_db s)" and "patch_ok (su_db s) u e p"
  shows "step_ok s Quiet s'"
proof -
  note ch = patch_change [OF assms(1)]
  from ch assms(2) have l: "later (su_db s) (su_db s')"
    by (auto simp: later_def keyed_def approvals_later_def approval_of_id_def intro: app_change_mono)
  have "stage_step s Quiet s' a a'" if "app_of i (su_db s) = Some a" "patches_to (ap_id (pp_row p)) u e (ap_stage (pp_row p)) a a'" for i a a'
  proof -
    have "ap_id (pp_row p) = i" "ap_revision a = e" "ap_stage a' = ap_stage (pp_row p)"
      using that app_of_id [OF that(1)] by (auto simp: patches_to_def at_revision_def)
    with that(1) assms(3) have "patch_seen a u e p" by (auto simp: patch_ok_def)
    then show ?thesis using \<open>ap_stage a' = _\<close> by (auto simp: patch_seen_def stage_step_def)
  qed
  with ch have "app_change (stage_step s Quiet s') (su_db s) (su_db s')" by (simp add: app_change_def) blast
  with l ch show ?thesis by (simp add: step_ok_def)
qed

lemma submit_step_ok:
  assumes "SUBMIT c rt u q (su_db s) = (Inr True, su_db s')" and "keyed (su_db s)" and "submit_ok (su_db s) u q"
  shows "step_ok s (Submitted (sp_approval q)) s'"
proof -
  let ?v = "sp_approval q"
  note ch = submit_change [OF assms(1,2)]
  from ch assms(2) have l: "later (su_db s) (su_db s')"
    by (auto simp: later_def keyed_def intro: app_change_mono consumes_later)
  obtain r where r: "approval_of_id ?v (su_db s) = Some r" "approval_matches ?v u (sp_approval_revision q) r"
    using ch by (auto simp: consumes_def)
  with assms(3) have ap: "approved_seen r u q" "covers (drafts (su_db s)) r q" by (auto simp: submit_ok_def approval_matches_def)
  obtain r' where r': "approval_of_id ?v (su_db s') = Some r'" "av_status r' = ''CONSUMED''" using ch consumed_after by blast
  have "stage_step s (Submitted ?v) s' a a'"
    if "app_of i (su_db s) = Some a" "sp_move q" "submits (sp_app q) u (sp_expected q) a a'" for i a a'
  proof -
    have a: "sp_app q = i" "ap_revision a = sp_expected q" "ap_user a = u" "ap_stage a' = ''APPLIED''" "ap_id a = i"
      using that app_of_id [OF that(1)] by (auto simp: submits_def at_revision_def)
    with that(1) assms(3) have "open_seen a u q" by (auto simp: submit_ok_def)
    with a that(2) ap r(1) r' ch show ?thesis by (auto simp: stage_step_def open_seen_def)
  qed
  with ch have "app_change (stage_step s (Submitted ?v) s') (su_db s) (su_db s')" by (simp add: app_change_def) blast
  moreover have "sb_approval (sp_row q) = Some ?v" using assms(3) by (simp add: submit_ok_def)
  moreover have "av_status r = ''APPROVED''" using ap by (simp add: approved_seen_def)
  ultimately show ?thesis using l r(1) r' ch by (auto simp: step_ok_def)
qed

lemma move_step_ok:
  assumes "applicant_store rt ntf cur st (su_db s) = (r, su_db s')" and "keyed (su_db s)" and "(rt, t, user, cur, st) \<in> su_moves s"
    and "move_ok (su_db s) t (cu_id user) cur st" and "e = (if su_db s' = su_db s then Quiet else Employer (ap_id cur) st)"
  shows "step_ok s e s'"
proof (cases "su_db s' = su_db s")
  case True
  then show ?thesis using assms(2,5) by (simp add: step_ok_quiet later_refl)
next
  case False
  then have e: "e = Employer (ap_id cur) st" using assms(5) by simp
  note ch = applicant_store_change [OF assms(1)]
  from ch assms(2) have l: "later (su_db s) (su_db s')"
    by (auto simp: later_def keyed_def approvals_later_def approval_of_id_def intro: app_change_mono)
  obtain p where p: "move_seen t (cu_id user) p cur st" using assms(4) by (auto simp: move_ok_def)
  have "stage_step s e s' a a'" if "app_of i (su_db s) = Some a" "employs (ap_id cur) st a a'" for i a a'
  proof -
    have i: "ap_id a = ap_id cur" "ap_stage a' = st" "app_of (ap_id cur) (su_db s) = Some a"
      using that app_of_id [OF that(1)] by (auto simp: employs_def)
    then have "ap_revision cur < ap_revision a \<or> cur = a" using assms(4) by (auto simp: move_ok_def)
    with i e p assms(3) show ?thesis unfolding stage_step_def by metis
  qed
  with ch have "app_change (stage_step s e s') (su_db s) (su_db s')" by (simp add: app_change_def) blast
  with l ch e show ?thesis by (simp add: step_ok_def)
qed

lemma sub_step_ok:
  assumes "sub_step s e s'" and "sub_inv s"
  shows "step_ok s e s'"
  using assms
proof (cases rule: sub_step.cases)
  case (S_patch_read rt user rq i e' sc p db')
  then have "su_db s' = su_db s" using patch_read_seen [OF S_patch_read(3)] assms(2) by (simp add: sub_inv_def)
  then show ?thesis using S_patch_read(1) assms(2) by (simp add: step_ok_quiet later_refl sub_inv_def)
next
  case (S_patch_store rt user e' sc p r db')
  then have ok: "keyed (su_db s)" "patch_ok (su_db s) (cu_id user) e' p" using assms(2) by (auto simp: sub_inv_def)
  have d: "su_db s' = db'" using S_patch_store by simp
  show ?thesis
  proof (cases "db' = su_db s")
    case True
    with S_patch_store(1) d ok show ?thesis by (simp add: step_ok_quiet later_refl)
  next
    case False
    with patch_store_result [OF S_patch_store(4)] obtain x y where
      "PATCH_APP (has_entered (su_db s)) rt (cu_id user) e' x y p (su_db s) = (Inr True, su_db s')" using d by blast
    from patch_step_ok [OF this ok] S_patch_store(1) show ?thesis by simp
  qed
next
  case (S_submit_read rt user rq i q db')
  then have "su_db s' = su_db s" using submit_read_seen [OF S_submit_read(3)] assms(2) by (simp add: sub_inv_def)
  then show ?thesis using S_submit_read(1) assms(2) by (simp add: step_ok_quiet later_refl sub_inv_def)
next
  case (S_submit rt user q rs db')
  then have ok: "keyed (su_db s)" "submit_ok (su_db s) (cu_id user) q" using assms(2) by (auto simp: sub_inv_def)
  have "SUBMIT (has_entered (su_db s)) rt (cu_id user) q (su_db s) = (Inr True, su_db s')"
    using submit_store_result [OF S_submit(4)] S_submit(2) by auto
  from submit_step_ok [OF this ok] S_submit(1) show ?thesis by simp
next
  case (S_refused rt user q x db')
  then have "su_db s' = su_db s" using submit_store_result [OF S_refused(4)] by auto
  then show ?thesis using S_refused(1) assms(2) by (simp add: step_ok_quiet later_refl sub_inv_def)
next
  case (S_create rt user rq r db')
  then show ?thesis
    using step_ok_adds [of "rr_uuid rt 0" s s'] movesD [OF create_adds S_create(3)] assms(2) by (simp add: sub_inv_def)
next
  case (S_import rt user rq r db')
  then show ?thesis
    using step_ok_adds [of "rr_uuid rt 0" s s'] movesD [OF import_adds S_import(3)] assms(2) by (simp add: sub_inv_def)
next
  case (S_added i db')
  then show ?thesis using step_ok_adds [of i s s'] assms(2) by (simp add: sub_inv_def)
next
  case (S_move_read rt t user rq pr ar cur st db')
  then have "su_db s' = su_db s" using applicant_read_seen [OF S_move_read(3)] assms(2) by (simp add: sub_inv_def)
  then show ?thesis using S_move_read(1) assms(2) by (simp add: step_ok_quiet later_refl sub_inv_def)
next
  case (S_move rt t user cur st ntf r db')
  then have "keyed (su_db s)" "move_ok (su_db s) t (cu_id user) cur st" "su_db s' = db'" using assms(2) by (auto simp: sub_inv_def)
  with S_move show ?thesis using move_step_ok [of rt ntf cur st s r s' t user e] by simp
next
  case (S_draft rt user rq i r db')
  then have "adds_draft (su_db s) (su_db s')" using movesD [OF draft_adds S_draft(3)] by simp
  then show ?thesis
    using S_draft(1) assms(2) adds_draft_later by (auto intro!: step_ok_quiet simp: adds_draft_def sub_inv_def)
next
  case (S_decide db' vs)
  then have "later (su_db s) (su_db s')" using assms(2) by (simp add: later_def keyed_def app_change_same sub_inv_def)
  then show ?thesis using S_decide by (auto intro!: step_ok_quiet)
qed

lemma sub_step_inv:
  assumes "sub_step s e s'" and "sub_inv s"
  shows "sub_inv s'"
proof -
  have l: "later (su_db s) (su_db s')" using sub_step_ok [OF assms] by (simp add: step_ok_def)
  have k: "keyed (su_db s')" using l by (simp add: later_def)
  have p: "patch_ok (su_db s') (cu_id user) e p" if "(rt, user, e, sc, p) \<in> su_patches s" for rt user e sc p
    using that assms(2) patch_ok_later [OF _ l] by (auto simp: sub_inv_def)
  have q: "submit_ok (su_db s') (cu_id user) q" if "(rt, user, q) \<in> su_submits s" for rt user q
    using that assms(2) submit_ok_later [OF _ l] by (auto simp: sub_inv_def)
  have m: "move_ok (su_db s') t (cu_id user) cur st" if "(rt, t, user, cur, st) \<in> su_moves s" for rt t user cur st
    using that assms(2) move_ok_later [OF _ l] by (auto simp: sub_inv_def)
  have "keyed (su_db s)" using assms(2) by (simp add: sub_inv_def)
  with assms(1) show ?thesis
  proof (cases rule: sub_step.cases)
    case (S_patch_read rt user rq i e' sc r db')
    then have "patch_ok (su_db s') (cu_id user) e' r" using patch_read_seen [OF S_patch_read(3) \<open>keyed (su_db s)\<close>] by (auto simp: patch_ok_def)
    with S_patch_read k p q m show ?thesis by (auto simp: sub_inv_def)
  next
    case (S_submit_read rt user rq i r db')
    then have "submit_ok (su_db s') (cu_id user) r"
      using submit_read_seen [OF S_submit_read(3) \<open>keyed (su_db s)\<close>] by (auto simp: submit_ok_def submit_seen_def)
    with S_submit_read k p q m show ?thesis by (auto simp: sub_inv_def)
  next
    case (S_move_read rt t user rq pr ar cur st db')
    then have "move_ok (su_db s') t (cu_id user) cur st"
      using applicant_read_seen [OF S_move_read(3) \<open>keyed (su_db s)\<close>] by (auto simp: move_ok_def)
    with S_move_read k p q m show ?thesis by (auto simp: sub_inv_def)
  qed (use k p q m in \<open>auto simp: sub_inv_def\<close>)
qed

definition sub_start :: "app_db \<Rightarrow> sub_system" where
  "sub_start db = \<lparr>su_db = db, su_patches = {}, su_submits = {}, su_moves = {}\<rparr>"

lemma sub_start_inv: "keyed db \<Longrightarrow> sub_inv (sub_start db)"
  by (simp add: sub_inv_def sub_start_def)

lemma sub_run_inv: "run sub_step (sub_start db) es s \<Longrightarrow> keyed db \<Longrightarrow> sub_inv s"
  by (rule run_invariant [of sub_step "sub_start db" es s sub_inv]) (auto intro: sub_start_inv sub_step_inv)

text \<open>C7: Stages follow the machine. Take any interleaving of the statements of the owner's requests (patches,
  submissions, drafts, new applications), of the moves of employers (\<open>patchApplicant\<close>), of rows added by
  others and of decisions on approvals; applications are not deleted in it. A step then changes at most
  one revision of an application. It moves the stage along the table of patches, or by a submission to
  \<open>APPLIED\<close>: then the application was open, the approval had been given to its owner for it, covers the
  draft whose documents are submitted, and is consumed in the same step. The one exception is a step of an
  employer, to screening, interview, offer or rejected: a member of the company that posted the job has read
  the application open, but possibly at an earlier revision, since that statement has no guard.\<close>

theorem stages_follow:
  assumes "run sub_step (sub_start db) es s" and "keyed db" and "sub_step s e s'"
  shows "app_change (stage_step s e s') (su_db s) (su_db s')"
  using sub_step_ok [OF assms(3) sub_run_inv [OF assms(1,2)]] by (simp add: step_ok_def)

subsection \<open>Whole runs\<close>











text \<open>An employer's move that has read the application open reopens it when it was closed in between.\<close>

lemma employer_reopens:
  assumes "app_of (ap_id cur) db = Some a" and "ap_user a = ap_user cur" and "applicant_store rt ntf cur st db = (r, db')"
  shows "\<exists>a'. app_of (ap_id cur) db' = Some a' \<and> ap_stage a' = st \<and> ap_revision a' = ap_revision a + 1"
proof -
  let ?f = "\<lambda>a. if ap_id a = ap_id cur \<and> ap_user a = ap_user cur then moved_to (has_entered db) (rr_now rt) st a else a"
  have "db' = snd (MOVE_APPLICANT (has_entered db) rt (ap_id cur) (ap_user cur) st db)"
    using assms(3) unfolding applicant_store_def
    by (auto simp: and_then_def loose_move from_option_def from_sum_def split: sum.splits prod.splits option.splits)
  then have "apps db' = map ?f (apps db)" by (simp add: MOVE_APPLICANT_def)
  then have "app_of (ap_id cur) db' = map_option ?f (app_of (ap_id cur) db)"
    unfolding app_of_def by (simp only:) (rule find_map_key, simp add: moved_to_def)
  with assms(1,2) app_of_id [OF assms(1)] show ?thesis by (simp add: moved_to_def)
qed

text \<open>An approval in a state: it has been used.\<close>

definition used :: "string \<Rightarrow> sub_system \<Rightarrow> bool" where
  "used v s \<longleftrightarrow> (\<exists>r. approval_of_id v (su_db s) = Some r \<and> av_status r = ''CONSUMED'')"

definition submitted :: "sub_event \<Rightarrow> string option" where
  "submitted e = (case e of Quiet \<Rightarrow> None | Submitted v \<Rightarrow> Some v | Employer _ _ \<Rightarrow> None)"

interpretation approvals: claim "\<lambda>s e s'. sub_inv s \<and> sub_step s e s'" submitted used
proof
  fix s e s' k
  assume st: "sub_inv s \<and> sub_step s e s'"
  then have ok: "step_ok s e s'" using sub_step_ok by blast
  show "\<not> used k s \<and> used k s'" if "submitted e = Some k"
    using ok that by (auto simp: submitted_def step_ok_def used_def split: sub_event.splits)
  show "used k s'" if "used k s"
    using ok that unfolding step_ok_def later_def approvals_later_def used_def by metis
qed

lemma guarded_run: "run sub_step (sub_start db) es s \<Longrightarrow> keyed db \<Longrightarrow> run (\<lambda>s e s'. sub_inv s \<and> sub_step s e s') (sub_start db) es s"
  by (induction "sub_start db" es s rule: run.induct) (auto intro: run.intros sub_run_inv)

lemma submissions_run:
  assumes "run sub_step (sub_start db) es s" and "keyed db"
  shows "length (filter (\<lambda>r. sb_approval r = Some v) (submissions (su_db s)))
    = length (filter (\<lambda>r. sb_approval r = Some v) (submissions db)) + length (filter (\<lambda>e. submitted e = Some v) es)"
  using assms
proof (induction "sub_start db" es s rule: run.induct)
  case run_start
  then show ?case by (simp add: sub_start_def)
next
  case (run_more es s1 e s2)
  have "step_ok s1 e s2" by (rule sub_step_ok [OF run_more.hyps(3) sub_run_inv [OF run_more.hyps(1) run_more.prems(1)]])
  with run_more show ?case by (auto simp: step_ok_def submitted_def split: sub_event.splits)
qed

text \<open>C9: An approval is used once. In no interleaving do two submissions under the same approval succeed, and
  the table gets at most one submission for it.\<close>

theorem approval_used_once:
  assumes "run sub_step (sub_start db) es s" and "keyed db"
  shows "length (filter (\<lambda>e. e = Submitted v) es) \<le> 1
    \<and> length (filter (\<lambda>r. sb_approval r = Some v) (submissions (su_db s)))
      \<le> length (filter (\<lambda>r. sb_approval r = Some v) (submissions db)) + 1"
proof -
  have "(\<lambda>e. e = Submitted v) = (\<lambda>e. submitted e = Some v)" by (auto simp: fun_eq_iff submitted_def split: sub_event.split)
  then show ?thesis
    using approvals.once_at_most [OF guarded_run [OF assms], of v] submissions_run [OF assms, of v] by simp
qed

subsection \<open>The history of stages\<close>

lemma plan_no_event:
  assumes "plan_patch rt b c n app = Inr p" and "pp_event p = None"
  shows "ap_id (pp_row p) = ap_id app \<and> ap_stage (pp_row p) = ap_stage app \<and> ap_entered (pp_row p) = ap_entered app \<and> ap_created (pp_row p) = ap_created app"
proof -
  obtain q where q: "plan_stage rt b app = Inr q" "pp_event q = None" "ap_id (pp_row p) = ap_id (pp_row q)" "ap_stage (pp_row p) = ap_stage (pp_row q)"
      "ap_entered (pp_row p) = ap_entered (pp_row q)" "ap_created (pp_row p) = ap_created (pp_row q)"
    using assms by (auto simp: plan_patch_def bind_sum_Inr Let_def)
  have "pp_row q = app"
  proof (cases "nullish (value_of b ''stage'') \<or> js_String (value_of b ''stage'') = ap_stage app")
    case True
    with q(1) show ?thesis by (fastforce simp: plan_stage_def Let_def split: if_split_asm)
  next
    case False
    with q(1) have "bind_sum (stageEnteredAt rt app) (\<lambda>times.
        Inr \<lparr>pp_row = app\<lparr>ap_entered := Some (if js_String (value_of b ''stage'') \<in> fst ` set times then times
               else times @ [(js_String (value_of b ''stage''), stamp (rr_now rt))]),
             ap_stage := js_String (value_of b ''stage''),
             ap_applied := (if js_String (value_of b ''stage'') = ''APPLIED'' then Some (stamp (rr_now rt)) else ap_applied app)\<rparr>,
           pp_event = Some (ap_stage app, js_String (value_of b ''stage''))\<rparr>) = Inr q"
      unfolding plan_stage_def Let_def by (simp only: simp_thms if_False if_True sum.distinct split: if_split_asm)
    then have "pp_event q \<noteq> None" unfolding bind_sum_Inr by (elim exE conjE) (drule sym, simp)
    with q(2) show ?thesis by simp
  qed
  with q show ?thesis by simp
qed

lemma patch_store_answer:
  assumes "patch_store rt user e sc p db = (Inr rs, db')"
  shows "\<exists>dto. appDto rt sc ((pp_row p)\<lparr>ap_revision := e + 1\<rparr>) = Inr dto \<and> rs = data 200 dto (rr_rid rt)"
proof -
  have "\<exists>dto s2. appDto rt sc ((pp_row p)\<lparr>ap_revision := e + 1\<rparr>) = Inr dto \<and> (ret (data 200 dto (rr_rid rt)) s2 :: (core_exn + response) \<times> _) = (Inr rs, db')"
    using assms unfolding patch_store_def and_then_Inr from_sum_Inr by (elim exE conjE) (intro exI conjI, assumption+)
  then show ?thesis by auto
qed

text \<open>Editing the notes stamps the stage. When an application has no history of stages (it is older than
  the column), a patch that does not change the stage writes the present stage into the history
  with the time of the patch, while its answer shows the time of creation.\<close>

theorem note_stamps_stage:
  assumes "plan_patch rt b c n app = Inr p" and "pp_event p = None" and "ap_entered app = None" and "has_entered db"
    and "keyed db" and "app_of (ap_id app) db = Some app" and "patch_store rt user (ap_revision app) sc p db = (Inr rs, db')" and "db' \<noteq> db"
  shows "(\<exists>a. app_of (ap_id app) db' = Some a \<and> ap_entered a = Some [(ap_stage app, stamp (rr_now rt))])
    \<and> (\<exists>dto. rs = data 200 dto (rr_rid rt) \<and> jget dto ''stageEnteredAt'' = JObj [(ap_stage app, JStr (stamp (ap_created app)))])"
proof
  note row = plan_no_event [OF assms(1,2)]
  obtain x y where p: "PATCH_APP True rt (cu_id user) (ap_revision app) x y p db = (Inr True, db')"
    using patch_store_result [OF assms(7)] assms(4,8) by auto
  obtain a0 where a0: "app_of (ap_id app) db = Some a0" "at_revision (ap_id app) (cu_id user) (ap_revision app) a0"
    using p ex_revision [OF assms(5), of "ap_id app" "cu_id user" "ap_revision app"] row by (auto simp: PATCH_APP_def Let_def split: if_splits)
  let ?f = "\<lambda>a. if at_revision (ap_id app) (cu_id user) (ap_revision app) a
          then a\<lparr>ap_revision := ap_revision a + 1, ap_stage := ap_stage app, ap_notes := ap_notes (pp_row p), ap_applied := x,
                 ap_next := y, ap_imported := ap_imported (pp_row p), ap_updated := rr_now rt, ap_entered := enter (ap_stage app) (rr_now rt) a\<rparr> else a"
  have "apps db' = map ?f (apps db)" using p row by (auto simp: PATCH_APP_def Let_def split: if_splits)
  then have "app_of (ap_id app) db' = map_option ?f (app_of (ap_id app) db)" unfolding app_of_def by (simp only:) (rule find_map_key, simp)
  then show "\<exists>a. app_of (ap_id app) db' = Some a \<and> ap_entered a = Some [(ap_stage app, stamp (rr_now rt))]"
    using assms(3,6) a0 by (auto simp: enter_def times_of_def)
  have "stageEnteredAt rt ((pp_row p)\<lparr>ap_revision := ap_revision app + 1\<rparr>) = Inr [(ap_stage app, stamp (ap_created app))]"
    using row assms(3) by (simp add: stageEnteredAt_def bind_sum_def)
  then have "jget dto ''stageEnteredAt'' = JObj [(ap_stage app, JStr (stamp (ap_created app)))]"
    if "appDto rt sc ((pp_row p)\<lparr>ap_revision := ap_revision app + 1\<rparr>) = Inr dto" for dto
    using that by (auto simp: appDto_def bind_sum_Inr jget_def Prelude.fields_def split: option.splits)
  then show "\<exists>dto. rs = data 200 dto (rr_rid rt) \<and> jget dto ''stageEnteredAt'' = JObj [(ap_stage app, JStr (stamp (ap_created app)))]"
    using patch_store_answer [OF assms(7)] by blast
qed

subsection \<open>Witnesses\<close>

definition sd_id :: string where "sd_id = ''3f2504e0-4f89-41d3-9a0c-0305e82c3301''"

definition sd_user :: user_row where "sd_user = anonymous\<lparr>cu_id := ''u1''\<rparr>"

definition sd_body :: jv where
  "sd_body = JObj [(''expectedRevision'', JNum 1), (''draftId'', JStr sd_id), (''approvalId'', JStr sd_id)]"

definition sd_rt :: route_rt where
  "sd_rt = \<lparr>rr_jp = (\<lambda>_. Some sd_body), rr_dp = (\<lambda>_. None), rr_pg = (\<lambda>_. None), rr_sha = id, rr_ilike = (\<lambda>_ _. False),
     rr_uuid = (\<lambda>_. ''s1''), rr_now = 5000, rr_rid = ''q''\<rparr>"

definition sd_post :: request where
  "sd_post = \<lparr>rq_method = ''POST'', rq_path = [], rq_search = [], rq_query = [], rq_headers = [], rq_body = ''b''\<rparr>"

definition sd_app :: app_row where
  "sd_app = \<lparr>ap_id = sd_id, ap_user = ''u1'', ap_revision = 1, ap_job = ''j'', ap_company = ''c'', ap_title = ''t'', ap_stage = ''READY'',
     ap_notes = [], ap_applied = None, ap_next = None, ap_imported = False, ap_created = 0, ap_updated = 0, ap_entered = None\<rparr>"

definition sd_draft :: draft_row where
  "sd_draft = \<lparr>dr_id = sd_id, dr_user = ''u1'', dr_app = sd_id, dr_revision = 1, dr_mode = ''MANUAL_RECORD'', dr_adapter = None,
     dr_versions = [''v1''], dr_confirmed = True, dr_hash = ''h'', dr_created = 0\<rparr>"

definition sd_approval :: approval_row where
  "sd_approval = \<lparr>av_id = sd_id, av_user = ''u1'', av_revision = 2, av_kind = ''APPLICATION_SUBMIT'', av_app = Some sd_id, av_target = sd_id,
     av_hash = ''h'', av_status = ''APPROVED'', av_expires = None, av_consumed = None, av_created = 0, av_updated = 0\<rparr>"

definition sd_db :: app_db where
  "sd_db = \<lparr>has_entered = True, apps = [sd_app], saved_jobs = [], app_events = [], drafts = [sd_draft], submissions = [],
     approvals = [sd_approval], gaps = [], docs = [], versions = [], evidence_rows = [], interview_rows = []\<rparr>"

definition sd_plan :: submit_plan where
  "sd_plan = \<lparr>sp_app = sd_id, sp_expected = 1, sp_approval = sd_id, sp_approval_revision = 2, sp_stage = ''READY'', sp_move = True,
     sp_row = \<lparr>sb_id = ''s1'', sb_user = ''u1'', sb_app = sd_id, sb_mode = ''MANUAL_RECORD'', sb_adapter = None, sb_status = ''SUCCEEDED'',
       sb_versions = [''v1''], sb_approval = Some sd_id, sb_receipt = None, sb_error = None, sb_created = 5000, sb_updated = 5000\<rparr>\<rparr>"

lemma sd_parse: "parseUuid sd_id = Some sd_id"
  by (simp add: sd_id_def parseUuid_def js_defs uuid_shape_def hex_of_def or_empty_def is_hex_def is_digit_def is_hex_lower_def)

lemma sd_strict: "strictBody (rr_jp sd_rt) sd_post submit_spec =
    Inr \<lparr>bv_values = [(''expectedRevision'', JNum 1), (''draftId'', JStr sd_id), (''approvalId'', JStr sd_id)],
         bv_present = [''expectedRevision'', ''draftId'', ''approvalId'']\<rparr>"
  by (simp add: strictBody_def strictObject_def sd_rt_def sd_post_def sd_body_def submit_spec_def spec_field_def in_spec_def has_own_def
      Prelude.fields_def jget_def fits_def fits_uuid_def nullish_def sd_parse)

lemma sd_read: "submit_read sd_rt sd_user sd_post sd_id sd_db = (Inr sd_plan, sd_db)"
proof -
  have "requireUuid sd_id ''id'' = Inr sd_id" by (simp add: requireUuid_def sd_parse)
  moreover have "app_at sd_id ''u1'' sd_db = Some sd_app" "draft_at sd_id ''u1'' sd_db = Some sd_draft" "approval_at sd_id ''u1'' sd_db = Some sd_approval"
    by (simp_all add: app_at_def draft_at_def approval_at_def sd_db_def sd_app_def sd_draft_def sd_approval_def)
  moreover have "cu_id sd_user = ''u1''" by (simp add: sd_user_def)
  moreover have "rr_now sd_rt = 5000" "rr_uuid sd_rt 0 = ''s1''" by (simp_all add: sd_rt_def)
  ultimately show ?thesis
    by (simp add: submit_read_def loadApp_def Let_def seq_simps and_then_assoc sd_strict value_of_def int_value_def expired_def
        sd_app_def sd_draft_def sd_approval_def sd_plan_def TERMINAL_def afterApplied_def)
qed

definition sd_end :: app_db where
  "sd_end = snd (SUBMIT True sd_rt ''u1'' sd_plan sd_db)"

lemma sd_keyed: "keyed sd_db"
  by (simp add: keyed_def sd_db_def)

lemma sd_store: "submit_store sd_rt sd_user sd_plan sd_db = (Inr (data 201 (submissionDto (sp_row sd_plan)) ''q''), sd_end)"
proof -
  have "SUBMIT True sd_rt ''u1'' sd_plan sd_db = (Inr True, sd_end)"
    by (simp add: sd_end_def SUBMIT_def Let_def sd_plan_def sd_db_def sd_app_def sd_approval_def approval_matches_def at_revision_def)
  moreover have "cu_id sd_user = ''u1''" "has_entered sd_db" "rr_rid sd_rt = ''q''" by (simp_all add: sd_user_def sd_db_def sd_rt_def)
  ultimately show ?thesis by (simp add: submit_store_def and_then_def loose_submit)
qed

definition sd_read_state :: sub_system where
  "sd_read_state = \<lparr>su_db = sd_db, su_patches = {}, su_submits = {(sd_rt, sd_user, sd_plan)}, su_moves = {}\<rparr>"

definition sd_state :: sub_system where
  "sd_state = sd_read_state\<lparr>su_db := sd_end\<rparr>"

lemma sd_start: "run sub_step (sub_start sd_db) [Quiet] sd_read_state"
proof -
  have "sub_step (sub_start sd_db) Quiet ((sub_start sd_db)\<lparr>su_db := sd_db, su_submits := insert (sd_rt, sd_user, sd_plan) (su_submits (sub_start sd_db))\<rparr>)"
    by (rule S_submit_read [of sd_rt sd_user sd_post sd_id]) (simp add: sub_start_def sd_read)
  then show ?thesis by (intro run_single) (simp add: sd_read_state_def sub_start_def)
qed

lemma sd_submit: "sub_step sd_read_state (Submitted sd_id) sd_state"
proof -
  have "sub_step sd_read_state (Submitted (sp_approval sd_plan)) (sd_read_state\<lparr>su_db := sd_end\<rparr>)"
    by (rule S_submit [of sd_rt sd_user sd_plan]) (simp_all add: sd_read_state_def sd_store)
  then show ?thesis by (simp add: sd_state_def sd_plan_def)
qed

lemma sd_run: "run sub_step (sub_start sd_db) [Quiet, Submitted sd_id] sd_state"
  using run_more [OF sd_start sd_submit] by simp

lemma sd_apps: "app_of sd_id sd_db = Some sd_app" "\<exists>a. app_of sd_id sd_end = Some a \<and> ap_stage a = ''APPLIED'' \<and> ap_revision a = 2"
  by (simp_all add: app_of_def sd_db_def sd_end_def SUBMIT_def Let_def sd_plan_def sd_app_def sd_approval_def approval_matches_def at_revision_def)

theorem stages_follow_witness:
  "\<exists>a'. app_of sd_id (su_db sd_state) = Some a' \<and> ap_stage a' = ''APPLIED'' \<and> stage_step sd_read_state (Submitted sd_id) sd_state sd_app a'"
proof -
  have "app_change (stage_step sd_read_state (Submitted sd_id) sd_state) (su_db sd_read_state) (su_db sd_state)"
    by (rule stages_follow [OF sd_start sd_keyed sd_submit])
  moreover obtain a where "app_of sd_id sd_end = Some a" "ap_stage a = ''APPLIED''" "ap_revision a = 2" using sd_apps(2) by blast
  moreover have "su_db sd_read_state = sd_db" "su_db sd_state = sd_end" "ap_stage sd_app = ''READY''"
    by (simp_all add: sd_read_state_def sd_state_def sd_app_def)
  ultimately show ?thesis using sd_apps(1) unfolding app_change_def by fastforce
qed


theorem approval_used_once_witness:
  "length (filter (\<lambda>e. e = Submitted sd_id) [Quiet, Submitted sd_id]) \<le> 1 \<and> length (submissions sd_end) = 1"
proof
  show "length (filter (\<lambda>e. e = Submitted sd_id) [Quiet, Submitted sd_id]) \<le> 1"
    using approval_used_once [OF sd_run sd_keyed] by blast
  show "length (submissions sd_end) = 1"
    by (simp add: sd_end_def SUBMIT_def Let_def sd_plan_def sd_db_def sd_app_def sd_approval_def approval_matches_def at_revision_def)
qed

definition sd_notes :: body_values where
  "sd_notes = \<lparr>bv_values = [(''notes'', JStr ''n'')], bv_present = [''notes'']\<rparr>"

definition sd_patch :: patch_plan where
  "sd_patch = \<lparr>pp_row = sd_app\<lparr>ap_notes := ''n'', ap_updated := 5000\<rparr>, pp_event = None\<rparr>"

theorem note_stamps_stage_witness:
  "\<exists>rs db' a dto. patch_store sd_rt sd_user 1 None sd_patch sd_db = (Inr rs, db') \<and> app_of sd_id db' = Some a
     \<and> ap_entered a = Some [(''READY'', stamp 5000)] \<and> rs = data 200 dto ''q'' \<and> jget dto ''stageEnteredAt'' = JObj [(''READY'', JStr (stamp 0))]"
proof -
  have plan: "plan_patch sd_rt sd_notes False None sd_app = Inr sd_patch"
    by (simp add: plan_patch_def plan_stage_def Let_def bind_sum_def sd_notes_def value_of_def nullish_def sd_patch_def sd_rt_def)
  have none: "ap_applied (pp_row sd_patch) = None" "ap_next (pp_row sd_patch) = None" "cu_id sd_user = ''u1''" "has_entered sd_db"
    by (simp_all add: sd_patch_def sd_app_def sd_user_def sd_db_def)
  have blank: "ts dp (opt_text None) = Inr None" for dp by (simp add: ts_def opt_text_def blank_def nullish_def)
  have stmt: "PATCH_APP True sd_rt ''u1'' 1 None None sd_patch sd_db = (Inr True, snd (PATCH_APP True sd_rt ''u1'' 1 None None sd_patch sd_db))"
    and new: "map ap_revision (apps (snd (PATCH_APP True sd_rt ''u1'' 1 None None sd_patch sd_db))) = [2]"
    by (simp_all add: PATCH_APP_def Let_def sd_db_def sd_app_def sd_patch_def at_revision_def)
  obtain dto where "appDto sd_rt None ((pp_row sd_patch)\<lparr>ap_revision := 1 + 1\<rparr>) = Inr dto"
    using none by (auto simp: appDto_def bind_sum_def blank stageEnteredAt_def sd_patch_def sd_app_def)
  then have store: "patch_store sd_rt sd_user 1 None sd_patch sd_db = (Inr (data 200 dto (rr_rid sd_rt)), snd (PATCH_APP True sd_rt ''u1'' 1 None None sd_patch sd_db))"
    using stmt none by (simp add: patch_store_def seq_simps blank and_then_Inr_first [OF trans [OF loose_patch]])
  have "map ap_revision (apps sd_db) = [1]" by (simp add: sd_db_def sd_app_def)
  with new have ne: "snd (PATCH_APP True sd_rt ''u1'' 1 None None sd_patch sd_db) \<noteq> sd_db" by force
  have r: "ap_revision sd_app = 1" "ap_id sd_app = sd_id" "ap_stage sd_app = ''READY''" "ap_created sd_app = 0" "ap_entered sd_app = None" "pp_event sd_patch = None"
    "rr_now sd_rt = 5000" "rr_rid sd_rt = ''q''"
    by (simp_all add: sd_app_def sd_patch_def sd_rt_def)
  from note_stamps_stage [OF plan r(6,5) none(4) sd_keyed, unfolded r, OF sd_apps(1) store ne] store r show ?thesis by auto
qed

end
