(* ===== verification/Doc_Runs.thy ===== *)
theory Doc_Runs
  imports Doc_Share Doc_Edits Submission_Props
begin

text \<open>
  Documents under interleaved requests. Every write of a document is guarded by the revision that was
  read; the contract of such rows is the locale \<open>revised\<close>. A document becomes final only with an approval
  of exactly the version, and only final versions are exported.
\<close>

subsection \<open>Rows with a revision\<close>

locale revised =
  fixes row :: "'k \<Rightarrow> 's \<Rightarrow> 'r option" and revision :: "'r \<Rightarrow> int" and same :: "'r \<Rightarrow> 'r \<Rightarrow> bool"
  assumes same_refl: "same r r"
    and same_trans: "same a b \<Longrightarrow> same b c \<Longrightarrow> same a c"
    and same_revision: "same a b \<Longrightarrow> revision b = revision a"
begin

text \<open>What a step may do: leave a row, up to a change that writers outside the handlers make without a new
  revision, or count its revision up.\<close>

definition grown :: "'s \<Rightarrow> 's \<Rightarrow> bool" where
  "grown s s' \<longleftrightarrow> (\<forall>k r. row k s = Some r \<longrightarrow> (\<exists>r'. row k s' = Some r' \<and> (same r r' \<or> revision r < revision r')))"

text \<open>A row that was read before.\<close>

definition seen :: "'k \<Rightarrow> 'r \<Rightarrow> 's \<Rightarrow> bool" where
  "seen k r s \<longleftrightarrow> (\<exists>a. row k s = Some a \<and> (revision r < revision a \<or> same r a))"

lemma grown_refl: "grown s s"
  by (auto simp: grown_def intro: same_refl)

lemma grown_same: "(\<And>k. row k s' = row k s) \<Longrightarrow> grown s s'"
  by (auto simp: grown_def intro: same_refl)

lemma grown_row: "grown s s' \<Longrightarrow> row k s = Some r \<Longrightarrow> \<exists>r'. row k s' = Some r' \<and> revision r \<le> revision r'"
  unfolding grown_def using same_revision by fastforce

lemma seen_now: "row k s = Some r \<Longrightarrow> seen k r s"
  by (auto simp: seen_def intro: same_refl)

lemma seen_grown: "seen k r s \<Longrightarrow> grown s s' \<Longrightarrow> seen k r s'"
proof -
  assume s: "seen k r s" and g: "grown s s'"
  then obtain a where a: "row k s = Some a" "revision r < revision a \<or> same r a" by (auto simp: seen_def)
  then obtain b where b: "row k s' = Some b" "same a b \<or> revision a < revision b" using g unfolding grown_def by blast
  have "revision r < revision b \<or> same r b"
    using a(2) b(2) same_revision [of r a] same_revision [of a b] same_trans [of r a b] by (elim disjE) simp_all
  with b(1) show ?thesis by (auto simp: seen_def)
qed

text \<open>A statement that finds the revision finds the row that was read.\<close>

lemma seen_current: "seen k r s \<Longrightarrow> row k s = Some a \<Longrightarrow> revision a = revision r \<Longrightarrow> same r a"
  by (auto simp: seen_def)

lemma seen_passed: "seen k r s \<Longrightarrow> row k s = Some a \<Longrightarrow> revision r < revision a \<or> same r a"
  by (auto simp: seen_def)

end

definition doc_of :: "string \<Rightarrow> 'z app_db_scheme \<Rightarrow> doc_row option" where
  "doc_of i db = find (\<lambda>d. dc_id d = i) (docs db)"

text \<open>The one change of a document at the same revision: the AI service gives a profile that has no
  version yet its first one (\<open>services/ai/src/app/workers/handlers/ingest.py\<close>).\<close>

definition filled :: "doc_row \<Rightarrow> doc_row \<Rightarrow> bool" where
  "filled d d' \<longleftrightarrow> d' = d \<or> dc_kind d = ''HUB_PROFILE'' \<and> dc_latest d = None \<and> (\<exists>l t. d' = d\<lparr>dc_latest := l, dc_updated := t\<rparr>)"

lemma filled_same:
  assumes "filled d d'"
  shows "dc_id d' = dc_id d" "dc_user d' = dc_user d" "dc_revision d' = dc_revision d" "dc_app d' = dc_app d" "dc_kind d' = dc_kind d"
    "dc_title d' = dc_title d" "dc_template d' = dc_template d" "dc_language d' = dc_language d" "dc_status d' = dc_status d"
    "dc_final d' = dc_final d" "dc_created d' = dc_created d"
  using assms by (auto simp: filled_def)

lemma filled_trans: "filled a b \<Longrightarrow> filled b c \<Longrightarrow> filled a c"
  unfolding filled_def by auto (intro exI, rule refl)

interpretation dr: revised doc_of dc_revision filled
proof
  show "filled r r" for r by (simp add: filled_def)
  show "filled a b \<Longrightarrow> filled b c \<Longrightarrow> filled a c" for a b c by (rule filled_trans)
  show "filled a b \<Longrightarrow> dc_revision b = dc_revision a" for a b by (rule filled_same(3))
qed

definition doc_keyed :: "'z app_db_scheme \<Rightarrow> bool" where
  "doc_keyed db \<longleftrightarrow> distinct (map dc_id (docs db)) \<and> distinct (map vr_id (versions db)) \<and> distinct (map av_id (approvals db))"

lemma doc_at_of: "doc_keyed db \<Longrightarrow> doc_at i u db = Some d \<Longrightarrow> doc_of i db = Some d \<and> dc_id d = i \<and> dc_user d = u"
  unfolding doc_at_def doc_of_def doc_keyed_def using find_key [of dc_id "docs db" d] by (auto dest!: find_keyD)

lemma doc_of_id: "doc_of i db = Some d \<Longrightarrow> dc_id d = i \<and> d \<in> set (docs db)"
  by (auto simp: doc_of_def dest: find_keyD)

lemma doc_of_mem: "doc_keyed db \<Longrightarrow> d \<in> set (docs db) \<Longrightarrow> doc_of (dc_id d) db = Some d"
  unfolding doc_of_def doc_keyed_def using find_key [of dc_id "docs db" d] by auto

lemma approval_key: "doc_keyed db \<Longrightarrow> approval_at v u db = Some r \<Longrightarrow> approval_of_id v db = Some r \<and> av_id r = v \<and> av_user r = u"
  unfolding approval_at_def approval_of_id_def doc_keyed_def using find_key [of av_id "approvals db" r] by (auto dest!: find_keyD)

lemma approval_matching: "doc_keyed db \<Longrightarrow> list_ex (approval_matches v u n) (approvals db) \<longleftrightarrow> (\<exists>r. approval_of_id v db = Some r \<and> approval_matches v u n r)"
  unfolding doc_keyed_def approval_of_id_def approval_matches_def list_ex_iff by (metis find_key find_keyD)

subsection \<open>The guarded update\<close>

definition keeps_key :: "(doc_row \<Rightarrow> doc_row) \<Rightarrow> bool" where
  "keeps_key f \<longleftrightarrow> (\<forall>d. dc_id (f d) = dc_id d \<and> dc_user (f d) = dc_user d \<and> dc_kind (f d) = dc_kind d \<and> dc_revision (f d) = dc_revision d)"

lemma update_doc:
  assumes "UPDATE_DOC i u e f db = (ok, db')" and "doc_keyed db" and "keeps_key f"
  shows "docs db' = docs db \<and> \<not> ok \<or> ok \<and> (\<exists>a. doc_of i db = Some a \<and> dc_user a = u \<and> dc_revision a = e
      \<and> doc_of i db' = Some (f (a\<lparr>dc_revision := e + 1\<rparr>)) \<and> (\<forall>j. j \<noteq> i \<longrightarrow> doc_of j db' = doc_of j db))
      \<and> map dc_id (docs db') = map dc_id (docs db)"
proof -
  let ?g = "\<lambda>d. if doc_matches i u e d then f (d\<lparr>dc_revision := dc_revision d + 1\<rparr>) else d"
  have d: "ok = list_ex (doc_matches i u e) (docs db)" "docs db' = map ?g (docs db)"
    using assms(1) by (auto simp: UPDATE_DOC_def)
  have k: "dc_id (?g d) = dc_id d" for d using assms(3) by (simp add: keeps_key_def)
  have g: "doc_of j db' = map_option ?g (doc_of j db)" for j
    unfolding doc_of_def d(2) by (rule find_map_key) (rule k)
  show ?thesis
  proof (cases ok)
    case True
    then obtain a where a: "a \<in> set (docs db)" "doc_matches i u e a" using d(1) by (auto simp: list_ex_iff)
    then have i: "doc_of i db = Some a" "dc_user a = u" "dc_revision a = e"
      using doc_of_mem [OF assms(2) a(1)] by (auto simp: doc_matches_def)
    moreover have "doc_of i db' = Some (f (a\<lparr>dc_revision := e + 1\<rparr>))" using g [of i] i a(2) by simp
    moreover have "doc_of j db' = doc_of j db" if "j \<noteq> i" for j
    proof (cases "doc_of j db")
      case (Some x)
      then have "\<not> doc_matches i u e x" using that doc_of_id [OF Some] by (auto simp: doc_matches_def)
      with Some g [of j] show ?thesis by simp
    qed (use g [of j] in simp)
    ultimately show ?thesis using True k by (simp add: d(2) comp_def)
  next
    case False
    then have "\<forall>x \<in> set (docs db). ?g x = x" using d(1) by (auto simp: list_ex_iff)
    then have "map ?g (docs db) = docs db" by (auto intro: map_idI)
    with False d(2) show ?thesis by simp
  qed
qed

text \<open>A write of one document, everything else of interest being as before.\<close>

definition rest_same :: "'z doc_db_scheme \<Rightarrow> 'z doc_db_scheme \<Rightarrow> bool" where
  "rest_same db db' \<longleftrightarrow> versions db' = versions db \<and> exports db' = exports db \<and> proposals db' = proposals db \<and> approvals db' = approvals db"

definition wrote :: "string \<Rightarrow> (doc_row \<Rightarrow> bool) \<Rightarrow> (doc_row \<Rightarrow> doc_row) \<Rightarrow> 'z app_db_scheme \<Rightarrow> 'z app_db_scheme \<Rightarrow> bool" where
  "wrote i P f db db' \<longleftrightarrow> (\<exists>a. doc_of i db = Some a \<and> P a \<and> doc_of i db' = Some (f (a\<lparr>dc_revision := dc_revision a + 1\<rparr>)))
      \<and> (\<forall>j. j \<noteq> i \<longrightarrow> doc_of j db' = doc_of j db) \<and> map dc_id (docs db') = map dc_id (docs db)"

lemma wrote_update:
  "UPDATE_DOC i u e f db = (True, db') \<Longrightarrow> doc_keyed db \<Longrightarrow> keeps_key f \<Longrightarrow> wrote i (\<lambda>a. dc_user a = u \<and> dc_revision a = e) f db db'"
  by (drule update_doc) (auto simp: wrote_def)

lemma guarded_result:
  assumes "guarded_update i u e f db = (r, db')" and "doc_keyed db" and "keeps_key f"
  shows "(\<exists>x. r = Inl x \<and> db' = db) \<or> r = Inr () \<and> wrote i (\<lambda>a. dc_user a = u \<and> dc_revision a = e) f db db' \<and> rest_same db db'"
proof (cases "UPDATE_DOC i u e f db")
  case (Pair ok db1)
  show ?thesis
  proof (cases ok)
    case True
    with Pair assms have "r = Inr ()" "db' = db1" by (auto simp: guarded_update_def)
    moreover have "rest_same db db1" using Pair by (auto simp: UPDATE_DOC_def rest_same_def)
    moreover have "wrote i (\<lambda>a. dc_user a = u \<and> dc_revision a = e) f db db1"
      using Pair True wrote_update [OF _ assms(2,3)] by simp
    ultimately show ?thesis by simp
  next
    case False
    with Pair assms(1) show ?thesis by (auto simp: guarded_update_def failedUpdate_def seq_simps split: option.splits)
  qed
qed

lemma wrote_grown: "wrote i P f db db' \<Longrightarrow> keeps_key f \<Longrightarrow> dr.grown db db'"
  unfolding dr.grown_def
proof (intro allI impI)
  fix k r assume w: "wrote i P f db db'" and f: "keeps_key f" and r: "doc_of k db = Some r"
  show "\<exists>r'. doc_of k db' = Some r' \<and> (filled r r' \<or> dc_revision r < dc_revision r')"
  proof (cases "k = i")
    case True
    with w r f show ?thesis by (auto simp: wrote_def keeps_key_def)
  next
    case False
    with w r dr.same_refl show ?thesis by (auto simp: wrote_def)
  qed
qed

end
