(* ===== verification/Doc_Steps.thy ===== *)
theory Doc_Steps
  imports Doc_Runs
begin

text \<open>What the reads of the handlers of documents have seen, and what their statements do.\<close>

subsection \<open>Plans\<close>

text \<open>The row a patch writes, against the row it was read from.\<close>

definition patched :: "doc_row \<Rightarrow> doc_row \<Rightarrow> bool" where
  "patched d0 d \<longleftrightarrow> dc_id d = dc_id d0 \<and> dc_user d = dc_user d0 \<and> dc_revision d = dc_revision d0 \<and> dc_app d = dc_app d0
     \<and> dc_kind d = dc_kind d0 \<and> dc_latest d = dc_latest d0 \<and> dc_created d = dc_created d0 \<and> (dc_final d = dc_final d0 \<or> dc_final d = None)"

definition own_doc :: "string \<Rightarrow> int \<Rightarrow> doc_row \<Rightarrow> bool" where
  "own_doc u e d \<longleftrightarrow> dc_user d = u \<and> dc_revision d = e"

lemma patch_title_patched: "patch_title v d0 = Inr d \<Longrightarrow> patched d0 d"
  by (auto simp: patch_title_def patched_def split: if_splits)

lemma patch_template_patched: "patch_template v d = Inr d' \<Longrightarrow> patched d d'"
  by (auto simp: patch_template_def patched_def split: if_split_asm)

lemma patched_trans: "patched a b \<Longrightarrow> patched b c \<Longrightarrow> patched a c"
  by (auto simp: patched_def)

lemma patched_language: "patched a b \<Longrightarrow> patched a (if c then b else b\<lparr>dc_language := l\<rparr>)"
  by (simp add: patched_def)

lemma loadDocument_result: "loadDocument u i db = (Inr d, db') \<longleftrightarrow> db' = db \<and> doc_at i u db = Some d"
  by (auto simp: loadDocument_def prog_results)

lemma loadMutable_result: "loadMutable u i db = (Inr d, db') \<longleftrightarrow> db' = db \<and> doc_at i u db = Some d \<and> dc_status d \<noteq> ''ARCHIVED''"
  by (auto simp: loadMutable_def loadDocument_result prog_results)

lemma loadVersion_result: "loadVersion u i v db = (Inr r, db') \<longleftrightarrow> db' = db \<and> version_at i v u db = Some r"
  by (auto simp: loadVersion_def prog_results)

lemmas load_results = loadMutable_result loadDocument_result loadVersion_result

lemma version_at_mem: "version_at i v u db = Some r \<Longrightarrow> r \<in> set (versions db) \<and> vr_id r = v \<and> vr_doc r = i"
  by (auto simp: version_at_def dest: find_keyD)

lemma doc_at_seen: "doc_keyed db \<Longrightarrow> doc_at i u db = Some d \<Longrightarrow> dr.seen (dc_id d) d db \<and> dc_user d = u \<and> dc_id d = i"
  using doc_at_of [of db i u d] by (auto intro: dr.seen_now)

lemma patch_doc_read_seen:
  assumes "patch_doc_read rt user rq i db = (Inr (e, d), db')" and "doc_keyed db"
  shows "db' = db \<and> (\<exists>d0. dr.seen (dc_id d0) d0 db \<and> own_doc (cu_id user) e d0 \<and> patched d0 d)"
proof -
  obtain j b d0 d1 d2 where r: "db' = db" "doc_at j (cu_id user) db = Some d0" "dc_revision d0 = e" "patch_title (value_of b ''title'') d0 = Inr d1"
      "patch_template (value_of b ''template'') d1 = Inr d2"
      "d = (if nullish (value_of b ''language'') then d2 else d2\<lparr>dc_language := js_String (value_of b ''language'')\<rparr>)"
    using assms(1) unfolding patch_doc_read_def Let_def by (auto simp: prog_results load_results)
  have "patched d0 d" unfolding r(6)
    by (rule patched_language [OF patched_trans [OF patch_title_patched [OF r(4)] patch_template_patched [OF r(5)]]])
  with r(1-3) doc_at_seen [OF assms(2) r(2)] show ?thesis by (auto simp: own_doc_def)
qed

text \<open>A version that is to be saved.\<close>

definition save_seen :: "string \<Rightarrow> save_plan \<Rightarrow> 'z app_db_scheme \<Rightarrow> bool" where
  "save_seen u p db \<longleftrightarrow> dr.seen (dc_id (sv_doc p)) (sv_doc p) db \<and> own_doc u (sv_expected p) (sv_doc p)"

lemma verifyBlocks_result: "verifyBlocks u bs db = (Inr (bs', es), db') \<longleftrightarrow> db' = db \<and> list_all (\<lambda>i. parseUuid i \<noteq> None) (wanted_ids bs)
     \<and> each (verify_block (\<lambda>i. evidence_for u i db)) bs = Inr bs' \<and> es = wanted_ids bs"
  by (auto simp: verifyBlocks_def prog_results)

lemma check_save_result:
  "check_save u p db = (Inr q, db') \<Longrightarrow> db' = db \<and> sv_doc q = sv_doc p \<and> sv_expected q = sv_expected p \<and> sv_content q = sv_content p \<and> sv_proposal q = sv_proposal p"
  by (auto simp: check_save_def prog_results verifyBlocks_result split: prod.splits)

lemma version_read_seen:
  assumes "version_read rt user rq i db = (Inr q, db')" and "doc_keyed db"
  shows "db' = db \<and> save_seen (cu_id user) q db \<and> sv_proposal q = None"
proof -
  obtain j b bs d where r: "doc_at j (cu_id user) db = Some d" "dc_revision d = int_value (value_of b ''expectedRevision'')"
      "check_save (cu_id user) \<lparr>sv_doc = d, sv_expected = dc_revision d, sv_content = value_of b ''content'', sv_blocks = bs,
         sv_note = or_blank (value_of b ''changeNote''), sv_proposal = None\<rparr> db = (Inr q, db')"
    using assms(1) unfolding version_read_def Let_def by (auto simp: prog_results load_results)
  from check_save_result [OF r(3)] doc_at_seen [OF assms(2) r(1)] show ?thesis by (auto simp: save_seen_def own_doc_def)
qed

lemma edits_read_seen:
  assumes "edits_read rt user rq i db = (Inr q, db')" and "doc_keyed db"
  shows "db' = db \<and> save_seen (cu_id user) q db \<and> sv_proposal q = None"
proof -
  obtain j d c bs where r: "doc_at j (cu_id user) db = Some d"
      "check_save (cu_id user) \<lparr>sv_doc = d, sv_expected = dc_revision d, sv_content = c, sv_blocks = bs,
         sv_note = ''applied chat edit'', sv_proposal = None\<rparr> db = (Inr q, db')"
    using assms(1) unfolding edits_read_def Let_def by (auto simp: prog_results load_results)
  from check_save_result [OF r(2)] doc_at_seen [OF assms(2) r(1)] show ?thesis by (auto simp: save_seen_def own_doc_def)
qed

lemma apply_read_seen:
  assumes "apply_read rt user rq i pr db = (Inr q, db')" and "doc_keyed db"
  shows "db' = db \<and> save_seen (cu_id user) q db
    \<and> (\<exists>r \<in> set (proposals db). sv_proposal q = Some (pr_id r) \<and> pr_user r = cu_id user \<and> pr_doc r = dc_id (sv_doc q)
         \<and> pr_source_revision r = sv_expected q \<and> pr_applied r = None)"
proof -
  obtain j pid d p c bs where r: "doc_at j (cu_id user) db = Some d" "proposal_at pid j (cu_id user) db = Some p" "pr_applied p = None" "pr_source_revision p = dc_revision d"
      "check_save (cu_id user) \<lparr>sv_doc = d, sv_expected = dc_revision d, sv_content = c, sv_blocks = bs,
         sv_note = ''applied proposal '' @ pid, sv_proposal = Some pid\<rparr> db = (Inr q, db')"
    using assms(1) unfolding apply_read_def Let_def by (auto simp: prog_results load_results)
  have p: "p \<in> set (proposals db)" "pr_id p = pid" "pr_user p = cu_id user" "pr_doc p = j" using r(2) by (auto simp: proposal_at_def dest: find_keyD)
  from check_save_result [OF r(5)] doc_at_seen [OF assms(2) r(1)] p r(3,4) show ?thesis by (auto simp: save_seen_def own_doc_def)
qed

text \<open>An approval that covers the version.\<close>

definition supported_form :: "block list \<Rightarrow> block list" where
  "supported_form bs = map (\<lambda>b. b\<lparr>bk_status := ''SUPPORTED''\<rparr>) bs"

definition covers_version :: "route_rt \<Rightarrow> string option \<Rightarrow> version_row \<Rightarrow> approval_row \<Rightarrow> bool" where
  "covers_version rt app v r \<longleftrightarrow> av_kind r = ''DOCUMENT_FINALIZE'' \<and> av_app r = app \<and> av_target r = vr_id v \<and> av_status r = ''APPROVED''
     \<and> av_hash r = finalize_hash rt (vr_id v) (vr_content v) (supported_form (blocksOf (vr_blocks v)))"

lemma verify_block_form: "verify_block ev b = Inr b' \<Longrightarrow> b' = b\<lparr>bk_status := bk_status b'\<rparr>"
  by (auto simp: verify_block_def bind_sum_Inr split: if_splits)

lemma verified_form:
  "each (verify_block ev) bs = Inr bs' \<Longrightarrow> unsupported bs' = Inr () \<Longrightarrow> bs' = supported_form bs"
proof (induction bs arbitrary: bs')
  case (Cons b bs)
  then obtain c cs where c: "verify_block ev b = Inr c" "each (verify_block ev) bs = Inr cs" "bs' = c # cs" by (auto split: sum.splits)
  with Cons.prems(2) have "bk_status c = ''SUPPORTED''" "unsupported cs = Inr ()" by (auto simp: unsupported_def split: if_splits)
  with c Cons.IH verify_block_form [OF c(1)] show ?case by (auto simp: supported_form_def)
qed (simp add: supported_form_def)

lemma check_approval_covers: "check_approval rt app v (supported_form (blocksOf (vr_blocks v))) r = Inr () \<Longrightarrow> covers_version rt app v r"
  by (auto simp: check_approval_def covers_version_def bind_sum_Inr split: if_split_asm)

definition final_version :: "route_rt \<Rightarrow> final_plan \<Rightarrow> approval_row \<Rightarrow> 'z app_db_scheme \<Rightarrow> bool" where
  "final_version rt p r db \<longleftrightarrow> (\<exists>v \<in> set (versions db). vr_id v = fp_version p \<and> vr_doc v = dc_id (fp_doc p) \<and> covers_version rt (dc_app (fp_doc p)) v r)"

definition final_seen :: "route_rt \<Rightarrow> string \<Rightarrow> final_plan \<Rightarrow> 'z app_db_scheme \<Rightarrow> bool" where
  "final_seen rt u p db \<longleftrightarrow> dr.seen (dc_id (fp_doc p)) (fp_doc p) db \<and> own_doc u (fp_expected p) (fp_doc p)
     \<and> (\<exists>r. approval_of_id (fp_approval p) db = Some r \<and> (fp_revision p < av_revision r \<or> av_revision r = fp_revision p \<and> av_user r = u \<and> final_version rt p r db))"

lemma final_read_seen:
  assumes "final_read rt user rq i db = (Inr q, db')" and "doc_keyed db"
  shows "db' = db \<and> final_seen rt (cu_id user) q db"
proof -
  obtain j vid ap d v bs es r where f: "db' = db" "doc_at j (cu_id user) db = Some d" "version_at j vid (cu_id user) db = Some v"
      "each (verify_block (\<lambda>i. evidence_for (cu_id user) i db)) (blocksOf (vr_blocks v)) = Inr bs" "unsupported bs = Inr ()"
      "approval_at ap (cu_id user) db = Some r" "check_approval rt (dc_app d) v bs r = Inr ()"
      "q = \<lparr>fp_doc = d, fp_expected = dc_revision d, fp_version = vid, fp_approval = ap, fp_revision = av_revision r\<rparr>"
    using assms(1) unfolding final_read_def Let_def by (auto simp: prog_results load_results verifyBlocks_result split: prod.splits)
  have c: "covers_version rt (dc_app d) v r" using check_approval_covers f(7) verified_form [OF f(4,5)] by simp
  show ?thesis
    using f c doc_at_seen [OF assms(2) f(2)] version_at_mem [OF f(3)] approval_key [OF assms(2) f(6)]
    by (auto simp: final_seen_def own_doc_def final_version_def)
qed

lemma archive_read_seen:
  assumes "archive_read rt user rq i db = (Inr (e, d), db')" and "doc_keyed db"
  shows "db' = db \<and> dr.seen (dc_id d) d db \<and> own_doc (cu_id user) e d"
  using assms(1) doc_at_seen [OF assms(2)] unfolding archive_read_def Let_def
  by (auto simp: prog_results load_results own_doc_def)

lemma export_read_seen:
  assumes "export_read rt user rq i db = (Inr e, db')" and "doc_keyed db"
  shows "db' = db \<and> (\<exists>d v f g. doc_of (dc_id d) db = Some d \<and> v \<in> set (versions db) \<and> vr_doc v = dc_id d \<and> exportable d v
     \<and> e = new_export rt (cu_id user) f g d v)"
proof -
  obtain j vid d v f g where r: "db' = db" "doc_at j (cu_id user) db = Some d" "version_at j vid (cu_id user) db = Some v" "exportable d v"
      "e = new_export rt (cu_id user) f g d v"
    using assms(1) unfolding export_read_def Let_def by (auto simp: prog_results load_results)
  with doc_at_of [OF assms(2) r(2)] version_at_mem [OF r(3)] show ?thesis by blast
qed

end
