(* ===== verification/Doc_System.thy ===== *)
theory Doc_System
  imports Doc_Steps
begin

text \<open>What the statements of the handlers of documents do, and the system of their interleavings.\<close>

subsection \<open>Effects of the statements\<close>

definition core_same :: "'z doc_db_scheme \<Rightarrow> 'z doc_db_scheme \<Rightarrow> bool" where
  "core_same db db' \<longleftrightarrow> docs db' = docs db \<and> rest_same db db'"

lemma core_same_refl: "core_same db db"
  by (simp add: core_same_def rest_same_def)

lemma core_same_trans: "core_same a b \<Longrightarrow> core_same b c \<Longrightarrow> core_same a c"
  by (simp add: core_same_def rest_same_def)

lemma on_jobs_same: "on_jobs m db = (r, db') \<Longrightarrow> core_same db db'"
  by (auto simp: on_jobs_def core_same_def rest_same_def split: prod.splits)

lemma wrote_core: "wrote i P f db db1 \<Longrightarrow> core_same db1 db2 \<Longrightarrow> wrote i P f db db2"
  by (simp add: wrote_def core_same_def doc_of_def)

definition saved_as :: "route_rt \<Rightarrow> string \<Rightarrow> save_plan \<Rightarrow> 'z doc_db_scheme \<Rightarrow> 'z doc_db_scheme \<Rightarrow> bool" where
  "saved_as rt u p db db' \<longleftrightarrow> wrote (dc_id (sv_doc p)) (own_doc u (sv_expected p)) (moved_on rt) db db'
     \<and> versions db' = versions db @ [version_of rt u p (next_number (dc_id (sv_doc p)) db)]
     \<and> exports db' = exports db \<and> approvals db' = approvals db
     \<and> proposals db' = map (\<lambda>r. if Some (pr_id r) = sv_proposal p \<and> pr_user r = u then r\<lparr>pr_applied := Some (rr_now rt)\<rparr> else r) (proposals db)"

lemma moved_on_keeps: "keeps_key (moved_on rt)"
  by (simp add: keeps_key_def moved_on_def)

lemma own_doc_fun: "own_doc u e = (\<lambda>d. dc_user d = u \<and> dc_revision d = e)"
  by (simp add: own_doc_def fun_eq_iff)

lemma save_version_result:
  assumes "SAVE_VERSION rt u p db = (r, db1)" and "doc_keyed db"
  shows "(r = Inr None \<and> db1 = db) \<or> (r = Inr (Some (next_number (dc_id (sv_doc p)) db)) \<and> saved_as rt u p db db1)"
proof (cases "UPDATE_DOC (dc_id (sv_doc p)) u (sv_expected p) (moved_on rt) db")
  case (Pair ok db0)
  show ?thesis
  proof (cases ok)
    case True
    have w: "wrote (dc_id (sv_doc p)) (own_doc u (sv_expected p)) (moved_on rt) db db0"
      using Pair True wrote_update [OF _ assms(2) moved_on_keeps] by (simp add: own_doc_fun)
    have s: "versions db0 = versions db" "exports db0 = exports db" "approvals db0 = approvals db" "proposals db0 = proposals db"
      using Pair by (auto simp: UPDATE_DOC_def)
    have d: "docs db1 = docs db0" and r: "r = Inr (Some (next_number (dc_id (sv_doc p)) db))"
      using assms(1) Pair True by (auto simp: SAVE_VERSION_def Let_def)
    have "wrote (dc_id (sv_doc p)) (own_doc u (sv_expected p)) (moved_on rt) db db1"
      using w d by (simp add: wrote_def doc_of_def)
    then show ?thesis
      using assms(1) Pair True s r by (auto simp: SAVE_VERSION_def Let_def saved_as_def)
  next
    case False
    with assms(1) Pair show ?thesis by (auto simp: SAVE_VERSION_def Let_def)
  qed
qed

lemma saved_core: "saved_as rt u p db db1 \<Longrightarrow> core_same db1 db2 \<Longrightarrow> saved_as rt u p db db2"
  using wrote_core [of _ _ _ db db1 db2] by (auto simp: saved_as_def core_same_def rest_same_def)

lemma save_store_result:
  assumes "save_store rt jc user st p db = (r, db')" and "doc_keyed db"
  shows "(db' = db \<and> (\<exists>x. r = Inl x) \<and> SAVE_VERSION rt (cu_id user) p db = (Inr None, db))
    \<or> (saved_as rt (cu_id user) p db db' \<and> fst (SAVE_VERSION rt (cu_id user) p db) = Inr (Some (next_number (dc_id (sv_doc p)) db))
       \<and> (\<forall>rs. r = Inr rs \<longrightarrow> rs = data st (saved_json rt (cu_id user) p (next_number (dc_id (sv_doc p)) db)) (rr_rid rt)))"
proof (cases "SAVE_VERSION rt (cu_id user) p db")
  case (Pair q db1)
  from save_version_result [OF Pair assms(2)] show ?thesis
  proof
    assume "q = Inr None \<and> db1 = db"
    with Pair assms(1) show ?thesis
      by (auto simp: save_store_def failedUpdate_def and_then_def reading_def split: option.splits)
  next
    let ?n = "next_number (dc_id (sv_doc p)) db"
    assume q: "q = Inr (Some ?n) \<and> saved_as rt (cu_id user) p db db1"
    obtain j db2 where j: "on_jobs (enqueueIngest (rr_uuid rt 1) (rr_uuid rt 2) jc (JObj [(''documentId'', JStr (dc_id (sv_doc p)))])) db1 = (j, db2)"
      by (metis surj_pair)
    have "db' = db2 \<and> (\<forall>rs. r = Inr rs \<longrightarrow> rs = data st (saved_json rt (cu_id user) p ?n) (rr_rid rt))"
      using assms(1) Pair q j by (auto simp: save_store_def and_then_def split: sum.splits)
    with saved_core on_jobs_same [OF j] q Pair show ?thesis by auto
  qed
qed

lemma consume_consumes:
  assumes "approvals db' = consume v u n now (approvals db)" and "approval_of_id v db = Some r" and "approval_matches v u n r"
  shows "consumes v u n db db'" and "map av_id (approvals db') = map av_id (approvals db)"
proof -
  let ?g = "\<lambda>r. if approval_matches v u n r then r\<lparr>av_revision := av_revision r + 1, av_status := ''CONSUMED'', av_consumed := Some now, av_updated := now\<rparr> else r"
  have a: "approvals db' = map ?g (approvals db)" using assms(1) by (simp add: consume_def)
  show "map av_id (approvals db') = map av_id (approvals db)" by (simp add: a comp_def)
  have g: "approval_of_id w db' = map_option ?g (approval_of_id w db)" for w
    unfolding approval_of_id_def a by (rule find_map_key) simp
  show "consumes v u n db db'"
    unfolding consumes_def
  proof (intro conjI allI impI)
    show "\<exists>r. approval_of_id v db = Some r \<and> approval_matches v u n r" using assms(2,3) by blast
    fix w q assume q: "approval_of_id w db = Some q"
    then have w: "av_id q = w" by (auto simp: approval_of_id_def dest: find_keyD)
    show "\<exists>r'. approval_of_id w db' = Some r' \<and> (if w = v then av_revision r' = n + 1 \<and> av_status r' = ''CONSUMED'' else r' = q)"
    proof (cases "w = v")
      case True
      with q assms(2) have "q = r" by simp
      with True assms(3) q g [of w] show ?thesis by (auto simp: approval_matches_def)
    next
      case False
      with q w g [of w] show ?thesis by (auto simp: approval_matches_def)
    qed
  qed
qed

definition finalizing :: "route_rt \<Rightarrow> string \<Rightarrow> doc_row \<Rightarrow> doc_row" where
  "finalizing rt v d = d\<lparr>dc_status := ''FINALIZED'', dc_final := Some v, dc_updated := rr_now rt\<rparr>"

definition finalized_as :: "route_rt \<Rightarrow> string \<Rightarrow> final_plan \<Rightarrow> 'z doc_db_scheme \<Rightarrow> 'z doc_db_scheme \<Rightarrow> bool" where
  "finalized_as rt u p db db' \<longleftrightarrow> wrote (dc_id (fp_doc p)) (own_doc u (fp_expected p)) (finalizing rt (fp_version p)) db db'
     \<and> versions db' = versions db \<and> exports db' = exports db \<and> proposals db' = proposals db
     \<and> consumes (fp_approval p) u (fp_revision p) db db' \<and> map av_id (approvals db') = map av_id (approvals db)"

lemma final_store_result:
  assumes "final_store rt user p db = (r, db')" and "doc_keyed db"
  shows "(db' = db \<and> (\<exists>x. r = Inl x)) \<or> (finalized_as rt (cu_id user) p db db'
     \<and> r = Inr (data 200 (documentDto (finalizing rt (fp_version p) ((fp_doc p)\<lparr>dc_revision := fp_expected p + 1\<rparr>))) (rr_rid rt)))"
proof (cases "list_ex (approval_matches (fp_approval p) (cu_id user) (fp_revision p)) (approvals db)
    \<and> fst (UPDATE_DOC (dc_id (fp_doc p)) (cu_id user) (fp_expected p) (finalizing rt (fp_version p)) db)")
  case True
  let ?u = "UPDATE_DOC (dc_id (fp_doc p)) (cu_id user) (fp_expected p) (finalizing rt (fp_version p)) db"
  obtain db1 where u: "?u = (True, db1)" using True by (cases ?u) auto
  let ?db2 = "db1\<lparr>approvals := consume (fp_approval p) (cu_id user) (fp_revision p) (rr_now rt) (approvals db1),
          app_events := app_events db1 @ finalized_event rt (cu_id user) p\<rparr>"
  have "FINALIZE rt (cu_id user) p db = (Inr True, ?db2)"
    using True u by (simp add: FINALIZE_def finalizing_def [abs_def])
  then have f: "db' = ?db2" "r = Inr (data 200 (documentDto (finalizing rt (fp_version p) ((fp_doc p)\<lparr>dc_revision := fp_expected p + 1\<rparr>))) (rr_rid rt))"
    using assms(1) by (auto simp: final_store_def and_then_def finalizing_def)
  have s: "versions db1 = versions db" "exports db1 = exports db" "approvals db1 = approvals db" "proposals db1 = proposals db"
    using u by (auto simp: UPDATE_DOC_def)
  have w: "wrote (dc_id (fp_doc p)) (own_doc (cu_id user) (fp_expected p)) (finalizing rt (fp_version p)) db db1"
    using wrote_update [OF u assms(2)] by (simp add: own_doc_fun keeps_key_def finalizing_def)
  have w': "wrote (dc_id (fp_doc p)) (own_doc (cu_id user) (fp_expected p)) (finalizing rt (fp_version p)) db db'"
    using w by (simp add: f(1) wrote_def doc_of_def)
  obtain q where q: "approval_of_id (fp_approval p) db = Some q" "approval_matches (fp_approval p) (cu_id user) (fp_revision p) q"
    using True approval_matching [OF assms(2)] by blast
  have a: "approvals db' = consume (fp_approval p) (cu_id user) (fp_revision p) (rr_now rt) (approvals db)" by (simp add: f(1) s)
  show ?thesis
    using w' s f(2) consume_consumes [OF a q] by (simp add: finalized_as_def f(1))
next
  case False
  then have "FINALIZE rt (cu_id user) p db = (Inr False, db)"
    by (auto simp: FINALIZE_def finalizing_def [abs_def] split: prod.splits)
  with assms(1) show ?thesis
    by (auto simp: final_store_def and_then_def loadDocument_def failedUpdate_def reading_def from_option_def guard_def split: option.splits if_splits)
qed

definition patching :: "route_rt \<Rightarrow> doc_row \<Rightarrow> doc_row \<Rightarrow> doc_row" where
  "patching rt d r = r\<lparr>dc_title := dc_title d, dc_template := dc_template d,
     dc_language := dc_language d, dc_status := dc_status d, dc_latest := dc_latest d, dc_final := dc_final d, dc_updated := rr_now rt\<rparr>"

lemma patching_keeps: "keeps_key (patching rt d)"
  by (simp add: keeps_key_def patching_def)

lemma patch_doc_store_result:
  assumes "patch_doc_store rt user e d db = (r, db')" and "doc_keyed db"
  shows "(db' = db \<and> (\<exists>x. r = Inl x)) \<or> (wrote (dc_id d) (own_doc (cu_id user) e) (patching rt d) db db' \<and> rest_same db db'
     \<and> r = Inr (data 200 (documentDto (d\<lparr>dc_revision := e + 1, dc_updated := rr_now rt\<rparr>)) (rr_rid rt)))"
proof (cases "guarded_update (dc_id d) (cu_id user) e (patching rt d) db")
  case (Pair q db1)
  then have "patch_doc_store rt user e d db = (case q of Inl x \<Rightarrow> (Inl x, db1)
      | Inr _ \<Rightarrow> (Inr (data 200 (documentDto (d\<lparr>dc_revision := e + 1, dc_updated := rr_now rt\<rparr>)) (rr_rid rt)), db1))"
    by (auto simp: patch_doc_store_def and_then_def patching_def [abs_def] split: sum.split)
  with guarded_result [OF Pair assms(2) patching_keeps] assms(1) show ?thesis
    by (auto simp: own_doc_fun)
qed

definition archiving :: "route_rt \<Rightarrow> doc_row \<Rightarrow> doc_row" where
  "archiving rt d = d\<lparr>dc_status := ''ARCHIVED'', dc_updated := rr_now rt\<rparr>"

lemma archiving_keeps: "keeps_key (archiving rt)"
  by (simp add: keeps_key_def archiving_def)

lemma archive_store_result:
  assumes "archive_store rt user e d db = (r, db')" and "doc_keyed db"
  shows "(db' = db \<and> (dc_status d = ''ARCHIVED'' \<and> r = Inr (data 200 (documentDto d) (rr_rid rt)) \<or> (\<exists>x. r = Inl x)))
     \<or> (wrote (dc_id d) (own_doc (cu_id user) e) (archiving rt) db db' \<and> rest_same db db'
     \<and> r = Inr (data 200 (documentDto (archiving rt (d\<lparr>dc_revision := e + 1\<rparr>))) (rr_rid rt)))"
proof (cases "dc_status d = ''ARCHIVED''")
  case False
  show ?thesis
  proof (cases "guarded_update (dc_id d) (cu_id user) e (archiving rt) db")
    case (Pair q db1)
    then have "archive_store rt user e d db = (case q of Inl x \<Rightarrow> (Inl x, db1)
        | Inr _ \<Rightarrow> (Inr (data 200 (documentDto (archiving rt (d\<lparr>dc_revision := e + 1\<rparr>))) (rr_rid rt)), db1))"
      using False by (auto simp: archive_store_def and_then_def archiving_def [abs_def] archiving_def split: sum.split)
    with guarded_result [OF Pair assms(2) archiving_keeps] assms(1) show ?thesis
      by (auto simp: own_doc_fun)
  qed
qed (use assms(1) in \<open>simp add: archive_store_def\<close>)

end
