(* ===== verification/Doc_Interleave.thy ===== *)
theory Doc_Interleave
  imports Doc_System
begin

text \<open>The system of interleaved requests on documents, and its invariant.\<close>

subsection \<open>New documents, conversions, results of exports\<close>

text \<open>A new document: without versions, or with its first one.\<close>

definition first_version :: "doc_row \<Rightarrow> string \<Rightarrow> version_row list \<Rightarrow> bool" where
  "first_version d vid vs \<longleftrightarrow> dc_final d = None
     \<and> (vs = [] \<and> dc_latest d = None
        \<or> (\<exists>v. vs = [v] \<and> vr_id v = vid \<and> vr_doc v = dc_id d \<and> vr_number v = 1 \<and> dc_latest d = Some vid))"

definition adds_doc :: "route_rt \<Rightarrow> 'z doc_db_scheme \<Rightarrow> 'z doc_db_scheme \<Rightarrow> bool" where
  "adds_doc rt db db' \<longleftrightarrow> (\<exists>d vs. docs db' = docs db @ [d] \<and> versions db' = versions db @ vs \<and> dc_id d = rr_uuid rt 0
     \<and> first_version d (rr_uuid rt 1) vs \<and> exports db' = exports db \<and> proposals db' = proposals db \<and> approvals db' = approvals db)"

text \<open>The move of a profile document to an application.\<close>

definition moves_app :: "'z doc_db_scheme \<Rightarrow> 'z doc_db_scheme \<Rightarrow> bool" where
  "moves_app db db' \<longleftrightarrow> (\<exists>i P a now. wrote i P (\<lambda>r. r\<lparr>dc_app := Some a, dc_updated := now\<rparr>) db db' \<and> rest_same db db')"

definition conv :: "route_rt \<Rightarrow> 'z doc_db_scheme \<Rightarrow> 'z doc_db_scheme \<Rightarrow> bool" where
  "conv rt db db' \<longleftrightarrow> core_same db db' \<or> adds_doc rt db db' \<or> (doc_keyed db \<longrightarrow> moves_app db db')"

interpretation conv: touch "conv rt" for rt
  by unfold_locales (simp add: conv_def core_same_refl)

interpretation core: stable core_same
  by unfold_locales (auto simp: core_same_refl intro: core_same_trans)

lemma adds_core: "adds_doc rt a b \<Longrightarrow> core_same b c \<Longrightarrow> adds_doc rt a c"
  unfolding adds_doc_def core_same_def rest_same_def by metis

lemma profile_adds: "moves (adds_doc rt) (insertProfileDocument rt user title version)"
  unfolding moves_def insertProfileDocument_def Let_def
  by (auto simp: seq_simps adds_doc_def first_version_def profile_doc_def new_doc_def source_version_def split: option.split)

lemma conv_then_core: "moves (adds_doc rt) m \<Longrightarrow> (\<And>a. moves core_same (f a)) \<Longrightarrow> moves (conv rt) (and_then m f)"
  unfolding moves_def and_then_def conv_def
  by (auto split: sum.split prod.split) (metis snd_conv adds_core)+

lemma jobs_core: "moves core_same (on_jobs m)"
  unfolding moves_def by (metis on_jobs_same prod.collapse)

lemma source_conv: "moves (conv rt) (convertOwnedSource rt jc src user i)"
proof -
  have quiet: "moves core_same (ret x)" for x by (rule core.m_quiet)
  show ?thesis
    unfolding convertOwnedSource_def Let_def
    by (intro conv.m_last reads_only)
      (auto intro!: conv_then_core [OF profile_adds] quiet core.m_then jobs_core)
qed

definition quiet_copy :: "'z profile_copy \<Rightarrow> bool" where
  "quiet_copy copy \<longleftrightarrow> (\<forall>d sections. moves core_same (copy d sections))"

lemma core_conv: "moves core_same m \<Longrightarrow> moves (conv rt) m"
  by (simp add: moves_def conv_def)

lemma guarded_conv: "moves (conv rt :: 'z doc_db_scheme \<Rightarrow> _) (guarded_update i u e (\<lambda>r. r\<lparr>dc_app := Some a, dc_updated := now\<rparr>))"
  unfolding moves_def conv_def
proof
  fix db :: "'z doc_db_scheme"
  obtain r db' where g: "guarded_update i u e (\<lambda>r. r\<lparr>dc_app := Some a, dc_updated := now\<rparr>) db = (r, db')" by (metis surj_pair)
  have "core_same db db' \<or> moves_app db db'" if "doc_keyed db"
    using guarded_result [OF g that] by (auto simp: keeps_key_def moves_app_def core_same_refl)
  with g show "core_same db (snd (guarded_update i u e (\<lambda>r. r\<lparr>dc_app := Some a, dc_updated := now\<rparr>) db))
     \<or> adds_doc rt db (snd (guarded_update i u e (\<lambda>r. r\<lparr>dc_app := Some a, dc_updated := now\<rparr>) db))
     \<or> (doc_keyed db \<longrightarrow> moves_app db (snd (guarded_update i u e (\<lambda>r. r\<lparr>dc_app := Some a, dc_updated := now\<rparr>) db)))"
    by auto
qed

lemma hub_conv: "quiet_copy copy \<Longrightarrow> moves (conv rt) (convertHubDocument copy rt user d target b)"
proof -
  assume q: "quiet_copy copy"
  have c: "moves (conv rt) (and_then (copy d x) (\<lambda>c. ret (f c)))" for x f
    using q by (intro core_conv core.m_then) (auto simp: quiet_copy_def core.m_quiet)
  show ?thesis
    unfolding convertHubDocument_def loadApp_def Let_def
    by (auto intro!: conv.m_guard conv.m_last [OF reads_only(5)] conv.m_last [OF reads_only(1)] reads_only conv.m_first [OF guarded_conv] c conv.m_quiet)
qed

lemma convert_conv: "quiet_copy copy \<Longrightarrow> moves (conv rt) (convertProfile copy src rt jc user rq i)"
  unfolding convertProfile_def Let_def
  by (intro conv.m_last conv.m_guard reads_only) (auto intro: hub_conv source_conv split: option.split)

lemma create_conv: "moves (conv rt) (createDocument rt user rq)"
proof -
  have w: "moves (conv rt) (writing (\<lambda>db. db\<lparr>docs := docs db @ [new_doc rt user a t k tp l]\<rparr>))" for a t k tp l
    by (auto simp: moves_def writing_def conv_def adds_doc_def first_version_def new_doc_def)
  show ?thesis
    unfolding createDocument_def loadApp_def Let_def
    by (auto intro!: conv.m_guard conv.m_last [OF reads_only(5)] conv.m_last [OF reads_only(1)] reads_only conv.m_first [OF w] conv.m_quiet)
qed

definition export_key :: "export_row \<Rightarrow> string \<times> string \<times> jv" where
  "export_key e = (ex_doc e, ex_version e, ex_content e)"

text \<open>What leaves documents, versions and the identity of exports as they are.\<close>

definition result_same :: "'z doc_db_scheme \<Rightarrow> 'z doc_db_scheme \<Rightarrow> bool" where
  "result_same db db' \<longleftrightarrow> docs db' = docs db \<and> versions db' = versions db \<and> proposals db' = proposals db \<and> approvals db' = approvals db
     \<and> map export_key (exports db') = map export_key (exports db)"

interpretation result: stable result_same
  by unfold_locales (auto simp: result_same_def)

lemma record_same: "moves result_same (recordExportResult rt user rq i x)"
proof -
  have r: "moves result_same (RECORD_RESULT row)" for row
    by (auto simp: moves_def RECORD_RESULT_def result_same_def export_key_def)
  have m: "moves (=) m \<Longrightarrow> moves result_same m" for m by (auto simp: moves_def result_same_def)
  show ?thesis
    unfolding recordExportResult_def result_store_def result_read_def Let_def
    by (intro result.m_then result.m_guard r result.m_quiet)
qed

subsection \<open>The system\<close>

record doc_system =
  ds_db :: doc_db
  ds_patches :: "(route_rt \<times> user_row \<times> int \<times> doc_row) set"
  ds_saves :: "(route_rt \<times> job_ctx \<times> user_row \<times> int \<times> save_plan) set"
  ds_finals :: "(route_rt \<times> user_row \<times> final_plan) set"
  ds_archives :: "(route_rt \<times> user_row \<times> int \<times> doc_row) set"
  ds_exports :: "(route_rt \<times> export_row) set"

datatype doc_event = Silent | Finalized route_rt string string | Applied string

definition save_event :: "core_exn + int option \<Rightarrow> save_plan \<Rightarrow> doc_event" where
  "save_event r p = (case (r, sv_proposal p) of (Inr (Some _), Some q) \<Rightarrow> Applied q | _ \<Rightarrow> Silent)"

text \<open>The identifiers a request draws are new.\<close>

definition fresh :: "route_rt \<Rightarrow> doc_db \<Rightarrow> bool" where
  "fresh rt db \<longleftrightarrow> doc_of (rr_uuid rt 0) db = None \<and> {rr_uuid rt 0, rr_uuid rt 1} \<inter> vr_id ` set (versions db) = {}"

text \<open>\<open>_fill_profile_document\<close> of the AI service (\<open>services/ai/src/app/workers/handlers/ingest.py\<close>): the first
  version of a profile document that was created without one. The statement does not look at the
  revision of the document and leaves it as it is; where a version number 1 exists already, the unique
  constraint on document and number refuses the row.\<close>

definition FILL_PROFILE :: "string \<Rightarrow> string \<Rightarrow> string \<Rightarrow> jv \<Rightarrow> jv \<Rightarrow> jv \<Rightarrow> int \<Rightarrow> doc_db \<Rightarrow> doc_db" where
  "FILL_PROFILE u i vid content blocks quality now db =
     (if list_ex (\<lambda>v. vr_doc v = i \<and> vr_number v = 1) (versions db) then db
      else db\<lparr>versions := versions db @ [\<lparr>vr_id = vid, vr_user = u, vr_doc = i, vr_app = None, vr_number = 1, vr_content = content,
               vr_blocks = blocks, vr_note = ''source'', vr_quality = quality, vr_created = now\<rparr>],
             docs := map (\<lambda>d. if dc_id d = i \<and> dc_user d = u then d\<lparr>dc_latest := Some vid, dc_updated := now\<rparr> else d) (docs db)\<rparr>)"

text \<open>Everything else: other tables may change, approvals be decided, proposals be made. The document
  service of the AI service (\<open>domain/services/document.py\<close>) is not among it: its writes of documents and
  versions are not modelled.\<close>

definition elsewhere :: "doc_db \<Rightarrow> doc_db \<Rightarrow> bool" where
  "elsewhere db db' \<longleftrightarrow> docs db' = docs db \<and> versions db' = versions db \<and> exports db' = exports db
     \<and> approvals_later db db' \<and> distinct (map av_id (approvals db'))
     \<and> distinct (map pr_id (proposals db')) \<and> set (proposals db) \<subseteq> set (proposals db')"

text \<open>The steps. A fill is queued by the conversion of a source for the profile document it has just created,
  so it names a profile document of the user.\<close>

inductive doc_step :: "doc_system \<Rightarrow> doc_event \<Rightarrow> doc_system \<Rightarrow> bool" where
  D_create: "createDocument rt user rq (ds_db s) = (r, db') \<Longrightarrow> fresh rt (ds_db s) \<Longrightarrow> doc_step s Silent (s\<lparr>ds_db := db'\<rparr>)"
| D_convert: "convertProfile copy src rt jc user rq i (ds_db s) = (r, db') \<Longrightarrow> quiet_copy copy \<Longrightarrow> fresh rt (ds_db s) \<Longrightarrow>
     doc_step s Silent (s\<lparr>ds_db := db'\<rparr>)"
| D_patch_read: "patch_doc_read rt user rq i (ds_db s) = (Inr (e, d), db') \<Longrightarrow>
     doc_step s Silent (s\<lparr>ds_db := db', ds_patches := insert (rt, user, e, d) (ds_patches s)\<rparr>)"
| D_patch: "(rt, user, e, d) \<in> ds_patches s \<Longrightarrow> patch_doc_store rt user e d (ds_db s) = (r, db') \<Longrightarrow> doc_step s Silent (s\<lparr>ds_db := db'\<rparr>)"
| D_version_read: "version_read rt user rq i (ds_db s) = (Inr p, db') \<Longrightarrow>
     doc_step s Silent (s\<lparr>ds_db := db', ds_saves := insert (rt, jc, user, 201, p) (ds_saves s)\<rparr>)"
| D_apply_read: "apply_read rt user rq i q (ds_db s) = (Inr p, db') \<Longrightarrow>
     doc_step s Silent (s\<lparr>ds_db := db', ds_saves := insert (rt, jc, user, 200, p) (ds_saves s)\<rparr>)"
| D_edits_read: "edits_read rt user rq i (ds_db s) = (Inr p, db') \<Longrightarrow>
     doc_step s Silent (s\<lparr>ds_db := db', ds_saves := insert (rt, jc, user, 200, p) (ds_saves s)\<rparr>)"
| D_save: "(rt, jc, user, st, p) \<in> ds_saves s \<Longrightarrow> save_store rt jc user st p (ds_db s) = (r, db') \<Longrightarrow>
     fresh rt (ds_db s) \<Longrightarrow>
     doc_step s (save_event (fst (SAVE_VERSION rt (cu_id user) p (ds_db s))) p) (s\<lparr>ds_db := db'\<rparr>)"
| D_final_read: "final_read rt user rq i (ds_db s) = (Inr p, db') \<Longrightarrow>
     doc_step s Silent (s\<lparr>ds_db := db', ds_finals := insert (rt, user, p) (ds_finals s)\<rparr>)"
| D_final: "(rt, user, p) \<in> ds_finals s \<Longrightarrow> final_store rt user p (ds_db s) = (Inr rs, db') \<Longrightarrow>
     doc_step s (Finalized rt (fp_version p) (fp_approval p)) (s\<lparr>ds_db := db'\<rparr>)"
| D_final_refused: "(rt, user, p) \<in> ds_finals s \<Longrightarrow> final_store rt user p (ds_db s) = (Inl x, db') \<Longrightarrow> doc_step s Silent (s\<lparr>ds_db := db'\<rparr>)"
| D_archive_read: "archive_read rt user rq i (ds_db s) = (Inr (e, d), db') \<Longrightarrow>
     doc_step s Silent (s\<lparr>ds_db := db', ds_archives := insert (rt, user, e, d) (ds_archives s)\<rparr>)"
| D_archive: "(rt, user, e, d) \<in> ds_archives s \<Longrightarrow> archive_store rt user e d (ds_db s) = (r, db') \<Longrightarrow> doc_step s Silent (s\<lparr>ds_db := db'\<rparr>)"
| D_export_read: "export_read rt user rq i (ds_db s) = (Inr e, db') \<Longrightarrow>
     doc_step s Silent (s\<lparr>ds_db := db', ds_exports := insert (rt, e) (ds_exports s)\<rparr>)"
| D_export: "(rt, e) \<in> ds_exports s \<Longrightarrow> export_store rt e (ds_db s) = (r, db') \<Longrightarrow> doc_step s Silent (s\<lparr>ds_db := db'\<rparr>)"
| D_result: "recordExportResult rt user rq i x (ds_db s) = (r, db') \<Longrightarrow> doc_step s Silent (s\<lparr>ds_db := db'\<rparr>)"
| D_fill: "doc_of i (ds_db s) = Some d \<Longrightarrow> dc_user d = u \<Longrightarrow> dc_kind d = ''HUB_PROFILE'' \<Longrightarrow> vid \<notin> vr_id ` set (versions (ds_db s)) \<Longrightarrow>
     doc_step s Silent (s\<lparr>ds_db := FILL_PROFILE u i vid content blocks quality now (ds_db s)\<rparr>)"
| D_elsewhere: "elsewhere (ds_db s) db' \<Longrightarrow> doc_step s Silent (s\<lparr>ds_db := db'\<rparr>)"

end
