(* ===== verification/Doc_Safety.thy ===== *)
theory Doc_Safety
  imports Doc_Interleave
begin

text \<open>The invariant of the system of documents, and what follows for finalized and exported documents.\<close>

subsection \<open>The invariant\<close>

definition doc_versions :: "string \<Rightarrow> 'z app_db_scheme \<Rightarrow> version_row list" where
  "doc_versions i db = filter (\<lambda>v. vr_doc v = i) (versions db)"

text \<open>The versions of a document are numbered in order, and the last one is the latest. A profile document
  may have no latest version although it has versions: a patch that read the document before the fill
  writes the missing latest version back.\<close>

definition latest_ok :: "doc_row \<Rightarrow> version_row list \<Rightarrow> bool" where
  "latest_ok d vs \<longleftrightarrow> dc_latest d = (if vs = [] then None else Some (vr_id (last vs)))
     \<or> dc_kind d = ''HUB_PROFILE'' \<and> dc_latest d = None"

definition numbered :: "'z app_db_scheme \<Rightarrow> doc_row \<Rightarrow> bool" where
  "numbered db d \<longleftrightarrow> (let vs = doc_versions (dc_id d) db in
     map vr_number vs = map int [1..<Suc (length vs)] \<and> latest_ok d vs)"

definition finalized_in :: "doc_event list \<Rightarrow> string \<Rightarrow> bool" where
  "finalized_in es v \<longleftrightarrow> (\<exists>rt ap. Finalized rt v ap \<in> set es)"

lemma finalized_more: "finalized_in es v \<Longrightarrow> finalized_in (es @ fs) v" "finalized_in fs v \<Longrightarrow> finalized_in (es @ fs) v"
  by (auto simp: finalized_in_def)

definition final_known :: "doc_event list \<Rightarrow> 'z app_db_scheme \<Rightarrow> bool" where
  "final_known es db \<longleftrightarrow> (\<forall>i d v. doc_of i db = Some d \<longrightarrow> dc_final d = Some v \<longrightarrow> finalized_in es v)"

definition all_numbered :: "'z app_db_scheme \<Rightarrow> bool" where
  "all_numbered db \<longleftrightarrow> (\<forall>i d. doc_of i db = Some d \<longrightarrow> numbered db d) \<and> (\<forall>v \<in> set (versions db). doc_of (vr_doc v) db \<noteq> None)"

text \<open>An export shows a version of its document; that version was finalized, or the document is a profile.\<close>

definition shown :: "doc_event list \<Rightarrow> 'z app_db_scheme \<Rightarrow> string \<times> string \<times> jv \<Rightarrow> bool" where
  "shown es db k \<longleftrightarrow> (case k of (i, vid, c) \<Rightarrow> \<exists>d v. doc_of i db = Some d \<and> v \<in> set (versions db) \<and> vr_id v = vid \<and> vr_doc v = i
     \<and> vr_content v = c \<and> (dc_kind d = ''HUB_PROFILE'' \<or> finalized_in es vid))"

definition patch_seen_doc :: "string \<Rightarrow> int \<Rightarrow> doc_row \<Rightarrow> 'z app_db_scheme \<Rightarrow> bool" where
  "patch_seen_doc u e d db \<longleftrightarrow> (\<exists>d0. dr.seen (dc_id d0) d0 db \<and> own_doc u e d0 \<and> patched d0 d)"

definition archive_seen :: "string \<Rightarrow> int \<Rightarrow> doc_row \<Rightarrow> 'z app_db_scheme \<Rightarrow> bool" where
  "archive_seen u e d db \<longleftrightarrow> dr.seen (dc_id d) d db \<and> own_doc u e d"

text \<open>The proposal of a plan is there, and not applied as long as the document has not moved on.\<close>

definition proposal_open :: "string \<Rightarrow> save_plan \<Rightarrow> doc_db \<Rightarrow> bool" where
  "proposal_open u p db \<longleftrightarrow> (\<forall>q. sv_proposal p = Some q \<longrightarrow> (\<exists>r \<in> set (proposals db). pr_id r = q \<and> pr_user r = u
     \<and> pr_doc r = dc_id (sv_doc p) \<and> pr_source_revision r = sv_expected p
     \<and> (pr_applied r = None \<or> (\<exists>d. doc_of (dc_id (sv_doc p)) db = Some d \<and> sv_expected p < dc_revision d))))"

definition pending_ok :: "doc_system \<Rightarrow> bool" where
  "pending_ok s \<longleftrightarrow> (\<forall>(rt, user, e, d) \<in> ds_patches s. patch_seen_doc (cu_id user) e d (ds_db s))
     \<and> (\<forall>(rt, jc, user, st, p) \<in> ds_saves s. save_seen (cu_id user) p (ds_db s))
     \<and> (\<forall>(rt, user, p) \<in> ds_finals s. final_seen rt (cu_id user) p (ds_db s))
     \<and> (\<forall>(rt, user, e, d) \<in> ds_archives s. archive_seen (cu_id user) e d (ds_db s))"

definition exports_ok :: "doc_event list \<Rightarrow> doc_system \<Rightarrow> bool" where
  "exports_ok es s \<longleftrightarrow> (\<forall>k \<in> set (map export_key (exports (ds_db s))) \<union> export_key ` snd ` ds_exports s. shown es (ds_db s) k)"

definition doc_inv :: "doc_event list \<Rightarrow> doc_system \<Rightarrow> bool" where
  "doc_inv es s \<longleftrightarrow> doc_keyed (ds_db s) \<and> all_numbered (ds_db s) \<and> final_known es (ds_db s) \<and> pending_ok s \<and> exports_ok es s"

definition steps_to :: "doc_event list \<Rightarrow> doc_event \<Rightarrow> doc_system \<Rightarrow> doc_system \<Rightarrow> bool" where
  "steps_to es e s s' \<longleftrightarrow> doc_inv (es @ [e]) s' \<and> dr.grown (ds_db s) (ds_db s')"

subsection \<open>The frame of a step\<close>

definition kinds_kept :: "'z app_db_scheme \<Rightarrow> 'z app_db_scheme \<Rightarrow> bool" where
  "kinds_kept db db' \<longleftrightarrow> (\<forall>i d. doc_of i db = Some d \<longrightarrow> (\<exists>d'. doc_of i db' = Some d' \<and> dc_kind d' = dc_kind d))"

definition effect :: "doc_db \<Rightarrow> doc_db \<Rightarrow> bool" where
  "effect db db' \<longleftrightarrow> doc_keyed db' \<and> dr.grown db db' \<and> kinds_kept db db' \<and> set (versions db) \<subseteq> set (versions db') \<and> approvals_later db db'"

lemma approvals_same: "approvals db' = approvals db \<Longrightarrow> approvals_later db db'"
  by (simp add: approvals_later_def approval_of_id_def)

lemma final_seen_later:
  assumes "final_seen rt u p db" and "effect db db'"
  shows "final_seen rt u p db'"
proof -
  obtain r where r: "approval_of_id (fp_approval p) db = Some r"
      "fp_revision p < av_revision r \<or> av_revision r = fp_revision p \<and> av_user r = u \<and> final_version rt p r db"
    using assms(1) by (auto simp: final_seen_def)
  obtain r' where r': "approval_of_id (fp_approval p) db' = Some r'"
      "r' = r \<or> av_revision r < av_revision r' \<or> av_revision r' = av_revision r \<and> av_status r \<noteq> ''APPROVED''"
    using assms(2) r(1) unfolding effect_def approvals_later_def by blast
  have "final_version rt p r db \<Longrightarrow> final_version rt p r db' \<and> av_status r = ''APPROVED''"
    using assms(2) by (auto simp: final_version_def effect_def covers_version_def)
  then have "fp_revision p < av_revision r' \<or> av_revision r' = fp_revision p \<and> av_user r' = u \<and> final_version rt p r' db'"
    using r(2) r'(2) by auto
  moreover have "dr.seen (dc_id (fp_doc p)) (fp_doc p) db'"
    using assms dr.seen_grown by (auto simp: final_seen_def effect_def)
  ultimately show ?thesis using assms(1) r'(1) by (auto simp: final_seen_def)
qed

lemma seen_later:
  "effect db db' \<Longrightarrow> patch_seen_doc u e d db \<Longrightarrow> patch_seen_doc u e d db'"
  "effect db db' \<Longrightarrow> save_seen u p db \<Longrightarrow> save_seen u p db'"
  "effect db db' \<Longrightarrow> archive_seen u e d db \<Longrightarrow> archive_seen u e d db'"
  using dr.seen_grown by (auto simp: effect_def patch_seen_doc_def save_seen_def archive_seen_def) blast+

text \<open>What was read stays read.\<close>

lemma pending_later:
  assumes "pending_ok s" and "effect (ds_db s) db'"
  shows "pending_ok (s\<lparr>ds_db := db'\<rparr>)"
  using assms(1) unfolding pending_ok_def
  by (auto intro: seen_later [OF assms(2)] final_seen_later [OF _ assms(2)])

lemma shown_later: "shown es db k \<Longrightarrow> effect db db' \<Longrightarrow> shown (es @ fs) db' k"
  unfolding shown_def effect_def kinds_kept_def finalized_in_def by (cases k) fastforce

lemma exports_later:
  assumes "exports_ok es s" and "effect (ds_db s) db'" and "map export_key (exports db') = map export_key (exports (ds_db s))"
  shows "exports_ok (es @ fs) (s\<lparr>ds_db := db'\<rparr>)"
  using assms(1) shown_later [OF _ assms(2)] unfolding exports_ok_def by (simp add: assms(3))

subsection \<open>Kinds of steps\<close>

lemma numbers_max: "fold max (map int [1..<Suc n]) 0 = int n"
proof (induction n)
  case (Suc n)
  have "fold max (map int [1..<Suc (Suc n)]) 0 = max (int (Suc n)) (fold max (map int [1..<Suc n]) 0)" by (simp add: fold_append)
  then show ?case using Suc by simp
qed simp

lemma next_of: "map vr_number (doc_versions i db) = map int [1..<Suc n] \<Longrightarrow> next_number i db = int n + 1"
  by (simp only: next_number_def doc_versions_def numbers_max)

lemma wrote_kinds: "wrote i P f db db' \<Longrightarrow> keeps_key f \<Longrightarrow> kinds_kept db db'"
  unfolding kinds_kept_def
proof (intro allI impI)
  fix k d assume w: "wrote i P f db db'" and f: "keeps_key f" and d: "doc_of k db = Some d"
  show "\<exists>d'. doc_of k db' = Some d' \<and> dc_kind d' = dc_kind d"
  proof (cases "k = i")
    case True
    with w d f show ?thesis by (auto simp: wrote_def keeps_key_def)
  next
    case False
    with w d show ?thesis by (auto simp: wrote_def)
  qed
qed

lemma wrote_effect:
  assumes "wrote i P f db db'" and "keeps_key f" and "doc_keyed db" and "distinct (map vr_id (versions db'))" and "distinct (map av_id (approvals db'))"
    and "set (versions db) \<subseteq> set (versions db')" and "approvals_later db db'"
  shows "effect db db'"
  using assms wrote_grown [OF assms(1,2)] wrote_kinds [OF assms(1,2)]
  by (auto simp: effect_def doc_keyed_def wrote_def)

lemma rest_same_effect: "wrote i P f db db' \<Longrightarrow> keeps_key f \<Longrightarrow> doc_keyed db \<Longrightarrow> rest_same db db' \<Longrightarrow> effect db db'"
  by (rule wrote_effect) (auto simp: doc_keyed_def rest_same_def approvals_same)

text \<open>A write that keeps the latest version, or takes it from a profile document.\<close>

definition keeps_latest :: "(doc_row \<Rightarrow> doc_row) \<Rightarrow> doc_row \<Rightarrow> bool" where
  "keeps_latest f a \<longleftrightarrow> (let d = f (a\<lparr>dc_revision := dc_revision a + 1\<rparr>) in
     dc_latest d = dc_latest a \<or> dc_kind a = ''HUB_PROFILE'' \<and> dc_latest d = None)"

lemma wrote_numbered:
  assumes "wrote i P f db db'" and "keeps_key f" and "all_numbered db" and "versions db' = versions db"
    and "\<And>a. doc_of i db = Some a \<Longrightarrow> P a \<Longrightarrow> keeps_latest f a"
  shows "all_numbered db'"
proof -
  obtain a where a: "doc_of i db = Some a" "P a" "doc_of i db' = Some (f (a\<lparr>dc_revision := dc_revision a + 1\<rparr>))"
    and o: "\<And>j. j \<noteq> i \<Longrightarrow> doc_of j db' = doc_of j db"
    using assms(1) by (auto simp: wrote_def)
  have n: "numbered db' d" if "doc_of k db' = Some d" for k d
  proof (cases "k = i")
    case True
    with that a have d: "d = f (a\<lparr>dc_revision := dc_revision a + 1\<rparr>)" by simp
    have "numbered db a" using assms(3) a(1) by (auto simp: all_numbered_def)
    then show ?thesis using assms(2,4) assms(5) [OF a(1,2)]
      by (auto simp: numbered_def d keeps_key_def doc_versions_def keeps_latest_def latest_ok_def Let_def)
  next
    case False
    with o that assms(3,4) show ?thesis by (simp add: all_numbered_def numbered_def doc_versions_def)
  qed
  have "doc_of (vr_doc v) db' \<noteq> None" if "v \<in> set (versions db')" for v
    using that assms(3,4) a o by (cases "vr_doc v = i") (auto simp: all_numbered_def)
  with n show ?thesis by (auto simp: all_numbered_def)
qed

lemma wrote_final:
  assumes "wrote i P f db db'" and "final_known es db"
    and "\<And>a v. doc_of i db = Some a \<Longrightarrow> P a \<Longrightarrow> dc_final (f (a\<lparr>dc_revision := dc_revision a + 1\<rparr>)) = Some v \<Longrightarrow> dc_final a = Some v \<or> finalized_in fs v"
  shows "final_known (es @ fs) db'"
  unfolding final_known_def
proof (intro allI impI)
  fix k d v assume d: "doc_of k db' = Some d" "dc_final d = Some v"
  obtain a where a: "doc_of i db = Some a" "P a" "doc_of i db' = Some (f (a\<lparr>dc_revision := dc_revision a + 1\<rparr>))"
    and o: "\<And>j. j \<noteq> i \<Longrightarrow> doc_of j db' = doc_of j db"
    using assms(1) by (auto simp: wrote_def)
  have "(\<exists>i d. doc_of i db = Some d \<and> dc_final d = Some v) \<or> finalized_in fs v"
    using d a o assms(3) [OF a(1,2)] by (cases "k = i") auto
  with assms(2) show "finalized_in (es @ fs) v" unfolding final_known_def using finalized_more by blast
qed

text \<open>A step that only writes one document.\<close>

lemma inv_wrote:
  assumes "doc_inv es s" and "wrote i P f (ds_db s) db'" and "keeps_key f" and "rest_same (ds_db s) db'"
    and "\<And>a. doc_of i (ds_db s) = Some a \<Longrightarrow> P a \<Longrightarrow> keeps_latest f a"
    and "\<And>a v. doc_of i (ds_db s) = Some a \<Longrightarrow> P a \<Longrightarrow> dc_final (f (a\<lparr>dc_revision := dc_revision a + 1\<rparr>)) = Some v \<Longrightarrow> dc_final a = Some v"
  shows "steps_to es e s (s\<lparr>ds_db := db'\<rparr>)"
proof -
  have ef: "effect (ds_db s) db'" using rest_same_effect [OF assms(2,3) _ assms(4)] assms(1) by (simp add: doc_inv_def)
  have "all_numbered db'" by (rule wrote_numbered [OF assms(2,3)]) (use assms in \<open>auto simp: doc_inv_def rest_same_def\<close>)
  moreover have "final_known (es @ [e]) db'" by (rule wrote_final [OF assms(2)]) (use assms in \<open>auto simp: doc_inv_def\<close>)
  moreover have "pending_ok (s\<lparr>ds_db := db'\<rparr>)" using pending_later [OF _ ef] assms(1) by (simp add: doc_inv_def)
  moreover have "exports_ok (es @ [e]) (s\<lparr>ds_db := db'\<rparr>)"
    by (rule exports_later [OF _ ef]) (use assms in \<open>simp_all add: doc_inv_def rest_same_def\<close>)
  ultimately show ?thesis using ef by (simp add: steps_to_def doc_inv_def effect_def)
qed

text \<open>A step that leaves documents and versions alone.\<close>

definition quiet :: "doc_db \<Rightarrow> doc_db \<Rightarrow> bool" where
  "quiet db db' \<longleftrightarrow> docs db' = docs db \<and> versions db' = versions db \<and> map export_key (exports db') = map export_key (exports db)
     \<and> approvals_later db db' \<and> distinct (map av_id (approvals db'))"

lemma quiet_effect: "quiet db db' \<Longrightarrow> doc_keyed db \<Longrightarrow> effect db db'"
  by (auto simp: quiet_def effect_def doc_keyed_def kinds_kept_def doc_of_def intro!: dr.grown_same)

lemma inv_quiet:
  assumes "doc_inv es s" and "quiet (ds_db s) db'"
  shows "steps_to es e s (s\<lparr>ds_db := db'\<rparr>)"
proof -
  have ef: "effect (ds_db s) db'" using quiet_effect [OF assms(2)] assms(1) by (simp add: doc_inv_def)
  have d: "doc_of i db' = doc_of i (ds_db s)" "versions db' = versions (ds_db s)" for i
    using assms(2) by (simp_all add: quiet_def doc_of_def)
  have "all_numbered db'" using assms(1) by (simp add: doc_inv_def all_numbered_def numbered_def doc_versions_def d)
  moreover have "final_known (es @ [e]) db'"
    using assms(1) finalized_more(1) unfolding doc_inv_def final_known_def d by blast
  moreover have "pending_ok (s\<lparr>ds_db := db'\<rparr>)" using pending_later [OF _ ef] assms(1) by (simp add: doc_inv_def)
  moreover have "exports_ok (es @ [e]) (s\<lparr>ds_db := db'\<rparr>)"
    by (rule exports_later [OF _ ef]) (use assms in \<open>simp_all add: doc_inv_def quiet_def\<close>)
  ultimately show ?thesis using ef by (simp add: steps_to_def doc_inv_def effect_def)
qed

lemma quiet_refl: "doc_keyed db \<Longrightarrow> quiet db db"
  by (simp add: quiet_def approvals_same doc_keyed_def)

lemma core_quiet: "core_same db db' \<Longrightarrow> doc_keyed db \<Longrightarrow> quiet db db'"
  by (simp add: quiet_def core_same_def rest_same_def approvals_same doc_keyed_def)

lemma result_quiet: "result_same db db' \<Longrightarrow> doc_keyed db \<Longrightarrow> quiet db db'"
  by (simp add: quiet_def result_same_def approvals_same doc_keyed_def)

end
