(* ===== verification/Doc_Props.thy ===== *)
theory Doc_Props
  imports Doc_Safety
begin

text \<open>The invariant holds in every run of the system of documents; the properties of documents.\<close>

subsection \<open>Steps that add\<close>

lemma numbered_cong: "doc_versions (dc_id d) db' = doc_versions (dc_id d) db \<Longrightarrow> numbered db' d = numbered db d"
  by (simp add: numbered_def)

lemma inv_save:
  assumes "doc_inv es s" and "saved_as rt u p (ds_db s) db'" and "save_seen u p (ds_db s)" and "fresh rt (ds_db s)"
  shows "steps_to es e s (s\<lparr>ds_db := db'\<rparr>)"
proof -
  let ?db = "ds_db s" and ?i = "dc_id (sv_doc p)"
  have inv: "doc_keyed ?db" "all_numbered ?db" "final_known es ?db" "pending_ok s" "exports_ok es s" using assms(1) by (simp_all add: doc_inv_def)
  have w: "wrote ?i (own_doc u (sv_expected p)) (moved_on rt) ?db db'" and v: "versions db' = versions ?db @ [version_of rt u p (next_number ?i ?db)]"
    and x: "exports db' = exports ?db" "approvals db' = approvals ?db"
    using assms(2) by (simp_all add: saved_as_def)
  obtain a where a: "doc_of ?i ?db = Some a" "own_doc u (sv_expected p) a" "doc_of ?i db' = Some (moved_on rt (a\<lparr>dc_revision := dc_revision a + 1\<rparr>))"
    and o: "\<And>j. j \<noteq> ?i \<Longrightarrow> doc_of j db' = doc_of j ?db" using w by (auto simp: wrote_def)
  have n: "versions db' = versions ?db @ [version_of rt u p (next_number ?i ?db)]" "vr_id (version_of rt u p k) = rr_uuid rt 0"
    "vr_doc (version_of rt u p k) = ?i" "vr_number (version_of rt u p k) = k" for k by (simp_all add: v version_of_def)
  have ef: "effect ?db db'"
    by (rule wrote_effect [OF w moved_on_keeps]) (use inv(1) assms(4) in \<open>auto simp: n x doc_keyed_def approvals_same fresh_def\<close>)
  have dv: "doc_versions k db' = doc_versions k ?db @ (if k = ?i then [version_of rt u p (next_number ?i ?db)] else [])" for k
    by (auto simp: doc_versions_def n)
  have num: "numbered db' d" if "doc_of k db' = Some d" for k d
  proof (cases "k = ?i")
    case True
    with that a have d: "d = moved_on rt (a\<lparr>dc_revision := dc_revision a + 1\<rparr>)" by simp
    then have i: "dc_id d = ?i" "dc_latest d = Some (rr_uuid rt 0)" using doc_of_id [OF a(1)] by (simp_all add: moved_on_def)
    have m: "map vr_number (doc_versions ?i ?db) = map int [1..<Suc (length (doc_versions ?i ?db))]"
      using inv(2) a(1) doc_of_id [OF a(1)] unfolding all_numbered_def numbered_def Let_def by metis
    show ?thesis using next_of [OF m] m by (simp add: numbered_def i dv n latest_ok_def)
  next
    case False
    then have "doc_of k ?db = Some d" using that o by simp
    with False inv(2) doc_of_id [OF this] numbered_cong [of d db' ?db] show ?thesis by (auto simp: all_numbered_def dv)
  qed
  have "doc_of (vr_doc x) db' \<noteq> None" if "x \<in> set (versions db')" for x
    using that inv(2) a o by (cases "vr_doc x = ?i") (auto simp: all_numbered_def n)
  with num have "all_numbered db'" by (auto simp: all_numbered_def)
  moreover have "final_known (es @ [e]) db'" by (rule wrote_final [OF w inv(3)]) (simp add: moved_on_def)
  moreover have "exports_ok (es @ [e]) (s\<lparr>ds_db := db'\<rparr>)" by (rule exports_later [OF inv(5) ef]) (simp add: x)
  ultimately show ?thesis using ef pending_later [OF inv(4) ef] by (simp add: steps_to_def doc_inv_def effect_def)
qed

lemma inv_adds:
  assumes "doc_inv es s" and "adds_doc rt (ds_db s) db'" and "fresh rt (ds_db s)"
  shows "steps_to es e s (s\<lparr>ds_db := db'\<rparr>)"
proof -
  let ?db = "ds_db s"
  have inv: "doc_keyed ?db" "all_numbered ?db" "final_known es ?db" "pending_ok s" "exports_ok es s" using assms(1) by (simp_all add: doc_inv_def)
  obtain d vs where d: "docs db' = docs ?db @ [d]" "versions db' = versions ?db @ vs" "dc_id d = rr_uuid rt 0"
      "first_version d (rr_uuid rt 1) vs" "exports db' = exports ?db" "approvals db' = approvals ?db"
    using assms(2) by (auto simp: adds_doc_def)
  have new: "doc_of k db' = (if k = dc_id d then Some d else doc_of k ?db)" for k
    using assms(3) d(1,3) by (auto simp: fresh_def doc_of_def find_append split: option.split)
  have "distinct (map vr_id (versions db'))" using inv(1) assms(3) d(2,4) by (force simp: doc_keyed_def first_version_def fresh_def)
  moreover have "distinct (map dc_id (docs db'))"
    using inv(1) assms(3) d(1,3) by (auto simp: doc_keyed_def doc_of_def find_None_iff fresh_def)
  ultimately have k: "doc_keyed db'" using inv(1) d(6) by (simp add: doc_keyed_def)
  have old: "doc_of k db' = Some a" if "doc_of k ?db = Some a" for k a using that new [of k] assms(3) d(3) by (auto simp: fresh_def)
  then have ef: "effect ?db db'"
    using k d(2,6) dr.same_refl by (auto simp: effect_def dr.grown_def kinds_kept_def approvals_same)
  have none: "doc_versions (dc_id d) ?db = []" using inv(2) assms(3) d(3) by (auto simp: doc_versions_def all_numbered_def filter_empty_conv fresh_def)
  have vd: "vr_doc v = dc_id d" if "v \<in> set vs" for v using that d(4) by (auto simp: first_version_def)
  have dv: "doc_versions k db' = (if k = dc_id d then vs else doc_versions k ?db)" for k
    using none vd by (auto simp: doc_versions_def d(2) filter_empty_conv intro!: filter_True)
  have "numbered db' a" if "doc_of k db' = Some a" for k a
  proof (cases "k = dc_id d")
    case True
    with that new have "a = d" by simp
    then show ?thesis using d(4) by (auto simp: numbered_def dv first_version_def latest_ok_def)
  next
    case False
    with that new have "doc_of k ?db = Some a" by simp
    with False inv(2) doc_of_id [OF this] numbered_cong [of a db' ?db] show ?thesis by (auto simp: all_numbered_def dv)
  qed
  moreover have "doc_of (vr_doc v) db' \<noteq> None" if "v \<in> set (versions db')" for v
    using that vd inv(2) old unfolding d(2) new by (auto simp: all_numbered_def)
  ultimately have "all_numbered db'" by (auto simp: all_numbered_def)
  moreover have "final_known (es @ [e]) db'"
    using inv(3) d(4) finalized_more(1) unfolding final_known_def new first_version_def by (auto split: if_splits)
  moreover have "exports_ok (es @ [e]) (s\<lparr>ds_db := db'\<rparr>)" by (rule exports_later [OF inv(5) ef]) (simp add: d)
  ultimately show ?thesis using ef pending_later [OF inv(4) ef] by (simp add: steps_to_def doc_inv_def effect_def)
qed

lemma inv_final:
  assumes "doc_inv es s" and "finalized_as rt u p (ds_db s) db'"
  shows "steps_to es (Finalized rt (fp_version p) ap) s (s\<lparr>ds_db := db'\<rparr>)"
proof -
  let ?db = "ds_db s"
  have inv: "doc_keyed ?db" "all_numbered ?db" "final_known es ?db" "pending_ok s" "exports_ok es s" using assms(1) by (simp_all add: doc_inv_def)
  have w: "wrote (dc_id (fp_doc p)) (own_doc u (fp_expected p)) (finalizing rt (fp_version p)) ?db db'" and s: "versions db' = versions ?db" "exports db' = exports ?db"
    and c: "consumes (fp_approval p) u (fp_revision p) ?db db'" "map av_id (approvals db') = map av_id (approvals ?db)"
    using assms(2) by (simp_all add: finalized_as_def)
  have k: "keeps_key (finalizing rt v)" for v by (simp add: keeps_key_def finalizing_def)
  have ef: "effect ?db db'"
    by (rule wrote_effect [OF w k]) (use inv(1) c consumes_later in \<open>auto simp: s doc_keyed_def\<close>)
  have "all_numbered db'" by (rule wrote_numbered [OF w k inv(2) s(1)]) (simp add: finalizing_def keeps_latest_def)
  moreover have "final_known (es @ [Finalized rt (fp_version p) ap]) db'"
    by (rule wrote_final [OF w inv(3)]) (auto simp: finalizing_def finalized_in_def)
  moreover have "exports_ok (es @ [Finalized rt (fp_version p) ap]) (s\<lparr>ds_db := db'\<rparr>)" by (rule exports_later [OF inv(5) ef]) (simp add: s)
  ultimately show ?thesis using ef pending_later [OF inv(4) ef] by (simp add: steps_to_def doc_inv_def effect_def)
qed

lemma inv_read:
  assumes "doc_inv es s" and "pending_ok s'" and "ds_db s' = ds_db s" and "ds_exports s' = ds_exports s"
  shows "steps_to es e s s'"
proof -
  have "steps_to es e s (s\<lparr>ds_db := ds_db s\<rparr>)"
    by (rule inv_quiet [OF assms(1) quiet_refl]) (use assms(1) in \<open>simp add: doc_inv_def\<close>)
  with assms(2-4) show ?thesis by (simp add: steps_to_def doc_inv_def exports_ok_def)
qed

lemma inv_conv:
  assumes "doc_inv es s" and "conv rt (ds_db s) db'" and "fresh rt (ds_db s)"
  shows "steps_to es e s (s\<lparr>ds_db := db'\<rparr>)"
proof -
  have k: "doc_keyed (ds_db s)" using assms(1) by (simp add: doc_inv_def)
  with assms(2) consider "core_same (ds_db s) db'" | "adds_doc rt (ds_db s) db'" | "moves_app (ds_db s) db'" by (auto simp: conv_def)
  then show ?thesis
  proof cases
    case 1
    show ?thesis by (rule inv_quiet [OF assms(1) core_quiet [OF 1 k]])
  next
    case 2
    show ?thesis by (rule inv_adds [OF assms(1) 2 assms(3)])
  next
    case 3
    then obtain i P a now where w: "wrote i P (\<lambda>r. r\<lparr>dc_app := Some a, dc_updated := now\<rparr>) (ds_db s) db'" "rest_same (ds_db s) db'"
      by (auto simp: moves_app_def)
    show ?thesis by (rule inv_wrote [OF assms(1) w(1) _ w(2)]) (simp_all add: keeps_key_def keeps_latest_def)
  qed
qed

lemma exportable_shown:
  assumes "doc_inv es s" and "doc_of (dc_id d) (ds_db s) = Some d" and "v \<in> set (versions (ds_db s))" and "vr_doc v = dc_id d" and "exportable d v"
  shows "shown es (ds_db s) (export_key (new_export rt u f g d v))"
proof -
  have "dc_kind d = ''HUB_PROFILE'' \<or> finalized_in es (vr_id v)"
    using assms(1,2,5) by (auto simp: exportable_def doc_inv_def final_known_def)
  with assms(2-4) show ?thesis by (auto simp: shown_def export_key_def new_export_def)
qed

lemma inv_export:
  assumes "doc_inv es s" and "(rt, e) \<in> ds_exports s"
  shows "steps_to es v s (s\<lparr>ds_db := (ds_db s)\<lparr>exports := exports (ds_db s) @ [e]\<rparr>\<rparr>)"
proof -
  let ?db = "(ds_db s)\<lparr>exports := exports (ds_db s) @ [e]\<rparr>"
  have k: "doc_keyed ?db" "doc_keyed (ds_db s)" using assms(1) by (simp_all add: doc_inv_def doc_keyed_def)
  have d: "doc_of i ?db = doc_of i (ds_db s)" for i by (simp add: doc_of_def)
  have ef: "effect (ds_db s) ?db"
    using k(1) by (auto simp: effect_def d kinds_kept_def approvals_same intro!: dr.grown_same)
  have "all_numbered ?db" using assms(1) by (simp add: doc_inv_def all_numbered_def numbered_def doc_versions_def d)
  moreover have "final_known (es @ [v]) ?db" using assms(1) finalized_more(1) unfolding doc_inv_def final_known_def d by blast
  moreover have "shown (es @ [v]) ?db k" if "k \<in> set (map export_key (exports ?db)) \<union> export_key ` snd ` ds_exports s" for k
  proof -
    have "export_key e \<in> export_key ` snd ` ds_exports s" using assms(2) by force
    with that have "k \<in> set (map export_key (exports (ds_db s))) \<union> export_key ` snd ` ds_exports s" by auto
    then have "shown es (ds_db s) k" using assms(1) by (simp only: doc_inv_def exports_ok_def)
    then show ?thesis using shown_later [OF _ ef] by blast
  qed
  ultimately show ?thesis using k ef pending_later [OF _ ef] assms(1) by (simp add: steps_to_def effect_def doc_inv_def exports_ok_def)
qed

text \<open>The fill of a profile document without a version.\<close>

lemma fill_result:
  assumes "all_numbered db" and "doc_keyed db" and "doc_of i db = Some d" "dc_user d = u"
  shows "doc_versions i db \<noteq> [] \<and> FILL_PROFILE u i vid c bs q now db = db
    \<or> doc_versions i db = [] \<and> dc_latest d = None
      \<and> (\<forall>k. doc_of k (FILL_PROFILE u i vid c bs q now db) = (if k = i then Some (d\<lparr>dc_latest := Some vid, dc_updated := now\<rparr>) else doc_of k db))
      \<and> map dc_id (docs (FILL_PROFILE u i vid c bs q now db)) = map dc_id (docs db)"
proof -
  let ?db = "FILL_PROFILE u i vid c bs q now db"
  have i: "dc_id d = i" using doc_of_id [OF assms(3)] by simp
  have n: "numbered db d" using assms(1,3) by (auto simp: all_numbered_def)
  then have nums: "map vr_number (doc_versions i db) = map int [1..<Suc (length (doc_versions i db))]" by (simp add: numbered_def i Let_def)
  show ?thesis
  proof (cases "doc_versions i db")
    case Nil
    then have "\<not> list_ex (\<lambda>v. vr_doc v = i \<and> vr_number v = 1) (versions db)"
      by (auto simp: doc_versions_def filter_empty_conv list_ex_iff)
    then have d: "docs ?db = map (\<lambda>d. if dc_id d = i \<and> dc_user d = u then d\<lparr>dc_latest := Some vid, dc_updated := now\<rparr> else d) (docs db)"
      by (simp add: FILL_PROFILE_def)
    have g: "doc_of k ?db = map_option (\<lambda>d. if dc_id d = i \<and> dc_user d = u then d\<lparr>dc_latest := Some vid, dc_updated := now\<rparr> else d) (doc_of k db)" for k
      unfolding doc_of_def d by (rule find_map_key) simp
    have "doc_of k ?db = (if k = i then Some (d\<lparr>dc_latest := Some vid, dc_updated := now\<rparr>) else doc_of k db)" for k
    proof (cases "k = i")
      case False
      then show ?thesis using g [of k] doc_of_id [of k db] by (cases "doc_of k db") auto
    qed (use g [of i] assms(3,4) i in simp)
    moreover have "dc_latest d = None" using n Nil by (auto simp: numbered_def latest_ok_def i)
    ultimately show ?thesis using Nil by (simp add: d comp_def)
  next
    case (Cons v vs)
    then have "vr_number v = 1" using nums by (simp add: upt_conv_Cons del: upt_Suc)
    moreover have "v \<in> set (versions db)" "vr_doc v = i" using Cons unfolding doc_versions_def by (auto simp: filter_eq_Cons_iff)
    ultimately have "list_ex (\<lambda>v. vr_doc v = i \<and> vr_number v = 1) (versions db)" by (auto simp: list_ex_iff)
    with Cons show ?thesis by (simp add: FILL_PROFILE_def)
  qed
qed

lemma fill_versions:
  assumes "FILL_PROFILE u i vid c bs q now db \<noteq> db"
  shows "\<exists>v. versions (FILL_PROFILE u i vid c bs q now db) = versions db @ [v] \<and> vr_id v = vid \<and> vr_doc v = i \<and> vr_number v = 1"
    and "exports (FILL_PROFILE u i vid c bs q now db) = exports db" and "approvals (FILL_PROFILE u i vid c bs q now db) = approvals db"
  using assms by (auto simp: FILL_PROFILE_def split: if_splits)

lemma inv_fill:
  assumes "doc_inv es s" and "doc_of i (ds_db s) = Some d" and "dc_user d = u" and "dc_kind d = ''HUB_PROFILE''"
    and "vid \<notin> vr_id ` set (versions (ds_db s))"
  shows "steps_to es e s (s\<lparr>ds_db := FILL_PROFILE u i vid c bs q now (ds_db s)\<rparr>)"
proof (cases "FILL_PROFILE u i vid c bs q now (ds_db s) = ds_db s")
  case True
  then show ?thesis using inv_quiet [OF assms(1) quiet_refl] assms(1) by (simp add: doc_inv_def)
next
  case False
  let ?db = "ds_db s" and ?db' = "FILL_PROFILE u i vid c bs q now (ds_db s)"
  have inv: "doc_keyed ?db" "all_numbered ?db" "final_known es ?db" "pending_ok s" "exports_ok es s" using assms(1) by (simp_all add: doc_inv_def)
  have r: "doc_versions i ?db = []" "dc_latest d = None"
    "\<And>k. doc_of k ?db' = (if k = i then Some (d\<lparr>dc_latest := Some vid, dc_updated := now\<rparr>) else doc_of k ?db)"
    "map dc_id (docs ?db') = map dc_id (docs ?db)"
    using fill_result [OF inv(2,1) assms(2,3), of vid c bs q now] False by blast+
  obtain v where v: "versions ?db' = versions ?db @ [v]" "vr_id v = vid" "vr_doc v = i" "vr_number v = 1"
    using fill_versions(1) [OF False] by blast
  note x = fill_versions(2,3) [OF False]
  have i: "dc_id d = i" using doc_of_id [OF assms(2)] by simp
  have "filled d (d\<lparr>dc_latest := Some vid, dc_updated := now\<rparr>)" using r(2) assms(4) by (auto simp: filled_def)
  then have "dr.grown ?db ?db'" using assms(2) dr.same_refl by (auto simp: dr.grown_def r(3))
  moreover have "kinds_kept ?db ?db'" using assms(2) by (auto simp: kinds_kept_def r(3))
  moreover have "doc_keyed ?db'" using inv(1) assms(5) v(1,2) r(4) x by (simp add: doc_keyed_def)
  ultimately have ef: "effect ?db ?db'" using v(1) x by (auto simp: effect_def approvals_same)
  have dv: "doc_versions k ?db' = (if k = i then [v] else doc_versions k ?db)" for k
    using r(1) v(1,3) by (auto simp: doc_versions_def)
  have "numbered ?db' a" if "doc_of k ?db' = Some a" for k a
  proof (cases "k = i")
    case True
    with that r(3) have "a = d\<lparr>dc_latest := Some vid, dc_updated := now\<rparr>" by simp
    then show ?thesis using i v by (simp add: numbered_def dv latest_ok_def)
  next
    case False
    with that r(3) have "doc_of k ?db = Some a" by simp
    with False inv(2) doc_of_id [OF this] numbered_cong [of a ?db' ?db] show ?thesis by (auto simp: all_numbered_def dv)
  qed
  moreover have "doc_of (vr_doc w) ?db' \<noteq> None" if "w \<in> set (versions ?db')" for w
    using that inv(2) v by (auto simp: r(3) all_numbered_def)
  ultimately have "all_numbered ?db'" by (auto simp: all_numbered_def)
  moreover have "final_known (es @ [e]) ?db'"
    using inv(3) assms(2) finalized_more(1) unfolding final_known_def by (auto simp: r(3) split: if_splits)
  moreover have "exports_ok (es @ [e]) (s\<lparr>ds_db := ?db'\<rparr>)" by (rule exports_later [OF inv(5) ef]) (simp add: x)
  ultimately show ?thesis using ef pending_later [OF inv(4) ef] by (simp add: steps_to_def doc_inv_def effect_def)
qed

text \<open>Every step keeps the invariant.\<close>

lemma doc_step_inv:
  assumes "doc_step s e s'" and "doc_inv es s"
  shows "steps_to es e s s'"
proof -
  have k: "doc_keyed (ds_db s)" and p: "pending_ok s" using assms(2) by (simp_all add: doc_inv_def)
  note same = inv_quiet [OF assms(2) quiet_refl [OF k]]
  from assms(1) show ?thesis
  proof (cases rule: doc_step.cases)
    case (D_create rt user rq r db')
    then show ?thesis using inv_conv [OF assms(2)] movesD [OF create_conv D_create(3)] by blast
  next
    case (D_convert copy src rt jc user rq i r db')
    then show ?thesis using inv_conv [OF assms(2)] movesD [OF convert_conv [OF D_convert(4)] D_convert(3)] by blast
  next
    case (D_patch_read rt user rq i e' d db')
    with patch_doc_read_seen [OF D_patch_read(3) k] have "db' = ds_db s" "patch_seen_doc (cu_id user) e' d (ds_db s)"
      by (simp_all add: patch_seen_doc_def)
    with D_patch_read p show ?thesis by (auto intro!: inv_read [OF assms(2)] simp: pending_ok_def)
  next
    case (D_patch rt user e' d r db')
    then have "patch_seen_doc (cu_id user) e' d (ds_db s)" using p by (auto simp: pending_ok_def)
    then obtain d0 where d0: "dr.seen (dc_id d) d0 (ds_db s)" "own_doc (cu_id user) e' d0" "patched d0 d"
      by (auto simp: patch_seen_doc_def patched_def)
    have cur: "filled d0 a" if "doc_of (dc_id d) (ds_db s) = Some a" "own_doc (cu_id user) e' a" for a
      using dr.seen_current [OF d0(1) that(1)] that(2) d0(2) by (simp add: own_doc_def)
    from patch_doc_store_result [OF D_patch(4) k] show ?thesis
    proof
      assume "db' = ds_db s \<and> (\<exists>x. r = Inl x)"
      then show ?thesis unfolding D_patch(2) using same by simp
    next
      assume w: "wrote (dc_id d) (own_doc (cu_id user) e') (patching rt d) (ds_db s) db' \<and> rest_same (ds_db s) db'
        \<and> r = Inr (data 200 (documentDto (d\<lparr>dc_revision := e' + 1, dc_updated := rr_now rt\<rparr>)) (rr_rid rt))"
      then have w1: "wrote (dc_id d) (own_doc (cu_id user) e') (patching rt d) (ds_db s) db'" and w2: "rest_same (ds_db s) db'" by blast+
      have "steps_to es e s (s\<lparr>ds_db := db'\<rparr>)"
      proof (rule inv_wrote [OF assms(2) w1 patching_keeps w2])
        fix a assume a: "doc_of (dc_id d) (ds_db s) = Some a" "own_doc (cu_id user) e' a"
        note c = cur [OF a]
        show "keeps_latest (patching rt d) a"
          using c d0(3) filled_same(5) [OF c] by (auto simp: keeps_latest_def patching_def patched_def filled_def Let_def)
        show "dc_final a = Some v" if "dc_final (patching rt d (a\<lparr>dc_revision := dc_revision a + 1\<rparr>)) = Some v" for v
          using that d0(3) filled_same(10) [OF c] by (auto simp: patching_def patched_def)
      qed
      with D_patch show ?thesis by simp
    qed
  next
    case (D_version_read rt user rq i q db' jc)
    with version_read_seen [OF D_version_read(3) k] p show ?thesis by (auto intro!: inv_read [OF assms(2)] simp: pending_ok_def)
  next
    case (D_apply_read rt user rq i x q db' jc)
    with apply_read_seen [OF D_apply_read(3) k] p show ?thesis by (auto intro!: inv_read [OF assms(2)] simp: pending_ok_def)
  next
    case (D_edits_read rt user rq i q db' jc)
    with edits_read_seen [OF D_edits_read(3) k] p show ?thesis by (auto intro!: inv_read [OF assms(2)] simp: pending_ok_def)
  next
    case (D_save rt jc user st q r db')
    then have "save_seen (cu_id user) q (ds_db s)" using p by (auto simp: pending_ok_def)
    with save_store_result [OF D_save(4) k] D_save same inv_save [OF assms(2)] show ?thesis by auto
  next
    case (D_final_read rt user rq i q db')
    with final_read_seen [OF D_final_read(3) k] p show ?thesis by (auto intro!: inv_read [OF assms(2)] simp: pending_ok_def)
  next
    case (D_final rt user q rs db')
    with final_store_result [OF D_final(4) k] inv_final [OF assms(2)] show ?thesis by auto
  next
    case (D_final_refused rt user q x db')
    with final_store_result [OF D_final_refused(4) k] same show ?thesis by auto
  next
    case (D_archive_read rt user rq i e' d db')
    with archive_read_seen [OF D_archive_read(3) k] p show ?thesis
      by (auto intro!: inv_read [OF assms(2)] simp: pending_ok_def archive_seen_def)
  next
    case (D_archive rt user e' d r db')
    have "db' = ds_db s \<or> wrote (dc_id d) (own_doc (cu_id user) e') (archiving rt) (ds_db s) db' \<and> rest_same (ds_db s) db'"
      using archive_store_result [OF D_archive(4) k] by blast
    then show ?thesis
    proof (elim disjE conjE)
      assume "db' = ds_db s" then show ?thesis unfolding D_archive(2) using same by simp
    next
      assume w: "wrote (dc_id d) (own_doc (cu_id user) e') (archiving rt) (ds_db s) db'" "rest_same (ds_db s) db'"
      have "steps_to es e s (s\<lparr>ds_db := db'\<rparr>)"
        by (rule inv_wrote [OF assms(2) w(1) archiving_keeps w(2)]) (simp_all add: archiving_def keeps_latest_def)
      with D_archive show ?thesis by simp
    qed
  next
    case (D_export_read rt user rq i x db')
    obtain d v f g where x: "db' = ds_db s" "doc_of (dc_id d) (ds_db s) = Some d" "v \<in> set (versions (ds_db s))" "vr_doc v = dc_id d" "exportable d v"
        "x = new_export rt (cu_id user) f g d v" using export_read_seen [OF D_export_read(3) k] by blast
    have "shown es (ds_db s) (export_key x)" unfolding x(6) by (rule exportable_shown [OF assms(2) x(2-5)])
    moreover have "steps_to es e s (s\<lparr>ds_db := ds_db s\<rparr>)" by (rule same)
    moreover have "shown (es @ [e]) (ds_db s) k" if "shown es (ds_db s) k" for k
      using shown_later [OF that quiet_effect [OF quiet_refl [OF k] k]] by simp
    ultimately show ?thesis using D_export_read x(1) by (auto simp: steps_to_def doc_inv_def exports_ok_def pending_ok_def)
  next
    case (D_export rt x r db')
    have "db' = (ds_db s)\<lparr>exports := exports (ds_db s) @ [x]\<rparr>" using D_export(4) by (auto simp: export_store_def seq_simps)
    with D_export inv_export [OF assms(2) D_export(3)] show ?thesis by simp
  next
    case (D_result rt user rq i x r db')
    with inv_quiet [OF assms(2) result_quiet [OF movesD [OF record_same D_result(3)] k]] show ?thesis by simp
  next
    case (D_fill i d u vid content blocks quality now)
    with inv_fill [OF assms(2) D_fill(3-6)] show ?thesis by blast
  next
    case (D_elsewhere db')
    then have "quiet (ds_db s) db'" by (simp add: elsewhere_def quiet_def)
    with D_elsewhere inv_quiet [OF assms(2)] show ?thesis by simp
  qed
qed

definition doc_start :: "doc_db \<Rightarrow> doc_system" where
  "doc_start db = \<lparr>ds_db = db, ds_patches = {}, ds_saves = {}, ds_finals = {}, ds_archives = {}, ds_exports = {}\<rparr>"

text \<open>A database before the first finalization and export.\<close>

definition doc_clean :: "doc_db \<Rightarrow> bool" where
  "doc_clean db \<longleftrightarrow> doc_keyed db \<and> all_numbered db \<and> (\<forall>d \<in> set (docs db). dc_final d = None) \<and> exports db = []"

lemma doc_start_inv: "doc_clean db \<Longrightarrow> doc_inv [] (doc_start db)"
  by (auto simp: doc_clean_def doc_inv_def doc_start_def final_known_def pending_ok_def exports_ok_def dest: doc_of_id)

lemma doc_run_inv: "run doc_step (doc_start db) es s \<Longrightarrow> doc_clean db \<Longrightarrow> doc_inv es s"
  by (induction "doc_start db" es s rule: run.induct) (use doc_start_inv doc_step_inv in \<open>auto simp: steps_to_def\<close>)

end
