(* ===== verification/Doc_Claims.thy ===== *)
theory Doc_Claims
  imports Doc_Props
begin

text \<open>The properties of documents under interleaved requests, and a run that shows they can hold.\<close>

subsection \<open>Proposals\<close>

definition applied_proposal :: "string \<Rightarrow> doc_system \<Rightarrow> bool" where
  "applied_proposal q s \<longleftrightarrow> (\<exists>r \<in> set (proposals (ds_db s)). pr_id r = q \<and> pr_applied r \<noteq> None)"

definition proposals_ok :: "doc_system \<Rightarrow> bool" where
  "proposals_ok s \<longleftrightarrow> distinct (map pr_id (proposals (ds_db s)))
     \<and> (\<forall>(rt, jc, user, st, p) \<in> ds_saves s. proposal_open (cu_id user) p (ds_db s))"

text \<open>What a step does to the proposals: nothing, new ones elsewhere, or the use of one by a save.\<close>

definition proposals_step :: "doc_system \<Rightarrow> doc_event \<Rightarrow> doc_system \<Rightarrow> bool" where
  "proposals_step s e s' \<longleftrightarrow>
     (e = Silent \<or> (\<exists>rt v ap. e = Finalized rt v ap)) \<and> set (proposals (ds_db s)) \<subseteq> set (proposals (ds_db s')) \<and> distinct (map pr_id (proposals (ds_db s')))
     \<or> (\<exists>rt jc user st p. (rt, jc, user, st, p) \<in> ds_saves s \<and> saved_as rt (cu_id user) p (ds_db s) (ds_db s')
          \<and> e = (case sv_proposal p of None \<Rightarrow> Silent | Some q \<Rightarrow> Applied q))"

lemma conv_proposals: "conv rt db db' \<Longrightarrow> doc_keyed db \<Longrightarrow> proposals db' = proposals db"
  by (auto simp: conv_def core_same_def rest_same_def adds_doc_def moves_app_def)

lemma save_event_of: "save_event (Inr None) p = Silent"
  "save_event (Inr (Some n)) p = (case sv_proposal p of None \<Rightarrow> Silent | Some q \<Rightarrow> Applied q)"
  by (simp_all add: save_event_def split: option.split)

lemma doc_step_proposals:
  assumes "doc_step s e s'" and "doc_inv es s" and "distinct (map pr_id (proposals (ds_db s)))"
  shows "proposals_step s e s'"
proof -
  have k: "doc_keyed (ds_db s)" using assms(2) by (simp add: doc_inv_def)
  have same: "proposals_step s e' s'" if "e' = Silent \<or> (\<exists>rt v ap. e' = Finalized rt v ap)" "proposals (ds_db s') = proposals (ds_db s)" for e'
    using that assms(3) by (simp add: proposals_step_def)
  from assms(1) show ?thesis
  proof (cases rule: doc_step.cases)
    case (D_create rt user rq r db')
    then show ?thesis using conv_proposals [OF movesD [OF create_conv D_create(3)] k] same by simp
  next
    case (D_convert copy src rt jc user rq i r db')
    then show ?thesis using conv_proposals [OF movesD [OF convert_conv [OF D_convert(4)] D_convert(3)] k] same by simp
  next
    case (D_patch rt user e' d r db')
    with patch_doc_store_result [OF D_patch(4) k] same show ?thesis by (auto simp: rest_same_def)
  next
    case (D_save rt jc user st p r db')
    from save_store_result [OF D_save(4) k] show ?thesis
    proof
      assume "db' = ds_db s \<and> (\<exists>x. r = Inl x) \<and> SAVE_VERSION rt (cu_id user) p (ds_db s) = (Inr None, ds_db s)"
      with D_save save_event_of(1) same show ?thesis by simp
    next
      assume "saved_as rt (cu_id user) p (ds_db s) db' \<and> fst (SAVE_VERSION rt (cu_id user) p (ds_db s)) = Inr (Some (next_number (dc_id (sv_doc p)) (ds_db s)))
        \<and> (\<forall>rs. r = Inr rs \<longrightarrow> rs = data st (saved_json rt (cu_id user) p (next_number (dc_id (sv_doc p)) (ds_db s))) (rr_rid rt))"
      then have "saved_as rt (cu_id user) p (ds_db s) (ds_db s')" "e = (case sv_proposal p of None \<Rightarrow> Silent | Some q \<Rightarrow> Applied q)"
        using save_event_of(2) D_save(1,2) by simp_all
      with D_save(3) show ?thesis unfolding proposals_step_def by blast
    qed
  next
    case (D_final rt user p rs db')
    with final_store_result [OF D_final(4) k] same show ?thesis by (auto simp: finalized_as_def)
  next
    case (D_final_refused rt user p x db')
    with final_store_result [OF D_final_refused(4) k] same show ?thesis by auto
  next
    case (D_archive rt user e' d r db')
    with archive_store_result [OF D_archive(4) k] same show ?thesis by (auto simp: rest_same_def)
  next
    case (D_export rt x r db')
    then show ?thesis using same by (auto simp: export_store_def seq_simps)
  next
    case (D_result rt user rq i x r db')
    then show ?thesis using movesD [OF record_same D_result(3)] same by (simp add: result_same_def)
  next
    case (D_fill i d u vid content blocks quality now)
    then show ?thesis using same by (simp add: FILL_PROFILE_def)
  next
    case (D_elsewhere db')
    then show ?thesis by (simp add: proposals_step_def elsewhere_def)
  next
    case (D_patch_read rt user rq i e d db')
    then show ?thesis using patch_doc_read_seen [OF D_patch_read(3) k] same by simp
  next
    case (D_version_read rt user rq i p db' jc)
    then show ?thesis using version_read_seen [OF D_version_read(3) k] same by simp
  next
    case (D_apply_read rt user rq i q p db' jc)
    then show ?thesis using apply_read_seen [OF D_apply_read(3) k] same by simp
  next
    case (D_edits_read rt user rq i p db' jc)
    then show ?thesis using edits_read_seen [OF D_edits_read(3) k] same by simp
  next
    case (D_final_read rt user rq i p db')
    then show ?thesis using final_read_seen [OF D_final_read(3) k] same by simp
  next
    case (D_archive_read rt user rq i e d db')
    then show ?thesis using archive_read_seen [OF D_archive_read(3) k] same by simp
  next
    case (D_export_read rt user rq i x db')
    then show ?thesis using export_read_seen [OF D_export_read(3) k] same by auto
  qed
qed

text \<open>What a save does to the proposal of another plan.\<close>

lemma used_proposals:
  assumes "saved_as rt u p db db'"
  shows "map pr_id (proposals db') = map pr_id (proposals db)"
    and "r \<in> set (proposals db) \<Longrightarrow> Some (pr_id r) \<noteq> sv_proposal p \<or> pr_user r \<noteq> u \<Longrightarrow> r \<in> set (proposals db')"
    and "r \<in> set (proposals db) \<Longrightarrow> \<exists>r' \<in> set (proposals db'). pr_id r' = pr_id r \<and> pr_user r' = pr_user r \<and> pr_doc r' = pr_doc r
       \<and> pr_source_revision r' = pr_source_revision r \<and> (pr_applied r \<noteq> None \<longrightarrow> pr_applied r' \<noteq> None)"
    and "r \<in> set (proposals db) \<Longrightarrow> Some (pr_id r) = sv_proposal p \<Longrightarrow> pr_user r = u \<Longrightarrow> \<exists>r' \<in> set (proposals db'). pr_id r' = pr_id r \<and> pr_applied r' \<noteq> None"
proof -
  let ?f = "\<lambda>r. if Some (pr_id r) = sv_proposal p \<and> pr_user r = u then r\<lparr>pr_applied := Some (rr_now rt)\<rparr> else r"
  have f: "proposals db' = map ?f (proposals db)" using assms by (simp add: saved_as_def)
  show "map pr_id (proposals db') = map pr_id (proposals db)" by (simp add: f comp_def)
  have m: "r \<in> set (proposals db) \<Longrightarrow> ?f r \<in> set (proposals db')" for r unfolding f set_map by (rule imageI)
  show "r \<in> set (proposals db) \<Longrightarrow> Some (pr_id r) \<noteq> sv_proposal p \<or> pr_user r \<noteq> u \<Longrightarrow> r \<in> set (proposals db')" using m [of r] by auto
  show "r \<in> set (proposals db) \<Longrightarrow> \<exists>r' \<in> set (proposals db'). pr_id r' = pr_id r \<and> pr_user r' = pr_user r \<and> pr_doc r' = pr_doc r
       \<and> pr_source_revision r' = pr_source_revision r \<and> (pr_applied r \<noteq> None \<longrightarrow> pr_applied r' \<noteq> None)"
    by (rule rev_bexI [OF m]) auto
  show "r \<in> set (proposals db) \<Longrightarrow> Some (pr_id r) = sv_proposal p \<Longrightarrow> pr_user r = u \<Longrightarrow> \<exists>r' \<in> set (proposals db'). pr_id r' = pr_id r \<and> pr_applied r' \<noteq> None"
    by (rule rev_bexI [OF m]) auto
qed

lemma saves_step:
  assumes "doc_step s e s'" and "doc_keyed (ds_db s)" and "(rt, jc, user, st, p) \<in> ds_saves s'"
  shows "(rt, jc, user, st, p) \<in> ds_saves s \<or> proposal_open (cu_id user) p (ds_db s)"
  using assms(1)
proof (cases rule: doc_step.cases)
  case (D_version_read rt' user' rq i q db' jc')
  then show ?thesis using assms(3) version_read_seen [OF D_version_read(3) assms(2)] by (auto simp: proposal_open_def)
next
  case (D_apply_read rt' user' rq i x q db' jc')
  have "proposal_open (cu_id user') q (ds_db s)"
    using apply_read_seen [OF D_apply_read(3) assms(2)] by (force simp: proposal_open_def)
  then show ?thesis using assms(3) D_apply_read by auto
next
  case (D_edits_read rt' user' rq i q db' jc')
  then show ?thesis using assms(3) edits_read_seen [OF D_edits_read(3) assms(2)] by (auto simp: proposal_open_def)
qed (use assms(3) in auto)

lemma one_proposal: "distinct (map pr_id (proposals db)) \<Longrightarrow> r \<in> set (proposals db) \<Longrightarrow> r' \<in> set (proposals db) \<Longrightarrow> pr_id r = pr_id r' \<Longrightarrow> r = r'"
  using find_key [of pr_id "proposals db"] by (metis option.inject)

text \<open>A save that applies a proposal moves its document past the revision of the proposal.\<close>

lemma save_passes:
  assumes "proposals_ok s" and "(rt, jc, user, st, x) \<in> ds_saves s" and "saved_as rt (cu_id user) x (ds_db s) (ds_db s')"
    and "r \<in> set (proposals (ds_db s))" and "sv_proposal x = Some (pr_id r)"
  shows "\<exists>d. doc_of (pr_doc r) (ds_db s') = Some d \<and> pr_source_revision r < dc_revision d"
    and "\<exists>d. doc_of (pr_doc r) (ds_db s) = Some d \<and> pr_source_revision r = dc_revision d" and "pr_user r = cu_id user"
proof -
  obtain r' where r': "r' \<in> set (proposals (ds_db s))" "pr_id r' = pr_id r" "pr_doc r' = dc_id (sv_doc x)" "pr_source_revision r' = sv_expected x"
      "pr_user r' = cu_id user"
    using assms(1,2,5) by (force simp: proposals_ok_def proposal_open_def)
  then have "r' = r" using one_proposal assms(1,4) by (metis proposals_ok_def)
  with r' assms(3) show "\<exists>d. doc_of (pr_doc r) (ds_db s') = Some d \<and> pr_source_revision r < dc_revision d"
    "\<exists>d. doc_of (pr_doc r) (ds_db s) = Some d \<and> pr_source_revision r = dc_revision d" "pr_user r = cu_id user"
    by (auto simp: saved_as_def wrote_def own_doc_def moved_on_def)
qed

text \<open>An open plan stays open: its proposal is applied only by a save that moves the document on.\<close>

lemma open_later:
  assumes "proposals_step s e s'" and "proposal_open u p (ds_db s)" and "dr.grown (ds_db s) (ds_db s')" and "proposals_ok s"
  shows "proposal_open u p (ds_db s')"
  unfolding proposal_open_def
proof (intro allI impI)
  fix q assume q: "sv_proposal p = Some q"
  obtain r where r: "r \<in> set (proposals (ds_db s))" "pr_id r = q" "pr_user r = u" "pr_doc r = dc_id (sv_doc p)" "pr_source_revision r = sv_expected p"
      "pr_applied r = None \<or> (\<exists>d. doc_of (dc_id (sv_doc p)) (ds_db s) = Some d \<and> sv_expected p < dc_revision d)"
    using assms(2) q by (auto simp: proposal_open_def)
  have passed: "\<exists>d. doc_of (dc_id (sv_doc p)) (ds_db s') = Some d \<and> sv_expected p < dc_revision d"
    if "\<exists>d. doc_of (dc_id (sv_doc p)) (ds_db s) = Some d \<and> sv_expected p < dc_revision d"
    using that dr.grown_row [OF assms(3)] by fastforce
  from assms(1) consider "set (proposals (ds_db s)) \<subseteq> set (proposals (ds_db s'))"
    | rt jc user st x where "(rt, jc, user, st, x) \<in> ds_saves s" "saved_as rt (cu_id user) x (ds_db s) (ds_db s')"
    unfolding proposals_step_def by blast
  then show "\<exists>r \<in> set (proposals (ds_db s')). pr_id r = q \<and> pr_user r = u \<and> pr_doc r = dc_id (sv_doc p) \<and> pr_source_revision r = sv_expected p
     \<and> (pr_applied r = None \<or> (\<exists>d. doc_of (dc_id (sv_doc p)) (ds_db s') = Some d \<and> sv_expected p < dc_revision d))"
  proof cases
    case 1
    with r passed show ?thesis by blast
  next
    case 2
    show ?thesis
    proof (cases "sv_proposal x = Some (pr_id r)")
      case True
      from save_passes(1) [OF assms(4) 2 r(1) True] r(4,5)
      have "\<exists>d. doc_of (dc_id (sv_doc p)) (ds_db s') = Some d \<and> sv_expected p < dc_revision d" by simp
      with used_proposals(3) [OF 2(2) r(1)] r(2-5) show ?thesis by metis
    next
      case False
      then have "Some (pr_id r) \<noteq> sv_proposal x \<or> pr_user r \<noteq> cu_id user" by metis
      with used_proposals(2) [OF 2(2) r(1)] r passed show ?thesis by blast
    qed
  qed
qed

lemma proposals_ok_step:
  assumes "doc_step s e s'" and "doc_inv es s" and "proposals_ok s"
  shows "proposals_ok s'"
proof -
  have k: "doc_keyed (ds_db s)" using assms(2) by (simp add: doc_inv_def)
  have ps: "proposals_step s e s'" by (rule doc_step_proposals [OF assms(1,2)]) (use assms(3) in \<open>simp add: proposals_ok_def\<close>)
  have g: "dr.grown (ds_db s) (ds_db s')" using doc_step_inv [OF assms(1,2)] by (simp add: steps_to_def)
  have "distinct (map pr_id (proposals (ds_db s')))"
    using ps assms(3) used_proposals(1) unfolding proposals_step_def proposals_ok_def by metis
  moreover have "proposal_open (cu_id user) p (ds_db s')" if "(rt, jc, user, st, p) \<in> ds_saves s'" for rt jc user st p
    using saves_step [OF assms(1) k that] open_later [OF ps _ g assms(3)] assms(3) by (auto simp: proposals_ok_def)
  ultimately show ?thesis by (auto simp: proposals_ok_def)
qed

definition applied :: "doc_event \<Rightarrow> string option" where
  "applied e = (case e of Applied q \<Rightarrow> Some q | _ \<Rightarrow> None)"

interpretation proposal: claim "\<lambda>s e s'. (\<exists>es. doc_inv es s) \<and> proposals_ok s \<and> doc_step s e s'" applied applied_proposal
proof
  fix s e s' q
  assume a: "(\<exists>es. doc_inv es s) \<and> proposals_ok s \<and> doc_step s e s'"
  then have ps: "proposals_step s e s'" using doc_step_proposals by (auto simp: proposals_ok_def)
  show "applied_proposal q s'" if t: "applied_proposal q s"
  proof -
    obtain r where r: "r \<in> set (proposals (ds_db s))" "pr_id r = q" "pr_applied r \<noteq> None" using t by (auto simp: applied_proposal_def)
    with ps used_proposals(3) [OF _ r(1)] show ?thesis unfolding proposals_step_def applied_proposal_def by blast
  qed
  show "\<not> applied_proposal q s \<and> applied_proposal q s'" if "applied e = Some q"
  proof -
    have e: "e = Applied q" using that by (auto simp: applied_def split: doc_event.splits)
    with ps obtain rt jc user st p where p: "(rt, jc, user, st, p) \<in> ds_saves s" "saved_as rt (cu_id user) p (ds_db s) (ds_db s')" "sv_proposal p = Some q"
      unfolding proposals_step_def by (auto split: option.splits)
    obtain r where r: "r \<in> set (proposals (ds_db s))" "pr_id r = q" "pr_user r = cu_id user" "pr_doc r = dc_id (sv_doc p)" "pr_source_revision r = sv_expected p"
        "pr_applied r = None \<or> (\<exists>d. doc_of (dc_id (sv_doc p)) (ds_db s) = Some d \<and> sv_expected p < dc_revision d)"
      using a p(1,3) by (force simp: proposals_ok_def proposal_open_def)
    have "sv_proposal p = Some (pr_id r)" using p(3) r(2) by simp
    from save_passes(2) [OF _ p(1,2) r(1) this] a r(4,5) obtain d where "doc_of (dc_id (sv_doc p)) (ds_db s) = Some d" "sv_expected p = dc_revision d" by auto
    with r(6) have n: "pr_applied r = None" by auto
    have "\<not> applied_proposal q s"
      using one_proposal [OF _ r(1)] a n r(2) by (auto simp: applied_proposal_def proposals_ok_def) metis
    moreover have "applied_proposal q s'"
      using used_proposals(4) [OF p(2) r(1)] p(3) r(2,3) by (auto simp: applied_proposal_def)
    ultimately show ?thesis by simp
  qed
qed

lemma proposals_ok_run: "run doc_step (doc_start db) es s \<Longrightarrow> doc_clean db \<Longrightarrow> distinct (map pr_id (proposals db)) \<Longrightarrow>
    proposals_ok s \<and> run (\<lambda>s e s'. (\<exists>es. doc_inv es s) \<and> proposals_ok s \<and> doc_step s e s') (doc_start db) es s"
proof (induction "doc_start db" es s rule: run.induct)
  case run_start
  then show ?case by (auto simp: proposals_ok_def doc_start_def intro: run.run_start)
next
  case (run_more es s1 e s2)
  have "doc_inv es s1" by (rule doc_run_inv [OF run_more.hyps(1) run_more.prems(1)])
  with run_more proposals_ok_step [OF run_more.hyps(3)] show ?case by (blast intro: run.run_more)
qed

end
