(* ===== verification/Doc_Extras.thy ===== *)
theory Doc_Extras
  imports Doc_Runs
begin

text \<open>Markdown as a document is always valid; and the life of a share.\<close>

subsection \<open>Markdown\<close>

lemma md_kind: "fst (md_line l) = ''heading'' \<or> fst (md_line l) = ''paragraph''"
  by (auto simp: md_line_def split: option.split)

lemma md_lines_kind: "l \<in> set (md_lines md) \<Longrightarrow> fst l = ''heading'' \<or> fst l = ''paragraph''"
  using md_kind by (auto simp: md_lines_def Let_def split: if_splits)

lemma md_node_tree:
  assumes "kind = ''heading'' \<or> kind = ''paragraph''" and "bid \<noteq> []"
  shows "tree_blocks (md_node bid (kind, as, t)) = [(bid, t)]" and "tree_ok (md_node bid (kind, as, t))"
proof -
  let ?n = "md_node bid (kind, as, t)"
  have c: "children ?n = [JObj [(''type'', JStr ''text''), (''text'', JStr t)]]" and o: "own_text ?n = []" and m: "marks_of ?n = []" and u: "\<not> nullish ?n"
    and k: "jget ?n ''type'' = JStr kind" "is_object (jget ?n ''attrs'')" "jget (jget ?n ''attrs'') ''blockId'' = JStr bid"
    by (simp_all add: md_node_def node_defs marks_of_def is_object_def)
  have b: "kind \<in> set BLOCK_NODES" "kind \<in> set ALLOWED" using assms(1) by (auto simp: BLOCK_NODES_def ALLOWED_def)
  have "tree_text ?n = t" by (simp add: tree_text.simps [of ?n] c o text_node)
  with k b have "own_block ?n = [(bid, t)]" by (simp add: own_block_def)
  then show "tree_blocks ?n = [(bid, t)]" by (simp add: tree_blocks.simps [of ?n] c text_node)
  show "tree_ok ?n" using assms(2) k b by (simp add: tree_ok.simps [of ?n] c text_node node_ok_def m u truthy_def)
qed

lemma block_id_inj: "inj block_id"
  by (rule injI) (metis block_id_def append_eq_append_conv dec_val_nat_dec)

text \<open>C13: Markdown becomes a valid document. Whatever the text of a source, the document it is converted to follows the
  rules of documents: its blocks are exactly those of its nodes, under distinct ids.\<close>

theorem markdown_valid: "validateDocumentContent (fst (mdToDoc md)) (snd (mdToDoc md)) = Inr ()"
proof -
  let ?ids = "map block_id [1..<Suc (length (md_lines md))]"
  let ?ls = "zip ?ids (md_lines md)"
  have c: "fst (mdToDoc md) = JObj [(''type'', JStr ''doc''), (''content'', JArr (map (\<lambda>(bid, l). md_node bid l) ?ls))]"
    and bs: "snd (mdToDoc md) = map (\<lambda>(bid, _, _, t). md_block bid t) ?ls" by (simp_all add: mdToDoc_def Let_def del: upt_Suc)
  let ?c = "JObj [(''type'', JStr ''doc''), (''content'', JArr (map (\<lambda>(bid, l). md_node bid l) ?ls))] :: jv"
  have l: "fst l = ''heading'' \<or> fst l = ''paragraph''" "bid \<noteq> []" if "(bid, l) \<in> set ?ls" for bid l
    using that md_lines_kind set_zip_rightD [OF that] set_zip_leftD [OF that] by (auto simp: block_id_def)
  have ch: "children ?c = map (\<lambda>(bid, l). md_node bid l) ?ls" by (simp add: node_defs)
  have ob: "own_block ?c = []" by (simp add: own_block_def node_defs BLOCK_NODES_def)
  have nb: "concat (map tree_blocks (map (\<lambda>(bid, l). md_node bid l) xs)) = map (\<lambda>(bid, _, _, t). (bid, t)) xs"
    if "\<forall>(bid, l) \<in> set xs. (fst l = ''heading'' \<or> fst l = ''paragraph'') \<and> bid \<noteq> []" for xs
    using that md_node_tree(1) by (induction xs) auto
  have tb: "tree_blocks ?c = map (\<lambda>(bid, _, _, t). (bid, t)) ?ls"
    unfolding tree_blocks.simps [of ?c] ch ob append_Nil by (rule nb) (use l in blast)
  have ids: "map fst (map (\<lambda>(bid, _, _, t). (bid, t)) ?ls) = ?ids"
    by (simp add: comp_def case_prod_beta del: upt_Suc)
  have d: "distinct ?ids" using block_id_inj by (simp add: distinct_map inj_on_def inj_def del: upt_Suc)
  have k: "tree_ok ?c"
  proof -
    have "node_ok ?c" by (simp add: node_ok_def node_defs marks_of_def ALLOWED_def BLOCK_NODES_def)
    moreover have "tree_ok n" if "n \<in> set (map (\<lambda>(bid, l). md_node bid l) ?ls)" for n
      using that l md_node_tree(2) by (auto simp del: upt_Suc)
    ultimately show ?thesis unfolding tree_ok.simps [of ?c] ch by blast
  qed
  have bi: "map bk_id (map (\<lambda>(bid, _, _, t). md_block bid t) ?ls) = ?ids" "map (\<lambda>b. (bk_id b, bk_text b)) (map (\<lambda>(bid, _, _, t). md_block bid t) ?ls) = map (\<lambda>(bid, _, _, t). (bid, t)) ?ls"
    using ids by (simp_all add: md_block_def comp_def case_prod_beta del: upt_Suc)
  have ne: "\<forall>b \<in> set (map (\<lambda>(bid, _, _, t). md_block bid t) ?ls). bk_id b \<noteq> []"
  proof -
    have "[] \<notin> set (map bk_id (map (\<lambda>(bid, _, _, t). md_block bid t) ?ls))" unfolding bi by (auto simp: block_id_def)
    then show ?thesis by (simp only: no_blank)
  qed
  show ?thesis
    unfolding c bs valid_content tb ids bi using d k ne by (simp add: is_object_def jget_def Prelude.fields_def del: upt_Suc set_map)
qed

subsection \<open>Shares\<close>

text \<open>At most one share of a document is live, as the index demands, and tokens are not repeated.\<close>

definition shares_ok :: "share_row list \<Rightarrow> bool" where
  "shares_ok rows \<longleftrightarrow> distinct (map sh_doc (filter live rows)) \<and> distinct (map sh_token rows)"

lemma revoke_live_rows: "map sh_token (revoke_live d now rows) = map sh_token rows"
  "filter live (revoke_live d now rows) = filter (\<lambda>s. live s \<and> sh_doc s \<noteq> d) rows"
  by (induction rows) (auto simp: revoke_live_def live_def)

lemma insert_share_Inr: "insert_share s rows = Inr rows' \<longleftrightarrow> (\<forall>x \<in> set rows. \<not> (sh_doc x = sh_doc s \<and> live x)) \<and> sh_token s \<notin> sh_token ` set rows \<and> rows' = rows @ [s]"
  by (auto simp: insert_share_def list_ex_iff image_iff dest: sym)

text \<open>The rows after a successful share, whichever part of the statement ran first.\<close>

lemma share_rows:
  assumes "SHARE rf s db = (Inr (), db')" and "shares db = Some rows"
  shows "shares db' = Some (revoke_live (sh_doc s) (sh_created s) rows @ [s]) \<and> docs db' = docs db \<and> versions db' = versions db
    \<and> sh_token s \<notin> sh_token ` set rows"
proof -
  have t: "sh_token ` set (revoke_live d n rows) = sh_token ` set rows" for d n
    using arg_cong [OF revoke_live_rows(1) [of d n rows], of set] by simp
  from assms t show ?thesis
    by (auto simp: SHARE_def insert_share_Inr split: sum.splits if_splits)
qed

lemma share_missing_Inr: "shares_missing m db = (Inr a, db') \<longleftrightarrow> m db = (Inr a, db')"
  by (auto simp: shares_missing_def catching_def split: prod.split sum.split)

text \<open>The row of a new share, and the version it pins: the requested one, otherwise the latest.\<close>

definition share_of :: "route_rt \<Rightarrow> user_row \<Rightarrow> string \<Rightarrow> doc_row \<Rightarrow> version_row \<Rightarrow> share_row" where
  "share_of rt user token d v = \<lparr>sh_id = rr_uuid rt 0, sh_doc = dc_id d, sh_version = vr_id v, sh_token = rr_sha rt token,
     sh_by = cu_id user, sh_created = rr_now rt, sh_revoked = None\<rparr>"

definition to_pin :: "string \<Rightarrow> doc_row \<Rightarrow> string option" where
  "to_pin requested d = (if requested \<noteq> [] then Some requested else dc_latest d)"

lemma share_result:
  assumes "shareDocument rf rt token user rq idRaw db = (Inr rs, db')" and "shares db = Some rows"
  shows "\<exists>requested d v. requireUuid idRaw ''id'' = Inr (dc_id d) \<and> share_body rt rq = Inr requested
    \<and> doc_at (dc_id d) (cu_id user) db = Some d \<and> to_pin requested d = Some (vr_id v) \<and> version_at (dc_id d) (vr_id v) (cu_id user) db = Some v
    \<and> rs = data 200 (JObj [(''token'', JStr token), (''path'', JStr (share_path token)), (''versionId'', JStr (vr_id v)),
        (''createdAt'', JStr (stamp (rr_now rt)))]) (rr_rid rt)
    \<and> shares db' = Some (revoke_live (dc_id d) (rr_now rt) rows @ [share_of rt user token d v]) \<and> docs db' = docs db \<and> versions db' = versions db
    \<and> rr_sha rt token \<notin> sh_token ` set rows"
proof -
  obtain i requested d vid v where r: "requireUuid idRaw ''id'' = Inr i" "share_body rt rq = Inr requested" "doc_at i (cu_id user) db = Some d"
      "to_pin requested d = Some vid" "version_at i vid (cu_id user) db = Some v"
      "SHARE rf \<lparr>sh_id = rr_uuid rt 0, sh_doc = i, sh_version = vid, sh_token = rr_sha rt token,
            sh_by = cu_id user, sh_created = rr_now rt, sh_revoked = None\<rparr> db = (Inr (), db')"
      "rs = data 200 (JObj [(''token'', JStr token), (''path'', JStr (share_path token)), (''versionId'', JStr vid),
        (''createdAt'', JStr (stamp (rr_now rt)))]) (rr_rid rt)"
    using assms(1) unfolding shareDocument_def Let_def
    by (auto simp: prog_results loadDocument_def loadVersion_def share_missing_Inr to_pin_def split: if_splits option.splits)
  have d: "dc_id d = i" "vr_id v = vid" using r(3,5) by (auto simp: doc_at_def version_at_def dest: find_keyD)
  have s: "shares db' = Some (revoke_live i (rr_now rt) rows @ [share_of rt user token d v])" "docs db' = docs db" "versions db' = versions db"
      "rr_sha rt token \<notin> sh_token ` set rows"
    using share_rows [OF r(6) assms(2)] d by (simp_all add: share_of_def)
  from r s show ?thesis unfolding d [symmetric] by blast
qed

lemma shares_ok_after:
  assumes "shares_ok rows" and "sh_token s \<notin> sh_token ` set rows" and "live s"
  shows "shares_ok (revoke_live (sh_doc s) now rows @ [s])"
proof -
  have "sh_token ` set (revoke_live (sh_doc s) now rows) = sh_token ` set rows"
    using arg_cong [OF revoke_live_rows(1), of set] by simp
  moreover have "distinct (map sh_doc (filter (\<lambda>x. live x \<and> sh_doc x \<noteq> sh_doc s) rows))"
    using assms(1) by (auto simp: shares_ok_def distinct_map inj_on_def)
  ultimately show ?thesis using assms by (auto simp: shares_ok_def revoke_live_rows)
qed

text \<open>No row that was there before answers the new token or an earlier one of the document.\<close>

lemma revoked_unfound:
  assumes "shares_ok rows" and "t \<notin> sh_token ` set rows" and "h = t \<or> (\<exists>x \<in> set rows. sh_doc x = d \<and> sh_token x = h)"
  shows "find (\<lambda>x. sh_token x = h \<and> live x) (revoke_live d now rows) = None"
proof -
  have "\<not> (sh_token x = h \<and> live x)" if x: "x \<in> set (revoke_live d now rows)" for x
  proof
    assume h: "sh_token x = h \<and> live x"
    then have "x \<in> set (filter live (revoke_live d now rows))" using x by simp
    then have m: "x \<in> set rows" "sh_doc x \<noteq> d" unfolding revoke_live_rows by auto
    then have "h \<noteq> t" using assms(2) h by (metis imageI)
    then obtain y where y: "y \<in> set rows" "sh_doc y = d" "sh_token y = h" using assms(3) by blast
    then have "y = x" using m(1) h assms(1) by (auto simp: shares_ok_def distinct_map inj_on_def)
    with m(2) y(2) show False by simp
  qed
  then show ?thesis by (simp add: find_None_iff)
qed

text \<open>C14: The life of a share. A successful share pins a version of the caller's document that is in the table: the
  requested one, otherwise the latest; its row is then the one live share of the document, its token
  reads exactly that document and version, and every token that was shared for the document before
  reads nothing any more.\<close>

theorem share_replaces:
  assumes "shareDocument rf rt token user rq idRaw db = (Inr rs, db')" and "shares db = Some rows" and "shares_ok rows"
    and "doc_keyed db"
  shows "\<exists>requested (d :: doc_row) (v :: version_row) rows'. requireUuid idRaw ''id'' = Inr (dc_id d) \<and> share_body rt rq = Inr requested
    \<and> d \<in> set (docs db) \<and> dc_user d = cu_id user \<and> v \<in> set (versions db) \<and> vr_doc v = dc_id d \<and> to_pin requested d = Some (vr_id v)
    \<and> rs = data 200 (JObj [(''token'', JStr token), (''path'', JStr (share_path token)), (''versionId'', JStr (vr_id v)),
        (''createdAt'', JStr (stamp (rr_now rt)))]) (rr_rid rt)
    \<and> shares db' = Some rows' \<and> shares_ok rows' \<and> filter (\<lambda>x. live x \<and> sh_doc x = dc_id d) rows' = [share_of rt user token d v]
    \<and> readShare rt token db' = (Inr (data 200 (JObj [(''title'', JStr (dc_title d)), (''kind'', JStr (dc_kind d)), (''content'', jsonValue rt (vr_content v)),
         (''blocks'', blocks_json (blocksOf (jsonValue rt (vr_blocks v))))]) (rr_rid rt)), db')
    \<and> (\<forall>token'. (\<exists>s \<in> set rows. sh_doc s = dc_id d \<and> sh_token s = rr_sha rt token') \<longrightarrow> readShare rt token' db' = (Inl not_found_error, db'))"
proof -
  obtain requested d v where q: "requireUuid idRaw ''id'' = Inr (dc_id d)" "share_body rt rq = Inr requested"
      "doc_at (dc_id d) (cu_id user) db = Some d" "to_pin requested d = Some (vr_id v)" "version_at (dc_id d) (vr_id v) (cu_id user) db = Some v"
      "rs = data 200 (JObj [(''token'', JStr token), (''path'', JStr (share_path token)), (''versionId'', JStr (vr_id v)),
        (''createdAt'', JStr (stamp (rr_now rt)))]) (rr_rid rt)"
      and db': "shares db' = Some (revoke_live (dc_id d) (rr_now rt) rows @ [share_of rt user token d v])" "docs db' = docs db" "versions db' = versions db"
      and new: "rr_sha rt token \<notin> sh_token ` set rows"
    using share_result [OF assms(1,2)] by (elim exE conjE) (rule that)
  have r: "requireUuid idRaw ''id'' = Inr (dc_id d)" "d \<in> set (docs db)" "v \<in> set (versions db)" "vr_doc v = dc_id d" "dc_user d = cu_id user"
    using q(1,3,5) by (auto simp: doc_at_def version_at_def dest: find_keyD)
  let ?s = "share_of rt user token d v"
  let ?rows = "revoke_live (dc_id d) (rr_now rt) rows @ [?s]"
  have l: "live ?s" "sh_token ?s = rr_sha rt token" "sh_doc ?s = dc_id d" "sh_version ?s = vr_id v" by (simp_all add: share_of_def live_def)
  have one: "filter (\<lambda>x. live x \<and> sh_doc x = dc_id d) ?rows = [?s]"
  proof -
    have "filter (\<lambda>x. live x \<and> sh_doc x = dc_id d) (revoke_live (dc_id d) (rr_now rt) rows)
        = filter (\<lambda>x. sh_doc x = dc_id d) (filter live (revoke_live (dc_id d) (rr_now rt) rows))" by (simp add: conj_commute)
    also have "\<dots> = []" unfolding revoke_live_rows by (simp add: filter_empty_conv)
    finally show ?thesis using l by simp
  qed
  have ok: "shares_ok ?rows" using shares_ok_after [OF assms(3) _ l(1)] new l by simp
  note other = revoked_unfound [OF assms(3) new, where now = "rr_now rt" and d = "dc_id d"]
  have row: "shared_row (rr_sha rt token) db' = (Inr (Some (d, v)), db')"
  proof -
    have "find (\<lambda>x. sh_token x = rr_sha rt token \<and> live x) ?rows = Some ?s" using other [of "rr_sha rt token"] l by (simp add: find_append)
    moreover have "find (\<lambda>x. dc_id x = sh_doc ?s) (docs db) = Some d" "find (\<lambda>x. vr_id x = sh_version ?s) (versions db) = Some v"
      using assms(4) find_key [of dc_id "docs db" d] find_key [of vr_id "versions db" v] r(2,3) by (simp_all add: doc_keyed_def l)
    ultimately show ?thesis by (simp add: shared_row_def db')
  qed
  have none: "shared_row (rr_sha rt t) db' = (Inr None, db')" if "\<exists>x \<in> set rows. sh_doc x = dc_id d \<and> sh_token x = rr_sha rt t" for t
  proof -
    have "rr_sha rt t \<noteq> rr_sha rt token" using that new by (metis imageI)
    then show ?thesis using other [of "rr_sha rt t"] that l by (simp add: shared_row_def db' find_append)
  qed
  have m: "shares_missing (shared_row h) db' = shared_row h db'" if "shared_row h db' = (Inr x, db')" for h x
    using that by (simp add: shares_missing_def catching_def)
  have rd: "readShare rt token db' = (Inr (data 200 (JObj [(''title'', JStr (dc_title d)), (''kind'', JStr (dc_kind d)), (''content'', jsonValue rt (vr_content v)),
         (''blocks'', blocks_json (blocksOf (jsonValue rt (vr_blocks v))))]) (rr_rid rt)), db')"
    by (simp add: readShare_def and_then_def m [OF row] row from_option_def)
  have nn: "readShare rt t db' = (Inl not_found_error, db')" if e: "\<exists>x \<in> set rows. sh_doc x = dc_id d \<and> sh_token x = rr_sha rt t" for t
    using m [OF none [OF e]] none [OF e] by (simp add: readShare_def and_then_def from_option_def)
  have sh: "shares db' = Some ?rows" by (simp add: db')
  from r q(2,4,6) sh ok one rd nn show ?thesis by blast
qed

text \<open>C15: Sharing again. The statement revokes the live share in a part the insert does not refer to, whose order is not
  specified. Where the insert runs first, a document that is shared cannot be shared again: the unique
  index refuses the row, the request fails with the error of the database, and nothing changes.\<close>

theorem share_again_fails:
  assumes "requireUuid idRaw ''id'' = Inr i" and "share_body rt rq = Inr []" and "doc_at i (cu_id user) db = Some d"
    and "dc_latest d = Some vid" and "vid \<noteq> []" and "version_at i vid (cu_id user) db = Some v"
    and "shares db = Some rows" and "\<exists>s \<in> set rows. sh_doc s = i \<and> live s"
  shows "shareDocument False rt token user rq idRaw db = (Inl duplicate_share, db)"
proof -
  have "SHARE False \<lparr>sh_id = rr_uuid rt 0, sh_doc = i, sh_version = vid, sh_token = rr_sha rt token,
            sh_by = cu_id user, sh_created = rr_now rt, sh_revoked = None\<rparr> db = (Inl duplicate_share, db)"
    using assms(7,8) by (auto simp: SHARE_def insert_share_def list_ex_iff)
  moreover have "\<not> isMissingRelation duplicate_share" by code_simp
  ultimately show ?thesis
    using assms(1-6) by (simp add: shareDocument_def Let_def seq_simps loadDocument_def loadVersion_def and_then_assoc)
      (simp add: shares_missing_def catching_def and_then_def)
qed

end
