(* ===== verification/Doc_Theorems.thy ===== *)
theory Doc_Theorems
  imports Doc_Claims Doc_Extras
begin

text \<open>The properties of documents: what is exported, finalized, saved and applied, with runs that show it.\<close>

subsection \<open>Properties\<close>

text \<open>C2: What is exported was approved. In every interleaving of the statements of the handlers of documents,
  an export shows the content of a version of its document, and that version was finalized before,
  unless the document is a profile.\<close>

theorem exports_finalized:
  assumes "run doc_step (doc_start db) es s" and "doc_clean db" and "e \<in> set (exports (ds_db s))"
  shows "\<exists>d v. doc_of (ex_doc e) (ds_db s) = Some d \<and> v \<in> set (versions (ds_db s)) \<and> vr_id v = ex_version e \<and> vr_doc v = ex_doc e
    \<and> vr_content v = ex_content e \<and> (dc_kind d = ''HUB_PROFILE'' \<or> finalized_in es (ex_version e))"
proof -
  have "export_key e \<in> set (map export_key (exports (ds_db s))) \<union> export_key ` snd ` ds_exports s" using assms(3) by simp
  then have "shown es (ds_db s) (export_key e)"
    using doc_run_inv [OF assms(1,2)] by (simp only: doc_inv_def exports_ok_def)
  then show ?thesis by (auto simp: shown_def export_key_def)
qed

text \<open>C3: A finalization uses its approval. When a finalization succeeds, in whatever interleaving, the approval is at
  that moment granted, of the right kind and application, for exactly that version, with the hash of its
  content and its supported blocks; the document becomes final with the version, and the approval is
  consumed in the same step.\<close>

theorem finalized_as_approved:
  assumes "run doc_step (doc_start db) es s" and "doc_clean db" and "doc_step s (Finalized rt vid ap) s'"
  shows "\<exists>r v d d' r'. approval_of_id ap (ds_db s) = Some r \<and> v \<in> set (versions (ds_db s)) \<and> vr_id v = vid
    \<and> doc_of (vr_doc v) (ds_db s) = Some d \<and> covers_version rt (dc_app d) v r
    \<and> doc_of (vr_doc v) (ds_db s') = Some d' \<and> dc_status d' = ''FINALIZED'' \<and> dc_final d' = Some vid
    \<and> approval_of_id ap (ds_db s') = Some r' \<and> av_status r' = ''CONSUMED''"
  using assms(3)
proof (cases rule: doc_step.cases)
  case (D_save rt' jc user st p r db')
  then show ?thesis by (simp add: save_event_def split: sum.splits option.splits)
next
  case (D_final user p rs db')
  have inv: "doc_inv es s" by (rule doc_run_inv [OF assms(1,2)])
  then have k: "doc_keyed (ds_db s)" and fs: "final_seen rt (cu_id user) p (ds_db s)"
    using D_final(4) by (auto simp: doc_inv_def pending_ok_def)
  have f: "finalized_as rt (cu_id user) p (ds_db s) db'" using final_store_result [OF D_final(5) k] by auto
  then obtain a where a: "doc_of (dc_id (fp_doc p)) (ds_db s) = Some a" "own_doc (cu_id user) (fp_expected p) a"
      "doc_of (dc_id (fp_doc p)) db' = Some (finalizing rt (fp_version p) (a\<lparr>dc_revision := dc_revision a + 1\<rparr>))"
    by (auto simp: finalized_as_def wrote_def)
  have c: "filled (fp_doc p) a"
    using dr.seen_current [of "dc_id (fp_doc p)" "fp_doc p" "ds_db s" a] fs a(1,2) by (auto simp: final_seen_def own_doc_def)
  obtain r where r: "approval_of_id (fp_approval p) (ds_db s) = Some r" "approval_matches (fp_approval p) (cu_id user) (fp_revision p) r"
    using f by (auto simp: finalized_as_def consumes_def)
  moreover have "final_version rt p r (ds_db s)" using fs r by (auto simp: final_seen_def approval_matches_def)
  then obtain v where v: "v \<in> set (versions (ds_db s))" "vr_id v = fp_version p" "vr_doc v = dc_id (fp_doc p)"
      "covers_version rt (dc_app a) v r" by (auto simp: final_version_def filled_same(4) [OF c])
  moreover obtain r' where "approval_of_id (fp_approval p) db' = Some r'" "av_status r' = ''CONSUMED''"
    using f unfolding finalized_as_def by (blast dest: consumed_after)
  ultimately show ?thesis using a D_final(1-3) by (auto simp: finalizing_def)
qed

text \<open>C4: Versions in order. In every interleaving of the statements of the handlers of documents with the fill of
  profile documents by the AI service, the versions of a document are numbered from 1 without gaps in
  the order they were saved, and its latest version is the last of them; only a profile document may
  have lost its latest version. Outside are the writes of the AI service's own document service.\<close>

theorem versions_in_order:
  assumes "run doc_step (doc_start db) es s" and "doc_clean db" and "doc_of i (ds_db s) = Some d"
  shows "map vr_number (doc_versions i (ds_db s)) = map int [1..<Suc (length (doc_versions i (ds_db s)))]
    \<and> (dc_latest d = (if doc_versions i (ds_db s) = [] then None else Some (vr_id (last (doc_versions i (ds_db s)))))
       \<or> dc_kind d = ''HUB_PROFILE'' \<and> dc_latest d = None)"
proof -
  have "numbered (ds_db s) d" "dc_id d = i"
    using doc_run_inv [OF assms(1,2)] assms(3) doc_of_id [OF assms(3)] by (auto simp: doc_inv_def all_numbered_def)
  then show ?thesis by (simp only: numbered_def latest_ok_def Let_def)
qed

text \<open>C5: No update is lost. Whatever steps of the handlers of documents and fills of profile documents came
  between the reads and the write, a version that is saved was made from the document as it is at
  that moment, except that a profile document that was read without a version may have got its first
  one; the answer shows the document and the version that are then stored, one revision later.
  Outside are the writes of the AI service's own document service.\<close>

theorem save_from_current:
  assumes "run doc_step (doc_start db) es s" and "doc_clean db" and "(rt, jc, user, st, p) \<in> ds_saves s"
    and "save_store rt jc user st p (ds_db s) = (Inr rs, db')"
  shows "(\<exists>d. doc_of (dc_id (sv_doc p)) (ds_db s) = Some d \<and> (d = sv_doc p \<or> dc_kind d = ''HUB_PROFILE'' \<and> dc_latest (sv_doc p) = None
        \<and> (\<exists>l t. d = (sv_doc p)\<lparr>dc_latest := l, dc_updated := t\<rparr>)))
    \<and> (\<exists>d v. doc_of (dc_id (sv_doc p)) db' = Some d \<and> dc_revision d = dc_revision (sv_doc p) + 1 \<and> dc_latest d = Some (vr_id v)
      \<and> versions db' = versions (ds_db s) @ [v] \<and> vr_content v = sv_content p \<and> vr_doc v = dc_id (sv_doc p)
      \<and> rs = data st (JObj [(''document'', documentDto d), (''version'', versionDto v)]) (rr_rid rt))"
proof -
  let ?n = "next_number (dc_id (sv_doc p)) (ds_db s)"
  have inv: "doc_inv es s" by (rule doc_run_inv [OF assms(1,2)])
  then have k: "doc_keyed (ds_db s)" and ss: "save_seen (cu_id user) p (ds_db s)"
    using assms(3) by (auto simp: doc_inv_def pending_ok_def)
  have f: "saved_as rt (cu_id user) p (ds_db s) db'" and rs: "rs = data st (saved_json rt (cu_id user) p ?n) (rr_rid rt)"
    using save_store_result [OF assms(4) k] by auto
  obtain a where a: "doc_of (dc_id (sv_doc p)) (ds_db s) = Some a" "own_doc (cu_id user) (sv_expected p) a"
      "doc_of (dc_id (sv_doc p)) db' = Some (moved_on rt (a\<lparr>dc_revision := dc_revision a + 1\<rparr>))"
    using f by (auto simp: saved_as_def wrote_def)
  have c: "filled (sv_doc p) a"
    using dr.seen_current [of "dc_id (sv_doc p)" "sv_doc p" "ds_db s" a] ss a(1,2) by (auto simp: save_seen_def own_doc_def)
  have e: "dc_revision (sv_doc p) = sv_expected p" using ss by (simp add: save_seen_def own_doc_def)
  have m: "moved_on rt (a\<lparr>dc_revision := n\<rparr>) = moved_on rt ((sv_doc p)\<lparr>dc_revision := n\<rparr>)" for n
    using c by (auto simp: filled_def moved_on_def)
  have ra: "dc_revision a = dc_revision (sv_doc p)" by (rule filled_same(3) [OF c])
  have j: "rs = data st (JObj [(''document'', documentDto (moved_on rt (a\<lparr>dc_revision := dc_revision a + 1\<rparr>))),
      (''version'', versionDto (version_of rt (cu_id user) p ?n))]) (rr_rid rt)" by (simp add: rs saved_json_def m ra e)
  have "versions db' = versions (ds_db s) @ [version_of rt (cu_id user) p ?n]" using f by (simp add: saved_as_def)
  moreover have "vr_content (version_of rt (cu_id user) p ?n) = sv_content p" "vr_doc (version_of rt (cu_id user) p ?n) = dc_id (sv_doc p)"
    "dc_latest (moved_on rt (a\<lparr>dc_revision := dc_revision a + 1\<rparr>)) = Some (vr_id (version_of rt (cu_id user) p ?n))"
    "dc_revision (moved_on rt (a\<lparr>dc_revision := dc_revision a + 1\<rparr>)) = dc_revision (sv_doc p) + 1"
    by (simp_all add: version_of_def moved_on_def ra)
  moreover have "a = sv_doc p \<or> dc_kind a = ''HUB_PROFILE'' \<and> dc_latest (sv_doc p) = None
      \<and> (\<exists>l t. a = (sv_doc p)\<lparr>dc_latest := l, dc_updated := t\<rparr>)"
    using c filled_same(5) [OF c] by (auto simp: filled_def)
  ultimately show ?thesis using a(1,3) j by blast
qed

text \<open>C6: A proposal is applied once. In no interleaving do two requests apply the same proposal, and one that is
  already applied is never applied again.\<close>

theorem proposal_applied_once:
  assumes "run doc_step (doc_start db) es s" and "doc_clean db" and "distinct (map pr_id (proposals db))"
  shows "length (filter (\<lambda>e. e = Applied q) es) \<le> 1
    \<and> ((\<exists>r \<in> set (proposals db). pr_id r = q \<and> pr_applied r \<noteq> None) \<longrightarrow> Applied q \<notin> set es)"
proof -
  have r: "run (\<lambda>s e s'. (\<exists>es. doc_inv es s) \<and> proposals_ok s \<and> doc_step s e s') (doc_start db) es s"
    using proposals_ok_run [OF assms] by blast
  have "(\<lambda>e. e = Applied q) = (\<lambda>e. applied e = Some q)" by (auto simp: fun_eq_iff applied_def split: doc_event.split)
  moreover have "Applied q \<notin> set es" if "applied_proposal q (doc_start db)"
    using proposal.not_again [OF r that] by (force simp: applied_def)
  ultimately show ?thesis using proposal.once_at_most [OF r, of q] by (simp add: applied_proposal_def doc_start_def)
qed

text \<open>How a profile document loses its latest version: a patch reads it before the fill and is written
  after it. The revision is still the one that was read, so the patch succeeds and writes back that
  there is no latest version.\<close>

theorem patch_loses_fill:
  assumes "patch_doc_read rt user rq j db = (Inr (e, d), db0)" and "doc_keyed db" and "all_numbered db"
    and "doc_of (dc_id d) db = Some d0" and "dc_kind d0 = ''HUB_PROFILE''" and "doc_versions (dc_id d) db = []"
    and "vid \<notin> vr_id ` set (versions db)"
    and "patch_doc_store rt user e d (FILL_PROFILE (cu_id user) (dc_id d) vid c bs q now db) = (r, db2)"
  shows "(\<exists>rs. r = Inr rs) \<and> (\<exists>d2. doc_of (dc_id d) db2 = Some d2 \<and> dc_latest d2 = None)
    \<and> map vr_id (doc_versions (dc_id d) db2) = [vid]"
proof -
  let ?i = "dc_id d" and ?db = "FILL_PROFILE (cu_id user) (dc_id d) vid c bs q now db"
  obtain k b d1 d2 where rd: "doc_at k (cu_id user) db = Some d1" "dc_revision d1 = e" "patch_title (value_of b ''title'') d1 = Inr d2"
      "patched d2 d"
  proof -
    obtain k b d1 d2 d3 where r: "doc_at k (cu_id user) db = Some d1" "dc_revision d1 = e" "patch_title (value_of b ''title'') d1 = Inr d2"
      "patch_template (value_of b ''template'') d2 = Inr d3" "d = (if nullish (value_of b ''language'') then d3 else d3\<lparr>dc_language := js_String (value_of b ''language'')\<rparr>)"
      using assms(1) unfolding patch_doc_read_def Let_def by (auto simp: prog_results load_results)
    show thesis
      by (rule that [OF r(1-3)]) (unfold r(5), rule patched_language [OF patch_template_patched [OF r(4)]])
  qed
  have p: "patched d1 d" by (rule patched_trans [OF patch_title_patched [OF rd(3)] rd(4)])
  have o: "d1 = d0" "dc_user d0 = cu_id user" "dc_revision d0 = e"
    using doc_at_of [OF assms(2) rd(1)] assms(4) p rd(2) by (auto simp: patched_def)
  obtain v where fr: "doc_of ?i ?db = Some (d0\<lparr>dc_latest := Some vid, dc_updated := now\<rparr>)" "map dc_id (docs ?db) = map dc_id (docs db)" "dc_latest d0 = None"
    "versions ?db = versions db @ [v]" "vr_id v = vid" "vr_doc v = ?i" "approvals ?db = approvals db"
  proof -
    have ne: "\<not> list_ex (\<lambda>v. vr_doc v = ?i \<and> vr_number v = 1) (versions db)"
      using assms(6) by (auto simp: doc_versions_def filter_empty_conv list_ex_iff)
    then have "?db \<noteq> db" unfolding FILL_PROFILE_def by (auto dest!: arg_cong [of _ _ versions])
    with fill_result [OF assms(3,2,4) o(2), of vid c bs q now] fill_versions [OF this] assms(6) that show thesis by auto
  qed
  have k: "doc_keyed ?db" using assms(2,7) fr by (simp add: doc_keyed_def)
  let ?m = "doc_matches ?i (cu_id user) e"
  have "list_ex ?m (docs ?db)"
    unfolding list_ex_iff using doc_of_id [OF fr(1)] o by (intro rev_bexI [of "d0\<lparr>dc_latest := Some vid, dc_updated := now\<rparr>"]) (auto simp: doc_matches_def)
  then obtain db1 where u: "UPDATE_DOC ?i (cu_id user) e (patching rt d) ?db = (True, db1)" by (simp add: UPDATE_DOC_def)
  then have s: "r = Inr (data 200 (documentDto (d\<lparr>dc_revision := e + 1, dc_updated := rr_now rt\<rparr>)) (rr_rid rt))" "db2 = db1"
    using assms(8) by (simp_all add: patch_doc_store_def guarded_update_def and_then_def patching_def [abs_def])
  have "versions db1 = versions ?db" using u by (auto simp: UPDATE_DOC_def)
  moreover obtain a where "doc_of ?i db1 = Some (patching rt d a)"
    using wrote_update [OF u k patching_keeps] by (auto simp: wrote_def)
  moreover have "dc_latest d = None" using p o(1) fr(3) by (simp add: patched_def)
  ultimately show ?thesis using s fr assms(6) by (simp add: patching_def doc_versions_def)
qed

subsection \<open>A run: a document is finalized and exported\<close>

definition wd_body :: jv where
  "wd_body = JObj [(''expectedRevision'', JNum 1), (''versionId'', JStr sd_id), (''approvalId'', JStr sd_id)]"

definition wd_rt :: "jv \<Rightarrow> route_rt" where
  "wd_rt b = \<lparr>rr_jp = (\<lambda>_. Some b), rr_dp = (\<lambda>_. None), rr_pg = (\<lambda>_. None), rr_sha = (\<lambda>_. ''h''), rr_ilike = (\<lambda>_ _. False),
     rr_uuid = (\<lambda>n. CHR ''x'' # nat_dec n), rr_now = 5000, rr_rid = ''q''\<rparr>"

definition wd_content :: jv where "wd_content = JObj [(''type'', JStr ''doc'')]"

definition wd_doc :: doc_row where
  "wd_doc = \<lparr>dc_id = sd_id, dc_user = ''u1'', dc_revision = 1, dc_app = None, dc_title = ''t'', dc_kind = ''RESUME'', dc_template = ''ATS'',
     dc_language = ''ko'', dc_status = ''DRAFT'', dc_latest = Some sd_id, dc_final = None, dc_created = 0, dc_updated = 0\<rparr>"

definition wd_version :: version_row where
  "wd_version = \<lparr>vr_id = sd_id, vr_user = ''u1'', vr_doc = sd_id, vr_app = None, vr_number = 1, vr_content = wd_content, vr_blocks = JArr [],
     vr_note = [], vr_quality = JNull, vr_created = 0\<rparr>"

definition wd_approval :: approval_row where
  "wd_approval = \<lparr>av_id = sd_id, av_user = ''u1'', av_revision = 2, av_kind = ''DOCUMENT_FINALIZE'', av_app = None, av_target = sd_id,
     av_hash = ''h'', av_status = ''APPROVED'', av_expires = None, av_consumed = None, av_created = 0, av_updated = 0\<rparr>"

definition wd_jobs :: job_db where
  "wd_jobs = \<lparr>ledger = [], usage_table = Some [], reservations = [], ai_jobs = [], outbox = [], members = [], kicks = []\<rparr>"

definition wd_db :: doc_db where
  "wd_db = \<lparr>has_entered = True, apps = [], saved_jobs = [], app_events = [], drafts = [], submissions = [],
     approvals = [wd_approval], gaps = [], docs = [wd_doc], versions = [wd_version], evidence_rows = [], interview_rows = [],
     proposals = [], exports = [], shares = Some [], sources = [], doc_jobs = wd_jobs\<rparr>"

definition wd_plan :: final_plan where
  "wd_plan = \<lparr>fp_doc = wd_doc, fp_expected = 1, fp_version = sd_id, fp_approval = sd_id, fp_revision = 2\<rparr>"

lemma wd_clean: "doc_clean wd_db"
  by (auto simp: doc_clean_def doc_keyed_def wd_db_def all_numbered_def doc_of_def numbered_def latest_ok_def doc_versions_def wd_doc_def wd_version_def)

lemma wd_strict: "strictBody (rr_jp (wd_rt wd_body)) sd_post finalize_spec =
    Inr \<lparr>bv_values = [(''expectedRevision'', JNum 1), (''versionId'', JStr sd_id), (''approvalId'', JStr sd_id)],
         bv_present = [''expectedRevision'', ''versionId'', ''approvalId'']\<rparr>"
  by (simp add: strictBody_def strictObject_def wd_rt_def sd_post_def wd_body_def finalize_spec_def spec_field_def in_spec_def has_own_def
      Prelude.fields_def jget_def fits_def fits_uuid_def nullish_def sd_parse)

lemma wd_loads: "doc_at sd_id ''u1'' wd_db = Some wd_doc" "version_at sd_id sd_id ''u1'' wd_db = Some wd_version" "approval_at sd_id ''u1'' wd_db = Some wd_approval"
  by (simp_all add: doc_at_def version_at_def approval_at_def wd_db_def wd_doc_def wd_version_def wd_approval_def)

lemma wd_user: "cu_id sd_user = ''u1''" "requireUuid sd_id n = Inr sd_id"
  by (simp_all add: sd_user_def requireUuid_def sd_parse)

lemma wd_no_blocks: "blocksOf (vr_blocks wd_version) = []" "verifyBlocks u [] db = (Inr ([], []), db)"
  by (simp_all add: blocksOf_def wd_version_def verifyBlocks_def wanted_ids_def first_seen_def seq_simps)

lemma wd_approved: "check_approval (wd_rt b) None wd_version [] wd_approval = Inr ()"
  by (simp add: check_approval_def wd_approval_def wd_version_def bind_sum_def expired_def finalize_hash_def hashJson_def wd_rt_def)

lemma wd_read: "final_read (wd_rt wd_body) sd_user sd_post sd_id wd_db = (Inr wd_plan, wd_db)"
proof -
  have "loadMutable ''u1'' sd_id wd_db = (Inr wd_doc, wd_db)" by (simp add: loadMutable_result wd_loads) (simp add: wd_doc_def)
  moreover have "loadVersion ''u1'' sd_id sd_id wd_db = (Inr wd_version, wd_db)" by (simp add: loadVersion_result wd_loads)
  moreover have "dc_revision wd_doc = 1" "dc_app wd_doc = None" "av_revision wd_approval = 2" by (simp_all add: wd_doc_def wd_approval_def)
  ultimately show ?thesis
    by (simp add: final_read_def Let_def seq_simps and_then_Inr_first wd_strict wd_user value_of_def int_value_def wd_no_blocks unsupported_def
        unapproved_def wd_loads wd_approved wd_plan_def)
qed

definition wd_end :: doc_db where
  "wd_end = snd (FINALIZE (wd_rt wd_body) ''u1'' wd_plan wd_db)"

lemma wd_finalize: "\<exists>rs. final_store (wd_rt wd_body) sd_user wd_plan wd_db = (Inr rs, wd_end)"
proof -
  have "FINALIZE (wd_rt wd_body) ''u1'' wd_plan wd_db = (Inr True, wd_end)"
    by (simp add: wd_end_def FINALIZE_def UPDATE_DOC_def doc_matches_def approval_matches_def wd_plan_def wd_db_def wd_doc_def wd_approval_def)
  then show ?thesis by (simp add: final_store_def and_then_def wd_user)
qed

definition wd_read_state :: doc_system where
  "wd_read_state = (doc_start wd_db)\<lparr>ds_finals := {(wd_rt wd_body, sd_user, wd_plan)}\<rparr>"

lemma wd_run1: "run doc_step (doc_start wd_db) [Silent] wd_read_state"
proof -
  have "doc_step (doc_start wd_db) Silent ((doc_start wd_db)\<lparr>ds_db := wd_db, ds_finals := insert (wd_rt wd_body, sd_user, wd_plan) (ds_finals (doc_start wd_db))\<rparr>)"
    by (rule D_final_read [of _ sd_user sd_post sd_id]) (simp add: doc_start_def wd_read)
  then show ?thesis by (intro run_single) (simp add: wd_read_state_def doc_start_def)
qed

definition wd_final_state :: doc_system where
  "wd_final_state = wd_read_state\<lparr>ds_db := wd_end\<rparr>"

lemma wd_step2: "doc_step wd_read_state (Finalized (wd_rt wd_body) sd_id sd_id) wd_final_state"
proof -
  obtain rs where "final_store (wd_rt wd_body) sd_user wd_plan wd_db = (Inr rs, wd_end)" using wd_finalize by blast
  then have "doc_step wd_read_state (Finalized (wd_rt wd_body) (fp_version wd_plan) (fp_approval wd_plan)) (wd_read_state\<lparr>ds_db := wd_end\<rparr>)"
    by (intro D_final [of _ sd_user]) (simp_all add: wd_read_state_def doc_start_def)
  then show ?thesis by (simp add: wd_plan_def wd_final_state_def)
qed

theorem finalized_as_approved_witness:
  "\<exists>v d'. v \<in> set (versions wd_db) \<and> vr_id v = sd_id \<and> doc_of (vr_doc v) wd_end = Some d' \<and> dc_status d' = ''FINALIZED'' \<and> dc_final d' = Some sd_id"
proof -
  have "ds_db wd_read_state = wd_db" "ds_db wd_final_state = wd_end" by (simp_all add: wd_read_state_def wd_final_state_def doc_start_def)
  with finalized_as_approved [OF wd_run1 wd_clean wd_step2] show ?thesis by fastforce
qed

text \<open>The export of the finalized version.\<close>

definition wd_order :: jv where
  "wd_order = JObj [(''versionId'', JStr sd_id), (''format'', JStr ''PDF''), (''rendererVersion'', JStr ''r'')]"

lemma wd_order_strict: "strictBody (rr_jp (wd_rt wd_order)) sd_post export_spec =
    Inr \<lparr>bv_values = [(''versionId'', JStr sd_id), (''format'', JStr ''PDF''), (''rendererVersion'', JStr ''r'')],
         bv_present = [''versionId'', ''format'', ''rendererVersion'']\<rparr>"
  by (simp add: strictBody_def strictObject_def wd_rt_def sd_post_def wd_order_def export_spec_def spec_field_def in_spec_def has_own_def
      Prelude.fields_def jget_def fits_def fits_uuid_def fits_str_def nullish_def sd_parse)

definition wd_done :: doc_row where
  "wd_done = wd_doc\<lparr>dc_revision := 2, dc_status := ''FINALIZED'', dc_final := Some sd_id, dc_updated := 5000\<rparr>"

definition wd_export :: export_row where
  "wd_export = new_export (wd_rt wd_order) ''u1'' ''PDF'' ''r'' wd_done wd_version"

lemma wd_end_rows: "doc_at sd_id ''u1'' wd_end = Some wd_done" "version_at sd_id sd_id ''u1'' wd_end = Some wd_version" "exports wd_end = []"
  by (simp_all add: doc_at_def version_at_def wd_end_def FINALIZE_def UPDATE_DOC_def doc_matches_def approval_matches_def wd_plan_def wd_db_def wd_doc_def
      wd_approval_def wd_version_def wd_done_def wd_rt_def)

lemma wd_export_read: "export_read (wd_rt wd_order) sd_user sd_post sd_id wd_end = (Inr wd_export, wd_end)"
proof -
  have "loadDocument ''u1'' sd_id wd_end = (Inr wd_done, wd_end)" "loadVersion ''u1'' sd_id sd_id wd_end = (Inr wd_version, wd_end)"
    by (simp_all add: load_results wd_end_rows)
  moreover have "exportable wd_done wd_version" by (simp add: exportable_def wd_done_def wd_version_def)
  ultimately show ?thesis
    by (simp add: export_read_def Let_def seq_simps and_then_Inr_first wd_order_strict wd_user value_of_def wd_export_def)
qed

definition wd_exported :: doc_system where
  "wd_exported = wd_final_state\<lparr>ds_exports := {(wd_rt wd_order, wd_export)}, ds_db := wd_end\<lparr>exports := [wd_export]\<rparr>\<rparr>"

lemma wd_run4: "run doc_step (doc_start wd_db) [Silent, Finalized (wd_rt wd_body) sd_id sd_id, Silent, Silent] wd_exported"
proof -
  let ?s3 = "wd_final_state\<lparr>ds_exports := {(wd_rt wd_order, wd_export)}\<rparr>"
  have s: "ds_db wd_final_state = wd_end" "ds_exports wd_final_state = {}" by (simp_all add: wd_final_state_def wd_read_state_def doc_start_def)
  have "doc_step wd_final_state Silent (wd_final_state\<lparr>ds_db := wd_end, ds_exports := insert (wd_rt wd_order, wd_export) (ds_exports wd_final_state)\<rparr>)"
    by (rule D_export_read [of _ sd_user sd_post sd_id]) (simp add: s wd_export_read)
  moreover have "wd_final_state\<lparr>ds_db := wd_end, ds_exports := x\<rparr> = wd_final_state\<lparr>ds_exports := x\<rparr>" for x by (simp add: wd_final_state_def)
  ultimately have 3: "doc_step wd_final_state Silent ?s3" by (simp only: s(2))
  have "export_store (wd_rt wd_order) wd_export wd_end = (Inr (data 201 (exportDto wd_export) ''q''), wd_end\<lparr>exports := [wd_export]\<rparr>)"
    by (simp add: export_store_def seq_simps wd_end_rows wd_rt_def)
  then have "doc_step ?s3 Silent (?s3\<lparr>ds_db := wd_end\<lparr>exports := [wd_export]\<rparr>\<rparr>)"
    by (intro D_export [of "wd_rt wd_order" wd_export]) (simp_all add: s)
  then have 4: "doc_step ?s3 Silent wd_exported" by (simp add: wd_exported_def)
  have "run doc_step (doc_start wd_db) [Silent, Finalized (wd_rt wd_body) sd_id sd_id] wd_final_state"
    using run_more [OF wd_run1 wd_step2] by simp
  from run_append [OF run_two [where step = doc_step, OF 3 4] this] show ?thesis by simp
qed

theorem exports_finalized_witness:
  "finalized_in [Silent, Finalized (wd_rt wd_body) sd_id sd_id, Silent, Silent] (ex_version wd_export)"
proof -
  have "wd_export \<in> set (exports (ds_db wd_exported))" by (simp add: wd_exported_def)
  from exports_finalized [OF wd_run4 wd_clean this]
  obtain d where d: "doc_of (ex_doc wd_export) (ds_db wd_exported) = Some d"
      "dc_kind d = ''HUB_PROFILE'' \<or> finalized_in [Silent, Finalized (wd_rt wd_body) sd_id sd_id, Silent, Silent] (ex_version wd_export)" by blast
  have "docs (ds_db wd_exported) = [wd_done]"
    by (simp add: wd_exported_def wd_end_def FINALIZE_def UPDATE_DOC_def doc_matches_def approval_matches_def wd_plan_def wd_db_def wd_doc_def
        wd_approval_def wd_done_def wd_rt_def)
  then have "dc_kind d = ''RESUME''" using d(1) by (auto simp: doc_of_def wd_done_def wd_doc_def split: if_splits)
  with d(2) show ?thesis by simp
qed

theorem versions_in_order_witness:
  "map vr_number (doc_versions sd_id (ds_db wd_exported)) = [1]"
proof -
  have v: "versions (ds_db wd_exported) = [wd_version]" "docs (ds_db wd_exported) = [wd_done]"
    by (simp_all add: wd_exported_def wd_end_def FINALIZE_def UPDATE_DOC_def doc_matches_def approval_matches_def wd_plan_def wd_db_def wd_doc_def
        wd_approval_def wd_done_def wd_rt_def)
  have "doc_of sd_id (ds_db wd_exported) = Some wd_done" by (simp add: doc_of_def v wd_done_def wd_doc_def)
  from versions_in_order [OF wd_run4 wd_clean this] show ?thesis by (simp add: doc_versions_def v wd_version_def)
qed

subsection \<open>A run: a proposal is applied\<close>

definition wp_body :: jv where "wp_body = JObj [(''expectedRevision'', JNum 1)]"

definition wp_version :: version_row where
  "wp_version = wd_version\<lparr>vr_content := flat_doc [(''1'', ''a'')], vr_blocks := blocks_json (flat_blocks [(''1'', ''a'')])\<rparr>"

definition wp_proposal :: proposal_row where
  "wp_proposal = \<lparr>pr_id = sd_id, pr_user = ''u1'', pr_doc = sd_id, pr_source = sd_id, pr_source_revision = 1,
     pr_selection = JObj [(''text'', JStr ''a'')], pr_replacement = ''b'', pr_applied = None\<rparr>"

definition wp_db :: doc_db where
  "wp_db = wd_db\<lparr>versions := [wp_version], proposals := [wp_proposal]\<rparr>"

definition wp_plan :: save_plan where
  "wp_plan = \<lparr>sv_doc = wd_doc, sv_expected = 1, sv_content = flat_doc [(''1'', ''b'')], sv_blocks = flat_blocks [(''1'', ''b'')],
     sv_note = ''applied proposal '' @ sd_id, sv_proposal = Some sd_id\<rparr>"

lemma wp_clean: "doc_clean wp_db" "distinct (map pr_id (proposals wp_db))"
  by (auto simp: doc_clean_def doc_keyed_def wp_db_def wd_db_def all_numbered_def doc_of_def numbered_def latest_ok_def doc_versions_def wd_doc_def wd_version_def wp_version_def)

lemma wp_strict: "strictBody (rr_jp (wd_rt wp_body)) sd_post [spec_field ''expectedRevision'' KInt True False] =
    Inr \<lparr>bv_values = [(''expectedRevision'', JNum 1)], bv_present = [''expectedRevision'']\<rparr>"
  by (simp add: strictBody_def strictObject_def wd_rt_def sd_post_def wp_body_def spec_field_def in_spec_def has_own_def
      Prelude.fields_def jget_def fits_def nullish_def)

lemma wp_loads: "doc_at sd_id ''u1'' wp_db = Some wd_doc" "version_at sd_id sd_id ''u1'' wp_db = Some wp_version" "proposal_at sd_id sd_id ''u1'' wp_db = Some wp_proposal"
  by (simp_all add: doc_at_def version_at_def proposal_at_def wp_db_def wd_db_def wd_doc_def wd_version_def wp_version_def wp_proposal_def)

lemma wp_edit: "replaced (flat_doc [(''1'', ''a'')]) (flat_blocks [(''1'', ''a'')]) [(''a'', ''b'')] =
    Inr \<lparr>ed_content = flat_doc [(''1'', ''b'')], ed_blocks = flat_blocks [(''1'', ''b'')], ed_applied = True\<rparr>"
proof -
  have i: "str_includes ''a'' ''a''" "replace_first ''a'' ''b'' ''a'' = ''b''" by (simp_all add: str_includes.simps startsWith_def)
  then show ?thesis by (simp add: replaced_def replace_flat bind_sum_def replace_flat_blocks del: replaceInNode.simps)
qed

lemma wp_valid: "validateDocumentContent (flat_doc [(''1'', ''b'')]) (flat_blocks [(''1'', ''b'')]) = Inr ()"
proof -
  have "is_object (flat_doc [(''1'', ''b'')])" "jget (flat_doc [(''1'', ''b'')]) ''type'' = JStr ''doc''"
    by (simp_all add: flat_doc_def node_defs is_object_def)
  then show ?thesis unfolding valid_content flat_tree(1) flat_ids using flat_tree(2) [of "[(''1'', ''b'')]"] by (simp add: flat_blocks_def)
qed

lemma wp_verified: "verifyBlocks u (flat_blocks [(''1'', ''b'')]) db = (Inr (flat_blocks [(''1'', ''b'')], []), db)"
  by (simp add: verifyBlocks_def wanted_ids_def first_seen_def seq_simps flat_blocks_def verify_block_def)

lemma wp_read: "apply_read (wd_rt wp_body) sd_user sd_post sd_id sd_id wp_db = (Inr wp_plan, wp_db)"
proof -
  have "loadMutable ''u1'' sd_id wp_db = (Inr wd_doc, wp_db)" by (simp add: loadMutable_result wp_loads) (simp add: wd_doc_def)
  moreover have "loadVersion ''u1'' sd_id sd_id wp_db = (Inr wp_version, wp_db)" by (simp add: loadVersion_result wp_loads)
  moreover have "dc_revision wd_doc = 1" "dc_latest wd_doc = Some sd_id" by (simp_all add: wd_doc_def)
  moreover have "pr_applied wp_proposal = None" "pr_source wp_proposal = sd_id" "pr_source_revision wp_proposal = 1" "pr_replacement wp_proposal = ''b''"
      "selected_text (pr_selection wp_proposal) = ''a''"
    by (simp_all add: wp_proposal_def selected_text_def coalesce_def nullish_def or_blank_def jget_def Prelude.fields_def)
  moreover have "vr_content wp_version = flat_doc [(''1'', ''a'')]" "vr_blocks wp_version = blocks_json (flat_blocks [(''1'', ''a'')])"
    by (simp_all add: wp_version_def)
  moreover have "check_save u \<lparr>sv_doc = d, sv_expected = e, sv_content = flat_doc [(''1'', ''b'')], sv_blocks = flat_blocks [(''1'', ''b'')],
      sv_note = n, sv_proposal = q\<rparr> db = (Inr \<lparr>sv_doc = d, sv_expected = e, sv_content = flat_doc [(''1'', ''b'')], sv_blocks = flat_blocks [(''1'', ''b'')],
      sv_note = n, sv_proposal = q\<rparr>, db)" for u d e n q db
    by (simp add: check_save_def seq_simps wp_valid and_then_def wp_verified from_sum_def)
  ultimately show ?thesis
    by (simp add: apply_read_def Let_def seq_simps and_then_Inr_first wp_strict wd_user value_of_def int_value_def wp_loads stored_blocks wp_edit wp_plan_def)
qed

lemma wp_step1: "run doc_step (doc_start wp_db) [Silent] ((doc_start wp_db)\<lparr>ds_saves := {(wd_rt wp_body, jc, sd_user, 200, wp_plan)}\<rparr>)"
proof -
  let ?s = "(doc_start wp_db)\<lparr>ds_db := wp_db, ds_saves := insert (wd_rt wp_body, jc, sd_user, 200, wp_plan) (ds_saves (doc_start wp_db))\<rparr>"
  have "doc_step (doc_start wp_db) Silent ?s"
    by (rule D_apply_read [of _ sd_user sd_post sd_id sd_id]) (simp add: doc_start_def wp_read)
  then show ?thesis by (intro run_single) (simp add: doc_start_def)
qed

definition wp_jc :: job_ctx where
  "wp_jc = \<lparr>jc_user = ''u1'', jc_plan = JNull, jc_now = 0, jc_rid = ''q'', jc_dispatch = (None, None), jc_process = (None, None)\<rparr>"

lemma wp_ingest: "\<exists>rs db'. save_store (wd_rt wp_body) wp_jc sd_user 200 wp_plan wp_db = (Inr rs, db')"
proof -
  have s: "\<exists>n db1. SAVE_VERSION (wd_rt wp_body) ''u1'' wp_plan wp_db = (Inr (Some n), db1) \<and> doc_jobs db1 = wd_jobs"
    by (simp add: SAVE_VERSION_def Let_def UPDATE_DOC_def doc_matches_def wp_plan_def wp_db_def wd_db_def wd_doc_def)
  have e: "\<exists>j db'. enqueueIngest g i wp_jc v wd_jobs = (Inr j, db')" for g i v
    by (simp add: enqueueIngest_def enqueueJob_def prog_defs given_key_def enqueue_check_def job_amount_def estimateMicro_def reserveCredits_def
      enqueue_insert_def INSERT_JOB_def wd_jobs_def kickDispatcher_def withDispatcher_def wp_jc_def or_else_def or_empty_def trimOrigin_def js_trim_def trimStart_def Let_def)
  from s obtain n db1 where n: "SAVE_VERSION (wd_rt wp_body) ''u1'' wp_plan wp_db = (Inr (Some n), db1)" "doc_jobs db1 = wd_jobs" by blast
  obtain j db' where "enqueueIngest (rr_uuid (wd_rt wp_body) 1) (rr_uuid (wd_rt wp_body) 2) wp_jc (JObj [(''documentId'', JStr (dc_id (sv_doc wp_plan)))]) wd_jobs = (Inr j, db')"
    using e by blast
  with n show ?thesis by (simp add: save_store_def and_then_def wd_user on_jobs_def)
qed

theorem save_from_current_witness:
  "\<exists>(db' :: doc_db) d. fst (save_store (wd_rt wp_body) wp_jc sd_user 200 wp_plan wp_db) = Inr (data 200 (JObj [(''document'', documentDto d), (''version'', versionDto (last (versions db')))]) ''q'')
    \<and> doc_of sd_id db' = Some d \<and> dc_revision d = 2"
proof -
  obtain rs db' where st: "save_store (wd_rt wp_body) wp_jc sd_user 200 wp_plan wp_db = (Inr rs, db')" using wp_ingest by blast
  let ?s = "(doc_start wp_db)\<lparr>ds_saves := {(wd_rt wp_body, wp_jc, sd_user, 200, wp_plan)}\<rparr>"
  have "(wd_rt wp_body, wp_jc, sd_user, 200, wp_plan) \<in> ds_saves ?s" "ds_db ?s = wp_db" by (simp_all add: doc_start_def)
  with save_from_current [OF wp_step1 wp_clean(1), of "wd_rt wp_body" wp_jc sd_user 200 wp_plan wp_jc rs db'] st
  obtain d v where "doc_of (dc_id (sv_doc wp_plan)) db' = Some d" "dc_revision d = dc_revision (sv_doc wp_plan) + 1" "versions db' = versions wp_db @ [v]"
      "rs = data 200 (JObj [(''document'', documentDto d), (''version'', versionDto v)]) (rr_rid (wd_rt wp_body))" by auto
  moreover have "dc_id (sv_doc wp_plan) = sd_id" "dc_revision (sv_doc wp_plan) = 1" "rr_rid (wd_rt wp_body) = ''q''"
    by (simp_all add: wp_plan_def wd_doc_def wd_rt_def)
  ultimately have "fst (save_store (wd_rt wp_body) wp_jc sd_user 200 wp_plan wp_db) = Inr (data 200 (JObj [(''document'', documentDto d), (''version'', versionDto (last (versions db')))]) ''q'')
      \<and> doc_of sd_id db' = Some d \<and> dc_revision d = 2" using st by simp
  then show ?thesis by blast
qed

lemma wp_run: "\<exists>s. run doc_step (doc_start wp_db) [Silent, Applied sd_id] s"
proof -
  obtain jc :: job_ctx where True by simp
  let ?s = "(doc_start wp_db)\<lparr>ds_db := wp_db, ds_saves := insert (wd_rt wp_body, jc, sd_user, 200, wp_plan) (ds_saves (doc_start wp_db))\<rparr>"
  have 1: "doc_step (doc_start wp_db) Silent ?s"
    by (rule D_apply_read [of _ sd_user sd_post sd_id sd_id]) (simp add: doc_start_def wp_read)
  obtain r db' where "save_store (wd_rt wp_body) jc sd_user 200 wp_plan wp_db = (r, db')" by (metis surj_pair)
  moreover have "fresh (wd_rt wp_body) wp_db"
    by (simp add: fresh_def doc_of_def wp_db_def wd_db_def wd_doc_def wp_version_def wd_version_def wd_rt_def sd_id_def)
  ultimately have 2: "doc_step ?s (save_event (fst (SAVE_VERSION (wd_rt wp_body) (cu_id sd_user) wp_plan (ds_db ?s))) wp_plan) (?s\<lparr>ds_db := db'\<rparr>)"
    by (intro D_save [of _ jc sd_user 200]) simp_all
  have "\<exists>n. fst (SAVE_VERSION (wd_rt wp_body) ''u1'' wp_plan wp_db) = Inr (Some n)"
    by (simp add: SAVE_VERSION_def Let_def UPDATE_DOC_def doc_matches_def wp_plan_def wp_db_def wd_db_def wd_doc_def)
  then have "save_event (fst (SAVE_VERSION (wd_rt wp_body) (cu_id sd_user) wp_plan (ds_db ?s))) wp_plan = Applied sd_id"
    using save_event_of(2) by (auto simp: wd_user wp_plan_def)
  with run_two [where step = doc_step, OF 1 2] show ?thesis by auto
qed

theorem proposal_applied_once_witness:
  "(\<exists>s. run doc_step (doc_start wp_db) [Silent, Applied sd_id] s) \<and> length (filter (\<lambda>e. e = Applied sd_id) [Silent, Applied sd_id]) \<le> 1"
proof
  show r: "\<exists>s. run doc_step (doc_start wp_db) [Silent, Applied sd_id] s" by (rule wp_run)
  show "length (filter (\<lambda>e. e = Applied sd_id) [Silent, Applied sd_id]) \<le> 1"
    using r proposal_applied_once [OF _ wp_clean] by blast
qed

subsection \<open>A document that is shared\<close>

definition ws_old :: share_row where
  "ws_old = \<lparr>sh_id = ''s0'', sh_doc = sd_id, sh_version = sd_id, sh_token = ''old'', sh_by = ''u1'', sh_created = 0, sh_revoked = None\<rparr>"

definition ws_db :: doc_db where
  "ws_db = wd_db\<lparr>shares := Some [ws_old]\<rparr>"

definition ws_rt :: route_rt where
  "ws_rt = (wd_rt JNull)\<lparr>rr_sha := id\<rparr>"

definition ws_post :: request where
  "ws_post = sd_post\<lparr>rq_body := []\<rparr>"

lemma ws_facts: "share_body ws_rt ws_post = Inr []" "doc_at sd_id ''u1'' ws_db = Some wd_doc" "dc_latest wd_doc = Some sd_id" "sd_id \<noteq> []"
  "version_at sd_id sd_id ''u1'' ws_db = Some wd_version" "shares ws_db = Some [ws_old]" "sh_doc ws_old = sd_id" "live ws_old" "sh_token ws_old = ''old''"
  by (simp_all add: share_body_def ws_post_def js_trim_def trimStart_def doc_at_def version_at_def ws_db_def wd_db_def wd_doc_def wd_version_def ws_old_def
      live_def sd_id_def)

theorem share_again_fails_witness: "shareDocument False ws_rt ''new'' sd_user ws_post sd_id ws_db = (Inl duplicate_share, ws_db)"
  by (rule share_again_fails [where i = sd_id and d = wd_doc and vid = sd_id and v = wd_version and rows = "[ws_old]"])
    (simp_all add: ws_facts wd_user)

theorem share_replaces_witness:
  "\<exists>db'. shareDocument True ws_rt ''new'' sd_user ws_post sd_id ws_db = (Inr (data 200 (JObj [(''token'', JStr ''new''),
      (''path'', JStr (share_path ''new'')), (''versionId'', JStr sd_id), (''createdAt'', JStr (stamp 5000))]) ''q''), db')
    \<and> fst (readShare ws_rt ''old'' db') = Inl not_found_error
    \<and> fst (readShare ws_rt ''new'' db') = Inr (data 200 (JObj [(''title'', JStr ''t''), (''kind'', JStr ''RESUME''),
         (''content'', jsonValue ws_rt wd_content), (''blocks'', blocks_json (blocksOf (jsonValue ws_rt (JArr []))))]) ''q'')"
proof -
  have rt: "rr_sha ws_rt x = x" "rr_now ws_rt = 5000" "rr_rid ws_rt = ''q''" for x by (simp_all add: ws_rt_def wd_rt_def)
  define db' where "db' = snd (SHARE True \<lparr>sh_id = rr_uuid ws_rt 0, sh_doc = sd_id, sh_version = sd_id, sh_token = ''new'', sh_by = ''u1'',
      sh_created = 5000, sh_revoked = None\<rparr> ws_db)"
  have "SHARE True \<lparr>sh_id = rr_uuid ws_rt 0, sh_doc = sd_id, sh_version = sd_id, sh_token = ''new'', sh_by = ''u1'',
      sh_created = 5000, sh_revoked = None\<rparr> ws_db = (Inr (), db')"
    by (simp add: db'_def SHARE_def insert_share_def ws_facts revoke_live_def ws_old_def live_def)
  then have st: "shareDocument True ws_rt ''new'' sd_user ws_post sd_id ws_db = (Inr (data 200 (JObj [(''token'', JStr ''new''),
      (''path'', JStr (share_path ''new'')), (''versionId'', JStr sd_id), (''createdAt'', JStr (stamp 5000))]) ''q''), db')"
    by (simp add: shareDocument_def Let_def seq_simps and_then_assoc loadDocument_def loadVersion_def wd_user ws_facts rt)
      (simp add: shares_missing_def catching_def and_then_def)
  have ok: "shares_ok [ws_old]" "doc_keyed ws_db" by (simp_all add: shares_ok_def doc_keyed_def ws_db_def wd_db_def)
  obtain d :: doc_row and v :: version_row where d: "requireUuid sd_id ''id'' = Inr (dc_id d)" "d \<in> set (docs ws_db)" "v \<in> set (versions ws_db)"
      "readShare ws_rt ''new'' db' = (Inr (data 200 (JObj [(''title'', JStr (dc_title d)), (''kind'', JStr (dc_kind d)), (''content'', jsonValue ws_rt (vr_content v)),
         (''blocks'', blocks_json (blocksOf (jsonValue ws_rt (vr_blocks v))))]) (rr_rid ws_rt)), db')"
      "\<And>t. \<exists>s \<in> set [ws_old]. sh_doc s = dc_id d \<and> sh_token s = rr_sha ws_rt t \<Longrightarrow> readShare ws_rt t db' = (Inl not_found_error, db')"
    using share_replaces [OF st ws_facts(6) ok] by blast
  have dv: "d = wd_doc" "v = wd_version" using d(2,3) by (simp_all add: ws_db_def wd_db_def)
  have "dc_title wd_doc = ''t''" "dc_kind wd_doc = ''RESUME''" "vr_content wd_version = wd_content" "vr_blocks wd_version = JArr []"
    by (simp_all add: wd_doc_def wd_version_def)
  moreover have "readShare ws_rt ''old'' db' = (Inl not_found_error, db')" using d(1,5) by (simp add: wd_user ws_facts rt)
  ultimately show ?thesis using d(4) st by (simp add: dv rt)
qed

end
