(* ===== verification/Phone_Auth.thy ===== *)
theory Phone_Auth
  imports Sessions Route_Base
begin

text \<open>
  \<open>services/core-api/src/routes/phone-auth.ts\<close> and \<open>sms/sender.ts\<close>: sending a code to a phone, and signing in,
  signing up or linking a social login with it. A handler is split at the statement after its last
  read of the code. \<open>sms\<close> is the sender of the platform, if there is one.
\<close>

subsection \<open>Tables\<close>

record phone_code =
  pc_id :: string
  pc_phone :: string
  pc_hash :: string
  pc_expires :: int
  pc_attempts :: int
  pc_sent :: int
  pc_consumed :: "int option"

record phone_db = auth_db +
  phone_codes :: "phone_code list"

definition DEFAULT_COOLDOWN :: int where "DEFAULT_COOLDOWN = 168"

definition DEFAULT_TTL :: int where "DEFAULT_TTL = 180"

definition DEFAULT_ATTEMPTS :: int where "DEFAULT_ATTEMPTS = 5"

subsection \<open>Statements\<close>

text \<open>\<open>ORDER BY sent_at DESC LIMIT 1\<close>. Among codes sent in the same millisecond the order of the database is
  not specified; here it is the later row.\<close>

fun last_sent :: "phone_code list \<Rightarrow> phone_code option" where
  "last_sent [] = None"
| "last_sent (c # cs) = (case last_sent cs of None \<Rightarrow> Some c | Some d \<Rightarrow> if pc_sent c \<le> pc_sent d then Some d else Some c)"

definition LATEST_SENT :: "string \<Rightarrow> 'z phone_db_scheme \<Rightarrow> int option" where
  "LATEST_SENT phone db = map_option pc_sent (last_sent (filter (\<lambda>c. pc_phone c = phone) (phone_codes db)))"

definition ACTIVE_CODE :: "string \<Rightarrow> 'z phone_db_scheme \<Rightarrow> phone_code option" where
  "ACTIVE_CODE phone db = last_sent (filter (\<lambda>c. pc_phone c = phone \<and> pc_consumed c = None) (phone_codes db))"

definition consume_where :: "(phone_code \<Rightarrow> bool) \<Rightarrow> int \<Rightarrow> 'z phone_db_scheme \<Rightarrow> 'z phone_db_scheme" where
  "consume_where P now db =
     db\<lparr>phone_codes := map (\<lambda>c. if P c \<and> pc_consumed c = None then c\<lparr>pc_consumed := Some now\<rparr> else c) (phone_codes db)\<rparr>"

definition CONSUME_OPEN :: "string \<Rightarrow> int \<Rightarrow> 'z phone_db_scheme \<Rightarrow> 'z phone_db_scheme" where
  "CONSUME_OPEN phone = consume_where (\<lambda>c. pc_phone c = phone)"

definition CONSUME_ONE :: "string \<Rightarrow> int \<Rightarrow> 'z phone_db_scheme \<Rightarrow> 'z phone_db_scheme" where
  "CONSUME_ONE i = consume_where (\<lambda>c. pc_id c = i)"

definition BUMP :: "string \<Rightarrow> 'z phone_db_scheme \<Rightarrow> 'z phone_db_scheme" where
  "BUMP i db = db\<lparr>phone_codes := map (\<lambda>c. if pc_id c = i then c\<lparr>pc_attempts := pc_attempts c + 1\<rparr> else c) (phone_codes db)\<rparr>"

definition INSERT_PHONE_CODE :: "phone_code \<Rightarrow> ('z phone_db_scheme, unit) core_prog" where
  "INSERT_PHONE_CODE c db =
     (if \<exists>x \<in> set (phone_codes db). pc_id x = pc_id c then (Inl duplicate_row, db)
      else (Inr (), db\<lparr>phone_codes := phone_codes db @ [c]\<rparr>))"

definition has_phone :: "string \<Rightarrow> identified \<Rightarrow> bool" where
  "has_phone phone p \<longleftrightarrow> jget (snd p) ''phone'' = JStr phone \<and> \<not> employerFlag (jget (snd p) ''is_employer'')"

definition BY_PHONE :: "string \<Rightarrow> 'z user_db_scheme \<Rightarrow> identified option" where
  "BY_PHONE phone db = find (has_phone phone) (users db)"

text \<open>The insert of a user, under the unique indexes of \<open>users\<close>.\<close>

definition ADD_USER :: "string \<Rightarrow> string \<Rightarrow> string \<Rightarrow> string option \<Rightarrow> string \<Rightarrow> jv \<Rightarrow> ('z user_db_scheme, unit) core_prog" where
  "ADD_USER u provider subject email phone row db =
     (if map_of (users db) u \<noteq> None \<or> by_provider provider subject db \<noteq> None
         \<or> (case email of None \<Rightarrow> False | Some e \<Rightarrow> by_email e db \<noteq> None) \<or> BY_PHONE phone db \<noteq> None
      then (Inl duplicate_row, db) else (Inr (), db\<lparr>users := users db @ [(u, row)]\<rparr>))"

definition phone_user_row :: "string \<Rightarrow> string \<Rightarrow> string \<Rightarrow> int \<Rightarrow> string option \<Rightarrow> string \<Rightarrow> jv" where
  "phone_user_row u provider subject now email phone =
     JObj [(''id'', JStr u), (''provider'', JStr provider), (''provider_subject'', JStr subject), (''display_name'', JStr ''user''),
       (''locale'', JStr ''ko''), (''created_at'', JNum now), (''email'', optional_text email),
       (''email_verified_at'', if or_empty email = [] then JNull else JNum now),
       (''is_employer'', JBool False), (''password_hash'', JNull), (''phone'', JStr phone)]"

definition INSERT_PHONE_USER :: "string \<Rightarrow> string \<Rightarrow> int \<Rightarrow> ('z user_db_scheme, unit) core_prog" where
  "INSERT_PHONE_USER u phone now = ADD_USER u ''phone'' phone None phone (phone_user_row u ''phone'' phone now None phone)"

definition set_login :: "string \<Rightarrow> string \<Rightarrow> jv \<Rightarrow> jv" where
  "set_login provider subject row = set_column ''provider_subject'' (JStr subject) (set_column ''provider'' (JStr provider) row)"

text \<open>\<open>UPDATE users \<dots> WHERE id = $1 AND provider = 'phone'\<close>, under the unique index of the logins.\<close>

definition SET_SOCIAL :: "string \<Rightarrow> string \<Rightarrow> string \<Rightarrow> ('z user_db_scheme, unit) core_prog" where
  "SET_SOCIAL u provider subject db =
     (let hit = (\<lambda>p. fst p = u \<and> jget (snd p) ''provider'' = JStr ''phone'') in
      if list_ex hit (users db) \<and> list_ex (\<lambda>p. \<not> hit p \<and> has_provider provider subject p) (users db) then (Inl duplicate_row, db)
      else (Inr (), db\<lparr>users := map (\<lambda>p. if hit p then (fst p, set_login provider subject (snd p)) else p) (users db)\<rparr>))"

definition is_identity :: "string \<Rightarrow> string \<Rightarrow> identity_row \<Rightarrow> bool" where
  "is_identity provider subject i \<longleftrightarrow> idt_provider i = provider \<and> idt_subject i = subject"

definition IDENTITY :: "string \<Rightarrow> string \<Rightarrow> 'z session_db_scheme \<Rightarrow> string option" where
  "IDENTITY provider subject db = map_option idt_user (find (is_identity provider subject) (user_identities db))"

definition INSERT_IDENTITY :: "identity_row \<Rightarrow> ('z session_db_scheme, unit) core_prog" where
  "INSERT_IDENTITY i db =
     (if IDENTITY (idt_provider i) (idt_subject i) db \<noteq> None then (Inl duplicate_row, db)
      else if map_of (users db) (idt_user i) = None then (Inl missing_user, db)
      else (Inr (), db\<lparr>user_identities := user_identities db @ [i]\<rparr>))"

subsection \<open>Reading a request\<close>

definition envInt :: "string option \<Rightarrow> int \<Rightarrow> int \<Rightarrow> int" where
  "envInt value fallback most =
     (case value of None \<Rightarrow> fallback
      | Some v \<Rightarrow> if js_trim v = [] then fallback
         else (case num_of_string v of
                 Fin q \<Rightarrow> if q \<notin> \<int> \<or> q < 1 \<or> of_int most < q then fallback else floor q
               | _ \<Rightarrow> fallback))"

text \<open>\<open>/^\+[1-9]\d{7,14}$/\<close> and \<open>/^\d{6}$/\<close>.\<close>

definition phone_text :: "string \<Rightarrow> bool" where
  "phone_text s = (case s of
       c # d # ds \<Rightarrow> c = CHR ''+'' \<and> is_digit d \<and> d \<noteq> CHR ''0'' \<and> list_all is_digit ds \<and> 7 \<le> length ds \<and> length ds \<le> 14
     | _ \<Rightarrow> False)"

definition code_text :: "string \<Rightarrow> bool" where
  "code_text s \<longleftrightarrow> length s = 6 \<and> list_all is_digit s"

definition phoneOf :: "jv \<Rightarrow> core_exn + string" where
  "phoneOf body = (case jget body ''phone'' of JStr s \<Rightarrow> if phone_text s then Inr s else Inl (field_error ''phone'' ''must be E.164'')
     | _ \<Rightarrow> Inl (field_error ''phone'' ''must be E.164''))"

definition codeOf :: "jv \<Rightarrow> core_exn + string" where
  "codeOf body = (case jget body ''code'' of JStr s \<Rightarrow> if code_text s then Inr s else Inl (field_error ''code'' ''must be 6 digits'')
     | _ \<Rightarrow> Inl (field_error ''code'' ''must be 6 digits''))"

text \<open>The six digits from a random 32-bit word.\<close>

definition six :: "32 word \<Rightarrow> string" where
  "six w = padStart 6 CHR ''0'' (nat_dec (unat w mod 1000000))"

definition callerOf :: "(string \<Rightarrow> string) \<Rightarrow> core_env \<Rightarrow> int \<Rightarrow> request \<Rightarrow> ('z session_db_scheme, user_row option) core_prog" where
  "callerOf sha env now rq =
     (let hd_text = header rq ''authorization'' in
      if hd_text = [] then ret None
      else guard (startsWith hd_text ''Bearer '') (unauthenticated ''missing bearer token'')
        (and_then (resolveUser sha env now (drop 7 hd_text)) (\<lambda>user.
           guard (cu_accountType user \<noteq> Employer_Account) (HttpError 403 ''FORBIDDEN'' ''phone auth is for personal accounts'' JNull)
             (ret (Some user)))))"

definition pendingOf ::
  "(string \<Rightarrow> string \<Rightarrow> string) \<Rightarrow> (string \<Rightarrow> jv option) \<Rightarrow> core_env \<Rightarrow> jv \<Rightarrow> int \<Rightarrow> core_exn + pending_signup option" where
  "pendingOf hmac jp env body now =
     (case jget body ''pendingToken'' of
        JStr t \<Rightarrow> if t = [] then Inr None else map_sum id Some (readPendingSignup hmac jp (env ''PENDING_SIGNUP_SECRET'') t now)
      | v \<Rightarrow> if nullish v then Inr None else Inl (field_error ''pendingToken'' ''must be a string''))"

subsection \<open>Sending\<close>

definition smsConfigured :: "core_env \<Rightarrow> bool" where
  "smsConfigured env \<longleftrightarrow> env ''PHONE_SMS_MODE'' = Some ''log'' \<and> env ''APP_ENV'' = Some ''development''"

definition createSmsSender :: "core_env \<Rightarrow> string \<Rightarrow> string \<Rightarrow> core_exn + unit" where
  "createSmsSender env phone code = (if smsConfigured env then Inr () else Inl (Thrown ''sms not configured''))"

definition sms_missing :: core_exn where
  "sms_missing = HttpError 503 ''NOT_CONFIGURED'' ''sms provider is not configured'' JNull"

text \<open>\<open>Math.ceil((sent + cooldown - now) / 1000)\<close>.\<close>

definition wait_sec :: "int \<Rightarrow> int \<Rightarrow> int \<Rightarrow> int" where
  "wait_sec sent cooldown now = - ((now - sent - cooldown * 1000) div 1000)"

definition new_code :: "(string \<Rightarrow> string) \<Rightarrow> string \<Rightarrow> string \<Rightarrow> string \<Rightarrow> int \<Rightarrow> int \<Rightarrow> phone_code" where
  "new_code sha i phone code now ttl = \<lparr>pc_id = i, pc_phone = phone, pc_hash = sha (i @ '':'' @ code), pc_expires = now + ttl * 1000,
     pc_attempts = 0, pc_sent = now, pc_consumed = None\<rparr>"

definition sendPhone ::
  "(string \<Rightarrow> jv option) \<Rightarrow> (string \<Rightarrow> string) \<Rightarrow> core_env \<Rightarrow> (string \<Rightarrow> string \<Rightarrow> core_exn + unit) option \<Rightarrow> string \<Rightarrow> 32 word \<Rightarrow> int
     \<Rightarrow> request \<Rightarrow> string \<Rightarrow> ('z phone_db_scheme, response) core_prog" where
  "sendPhone jp sha env sms i w now rq rid =
     and_then (from_sum (readJson jp rq)) (\<lambda>body.
     and_then (from_sum (phoneOf body)) (\<lambda>phone.
     and_then (callerOf sha env now rq) (\<lambda>_.
       (let cooldown = envInt (env ''PHONE_CODE_COOLDOWN_SEC'') DEFAULT_COOLDOWN 3600;
            ttl = envInt (env ''PHONE_CODE_TTL_SEC'') DEFAULT_TTL 3600; code = six w in
        and_then (reading (LATEST_SENT phone)) (\<lambda>latest.
        guard (case latest of None \<Rightarrow> True | Some t \<Rightarrow> wait_sec t cooldown now \<le> 0)
          (HttpError 429 ''RATE_LIMITED'' ''resend cooldown''
             (JObj [(''retryAfterSec'', JNum (case latest of None \<Rightarrow> 0 | Some t \<Rightarrow> wait_sec t cooldown now))]))
       (guard (sms \<noteq> None \<or> smsConfigured env) sms_missing
       (and_then (writing (CONSUME_OPEN phone now)) (\<lambda>_.
        and_then (INSERT_PHONE_CODE (new_code sha i phone code now ttl)) (\<lambda>_.
        and_then (catching (from_sum ((case sms of None \<Rightarrow> createSmsSender env | Some send \<Rightarrow> send) phone code))
          (\<lambda>x. case x of HttpError _ _ _ _ \<Rightarrow> throw x | _ \<Rightarrow> throw sms_missing)) (\<lambda>_.
          ret (data 202 (JObj [(''cooldownSeconds'', JNum cooldown), (''expiresAt'', JStr (stamp (now + ttl * 1000)))]) rid)))))))))))"

subsection \<open>Identities and sessions\<close>

definition phone_taken :: core_exn where
  "phone_taken = HttpError 409 ''PHONE_TAKEN'' ''this login is already linked to another account'' JNull"

definition bindIdentity :: "string \<Rightarrow> string \<Rightarrow> string \<Rightarrow> ('z session_db_scheme, unit) core_prog" where
  "bindIdentity u provider subject =
     (if provider = [] \<or> subject = [] then ret ()
      else and_then (reading (IDENTITY provider subject)) (\<lambda>existing.
        case existing of
          Some o' \<Rightarrow> if o' = u then ret () else throw phone_taken
        | None \<Rightarrow> catching (INSERT_IDENTITY \<lparr>idt_provider = provider, idt_subject = subject, idt_user = u\<rparr>)
            (\<lambda>x. if \<not> isUnique x then throw x
               else and_then (reading (IDENTITY provider subject)) (\<lambda>again. if again = Some u then ret () else throw phone_taken))))"

text \<open>The answer of a sign-in: the body of \<open>issue\<close> with \<open>created\<close> and, after a link, its provider.\<close>

definition session_body :: "jv \<Rightarrow> bool \<Rightarrow> string option \<Rightarrow> jv" where
  "session_body b created link = JObj (Prelude.fields b @ [(''created'', JBool created)]
     @ (case link of None \<Rightarrow> [] | Some provider \<Rightarrow> [(''linked'', JBool True), (''provider'', JStr provider)]))"

definition session_for :: "(string \<Rightarrow> string) \<Rightarrow> fresh \<Rightarrow> int \<Rightarrow> string \<Rightarrow> bool \<Rightarrow> string option \<Rightarrow> string \<Rightarrow> ('z auth_db_scheme, response) core_prog" where
  "session_for sha f now u created link rid =
     and_then (writing (clearDeletion u)) (\<lambda>_.
     and_then (issue sha f now u) (\<lambda>b. ret (data 200 (session_body b created link) rid)))"

definition socialProviders :: "string \<Rightarrow> 'z session_db_scheme \<Rightarrow> string list" where
  "socialProviders u db =
     (let me = (case map_of (users db) u of None \<Rightarrow> [] | Some row \<Rightarrow> (if nullish (jget row ''provider'') then [] else js_String (jget row ''provider'')));
          listed = map idt_provider (filter (\<lambda>i. idt_user i = u) (user_identities db)) in
      rev (remdups (rev (filter (\<lambda>p. p \<noteq> [] \<and> p \<noteq> ''phone'') (me # listed)))))"

definition already_registered :: "string list \<Rightarrow> core_exn" where
  "already_registered ps = HttpError 409 ''PHONE_ALREADY_REGISTERED'' ''phone is already registered'' (JObj [(''existingProviders'', JArr (map JStr ps))])"

definition finishOwned :: "(string \<Rightarrow> string) \<Rightarrow> fresh \<Rightarrow> int \<Rightarrow> string \<Rightarrow> string \<Rightarrow> bool \<Rightarrow> string \<Rightarrow> ('z auth_db_scheme, response) core_prog" where
  "finishOwned sha f now u phone created rid =
     and_then (bindIdentity u ''phone'' phone) (\<lambda>_. session_for sha f now u created None rid)"

definition linkOrBlock :: "(string \<Rightarrow> string) \<Rightarrow> fresh \<Rightarrow> int \<Rightarrow> string \<Rightarrow> pending_signup \<Rightarrow> string \<Rightarrow> string \<Rightarrow> ('z auth_db_scheme, response) core_prog" where
  "linkOrBlock sha f now u pending phone rid =
     and_then (reading (socialProviders u)) (\<lambda>existing.
     guard (existing = []) (already_registered existing)
    (and_then (reading (IDENTITY (ps_provider pending) (ps_subject pending))) (\<lambda>taken.
     guard (taken = None \<or> taken = Some u) phone_taken
    (and_then (catching (SET_SOCIAL u (ps_provider pending) (ps_subject pending)) (\<lambda>x. if \<not> isUnique x then throw x else throw phone_taken)) (\<lambda>_.
     and_then (bindIdentity u (ps_provider pending) (ps_subject pending)) (\<lambda>_.
     and_then (bindIdentity u ''phone'' phone) (\<lambda>_.
       session_for sha f now u False (Some (ps_provider pending)) rid)))))))"

definition insertSocial :: "string \<Rightarrow> pending_signup \<Rightarrow> string \<Rightarrow> string option \<Rightarrow> int \<Rightarrow> ('z user_db_scheme, unit) core_prog" where
  "insertSocial u pending phone email now =
     ADD_USER u (ps_provider pending) (ps_subject pending) email phone
       (phone_user_row u (ps_provider pending) (ps_subject pending) now email phone)"

text \<open>\<open>None\<close>: the user was inserted; \<open>Some v\<close>: somebody else's insert came first, and \<open>v\<close> owns the phone.\<close>

definition insert_or_owner :: "string \<Rightarrow> pending_signup \<Rightarrow> string \<Rightarrow> int \<Rightarrow> ('z user_db_scheme, string option) core_prog" where
  "insert_or_owner u pending phone now =
     catching (and_then (insertSocial u pending phone (ps_email pending) now) (\<lambda>_. ret None)) (\<lambda>x.
       if \<not> isUnique x then throw x
       else and_then (reading (BY_PHONE phone)) (\<lambda>raced.
         case raced of Some p \<Rightarrow> ret (Some (fst p))
         | None \<Rightarrow>
             guard (or_empty (ps_email pending) \<noteq> []) phone_taken
               (catching (and_then (insertSocial u pending phone None now) (\<lambda>_. ret None)) (\<lambda>x2.
                  if \<not> isUnique x2 then throw x2
                  else and_then (reading (BY_PHONE phone)) (\<lambda>again.
                    case again of Some p \<Rightarrow> ret (Some (fst p)) | None \<Rightarrow> throw phone_taken)))))"

definition createFromPending :: "(string \<Rightarrow> string) \<Rightarrow> fresh \<Rightarrow> int \<Rightarrow> pending_signup \<Rightarrow> string \<Rightarrow> string \<Rightarrow> ('z auth_db_scheme, response) core_prog" where
  "createFromPending sha f now pending phone rid =
     and_then (insert_or_owner (fr_user f) pending phone now) (\<lambda>owner.
       case owner of
         Some u \<Rightarrow> linkOrBlock sha f now u pending phone rid
       | None \<Rightarrow> and_then (bindIdentity (fr_user f) (ps_provider pending) (ps_subject pending)) (\<lambda>_.
           finishOwned sha f now (fr_user f) phone True rid))"

text \<open>Signing in without a social login: the owner of the phone, or a new user.\<close>

definition signInPhone :: "(string \<Rightarrow> string) \<Rightarrow> fresh \<Rightarrow> int \<Rightarrow> string \<Rightarrow> string \<Rightarrow> ('z auth_db_scheme, response) core_prog" where
  "signInPhone sha f now phone rid =
     and_then (reading (BY_PHONE phone)) (\<lambda>owner.
       case owner of
         Some p \<Rightarrow> finishOwned sha f now (fst p) phone False rid
       | None \<Rightarrow>
           and_then (catching (and_then (INSERT_PHONE_USER (fr_user f) phone now) (\<lambda>_. ret (fr_user f, True)))
             (\<lambda>x. if \<not> isUnique x then throw x
                else and_then (reading (BY_PHONE phone)) (\<lambda>raced. and_then (from_option x raced) (\<lambda>p. ret (fst p, False)))))
             (\<lambda>(u, created). finishOwned sha f now u phone created rid))"

subsection \<open>Verifying\<close>

definition code_invalid :: core_exn where
  "code_invalid = HttpError 400 ''PHONE_CODE_INVALID'' ''code is invalid'' JNull"

definition code_expired :: core_exn where
  "code_expired = HttpError 400 ''PHONE_CODE_EXPIRED'' ''code is expired'' JNull"

definition too_many_attempts :: core_exn where
  "too_many_attempts = HttpError 429 ''RATE_LIMITED'' ''too many attempts'' JNull"

text \<open>What a request has read before it writes: the phone, the code it presents, its body, and the active code.\<close>

record guess =
  gs_phone :: string
  gs_code :: string
  gs_body :: jv
  gs_row :: phone_code

definition verify_read :: "(string \<Rightarrow> jv option) \<Rightarrow> request \<Rightarrow> ('z phone_db_scheme, guess) core_prog" where
  "verify_read jp rq =
     and_then (from_sum (readJson jp rq)) (\<lambda>body.
     and_then (from_sum (phoneOf body)) (\<lambda>phone.
     and_then (from_sum (codeOf body)) (\<lambda>code.
     and_then (reading (ACTIVE_CODE phone)) (\<lambda>found.
     and_then (from_option code_invalid found) (\<lambda>row.
       ret \<lparr>gs_phone = phone, gs_code = code, gs_body = body, gs_row = row\<rparr>)))))"

definition max_attempts :: "core_env \<Rightarrow> int" where
  "max_attempts env = envInt (env ''PHONE_CODE_MAX_ATTEMPTS'') DEFAULT_ATTEMPTS 20"

definition right_code :: "(string \<Rightarrow> string) \<Rightarrow> guess \<Rightarrow> bool" where
  "right_code sha g \<longleftrightarrow> sha (pc_id (gs_row g) @ '':'' @ gs_code g) = pc_hash (gs_row g)"

definition complete_phone :: "(string \<Rightarrow> string) \<Rightarrow> fresh \<Rightarrow> int \<Rightarrow> string \<Rightarrow> pending_signup option \<Rightarrow> string \<Rightarrow> ('z auth_db_scheme, response) core_prog" where
  "complete_phone sha f now phone pending rid =
     (case pending of
        None \<Rightarrow> signInPhone sha f now phone rid
      | Some s \<Rightarrow> and_then (reading (BY_PHONE phone)) (\<lambda>owner.
          case owner of Some p \<Rightarrow> linkOrBlock sha f now (fst p) s phone rid | None \<Rightarrow> createFromPending sha f now s phone rid))"

definition verify_store ::
  "(string \<Rightarrow> string \<Rightarrow> string) \<Rightarrow> (string \<Rightarrow> jv option) \<Rightarrow> (string \<Rightarrow> string) \<Rightarrow> core_env \<Rightarrow> fresh \<Rightarrow> int \<Rightarrow> string \<Rightarrow> guess
     \<Rightarrow> ('z phone_db_scheme, response) core_prog" where
  "verify_store hmac jp sha env f now rid g =
     (let row = gs_row g in
      if pc_expires row \<le> now then and_then (writing (CONSUME_ONE (pc_id row) now)) (\<lambda>_. throw code_expired)
      else guard (pc_attempts row < max_attempts env) too_many_attempts
       (if \<not> right_code sha g then and_then (writing (BUMP (pc_id row))) (\<lambda>_. throw code_invalid)
        else and_then (from_sum (pendingOf hmac jp env (gs_body g) now)) (\<lambda>pending.
          and_then (writing (CONSUME_ONE (pc_id row) now)) (\<lambda>_. complete_phone sha f now (gs_phone g) pending rid))))"

definition verifyPhone ::
  "(string \<Rightarrow> string \<Rightarrow> string) \<Rightarrow> (string \<Rightarrow> jv option) \<Rightarrow> (string \<Rightarrow> string) \<Rightarrow> core_env \<Rightarrow> fresh \<Rightarrow> int \<Rightarrow> request \<Rightarrow> string
     \<Rightarrow> ('z phone_db_scheme, response) core_prog" where
  "verifyPhone hmac jp sha env f now rq rid = and_then (verify_read jp rq) (verify_store hmac jp sha env f now rid)"

end
