(* ===== verification/Phone_Props.thy ===== *)
theory Phone_Props
  imports Phone_Auth Frames
begin

text \<open>
  What codes sent to a phone are good for: how often a code can be guessed and used when requests run one
  after another and when they run at once, whom a verification signs in, and what it leaves of the
  accounts.
\<close>

subsection \<open>Codes\<close>

lemma last_sent_in: "last_sent cs = Some c \<Longrightarrow> c \<in> set cs"
  by (induction cs arbitrary: c) (auto split: option.splits if_splits)

lemma active_code: "ACTIVE_CODE phone db = Some c \<Longrightarrow> c \<in> set (phone_codes db) \<and> pc_phone c = phone \<and> pc_consumed c = None"
  unfolding ACTIVE_CODE_def by (drule last_sent_in) auto

lemma envInt_bounds:
  assumes "1 \<le> fallback" and "fallback \<le> most"
  shows "1 \<le> envInt v fallback most \<and> envInt v fallback most \<le> most"
proof -
  have "1 \<le> floor q \<and> floor q \<le> most" if "\<not> (q \<notin> \<int> \<or> q < 1 \<or> of_int most < q)" for q :: rat
    using that by (auto simp: le_floor_iff floor_le_iff elim!: Ints_cases)
  then show ?thesis using assms by (auto simp: envInt_def split: option.split jsnum.split)
qed

lemma attempts_range: "1 \<le> max_attempts env \<and> max_attempts env \<le> 20"
  unfolding max_attempts_def by (rule envInt_bounds) (simp_all add: DEFAULT_ATTEMPTS_def)

lemma verify_read_Inr: "verify_read jp rq db = (Inr g, db') \<longleftrightarrow>
    db' = db \<and> ACTIVE_CODE (gs_phone g) db = Some (gs_row g) \<and> readJson jp rq = Inr (gs_body g)
    \<and> phoneOf (gs_body g) = Inr (gs_phone g) \<and> codeOf (gs_body g) = Inr (gs_code g)"
  by (cases g) (auto simp: verify_read_def prog_results)

lemma verify_read_state: "snd (verify_read jp rq db) = db"
  by (simp add: verify_read_def and_then_def from_sum_def reading_def from_option_def split: sum.split option.split)

subsection \<open>Users and identities\<close>

text \<open>What a statement on the accounts may do: users keep their id, their phone and their kind, an identity keeps
  its user, and the codes stay as they are.\<close>

definition phones_of :: "(string \<times> jv) list \<Rightarrow> (string \<times> jv \<times> bool) list" where
  "phones_of us = map (\<lambda>p. (fst p, jget (snd p) ''phone'', employerFlag (jget (snd p) ''is_employer''))) us"

definition phone_owner :: "string \<Rightarrow> 'z user_db_scheme \<Rightarrow> string option" where
  "phone_owner phone db = map_option fst (BY_PHONE phone db)"

definition identity_key :: "identity_row \<Rightarrow> string \<times> string" where
  "identity_key i = (idt_provider i, idt_subject i)"

definition accounts_ok :: "'z session_db_scheme \<Rightarrow> bool" where
  "accounts_ok db \<longleftrightarrow> distinct (map fst (users db)) \<and> distinct (map identity_key (user_identities db))
     \<and> (\<forall>p \<in> set (users db). \<forall>q \<in> set (users db). \<forall>ph. has_phone ph p \<and> has_phone ph q \<longrightarrow> fst p = fst q)"

definition accounts_kept :: "'z phone_db_scheme \<Rightarrow> 'z phone_db_scheme \<Rightarrow> bool" where
  "accounts_kept db db' \<longleftrightarrow> phone_codes db' = phone_codes db \<and> (accounts_ok db \<longrightarrow> accounts_ok db')
     \<and> (\<exists>us. phones_of (users db') = phones_of (users db) @ us) \<and> (\<exists>ids. user_identities db' = user_identities db @ ids)"

lemma accounts_kept_refl: "accounts_kept db db"
  by (simp add: accounts_kept_def)

interpretation acc: stable accounts_kept
  by unfold_locales (simp add: accounts_kept_refl, fastforce simp: accounts_kept_def)

lemma jget_set: "jget (set_column k v row) k' = (if k = k' then v else jget row k')"
  by (simp add: jget_def set_column_def Prelude.fields_def update_conv')

lemma jget_login: "k \<notin> {''provider'', ''provider_subject''} \<Longrightarrow> jget (set_login p s row) k = jget row k"
  by (auto simp: set_login_def jget_set)

lemma phones_map:
  assumes "\<And>p. p \<in> set us \<Longrightarrow> fst (f p) = fst p \<and> jget (snd (f p)) ''phone'' = jget (snd p) ''phone''
      \<and> jget (snd (f p)) ''is_employer'' = jget (snd p) ''is_employer''"
  shows "phones_of (map f us) = phones_of us"
  using assms by (simp add: phones_of_def)

lemma has_phone_phones: "(\<exists>p \<in> set us. has_phone ph p \<and> fst p = u) \<longleftrightarrow> (u, JStr ph, False) \<in> set (phones_of us)"
  by (force simp: phones_of_def has_phone_def)

lemma phones_ids: "map fst us = map fst (phones_of us)"
  by (simp add: phones_of_def comp_def)

lemma owner_phones:
  "phone_owner ph db = map_option fst (find (\<lambda>(_, v, e). v = JStr ph \<and> \<not> e) (phones_of (users db)))"
proof -
  have "map_option fst (find (has_phone ph) us) = map_option fst (find (\<lambda>(_, v, e). v = JStr ph \<and> \<not> e) (phones_of us))" for us
    by (induction us) (auto simp: phones_of_def has_phone_def)
  then show ?thesis by (simp add: phone_owner_def BY_PHONE_def)
qed

lemma owner_same: "phones_of (users db') = phones_of (users db) \<Longrightarrow> phone_owner ph db' = phone_owner ph db"
  by (simp add: owner_phones)

lemma ok_same:
  assumes "phones_of (users db') = phones_of (users db)" and "user_identities db' = user_identities db" and "accounts_ok db"
  shows "accounts_ok db'"
proof -
  have ids: "map fst (users db') = map fst (users db)" using assms(1) phones_ids [of "users db"] phones_ids [of "users db'"] by simp
  have "has_phone ph p \<and> has_phone ph q \<longrightarrow> fst p = fst q" if "p \<in> set (users db')" "q \<in> set (users db')" for p q ph
    using assms(1,3) has_phone_phones [of "users db'" ph] has_phone_phones [of "users db" ph] that unfolding accounts_ok_def by metis
  with ids assms(2,3) show ?thesis by (auto simp: accounts_ok_def)
qed

lemma accounts_same:
  "phone_codes db' = phone_codes db \<Longrightarrow> phones_of (users db') = phones_of (users db) \<Longrightarrow> user_identities db' = user_identities db
     \<Longrightarrow> accounts_kept db db'"
  unfolding accounts_kept_def using ok_same [of db' db] by simp

lemma quiet_frames:
  "moves accounts_kept (writing (clearDeletion u) :: ('z phone_db_scheme, unit) core_prog)"
  "moves accounts_kept (INSERT_SESSION r a :: ('z phone_db_scheme, unit) core_prog)"
  "moves accounts_kept (SET_SOCIAL v pr su :: ('z phone_db_scheme, unit) core_prog)"
proof -
  show "moves accounts_kept (writing (clearDeletion u) :: ('z phone_db_scheme, unit) core_prog)"
    by (rule acc.m_write, rule accounts_same)
      (auto simp: clearDeletion_def Let_def update_user_def jget_set intro!: phones_map split: option.split)
  show "moves accounts_kept (INSERT_SESSION r a :: ('z phone_db_scheme, unit) core_prog)"
    unfolding moves_def by (auto simp: INSERT_SESSION_def accounts_kept_refl intro!: accounts_same)
  show "moves accounts_kept (SET_SOCIAL v pr su :: ('z phone_db_scheme, unit) core_prog)"
    unfolding moves_def by (auto simp: SET_SOCIAL_def Let_def accounts_kept_refl jget_login intro!: accounts_same phones_map)
qed

lemma identity_frame: "moves accounts_kept (INSERT_IDENTITY i :: ('z phone_db_scheme, unit) core_prog)"
  unfolding moves_def
proof
  fix db :: "'z phone_db_scheme"
  have "identity_key i \<notin> identity_key ` set (user_identities db)" if "IDENTITY (idt_provider i) (idt_subject i) db = None"
    using that by (auto simp: IDENTITY_def find_None_iff is_identity_def identity_key_def)
  then show "accounts_kept db (snd (INSERT_IDENTITY i db))"
    by (auto simp: INSERT_IDENTITY_def accounts_kept_def accounts_ok_def)
qed

lemma user_frame:
  assumes "jget row ''phone'' = JStr phone" and "\<not> employerFlag (jget row ''is_employer'')"
  shows "moves accounts_kept (ADD_USER u pr su email phone row :: ('z phone_db_scheme, unit) core_prog)"
  unfolding moves_def
proof
  fix db :: "'z phone_db_scheme"
  have "accounts_ok (db\<lparr>users := users db @ [(u, row)]\<rparr>)"
    if "map_of (users db) u = None" "BY_PHONE phone db = None" "accounts_ok db"
  proof -
    have "\<not> has_phone phone p" if "p \<in> set (users db)" for p using \<open>BY_PHONE phone db = None\<close> that by (cases p) (auto simp: BY_PHONE_def find_None_iff)
    moreover have "has_phone ph (u, row) \<Longrightarrow> ph = phone" for ph using assms(1) by (simp add: has_phone_def)
    ultimately show ?thesis using that(1,3) by (auto simp: accounts_ok_def map_of_eq_None_iff)
  qed
  then show "accounts_kept db (snd (ADD_USER u pr su email phone row db))"
    by (cases "BY_PHONE phone db") (auto simp: ADD_USER_def accounts_kept_def phones_of_def)
qed

lemma phone_row: "jget (phone_user_row u pr su now email phone) ''phone'' = JStr phone"
  "\<not> employerFlag (jget (phone_user_row u pr su now email phone) ''is_employer'')"
  by (simp_all add: phone_user_row_def jget_def Prelude.fields_def employerFlag_def)

lemma read_frames: "moves accounts_kept (userBy (user_by_id u) (user_by_id_base u) :: ('z phone_db_scheme, jv option) core_prog)"
  unfolding moves_def by (simp add: user_by_id_reads accounts_kept_refl)

lemma session_frame: "moves accounts_kept (session_for sha f now u created link rid :: ('z phone_db_scheme, response) core_prog)"
  unfolding session_for_def issue_def by (intro acc.m_rules quiet_frames read_frames)

lemma bind_frame: "moves accounts_kept (bindIdentity u pr su :: ('z phone_db_scheme, unit) core_prog)"
  unfolding bindIdentity_def by (auto intro!: acc.m_rules identity_frame split: option.split)

lemma finish_frame: "moves accounts_kept (finishOwned sha f now u phone created rid :: ('z phone_db_scheme, response) core_prog)"
  unfolding finishOwned_def by (intro acc.m_rules bind_frame session_frame)

lemma link_frame: "moves accounts_kept (linkOrBlock sha f now u pending phone rid :: ('z phone_db_scheme, response) core_prog)"
  unfolding linkOrBlock_def by (auto intro!: acc.m_rules bind_frame session_frame quiet_frames)

lemma create_frame: "moves accounts_kept (createFromPending sha f now pending phone rid :: ('z phone_db_scheme, response) core_prog)"
  unfolding createFromPending_def insert_or_owner_def insertSocial_def
  by (auto intro!: acc.m_rules bind_frame link_frame finish_frame user_frame phone_row split: option.split)

lemma sign_in_frame: "moves accounts_kept (signInPhone sha f now phone rid :: ('z phone_db_scheme, response) core_prog)"
  unfolding signInPhone_def INSERT_PHONE_USER_def
  by (auto intro!: acc.m_rules finish_frame user_frame phone_row split: option.split prod.split)

lemma complete_frame: "moves accounts_kept (complete_phone sha f now phone pending rid :: ('z phone_db_scheme, response) core_prog)"
  unfolding complete_phone_def by (auto intro!: acc.m_rules sign_in_frame link_frame create_frame split: option.split)

subsection \<open>Requests one after another\<close>

datatype phone_event = Wrong string | Used string | Other_Request

text \<open>What a request that has read a code is going to do to it: a wrong guess, its use, or neither. The lemma
  \<open>verify_codes\<close> below shows that the stored codes change exactly so.\<close>

definition guess_event ::
  "(string \<Rightarrow> string \<Rightarrow> string) \<Rightarrow> (string \<Rightarrow> jv option) \<Rightarrow> (string \<Rightarrow> string) \<Rightarrow> core_env \<Rightarrow> int \<Rightarrow> guess \<Rightarrow> phone_event" where
  "guess_event hmac jp sha env now g =
     (let row = gs_row g in
      if pc_expires row \<le> now \<or> \<not> pc_attempts row < max_attempts env then Other_Request
      else if \<not> right_code sha g then Wrong (pc_id row)
      else (case pendingOf hmac jp env (gs_body g) now of Inl _ \<Rightarrow> Other_Request | Inr _ \<Rightarrow> Used (pc_id row)))"

definition verify_event ::
  "(string \<Rightarrow> string \<Rightarrow> string) \<Rightarrow> (string \<Rightarrow> jv option) \<Rightarrow> (string \<Rightarrow> string) \<Rightarrow> core_env \<Rightarrow> int \<Rightarrow> request \<Rightarrow> 'z phone_db_scheme \<Rightarrow> phone_event" where
  "verify_event hmac jp sha env now rq db =
     (case fst (verify_read jp rq db) of Inl _ \<Rightarrow> Other_Request | Inr g \<Rightarrow> guess_event hmac jp sha env now g)"

inductive phone_step ::
  "(string \<Rightarrow> string \<Rightarrow> string) \<Rightarrow> (string \<Rightarrow> jv option) \<Rightarrow> (string \<Rightarrow> string) \<Rightarrow> core_env \<Rightarrow> 'z phone_db_scheme \<Rightarrow> phone_event \<Rightarrow> 'z phone_db_scheme \<Rightarrow> bool"
  for hmac jp sha env where
  P_send: "sendPhone jp sha env sms i w now rq rid db = (r, db') \<Longrightarrow> phone_step hmac jp sha env db Other_Request db'"
| P_verify: "verifyPhone hmac jp sha env f now rq rid db = (r, db')
    \<Longrightarrow> phone_step hmac jp sha env db (verify_event hmac jp sha env now rq db) db'"
| P_rest: "phone_codes db' = phone_codes db \<Longrightarrow> phone_step hmac jp sha env db Other_Request db'"

definition consumed :: "(phone_code \<Rightarrow> bool) \<Rightarrow> int \<Rightarrow> phone_code list \<Rightarrow> phone_code list" where
  "consumed P now = map (\<lambda>c. if P c \<and> pc_consumed c = None then c\<lparr>pc_consumed := Some now\<rparr> else c)"

definition bumped :: "string \<Rightarrow> phone_code list \<Rightarrow> phone_code list" where
  "bumped i = map (\<lambda>c. if pc_id c = i then c\<lparr>pc_attempts := pc_attempts c + 1\<rparr> else c)"

lemma codes_after: "phone_codes (CONSUME_ONE i now db) = consumed (\<lambda>c. pc_id c = i) now (phone_codes db)"
  "phone_codes (CONSUME_OPEN phone now db) = consumed (\<lambda>c. pc_phone c = phone) now (phone_codes db)"
  "phone_codes (BUMP i db) = bumped i (phone_codes db)"
  by (simp_all add: CONSUME_ONE_def CONSUME_OPEN_def consume_where_def consumed_def BUMP_def bumped_def)

lemma complete_codes: "phone_codes (snd (complete_phone sha f now phone pending rid db)) = phone_codes db"
  using complete_frame unfolding moves_def accounts_kept_def by blast

text \<open>The codes after a verification, by what it did.\<close>

lemma verify_codes:
  assumes "verify_store hmac jp sha env f now rid g db = (r, db')"
  shows "case guess_event hmac jp sha env now g of
      Wrong i \<Rightarrow> phone_codes db' = bumped i (phone_codes db)
    | Used i \<Rightarrow> phone_codes db' = consumed (\<lambda>c. pc_id c = i) now (phone_codes db)
    | Other_Request \<Rightarrow> \<exists>P. phone_codes db' = consumed P now (phone_codes db)"
proof -
  have quiet: "consumed (\<lambda>_. False) now cs = cs" for cs by (simp add: consumed_def)
  have "db' = snd (verify_store hmac jp sha env f now rid g db)" using assms by simp
  then show ?thesis
    using quiet [of "phone_codes db"]
    by (auto simp: verify_store_def guess_event_def Let_def seq_simps codes_after complete_codes split: sum.split intro: exI [of _ "\<lambda>_. False"])
qed

lemma caller_reads: "callerOf sha env now rq db = (x, db') \<Longrightarrow> db' = db"
proof -
  have by_token: "moves (=) (userBy (USER_BY_TOKEN h) (USER_BY_TOKEN_BASE h))" for h
    unfolding userBy_def USER_BY_TOKEN_BASE_def
    by (intro same.m_catch) (auto simp: moves_def USER_BY_TOKEN_def prog_defs split: option.split)
  have by_id: "moves (=) (userBy (user_by_id u) (user_by_id_base u))" for u
    by (simp add: moves_def user_by_id_reads)
  have "moves (=) (callerOf sha env now rq)"
    unfolding callerOf_def resolveUser_def Let_def by (auto intro!: reads_only by_token by_id split: prod.split)
  moreover assume "callerOf sha env now rq db = (x, db')"
  ultimately show ?thesis using movesD by metis
qed

lemma consumed_ids: "map pc_id (consumed P now cs) = map pc_id cs" "pc_id ` set (consumed P now cs) = pc_id ` set cs"
proof -
  show m: "map pc_id (consumed P now cs) = map pc_id cs" by (simp add: consumed_def)
  from arg_cong [OF m, of set] show "pc_id ` set (consumed P now cs) = pc_id ` set cs" by simp
qed

text \<open>The codes after a request to send one: the open codes of the phone are consumed and a new code is there, or not.\<close>

definition fresh_codes :: "phone_code list \<Rightarrow> phone_code list \<Rightarrow> bool" where
  "fresh_codes new old \<longleftrightarrow> (\<forall>c \<in> set new. pc_id c \<notin> pc_id ` set old \<and> pc_attempts c = 0 \<and> pc_consumed c = None) \<and> distinct (map pc_id new)"

definition sends_code :: "int \<Rightarrow> 'z phone_db_scheme \<Rightarrow> 'z phone_db_scheme \<Rightarrow> bool" where
  "sends_code now db db' \<longleftrightarrow> (\<exists>P new. phone_codes db' = consumed P now (phone_codes db) @ new \<and> fresh_codes new (phone_codes db))"

lemma consumed_none [simp]: "consumed (\<lambda>_. False) now cs = cs"
  by (simp add: consumed_def)

interpretation send: touch "sends_code now" for now
  by unfold_locales (auto simp: sends_code_def fresh_codes_def intro!: exI [of _ "\<lambda>_. False"])

lemma insert_sends:
  "moves (sends_code now) (and_then (writing (CONSUME_OPEN ph now)) (\<lambda>_. INSERT_PHONE_CODE (new_code sha i ph code now ttl)))"
  unfolding moves_def
proof
  fix db :: "'a phone_db_scheme"
  have e: "(\<exists>x \<in> set (consumed P now cs). pc_id x = j) \<longleftrightarrow> j \<in> pc_id ` set cs" for P cs j
    using consumed_ids(2) [of P now cs] by (metis image_iff)
  show "sends_code now db (snd (and_then (writing (CONSUME_OPEN ph now)) (\<lambda>_. INSERT_PHONE_CODE (new_code sha i ph code now ttl)) db))"
    unfolding sends_code_def
    by (intro exI [of _ "\<lambda>c. pc_phone c = ph"]) (simp add: seq_simps INSERT_PHONE_CODE_def codes_after e fresh_codes_def new_code_def)
qed

lemma send_codes: "moves (sends_code now) (sendPhone jp sha env sms i w now rq rid)"
proof -
  have call: "moves (=) (callerOf sha env now rq)"
    unfolding moves_def using caller_reads by (metis surj_pair snd_conv)
  have tail: "moves (=) (case x of HttpError a b c d \<Rightarrow> throw x | _ \<Rightarrow> throw sms_missing)" for x
    by (cases x) (simp_all add: same.m_quiet)
  have core: "moves (sends_code now) (and_then (writing (CONSUME_OPEN ph now)) (\<lambda>_.
      and_then (INSERT_PHONE_CODE (new_code sha i ph code now ttl)) (\<lambda>_. and_then (catching (from_sum v)
        (\<lambda>x. case x of HttpError a b c d \<Rightarrow> throw x | _ \<Rightarrow> throw sms_missing)) (\<lambda>_. ret y))))" for ph code ttl v y
    unfolding and_then_assoc [symmetric, abs_def]
    by (intro send.m_first insert_sends same.m_rules tail)
  show ?thesis
    unfolding sendPhone_def Let_def by (rule core | rule call | rule send.m_last | rule send.m_guard | rule reads_only)+
qed

text \<open>How often a code was guessed and used, against its row.\<close>

definition wrongs :: "phone_event list \<Rightarrow> string \<Rightarrow> int" where
  "wrongs es i = int (length (filter (\<lambda>e. e = Wrong i) es))"

definition uses :: "phone_event list \<Rightarrow> string \<Rightarrow> int" where
  "uses es i = int (length (filter (\<lambda>e. e = Used i) es))"

definition tallied :: "int \<Rightarrow> phone_event list \<Rightarrow> phone_code \<Rightarrow> bool" where
  "tallied most es c \<longleftrightarrow> wrongs es (pc_id c) \<le> pc_attempts c \<and> wrongs es (pc_id c) \<le> most \<and> uses es (pc_id c) \<le> 1
     \<and> (pc_consumed c = None \<longrightarrow> uses es (pc_id c) = 0)"

definition codes_inv :: "int \<Rightarrow> phone_event list \<Rightarrow> phone_code list \<Rightarrow> bool" where
  "codes_inv most es cs \<longleftrightarrow> distinct (map pc_id cs) \<and> (\<forall>c \<in> set cs. tallied most es c)
     \<and> (\<forall>i. i \<notin> pc_id ` set cs \<longrightarrow> wrongs es i = 0 \<and> uses es i = 0)"

lemma tally_snoc: "wrongs (es @ [e]) i = wrongs es i + (if e = Wrong i then 1 else 0)"
  "uses (es @ [e]) i = uses es i + (if e = Used i then 1 else 0)"
  by (simp_all add: wrongs_def uses_def)

lemma codes_inv_map:
  assumes "codes_inv most es cs" and "map pc_id (map f cs) = map pc_id cs" and "\<And>c. c \<in> set cs \<Longrightarrow> tallied most es c \<Longrightarrow> tallied most (es @ [e]) (f c)"
    and "\<And>i. i \<notin> pc_id ` set cs \<Longrightarrow> e \<noteq> Wrong i \<and> e \<noteq> Used i"
  shows "codes_inv most (es @ [e]) (map f cs)"
proof -
  have ids: "pc_id ` set (map f cs) = pc_id ` set cs" using arg_cong [OF assms(2), of set] by (simp add: image_image)
  have "tallied most (es @ [e]) c" if "c \<in> set (map f cs)" for c
    using that assms(1,3) by (auto simp: codes_inv_def)
  moreover have "wrongs (es @ [e]) i = 0 \<and> uses (es @ [e]) i = 0" if "i \<notin> pc_id ` set (map f cs)" for i
    using that assms(1,4) unfolding ids by (simp add: codes_inv_def tally_snoc)
  moreover have "distinct (map pc_id (map f cs))" using assms(1,2) by (simp only: codes_inv_def)
  ultimately show ?thesis by (simp only: codes_inv_def) blast
qed

lemma codes_inv_consumed: "codes_inv most es cs \<Longrightarrow> codes_inv most (es @ [Other_Request]) (consumed P now cs)"
  unfolding consumed_def by (rule codes_inv_map) (simp_all add: tallied_def tally_snoc)

lemma codes_inv_new:
  assumes "codes_inv most es cs" and "fresh_codes new cs" and "0 \<le> most"
  shows "codes_inv most es (cs @ new)"
proof -
  have n: "wrongs es (pc_id c) = 0 \<and> uses es (pc_id c) = 0" if "c \<in> set new" for c
    using that assms(1,2) by (simp add: codes_inv_def fresh_codes_def)
  then have "tallied most es c" if "c \<in> set new" for c
    using that assms(2,3) by (simp add: tallied_def fresh_codes_def)
  moreover have "pc_id ` set cs \<inter> pc_id ` set new = {}"
  proof (rule equals0I)
    fix x
    assume x: "x \<in> pc_id ` set cs \<inter> pc_id ` set new"
    then have "x \<in> pc_id ` set new" by (rule IntD2)
    then obtain c where "x = pc_id c" "c \<in> set new" by (rule imageE)
    with x assms(2) show False by (simp add: fresh_codes_def)
  qed
  ultimately show ?thesis using assms(1,2) by (simp add: codes_inv_def fresh_codes_def ball_Un image_Un)
qed

lemma row_unique: "codes_inv most es cs \<Longrightarrow> row \<in> set cs \<Longrightarrow> c \<in> set cs \<Longrightarrow> pc_id c = pc_id row \<Longrightarrow> c = row"
  by (simp add: codes_inv_def distinct_map inj_on_def)

lemma codes_inv_wrong:
  assumes "codes_inv most es cs" and "row \<in> set cs" and "pc_attempts row < most"
  shows "codes_inv most (es @ [Wrong (pc_id row)]) (bumped (pc_id row) cs)"
  unfolding bumped_def
proof (rule codes_inv_map [OF assms(1)])
  show "tallied most (es @ [Wrong (pc_id row)]) (if pc_id c = pc_id row then c\<lparr>pc_attempts := pc_attempts c + 1\<rparr> else c)"
    if "c \<in> set cs" "tallied most es c" for c
    using that(2) assms(3) row_unique [OF assms(1,2) that(1)] by (cases "pc_id c = pc_id row") (simp_all add: tallied_def tally_snoc)
qed (use assms(2) in auto)

lemma codes_inv_used:
  assumes "codes_inv most es cs" and "row \<in> set cs" and "pc_consumed row = None"
  shows "codes_inv most (es @ [Used (pc_id row)]) (consumed (\<lambda>c. pc_id c = pc_id row) now cs)"
  unfolding consumed_def
proof (rule codes_inv_map [OF assms(1)])
  show "tallied most (es @ [Used (pc_id row)]) (if pc_id c = pc_id row \<and> pc_consumed c = None then c\<lparr>pc_consumed := Some now\<rparr> else c)"
    if "c \<in> set cs" "tallied most es c" for c
    using that(2) assms(3) row_unique [OF assms(1,2) that(1)] by (cases "pc_id c = pc_id row") (simp_all add: tallied_def tally_snoc)
qed (use assms(2) in auto)

lemma phone_step_inv:
  assumes "phone_step hmac jp sha env db e db'" and "codes_inv (max_attempts env) es (phone_codes db)"
  shows "codes_inv (max_attempts env) (es @ [e]) (phone_codes db')"
  using assms(1)
proof cases
  case (P_send i w sms now rq rid r)
  then have "sends_code now db db'" using send_codes by (metis movesD)
  then obtain P new where n: "phone_codes db' = consumed P now (phone_codes db) @ new" "fresh_codes new (phone_codes db)" by (auto simp: sends_code_def)
  have "fresh_codes new (consumed P now (phone_codes db))" using n(2) by (simp add: fresh_codes_def consumed_ids)
  then show ?thesis
    using codes_inv_new [OF codes_inv_consumed [OF assms(2)]] attempts_range [of env] n(1) P_send(1) by simp
next
  case (P_verify f now rq rid r)
  show ?thesis
  proof (cases "verify_read jp rq db")
    case (Pair x db1)
    then have d: "db1 = db" using verify_read_state [of jp rq db] by simp
    show ?thesis
    proof (cases x)
      case (Inl y)
      with Pair P_verify d have "db' = db" "e = Other_Request" by (auto simp: verifyPhone_def and_then_def verify_event_def)
      then show ?thesis using codes_inv_consumed [OF assms(2), of "\<lambda>_. False"] by simp
    next
      case (Inr g)
      with Pair d have g: "gs_row g \<in> set (phone_codes db)" "pc_consumed (gs_row g) = None"
        using active_code by (auto simp: verify_read_Inr)
      from Inr Pair P_verify d have s: "verify_store hmac jp sha env f now rid g db = (r, db')" and e: "e = guess_event hmac jp sha env now g"
        by (auto simp: verifyPhone_def and_then_def verify_event_def)
      show ?thesis
        using verify_codes [OF s] codes_inv_wrong [OF assms(2) g(1)] codes_inv_used [OF assms(2) g, of now] codes_inv_consumed [OF assms(2)]
        unfolding e by (auto simp: guess_event_def Let_def split: if_splits sum.splits)
    qed
  qed
next
  case P_rest
  then show ?thesis using codes_inv_consumed [OF assms(2), of "\<lambda>_. False"] by simp
qed

text \<open>C17: Guesses one after another. Where the requests run one after another, a code is compared with at most the configured
  number of wrong guesses, never more than twenty, and it signs in at most one request.\<close>

theorem codes_limited:
  assumes "run (phone_step hmac jp sha env) db es db'" and "distinct (map pc_id (phone_codes db))" and "\<forall>c \<in> set (phone_codes db). 0 \<le> pc_attempts c"
  shows "length (filter (\<lambda>e. e = Wrong i) es) \<le> nat (max_attempts env) \<and> max_attempts env \<le> 20 \<and> length (filter (\<lambda>e. e = Used i) es) \<le> 1"
proof -
  have "codes_inv (max_attempts env) es (phone_codes db')" using assms
  proof (induction rule: run.induct)
    case (run_start s)
    show ?case using run_start attempts_range [of env] by (simp add: codes_inv_def tallied_def wrongs_def uses_def)
  next
    case (run_more s es s1 e s2)
    then show ?case by (blast intro: phone_step_inv)
  qed
  then have "wrongs es i \<le> max_attempts env \<and> uses es i \<le> 1"
    using attempts_range [of env] by (cases "i \<in> pc_id ` set (phone_codes db')") (auto simp: codes_inv_def tallied_def)
  then show ?thesis using attempts_range [of env] by (simp add: wrongs_def uses_def le_nat_iff)
qed

subsection \<open>Requests at once\<close>

text \<open>The second halves of requests that have all read the code before, one after another: what each answers,
  and the state they leave.\<close>

fun store_all ::
  "(string \<Rightarrow> string \<Rightarrow> string) \<Rightarrow> (string \<Rightarrow> jv option) \<Rightarrow> (string \<Rightarrow> string) \<Rightarrow> core_env \<Rightarrow> (guess \<times> fresh \<times> int \<times> string) list
     \<Rightarrow> 'z phone_db_scheme \<Rightarrow> (core_exn + response) list \<times> 'z phone_db_scheme" where
  "store_all hmac jp sha env [] db = ([], db)"
| "store_all hmac jp sha env ((g, f, now, rid) # qs) db =
     (case verify_store hmac jp sha env f now rid g db of (r, db1) \<Rightarrow>
      case store_all hmac jp sha env qs db1 of (out, db2) \<Rightarrow> (r # out, db2))"

text \<open>A guess at the active code \<open>c\<close> of the phone, read in \<open>db\<close> and written before the code expires.\<close>

definition guess_at :: "(string \<Rightarrow> jv option) \<Rightarrow> 'z phone_db_scheme \<Rightarrow> string \<Rightarrow> phone_code \<Rightarrow> guess \<Rightarrow> int \<Rightarrow> bool" where
  "guess_at jp db phone c g now \<longleftrightarrow> (\<exists>rq. verify_read jp rq db = (Inr g, db)) \<and> gs_phone g = phone \<and> ACTIVE_CODE phone db = Some c
     \<and> now < pc_expires c"

lemma guess_row: "guess_at jp db phone c g now \<Longrightarrow> gs_row g = c \<and> gs_phone g = phone \<and> \<not> pc_expires c \<le> now"
  by (auto simp: guess_at_def verify_read_Inr)

lemma wrong_store:
  assumes "guess_at jp db phone c g now" and "pc_attempts c < max_attempts env" and "\<not> right_code sha g"
  shows "verify_store hmac jp sha env f now rid g db' = (Inl code_invalid, BUMP (pc_id c) db')"
  using guess_row [OF assms(1)] assms(2,3) by (simp add: verify_store_def Let_def seq_simps)

lemma right_store:
  assumes "guess_at jp db phone c g now" and "pc_attempts c < max_attempts env" and "right_code sha g"
    and "pendingOf hmac jp env (gs_body g) now = Inr pending"
  shows "verify_store hmac jp sha env f now rid g db' = complete_phone sha f now phone pending rid (CONSUME_ONE (pc_id c) now db')"
  using guess_row [OF assms(1)] assms(2-4) by (simp add: verify_store_def Let_def seq_simps)

definition counted_to :: "string \<Rightarrow> int \<Rightarrow> phone_code list \<Rightarrow> bool" where
  "counted_to i n cs \<longleftrightarrow> (\<exists>c \<in> set cs. pc_id c = i \<and> pc_attempts c = n \<and> pc_consumed c = None)"

lemma counted_bump: "counted_to i n cs \<Longrightarrow> counted_to i (n + 1) (bumped i cs)"
  unfolding counted_to_def bumped_def set_map bex_simps(7) by (erule bexE, rule bexI) simp_all

lemma counted_consumed: "counted_to i n cs \<Longrightarrow> \<exists>c \<in> set (consumed (\<lambda>x. pc_id x = i) now cs). pc_id c = i \<and> pc_consumed c = Some now"
  unfolding counted_to_def consumed_def set_map bex_simps(7) by (erule bexE, rule bexI) simp_all

lemma wrong_stores:
  assumes "\<forall>(g, f, now, rid) \<in> set wrong. guess_at jp db phone c g now \<and> \<not> right_code sha g" and "pc_attempts c < max_attempts env"
    and "store_all hmac jp sha env wrong db' = (out, db0)" and "counted_to (pc_id c) n (phone_codes db')"
  shows "out = replicate (length wrong) (Inl code_invalid) \<and> counted_to (pc_id c) (n + int (length wrong)) (phone_codes db0)"
  using assms
proof (induction wrong arbitrary: db' n out)
  case (Cons q wrong)
  obtain g f now rid where q: "q = (g, f, now, rid)" by (metis surj_pair)
  have v: "verify_store hmac jp sha env f now rid g db' = (Inl code_invalid, BUMP (pc_id c) db')"
    using Cons.prems(1,2) q by (intro wrong_store) auto
  obtain out' where o: "store_all hmac jp sha env wrong (BUMP (pc_id c) db') = (out', db0)" "out = Inl code_invalid # out'"
    using Cons.prems(3) v q by (auto split: prod.splits)
  have "counted_to (pc_id c) (n + 1) (phone_codes (BUMP (pc_id c) db'))" using counted_bump [OF Cons.prems(4)] by (simp add: codes_after)
  from Cons.IH [OF _ Cons.prems(2) o(1) this] Cons.prems(1) o(2) show ?case by (simp add: algebra_simps)
qed simp

text \<open>C18: Guesses at once. The limit and the single use of a code hold for requests one after another only. Any number
  of requests that have read an open code before one of them writes get their wrong guess compared
  (\<open>PHONE_CODE_INVALID\<close>, never the refusal for too many attempts), and leave the count that much higher,
  beyond the limit. Two right guesses read then still go on to sign in after all of them: the first
  although the count has passed the limit, the second although the first has consumed the code.\<close>

theorem guesses_at_once:
  assumes "\<forall>(g, f, now, rid) \<in> set wrong. guess_at jp db phone c g now \<and> \<not> right_code sha g" and "pc_attempts c < max_attempts env"
    and "guess_at jp db phone c g1 t1" and "right_code sha g1" and "pendingOf hmac jp env (gs_body g1) t1 = Inr s1"
    and "guess_at jp db phone c g2 t2" and "right_code sha g2" and "pendingOf hmac jp env (gs_body g2) t2 = Inr s2"
    and "store_all hmac jp sha env wrong db = (out, db0)" and "verify_store hmac jp sha env f1 t1 rid1 g1 db0 = (r1, db1)"
  shows "out = replicate (length wrong) (Inl code_invalid)
    \<and> (\<exists>c0 \<in> set (phone_codes db0). pc_id c0 = pc_id c \<and> pc_attempts c0 = pc_attempts c + int (length wrong))
    \<and> (r1, db1) = complete_phone sha f1 t1 phone s1 rid1 (CONSUME_ONE (pc_id c) t1 db0)
    \<and> (\<exists>c1 \<in> set (phone_codes db1). pc_id c1 = pc_id c \<and> pc_consumed c1 = Some t1)
    \<and> verify_store hmac jp sha env f2 t2 rid2 g2 db1 = complete_phone sha f2 t2 phone s2 rid2 (CONSUME_ONE (pc_id c) t2 db1)"
proof -
  have "counted_to (pc_id c) (pc_attempts c) (phone_codes db)"
    using assms(3) active_code [of phone db c] by (auto simp: guess_at_def counted_to_def)
  note w = wrong_stores [OF assms(1,2,9) this]
  have one: "(r1, db1) = complete_phone sha f1 t1 phone s1 rid1 (CONSUME_ONE (pc_id c) t1 db0)"
    using right_store [OF assms(3,2,4,5), of f1 rid1 db0] assms(10) by simp
  then have "db1 = snd (complete_phone sha f1 t1 phone s1 rid1 (CONSUME_ONE (pc_id c) t1 db0))" by (metis snd_conv)
  then have "phone_codes db1 = consumed (\<lambda>x. pc_id x = pc_id c) t1 (phone_codes db0)" by (simp add: complete_codes codes_after)
  then have "\<exists>c1 \<in> set (phone_codes db1). pc_id c1 = pc_id c \<and> pc_consumed c1 = Some t1"
    using w counted_consumed [of "pc_id c" "pc_attempts c + int (length wrong)" "phone_codes db0" t1] by simp
  with w one right_store [OF assms(6,2,7,8), of f2 rid2 db1] show ?thesis by (auto simp: counted_to_def)
qed

subsection \<open>Whom a verification signs in\<close>

definition signs_in :: "(string \<Rightarrow> string) \<Rightarrow> fresh \<Rightarrow> int \<Rightarrow> string \<Rightarrow> 'z session_db_scheme \<Rightarrow> 'z session_db_scheme \<Rightarrow> bool" where
  "signs_in sha f now u db db' \<longleftrightarrow> phones_of (users db') = phones_of (users db) \<and> refresh_tokens db' = refresh_tokens db @ [new_refresh sha f now u]"

definition login_kept :: "'z session_db_scheme \<Rightarrow> 'z session_db_scheme \<Rightarrow> bool" where
  "login_kept db db' \<longleftrightarrow> phones_of (users db') = phones_of (users db) \<and> refresh_tokens db' = refresh_tokens db"

interpretation login: stable login_kept
  by unfold_locales (simp_all add: login_kept_def)

lemma login_then: "login_kept db db1 \<Longrightarrow> signs_in sha f now u db1 db' \<Longrightarrow> signs_in sha f now u db db'"
  by (simp add: login_kept_def signs_in_def)

lemma clear_login: "login_kept db (clearDeletion u db)"
  by (auto simp: login_kept_def clearDeletion_def Let_def update_user_def jget_set intro!: phones_map split: option.split)

lemma bind_login: "moves login_kept (bindIdentity u pr su)"
proof -
  have "moves login_kept (INSERT_IDENTITY i)" for i
    unfolding moves_def by (simp add: INSERT_IDENTITY_def login_kept_def)
  then show ?thesis unfolding bindIdentity_def by (auto intro!: login.m_rules split: option.split)
qed

lemma social_login: "moves login_kept (SET_SOCIAL u pr su)"
  unfolding moves_def by (auto simp: SET_SOCIAL_def Let_def login_kept_def jget_login intro!: phones_map)

lemma session_signs: "session_for sha f now u created link rid db = (Inr rs, db') \<Longrightarrow> signs_in sha f now u db db'"
proof -
  assume "session_for sha f now u created link rid db = (Inr rs, db')"
  then obtain db2 where i: "INSERT_SESSION (new_refresh sha f now u) (new_access sha f now u) (clearDeletion u db) = (Inr (), db2)" and "db' = db2"
    by (auto simp: session_for_def issue_def prog_results user_by_id_reads)
  moreover have "signs_in sha f now u (clearDeletion u db) db2"
    using i by (auto simp: INSERT_SESSION_def signs_in_def split: if_splits)
  ultimately show ?thesis using login_then [OF clear_login] by blast
qed

lemma finish_signs: "finishOwned sha f now u phone created rid db = (Inr rs, db') \<Longrightarrow> signs_in sha f now u db db'"
  unfolding finishOwned_def and_then_Inr by (blast intro: login_then session_signs movesD [OF bind_login])

lemma link_signs: "linkOrBlock sha f now u pending phone rid db = (Inr rs, db') \<Longrightarrow> signs_in sha f now u db db'"
proof -
  have c: "moves login_kept (catching (SET_SOCIAL u pr su) (\<lambda>x. if \<not> isUnique x then throw x else throw phone_taken))" for pr su
    by (auto intro!: login.m_rules social_login)
  assume "linkOrBlock sha f now u pending phone rid db = (Inr rs, db')"
  then show ?thesis
    unfolding linkOrBlock_def prog_results by (blast intro: login_then session_signs movesD [OF bind_login] movesD [OF c])
qed

lemma add_user_result:
  "ADD_USER u pr su email phone row db = (x, db') \<Longrightarrow>
     (case x of Inl e \<Rightarrow> e = duplicate_row \<and> db' = db
      | Inr _ \<Rightarrow> BY_PHONE phone db = None \<and> db' = db\<lparr>users := users db @ [(u, row)]\<rparr>)"
  by (cases "BY_PHONE phone db") (auto simp: ADD_USER_def split: if_splits)

lemma added_owner:
  assumes "ADD_USER u pr su email phone (phone_user_row u pr' su' now email' phone) db = (Inr y, db')"
  shows "phone_owner phone db' = Some u \<and> refresh_tokens db' = refresh_tokens db"
  using add_user_result [OF assms] by (simp add: phone_owner_def BY_PHONE_def find_snoc has_phone_def phone_row)

lemma tried: "catching (and_then m (\<lambda>_. ret a)) h db = (Inr x, db') \<Longrightarrow>
    (\<exists>y. m db = (Inr y, db') \<and> x = a) \<or> (\<exists>e d1. m db = (Inl e, d1) \<and> h e d1 = (Inr x, db'))"
  by (auto simp: catching_def and_then_def split: prod.splits sum.splits)

lemma add_user_fails: "ADD_USER u pr su email phone row db = (Inl e, db') \<Longrightarrow> db' = db"
  by (drule add_user_result) simp

lemma or_owner_result:
  assumes "(case BY_PHONE phone db of Some p \<Rightarrow> ret (Some (fst p)) | None \<Rightarrow> m) db = (Inr x, db')"
    and "BY_PHONE phone db = None \<Longrightarrow> m db = (Inr x, db') \<Longrightarrow> Q"
    and "phone_owner phone db = x \<Longrightarrow> x \<noteq> None \<Longrightarrow> db' = db \<Longrightarrow> Q"
  shows Q
proof (cases "BY_PHONE phone db")
  case None
  with assms(1) have "m db = (Inr x, db')" by simp
  with None show Q by (rule assms(2))
next
  case (Some p)
  with assms(1) show Q by (intro assms(3)) (auto simp: phone_owner_def)
qed

lemma insert_or_owner_result:
  assumes "insert_or_owner u0 pending phone now db = (Inr x, db')"
  shows "phone_owner phone db' = Some (case x of None \<Rightarrow> u0 | Some u \<Rightarrow> u) \<and> refresh_tokens db' = refresh_tokens db"
  using tried [OF assms [unfolded insert_or_owner_def]]
proof (elim disjE exE conjE)
  fix y
  assume "insertSocial u0 pending phone (ps_email pending) now db = (Inr y, db')" "x = None"
  then show ?thesis using added_owner by (simp add: insertSocial_def)
next
  fix e d1
  assume "insertSocial u0 pending phone (ps_email pending) now db = (Inl e, d1)"
  then have d1: "d1 = db" using add_user_fails by (simp add: insertSocial_def)
  assume h: "(if \<not> isUnique e then throw e else and_then (reading (BY_PHONE phone)) (\<lambda>raced.
         case raced of Some p \<Rightarrow> ret (Some (fst p))
         | None \<Rightarrow> guard (or_empty (ps_email pending) \<noteq> []) phone_taken
               (catching (and_then (insertSocial u0 pending phone None now) (\<lambda>_. ret None)) (\<lambda>x2.
                  if \<not> isUnique x2 then throw x2
                  else and_then (reading (BY_PHONE phone)) (\<lambda>again.
                    case again of Some p \<Rightarrow> ret (Some (fst p)) | None \<Rightarrow> throw phone_taken))))) d1 = (Inr x, db')"
  from h [unfolded d1] have "(case BY_PHONE phone db of Some p \<Rightarrow> ret (Some (fst p))
         | None \<Rightarrow> guard (or_empty (ps_email pending) \<noteq> []) phone_taken
               (catching (and_then (insertSocial u0 pending phone None now) (\<lambda>_. ret None)) (\<lambda>x2.
                  if \<not> isUnique x2 then throw x2
                  else and_then (reading (BY_PHONE phone)) (\<lambda>again.
                    case again of Some p \<Rightarrow> ret (Some (fst p)) | None \<Rightarrow> throw phone_taken)))) db = (Inr x, db')"
    by (simp only: seq_simps split: if_splits) simp_all
  then show ?thesis
  proof (rule or_owner_result)
    assume "guard (or_empty (ps_email pending) \<noteq> []) phone_taken
               (catching (and_then (insertSocial u0 pending phone None now) (\<lambda>_. ret None)) (\<lambda>x2.
                  if \<not> isUnique x2 then throw x2
                  else and_then (reading (BY_PHONE phone)) (\<lambda>again.
                    case again of Some p \<Rightarrow> ret (Some (fst p)) | None \<Rightarrow> throw phone_taken))) db = (Inr x, db')"
    from tried [OF conjunct2 [OF this [unfolded guard_Inr]]] show ?thesis
    proof (elim disjE exE conjE)
      fix y
      assume "insertSocial u0 pending phone None now db = (Inr y, db')" "x = None"
      then show ?thesis using added_owner by (simp add: insertSocial_def)
    next
      fix e2 d2
      assume "insertSocial u0 pending phone None now db = (Inl e2, d2)"
      then have d2: "d2 = db" using add_user_fails by (simp add: insertSocial_def)
      assume "(if \<not> isUnique e2 then throw e2 else and_then (reading (BY_PHONE phone)) (\<lambda>again.
                    case again of Some p \<Rightarrow> ret (Some (fst p)) | None \<Rightarrow> throw phone_taken)) d2 = (Inr x, db')"
      then have "(case BY_PHONE phone db of Some p \<Rightarrow> ret (Some (fst p)) | None \<Rightarrow> throw phone_taken) db = (Inr x, db')"
        unfolding d2 by (simp only: seq_simps split: if_splits) simp_all
      then show ?thesis by (rule or_owner_result) auto
    qed
  qed auto
qed

lemma owner_login: "login_kept db db' \<Longrightarrow> phone_owner ph db' = phone_owner ph db"
  by (rule owner_same) (simp add: login_kept_def)

lemma signs_owner: "signs_in sha f now u db db' \<Longrightarrow> phone_owner ph db' = phone_owner ph db"
  by (rule owner_same) (simp add: signs_in_def)

text \<open>Whoever a completed verification signs in owns the phone afterwards.\<close>

definition owner_signed :: "(string \<Rightarrow> string) \<Rightarrow> fresh \<Rightarrow> int \<Rightarrow> string \<Rightarrow> 'z session_db_scheme \<Rightarrow> 'z session_db_scheme \<Rightarrow> bool" where
  "owner_signed sha f now phone db db' \<longleftrightarrow>
     (\<exists>u. phone_owner phone db' = Some u \<and> refresh_tokens db' = refresh_tokens db @ [new_refresh sha f now u])"

lemma signed_owner: "phone_owner phone db = Some u \<Longrightarrow> signs_in sha f now u db db' \<Longrightarrow> owner_signed sha f now phone db db'"
  unfolding owner_signed_def using signs_owner [of sha f now u db db' phone] by (simp add: signs_in_def)

lemma owner_before: "refresh_tokens db1 = refresh_tokens db \<Longrightarrow> owner_signed sha f now phone db1 db' \<Longrightarrow> owner_signed sha f now phone db db'"
  by (simp add: owner_signed_def)

lemma create_owner:
  assumes "createFromPending sha f now pending phone rid db = (Inr rs, db')"
  shows "owner_signed sha f now phone db db'"
proof -
  obtain x db1 where i: "insert_or_owner (fr_user f) pending phone now db = (Inr x, db1)"
      and rest: "(case x of Some u \<Rightarrow> linkOrBlock sha f now u pending phone rid
         | None \<Rightarrow> and_then (bindIdentity (fr_user f) (ps_provider pending) (ps_subject pending)) (\<lambda>_. finishOwned sha f now (fr_user f) phone True rid)) db1
       = (Inr rs, db')"
    using assms by (auto simp: createFromPending_def and_then_Inr)
  note r = insert_or_owner_result [OF i]
  have "signs_in sha f now (case x of None \<Rightarrow> fr_user f | Some u \<Rightarrow> u) db1 db'"
  proof (cases x)
    case None
    with rest obtain y db2 where "bindIdentity (fr_user f) (ps_provider pending) (ps_subject pending) db1 = (Inr y, db2)"
        "finishOwned sha f now (fr_user f) phone True rid db2 = (Inr rs, db')"
      unfolding None option.case and_then_Inr by blast
    then have "login_kept db1 db2" "signs_in sha f now (fr_user f) db2 db'" using movesD [OF bind_login] finish_signs by blast+
    then show ?thesis unfolding None option.case by (rule login_then)
  next
    case (Some u)
    from rest show ?thesis unfolding Some option.case by (rule link_signs)
  qed
  then have "owner_signed sha f now phone db1 db'" using signed_owner r by blast
  then show ?thesis using owner_before r by blast
qed

lemma sign_in_owner:
  assumes "signInPhone sha f now phone rid db = (Inr rs, db')"
  shows "owner_signed sha f now phone db db'"
proof (cases "BY_PHONE phone db")
  case (Some p)
  with assms have "finishOwned sha f now (fst p) phone False rid db = (Inr rs, db')" by (simp add: signInPhone_def seq_simps)
  from finish_signs [OF this] Some show ?thesis by (intro signed_owner [of phone db "fst p"]) (simp_all add: phone_owner_def)
next
  case None
  obtain x d1 where a: "INSERT_PHONE_USER (fr_user f) phone now db = (x, d1)" by (metis surj_pair)
  show ?thesis
  proof (cases x)
    case (Inr y)
    with a None assms have "finishOwned sha f now (fr_user f) phone True rid d1 = (Inr rs, db')"
      by (simp add: signInPhone_def catching_def and_then_def reading_def)
    moreover have o1: "phone_owner phone d1 = Some (fr_user f) \<and> refresh_tokens d1 = refresh_tokens db"
      using a Inr unfolding INSERT_PHONE_USER_def by (intro added_owner) simp
    ultimately have "owner_signed sha f now phone d1 db'" using signed_owner finish_signs by blast
    then show ?thesis using o1 owner_before by blast
  next
    case (Inl e)
    with a have "d1 = db" using add_user_fails by (simp add: INSERT_PHONE_USER_def)
    with a Inl None assms show ?thesis
      by (simp add: signInPhone_def catching_def and_then_def reading_def from_option_def split: if_splits)
  qed
qed

lemma complete_owner:
  assumes "complete_phone sha f now phone pending rid db = (Inr rs, db')"
  shows "owner_signed sha f now phone db db'"
proof (cases pending)
  case None
  with assms show ?thesis by (simp add: complete_phone_def sign_in_owner)
next
  case (Some s)
  show ?thesis
  proof (cases "BY_PHONE phone db")
    case None
    with assms Some show ?thesis by (simp add: complete_phone_def seq_simps create_owner)
  next
    case (Some p)
    with assms \<open>pending = Some s\<close> have "linkOrBlock sha f now (fst p) s phone rid db = (Inr rs, db')" by (simp add: complete_phone_def seq_simps)
    from link_signs [OF this] Some show ?thesis by (intro signed_owner [of phone db "fst p"]) (simp_all add: phone_owner_def)
  qed
qed

text \<open>C16: Who is signed in. A verification that succeeds presented the active code of the phone, before it expired and
  within its attempts; the code is consumed, and the one session it opens belongs to the account that
  owns the phone.\<close>

theorem phone_signs_owner_in:
  assumes "verifyPhone hmac jp sha env f now rq rid db = (Inr rs, db')"
  shows "\<exists>g u. verify_read jp rq db = (Inr g, db) \<and> now < pc_expires (gs_row g) \<and> pc_attempts (gs_row g) < max_attempts env \<and> right_code sha g
    \<and> phone_codes db' = consumed (\<lambda>c. pc_id c = pc_id (gs_row g)) now (phone_codes db)
    \<and> phone_owner (gs_phone g) db' = Some u \<and> refresh_tokens db' = refresh_tokens db @ [new_refresh sha f now u]"
proof -
  obtain g where g: "verify_read jp rq db = (Inr g, db)" and s: "verify_store hmac jp sha env f now rid g db = (Inr rs, db')"
    using assms verify_read_state [of jp rq db] by (auto simp: verifyPhone_def and_then_Inr)
  from s obtain p where e: "now < pc_expires (gs_row g)" "pc_attempts (gs_row g) < max_attempts env" "right_code sha g"
      and p: "pendingOf hmac jp env (gs_body g) now = Inr p"
      and c: "complete_phone sha f now (gs_phone g) p rid (CONSUME_ONE (pc_id (gs_row g)) now db) = (Inr rs, db')"
    by (auto simp: verify_store_def Let_def prog_results split: if_splits)
  have "phone_codes db' = consumed (\<lambda>c. pc_id c = pc_id (gs_row g)) now (phone_codes db)"
    using complete_codes [of sha f now "gs_phone g" p rid "CONSUME_ONE (pc_id (gs_row g)) now db"] c by (simp add: codes_after)
  moreover have "refresh_tokens (CONSUME_ONE (pc_id (gs_row g)) now db) = refresh_tokens db" by (simp add: CONSUME_ONE_def consume_where_def)
  then obtain u where "phone_owner (gs_phone g) db' = Some u" "refresh_tokens db' = refresh_tokens db @ [new_refresh sha f now u]"
    using complete_owner [OF c] by (auto simp: owner_signed_def)
  ultimately show ?thesis using g e by blast
qed

definition users_kept :: "'z session_db_scheme \<Rightarrow> 'z session_db_scheme \<Rightarrow> bool" where
  "users_kept db db' \<longleftrightarrow> (accounts_ok db \<longrightarrow> accounts_ok db') \<and> (\<exists>us. phones_of (users db') = phones_of (users db) @ us)
     \<and> (\<exists>ids. user_identities db' = user_identities db @ ids)"

interpretation usr: stable users_kept
  by unfold_locales (simp add: users_kept_def, fastforce simp: users_kept_def)

lemma codes_users: "users_kept db (CONSUME_ONE i now db)" "users_kept db (BUMP i db)"
  by (simp_all add: users_kept_def CONSUME_ONE_def consume_where_def BUMP_def accounts_ok_def)

lemma verify_users: "moves users_kept (verifyPhone hmac jp sha env f now rq rid)"
proof -
  have c: "moves users_kept (complete_phone sha f now phone pending rid :: ('z phone_db_scheme, response) core_prog)" for phone pending
    using complete_frame unfolding moves_def accounts_kept_def users_kept_def by blast
  show ?thesis
    unfolding verifyPhone_def verify_store_def verify_read_def Let_def
    by (auto intro!: usr.m_rules c codes_users)
qed

text \<open>C19: What a verification leaves of the accounts. Whatever it answers, no two personal accounts share a phone, every
  login belongs to one account, no account loses its phone, and no login changes hands.\<close>

theorem accounts_stay:
  assumes "verifyPhone hmac jp sha env f now rq rid db = (r, db')"
  shows "(accounts_ok db \<longrightarrow> accounts_ok db') \<and> (\<exists>us. phones_of (users db') = phones_of (users db) @ us)
    \<and> (\<exists>ids. user_identities db' = user_identities db @ ids)"
  using movesD [OF verify_users assms] unfolding users_kept_def .

subsection \<open>A code that was sent\<close>

lemma six_text: "code_text (six w)"
proof -
  let ?n = "unat w mod 1000000"
  have "length (nat_dec ?n) \<le> 6" by (rule length_nat_dec_le) simp_all
  then have "length (six w) = 6" by (simp add: six_def length_padStart)
  moreover have "is_digit CHR ''0''" by code_simp
  then have "list_all is_digit (six w)" using nat_dec_digits [of ?n] by (simp add: six_def padStart_def list_all_iff set_replicate_conv_if)
  ultimately show ?thesis by (simp add: code_text_def)
qed

lemma open_after_send:
  "filter (\<lambda>c. pc_phone c = ph \<and> pc_consumed c = None) (consumed (\<lambda>c. pc_phone c = ph) now cs) = []"
  by (induction cs) (auto simp: consumed_def)

lemma catch_same: "catching (from_sum v) (\<lambda>x. case x of HttpError a b c d \<Rightarrow> throw x | _ \<Rightarrow> throw sms_missing) db = (Inr y, db') \<longleftrightarrow> v = Inr y \<and> db' = db"
  by (auto simp: catching_def from_sum_def split: sum.splits core_exn.splits)

lemma sent_active:
  assumes "sendPhone jp sha env sms i w now rq rid db = (Inr rs, db')" and "readJson jp rq = Inr b" and "phoneOf b = Inr phone"
  shows "ACTIVE_CODE phone db' = Some (new_code sha i phone (six w) now (envInt (env ''PHONE_CODE_TTL_SEC'') DEFAULT_TTL 3600))"
proof -
  let ?c = "new_code sha i phone (six w) now (envInt (env ''PHONE_CODE_TTL_SEC'') DEFAULT_TTL 3600)"
  obtain x where "callerOf sha env now rq db = (x, db)" using caller_reads by (metis surj_pair)
  with assms have "INSERT_PHONE_CODE ?c (CONSUME_OPEN phone now db) = (Inr (), db')"
    by (auto simp: sendPhone_def Let_def prog_results catch_same)
  then have "phone_codes db' = consumed (\<lambda>c. pc_phone c = phone) now (phone_codes db) @ [?c]"
    by (auto simp: INSERT_PHONE_CODE_def codes_after split: if_splits)
  then show ?thesis by (simp add: ACTIVE_CODE_def open_after_send new_code_def)
qed

text \<open>C20: A code that was sent is accepted. The digits that were sent, leading zeros included, verify the phone until they
  expire, when nothing happened in between: the verification consumes the code and goes on to sign in.\<close>

theorem sent_code_accepted:
  assumes "sendPhone jp sha env sms i w now rq rid db = (Inr rs, db')" and "readJson jp rq = Inr b" and "phoneOf b = Inr phone"
    and "readJson jp rq' = Inr b'" and "phoneOf b' = Inr phone" and "jget b' ''code'' = JStr (six w)"
    and "now' < now + envInt (env ''PHONE_CODE_TTL_SEC'') DEFAULT_TTL 3600 * 1000" and "pendingOf hmac jp env b' now' = Inr pending"
  shows "verifyPhone hmac jp sha env f now' rq' rid' db' = complete_phone sha f now' phone pending rid' (CONSUME_ONE i now' db')"
proof -
  let ?c = "new_code sha i phone (six w) now (envInt (env ''PHONE_CODE_TTL_SEC'') DEFAULT_TTL 3600)"
  have "verify_read jp rq' db' = (Inr \<lparr>gs_phone = phone, gs_code = six w, gs_body = b', gs_row = ?c\<rparr>, db')"
    using sent_active [OF assms(1-3)] assms(4-6) six_text by (simp add: verify_read_Inr codeOf_def)
  then show ?thesis
    using assms(7,8) attempts_range [of env]
    by (simp add: verifyPhone_def and_then_Inr_first verify_store_def Let_def new_code_def right_code_def seq_simps)
qed

subsection \<open>Concrete runs\<close>

definition wp_phone :: string where "wp_phone = ''+821012345678''"

definition wp_body :: "string \<Rightarrow> jv" where
  "wp_body code = JObj [(''phone'', JStr wp_phone), (''code'', JStr code)]"

definition wp_jp :: "string \<Rightarrow> jv option" where
  "wp_jp s = Some (wp_body s)"

definition wp_rq :: "string \<Rightarrow> request" where
  "wp_rq code = \<lparr>rq_method = ''POST'', rq_path = ''/api/v1/auth/phone/verify'', rq_search = [], rq_query = [], rq_headers = [], rq_body = code\<rparr>"

definition wp_env :: core_env where "wp_env = (\<lambda>_. None)"

definition wp_code :: phone_code where
  "wp_code = \<lparr>pc_id = ''c'', pc_phone = wp_phone, pc_hash = ''c:000007'', pc_expires = 9000, pc_attempts = 0, pc_sent = 0, pc_consumed = None\<rparr>"

definition wp_db :: phone_db where
  "wp_db = \<lparr>users = [], company_members = Some [], refresh_tokens = [], access_tokens = [], exchange_codes = [], oauth_states = [],
     user_identities = [], companies = [], phone_codes = [wp_code]\<rparr>"

definition wp_fresh :: fresh where
  "wp_fresh = \<lparr>fr_access = ''a'', fr_refresh = ''r'', fr_refresh_id = ''ri'', fr_access_id = ''ai'', fr_user = ''u9''\<rparr>"

definition wp_hmac :: "string \<Rightarrow> string \<Rightarrow> string" where "wp_hmac k s = s"

definition wp_guess :: "string \<Rightarrow> guess" where
  "wp_guess code = \<lparr>gs_phone = wp_phone, gs_code = code, gs_body = wp_body code, gs_row = wp_code\<rparr>"

lemma wp_codes: "code_text ''000007''" "code_text ''000008''" "phone_text wp_phone"
  by code_simp+

lemma wp_body_fields: "jget (wp_body c) ''phone'' = JStr wp_phone" "jget (wp_body c) ''code'' = JStr c" "jget (wp_body c) ''pendingToken'' = JUndef"
  "readJson wp_jp (wp_rq c) = (if c = [] then Inl (validation ''request body required'') else Inr (wp_body c))"
  "phoneOf (wp_body c) = Inr wp_phone" "pendingOf h j e (wp_body c) now = Inr None"
  by (simp_all add: wp_body_def jget_def Prelude.fields_def readJson_def wp_rq_def wp_jp_def phoneOf_def wp_codes pendingOf_def nullish_def)

lemma wp_reads: "code_text c \<Longrightarrow> verify_read wp_jp (wp_rq c) wp_db = (Inr (wp_guess c), wp_db)"
  by (cases "c = []") (simp_all add: verify_read_Inr wp_guess_def wp_body_fields codeOf_def ACTIVE_CODE_def wp_db_def wp_code_def code_text_def)

lemma wp_max: "max_attempts wp_env = 5"
  by (simp add: max_attempts_def envInt_def wp_env_def DEFAULT_ATTEMPTS_def)

lemma wp_event: "guess_event wp_hmac wp_jp id wp_env 5 (wp_guess ''000007'') = Used ''c''"
  "guess_event wp_hmac wp_jp id wp_env 5 (wp_guess ''000008'') = Wrong ''c''"
  by (simp_all add: guess_event_def Let_def wp_guess_def wp_code_def wp_max right_code_def wp_body_fields)

definition wp_row :: jv where "wp_row = phone_user_row ''u9'' ''phone'' wp_phone 5 None wp_phone"

lemma wp_completed: "\<exists>rs db'. complete_phone id wp_fresh 5 wp_phone None ''q'' (CONSUME_ONE ''c'' 5 wp_db) = (Inr rs, db')"
proof -
  define d1 where "d1 = (CONSUME_ONE ''c'' 5 wp_db)\<lparr>users := [(''u9'', wp_row)]\<rparr>"
  define d2 where "d2 = d1\<lparr>user_identities := [\<lparr>idt_provider = ''phone'', idt_subject = wp_phone, idt_user = ''u9''\<rparr>]\<rparr>"
  have f: "users (CONSUME_ONE ''c'' 5 wp_db) = []" "user_identities (CONSUME_ONE ''c'' 5 wp_db) = []"
      "refresh_tokens (CONSUME_ONE ''c'' 5 wp_db) = []" "access_tokens (CONSUME_ONE ''c'' 5 wp_db) = []"
    by (simp_all add: CONSUME_ONE_def consume_where_def wp_db_def)
  have "INSERT_PHONE_USER (fr_user wp_fresh) wp_phone 5 (CONSUME_ONE ''c'' 5 wp_db) = (Inr (), d1)"
    by (simp add: INSERT_PHONE_USER_def ADD_USER_def f by_provider_def BY_PHONE_def d1_def wp_row_def wp_fresh_def)
  moreover have "bindIdentity ''u9'' ''phone'' wp_phone d1 = (Inr (), d2)"
    by (simp add: bindIdentity_def seq_simps IDENTITY_def d1_def d2_def f catching_def INSERT_IDENTITY_def wp_phone_def)
  moreover have "\<exists>rs db'. session_for id wp_fresh 5 ''u9'' True None ''q'' d2 = (Inr rs, db')"
  proof -
    have "map_of (users (clearDeletion ''u9'' d2)) ''u9'' \<noteq> None \<and> refresh_tokens (clearDeletion ''u9'' d2) = [] \<and> access_tokens (clearDeletion ''u9'' d2) = []"
      by (simp add: clearDeletion_def Let_def update_user_def d1_def d2_def f split: option.split)
    then have "\<exists>b db'. issue id wp_fresh 5 ''u9'' (clearDeletion ''u9'' d2) = (Inr b, db')"
      by (auto simp: issue_def and_then_def INSERT_SESSION_def new_refresh_def user_by_id_reads from_option_def split: option.split)
    then show ?thesis by (auto simp: session_for_def and_then_def writing_def)
  qed
  ultimately show ?thesis
    by (simp add: complete_phone_def signInPhone_def seq_simps BY_PHONE_def f catching_def and_then_def finishOwned_def wp_fresh_def reading_def)
qed

lemma wp_success: "\<exists>rs db'. verifyPhone wp_hmac wp_jp id wp_env wp_fresh 5 (wp_rq ''000007'') ''q'' wp_db = (Inr rs, db')"
proof -
  have "verify_store wp_hmac wp_jp id wp_env wp_fresh 5 ''q'' (wp_guess ''000007'') wp_db
      = complete_phone id wp_fresh 5 wp_phone None ''q'' (CONSUME_ONE ''c'' 5 wp_db)"
    by (simp add: verify_store_def Let_def wp_guess_def wp_code_def wp_max right_code_def seq_simps wp_body_fields)
  with wp_completed show ?thesis using wp_reads [OF wp_codes(1)] by (simp add: verifyPhone_def and_then_Inr_first)
qed

lemma wp_step: "code_text c \<Longrightarrow> verifyPhone wp_hmac wp_jp id wp_env wp_fresh 5 (wp_rq c) ''q'' wp_db = (r, db')
    \<Longrightarrow> phone_step wp_hmac wp_jp id wp_env wp_db (guess_event wp_hmac wp_jp id wp_env 5 (wp_guess c)) db'"
  using P_verify [of wp_hmac wp_jp id wp_env wp_fresh 5 "wp_rq c" "''q''" wp_db r db'] by (simp add: verify_event_def wp_reads)

theorem codes_limited_witness:
  "\<exists>es db'. run (phone_step wp_hmac wp_jp id wp_env) wp_db es db' \<and> es = [Wrong ''c'']
     \<and> length (filter (\<lambda>e. e = Wrong ''c'') es) \<le> nat (max_attempts wp_env) \<and> max_attempts wp_env \<le> 20"
proof -
  obtain r db' where "verifyPhone wp_hmac wp_jp id wp_env wp_fresh 5 (wp_rq ''000008'') ''q'' wp_db = (r, db')" by (metis surj_pair)
  from wp_step [OF wp_codes(2) this] have r: "run (phone_step wp_hmac wp_jp id wp_env) wp_db [Wrong ''c''] db'"
    unfolding wp_event by (rule run_single [where step = "phone_step wp_hmac wp_jp id wp_env"])
  have "distinct (map pc_id (phone_codes wp_db))" "\<forall>c \<in> set (phone_codes wp_db). 0 \<le> pc_attempts c"
    by (simp_all add: wp_db_def wp_code_def)
  from codes_limited [OF r this, of "''c''"] r show ?thesis by blast
qed

lemma wp_guess_at: "code_text x \<Longrightarrow> guess_at wp_jp wp_db wp_phone wp_code (wp_guess x) 5"
  unfolding guess_at_def using wp_reads [of x] by (auto simp: wp_guess_def ACTIVE_CODE_def wp_db_def wp_code_def)

theorem guesses_at_once_witness:
  "max_attempts wp_env = 5
   \<and> (\<exists>db0 db1. store_all wp_hmac wp_jp id wp_env (replicate 100 (wp_guess ''000008'', wp_fresh, 5, ''q'')) wp_db = (replicate 100 (Inl code_invalid), db0)
        \<and> (\<exists>c0 \<in> set (phone_codes db0). pc_id c0 = ''c'' \<and> pc_attempts c0 = 100)
        \<and> db1 = snd (complete_phone id wp_fresh 5 wp_phone None ''q'' (CONSUME_ONE ''c'' 5 db0))
        \<and> (\<exists>c1 \<in> set (phone_codes db1). pc_id c1 = ''c'' \<and> pc_consumed c1 = Some 5)
        \<and> verify_store wp_hmac wp_jp id wp_env wp_fresh 5 ''q'' (wp_guess ''000007'') db1
            = complete_phone id wp_fresh 5 wp_phone None ''q'' (CONSUME_ONE ''c'' 5 db1))"
proof -
  let ?ws = "replicate 100 (wp_guess ''000008'', wp_fresh, 5, ''q'')"
  obtain out and db0 :: phone_db where w: "store_all wp_hmac wp_jp id wp_env ?ws wp_db = (out, db0)" by (metis surj_pair)
  obtain r1 and db1 :: phone_db where v: "verify_store wp_hmac wp_jp id wp_env wp_fresh 5 ''q'' (wp_guess ''000007'') db0 = (r1, db1)" by (metis surj_pair)
  have k: "pc_id wp_code = ''c''" "pc_attempts wp_code = 0" "\<not> right_code id (wp_guess ''000008'')" "right_code id (wp_guess ''000007'')"
    "pendingOf wp_hmac wp_jp wp_env (gs_body (wp_guess ''000007'')) 5 = Inr None"
    by (simp_all add: wp_code_def right_code_def wp_guess_def wp_body_fields)
  have a: "\<forall>(g, f, now, rid) \<in> set ?ws. guess_at wp_jp wp_db wp_phone wp_code g now \<and> \<not> right_code id g"
    using wp_guess_at [OF wp_codes(2)] k by auto
  have m: "pc_attempts wp_code < max_attempts wp_env" by (simp add: k wp_max)
  from guesses_at_once [OF a m wp_guess_at [OF wp_codes(1)] k(4,5) wp_guess_at [OF wp_codes(1)] k(4,5) w v, of wp_fresh "''q''"]
  have t: "out = replicate 100 (Inl code_invalid)" "\<exists>c0 \<in> set (phone_codes db0). pc_id c0 = ''c'' \<and> pc_attempts c0 = 100"
    "(r1, db1) = complete_phone id wp_fresh 5 wp_phone None ''q'' (CONSUME_ONE ''c'' 5 db0)"
    "\<exists>c1 \<in> set (phone_codes db1). pc_id c1 = ''c'' \<and> pc_consumed c1 = Some 5"
    "verify_store wp_hmac wp_jp id wp_env wp_fresh 5 ''q'' (wp_guess ''000007'') db1 = complete_phone id wp_fresh 5 wp_phone None ''q'' (CONSUME_ONE ''c'' 5 db1)"
    by (simp_all add: k)
  from t(3) have "db1 = snd (complete_phone id wp_fresh 5 wp_phone None ''q'' (CONSUME_ONE ''c'' 5 db0))" by (metis snd_conv)
  with t w wp_max show ?thesis by blast
qed

theorem phone_signs_owner_in_witness:
  "\<exists>rs (db' :: phone_db). verifyPhone wp_hmac wp_jp id wp_env wp_fresh 5 (wp_rq ''000007'') ''q'' wp_db = (Inr rs, db')
     \<and> (\<exists>u. phone_owner wp_phone db' = Some u \<and> map rf_user (refresh_tokens db') = [u])"
proof -
  obtain rs and db' :: phone_db where v: "verifyPhone wp_hmac wp_jp id wp_env wp_fresh 5 (wp_rq ''000007'') ''q'' wp_db = (Inr rs, db')"
    using wp_success by blast
  obtain g u where "verify_read wp_jp (wp_rq ''000007'') wp_db = (Inr g, wp_db)" "phone_owner (gs_phone g) db' = Some u"
      "refresh_tokens db' = refresh_tokens wp_db @ [new_refresh id wp_fresh 5 u]"
    using phone_signs_owner_in [OF v] by blast
  then have "phone_owner wp_phone db' = Some u \<and> map rf_user (refresh_tokens db') = [u]"
    using wp_reads [OF wp_codes(1)] by (auto simp: wp_guess_def wp_db_def new_refresh_def)
  with v show ?thesis by auto
qed

theorem accounts_stay_witness:
  "\<exists>rs (db' :: phone_db). verifyPhone wp_hmac wp_jp id wp_env wp_fresh 5 (wp_rq ''000007'') ''q'' wp_db = (Inr rs, db') \<and> accounts_ok db'"
proof -
  obtain rs and db' :: phone_db where v: "verifyPhone wp_hmac wp_jp id wp_env wp_fresh 5 (wp_rq ''000007'') ''q'' wp_db = (Inr rs, db')"
    using wp_success by blast
  have "accounts_ok wp_db" by (simp add: accounts_ok_def wp_db_def)
  with accounts_stay [OF v] v show ?thesis by blast
qed

text \<open>A code is sent to the phone while nothing was sent before, and then presented.\<close>

definition wp_new :: phone_db where "wp_new = wp_db\<lparr>phone_codes := []\<rparr>"

lemma wp_sent: "\<exists>rs db'. sendPhone wp_jp id wp_env (Some (\<lambda>_ _. Inr ())) ''c'' 7 0 (wp_rq ''000007'') ''q'' wp_new = (Inr rs, db')"
proof -
  have "callerOf id wp_env 0 (wp_rq ''000007'') wp_new = (Inr None, wp_new)"
    by (simp add: callerOf_def header_def wp_rq_def jm_get_def or_empty_def)
  then show ?thesis
    by (simp add: sendPhone_def Let_def and_then_def from_sum_def wp_body_fields reading_def LATEST_SENT_def wp_new_def guard_def writing_def
        CONSUME_OPEN_def consume_where_def INSERT_PHONE_CODE_def catching_def)
qed

theorem sent_code_accepted_witness:
  "\<exists>rs (db' :: phone_db). sendPhone wp_jp id wp_env (Some (\<lambda>_ _. Inr ())) ''c'' 7 0 (wp_rq ''000007'') ''q'' wp_new = (Inr rs, db')
     \<and> verifyPhone wp_hmac wp_jp id wp_env wp_fresh 5 (wp_rq ''000007'') ''q'' db' = complete_phone id wp_fresh 5 wp_phone None ''q'' (CONSUME_ONE ''c'' 5 db')"
proof -
  obtain rs and db' :: phone_db where s: "sendPhone wp_jp id wp_env (Some (\<lambda>_ _. Inr ())) ''c'' 7 0 (wp_rq ''000007'') ''q'' wp_new = (Inr rs, db')"
    using wp_sent by blast
  have six7: "six 7 = ''000007''" by (simp add: six_def padStart_def nat_dec.simps digit_char_def) code_simp
  have "verifyPhone wp_hmac wp_jp id wp_env wp_fresh 5 (wp_rq ''000007'') ''q'' db' = complete_phone id wp_fresh 5 wp_phone None ''q'' (CONSUME_ONE ''c'' 5 db')"
    by (rule sent_code_accepted [OF s, where b = "wp_body ''000007''" and b' = "wp_body ''000007''"])
      (simp_all add: wp_body_fields six7 envInt_def wp_env_def DEFAULT_TTL_def)
  with s show ?thesis by blast
qed

end
