(* ===== verification/Spec2Isabelle.thy ===== *)
theory Spec2Isabelle
  imports Gateway Core_Page Core_Body Enqueue Routes_Agree Session_Props Core_Handler Billing_Credits Doc_Theorems Phone_Props
begin

text \<open>
  Verification of the push backend: the two TypeScript workers under \<open>services/gateway/src\<close> and
  \<open>services/core-api/src\<close>.

  The program. Clients call \<open>/api/v1\<close> on the gateway worker. It counts requests, finds the user of a
  token in an isolate-local cache or in the database, answers a few routes itself (health, the catalogue,
  conversation and message pages, the event stream of a job) and forwards every other path to the core
  worker or to the AI worker, as \<open>ownerOf\<close> says. The core worker identifies the caller, applies its own rate
  limit and the idempotency layer, and dispatches to the files under \<open>routes/\<close>: sessions, phone sign-in,
  billing, applications, documents and others. Jobs for the AI worker (Python) are rows of \<open>ai_jobs\<close> and
  \<open>outbox\<close>, paid for by the credit ledger.

  How it is modelled. A handler is a program of the theory Prog: a function from the state to an error
  or a value, and the state after it; \<open>guard\<close>, \<open>and_then\<close> and \<open>catching\<close> are the throw, the sequence and the
  catch of the source. The state is a record of tables, each a list of rows, with a field extension for
  every further table, so that a program on sessions also runs on the state of a later component. One SQL
  statement is one function on the tables, written in capitals where the source names it. Where several
  requests run at once, the statements of a handler are the steps of a relation and what a request has
  read is part of the state (Lease_System, Session_Db, Submission_Props, Doc_Interleave, Phone_Props), or a
  run lists the statements of all requests (Enqueue, Billing_Props); runs, their invariants and the contract
  of a compare-and-set are in Runs.

  Theories, in the order of the calls.
  Prelude: characters, strings, numbers and JSON of the language; Prog, Frames, Runs, Once: programs, frames,
  runs, inserts that do nothing when the key is there; Js_Map: the \<open>Map\<close> objects.
  Gateway: Clock and Cursor (\<open>time.ts\<close>), Py_Json (\<open>pyJson\<close>, entity tags), Cache, Http, Rate_Limit and
  Lease_System (\<open>middleware/ratelimit.ts\<close>, many isolates and one table), Gw_Auth (\<open>middleware/auth.ts\<close>),
  Owner (\<open>routes/owner.ts\<close>), Proxy, Catalog, Conversations, Paging and Event_Stream (\<open>routes/conversations.ts\<close>
  and what a client gets that follows its cursors or its stream), Gateway (\<open>handler.ts\<close>).
  Core: Core_Http, Core_Page, Core_Body (\<open>http.ts\<close>, \<open>db.ts\<close>, \<open>page.ts\<close>, \<open>body.ts\<close>), Job_Config, Credits, Enqueue
  (\<open>jobs/\<close>, \<open>billing/credits.ts\<close>), Core_Routes and Routes_Agree (every \<open>dispatch\<close> function, and the routes of
  the two workers against each other), Core_User and Internal_Auth (\<open>internal-auth.ts\<close>), Crypto, Session_Db,
  Sessions and Session_Props (\<open>auth/\<close>, \<open>routes/auth.ts\<close>), Phone_Auth and Phone_Props (\<open>routes/phone-auth.ts\<close>),
  Core_Limit, Idempotency and Core_Handler (\<open>ratelimit.ts\<close>, \<open>handler.ts\<close>), Billing_Db, Billing, Webhooks,
  Billing_Props and Billing_Credits (\<open>routes/billing.ts\<close>), Route_Base (what the route files share),
  Applications, Submissions and Submission_Props (\<open>routes/applications.ts\<close>) with Postings (\<open>patchApplicant\<close> of
  \<open>routes/postings.ts\<close>, the other writer of a stage), Doc_Content and Doc_Edits
  (\<open>document-content.ts\<close>), Doc_Db, Documents, Doc_Final and Doc_Share (\<open>routes/documents.ts\<close>), and on them Doc_Runs,
  Doc_Steps, Doc_System, Doc_Interleave, Doc_Safety, Doc_Props, Doc_Claims, Doc_Theorems and Doc_Extras.

  What is shown. Isolates that lease from one counter admit together at most the limit of a bucket, up to the
  hits that a sign-out hands back twice while a lease is replaced and the expired rows that are purged, both
  counted (Lease_System). By compare-and-set, in every interleaving of the modelled statements, a token is
  rotated and a code or a state used at most once, an approval consumed and a proposal applied at most
  once, and one job is written for an idempotency key. Whole requests of billing, in any order, process an
  event once and credit a session or a store transaction once; they are not split into statements. A
  revoked refresh token stays refused, its access tokens for requests that began after the last statement.
  Documents, in the interleavings of the core worker's document handlers: what is exported was finalized, what
  is finalized was approved with exactly its content; and, with the fill of profile documents by the AI
  worker among the steps, the versions are numbered without gaps and a save was made from the document as it
  is, a profile document's first version aside. The owner's requests move an application along the stage
  machine, to \<open>APPLIED\<close> only by an approved submission; the move of an employer is not bound to the machine and
  its statement has no guard. The rules of documents are those of a tree of blocks. The gateway forwards what
  the core worker answers, to the right owner and with headers a client cannot forge; a handler runs for an
  identified user, but for the route of the notification jobs. Pages and streams are complete and end. A
  phone code signs in the owner of the phone. Some theorems and lemmas show where the code does less than it
  means to: guesses of a phone code that run at once pass the limit and use it twice, sharing a document
  again may fail, an edit may be refused for a text that occurs twice, a session may survive the detection
  of a reused token, a patch may lose the version the worker filled in, an employer may reopen a closed
  application, a sign-out may hand back hits twice, and a renewal of a subscription credits nothing.

  What the runs leave out. Accounts, applications and documents are not deleted in them, and the AI service's
  own document service (\<open>services/ai/src/app/domain/services/document.py\<close>) writes documents outside them. What
  other writers do is a step where it matters: decisions on approvals, rows that others add, the workers and
  the administration of the queue (Enqueue), the fill of profile documents, the purge of expired counters.

  Bounds. The event stream counts down its maximum of polls; only where \<open>SSE_MAX_POLLS\<close> is infinite does it run on an
  argument \<open>fuel\<close>, the polls that are observed. Following cursors takes a number of pages, and more than
  the number of rows is enough, as every page before the last shows at least one row. The retry of the idempotency layer
  ends after one retry, as is
  proved. Random values, identifiers and the time of a request are arguments. Times are milliseconds
  since the epoch; a timestamp that a client sends is kept as text. JSON numbers are integers. A string is
  a list of Latin-1 characters, one per code unit; a constant of the source beyond Latin-1 is its
  UTF-8 bytes, and where the width of a unit matters (\<open>pyJson\<close>, response bodies) units are 16-bit words. The credits of a store top-up are an
  unbounded number where the source rounds above \<open>2^53\<close>. Where
  the database leaves the order of equal timestamps open, the models order them by id. \<open>jsonb\<close> columns
  keep the values that were written.

  What is a parameter. \<open>Date.parse\<close> beyond the patterns of the source, \<open>JSON.parse\<close>, SHA-256, SHA-1, HMAC,
  \<open>randomUUID\<close>, the \<open>URL\<close> class, \<open>ILIKE\<close> and timestamp input of PostgreSQL, Stripe, the checks of the app stores, a sender of
  text messages, the upstream workers, the text of an uploaded source, and which part of the statement that shares a
  document the database runs first.

  What is not modelled. The copy of a document onto the profile (an argument of the handlers that call it),
  the fit of an application with a posting (decimal fractions), the OAuth redirects and the Apple and e-mail
  sign-in (calls of providers, PBKDF2 and JWT of the platform), receipts of the app stores (X.509 over WebCrypto), AES-GCM,
  and the route files of postings (but for \<open>patchApplicant\<close>), companies, offers, profiles, posts, search, settings, projects, interviews,
  integrations, sources and images, whose routes are in Core_Routes and whose bodies are SQL for reading or
  guarded updates of single rows. \<open>packages/contracts/src/schema.ts\<close> is generated types. The AI worker, the
  migrations, scripts and deployment are other languages; the constraints of the tables are in the statements.
\<close>

end
